(* ===== verification/Cinder_Prelude.thy ===== *)
theory Cinder_Prelude
  imports Complex_Main "HOL-Library.Sublist"
begin

text \<open>
  What every component of the development shares: JavaScript strings, the string and array
  methods the sources call, decimal printing and reading, and the numbers of the language.

  \<^item> A JavaScript string is the list of its code units, as \<^typ>\<open>int\<close> values; \<open>js\<close> turns an
    ASCII literal into one. Text is taken from the Basic Multilingual Plane, where a code unit
    is a character.
  \<^item> A JavaScript number is \<open>jsnum\<close>: a finite value, held as an exact rational, or one of the
    values that \<open>Number.isFinite\<close> refuses. A finite value at or past the overflow threshold of
    a double is an infinity (\<open>toDouble\<close>); rounding to 53 bits is not modelled.
  \<^item> What depends on Unicode tables or on the user's locale (\<open>toLocaleLowerCase\<close>,
    \<open>toUpperCase\<close>, the classes \<open>\p{L}\<close> and \<open>\p{N}\<close>) and the printing of a number are
    parameters, of type \<open>js_env\<close>; \<open>ascii_env\<close> is an instance of it.
\<close>

section \<open>Collections of rewrite rules\<close>

named_theorems js_defs \<open>definitions of the string and array methods\<close>
named_theorems digit_simps \<open>facts on decimal digits\<close>

section \<open>Strings\<close>

type_synonym jsstring = "int list"

definition js :: "string \<Rightarrow> jsstring" where
  "js s = map of_char s"

definition isSpace :: "int \<Rightarrow> bool" where
  "isSpace c \<longleftrightarrow> (9 \<le> c \<and> c \<le> 13) \<or> c = 32 \<or> c = 160 \<or> c = 5760 \<or> (8192 \<le> c \<and> c \<le> 8202) \<or>
     c = 8232 \<or> c = 8233 \<or> c = 8239 \<or> c = 8287 \<or> c = 12288 \<or> c = 65279"

definition isDigit :: "int \<Rightarrow> bool" where
  "isDigit c \<longleftrightarrow> 48 \<le> c \<and> c \<le> 57"

definition isUpper :: "int \<Rightarrow> bool" where
  "isUpper c \<longleftrightarrow> 65 \<le> c \<and> c \<le> 90"

definition isLower :: "int \<Rightarrow> bool" where
  "isLower c \<longleftrightarrow> 97 \<le> c \<and> c \<le> 122"

definition isWordChar :: "int \<Rightarrow> bool" where
  "isWordChar c \<longleftrightarrow> isDigit c \<or> isUpper c \<or> isLower c \<or> c = 95"

definition isLineEnd :: "int \<Rightarrow> bool" where
  "isLineEnd c \<longleftrightarrow> c = 10 \<or> c = 13 \<or> c = 8232 \<or> c = 8233"

definition asciiLowerChar :: "int \<Rightarrow> int" where
  "asciiLowerChar c = (if isUpper c then c + 32 else c)"

definition asciiUpperChar :: "int \<Rightarrow> int" where
  "asciiUpperChar c = (if isLower c then c - 32 else c)"

definition trimStart :: "jsstring \<Rightarrow> jsstring" where
  "trimStart s = dropWhile isSpace s"

definition trimEnd :: "jsstring \<Rightarrow> jsstring" where
  "trimEnd s = rev (dropWhile isSpace (rev s))"

definition trim :: "jsstring \<Rightarrow> jsstring" where
  "trim s = trimEnd (trimStart s)"

definition startsWith :: "jsstring \<Rightarrow> jsstring \<Rightarrow> bool" where
  "startsWith s p \<longleftrightarrow> take (length p) s = p"

definition endsWith :: "jsstring \<Rightarrow> jsstring \<Rightarrow> bool" where
  "endsWith s p \<longleftrightarrow> startsWith (rev s) (rev p)"

fun strIncludes :: "jsstring \<Rightarrow> jsstring \<Rightarrow> bool" where
  "strIncludes [] p = (p = [])"
| "strIncludes (c # s) p = (startsWith (c # s) p \<or> strIncludes s p)"

fun joinWith :: "jsstring \<Rightarrow> jsstring list \<Rightarrow> jsstring" where
  "joinWith sep [] = []"
| "joinWith sep [s] = s"
| "joinWith sep (s # t # ss) = s @ sep @ joinWith sep (t # ss)"

fun splitOn :: "int \<Rightarrow> jsstring \<Rightarrow> jsstring list" where
  "splitOn d [] = [[]]"
| "splitOn d (c # s) =
     (if c = d then [] # splitOn d s
      else case splitOn d s of [] \<Rightarrow> [[c]] | w # ws \<Rightarrow> (c # w) # ws)"

text \<open>\<open>s.slice(0, n)\<close> for a bound \<open>n\<close> that is not negative.\<close>

fun sliceTo :: "int \<Rightarrow> 'a list \<Rightarrow> 'a list" where
  "sliceTo n [] = []"
| "sliceTo n (c # s) = (if n \<le> 0 then [] else c # sliceTo (n - 1) s)"

definition orElse :: "jsstring \<Rightarrow> jsstring \<Rightarrow> jsstring" where
  "orElse s t = (if s = [] then t else s)"

section \<open>Arrays and maps\<close>

fun findIndex :: "('a \<Rightarrow> bool) \<Rightarrow> 'a list \<Rightarrow> int" where
  "findIndex P [] = - 1"
| "findIndex P (x # xs) =
     (if P x then 0 else let i = findIndex P xs in if i < 0 then i else i + 1)"

definition nthOpt :: "'a list \<Rightarrow> int \<Rightarrow> 'a option" where
  "nthOpt xs i = (if 0 \<le> i \<and> i < int (length xs) then Some (xs ! nat i) else None)"

text \<open>A \<open>Map\<close> keeps its keys in the order of their first insertion; a later \<open>set\<close> of a key
  replaces the value and keeps the place.\<close>

fun mapSet :: "'k \<Rightarrow> 'v \<Rightarrow> ('k \<times> 'v) list \<Rightarrow> ('k \<times> 'v) list" where
  "mapSet k v [] = [(k, v)]"
| "mapSet k v ((k', v') # m) = (if k = k' then (k, v) # m else (k', v') # mapSet k v m)"

definition mapDelete :: "'k \<Rightarrow> ('k \<times> 'v) list \<Rightarrow> ('k \<times> 'v) list" where
  "mapDelete k m = filter (\<lambda>(k', v). k' \<noteq> k) m"

definition newMap :: "('k \<times> 'v) list \<Rightarrow> ('k \<times> 'v) list" where
  "newMap kvs = fold (\<lambda>(k, v) m. mapSet k v m) kvs []"

section \<open>Numbers\<close>

datatype jsnum = Fin rat | NaN | PosInf | NegInf

definition isFinite :: "jsnum \<Rightarrow> bool" where
  "isFinite x \<longleftrightarrow> (case x of Fin _ \<Rightarrow> True | _ \<Rightarrow> False)"

definition doubleOverflow :: rat where
  "doubleOverflow = 2 ^ 1024 - 2 ^ 970"

definition toDouble :: "rat \<Rightarrow> jsnum" where
  "toDouble q = (if doubleOverflow \<le> q then PosInf
                 else if q \<le> - doubleOverflow then NegInf else Fin q)"

definition mathRound :: "rat \<Rightarrow> int" where
  "mathRound x = \<lfloor>x + 1 / 2\<rfloor>"

definition mathCeil :: "rat \<Rightarrow> int" where
  "mathCeil x = \<lceil>x\<rceil>"

text \<open>Decimal printing of an integer and reading of a digit string.\<close>

function showPos :: "int \<Rightarrow> jsstring" where
  "showPos n = (if n < 10 then [48 + n] else showPos (n div 10) @ [48 + n mod 10])"
  by pat_completeness auto
termination
  by (relation "measure nat") auto

declare showPos.simps [simp del]

definition showInt :: "int \<Rightarrow> jsstring" where
  "showInt n = (if n < 0 then 45 # showPos (- n) else showPos n)"

definition readDigits :: "jsstring \<Rightarrow> int" where
  "readDigits s = foldl (\<lambda>a c. a * 10 + (c - 48)) 0 s"

section \<open>Unicode tables, locale and number printing\<close>

record js_env =
  lowerCase :: "jsstring \<Rightarrow> jsstring"
  upperCase :: "jsstring \<Rightarrow> jsstring"
  isLetterOrNumber :: "int \<Rightarrow> bool"
  numToString :: "rat \<Rightarrow> jsstring"

text \<open>An instance: ASCII case mapping and letters, and the decimal expansion of a number to at
  most \<open>k\<close> places, which is exact for the values with that many.\<close>

fun showFrac :: "nat \<Rightarrow> rat \<Rightarrow> jsstring" where
  "showFrac 0 q = []"
| "showFrac (Suc k) q =
     (if q = 0 then [] else let d = \<lfloor>q * 10\<rfloor> in (48 + d) # showFrac k (q * 10 - of_int d))"

definition showDecimal :: "rat \<Rightarrow> jsstring" where
  "showDecimal q =
     (let a = \<bar>q\<bar>; n = \<lfloor>a\<rfloor>; f = showFrac 17 (a - of_int n)
      in (if q < 0 then [45] else []) @ showPos n @ (if f = [] then [] else 46 # f))"

definition ascii_env :: js_env where
  "ascii_env = \<lparr>lowerCase = map asciiLowerChar, upperCase = map asciiUpperChar,
     isLetterOrNumber = (\<lambda>c. isDigit c \<or> isUpper c \<or> isLower c),
     numToString = showDecimal\<rparr>"

text \<open>The upper-casing of a string agrees with ASCII on ASCII text.\<close>

definition asciiUpperLaw :: "js_env \<Rightarrow> bool" where
  "asciiUpperLaw U \<longleftrightarrow> (\<forall>s. (\<forall>c \<in> set s. 0 \<le> c \<and> c < 128) \<longrightarrow> upperCase U s = map asciiUpperChar s)"

section \<open>Lemmas\<close>

lemmas char_class_defs =
  isSpace_def isDigit_def isUpper_def isLower_def isWordChar_def isLineEnd_def

lemma asciiUpperLaw_ascii: "asciiUpperLaw ascii_env"
  by (simp add: asciiUpperLaw_def ascii_env_def)

lemma isDigit_not_space [simp]: "isDigit c \<Longrightarrow> \<not> isSpace c"
  by (simp add: isDigit_def isSpace_def)

lemma trim_id: "s \<noteq> [] \<Longrightarrow> \<not> isSpace (hd s) \<Longrightarrow> \<not> isSpace (last s) \<Longrightarrow> trim s = s"
  by (cases s) (auto simp: trim_def trimStart_def trimEnd_def hd_rev [symmetric] dropWhile_eq_self_iff)

lemma trim_Nil [simp]: "trim [] = []"
  by (simp add: trim_def trimStart_def trimEnd_def)

lemma dropWhile_hd: "dropWhile P s \<noteq> [] \<Longrightarrow> \<not> P (hd (dropWhile P s))"
  by (rule hd_dropWhile)

lemma trim_nonspace_ends:
  assumes "trim s \<noteq> []"
  shows "\<not> isSpace (hd (trim s))" and "\<not> isSpace (last (trim s))"
proof -
  let ?t = "dropWhile isSpace s"
  have t: "trim s = rev (dropWhile isSpace (rev ?t))"
    by (simp add: trim_def trimStart_def trimEnd_def)
  have "dropWhile isSpace (rev ?t) \<noteq> []" using assms t by auto
  then show "\<not> isSpace (last (trim s))"
    by (simp add: t last_rev dropWhile_hd)
  obtain u where u: "rev ?t = u @ dropWhile isSpace (rev ?t)"
    by (metis takeWhile_dropWhile_id)
  then have "?t = rev (dropWhile isSpace (rev ?t)) @ rev u"
    by (metis rev_append rev_rev_ident)
  then have eq: "?t = trim s @ rev u" by (simp add: t)
  then have "?t \<noteq> []" using assms by auto
  then have "\<not> isSpace (hd ?t)" by (rule dropWhile_hd)
  moreover have "hd ?t = hd (trim s)" using assms by (metis eq hd_append2)
  ultimately show "\<not> isSpace (hd (trim s))" by simp
qed

lemma trim_idem [simp]: "trim (trim s) = trim s"
proof (cases "trim s = []")
  case True
  then show ?thesis by simp
next
  case False
  then show ?thesis by (intro trim_id trim_nonspace_ends)
qed

lemma set_trim: "set (trim s) \<subseteq> set s"
  by (auto simp: trim_def trimStart_def trimEnd_def dest!: set_dropWhileD)

lemma length_trim: "length (trim s) \<le> length s"
  unfolding trim_def trimStart_def trimEnd_def
  by (metis length_dropWhile_le length_rev order_trans)

lemma sliceTo_take: "sliceTo n s = take (nat n) s"
proof (induction s arbitrary: n)
  case (Cons c s)
  show ?case
  proof (cases "n \<le> 0")
    case False
    then have "nat n = Suc (nat (n - 1))" by simp
    then show ?thesis using False Cons.IH by simp
  qed simp
qed simp

lemma length_sliceTo: "0 \<le> n \<Longrightarrow> int (length (sliceTo n s)) \<le> n"
  by (simp add: sliceTo_take)

lemma set_sliceTo: "set (sliceTo n s) \<subseteq> set s"
  by (simp add: sliceTo_take set_take_subset)

lemma sliceTo_all: "int (length s) \<le> n \<Longrightarrow> sliceTo n s = s"
  by (simp add: sliceTo_take)

lemma startsWith_iff_prefix: "startsWith s p \<longleftrightarrow> prefix p s"
  by (auto simp: startsWith_def prefix_def) (metis append_take_drop_id)

lemma startsWith_append [simp]: "startsWith (p @ s) p"
  by (simp add: startsWith_def)

lemma includes_iff_sublist: "strIncludes s p \<longleftrightarrow> sublist p s"
  by (induction s) (auto simp: startsWith_iff_prefix sublist_Cons_right)

lemma splitOn_nonempty [simp]: "splitOn d s \<noteq> []"
  by (induction s) (auto split: list.splits)

lemma splitOn_absent: "d \<notin> set s \<Longrightarrow> splitOn d s = [s]"
  by (induction s) auto

lemma splitOn_append: "d \<notin> set s \<Longrightarrow> splitOn d (s @ d # t) = s # splitOn d t"
  by (induction s) auto

lemma split_at: "d \<notin> set x \<Longrightarrow> d \<notin> set y \<Longrightarrow> x @ d # s = y @ d # t \<Longrightarrow> x = y \<and> s = t"
proof (induction x arbitrary: y)
  case Nil
  then show ?case by (cases y) auto
next
  case (Cons c x)
  then show ?case by (cases y) auto
qed

lemma splitOn_join: "joinWith [d] (splitOn d s) = s"
proof (induction s)
  case Nil
  show ?case by simp
next
  case (Cons c s)
  obtain w ws where w: "splitOn d s = w # ws" by (cases "splitOn d s") auto
  then show ?case using Cons by (cases ws) auto
qed

lemma splitOn_free: "w \<in> set (splitOn d s) \<Longrightarrow> d \<notin> set w"
  by (induction s arbitrary: w) (auto split: list.splits if_splits)

lemma findIndex_bounds: "- 1 \<le> findIndex P xs \<and> findIndex P xs < int (length xs)"
  by (induction xs) (auto simp: Let_def)

lemma findIndex_found:
  "0 \<le> findIndex P xs \<Longrightarrow> P (xs ! nat (findIndex P xs))"
  by (induction xs) (auto simp: Let_def nat_add_distrib split: if_splits)

lemma findIndex_neg_iff: "findIndex P xs < 0 \<longleftrightarrow> (\<forall>x \<in> set xs. \<not> P x)"
  by (induction xs) (auto simp: Let_def)

lemma nthOpt_SomeD: "nthOpt xs i = Some x \<Longrightarrow> x \<in> set xs"
  by (auto simp: nthOpt_def split: if_splits)

lemma set_find_SomeD: "List.find P xs = Some x \<Longrightarrow> x \<in> set xs \<and> P x"
  by (auto simp: find_Some_iff)

lemma map_of_mapSet [simp]: "map_of (mapSet k v m) = (map_of m)(k \<mapsto> v)"
  by (induction m) auto

lemma fst_set_mapSet: "fst ` set (mapSet k v m) = insert k (fst ` set m)"
proof (induction m)
  case (Cons p m)
  then show ?case by (cases p; cases "k = fst p") (simp_all add: insert_commute)
qed simp

lemma distinct_mapSet [simp]: "distinct (map fst m) \<Longrightarrow> distinct (map fst (mapSet k v m))"
proof (induction m)
  case (Cons p m)
  then show ?case using fst_set_mapSet [of k v m] by (cases p) auto
qed simp

lemma set_mapSet: "set (mapSet k v m) \<subseteq> insert (k, v) (set m)"
  by (induction m) (auto split: if_splits)

lemma map_of_mapDelete [simp]: "map_of (mapDelete k m) = (map_of m)(k := None)"
  by (induction m) (auto simp: mapDelete_def)

lemma distinct_mapDelete [simp]: "distinct (map fst m) \<Longrightarrow> distinct (map fst (mapDelete k m))"
  by (induction m) (auto simp: mapDelete_def)

lemma newMap_fold_distinct:
  "distinct (map fst m) \<Longrightarrow> distinct (map fst (fold (\<lambda>(k, v) m. mapSet k v m) kvs m))"
  by (induction kvs arbitrary: m) (auto split: prod.splits)

lemma distinct_newMap [simp]: "distinct (map fst (newMap kvs))"
  by (simp add: newMap_def newMap_fold_distinct)

lemma set_newMap_fold:
  "set (fold (\<lambda>(k, v) m. mapSet k v m) kvs m) \<subseteq> set kvs \<union> set m"
proof (induction kvs arbitrary: m)
  case (Cons p kvs)
  obtain k v where p: "p = (k, v)" by (cases p)
  show ?case using Cons.IH [of "mapSet k v m"] set_mapSet [of k v m] by (auto simp: p)
qed simp

lemma set_newMap: "set (newMap kvs) \<subseteq> set kvs"
  using set_newMap_fold [of kvs "[]"] by (simp add: newMap_def)

lemma mathRound_mono: "x \<le> y \<Longrightarrow> mathRound x \<le> mathRound y"
  by (simp add: mathRound_def floor_mono)

lemma mathRound_of_int [simp]: "mathRound (of_int n) = n"
  unfolding mathRound_def by (simp add: floor_eq_iff)

lemma mathRound_le_of_int: "x \<le> of_int n \<Longrightarrow> mathRound x \<le> n"
  using mathRound_mono [of x "of_int n"] by simp

lemma mathRound_nonneg: "0 \<le> x \<Longrightarrow> 0 \<le> mathRound x"
  using mathRound_mono [of 0 x] by (simp add: mathRound_def)

lemma mathRound_bounds: "x - 1 / 2 < of_int (mathRound x) \<and> of_int (mathRound x) \<le> x + 1 / 2"
  unfolding mathRound_def using floor_correct [of "x + 1 / 2"] by linarith

text \<open>Small values need no comparison with the threshold; the code equation says so, which
  keeps evaluation fast.\<close>

lemma doubleOverflow_large: "1000000000 < doubleOverflow"
proof -
  have "(2::rat) ^ 970 * 1 < 2 ^ 970 * (2 ^ 54 - 1)" by (intro mult_strict_left_mono) simp_all
  also have "\<dots> = doubleOverflow" by (simp add: doubleOverflow_def)
  finally have "(2::rat) ^ 970 < doubleOverflow" by simp
  moreover have "(2::rat) ^ 30 < 2 ^ 970" by (rule power_strict_increasing) simp_all
  ultimately show ?thesis by simp
qed

lemma toDouble_small [simp]: "- 1000000000 < q \<Longrightarrow> q < 1000000000 \<Longrightarrow> toDouble q = Fin q"
  using doubleOverflow_large by (simp add: toDouble_def)

lemma toDouble_code [code]:
  "toDouble q = (if - 1000000000 < q \<and> q < 1000000000 then Fin q
     else if doubleOverflow \<le> q then PosInf else if q \<le> - doubleOverflow then NegInf else Fin q)"
  using doubleOverflow_large by (auto simp: toDouble_def)

lemma toDouble_Fin: "toDouble q = Fin r \<Longrightarrow> r = q"
  by (auto simp: toDouble_def split: if_splits)

lemma showPos_digits [digit_simps]: "0 \<le> n \<Longrightarrow> \<forall>c \<in> set (showPos n). isDigit c"
proof (induction n rule: showPos.induct)
  case (1 n)
  show ?case
  proof (cases "n < 10")
    case True
    then show ?thesis using "1.prems" by (subst showPos.simps) (simp add: isDigit_def)
  next
    case False
    then have "\<forall>c \<in> set (showPos (n div 10)). isDigit c" using "1.IH" by simp
    moreover have "isDigit (48 + n mod 10)" by (simp add: isDigit_def)
    ultimately show ?thesis using False by (subst showPos.simps) auto
  qed
qed

lemma showPos_nonempty [simp]: "showPos n \<noteq> []"
  by (subst showPos.simps) simp

lemma readDigits_snoc: "readDigits (s @ [c]) = readDigits s * 10 + (c - 48)"
  by (simp add: readDigits_def)

lemma readDigits_showPos [digit_simps]: "0 \<le> n \<Longrightarrow> readDigits (showPos n) = n"
proof (induction n rule: showPos.induct)
  case (1 n)
  show ?case
  proof (cases "n < 10")
    case True
    then show ?thesis using "1.prems" by (subst showPos.simps) (simp add: readDigits_def)
  next
    case False
    then have "readDigits (showPos (n div 10)) = n div 10" using "1.IH" by simp
    then show ?thesis using False by (subst showPos.simps) (simp add: readDigits_snoc)
  qed
qed

lemma showPos_inj: "0 \<le> m \<Longrightarrow> 0 \<le> n \<Longrightarrow> showPos m = showPos n \<Longrightarrow> m = n"
  by (metis readDigits_showPos)

lemma showPos_hd: "0 < n \<Longrightarrow> 49 \<le> hd (showPos n) \<and> hd (showPos n) \<le> 57"
proof (induction n rule: showPos.induct)
  case (1 n)
  show ?case
  proof (cases "n < 10")
    case True
    then show ?thesis using "1.prems" by (subst showPos.simps, subst showPos.simps) simp
  next
    case False
    then have "hd (showPos n) = hd (showPos (n div 10))" by (subst showPos.simps) simp
    then show ?thesis using "1.IH" False by simp
  qed
qed

lemma showPos_length: "0 \<le> n \<Longrightarrow> n < 10 ^ Suc k \<Longrightarrow> length (showPos n) \<le> Suc k"
proof (induction k arbitrary: n)
  case 0
  then show ?case by (subst showPos.simps) simp
next
  case (Suc k)
  show ?case
  proof (cases "n < 10")
    case True
    then show ?thesis by (subst showPos.simps) simp
  next
    case False
    have "n div 10 < 10 ^ Suc k" using Suc.prems by (simp add: div_less_iff_less_mult mult.commute)
    then have "length (showPos (n div 10)) \<le> Suc k" using Suc by simp
    then show ?thesis using False by (subst showPos.simps) simp
  qed
qed

lemma readDigits_nonneg: "\<forall>c \<in> set s. isDigit c \<Longrightarrow> 0 \<le> readDigits s"
proof (induction s rule: rev_induct)
  case (snoc c s)
  then show ?case by (simp add: readDigits_snoc isDigit_def)
qed (simp add: readDigits_def)

lemma readDigits_bound: "\<forall>c \<in> set s. isDigit c \<Longrightarrow> readDigits s < 10 ^ length s"
proof (induction s rule: rev_induct)
  case (snoc c s)
  then have "readDigits s + 1 \<le> 10 ^ length s" by simp
  then have "readDigits s * 10 + 10 \<le> 10 ^ length s * 10" by linarith
  moreover have "c \<le> 57" using snoc.prems by (simp add: isDigit_def)
  ultimately show ?case by (simp add: readDigits_snoc)
qed (simp add: readDigits_def)

end
