(* ===== verification/Js_Regex.thy ===== *)
theory Js_Regex
  imports Cinder_Prelude
begin

text \<open>
  The regular expressions of the sources and the methods that run them.

  A pattern is a term of \<open>rx\<close>, one constructor per construct the sources use. The matcher
  \<open>rmatch\<close> returns the list of all ways to match at a place, in the order in which the
  language's backtracking matcher tries them, so that its head is the match the program sees:
  an alternative before the next one, a greedy repetition before leaving it, a lazy one after.
  A repetition stops at an iteration that consumes nothing, as the language does; the number
  of iterations is bounded by the length of the remaining text, which is enough since every
  other iteration consumes.

  The place is a triple: the text to the left, reversed (for \<open>^\<close> and \<open>\b\<close>), the text to
  the right, and the groups captured so far. Case-insensitive patterns are written with
  \<open>liti\<close> and \<open>isLetterI\<close>: outside ASCII the language folds no character onto an ASCII one.
\<close>

section \<open>Patterns and the matcher\<close>

type_synonym caps = "(nat \<times> jsstring) list"
type_synonym place = "jsstring \<times> jsstring \<times> caps"

datatype rx =
    Cls "int \<Rightarrow> bool"
  | Eps
  | Seq rx rx
  | Alt rx rx
  | Star bool rx
  | Grp nat rx
  | Bol
  | Eol
  | MBol
  | WordB

fun star :: "nat \<Rightarrow> (place \<Rightarrow> place list) \<Rightarrow> bool \<Rightarrow> place \<Rightarrow> place list" where
  "star 0 f g p = [p]"
| "star (Suc n) f g p =
     (let more = concat (map (star n f g)
                   (filter (\<lambda>q. length (fst (snd q)) < length (fst (snd p))) (f p)))
      in if g then more @ [p] else p # more)"

definition atWordB :: "jsstring \<Rightarrow> jsstring \<Rightarrow> bool" where
  "atWordB l s \<longleftrightarrow>
     (case l of [] \<Rightarrow> False | c # _ \<Rightarrow> isWordChar c) \<noteq>
     (case s of [] \<Rightarrow> False | c # _ \<Rightarrow> isWordChar c)"

primrec rmatch :: "rx \<Rightarrow> place \<Rightarrow> place list" where
  "rmatch (Cls P) p =
     (case p of (l, s, k) \<Rightarrow>
        (case s of [] \<Rightarrow> [] | c # s' \<Rightarrow> if P c then [(c # l, s', k)] else []))"
| "rmatch Eps p = [p]"
| "rmatch (Seq a b) p = concat (map (rmatch b) (rmatch a p))"
| "rmatch (Alt a b) p = rmatch a p @ rmatch b p"
| "rmatch (Star g a) p = star (length (fst (snd p))) (rmatch a) g p"
| "rmatch (Grp n a) p =
     map (\<lambda>(l, s, k). (l, s, (n, take (length (fst (snd p)) - length s) (fst (snd p))) # k)) (rmatch a p)"
| "rmatch Bol p = (if fst p = [] then [p] else [])"
| "rmatch Eol p = (if fst (snd p) = [] then [p] else [])"
| "rmatch MBol p = (case fst p of [] \<Rightarrow> [p] | c # _ \<Rightarrow> if isLineEnd c then [p] else [])"
| "rmatch WordB p = (if atWordB (fst p) (fst (snd p)) then [p] else [])"

section \<open>Pattern abbreviations\<close>

fun seqs :: "rx list \<Rightarrow> rx" where
  "seqs [] = Eps"
| "seqs [r] = r"
| "seqs (r # q # rs) = Seq r (seqs (q # rs))"

fun alts :: "rx list \<Rightarrow> rx" where
  "alts [] = Cls (\<lambda>_. False)"
| "alts [r] = r"
| "alts (r # q # rs) = Alt r (alts (q # rs))"

definition chr :: "int \<Rightarrow> rx" where
  "chr c = Cls (\<lambda>x. x = c)"

definition litOf :: "jsstring \<Rightarrow> rx" where
  "litOf s = seqs (map chr s)"

definition lit :: "string \<Rightarrow> rx" where
  "lit s = litOf (js s)"

definition liti :: "string \<Rightarrow> rx" where
  "liti s = seqs (map (\<lambda>c. Cls (\<lambda>x. asciiLowerChar x = c)) (js s))"

definition anyOf :: "string \<Rightarrow> rx" where
  "anyOf s = Cls (\<lambda>c. c \<in> set (js s))"

definition rx_s :: rx where "rx_s = Cls isSpace"
definition rx_d :: rx where "rx_d = Cls isDigit"
definition rx_dot :: rx where "rx_dot = Cls (\<lambda>c. \<not> isLineEnd c)"

definition isLetterI :: "int \<Rightarrow> bool" where
  "isLetterI c \<longleftrightarrow> isUpper c \<or> isLower c"

definition Opt :: "rx \<Rightarrow> rx" where "Opt r = Alt r Eps"
definition Plus :: "rx \<Rightarrow> rx" where "Plus r = Seq r (Star True r)"
definition LazyPlus :: "rx \<Rightarrow> rx" where "LazyPlus r = Seq r (Star False r)"

fun upTo :: "nat \<Rightarrow> rx \<Rightarrow> rx" where
  "upTo 0 r = Eps"
| "upTo (Suc n) r = Opt (Seq r (upTo n r))"

fun times :: "nat \<Rightarrow> rx \<Rightarrow> rx" where
  "times 0 r = Eps"
| "times (Suc n) r = Seq r (times n r)"

section \<open>exec, test, replace and matchAll\<close>

record rx_match =
  mPre :: jsstring
  mText :: jsstring
  mCaps :: caps
  mRest :: jsstring

definition cap :: "rx_match \<Rightarrow> nat \<Rightarrow> jsstring option" where
  "cap m n = map_of (mCaps m) n"

definition capStr :: "rx_match \<Rightarrow> nat \<Rightarrow> jsstring" where
  "capStr m n = (case cap m n of None \<Rightarrow> [] | Some s \<Rightarrow> s)"

fun rsearch :: "rx \<Rightarrow> jsstring \<Rightarrow> jsstring \<Rightarrow> rx_match option" where
  "rsearch r l [] =
     (case rmatch r (l, [], []) of
        [] \<Rightarrow> None
      | (l', s', k) # _ \<Rightarrow> Some \<lparr>mPre = rev l, mText = [], mCaps = k, mRest = s'\<rparr>)"
| "rsearch r l (c # s) =
     (case rmatch r (l, c # s, []) of
        [] \<Rightarrow> rsearch r (c # l) s
      | (l', s', k) # _ \<Rightarrow>
          Some \<lparr>mPre = rev l, mText = take (length (c # s) - length s') (c # s), mCaps = k, mRest = s'\<rparr>)"

definition rexec :: "rx \<Rightarrow> jsstring \<Rightarrow> rx_match option" where
  "rexec r s = rsearch r [] s"

definition rtest :: "rx \<Rightarrow> jsstring \<Rightarrow> bool" where
  "rtest r s \<longleftrightarrow> rexec r s \<noteq> None"

definition replaceFirst :: "rx \<Rightarrow> (rx_match \<Rightarrow> jsstring) \<Rightarrow> jsstring \<Rightarrow> jsstring" where
  "replaceFirst r f s =
     (case rexec r s of None \<Rightarrow> s | Some m \<Rightarrow> mPre m @ f m @ mRest m)"

text \<open>The loop of a global search: every match from left to right, each found after the end of
  the one before, one character on after an empty match. The result is the text cut into
  unmatched characters (\<open>Inl\<close>) and matches (\<open>Inr\<close>).\<close>

function scanAll :: "rx \<Rightarrow> jsstring \<Rightarrow> jsstring \<Rightarrow> (int + rx_match) list" where
  "scanAll r l s =
     (case rmatch r (l, s, []) of
        [] \<Rightarrow> (case s of [] \<Rightarrow> [] | c # s' \<Rightarrow> Inl c # scanAll r (c # l) s')
      | (l', s', k) # _ \<Rightarrow>
          Inr \<lparr>mPre = rev l, mText = take (length s - length s') s, mCaps = k, mRest = s'\<rparr> #
          (if length s' < length s then scanAll r l' s'
           else (case s of [] \<Rightarrow> [] | c # s'' \<Rightarrow> Inl c # scanAll r (c # l) s'')))"
  by pat_completeness auto
termination
  by (relation "measure (\<lambda>(r, l, s). length s)") auto

declare scanAll.simps [simp del]

definition replaceAll :: "rx \<Rightarrow> (rx_match \<Rightarrow> jsstring) \<Rightarrow> jsstring \<Rightarrow> jsstring" where
  "replaceAll r f s =
     concat (map (\<lambda>x. case x of Inl c \<Rightarrow> [c] | Inr m \<Rightarrow> f m) (scanAll r [] s))"

definition replaceAllBy :: "rx \<Rightarrow> jsstring \<Rightarrow> jsstring \<Rightarrow> jsstring" where
  "replaceAllBy r t s = replaceAll r (\<lambda>_. t) s"

definition matchAll :: "rx \<Rightarrow> jsstring \<Rightarrow> rx_match list" where
  "matchAll r s = List.map_filter (\<lambda>x. case x of Inl _ \<Rightarrow> None | Inr m \<Rightarrow> Some m) (scanAll r [] s)"

lemmas rx_abbrev_defs =
  chr_def litOf_def lit_def liti_def anyOf_def rx_s_def rx_d_def rx_dot_def Opt_def Plus_def LazyPlus_def

section \<open>Number(text)\<close>

text \<open>The numeric reading of a string: surrounding white space is ignored, the empty string is
  zero, then a hexadecimal, octal or binary integer, \<open>Infinity\<close> or a decimal literal with an
  optional exponent; anything else is not a number.\<close>

definition digitValue :: "int \<Rightarrow> int" where
  "digitValue c = (if isDigit c then c - 48 else if isLower c then c - 87
                   else if isUpper c then c - 55 else 99)"

definition readBase :: "int \<Rightarrow> jsstring \<Rightarrow> int" where
  "readBase b s = foldl (\<lambda>a c. a * b + digitValue c) 0 s"

definition allBase :: "int \<Rightarrow> jsstring \<Rightarrow> bool" where
  "allBase b s \<longleftrightarrow> s \<noteq> [] \<and> (\<forall>c \<in> set s. digitValue c < b)"

definition decimalRx :: rx where
  "decimalRx = seqs [Bol, Grp 1 (Opt (anyOf ''+-'')),
     Alt (Seq (Grp 2 (Plus rx_d)) (Opt (Seq (chr 46) (Grp 3 (Star True rx_d)))))
         (Seq (chr 46) (Grp 3 (Plus rx_d))),
     Opt (seqs [anyOf ''eE'', Grp 4 (Seq (Opt (anyOf ''+-'')) (Plus rx_d))]), Eol]"

definition powTen :: "int \<Rightarrow> rat" where
  "powTen n = (if 0 \<le> n then 10 ^ nat n else 1 / 10 ^ nat (- n))"

definition readSigned :: "jsstring \<Rightarrow> int" where
  "readSigned s = (case s of
      [] \<Rightarrow> 0
    | c # t \<Rightarrow> if c = 45 then - readDigits t else if c = 43 then readDigits t else readDigits s)"

definition decimalValue :: "rx_match \<Rightarrow> rat" where
  "decimalValue m =
     (let frac = capStr m 3;
          q = (of_int (readDigits (capStr m 2)) + of_int (readDigits frac) / 10 ^ length frac)
                * powTen (readSigned (capStr m 4))
      in if capStr m 1 = [45] then - q else q)"

definition toNumber :: "jsstring \<Rightarrow> jsnum" where
  "toNumber str =
     (let s = trim str; p = map asciiLowerChar (take 2 s); d = drop 2 s in
      if s = [] then Fin 0
      else if p = js ''0x'' then (if allBase 16 d then toDouble (of_int (readBase 16 d)) else NaN)
      else if p = js ''0o'' then (if allBase 8 d then toDouble (of_int (readBase 8 d)) else NaN)
      else if p = js ''0b'' then (if allBase 2 d then toDouble (of_int (readBase 2 d)) else NaN)
      else if s = js ''Infinity'' \<or> s = js ''+Infinity'' then PosInf
      else if s = js ''-Infinity'' then NegInf
      else (case rexec decimalRx s of None \<Rightarrow> NaN | Some m \<Rightarrow> toDouble (decimalValue m)))"

section \<open>Facts on the matcher\<close>

definition consumes :: "place \<Rightarrow> place \<Rightarrow> bool" where
  "consumes p q \<longleftrightarrow> (\<exists>u. fst (snd p) = u @ fst (snd q) \<and> fst q = rev u @ fst p)"

lemma consumes_refl [simp]: "consumes p p"
  by (simp add: consumes_def)

lemma consumes_trans: "consumes p q \<Longrightarrow> consumes q r \<Longrightarrow> consumes p r"
  by (auto simp: consumes_def)

lemma star_consumes:
  assumes "\<And>p q. q \<in> set (f p) \<Longrightarrow> consumes p q"
  shows "q \<in> set (star n f g p) \<Longrightarrow> consumes p q"
  by (induction n arbitrary: p) (auto simp: Let_def split: if_splits dest: assms intro: consumes_trans)

lemma rmatch_consumes: "q \<in> set (rmatch r p) \<Longrightarrow> consumes p q"
proof (induction r arbitrary: p q)
  case (Cls P)
  then show ?case by (auto simp: consumes_def split: list.splits if_splits prod.splits)
next
  case (Seq a b)
  then obtain m where "m \<in> set (rmatch a p)" and "q \<in> set (rmatch b m)" by auto
  then show ?case using Seq.IH consumes_trans by blast
next
  case (Star g a)
  then show ?case using star_consumes [of "rmatch a"] by auto
next
  case (Grp n a)
  then obtain q' where "q' \<in> set (rmatch a p)" and "fst q = fst q'" and "fst (snd q) = fst (snd q')"
    by (auto split: prod.splits)
  then show ?case using Grp.IH [of q' p] by (simp add: consumes_def)
qed (auto split: list.splits if_splits)

text \<open>The ways to match, as sets: what a proof needs to invert a match.\<close>

lemma in_rmatch_Cls:
  "(l', s', k') \<in> set (rmatch (Cls P) (l, s, k)) \<longleftrightarrow>
     (\<exists>c. s = c # s' \<and> P c \<and> l' = c # l \<and> k' = k)"
  by (auto split: list.splits)

lemma star_cls_set:
  "(l', s', k') \<in> set (star n (rmatch (Cls P)) g (l, s, k)) \<longleftrightarrow>
     (\<exists>u. s = u @ s' \<and> length u \<le> n \<and> (\<forall>c \<in> set u. P c) \<and> l' = rev u @ l \<and> k' = k)"
proof (induction n arbitrary: l s)
  case 0
  show ?case by auto
next
  case (Suc n)
  have "(l', s', k') \<in> set (star (Suc n) (rmatch (Cls P)) g (l, s, k)) \<longleftrightarrow>
     (l' = l \<and> s' = s \<and> k' = k) \<or>
     (\<exists>c t. s = c # t \<and> P c \<and> (l', s', k') \<in> set (star n (rmatch (Cls P)) g (c # l, t, k)))"
    by (cases s) (auto simp: Let_def)
  also have "\<dots> \<longleftrightarrow> (\<exists>u. s = u @ s' \<and> length u \<le> Suc n \<and> (\<forall>c \<in> set u. P c) \<and> l' = rev u @ l \<and> k' = k)"
    (is "?L \<longleftrightarrow> ?R")
  proof
    assume ?L
    then show ?R
    proof (elim disjE exE conjE)
      assume "l' = l" "s' = s" "k' = k"
      then show ?R by auto
    next
      fix c t
      assume a: "s = c # t" "P c" "(l', s', k') \<in> set (star n (rmatch (Cls P)) g (c # l, t, k))"
      then obtain u where "t = u @ s'" "length u \<le> n" "\<forall>c \<in> set u. P c" "l' = rev u @ c # l" "k' = k"
        using Suc.IH [of "c # l" t] by auto
      with a show ?R by (intro exI [of _ "c # u"]) auto
    qed
  next
    assume ?R
    then obtain u where u: "s = u @ s'" "length u \<le> Suc n" "\<forall>c \<in> set u. P c" "l' = rev u @ l" "k' = k"
      by auto
    show ?L
    proof (cases u)
      case Nil
      then show ?thesis using u by simp
    next
      case (Cons c v)
      then show ?thesis using u Suc.IH [of "c # l" "v @ s'"] by (auto simp del: rmatch.simps)
    qed
  qed
  finally show ?case .
qed

lemma in_rmatch_Star_Cls:
  "(l', s', k') \<in> set (rmatch (Star g (Cls P)) (l, s, k)) \<longleftrightarrow>
     (\<exists>u. s = u @ s' \<and> (\<forall>c \<in> set u. P c) \<and> l' = rev u @ l \<and> k' = k)"
  by (simp del: rmatch.simps(1) add: star_cls_set) auto

lemma in_rmatch_Seq:
  "q \<in> set (rmatch (Seq a b) p) \<longleftrightarrow> (\<exists>m. m \<in> set (rmatch a p) \<and> q \<in> set (rmatch b m))"
  by auto

lemma in_rmatch_Alt:
  "q \<in> set (rmatch (Alt a b) p) \<longleftrightarrow> q \<in> set (rmatch a p) \<or> q \<in> set (rmatch b p)"
  by auto

lemma in_rmatch_Grp:
  "(l', s', k') \<in> set (rmatch (Grp n a) (l, s, k)) \<longleftrightarrow>
     (\<exists>k1. (l', s', k1) \<in> set (rmatch a (l, s, k)) \<and> k' = (n, take (length s - length s') s) # k1)"
  by force

lemma in_rmatch_Plus_Cls:
  "(l', s', k') \<in> set (rmatch (Plus (Cls P)) (l, s, k)) \<longleftrightarrow>
     (\<exists>u. u \<noteq> [] \<and> s = u @ s' \<and> (\<forall>c \<in> set u. P c) \<and> l' = rev u @ l \<and> k' = k)"
  (is "?L \<longleftrightarrow> ?R")
proof
  assume ?L
  then obtain c t u where "s = c # t" "P c" "t = u @ s'" "\<forall>c \<in> set u. P c" "l' = rev u @ c # l" "k' = k"
    unfolding Plus_def in_rmatch_Seq by (force simp: in_rmatch_Cls in_rmatch_Star_Cls simp del: rmatch.simps)
  then show ?R by (intro exI [of _ "c # u"]) auto
next
  assume ?R
  then obtain c u where "s = (c # u) @ s'" "P c" "\<forall>c \<in> set u. P c" "l' = rev u @ c # l" "k' = k"
    by (auto simp: neq_Nil_conv)
  then show ?L unfolding Plus_def in_rmatch_Seq
    by (intro exI [of _ "(c # l, u @ s', k)"])
       (auto simp: in_rmatch_Cls in_rmatch_Star_Cls simp del: rmatch.simps)
qed

lemma rsearch_text:
  "rsearch r l s = Some m \<Longrightarrow> rev l @ s = mPre m @ mText m @ mRest m \<and>
     (\<exists>l'. (l', mRest m, mCaps m) \<in> set (rmatch r (rev (mPre m), mText m @ mRest m, [])))"
proof (induction s arbitrary: l)
  case Nil
  then obtain l' s' k' rest where e: "rmatch r (l, [], []) = (l', s', k') # rest"
    and m: "m = \<lparr>mPre = rev l, mText = [], mCaps = k', mRest = s'\<rparr>"
    by (auto split: list.splits)
  have "(l', s', k') \<in> set (rmatch r (l, [], []))" by (simp add: e)
  from rmatch_consumes [OF this] have "s' = []" by (simp add: consumes_def)
  then show ?case using e m by auto
next
  case (Cons c s)
  show ?case
  proof (cases "rmatch r (l, c # s, [])")
    case Nil
    then have "rsearch r (c # l) s = Some m" using Cons.prems by simp
    then show ?thesis using Cons.IH [of "c # l"] by auto
  next
    case (Cons q qs)
    obtain l' s' k' where q: "q = (l', s', k')" by (cases q)
    then have i: "(l', s', k') \<in> set (rmatch r (l, c # s, []))" by (simp add: Cons)
    from rmatch_consumes [OF this] obtain u where u: "c # s = u @ s'" by (auto simp: consumes_def)
    then have "take (length (c # s) - length s') (c # s) = u" by simp
    then have m: "m = \<lparr>mPre = rev l, mText = u, mCaps = k', mRest = s'\<rparr>"
      using Cons.prems Cons q by auto
    show ?thesis using i u by (auto simp: m)
  qed
qed

lemma rexec_text: "rexec r s = Some m \<Longrightarrow> s = mPre m @ mText m @ mRest m"
  using rsearch_text [of r "[]" s m] by (simp add: rexec_def)

lemma rexec_match:
  "rexec r s = Some m \<Longrightarrow>
     \<exists>l'. (l', mRest m, mCaps m) \<in> set (rmatch r (rev (mPre m), mText m @ mRest m, []))"
  using rsearch_text [of r "[]" s m] by (simp add: rexec_def)

lemma rsearch_Bol_pre:
  "rsearch (Seq Bol r) l s = Some m \<Longrightarrow> l = [] \<and> mPre m = []"
proof (induction s arbitrary: l)
  case (Cons c s)
  then show ?case by (cases l) (auto split: list.splits)
qed (auto split: list.splits if_splits)

lemma rexec_Bol:
  assumes "rexec (Seq Bol r) s = Some m"
  shows "\<exists>l'. (l', mRest m, mCaps m) \<in> set (rmatch r ([], s, []))" and "s = mText m @ mRest m"
proof -
  have p: "mPre m = []" using assms rsearch_Bol_pre by (auto simp: rexec_def)
  then show "s = mText m @ mRest m" using rexec_text [OF assms] by simp
  then show "\<exists>l'. (l', mRest m, mCaps m) \<in> set (rmatch r ([], s, []))"
    using rexec_match [OF assms] p by simp
qed

lemma rsearch_Bol_None: "l \<noteq> [] \<Longrightarrow> rsearch (Seq Bol r) l s = None"
  by (induction s arbitrary: l) auto

lemma rexec_Bol_None_iff: "rexec (Seq Bol r) s = None \<longleftrightarrow> rmatch r ([], s, []) = []"
proof (cases s)
  case (Cons c t)
  then show ?thesis using rsearch_Bol_None [of "[c]" r t]
    by (auto simp: rexec_def split: list.splits)
qed (auto simp: rexec_def split: list.splits)

lemma in_rmatch_upTo_Cls:
  "(l', s', k') \<in> set (rmatch (upTo n (Cls P)) (l, s, k)) \<longleftrightarrow>
     (\<exists>u. s = u @ s' \<and> length u \<le> n \<and> (\<forall>c \<in> set u. P c) \<and> l' = rev u @ l \<and> k' = k)"
proof (induction n arbitrary: l s)
  case (Suc n)
  have "(l', s', k') \<in> set (rmatch (upTo (Suc n) (Cls P)) (l, s, k)) \<longleftrightarrow>
     (l' = l \<and> s' = s \<and> k' = k) \<or>
     (\<exists>c t. s = c # t \<and> P c \<and> (l', s', k') \<in> set (rmatch (upTo n (Cls P)) (c # l, t, k)))"
    by (cases s) (auto simp: Opt_def)
  also have "\<dots> \<longleftrightarrow> (\<exists>u. s = u @ s' \<and> length u \<le> Suc n \<and> (\<forall>c \<in> set u. P c) \<and> l' = rev u @ l \<and> k' = k)"
    (is "?L \<longleftrightarrow> (\<exists>u. ?R u)")
  proof
    assume ?L
    then consider "?R []" | c t u where "s = c # t" "P c" "t = u @ s'" "length u \<le> n"
      "\<forall>c \<in> set u. P c" "l' = rev u @ c # l" "k' = k"
      by (force simp: Suc.IH)
    then show "\<exists>u. ?R u"
    proof cases
      case (2 c t u)
      then show ?thesis by (intro exI [of _ "c # u"]) auto
    qed blast
  next
    assume "\<exists>u. ?R u"
    then obtain u where u: "?R u" ..
    show ?L
    proof (cases u)
      case (Cons c v)
      then show ?thesis using u Suc.IH [of "c # l" "v @ s'"] by auto
    qed (use u in simp)
  qed
  finally show ?case .
qed auto

text \<open>The characters a pattern can consume.\<close>

primrec mayConsume :: "rx \<Rightarrow> int \<Rightarrow> bool" where
  "mayConsume (Cls P) c = P c"
| "mayConsume Eps c = False"
| "mayConsume (Seq a b) c = (mayConsume a c \<or> mayConsume b c)"
| "mayConsume (Alt a b) c = (mayConsume a c \<or> mayConsume b c)"
| "mayConsume (Star g a) c = mayConsume a c"
| "mayConsume (Grp n a) c = mayConsume a c"
| "mayConsume Bol c = False"
| "mayConsume Eol c = False"
| "mayConsume MBol c = False"
| "mayConsume WordB c = False"

definition consumesOnly :: "(int \<Rightarrow> bool) \<Rightarrow> place \<Rightarrow> place \<Rightarrow> bool" where
  "consumesOnly P p q \<longleftrightarrow> (\<exists>u. fst (snd p) = u @ fst (snd q) \<and> (\<forall>c \<in> set u. P c))"

lemma consumesOnly_refl [simp]: "consumesOnly P p p"
  by (simp add: consumesOnly_def)

lemma consumesOnly_trans: "consumesOnly P p q \<Longrightarrow> consumesOnly P q r \<Longrightarrow> consumesOnly P p r"
  by (force simp: consumesOnly_def)

lemma consumesOnly_mono: "consumesOnly P p q \<Longrightarrow> (\<And>c. P c \<Longrightarrow> Q c) \<Longrightarrow> consumesOnly Q p q"
  by (force simp: consumesOnly_def)

lemma star_consumesOnly:
  assumes "\<And>p q. q \<in> set (f p) \<Longrightarrow> consumesOnly P p q"
  shows "q \<in> set (star n f g p) \<Longrightarrow> consumesOnly P p q"
  by (induction n arbitrary: p) (auto simp: Let_def split: if_splits dest: assms intro: consumesOnly_trans)

lemma rmatch_consumesOnly: "q \<in> set (rmatch r p) \<Longrightarrow> consumesOnly (mayConsume r) p q"
proof (induction r arbitrary: p q)
  case (Cls P)
  then show ?case by (auto simp: consumesOnly_def split: list.splits if_splits prod.splits)
next
  case (Seq a b)
  then obtain m where "m \<in> set (rmatch a p)" and "q \<in> set (rmatch b m)" by auto
  then have "consumesOnly (mayConsume a) p m" and "consumesOnly (mayConsume b) m q"
    using Seq.IH by blast+
  then have "consumesOnly (mayConsume (Seq a b)) p m" "consumesOnly (mayConsume (Seq a b)) m q"
    by (auto elim: consumesOnly_mono)
  then show ?case by (rule consumesOnly_trans)
next
  case (Alt a b)
  then have "consumesOnly (mayConsume a) p q \<or> consumesOnly (mayConsume b) p q"
    unfolding in_rmatch_Alt by blast
  then show ?case by (auto elim: consumesOnly_mono)
next
  case (Star g a)
  then show ?case using star_consumesOnly [of "rmatch a"] by auto
next
  case (Grp n a)
  then obtain q' where "q' \<in> set (rmatch a p)" and "fst (snd q) = fst (snd q')"
    by (auto split: prod.splits)
  then show ?case using Grp.IH [of q' p] by (simp add: consumesOnly_def)
qed (auto split: list.splits if_splits)

lemma rmatch_only:
  "(l', s', k') \<in> set (rmatch r (l, s, k)) \<Longrightarrow> \<exists>u. s = u @ s' \<and> (\<forall>c \<in> set u. mayConsume r c)"
  using rmatch_consumesOnly [of "(l', s', k')" r "(l, s, k)"] by (simp add: consumesOnly_def)

text \<open>A pattern without groups leaves the captures alone.\<close>

primrec noGrp :: "rx \<Rightarrow> bool" where
  "noGrp (Cls P) = True"
| "noGrp Eps = True"
| "noGrp (Seq a b) = (noGrp a \<and> noGrp b)"
| "noGrp (Alt a b) = (noGrp a \<and> noGrp b)"
| "noGrp (Star g a) = noGrp a"
| "noGrp (Grp n a) = False"
| "noGrp Bol = True"
| "noGrp Eol = True"
| "noGrp MBol = True"
| "noGrp WordB = True"

lemma star_caps:
  assumes "\<And>p q. q \<in> set (f p) \<Longrightarrow> snd (snd q) = snd (snd p)"
  shows "q \<in> set (star n f g p) \<Longrightarrow> snd (snd q) = snd (snd p)"
proof (induction n arbitrary: p)
  case (Suc n)
  have "q = p \<or> (\<exists>m \<in> set (f p). q \<in> set (star n f g m))"
    using Suc.prems by (auto simp: Let_def split: if_splits)
  then show ?case
  proof
    assume "\<exists>m \<in> set (f p). q \<in> set (star n f g m)"
    then obtain m where m: "m \<in> set (f p)" "q \<in> set (star n f g m)" by blast
    show ?thesis using Suc.IH [OF m(2)] assms [OF m(1)] by (rule trans)
  qed (rule arg_cong)
qed simp

lemma rmatch_caps: "noGrp r \<Longrightarrow> q \<in> set (rmatch r p) \<Longrightarrow> snd (snd q) = snd (snd p)"
proof (induction r arbitrary: p q)
  case (Seq a b)
  then obtain m where m: "m \<in> set (rmatch a p)" "q \<in> set (rmatch b m)" by auto
  have g: "noGrp a" "noGrp b" using Seq.prems(1) by simp_all
  show ?case using Seq.IH(2) [OF g(2) m(2)] Seq.IH(1) [OF g(1) m(1)] by (rule trans)
next
  case (Alt a b)
  have g: "noGrp a" "noGrp b" using Alt.prems(1) by simp_all
  show ?case using Alt.prems(2) Alt.IH(1) [OF g(1)] Alt.IH(2) [OF g(2)] unfolding in_rmatch_Alt by blast
next
  case (Star g a)
  have "noGrp a" using Star.prems(1) by simp
  show ?case by (rule star_caps [of "rmatch a"]) (use Star.IH [OF \<open>noGrp a\<close>] Star.prems(2) in auto)
qed (auto split: list.splits if_splits)

lemma rmatch_noGrp:
  assumes "noGrp r" "(l', s', k') \<in> set (rmatch r (l, s, k))"
  shows "\<exists>u. s = u @ s' \<and> (\<forall>c \<in> set u. mayConsume r c) \<and> k' = k"
  using rmatch_only [OF assms(2)] rmatch_caps [OF assms] by auto

text \<open>A pattern that ends in \<open>$\<close> matches up to the end; a literal that ignores case matches a spelling of it.\<close>

lemma rmatch_seqs_Eol: "q \<in> set (rmatch (seqs (rs @ [Eol])) p) \<Longrightarrow> fst (snd q) = []"
proof (induction rs arbitrary: p rule: seqs.induct)
  case (3 r r' rs)
  then show ?case by auto
qed (auto split: if_splits)

lemma rmatch_caseless:
  "(l', s', k') \<in> set (rmatch (seqs (map (\<lambda>c. Cls (\<lambda>x. asciiLowerChar x = c)) w)) (l, s, k)) \<Longrightarrow>
     \<exists>u. s = u @ s' \<and> map asciiLowerChar u = w"
proof (induction w arbitrary: l s k rule: induct_list012)
  case (3 c d w)
  then obtain x t where "s = x # t" "asciiLowerChar x = c"
      "(l', s', k') \<in> set (rmatch (seqs (map (\<lambda>c. Cls (\<lambda>x. asciiLowerChar x = c)) (d # w))) (x # l, t, k))"
    by (auto split: list.splits if_splits)
  moreover then obtain u where "t = u @ s'" "map asciiLowerChar u = d # w" using 3 by blast
  ultimately show ?case by (intro exI [of _ "x # u"]) simp
qed (auto split: list.splits if_splits)

text \<open>A lazy repetition of a class tries the shorter runs first.\<close>

lemma star_lazy_cls:
  "length s \<le> n \<Longrightarrow> star n (rmatch (Cls P)) False (l, s, k) =
     map (\<lambda>i. (rev (take i s) @ l, drop i s, k)) [0..<Suc (length (takeWhile P s))]"
proof (induction n arbitrary: l s)
  case (Suc n)
  show ?case
  proof (cases s)
    case (Cons c t)
    show ?thesis
    proof (cases "P c")
      case True
      have "star n (rmatch (Cls P)) False (c # l, t, k) =
          map (\<lambda>i. (rev (take i t) @ c # l, drop i t, k)) [0..<Suc (length (takeWhile P t))]"
        using Suc Cons by (simp del: rmatch.simps)
      moreover have "[0..<Suc (length (takeWhile P s))] = 0 # map Suc [0..<Suc (length (takeWhile P t))]"
        by (simp add: Cons True map_Suc_upt upt_conv_Cons del: upt_Suc)
      moreover have "star (Suc n) (rmatch (Cls P)) False (l, s, k) =
          (l, s, k) # star n (rmatch (Cls P)) False (c # l, t, k)"
        using Cons True by (simp add: Let_def)
      ultimately show ?thesis using Cons by (simp add: comp_def del: upt_Suc rmatch.simps)
    next
      case False
      then show ?thesis using Cons by (simp add: Let_def)
    qed
  qed simp
qed simp

lemma rmatch_lazy_cls:
  "rmatch (Star False (Cls P)) (l, s, k) =
     map (\<lambda>i. (rev (take i s) @ l, drop i s, k)) [0..<Suc (length (takeWhile P s))]"
  using star_lazy_cls [of s "length s" P l k] by simp

lemma concat_map_first:
  assumes "\<And>x. x \<in> set xs \<Longrightarrow> f x = []"
  shows "concat (map f (xs @ y # ys)) = f y @ concat (map f ys)"
  using assms by (induction xs) auto

lemma rexec_Bol_Some:
  assumes "rmatch r ([], s, []) = (l', s', k') # qs"
  shows "rexec (Seq Bol r) s =
     Some \<lparr>mPre = [], mText = take (length s - length s') s, mCaps = k', mRest = s'\<rparr>"
  using assms by (cases s) (simp_all add: rexec_def)

lemma rexec_Bol_unique:
  assumes "(l0, s0, k0) \<in> set (rmatch r ([], s, []))"
    and "\<And>l' s' k'. (l', s', k') \<in> set (rmatch r ([], s, [])) \<Longrightarrow> k' = k0"
  shows "\<exists>m. rexec (Seq Bol r) s = Some m \<and> mCaps m = k0"
proof -
  obtain l' s' k' qs where q: "rmatch r ([], s, []) = (l', s', k') # qs"
    using assms(1) by (cases "rmatch r ([], s, [])") auto
  then have "k' = k0" using assms(2) [of l' s' k'] by simp
  then show ?thesis using rexec_Bol_Some [OF q] by simp
qed

text \<open>Replacing single characters of a class.\<close>

lemma scanAll_Cls:
  "map (\<lambda>x. case x of Inl c \<Rightarrow> [c] | Inr m \<Rightarrow> f (mText m)) (scanAll (Cls P) l s) =
     map (\<lambda>c. if P c then f [c] else [c]) s"
  by (induction s arbitrary: l) (subst scanAll.simps, simp)+

lemma replaceAll_Cls:
  "replaceAll (Cls P) (\<lambda>m. f (mText m)) s = concat (map (\<lambda>c. if P c then f [c] else [c]) s)"
  by (simp only: replaceAll_def scanAll_Cls)

lemma replaceAllBy_Cls:
  "replaceAllBy (Cls P) t s = concat (map (\<lambda>c. if P c then t else [c]) s)"
  using replaceAll_Cls [of P "\<lambda>_. t" s] by (simp add: replaceAllBy_def)

lemma replaceAllBy_Cls_Nil: "replaceAllBy (Cls P) [] s = filter (\<lambda>c. \<not> P c) s"
  by (simp add: replaceAllBy_Cls) (induction s, auto)

lemma scanAll_none:
  assumes "\<And>l s. rmatch r (l, s, []) = [] \<or> Q s" and "\<And>t. suffix t s \<Longrightarrow> \<not> Q t"
  shows "scanAll r l s = map Inl s"
  using assms(2)
proof (induction s arbitrary: l)
  case Nil
  then show ?case using assms(1) [of l "[]"] by (subst scanAll.simps) auto
next
  case (Cons c s)
  have "rmatch r (l, c # s, []) = []" using assms(1) [of l "c # s"] Cons.prems by blast
  then show ?case using Cons by (subst scanAll.simps) (simp add: suffix_Cons)
qed

lemma replaceAll_id: "scanAll r [] s = map Inl s \<Longrightarrow> replaceAll r f s = s"
  by (simp add: replaceAll_def comp_def)

lemma rmatch_Plus_Cls_fail: "s = [] \<or> \<not> P (hd s) \<Longrightarrow> rmatch (Plus (Cls P)) (l, s, k) = []"
  by (cases s) (auto simp: Plus_def)

lemma replaceAll_Plus_Cls_id:
  assumes "\<forall>c \<in> set s. \<not> P c"
  shows "replaceAllBy (Plus (Cls P)) t s = s"
  unfolding replaceAllBy_def
proof (rule replaceAll_id, rule scanAll_none [where Q = "\<lambda>t. t \<noteq> [] \<and> P (hd t)"])
  show "rmatch (Plus (Cls P)) (l, s, []) = [] \<or> s \<noteq> [] \<and> P (hd s)" for l s
    using rmatch_Plus_Cls_fail by blast
  show "\<not> (t \<noteq> [] \<and> P (hd t))" if "suffix t s" for t
    using assms that by (metis hd_in_set set_mono_suffix subsetD)
qed

end
