(* ===== verification/Ui_Types.thy ===== *)
theory Ui_Types
  imports Cinder_Prelude
begin

text \<open>
  The data the apps exchange with Cinder Host (\<open>packages/ui/src/types.ts\<close>), one record or
  datatype per type of the source, with the source's fields in the source's order. Where two
  types of the source use the same field name, the field carries a prefix here. A field that
  may be \<open>null\<close> is an option; \<open>unknown\<close> is a JSON value. A number that arrives as JSON is
  finite, so it is a rational.
\<close>

section \<open>JSON values\<close>

datatype json =
    JNull
  | JBool bool
  | JNum rat
  | JStr jsstring
  | JArr "json list"
  | JObj "(jsstring \<times> json) list"

text \<open>Property access: \<open>None\<close> is \<open>undefined\<close>. The last value written for a key wins.\<close>

fun jget :: "json \<Rightarrow> jsstring \<Rightarrow> json option" where
  "jget (JObj fs) k = map_of (rev fs) k"
| "jget _ k = None"

text \<open>\<open>a ?? b\<close> on properties: the first that is neither \<open>undefined\<close> nor \<open>null\<close>.\<close>

definition coalesce :: "json option \<Rightarrow> json option \<Rightarrow> json option" where
  "coalesce a b = (case a of None \<Rightarrow> b | Some JNull \<Rightarrow> b | Some v \<Rightarrow> Some v)"

section \<open>Accounts and classrooms\<close>

datatype role = Student | Teacher

record user =
  user_id :: jsstring
  username :: jsstring
  display_name :: jsstring
  user_role :: role
  grade_level :: "jsstring option"
  user_section :: "jsstring option"
  roll_number :: "jsstring option"
  must_change_password :: bool
  user_created_at :: jsstring

record login_response =
  login_token :: jsstring
  login_user :: user
  expires_at :: jsstring

record classroom =
  classroom_id :: jsstring
  classroom_name :: jsstring
  subject_code :: "jsstring option"
  description :: jsstring
  color :: jsstring
  owner_teacher_id :: jsstring
  owner_teacher_name :: jsstring
  enrolment_code :: jsstring
  student_count :: rat
  classroom_created_at :: jsstring

section \<open>Assignments, submissions and grades\<close>

datatype assignment_status = Draft | Published | Closed

record assignment =
  assignment_id :: jsstring
  assignment_classroom_id :: jsstring
  assignment_classroom_name :: jsstring
  assignment_title :: jsstring
  assignment_instructions :: jsstring
  due_at :: "jsstring option"
  max_points :: rat
  grading_scheme :: json
  assignment_status :: assignment_status
  assignment_created_at :: jsstring
  assignment_updated_at :: jsstring

record submission_version =
  version_id :: jsstring
  version_number :: rat
  version_doc_json :: json
  version_plaintext :: jsstring
  change_note :: "jsstring option"
  late :: bool
  version_created_at :: jsstring

record grade =
  grade_id :: jsstring
  grade_points :: "rat option"
  grade_label :: "jsstring option"
  grade_feedback :: jsstring
  grade_published :: bool
  grade_updated_at :: jsstring

datatype submission_status = SDraft | Submitted | Resubmitted | Graded | Withdrawn

record submission =
  submission_id :: jsstring
  submission_assignment_id :: jsstring
  submission_assignment_title :: jsstring
  submission_student_id :: jsstring
  submission_student_name :: jsstring
  submission_status :: submission_status
  submission_version :: "submission_version option"
  submission_grade :: "grade option"
  submitted_at :: "jsstring option"
  submission_updated_at :: jsstring

section \<open>The library tree\<close>

datatype node_kind = FolderNode | NoteNode | PdfNode | DeckNode

record study_node =
  node_id :: jsstring
  node_owner_id :: "jsstring option"
  node_parent_id :: "jsstring option"
  node_classroom_id :: "jsstring option"
  node_name :: jsstring
  node_kind :: node_kind
  node_position :: rat
  node_icon :: "jsstring option"
  node_created_at :: jsstring
  node_updated_at :: jsstring

section \<open>Live sessions\<close>

datatype live_task_kind = InstructionTask | AssignmentTask | MaterialTask | QuizTask
datatype live_task_state = TaskOpened | TaskInProgress | TaskCompleted | TaskFailed

record live_task =
  task_id :: jsstring
  task_revision :: rat
  task_kind :: live_task_kind
  task_target_id :: "jsstring option"
  task_title :: jsstring
  task_instructions :: jsstring
  task_created_at :: jsstring

record live_task_ack =
  ack_revision :: rat
  ack_state :: live_task_state
  ack_updated_at :: jsstring

record live_session =
  live_id :: jsstring
  live_classroom_id :: jsstring
  live_classroom_name :: jsstring
  live_module_id :: jsstring
  live_module_name :: jsstring
  duration_minutes :: rat
  live_join_code :: jsstring
  starts_at :: jsstring
  ends_at :: jsstring
  ended_at :: "jsstring option"
  server_now :: "jsstring option"
  current_task :: "live_task option"
  student_task_state :: "live_task_ack option"
  student_joined :: "bool option"

record live_result =
  result_score :: rat
  result_elapsed_seconds :: rat
  result_task_revision :: "rat option"
  result_submitted_at :: jsstring

lemma coalesce_not_null: "coalesce a b = Some JNull \<Longrightarrow> b = Some JNull"
  by (auto simp: coalesce_def split: option.splits json.splits)

end
