(* ===== verification/Gradebook_Intent.thy ===== *)
theory Gradebook_Intent
  imports Js_Regex Ui_Types
begin

text \<open>
  The Gradebook assistant's reading of a teacher's request
  (\<open>apps/teacher/src/gradebookIntent.ts\<close>): cell addresses, assignment headers, what a cell of
  the sheet stands for, and the actions a request becomes. One definition per function of the
  source, in its order; each regular expression of the source is a term of \<open>rx\<close>. A message
  for the teacher is a value of \<open>intent_message\<close>, one constructor per text of the source,
  carrying what the text interpolates.
\<close>

section \<open>Data\<close>

datatype cell_value = CStr jsstring | CNum jsnum | CBool bool | CNull

record sheet_context =
  sheet_name :: jsstring
  sheet_range :: jsstring
  sheet_values :: "cell_value list list"

record gradebook_ai_context =
  active_sheet :: jsstring
  ctx_sheets :: "sheet_context list"

datatype gradebook_action =
    SetGrade jsstring jsstring rat
  | AddColumn jsstring "jsstring option" "(jsstring \<times> cell_value) list"
  | UpdateAssignment jsstring jsstring rat
  | SetCell jsstring jsstring cell_value

datatype gradebook_cell_target =
    Identity jsstring
  | AssignmentHeader jsstring assignment
  | GradeCell jsstring assignment user
  | Custom jsstring

datatype grade_reading = ReadFullMarks | ReadPercent rat | ReadPoints rat

datatype bulk_reading = BulkAsFullMarks rat | BulkFullMarks | BulkPercent rat | BulkPoints rat

datatype intent_message =
    MoreThanOneStudent
  | NoStudentMatched
  | NoSubmittedAssignments jsstring
  | ScoreOutsideRange
  | ExceedsMaximum rat
  | BulkPrepared bulk_reading nat jsstring nat
  | CellNotFound jsstring
  | ProtectedIdentity jsstring
  | HeadingExample jsstring
  | ExistingGradeHigher jsstring rat
  | AlreadyShows jsstring jsstring rat
  | AuthoritativeHeader jsstring jsstring
  | NotSubmitted jsstring jsstring jsstring
  | GradeExample jsstring jsstring jsstring rat
  | GradeRead jsstring jsstring jsstring grade_reading
  | CustomCell jsstring

record gradebook_intent =
  intent_message :: intent_message
  intent_actions :: "gradebook_action list"

record intent_input =
  in_prompt :: jsstring
  in_roster :: "user list"
  in_assignments :: "assignment list"
  in_workbook :: "gradebook_ai_context option"
  in_submissionFor :: "jsstring \<Rightarrow> jsstring \<Rightarrow> submission option"

record cell_location =
  loc_address :: jsstring
  loc_column :: int
  loc_row :: int

section \<open>Words and addresses\<close>

definition normalizeWords :: "js_env \<Rightarrow> jsstring \<Rightarrow> jsstring" where
  "normalizeWords U value =
     trim (replaceAllBy (Plus (Cls (\<lambda>c. \<not> isLetterOrNumber U c))) [32]
       (replaceAllBy (Cls (\<lambda>c. c = 8217 \<or> c = 39)) [32]
         (lowerCase U (trim value))))"

definition escapeRegExp :: "jsstring \<Rightarrow> jsstring" where
  "escapeRegExp value =
     replaceAll (Cls (\<lambda>c. c \<in> set (js ''.*+?^${}()|[]'') \<or> c = 92)) (\<lambda>m. 92 # mText m) value"

definition rxColumn :: rx where
  "rxColumn = Seq (Cls isUpper) (upTo 2 (Cls isUpper))"

definition rxRow :: rx where
  "rxRow = Seq (Cls (\<lambda>c. 49 \<le> c \<and> c \<le> 57)) (upTo 3 (Cls isDigit))"

definition addressRx :: rx where
  "addressRx = Seq Bol (Seq (Grp 1 rxColumn) (Seq (Grp 2 rxRow) Eol))"

definition reversedRx :: rx where
  "reversedRx = Seq Bol (Seq (Grp 1 rxRow) (Seq (Grp 2 rxColumn) Eol))"

definition normalizeCellAddress :: "js_env \<Rightarrow> jsstring \<Rightarrow> jsstring option" where
  "normalizeCellAddress U value =
     (let compact = upperCase U (replaceAllBy (Cls (\<lambda>c. c = 36 \<or> isSpace c)) [] value) in
      case rexec addressRx compact of
        Some m \<Rightarrow> Some (capStr m 1 @ capStr m 2)
      | None \<Rightarrow> (case rexec reversedRx compact of
            Some m \<Rightarrow> Some (capStr m 2 @ capStr m 1)
          | None \<Rightarrow> None))"

definition columnOf :: "jsstring \<Rightarrow> int" where
  "columnOf letters = foldl (\<lambda>column c. column * 26 + c - 64) 0 letters"

definition parseCellAddress :: "js_env \<Rightarrow> jsstring \<Rightarrow> cell_location option" where
  "parseCellAddress U value =
     (case normalizeCellAddress U value of
        None \<Rightarrow> None
      | Some address \<Rightarrow>
          (case rexec addressRx address of
             None \<Rightarrow> None
           | Some m \<Rightarrow>
               Some \<lparr>loc_address = address, loc_column = columnOf (capStr m 1) - 1,
                     loc_row = readDigits (capStr m 2) - 1\<rparr>))"

function columnLoop :: "int \<Rightarrow> jsstring \<Rightarrow> jsstring" where
  "columnLoop value label =
     (if 0 < value then columnLoop ((value - 1) div 26) ((65 + (value - 1) mod 26) # label) else label)"
  by pat_completeness auto
termination
proof (relation "measure (\<lambda>(value, label). nat value)")
  fix v :: int and label :: jsstring
  assume "0 < v"
  then have "(v - 1) div 26 < v" by (simp add: div_less_iff_less_mult)
  with \<open>0 < v\<close> show "(((v - 1) div 26, (65 + (v - 1) mod 26) # label), (v, label))
      \<in> measure (\<lambda>(v, label). nat v)" by simp
qed simp

declare columnLoop.simps [simp del]

definition columnName :: "int \<Rightarrow> jsstring" where
  "columnName column = columnLoop (column + 1) []"

section \<open>Headers\<close>

definition gradebookValues :: "gradebook_ai_context option \<Rightarrow> cell_value list list option" where
  "gradebookValues workbook =
     (case workbook of None \<Rightarrow> None
      | Some w \<Rightarrow> map_option sheet_values (List.find (\<lambda>sheet. sheet_name sheet = js ''Gradebook'') (ctx_sheets w)))"

text \<open>\<open>String(value ?? "")\<close> for a cell value that may be missing.\<close>

definition numText :: "js_env \<Rightarrow> jsnum \<Rightarrow> jsstring" where
  "numText U n = (case n of Fin q \<Rightarrow> numToString U q | NaN \<Rightarrow> js ''NaN''
    | PosInf \<Rightarrow> js ''Infinity'' | NegInf \<Rightarrow> js ''-Infinity'')"

definition cellText :: "js_env \<Rightarrow> cell_value option \<Rightarrow> jsstring" where
  "cellText U value = (case value of
      None \<Rightarrow> [] | Some CNull \<Rightarrow> [] | Some (CStr s) \<Rightarrow> s | Some (CNum q) \<Rightarrow> numText U q
    | Some (CBool b) \<Rightarrow> (if b then js ''true'' else js ''false''))"

definition rxNumber :: rx where
  "rxNumber = Seq (Plus rx_d) (Opt (Seq (chr 46) (Plus rx_d)))"

definition headerRx :: rx where
  "headerRx = Seq Bol (seqs [Grp 1 (Star False rx_dot), Star True rx_s,
     Opt (Seq (chr 45) (Star True rx_s)), chr 47, Star True rx_s, Grp 2 rxNumber, Star True rx_s,
     Opt (Seq (liti ''point'') (Opt (liti ''s''))), Eol])"

definition quotedRx :: rx where
  "quotedRx = Seq Bol (seqs [Cls (\<lambda>c. c = 34 \<or> c = 8220), Grp 1 (Star True rx_dot),
     Cls (\<lambda>c. c = 34 \<or> c = 8221), Eol])"

definition parseHeaderText :: "jsstring \<Rightarrow> jsstring \<times> jsnum option" where
  "parseHeaderText text =
     (case rexec headerRx text of
        None \<Rightarrow> (text, None)
      | Some m \<Rightarrow>
          (replaceFirst quotedRx (\<lambda>q. capStr q 1) (trim (capStr m 1)), Some (toNumber (capStr m 2))))"

definition parseAssignmentHeader :: "js_env \<Rightarrow> cell_value option \<Rightarrow> jsstring \<times> jsnum option" where
  "parseAssignmentHeader U value = parseHeaderText (trim (cellText U value))"

definition formatAssignmentHeader :: "js_env \<Rightarrow> assignment \<Rightarrow> jsstring" where
  "formatAssignmentHeader U a =
     [34] @ assignment_title a @ js [CHR 0x22] @ js ''  -/'' @ numToString U (max_points a)"

definition assignmentForHeader ::
    "js_env \<Rightarrow> cell_value option \<Rightarrow> assignment list \<Rightarrow> assignment option" where
  "assignmentForHeader U value assignments =
     (let (parsedTitle, parsedMax) = parseAssignmentHeader U value in
      if parsedTitle = [] then None
      else let title = normalizeWords U parsedTitle;
               titleMatches = filter (\<lambda>a. normalizeWords U (assignment_title a) = title) assignments
           in if length titleMatches = 1 then Some (hd titleMatches)
              else List.find (\<lambda>a. parsedMax = Some (Fin (max_points a))) titleMatches)"

definition findGradebookAssignmentColumn ::
    "js_env \<Rightarrow> assignment \<Rightarrow> assignment list \<Rightarrow> gradebook_ai_context option \<Rightarrow> int" where
  "findGradebookAssignmentColumn U a assignments workbook =
     (let headers = (case gradebookValues workbook of
            None \<Rightarrow> [] | Some values \<Rightarrow> (case nthOpt values 0 of None \<Rightarrow> [] | Some h \<Rightarrow> h));
          exact = findIndex (\<lambda>header. map_option assignment_id (assignmentForHeader U (Some header) assignments)
                      = Some (assignment_id a)) headers
      in if 0 \<le> exact then exact
         else findIndex (\<lambda>item. assignment_id item = assignment_id a) assignments + 2)"

section \<open>What a cell stands for\<close>

definition valueAt :: "cell_value list list \<Rightarrow> int \<Rightarrow> int \<Rightarrow> cell_value option" where
  "valueAt values row column = Option.bind (nthOpt values row) (\<lambda>r. nthOpt r column)"

definition targetAssignment ::
    "js_env \<Rightarrow> cell_location \<Rightarrow> assignment list \<Rightarrow> cell_value list list \<Rightarrow> assignment option" where
  "targetAssignment U location assignments values =
     (let header = valueAt values 0 (loc_column location);
          assignment = assignmentForHeader U header assignments
      in if assignment = None \<and> 2 \<le> loc_column location then
           (case nthOpt assignments (loc_column location - 2) of
              Some canonical \<Rightarrow> if trim (cellText U header) = [] then Some canonical else None
            | None \<Rightarrow> None)
         else assignment)"

definition targetStudent ::
    "js_env \<Rightarrow> cell_location \<Rightarrow> user list \<Rightarrow> cell_value list list \<Rightarrow> user option" where
  "targetStudent U location roster values =
     (let name = trim (cellText U (valueAt values (loc_row location) 1))
      in case List.find (\<lambda>item. lowerCase U (username item) = lowerCase U name) roster of
           Some s \<Rightarrow> Some s
         | None \<Rightarrow> nthOpt roster (loc_row location - 1))"

definition resolveGradebookCellTarget ::
    "js_env \<Rightarrow> jsstring \<Rightarrow> user list \<Rightarrow> assignment list \<Rightarrow> gradebook_ai_context option
       \<Rightarrow> gradebook_cell_target option" where
  "resolveGradebookCellTarget U cell roster assignments workbook =
     (case parseCellAddress U cell of
        None \<Rightarrow> None
      | Some location \<Rightarrow>
          let values = (case gradebookValues workbook of None \<Rightarrow> [] | Some v \<Rightarrow> v);
              assignment = targetAssignment U location assignments values;
              address = loc_address location
          in if loc_column location \<le> 1 then Some (Identity address)
             else (case assignment of
                 None \<Rightarrow> Some (Custom address)
               | Some a \<Rightarrow>
                   if loc_row location = 0 then Some (AssignmentHeader address a)
                   else if 0 < loc_row location then
                     (case targetStudent U location roster values of
                        Some student \<Rightarrow> Some (GradeCell address a student)
                      | None \<Rightarrow> Some (Custom address))
                   else Some (Custom address)))"

record assignment_column =
  ac_assignment_id :: jsstring
  ac_header_cell :: jsstring
  ac_title :: jsstring
  ac_max_points :: rat

record student_row =
  sr_student_id :: jsstring
  sr_row :: int
  sr_name :: jsstring
  sr_username :: "jsstring option"

record gradebook_cell_map =
  coordinate_format :: jsstring
  assignment_columns :: "assignment_column list"
  student_rows :: "student_row list"

definition buildGradebookCellMap ::
    "js_env \<Rightarrow> user list \<Rightarrow> assignment list \<Rightarrow> gradebook_ai_context option \<Rightarrow> bool \<Rightarrow> gradebook_cell_map" where
  "buildGradebookCellMap U roster assignments workbook includeNames =
     \<lparr>coordinate_format = js ''A1 (column letters first; 1F is normalized to F1)'',
      assignment_columns = map (\<lambda>a.
        \<lparr>ac_assignment_id = assignment_id a,
         ac_header_cell = columnName (findGradebookAssignmentColumn U a assignments workbook) @ js ''1'',
         ac_title = assignment_title a, ac_max_points = max_points a\<rparr>) assignments,
      student_rows = map (\<lambda>(index, student).
        \<lparr>sr_student_id = user_id student, sr_row = int index + 2,
         sr_name = (if includeNames then display_name student else js ''Student '' @ showInt (int index + 1)),
         sr_username = (if includeNames then Some (username student) else None)\<rparr>)
        (enumerate 0 roster)\<rparr>"

section \<open>Reading a request\<close>

record cell_edit =
  edit_cell :: jsstring
  edit_rawValue :: jsstring

definition rxCellRef :: rx where
  "rxCellRef =
     (let letters = Seq (Cls isLetterI) (upTo 2 (Cls isLetterI));
          digits = Seq rx_d (upTo 3 rx_d)
      in Alt (seqs [letters, Star True rx_s, digits]) (seqs [digits, Star True rx_s, letters]))"

definition cellEditRx :: rx where
  "cellEditRx = seqs [WordB,
     alts [liti ''change'', liti ''edit'', liti ''rename'', liti ''set'', liti ''update'', liti ''make'', liti ''put''],
     Plus rx_s, Opt (Seq (liti ''the'') (Plus rx_s)), Opt (Seq (liti ''cell'') (Plus rx_s)),
     Opt (liti ''gradebook!''), Grp 1 rxCellRef, Plus rx_s,
     alts [Seq (liti ''to'') (Opt (Seq (Plus rx_s) (liti ''be''))), liti ''as'', chr 61],
     Plus rx_s, Grp 2 (LazyPlus rx_dot), Star True rx_s, Opt (anyOf ''.!''), Eol]"

definition isQuote :: "int \<Rightarrow> bool" where
  "isQuote c \<longleftrightarrow> c = 34 \<or> c = 39 \<or> c = 8220 \<or> c = 8221 \<or> c = 8216 \<or> c = 8217"

definition outerQuoteRx :: rx where
  "outerQuoteRx = Alt (Seq Bol (Cls isQuote)) (Seq (Cls isQuote) Eol)"

definition parseCellEdit :: "js_env \<Rightarrow> jsstring \<Rightarrow> cell_edit option" where
  "parseCellEdit U prompt =
     (let compact = replaceAllBy (Plus rx_s) [32] (trim prompt) in
      case rexec cellEditRx compact of
        None \<Rightarrow> None
      | Some m \<Rightarrow>
          (case normalizeCellAddress U (capStr m 1) of
             None \<Rightarrow> None
           | Some cell \<Rightarrow>
               let rawValue = trim (replaceAllBy outerQuoteRx [] (trim (capStr m 2)))
               in if rawValue = [] then None else Some \<lparr>edit_cell = cell, edit_rawValue = rawValue\<rparr>))"

definition wholeI :: "string list \<Rightarrow> rx" where
  "wholeI ws = seqs [Bol, alts (map liti ws), Eol]"

definition signedNumber :: rx where
  "signedNumber = Seq (Opt (chr 45)) rxNumber"

definition parseWorkbookValue :: "jsstring \<Rightarrow> cell_value" where
  "parseWorkbookValue value =
     (if rtest (wholeI [''blank'', ''empty'', ''null'']) value then CNull
      else if rtest (wholeI [''true'']) value then CBool True
      else if rtest (wholeI [''false'']) value then CBool False
      else if rtest (seqs [Bol, signedNumber, Eol]) value then
        CNum (toNumber value)
      else CStr value)"

definition fullMarksRx :: rx where
  "fullMarksRx = alts [seqs [liti ''full'', Plus rx_s, liti ''mark'', Opt (liti ''s'')], liti ''maximum'', liti ''max'']"

definition unitRx :: rx where
  "unitRx = alts [chr 37, liti ''percent'', Seq (liti ''point'') (Opt (liti ''s'')), Seq (liti ''pt'') (Opt (liti ''s''))]"

definition isPercentUnit :: "jsstring option \<Rightarrow> bool" where
  "isPercentUnit unit = (case unit of None \<Rightarrow> False
     | Some u \<Rightarrow> u = [37] \<or> map asciiLowerChar u = js ''percent'')"

text \<open>\<open>Math.round(max_points * amount) / 100\<close>.\<close>

definition percentPoints :: "rat \<Rightarrow> rat \<Rightarrow> rat" where
  "percentPoints maximum amount = of_int (mathRound (maximum * amount)) / 100"

definition pointsForGrade :: "jsstring \<Rightarrow> assignment \<Rightarrow> (rat \<times> grade_reading) option" where
  "pointsForGrade value a =
     (if rtest (seqs [Bol, fullMarksRx, Eol]) (trim value) then Some (max_points a, ReadFullMarks)
      else case rexec (seqs [Bol, Grp 1 signedNumber, Star True rx_s, Opt (Grp 2 unitRx), Eol]) (trim value) of
        None \<Rightarrow> None
      | Some m \<Rightarrow>
          (case toNumber (capStr m 1) of
             Fin amount \<Rightarrow>
               if amount < 0 then None
               else if isPercentUnit (cap m 2) then
                 (if 100 < amount then None
                  else Some (percentPoints (max_points a) amount, ReadPercent amount))
               else if max_points a < amount then None
               else Some (amount, ReadPoints amount)
           | _ \<Rightarrow> None))"

text \<open>The pattern \<open>(?:^| )label(?: |$)\<close> with the label escaped and the \<open>i\<close> flag: two
  characters agree when the language's canonicalisation maps them to the same one.\<close>

definition canonicalize :: "js_env \<Rightarrow> int \<Rightarrow> int" where
  "canonicalize U c = (case upperCase U [c] of
      [d] \<Rightarrow> if 128 \<le> c \<and> d < 128 then c else d
    | _ \<Rightarrow> c)"

definition mentionRx :: "js_env \<Rightarrow> jsstring \<Rightarrow> rx" where
  "mentionRx U label =
     seqs [Alt Bol (chr 32),
           seqs (map (\<lambda>c. Cls (\<lambda>x. canonicalize U x = canonicalize U c)) label),
           Alt (chr 32) Eol]"

definition findMentionedStudents :: "js_env \<Rightarrow> jsstring \<Rightarrow> user list \<Rightarrow> user list" where
  "findMentionedStudents U prompt roster =
     (let normalizedPrompt = [32] @ normalizeWords U prompt @ [32];
          labels = concat (map (\<lambda>student. map (\<lambda>label. (student, normalizeWords U label))
                     [display_name student, username student]) roster);
          matches = filter (\<lambda>(student, label). label \<noteq> [] \<and> rtest (mentionRx U label) normalizedPrompt) labels;
          sorted = sort_key (\<lambda>(student, label). - int (length label)) matches
      in map snd (newMap (map (\<lambda>(student, label). (user_id student, student)) sorted)))"

definition bulkScoreRx :: rx where
  "bulkScoreRx = seqs [WordB, alts [Seq (liti ''to'') (Opt (Seq (Plus rx_s) (liti ''be''))), liti ''at'', liti ''with'', liti ''as''],
     Plus rx_s, Grp 1 signedNumber, Star True rx_s, Opt (Grp 2 unitRx)]"

definition trailingScoreRx :: rx where
  "trailingScoreRx = seqs [Grp 1 signedNumber, Star True rx_s, Opt (Grp 2 unitRx), Star True rx_s, Opt (anyOf ''.!''), Eol]"

definition wordIn :: "string list \<Rightarrow> jsstring \<Rightarrow> bool" where
  "wordIn ws s = rtest (seqs [WordB, alts (map lit ws), WordB]) s"

definition mentionsGrades :: "jsstring \<Rightarrow> bool" where
  "mentionsGrades s = rtest (seqs [WordB, alts [Seq (lit ''grade'') (Opt (lit ''s'')), Seq (lit ''score'') (Opt (lit ''s'')),
     Seq (lit ''assignment'') (Opt (lit ''s''))], WordB]) s"

definition mentionsFullMarks :: "jsstring \<Rightarrow> bool" where
  "mentionsFullMarks s = rtest (seqs [WordB, alts [seqs [lit ''full'', Plus rx_s, lit ''mark'', Opt (lit ''s'')],
     lit ''maximum'', lit ''max''], WordB]) s"

definition bulkPoints :: "bool \<Rightarrow> bool \<Rightarrow> rat \<Rightarrow> assignment \<Rightarrow> rat" where
  "bulkPoints full percent amount a =
     (if full then max_points a else if percent then percentPoints (max_points a) amount else amount)"

text \<open>The part of \<open>resolveBulkGrades\<close> after the student and the score text are known.\<close>

definition bulkIntent ::
    "intent_input \<Rightarrow> user \<Rightarrow> bool \<Rightarrow> (jsnum \<times> bool) option \<Rightarrow> gradebook_intent" where
  "bulkIntent input student fullMarks score =
     (let submitted = filter (\<lambda>a. in_submissionFor input (user_id student) (assignment_id a) \<noteq> None)
                        (in_assignments input) in
      if submitted = [] then
        \<lparr>intent_message = NoSubmittedAssignments (display_name student), intent_actions = []\<rparr>
      else
        let amount = (case score of Some (n, _) \<Rightarrow> n | None \<Rightarrow> Fin 100);
            percent = (case score of Some (_, p) \<Rightarrow> p | None \<Rightarrow> False)
        in case amount of
             Fin q \<Rightarrow>
               let full = (if \<not> fullMarks \<and> \<not> percent \<and> q = 100
                           then (\<exists>a \<in> set submitted. max_points a < q) else fullMarks) in
               if q < 0 \<or> (percent \<and> 100 < q) then
                 \<lparr>intent_message = ScoreOutsideRange, intent_actions = []\<rparr>
               else if \<not> full \<and> \<not> percent \<and> (\<exists>a \<in> set submitted. max_points a < q) then
                 \<lparr>intent_message = ExceedsMaximum (Min (set (map max_points submitted))), intent_actions = []\<rparr>
               else
                 \<lparr>intent_message = BulkPrepared
                    (if full then (if score \<noteq> None \<and> \<not> fullMarks then BulkAsFullMarks q else BulkFullMarks)
                     else if percent then BulkPercent q else BulkPoints q)
                    (length submitted) (display_name student)
                    (length (in_assignments input) - length submitted),
                  intent_actions = map (\<lambda>a. SetGrade (user_id student) (assignment_id a)
                    (bulkPoints full percent q a)) submitted\<rparr>
           | _ \<Rightarrow> \<lparr>intent_message = ScoreOutsideRange, intent_actions = []\<rparr>)"

definition resolveBulkGrades :: "js_env \<Rightarrow> intent_input \<Rightarrow> gradebook_intent option" where
  "resolveBulkGrades U input =
     (let normalized = normalizeWords U (in_prompt input);
          fullMarks = mentionsFullMarks normalized in
      if \<not> mentionsGrades normalized \<or>
         (\<not> wordIn [''all'', ''every'', ''everything''] normalized \<and> \<not> fullMarks) then None
      else case findMentionedStudents U (in_prompt input) (in_roster input) of
          [student] \<Rightarrow>
            (let scoreMatch = (case rexec bulkScoreRx (in_prompt input) of
                     Some m \<Rightarrow> Some m | None \<Rightarrow> rexec trailingScoreRx (trim (in_prompt input)))
             in if \<not> fullMarks \<and> scoreMatch = None then None
                else Some (bulkIntent input student fullMarks
                  (map_option (\<lambda>m. (toNumber (capStr m 1), isPercentUnit (cap m 2))) scoreMatch)))
        | mentioned \<Rightarrow>
            Some \<lparr>intent_message = (if 1 < length mentioned then MoreThanOneStudent else NoStudentMatched),
                  intent_actions = []\<rparr>)"

section \<open>Editing one cell\<close>

definition headerIntent ::
    "js_env \<Rightarrow> intent_input \<Rightarrow> jsstring \<Rightarrow> assignment \<Rightarrow> jsstring \<Rightarrow> gradebook_intent" where
  "headerIntent U input address a rawValue =
     (let (parsedTitle, parsedMax) = parseAssignmentHeader U (Some (CStr rawValue));
          title = (if normalizeWords U parsedTitle = normalizeWords U (assignment_title a)
                   then assignment_title a else parsedTitle);
          maxPoints = (case parsedMax of Some n \<Rightarrow> n | None \<Rightarrow> Fin (max_points a));
          invalid = \<lparr>intent_message = HeadingExample address, intent_actions = []\<rparr>
      in case maxPoints of
           Fin q \<Rightarrow>
             if title = [] \<or> q \<le> 0 \<or> 10000 < q then invalid
             else if (\<exists>student \<in> set (in_roster input).
                        (case in_submissionFor input (user_id student) (assignment_id a) of
                           None \<Rightarrow> 0
                         | Some s \<Rightarrow> (case submission_grade s of None \<Rightarrow> 0
                             | Some g \<Rightarrow> (case grade_points g of None \<Rightarrow> 0 | Some p \<Rightarrow> p))) > q) then
               \<lparr>intent_message = ExistingGradeHigher (assignment_title a) q, intent_actions = []\<rparr>
             else if title = assignment_title a \<and> q = max_points a then
               \<lparr>intent_message = AlreadyShows address (assignment_title a) (max_points a), intent_actions = []\<rparr>
             else
               \<lparr>intent_message = AuthoritativeHeader address (assignment_title a),
                intent_actions = [UpdateAssignment (assignment_id a) title q]\<rparr>
         | _ \<Rightarrow> invalid)"

definition gradeIntent ::
    "intent_input \<Rightarrow> jsstring \<Rightarrow> assignment \<Rightarrow> user \<Rightarrow> jsstring \<Rightarrow> gradebook_intent" where
  "gradeIntent input address a student rawValue =
     (if in_submissionFor input (user_id student) (assignment_id a) = None then
        \<lparr>intent_message = NotSubmitted address (display_name student) (assignment_title a), intent_actions = []\<rparr>
      else case pointsForGrade rawValue a of
        None \<Rightarrow>
          \<lparr>intent_message = GradeExample address (display_name student) (assignment_title a) (max_points a),
           intent_actions = []\<rparr>
      | Some (points, reading) \<Rightarrow>
          \<lparr>intent_message = GradeRead address (display_name student) (assignment_title a) reading,
           intent_actions = [SetGrade (user_id student) (assignment_id a) points]\<rparr>)"

definition resolveCellEdit :: "js_env \<Rightarrow> intent_input \<Rightarrow> gradebook_intent option" where
  "resolveCellEdit U input =
     (case parseCellEdit U (in_prompt input) of
        None \<Rightarrow> None
      | Some edit \<Rightarrow>
          Some (case resolveGradebookCellTarget U (edit_cell edit) (in_roster input)
                       (in_assignments input) (in_workbook input) of
              None \<Rightarrow> \<lparr>intent_message = CellNotFound (edit_cell edit), intent_actions = []\<rparr>
            | Some (Identity address) \<Rightarrow> \<lparr>intent_message = ProtectedIdentity address, intent_actions = []\<rparr>
            | Some (AssignmentHeader address a) \<Rightarrow> headerIntent U input address a (edit_rawValue edit)
            | Some (GradeCell address a student) \<Rightarrow> gradeIntent input address a student (edit_rawValue edit)
            | Some (Custom address) \<Rightarrow>
                \<lparr>intent_message = CustomCell address,
                 intent_actions = [SetCell (js ''Gradebook'') address (parseWorkbookValue (edit_rawValue edit))]\<rparr>))"

definition resolveGradebookIntent :: "js_env \<Rightarrow> intent_input \<Rightarrow> gradebook_intent option" where
  "resolveGradebookIntent U input =
     (case resolveCellEdit U input of Some i \<Rightarrow> Some i | None \<Rightarrow> resolveBulkGrades U input)"

section \<open>Addresses: round trips and bounds\<close>

definition colText :: "jsstring \<Rightarrow> bool" where
  "colText a \<longleftrightarrow> 1 \<le> length a \<and> length a \<le> 3 \<and> (\<forall>c \<in> set a. isUpper c)"

definition rowText :: "jsstring \<Rightarrow> bool" where
  "rowText b \<longleftrightarrow> 1 \<le> length b \<and> length b \<le> 4 \<and> (\<forall>c \<in> set b. isDigit c) \<and> hd b \<noteq> 48"

lemma in_rxColumn:
  "(l', s', k') \<in> set (rmatch rxColumn (l, s, k)) \<longleftrightarrow>
     (\<exists>a. colText a \<and> s = a @ s' \<and> l' = rev a @ l \<and> k' = k)" (is "?L \<longleftrightarrow> (\<exists>a. ?R a)")
proof
  assume ?L
  then obtain c u where "s = c # u @ s'" "isUpper c" "length u \<le> 2" "\<forall>c \<in> set u. isUpper c"
    "l' = rev u @ c # l" "k' = k"
    unfolding rxColumn_def in_rmatch_Seq
    by (force simp: in_rmatch_Cls in_rmatch_upTo_Cls simp del: rmatch.simps upTo.simps)
  then show "\<exists>a. ?R a" by (intro exI [of _ "c # u"]) (simp add: colText_def)
next
  assume "\<exists>a. ?R a"
  then obtain c u where "s = c # u @ s'" "isUpper c" "length u \<le> 2" "\<forall>c \<in> set u. isUpper c"
    "l' = rev u @ c # l" "k' = k"
    by (auto simp: colText_def Suc_le_length_iff)
  then show ?L unfolding rxColumn_def in_rmatch_Seq
    by (intro exI [of _ "(c # l, u @ s', k)"])
       (simp add: in_rmatch_Cls in_rmatch_upTo_Cls del: rmatch.simps upTo.simps)
qed

lemma in_rxRow:
  "(l', s', k') \<in> set (rmatch rxRow (l, s, k)) \<longleftrightarrow>
     (\<exists>b. rowText b \<and> s = b @ s' \<and> l' = rev b @ l \<and> k' = k)" (is "?L \<longleftrightarrow> (\<exists>b. ?R b)")
proof
  assume ?L
  then obtain c u where "s = c # u @ s'" "49 \<le> c \<and> c \<le> 57" "length u \<le> 3" "\<forall>c \<in> set u. isDigit c"
    "l' = rev u @ c # l" "k' = k"
    unfolding rxRow_def in_rmatch_Seq
    by (force simp: in_rmatch_Cls in_rmatch_upTo_Cls simp del: rmatch.simps upTo.simps)
  then show "\<exists>b. ?R b" by (intro exI [of _ "c # u"]) (simp add: rowText_def isDigit_def)
next
  assume "\<exists>b. ?R b"
  then obtain c u where "s = c # u @ s'" "49 \<le> c \<and> c \<le> 57" "length u \<le> 3" "\<forall>c \<in> set u. isDigit c"
    "l' = rev u @ c # l" "k' = k"
    by (auto simp: rowText_def isDigit_def Suc_le_length_iff)
  then show ?L unfolding rxRow_def in_rmatch_Seq
    by (intro exI [of _ "(c # l, u @ s', k)"])
       (simp add: in_rmatch_Cls in_rmatch_upTo_Cls del: rmatch.simps upTo.simps)
qed

lemma in_rmatch_Eol: "(l', s', k') \<in> set (rmatch Eol (l, s, k)) \<longleftrightarrow> s = [] \<and> s' = [] \<and> l' = l \<and> k' = k"
  by auto

lemma col_row_split:
  assumes "colText a" "rowText b" "colText a'" "rowText b'" "a @ b = a' @ b'"
  shows "a = a' \<and> b = b'"
proof -
  have "takeWhile isUpper (a @ b) = a" if "colText a" "rowText b" for a b
    using that by (cases b) (auto simp: colText_def rowText_def isUpper_def isDigit_def takeWhile_append)
  then show ?thesis using assms by (metis same_append_eq)
qed

lemma row_col_split:
  assumes "colText a" "rowText b" "colText a'" "rowText b'" "b @ a = b' @ a'"
  shows "a = a' \<and> b = b'"
proof -
  have "takeWhile isDigit (b @ a) = b" if "colText a" "rowText b" for a b
    using that by (cases a) (auto simp: colText_def rowText_def isUpper_def isDigit_def takeWhile_append)
  then show ?thesis using assms by (metis same_append_eq)
qed

lemma in_addressRx:
  "(l', s', k') \<in> set (rmatch (Seq (Grp 1 rxColumn) (Seq (Grp 2 rxRow) Eol)) ([], s, [])) \<longleftrightarrow>
     (\<exists>a b. colText a \<and> rowText b \<and> s = a @ b \<and> s' = [] \<and> l' = rev b @ rev a \<and> k' = [(2, b), (1, a)])"
  (is "?L \<longleftrightarrow> ?R")
proof
  assume ?L
  then obtain l1 s1 k1 l2 s2 k2 where
    1: "(l1, s1, k1) \<in> set (rmatch (Grp 1 rxColumn) ([], s, []))" and
    2: "(l2, s2, k2) \<in> set (rmatch (Grp 2 rxRow) (l1, s1, k1))" and
    3: "(l', s', k') \<in> set (rmatch Eol (l2, s2, k2))"
    unfolding in_rmatch_Seq by (metis prod_cases3)
  then show ?R by (auto simp: in_rmatch_Grp in_rxColumn in_rxRow in_rmatch_Eol simp del: rmatch.simps)
next
  assume ?R
  then obtain a b where "colText a" "rowText b" "s = a @ b" "s' = []" "l' = rev b @ rev a" "k' = [(2, b), (1, a)]"
    by blast
  then show ?L unfolding in_rmatch_Seq
    by (intro exI [of _ "(rev a, b, [(1, a)])"] conjI exI [of _ "(rev b @ rev a, [], [(2, b), (1, a)])"])
       (auto simp: in_rmatch_Grp in_rxColumn in_rxRow in_rmatch_Eol simp del: rmatch.simps)
qed

lemma in_reversedRx:
  "(l', s', k') \<in> set (rmatch (Seq (Grp 1 rxRow) (Seq (Grp 2 rxColumn) Eol)) ([], s, [])) \<longleftrightarrow>
     (\<exists>a b. colText a \<and> rowText b \<and> s = b @ a \<and> s' = [] \<and> l' = rev a @ rev b \<and> k' = [(2, a), (1, b)])"
  (is "?L \<longleftrightarrow> ?R")
proof
  assume ?L
  then obtain l1 s1 k1 l2 s2 k2 where
    1: "(l1, s1, k1) \<in> set (rmatch (Grp 1 rxRow) ([], s, []))" and
    2: "(l2, s2, k2) \<in> set (rmatch (Grp 2 rxColumn) (l1, s1, k1))" and
    3: "(l', s', k') \<in> set (rmatch Eol (l2, s2, k2))"
    unfolding in_rmatch_Seq by (metis prod_cases3)
  then show ?R by (auto simp: in_rmatch_Grp in_rxColumn in_rxRow in_rmatch_Eol simp del: rmatch.simps)
next
  assume ?R
  then obtain a b where "colText a" "rowText b" "s = b @ a" "s' = []" "l' = rev a @ rev b" "k' = [(2, a), (1, b)]"
    by blast
  then show ?L unfolding in_rmatch_Seq
    by (intro exI [of _ "(rev b, a, [(1, b)])"] conjI exI [of _ "(rev a @ rev b, [], [(2, a), (1, b)])"])
       (auto simp: in_rmatch_Grp in_rxColumn in_rxRow in_rmatch_Eol simp del: rmatch.simps)
qed

lemma addressRx_SomeD:
  assumes "rexec addressRx s = Some m"
  shows "colText (capStr m 1)" "rowText (capStr m 2)" "s = capStr m 1 @ capStr m 2"
  using rexec_Bol(1) [OF assms [unfolded addressRx_def]] unfolding in_addressRx
  by (auto simp: capStr_def cap_def)

lemma reversedRx_SomeD:
  assumes "rexec reversedRx s = Some m"
  shows "colText (capStr m 2)" "rowText (capStr m 1)" "s = capStr m 1 @ capStr m 2"
  using rexec_Bol(1) [OF assms [unfolded reversedRx_def]] unfolding in_reversedRx
  by (auto simp: capStr_def cap_def)

lemma addressRx_complete:
  assumes "colText a" "rowText b"
  shows "\<exists>m. rexec addressRx (a @ b) = Some m \<and> capStr m 1 = a \<and> capStr m 2 = b"
proof -
  have "\<exists>m. rexec addressRx (a @ b) = Some m \<and> mCaps m = [(2, b), (1, a)]"
    unfolding addressRx_def
  proof (rule rexec_Bol_unique)
    show "(rev b @ rev a, [], [(2, b), (1, a)])
        \<in> set (rmatch (Seq (Grp 1 rxColumn) (Seq (Grp 2 rxRow) Eol)) ([], a @ b, []))"
      unfolding in_addressRx using assms by blast
    show "k' = [(2, b), (1, a)]" if
      "(l', s', k') \<in> set (rmatch (Seq (Grp 1 rxColumn) (Seq (Grp 2 rxRow) Eol)) ([], a @ b, []))" for l' s' k'
      using that col_row_split [OF assms] unfolding in_addressRx by blast
  qed
  then show ?thesis by (auto simp: capStr_def cap_def)
qed

lemma reversedRx_complete:
  assumes "colText a" "rowText b"
  shows "\<exists>m. rexec reversedRx (b @ a) = Some m \<and> capStr m 1 = b \<and> capStr m 2 = a"
proof -
  have "\<exists>m. rexec reversedRx (b @ a) = Some m \<and> mCaps m = [(2, a), (1, b)]"
    unfolding reversedRx_def
  proof (rule rexec_Bol_unique)
    show "(rev a @ rev b, [], [(2, a), (1, b)])
        \<in> set (rmatch (Seq (Grp 1 rxRow) (Seq (Grp 2 rxColumn) Eol)) ([], b @ a, []))"
      unfolding in_reversedRx using assms by blast
    show "k' = [(2, a), (1, b)]" if
      "(l', s', k') \<in> set (rmatch (Seq (Grp 1 rxRow) (Seq (Grp 2 rxColumn) Eol)) ([], b @ a, []))" for l' s' k'
      using that row_col_split [OF assms] unfolding in_reversedRx by blast
  qed
  then show ?thesis by (auto simp: capStr_def cap_def)
qed

lemma addressRx_not_reversed:
  assumes "colText a" "rowText b"
  shows "rexec addressRx (b @ a) = None"
proof (rule ccontr)
  assume "rexec addressRx (b @ a) \<noteq> None"
  then obtain m where "rexec addressRx (b @ a) = Some m" by blast
  note m = addressRx_SomeD [OF this]
  have "isUpper (hd (b @ a))" using m by (cases "capStr m 1") (auto simp: colText_def)
  then show False using assms by (cases b) (auto simp: rowText_def isUpper_def isDigit_def)
qed

lemma normalizeCellAddress_form:
  "normalizeCellAddress U v = Some s \<Longrightarrow> \<exists>a b. s = a @ b \<and> colText a \<and> rowText b"
proof -
  assume n: "normalizeCellAddress U v = Some s"
  define w where "w = upperCase U (replaceAllBy (Cls (\<lambda>c. c = 36 \<or> isSpace c)) [] v)"
  show ?thesis
  proof (cases "rexec addressRx w")
    case None
    then obtain m where "rexec reversedRx w = Some m" "s = capStr m 2 @ capStr m 1"
      using n by (auto simp: normalizeCellAddress_def w_def [symmetric] split: option.splits)
    then show ?thesis using reversedRx_SomeD by blast
  next
    case (Some m)
    then have "s = capStr m 1 @ capStr m 2"
      using n by (simp add: normalizeCellAddress_def w_def [symmetric])
    then show ?thesis using addressRx_SomeD [OF Some] by blast
  qed
qed

lemma compact_ascii:
  assumes "asciiUpperLaw U" "colText a" "rowText b" "s = a @ b \<or> s = b @ a"
  shows "upperCase U (replaceAllBy (Cls (\<lambda>c. c = 36 \<or> isSpace c)) [] s) = s"
proof -
  have c: "isUpper c \<or> isDigit c" if "c \<in> set s" for c
    using that assms by (auto simp: colText_def rowText_def)
  have "filter (\<lambda>c. \<not> (c = 36 \<or> isSpace c)) s = s"
    using c by (intro filter_True ballI) (force simp: isUpper_def isDigit_def isSpace_def)
  moreover have "upperCase U s = map asciiUpperChar s"
    using assms(1) c by (force simp: asciiUpperLaw_def isUpper_def isDigit_def)
  moreover have "map asciiUpperChar s = s"
    using c by (intro map_idI) (force simp: asciiUpperChar_def isLower_def isUpper_def isDigit_def)
  ultimately show ?thesis by (simp add: replaceAllBy_Cls_Nil)
qed

lemma normalizeCellAddress_both:
  assumes "asciiUpperLaw U" "colText a" "rowText b"
  shows "normalizeCellAddress U (a @ b) = Some (a @ b)" and "normalizeCellAddress U (b @ a) = Some (a @ b)"
proof -
  obtain m where m: "rexec addressRx (a @ b) = Some m" "capStr m 1 = a" "capStr m 2 = b"
    using addressRx_complete [OF assms(2,3)] by blast
  show "normalizeCellAddress U (a @ b) = Some (a @ b)"
    using m compact_ascii [OF assms, of "a @ b"] by (simp add: normalizeCellAddress_def Let_def)
  obtain m' where m': "rexec reversedRx (b @ a) = Some m'" "capStr m' 1 = b" "capStr m' 2 = a"
    using reversedRx_complete [OF assms(2,3)] by blast
  show "normalizeCellAddress U (b @ a) = Some (a @ b)"
    using m' addressRx_not_reversed [OF assms(2,3)] compact_ascii [OF assms, of "b @ a"]
    by (simp add: normalizeCellAddress_def Let_def)
qed

lemma parseCellAddress_normalized:
  assumes "normalizeCellAddress U v = Some (a @ b)" "colText a" "rowText b"
  shows "parseCellAddress U v =
     Some \<lparr>loc_address = a @ b, loc_column = columnOf a - 1, loc_row = readDigits b - 1\<rparr>"
  using assms addressRx_complete [OF assms(2,3)] by (auto simp: parseCellAddress_def)

text \<open>Column letters.\<close>

lemma columnOf_columnLoop: "0 \<le> v \<Longrightarrow> columnOf (columnLoop v l) = foldl (\<lambda>column c. column * 26 + c - 64) v l"
proof (induction v l rule: columnLoop.induct)
  case (1 v l)
  show ?case
  proof (cases "0 < v")
    case True
    then have "0 \<le> (v - 1) div 26" by simp
    then have "columnOf (columnLoop v l) =
        foldl (\<lambda>column c. column * 26 + c - 64) ((v - 1) div 26) ((65 + (v - 1) mod 26) # l)"
      using 1 True by (simp add: columnLoop.simps [of v l])
    moreover have "(v - 1) div 26 * 26 + (65 + (v - 1) mod 26) - 64 = v"
      using div_mult_mod_eq [of "v - 1" 26] by linarith
    ultimately show ?thesis by simp
  next
    case False
    then have "columnLoop v l = l" by (simp add: columnLoop.simps [of v l])
    then show ?thesis using False "1.prems" by (simp add: columnOf_def)
  qed
qed

lemma columnLoop_upper: "\<forall>c \<in> set l. isUpper c \<Longrightarrow> \<forall>c \<in> set (columnLoop v l). isUpper c"
proof (induction v l rule: columnLoop.induct)
  case (1 v l)
  have "isUpper (65 + (v - 1) mod 26)"
    using pos_mod_bound [of 26 "v - 1"] pos_mod_sign [of 26 "v - 1"] by (simp add: isUpper_def)
  then have up: "\<forall>c \<in> set ((65 + (v - 1) mod 26) # l). isUpper c" using "1.prems" by simp
  show ?case
  proof (cases "0 < v")
    case True
    from "1.IH" [OF True up] show ?thesis by (subst columnLoop.simps) (simp only: True if_True)
  next
    case False
    then show ?thesis using "1.prems" by (subst columnLoop.simps) simp
  qed
qed

fun columnLimit :: "nat \<Rightarrow> int" where
  "columnLimit 0 = 0"
| "columnLimit (Suc k) = 26 * (columnLimit k + 1)"

lemma columnLoop_length: "v \<le> columnLimit k \<Longrightarrow> length (columnLoop v l) \<le> k + length l"
proof (induction k arbitrary: v l)
  case 0
  then show ?case by (simp add: columnLoop.simps [of v l])
next
  case (Suc k)
  show ?case
  proof (cases "0 < v")
    case True
    then have "(v - 1) div 26 \<le> columnLimit k" using Suc.prems zdiv_mono1 [of "v - 1" "26 * columnLimit k + 25" 26] by simp
    from Suc.IH [OF this, of "(65 + (v - 1) mod 26) # l"] show ?thesis
      using True by (simp add: columnLoop.simps [of v l])
  next
    case False
    then show ?thesis by (simp add: columnLoop.simps [of v l])
  qed
qed

lemma columnLoop_nonempty: "l \<noteq> [] \<or> 0 < v \<Longrightarrow> columnLoop v l \<noteq> []"
proof (induction v l rule: columnLoop.induct)
  case (1 v l)
  then show ?case by (cases "0 < v") (simp_all add: columnLoop.simps [of v l])
qed

lemma colText_columnName: "0 \<le> c \<Longrightarrow> c < 18278 \<Longrightarrow> colText (columnName c)"
  using columnLoop_length [of "c + 1" 3 "[]"] columnLoop_upper [of "[]" "c + 1"] columnLoop_nonempty [of "[]" "c + 1"]
  by (cases "columnLoop (c + 1) []") (auto simp: colText_def columnName_def eval_nat_numeral)

lemma columnOf_columnName: "0 \<le> c \<Longrightarrow> columnOf (columnName c) = c + 1"
  using columnOf_columnLoop [of "c + 1" "[]"] by (simp add: columnName_def)

lemma rowText_showInt: "1 \<le> r \<Longrightarrow> r \<le> 9999 \<Longrightarrow> rowText (showInt r)"
  using showPos_length [of r 3] showPos_digits [of r] showPos_hd [of r]
  by (cases "showPos r") (auto simp: rowText_def showInt_def)

lemma foldl_column_bounds:
  assumes "\<forall>c \<in> set a. isUpper c"
  shows "1 \<le> v \<Longrightarrow> 1 \<le> foldl (\<lambda>column c. column * 26 + c - 64) v a"
  using assms by (induction a arbitrary: v) (auto simp: isUpper_def)

lemma columnOf_bounds: "colText a \<Longrightarrow> 1 \<le> columnOf a \<and> columnOf a \<le> 18278"
  unfolding colText_def columnOf_def
  by (cases a rule: list.exhaust [case_product list.exhaust [where y = "tl a"]])
     (auto simp: isUpper_def Suc_le_length_iff numeral_3_eq_3 le_Suc_eq length_Suc_conv)

lemma rowText_bounds: "rowText b \<Longrightarrow> 1 \<le> readDigits b \<and> readDigits b \<le> 9999"
proof -
  assume b: "rowText b"
  then obtain c t where t: "b = c # t" by (cases b) (auto simp: rowText_def)
  have "readDigits b < 10 ^ length b" using b by (intro readDigits_bound) (simp add: rowText_def)
  also have "(10::int) ^ length b \<le> 10 ^ 4" using b by (intro power_increasing) (simp_all add: rowText_def)
  finally have "readDigits b \<le> 9999" by simp
  moreover have "1 \<le> foldl (\<lambda>a c. a * 10 + (c - 48)) (x::int) s" if "\<forall>c \<in> set s. isDigit c" "1 \<le> x" for s x
    using that by (induction s arbitrary: x) (auto simp: isDigit_def)
  then have "1 \<le> readDigits b" using b t by (simp add: readDigits_def rowText_def isDigit_def)
  ultimately show ?thesis by simp
qed

text \<open>Writing a position as column letters and a row number and reading it back gives the same
  position, for every column that has at most three letters and every row of at most four digits,
  in the standard order (\<open>F1\<close>) and in the reversed one (\<open>1F\<close>).\<close>

theorem cell_address_roundtrip:
  assumes "asciiUpperLaw U" and "0 \<le> column" "column < 18278" and "1 \<le> row" "row \<le> 9999"
  shows "parseCellAddress U (columnName column @ showInt row) =
           Some \<lparr>loc_address = columnName column @ showInt row, loc_column = column, loc_row = row - 1\<rparr> \<and>
         parseCellAddress U (showInt row @ columnName column) =
           Some \<lparr>loc_address = columnName column @ showInt row, loc_column = column, loc_row = row - 1\<rparr>"
proof -
  have c: "colText (columnName column)" and r: "rowText (showInt row)"
    using assms colText_columnName rowText_showInt by auto
  have "readDigits (showInt row) = row" using assms by (simp add: showInt_def readDigits_showPos)
  then show ?thesis
    using parseCellAddress_normalized [OF _ c r] normalizeCellAddress_both [OF assms(1) c r]
      columnOf_columnName [OF assms(2)] by simp
qed

theorem cell_address_roundtrip_witness:
  "parseCellAddress ascii_env (columnName 27 @ showInt 12) =
     Some \<lparr>loc_address = columnName 27 @ showInt 12, loc_column = 27, loc_row = 11\<rparr>"
  using cell_address_roundtrip [OF asciiUpperLaw_ascii, of 27 12] by simp

text \<open>Every text that is accepted as a cell address denotes a position inside the sheet of 18278
  columns and 9999 rows, the address returned is the column letters followed by the row, and
  reading that address again gives the same position.\<close>

theorem cell_address_bounds:
  assumes "asciiUpperLaw U" and "parseCellAddress U v = Some location"
  shows "0 \<le> loc_column location \<and> loc_column location < 18278 \<and>
         0 \<le> loc_row location \<and> loc_row location < 9999 \<and>
         parseCellAddress U (loc_address location) = Some location"
proof -
  obtain s where s: "normalizeCellAddress U v = Some s"
    using assms(2) by (auto simp: parseCellAddress_def split: option.splits)
  then obtain a b where ab: "s = a @ b" "colText a" "rowText b" using normalizeCellAddress_form by blast
  have l: "location = \<lparr>loc_address = a @ b, loc_column = columnOf a - 1, loc_row = readDigits b - 1\<rparr>"
    using assms(2) parseCellAddress_normalized [of U v a b] s ab by simp
  moreover have "parseCellAddress U (a @ b) = Some location"
    using parseCellAddress_normalized normalizeCellAddress_both(1) [OF assms(1) ab(2,3)] ab l by simp
  ultimately show ?thesis using columnOf_bounds [OF ab(2)] rowText_bounds [OF ab(3)] by simp
qed

theorem cell_address_bounds_witness:
  "parseCellAddress ascii_env (js '' $1$f '') =
     Some \<lparr>loc_address = js ''F1'', loc_column = 5, loc_row = 0\<rparr> \<and>
   parseCellAddress ascii_env (js ''F1'') = Some \<lparr>loc_address = js ''F1'', loc_column = 5, loc_row = 0\<rparr>"
proof -
  have h: "parseCellAddress ascii_env (js '' $1$f '') =
     Some \<lparr>loc_address = js ''F1'', loc_column = 5, loc_row = 0\<rparr>" by code_simp
  show ?thesis using h cell_address_bounds [OF asciiUpperLaw_ascii h] by simp
qed

end
