(* ===== verification/Gradebook_Headers.thy ===== *)
theory Gradebook_Headers
  imports Gradebook_Intent
begin

text \<open>
  The headings of the Gradebook sheet. \<open>formatAssignmentHeader\<close> writes an assignment as the text
  of its column's first cell and \<open>assignmentForHeader\<close> finds the assignment of such a text; the
  theory shows that the second undoes the first.
\<close>

section \<open>Plain decimals\<close>

definition plainDecimal :: "jsstring \<Rightarrow> bool" where
  "plainDecimal s \<longleftrightarrow>
     (let r = dropWhile isDigit s in
      takeWhile isDigit s \<noteq> [] \<and>
      (r = [] \<or> (hd r = 46 \<and> tl r \<noteq> [] \<and> (\<forall>c \<in> set (tl r). isDigit c))))"

text \<open>A number that prints as a plain decimal (no exponent) and reads back.\<close>

definition printsPlainly :: "js_env \<Rightarrow> rat \<Rightarrow> bool" where
  "printsPlainly U q \<longleftrightarrow> plainDecimal (numToString U q) \<and> toNumber (numToString U q) = Fin q"

lemma plainDecimal_cases:
  assumes "plainDecimal s"
  obtains a where "s = a" "a \<noteq> []" "\<forall>c \<in> set a. isDigit c" |
    a b where "s = a @ 46 # b" "a \<noteq> []" "b \<noteq> []" "\<forall>c \<in> set a. isDigit c" "\<forall>c \<in> set b. isDigit c"
proof -
  let ?a = "takeWhile isDigit s" and ?r = "dropWhile isDigit s"
  have s: "s = ?a @ ?r" and d: "\<forall>c \<in> set ?a. isDigit c" by (auto dest: set_takeWhileD)
  show ?thesis
  proof (cases ?r)
    case Nil
    then have "\<forall>c \<in> set s. isDigit c" by (simp only: dropWhile_eq_Nil_conv)
    moreover have "s \<noteq> []" using assms by (auto simp: plainDecimal_def Let_def)
    ultimately show ?thesis by (intro that(1) [OF refl])
  next
    case (Cons c b)
    then have "c = 46" "b \<noteq> []" "\<forall>c \<in> set b. isDigit c" "?a \<noteq> []"
      using assms by (auto simp: plainDecimal_def Let_def)
    then show ?thesis using s d Cons by (intro that(2) [of ?a b]) simp_all
  qed
qed

lemma plainDecimal_chars: "plainDecimal s \<Longrightarrow> s \<noteq> [] \<and> (\<forall>c \<in> set s. isDigit c \<or> c = 46) \<and> isDigit (last s)"
  by (erule plainDecimal_cases) auto

lemma rxNumber_matches:
  assumes "plainDecimal n"
  shows "(rev n @ l, [], k) \<in> set (rmatch rxNumber (l, n, k))"
  using assms
proof (cases rule: plainDecimal_cases)
  case (1 a)
  then have "(rev n @ l, [], k) \<in> set (rmatch (Plus rx_d) (l, n, k))"
    unfolding rx_d_def in_rmatch_Plus_Cls by auto
  then show ?thesis unfolding rxNumber_def in_rmatch_Seq by (intro exI [of _ "(rev n @ l, [], k)"]) (simp add: Opt_def)
next
  case (2 a b)
  have "(rev a @ l, 46 # b, k) \<in> set (rmatch (Plus rx_d) (l, n, k))"
    unfolding rx_d_def in_rmatch_Plus_Cls using 2 by auto
  moreover have "(rev b @ 46 # rev a @ l, [], k) \<in> set (rmatch (Plus rx_d) (46 # rev a @ l, b, k))"
    unfolding rx_d_def in_rmatch_Plus_Cls using 2 by auto
  then have "(rev n @ l, [], k) \<in> set (rmatch (Opt (Seq (chr 46) (Plus rx_d))) (rev a @ l, 46 # b, k))"
    using 2 by (simp add: Opt_def chr_def)
  ultimately show ?thesis unfolding rxNumber_def in_rmatch_Seq by blast
qed

section \<open>The heading pattern\<close>

definition headerTail :: rx where
  "headerTail = seqs [Star True rx_s, Opt (Seq (chr 45) (Star True rx_s)), chr 47, Star True rx_s,
     Grp 2 rxNumber, Star True rx_s, Opt (Seq (liti ''point'') (Opt (liti ''s''))), Eol]"

lemma headerRx_split: "headerRx = Seq Bol (Seq (Grp 1 (Star False rx_dot)) headerTail)"
  by (simp add: headerRx_def headerTail_def)

lemma headerTail_inv:
  assumes "(l', s', k') \<in> set (rmatch headerTail (l, s, k))"
  shows "\<exists>u1 u2 n u3. s = u1 @ 47 # u2 @ n @ u3 \<and> (\<forall>c \<in> set u1. isSpace c \<or> c = 45) \<and>
    (\<forall>c \<in> set u2. isSpace c) \<and> (\<forall>c \<in> set n. isDigit c \<or> c = 46) \<and>
    (\<forall>c \<in> set u3. isSpace c \<or> isLetterI c) \<and> k' = (2, n) # k"
proof -
  let ?A = "Seq (Star True rx_s) (Opt (Seq (chr 45) (Star True rx_s)))"
  let ?D = "Seq (Star True rx_s) (Opt (Seq (liti ''point'') (Opt (liti ''s''))))"
  obtain l1 s1 k1 l2 s2 k2 l3 s3 k3 l4 s4 k4 l5 s5 k5 where
    1: "(l1, s1, k1) \<in> set (rmatch ?A (l, s, k))" and
    2: "(l2, s2, k2) \<in> set (rmatch (chr 47) (l1, s1, k1))" and
    3: "(l3, s3, k3) \<in> set (rmatch (Star True rx_s) (l2, s2, k2))" and
    4: "(l4, s4, k4) \<in> set (rmatch (Grp 2 rxNumber) (l3, s3, k3))" and
    5: "(l5, s5, k5) \<in> set (rmatch ?D (l4, s4, k4))" and
    6: "(l', s', k') \<in> set (rmatch Eol (l5, s5, k5))"
    using assms unfolding headerTail_def seqs.simps in_rmatch_Seq by (metis prod_cases3)
  have mA: "noGrp ?A" "\<And>c. mayConsume ?A c \<longleftrightarrow> isSpace c \<or> c = 45"
    by (auto simp: Opt_def chr_def rx_s_def)
  obtain u1 where u1: "s = u1 @ s1" "\<forall>c \<in> set u1. isSpace c \<or> c = 45" "k1 = k"
    using rmatch_noGrp [OF mA(1) 1] mA(2) by auto
  have s2: "s1 = 47 # s2" "k2 = k1" using 2 by (auto simp: chr_def split: list.splits if_splits)
  obtain u2 where u2: "s2 = u2 @ s3" "\<forall>c \<in> set u2. isSpace c" "k3 = k2"
    using 3 unfolding rx_s_def in_rmatch_Star_Cls by auto
  obtain n k3' where n: "s3 = n @ s4" "\<forall>c \<in> set n. isDigit c \<or> c = 46" "k4 = (2, n) # k3"
  proof -
    obtain k0 where k0: "(l4, s4, k0) \<in> set (rmatch rxNumber (l3, s3, k3))"
      "k4 = (2, take (length s3 - length s4) s3) # k0"
      using 4 unfolding in_rmatch_Grp by blast
    have m: "noGrp rxNumber" "\<And>c. mayConsume rxNumber c \<longleftrightarrow> isDigit c \<or> c = 46"
      by (auto simp: rxNumber_def Plus_def Opt_def chr_def rx_d_def)
    show ?thesis using rmatch_noGrp [OF m(1) k0(1)] m(2) k0(2) that by auto
  qed
  have mD: "noGrp ?D" "\<And>c. mayConsume ?D c \<Longrightarrow> isSpace c \<or> isLetterI c"
    by (auto simp: Opt_def liti_def js_def rx_s_def isLetterI_def asciiLowerChar_def isUpper_def isLower_def
        split: if_splits)
  obtain u3 where u3: "s4 = u3 @ s5" "\<forall>c \<in> set u3. isSpace c \<or> isLetterI c" "k5 = k4"
    using rmatch_noGrp [OF mD(1) 5] mD(2) by blast
  have "s5 = []" "k' = k5" using 6 unfolding in_rmatch_Eol by auto
  then show ?thesis using u1 s2 u2 n u3 by auto
qed

lemma headerTail_quote: "34 \<in> set s \<Longrightarrow> rmatch headerTail (l, s, k) = []"
proof (rule ccontr)
  assume q: "34 \<in> set s" and "rmatch headerTail (l, s, k) \<noteq> []"
  then obtain l' s' k' where "(l', s', k') \<in> set (rmatch headerTail (l, s, k))"
    by (metis list.set_sel(1) prod_cases3)
  from headerTail_inv [OF this] obtain u1 u2 n u3 where u: "s = u1 @ 47 # u2 @ n @ u3"
    "\<forall>c \<in> set u1. isSpace c \<or> c = 45" "\<forall>c \<in> set u2. isSpace c" "\<forall>c \<in> set n. isDigit c \<or> c = 46"
    "\<forall>c \<in> set u3. isSpace c \<or> isLetterI c" by blast
  have "\<not> isSpace 34" "\<not> isDigit 34" "\<not> isLetterI 34"
    by (simp_all add: isSpace_def isDigit_def isLetterI_def isUpper_def isLower_def)
  moreover have "34 \<in> set u1 \<or> 34 \<in> set u2 \<or> 34 \<in> set n \<or> 34 \<in> set u3" using q u(1) by simp
  ultimately show False using u(2-5) by force
qed

lemma headerTail_matches:
  assumes "plainDecimal n"
  shows "\<exists>l'. (l', [], (2, n) # k) \<in> set (rmatch headerTail (l, [32, 32, 45, 47] @ n, k))"
proof -
  let ?l = "47 # 45 # 32 # 32 # l"
  have 1: "(32 # 32 # l, 45 # 47 # n, k) \<in> set (rmatch (Star True rx_s) (l, [32, 32, 45, 47] @ n, k))"
    unfolding rx_s_def in_rmatch_Star_Cls by (intro exI [of _ "[32, 32]"]) (simp add: isSpace_def)
  have 2: "(45 # 32 # 32 # l, 47 # n, k)
      \<in> set (rmatch (Opt (Seq (chr 45) (Star True rx_s))) (32 # 32 # l, 45 # 47 # n, k))"
  proof -
    have "(45 # 32 # 32 # l, 47 # n, k) \<in> set (rmatch (Star True rx_s) (45 # 32 # 32 # l, 47 # n, k))"
      unfolding rx_s_def in_rmatch_Star_Cls by auto
    then show ?thesis unfolding Opt_def in_rmatch_Alt in_rmatch_Seq
      by (intro disjI1 exI [of _ "(45 # 32 # 32 # l, 47 # n, k)"]) (simp add: chr_def)
  qed
  have 3: "(?l, n, k) \<in> set (rmatch (chr 47) (45 # 32 # 32 # l, 47 # n, k))" by (simp add: chr_def)
  have 4: "(p, t, k) \<in> set (rmatch (Star True rx_s) (p, t, k))" for p t k
    unfolding rx_s_def in_rmatch_Star_Cls by auto
  have 5: "(rev n @ ?l, [], (2, n) # k) \<in> set (rmatch (Grp 2 rxNumber) (?l, n, k))"
    unfolding in_rmatch_Grp using rxNumber_matches [OF assms] by auto
  have 6: "(p, [], c) \<in> set (rmatch (Seq (Opt r) Eol) (p, [], c))" for p c r
    by (simp add: Opt_def)
  show ?thesis
    unfolding headerTail_def seqs.simps in_rmatch_Seq
    using 1 2 3 4 [of ?l n k] 5 4 [of "rev n @ ?l" "[]" "(2, n) # k"] 6 [of "rev n @ ?l" "(2, n) # k"]
    unfolding in_rmatch_Seq by blast
qed

lemma rmatch_lazy_group:
  assumes "takeWhile P s = s"
  shows "rmatch (Grp n (Star False (Cls P))) (l, s, k) =
    map (\<lambda>i. (rev (take i s) @ l, drop i s, (n, take i s) # k)) [0..<Suc (length s)]"
  by (auto simp: rmatch_lazy_cls assms simp del: rmatch.simps(5) upt_Suc)

text \<open>A lazy group tries the tail at each place in turn: the first place where it matches counts.\<close>

lemma lazy_group_then:
  assumes "takeWhile P s = s" and "q @ r = s"
    and none: "\<And>i. i < length q \<Longrightarrow> rmatch b (rev (take i s), drop i s, [(n, take i s)]) = []"
    and hit: "rmatch b (rev q, r, [(n, q)]) = x # xs"
  shows "\<exists>ys. rmatch (Seq (Grp n (Star False (Cls P))) b) ([], s, []) = x # ys"
proof -
  let ?at = "\<lambda>i. (rev (take i s), drop i s, [(n, take i s)])"
  have "length q \<le> length s" using assms(2) by auto
  then have u: "[0..<Suc (length s)] = [0..<length q] @ length q # [Suc (length q)..<Suc (length s)]"
    using upt_add_eq_append [of 0 "length q" "Suc (length s) - length q"] upt_conv_Cons [of "length q" "Suc (length s)"]
    by (simp del: upt_Suc)
  have g: "rmatch (Grp n (Star False (Cls P))) ([], s, []) = map ?at [0..<Suc (length s)]"
    using rmatch_lazy_group [OF assms(1), of n "[]" "[]"] by (simp del: rmatch.simps upt_Suc)
  have "rmatch (Seq (Grp n (Star False (Cls P))) b) ([], s, []) =
      concat (map (rmatch b \<circ> ?at) ([0..<length q] @ length q # [Suc (length q)..<Suc (length s)]))"
    unfolding rmatch.simps(3) g u by (simp only: map_map)
  also have "\<dots> = rmatch b (?at (length q)) @ concat (map (rmatch b \<circ> ?at) [Suc (length q)..<Suc (length s)])"
    by (subst concat_map_first) (use none in \<open>auto simp del: upt_Suc\<close>)
  also have "?at (length q) = (rev q, r, [(n, q)])" using assms(2) by auto
  finally show ?thesis unfolding hit append_Cons by blast
qed

lemma headerTail_first:
  assumes "plainDecimal n"
  shows "\<exists>l' s' xs. rmatch headerTail (l, [32, 32, 45, 47] @ n, k) = (l', s', (2, n) # k) # xs"
proof -
  let ?r = "[32, 32, 45, 47] @ n"
  obtain l' s' k' xs where h: "rmatch headerTail (l, ?r, k) = (l', s', k') # xs"
    using headerTail_matches [OF assms, of k l] by (cases "rmatch headerTail (l, ?r, k)") auto
  then have "(l', s', k') \<in> set (rmatch headerTail (l, ?r, k))" by simp
  from headerTail_inv [OF this] obtain u1 u2 m u3 where
    u: "?r = u1 @ 47 # u2 @ m @ u3" "\<forall>c \<in> set u1. isSpace c \<or> c = 45" "\<forall>c \<in> set u2. isSpace c"
       "\<forall>c \<in> set u3. isSpace c \<or> isLetterI c" "k' = (2, m) # k" by blast
  have "takeWhile (\<lambda>c. c \<noteq> 47) ?r = [32, 32, 45]" by simp
  moreover have "takeWhile (\<lambda>c. c \<noteq> 47) ?r = u1"
    unfolding u(1) using u(2) by (subst takeWhile_append2) (auto simp: isSpace_def)
  ultimately have "u1 = [32, 32, 45]" by simp
  then have n: "n = u2 @ m @ u3" using u(1) by simp
  have ns: "\<not> isSpace c \<and> \<not> isLetterI c" if "c \<in> set n" for c
    using plainDecimal_chars [OF assms] that
    by (auto simp: isDigit_def isSpace_def isLetterI_def isUpper_def isLower_def)
  have "set u2 = {}" using u(3) ns n by auto
  moreover have "set u3 = {}" using u(4) ns n by auto
  ultimately show ?thesis using h n u(5) by simp
qed

lemma headerRx_formatted:
  assumes "plainDecimal n" and "\<forall>c \<in> set q. \<not> isLineEnd c" and "q \<noteq> []" "last q = 34"
  shows "\<exists>m. rexec headerRx (q @ [32, 32, 45, 47] @ n) = Some m \<and> mCaps m = [(2, n), (1, q)]"
proof -
  define s where "s = q @ [32, 32, 45, 47] @ n"
  have "\<forall>c \<in> set s. \<not> isLineEnd c"
    using assms(2) plainDecimal_chars [OF assms(1)] by (auto simp: s_def isLineEnd_def isDigit_def)
  then have tw: "takeWhile (\<lambda>c. \<not> isLineEnd c) s = s" by (simp add: takeWhile_eq_all_conv)
  have none: "rmatch headerTail (rev (take i s), drop i s, k) = []" if "i < length q" for i k
  proof (rule headerTail_quote)
    have "last q \<in> set (drop i q)" using that by (metis last_drop last_in_set drop_eq_Nil not_le)
    then show "34 \<in> set (drop i s)" using assms(4) by (simp add: s_def)
  qed
  obtain l' s' xs where h: "rmatch headerTail (rev q, [32, 32, 45, 47] @ n, [(1, q)]) = (l', s', [(2, n), (1, q)]) # xs"
    using headerTail_first [OF assms(1)] by blast
  obtain ys where "rmatch (Seq (Grp 1 (Star False rx_dot)) headerTail) ([], s, []) = (l', s', [(2, n), (1, q)]) # ys"
    using lazy_group_then [OF tw s_def [symmetric] none h] unfolding rx_dot_def by blast
  from rexec_Bol_Some [OF this] show ?thesis unfolding headerRx_split s_def [symmetric] by simp
qed

lemma quotedRx_unquotes:
  assumes "\<forall>c \<in> set t. \<not> isLineEnd c"
  shows "replaceFirst quotedRx (\<lambda>q. capStr q 1) (34 # t @ [34]) = t"
proof -
  let ?Q = "Cls (\<lambda>c. c = 34 \<or> c = 8220)" and ?Q' = "Cls (\<lambda>c. c = (34::int) \<or> c = 8221)"
  let ?r = "seqs [?Q, Grp 1 (Star True rx_dot), ?Q', Eol]"
  have inv: "k' = [(1, t)] \<and> s' = []" if "(l', s', k') \<in> set (rmatch ?r ([], 34 # t @ [34], []))" for l' s' k'
  proof -
    obtain p0 p1 p2 where p: "p0 \<in> set (rmatch ?Q ([], 34 # t @ [34], []))"
      "p1 \<in> set (rmatch (Grp 1 (Star True rx_dot)) p0)" "p2 \<in> set (rmatch ?Q' p1)"
      "(l', s', k') \<in> set (rmatch Eol p2)"
      using \<open>(l', s', k') \<in> _\<close> unfolding seqs.simps in_rmatch_Seq by blast
    obtain l1 s1 k1 where p1: "p1 = (l1, s1, k1)" by (rule prod_cases3)
    obtain l2 s2 k2 where p2: "p2 = (l2, s2, k2)" by (rule prod_cases3)
    have "p0 = ([34], t @ [34], [])" using p(1) by simp
    then have 1: "(l1, s1, k1) \<in> set (rmatch (Grp 1 (Star True rx_dot)) ([34], t @ [34], []))" and
      2: "(l2, s2, k2) \<in> set (rmatch ?Q' (l1, s1, k1))" and
      3: "(l', s', k') \<in> set (rmatch Eol (l2, s2, k2))"
      using p(2-4) p1 p2 by simp_all
    obtain u where u: "t @ [34] = u @ s1" "k1 = [(1, take (length (t @ [34]) - length s1) (t @ [34]))]"
      using 1 unfolding rx_dot_def in_rmatch_Grp in_rmatch_Star_Cls by blast
    then have "k1 = [(1, u)]" by (simp only:) simp
    obtain c where "s1 = [c]" "k2 = k1" "s' = []" "k' = k2"
      using 2 3 unfolding in_rmatch_Cls in_rmatch_Eol by auto
    then show ?thesis using u(1) \<open>k1 = [(1, u)]\<close> by auto
  qed
  have "(34 # rev t @ [34], [], [(1, t)]) \<in> set (rmatch ?r ([], 34 # t @ [34], []))"
  proof -
    have "(34 :: int) # t @ [34] = 34 # (t @ [34])" by simp
    have a: "([34], t @ [34], []) \<in> set (rmatch ?Q ([], 34 # t @ [34], []))" by simp
    have b: "(rev t @ [34], [34], [(1, t)]) \<in> set (rmatch (Grp 1 (Star True rx_dot)) ([34], t @ [34], []))"
      unfolding rx_dot_def in_rmatch_Grp in_rmatch_Star_Cls using assms by auto
    have c: "(34 # rev t @ [34], [], [(1, t)]) \<in> set (rmatch (Seq ?Q' Eol) (rev t @ [34], [34], [(1, t)]))" by simp
    show ?thesis unfolding seqs.simps in_rmatch_Seq using a b c unfolding in_rmatch_Seq by blast
  qed
  from rexec_Bol_unique [OF this] inv obtain m where m: "rexec quotedRx (34 # t @ [34]) = Some m" "mCaps m = [(1, t)]"
    unfolding quotedRx_def by blast
  have "mPre m = []" using m(1) rsearch_Bol_pre unfolding quotedRx_def rexec_def by blast
  moreover have "mRest m = []" using rexec_Bol(1) [OF m(1) [unfolded quotedRx_def]] inv by blast
  ultimately show ?thesis using m by (simp add: replaceFirst_def capStr_def cap_def)
qed

section \<open>Properties\<close>

lemma parse_formatted_header:
  assumes "\<forall>c \<in> set (assignment_title a). \<not> isLineEnd c" and "printsPlainly U (max_points a)"
  shows "parseAssignmentHeader U (Some (CStr (formatAssignmentHeader U a))) =
     (assignment_title a, Some (Fin (max_points a)))"
proof -
  let ?t = "assignment_title a" and ?n = "numToString U (max_points a)"
  let ?q = "34 # ?t @ [34]"
  have f: "formatAssignmentHeader U a = ?q @ [32, 32, 45, 47] @ ?n"
    by (simp add: formatAssignmentHeader_def js_def)
  have n: "plainDecimal ?n" "toNumber ?n = Fin (max_points a)" using assms(2) by (auto simp: printsPlainly_def)
  have "trim (formatAssignmentHeader U a) = formatAssignmentHeader U a"
    using plainDecimal_chars [OF n(1)] by (intro trim_id) (auto simp: f isSpace_def isDigit_def)
  moreover obtain m where m: "rexec headerRx (?q @ [32, 32, 45, 47] @ ?n) = Some m" "mCaps m = [(2, ?n), (1, ?q)]"
    using headerRx_formatted [OF n(1), of ?q] assms(1) by (auto simp: isLineEnd_def)
  moreover have "trim ?q = ?q" by (rule trim_id) (simp_all add: isSpace_def)
  ultimately show ?thesis using quotedRx_unquotes [OF assms(1)] n(2)
    by (simp add: parseAssignmentHeader_def parseHeaderText_def cellText_def f capStr_def cap_def)
qed

text \<open>Reading back the heading that was written for an assignment gives its title and its maximum
  exactly, and finds the assignment again when no other one of the class has both an equal title
  (up to case, punctuation and spacing) and the same maximum; titles are on one line and the maximum
  prints as a plain decimal.\<close>

theorem header_roundtrip:
  assumes "a \<in> set assignments" and "assignment_title a \<noteq> []"
    and "\<forall>c \<in> set (assignment_title a). \<not> isLineEnd c" and "printsPlainly U (max_points a)"
    and "\<forall>b \<in> set assignments. normalizeWords U (assignment_title b) = normalizeWords U (assignment_title a) \<longrightarrow>
           max_points b = max_points a \<longrightarrow> b = a"
  shows "parseAssignmentHeader U (Some (CStr (formatAssignmentHeader U a))) =
           (assignment_title a, Some (Fin (max_points a))) \<and>
         assignmentForHeader U (Some (CStr (formatAssignmentHeader U a))) assignments = Some a"
proof -
  note p = parse_formatted_header [OF assms(3,4)]
  define ts where "ts = filter (\<lambda>b. normalizeWords U (assignment_title b) = normalizeWords U (assignment_title a)) assignments"
  have a: "a \<in> set ts" using assms(1) by (simp add: ts_def)
  have u: "b = a" if "b \<in> set ts" "max_points b = max_points a" for b using that assms(5) by (simp add: ts_def)
  have "List.find (\<lambda>b. Some (Fin (max_points a)) = Some (Fin (max_points b))) ts = Some a"
    using a u by (induction ts) (auto simp: list.set_intros)
  moreover have "length ts = 1 \<Longrightarrow> hd ts = a" using a by (cases ts) auto
  ultimately have "assignmentForHeader U (Some (CStr (formatAssignmentHeader U a))) assignments = Some a"
    unfolding assignmentForHeader_def p Let_def prod.case ts_def [symmetric] using assms(2) by simp
  then show ?thesis using p by blast
qed

definition story :: assignment where
  "story = \<lparr>assignment_id = js ''a1'', assignment_classroom_id = js ''c1'', assignment_classroom_name = js ''7B'',
     assignment_title = js ''Story / writing'', assignment_instructions = [], due_at = None, max_points = 25 / 2,
     grading_scheme = JNull, assignment_status = Published, assignment_created_at = [], assignment_updated_at = []\<rparr>"

theorem header_roundtrip_witness:
  "assignmentForHeader ascii_env (Some (CStr (formatAssignmentHeader ascii_env story))) [story] = Some story"
proof -
  have "\<forall>c \<in> set (assignment_title story). \<not> isLineEnd c" by code_simp
  moreover have "printsPlainly ascii_env (max_points story)" by code_simp
  moreover have "assignment_title story \<noteq> []" by code_simp
  ultimately show ?thesis using header_roundtrip [of story "[story]" ascii_env] by simp
qed

end
