(* ===== verification/Gradebook_Safety.thy ===== *)
theory Gradebook_Safety
  imports Gradebook_Intent
begin

text \<open>
  What the Gradebook assistant may do: every action that \<open>resolveGradebookIntent\<close> prepares is
  checked here against the class it was prepared for. Grades go only to students of the roster
  who submitted, within the assignment's scale; a heading never drops below an existing grade;
  free cells are the only ones written directly; student identities are never touched.
\<close>

section \<open>Scores\<close>

definition wholeCents :: "rat \<Rightarrow> bool" where
  "wholeCents q \<longleftrightarrow> of_int \<lfloor>100 * q\<rfloor> = 100 * q"

lemma percentPoints_nonneg: "0 \<le> m \<Longrightarrow> 0 \<le> amount \<Longrightarrow> 0 \<le> percentPoints m amount"
  by (simp add: percentPoints_def mathRound_nonneg)

lemma percentPoints_le:
  assumes "0 \<le> m" "wholeCents m" "amount \<le> 100"
  shows "percentPoints m amount \<le> m"
proof -
  have "m * amount \<le> m * 100" using assms by (intro mult_left_mono) auto
  then have "m * amount \<le> of_int \<lfloor>100 * m\<rfloor>" using assms(2) unfolding wholeCents_def by (metis mult.commute)
  then have "mathRound (m * amount) \<le> \<lfloor>100 * m\<rfloor>" by (rule mathRound_le_of_int)
  then have "of_int (mathRound (m * amount)) \<le> (of_int \<lfloor>100 * m\<rfloor> :: rat)" by simp
  then have "of_int (mathRound (m * amount)) \<le> 100 * m" using assms(2) unfolding wholeCents_def by simp
  then show ?thesis by (simp add: percentPoints_def)
qed

lemma pointsForGrade_range:
  assumes "pointsForGrade v a = Some (p, r)" and "0 \<le> max_points a" and "wholeCents (max_points a)"
  shows "0 \<le> p \<and> p \<le> max_points a"
  using assms percentPoints_nonneg percentPoints_le
  by (auto simp: pointsForGrade_def split: if_splits option.splits jsnum.splits)

section \<open>Who and what an action is about\<close>

lemma findMentionedStudents_roster: "set (findMentionedStudents U prompt roster) \<subseteq> set roster"
  unfolding findMentionedStudents_def Let_def
  by (auto dest!: subsetD [OF set_newMap])

lemma assignmentForHeader_in: "assignmentForHeader U v as = Some a \<Longrightarrow> a \<in> set as"
proof -
  assume a: "assignmentForHeader U v as = Some a"
  obtain t m where tm: "parseAssignmentHeader U v = (t, m)" by (cases "parseAssignmentHeader U v")
  define ts where "ts = filter (\<lambda>a. normalizeWords U (assignment_title a) = normalizeWords U t) as"
  have "(if length ts = 1 then Some (hd ts) else List.find (\<lambda>a. m = Some (Fin (max_points a))) ts) = Some a"
    using a unfolding assignmentForHeader_def tm Let_def prod.case ts_def [symmetric] by (simp split: if_splits)
  then have "a \<in> set ts" by (cases ts) (auto split: if_splits dest!: set_find_SomeD)
  then show ?thesis by (simp add: ts_def)
qed

lemma targetAssignment_in: "targetAssignment U l as vs = Some a \<Longrightarrow> a \<in> set as"
  by (auto simp: targetAssignment_def Let_def split: if_splits option.splits
      dest: assignmentForHeader_in nthOpt_SomeD)

lemma targetStudent_in: "targetStudent U l roster vs = Some s \<Longrightarrow> s \<in> set roster"
  by (auto simp: targetStudent_def Let_def split: option.splits dest: set_find_SomeD nthOpt_SomeD)

lemma resolve_GradeCell:
  "resolveGradebookCellTarget U cell roster as wb = Some (GradeCell ad a s) \<Longrightarrow> a \<in> set as \<and> s \<in> set roster"
  by (auto simp: resolveGradebookCellTarget_def Let_def split: option.splits if_splits
      dest: targetAssignment_in targetStudent_in)

lemma resolve_AssignmentHeader:
  "resolveGradebookCellTarget U cell roster as wb = Some (AssignmentHeader ad a) \<Longrightarrow> a \<in> set as"
  by (auto simp: resolveGradebookCellTarget_def Let_def split: option.splits if_splits
      dest: targetAssignment_in)

lemma parse_again:
  assumes "asciiUpperLaw U" "parseCellAddress U v = Some l"
  shows "parseCellAddress U (loc_address l) = Some l"
proof -
  obtain s where s: "normalizeCellAddress U v = Some s"
    using assms(2) by (auto simp: parseCellAddress_def split: option.splits)
  then obtain a b where ab: "s = a @ b" "colText a" "rowText b" using normalizeCellAddress_form by blast
  then show ?thesis
    using parseCellAddress_normalized [of U v a b] parseCellAddress_normalized [of U "a @ b" a b]
      normalizeCellAddress_both(1) [OF assms(1) ab(2,3)] s assms(2) by auto
qed

lemma resolve_Custom:
  assumes "asciiUpperLaw U" "resolveGradebookCellTarget U cell roster as wb = Some (Custom ad)"
  shows "resolveGradebookCellTarget U ad roster as wb = Some (Custom ad)"
proof -
  obtain l where l: "parseCellAddress U cell = Some l"
    using assms(2) by (auto simp: resolveGradebookCellTarget_def split: option.splits)
  then have "ad = loc_address l"
    using assms(2) by (auto simp: resolveGradebookCellTarget_def Let_def split: option.splits if_splits)
  then show ?thesis using assms l parse_again [OF assms(1) l]
    by (simp add: resolveGradebookCellTarget_def)
qed

lemma parseCellEdit_parses:
  assumes "asciiUpperLaw U" "parseCellEdit U prompt = Some e"
  shows "\<exists>l. parseCellAddress U (edit_cell e) = Some l \<and> loc_address l = edit_cell e"
proof -
  obtain v where "normalizeCellAddress U v = Some (edit_cell e)"
    using assms(2) by (auto simp: parseCellEdit_def Let_def split: option.splits if_splits)
  then obtain a b where ab: "edit_cell e = a @ b" "colText a" "rowText b"
    using normalizeCellAddress_form by blast
  then show ?thesis
    using parseCellAddress_normalized normalizeCellAddress_both(1) [OF assms(1) ab(2,3)] by force
qed

section \<open>The actions of each branch\<close>

lemma bulkIntent_actions:
  obtains "intent_actions (bulkIntent input student fm score) = []" |
    full percent q where "intent_actions (bulkIntent input student fm score) =
        map (\<lambda>a. SetGrade (user_id student) (assignment_id a) (bulkPoints full percent q a))
          (filter (\<lambda>a. in_submissionFor input (user_id student) (assignment_id a) \<noteq> None) (in_assignments input))"
      "0 \<le> q" "percent \<longrightarrow> q \<le> 100"
      "full \<or> percent \<or> (\<forall>a \<in> set (in_assignments input).
         in_submissionFor input (user_id student) (assignment_id a) \<noteq> None \<longrightarrow> q \<le> max_points a)"
proof -
  define sub where "sub = filter (\<lambda>a. in_submissionFor input (user_id student) (assignment_id a) \<noteq> None) (in_assignments input)"
  define amount where "amount = (case score of Some (n, _) \<Rightarrow> n | None \<Rightarrow> Fin 100)"
  define percent where "percent = (case score of Some (_, p) \<Rightarrow> p | None \<Rightarrow> False)"
  note unf = bulkIntent_def Let_def sub_def [symmetric] amount_def [symmetric] percent_def [symmetric]
  show ?thesis
  proof (cases amount)
    case (Fin q)
    define full where "full = (if \<not> fm \<and> \<not> percent \<and> q = 100 then (\<exists>a \<in> set sub. max_points a < q) else fm)"
    show ?thesis
    proof (cases "sub = [] \<or> (q < 0 \<or> percent \<and> 100 < q) \<or> (\<not> full \<and> \<not> percent \<and> (\<exists>a \<in> set sub. max_points a < q))")
      case True
      then have "intent_actions (bulkIntent input student fm score) = []"
        unfolding unf Fin jsnum.case full_def [symmetric] by auto
      then show ?thesis by (rule that(1))
    next
      case False
      then have "intent_actions (bulkIntent input student fm score) =
          map (\<lambda>a. SetGrade (user_id student) (assignment_id a) (bulkPoints full percent q a)) sub"
        unfolding unf Fin jsnum.case full_def [symmetric] by simp
      then show ?thesis using False by (intro that(2) [of full percent q]) (auto simp: sub_def not_less)
    qed
  qed (rule that(1), unfold unf, simp)+
qed

lemma bulkIntent_SetGrade:
  assumes "SetGrade sid aid p \<in> set (intent_actions (bulkIntent input student fm score))"
    and "\<forall>a \<in> set (in_assignments input). 0 \<le> max_points a \<and> wholeCents (max_points a)"
  shows "\<exists>a \<in> set (in_assignments input). sid = user_id student \<and> assignment_id a = aid \<and>
     in_submissionFor input sid aid \<noteq> None \<and> 0 \<le> p \<and> p \<le> max_points a"
proof (cases rule: bulkIntent_actions [of input student fm score])
  case (2 full percent q)
  then obtain a where a: "a \<in> set (in_assignments input)" "sid = user_id student" "aid = assignment_id a"
    "in_submissionFor input sid aid \<noteq> None" "p = bulkPoints full percent q a"
    using assms(1) by auto
  then have "0 \<le> p \<and> p \<le> max_points a"
    using assms(2) 2 percentPoints_nonneg percentPoints_le by (auto simp: bulkPoints_def)
  then show ?thesis using a by auto
qed (use assms in simp)

lemma bulkIntent_only_SetGrade:
  "act \<in> set (intent_actions (bulkIntent input student fm score)) \<Longrightarrow> \<exists>s a p. act = SetGrade s a p"
  by (cases rule: bulkIntent_actions [of input student fm score]) auto

lemma resolveBulkGrades_cases:
  assumes "resolveBulkGrades U input = Some i"
  obtains "intent_actions i = []" |
    student fm score where "student \<in> set (in_roster input)" "i = bulkIntent input student fm score"
proof (cases "findMentionedStudents U (in_prompt input) (in_roster input)")
  case Nil
  then show ?thesis using assms that by (auto simp: resolveBulkGrades_def Let_def split: if_splits)
next
  case (Cons s ss)
  then have "s \<in> set (in_roster input)"
    using findMentionedStudents_roster [of U "in_prompt input" "in_roster input"] by auto
  then show ?thesis using assms that Cons
    by (cases ss) (auto simp: resolveBulkGrades_def Let_def split: if_splits)
qed

lemma headerIntent_actions:
  assumes "act \<in> set (intent_actions (headerIntent U input ad a raw))"
  obtains title q where "act = UpdateAssignment (assignment_id a) title q" "title \<noteq> []" "0 < q" "q \<le> 10000"
    "title \<noteq> assignment_title a \<or> q \<noteq> max_points a"
    "\<And>student s g p. student \<in> set (in_roster input) \<Longrightarrow>
       in_submissionFor input (user_id student) (assignment_id a) = Some s \<Longrightarrow>
       submission_grade s = Some g \<Longrightarrow> grade_points g = Some p \<Longrightarrow> p \<le> q"
proof -
  obtain t0 m0 where tm: "parseAssignmentHeader U (Some (CStr raw)) = (t0, m0)" by (cases "parseAssignmentHeader U (Some (CStr raw))")
  define title where "title = (if normalizeWords U t0 = normalizeWords U (assignment_title a) then assignment_title a else t0)"
  obtain q where q: "(case m0 of Some n \<Rightarrow> n | None \<Rightarrow> Fin (max_points a)) = Fin q"
    using assms by (auto simp: headerIntent_def tm Let_def split: jsnum.splits)
  show ?thesis
    by (rule that [of title q], insert assms)
       (force simp: headerIntent_def tm q title_def [symmetric] not_less Let_def split: if_splits)+
qed

lemma gradeIntent_actions:
  assumes "act \<in> set (intent_actions (gradeIntent input ad a s raw))"
  shows "\<exists>p r. act = SetGrade (user_id s) (assignment_id a) p \<and> pointsForGrade raw a = Some (p, r) \<and>
     in_submissionFor input (user_id s) (assignment_id a) \<noteq> None"
  using assms by (auto simp: gradeIntent_def split: if_splits option.splits prod.splits)

lemma resolveCellEdit_cases:
  assumes "resolveCellEdit U input = Some i"
  obtains "intent_actions i = []" |
    ad a raw where "a \<in> set (in_assignments input)" "i = headerIntent U input ad a raw" |
    ad a s raw where "a \<in> set (in_assignments input)" "s \<in> set (in_roster input)" "i = gradeIntent input ad a s raw" |
    cell ad v where
      "resolveGradebookCellTarget U cell (in_roster input) (in_assignments input) (in_workbook input) = Some (Custom ad)"
      "intent_actions i = [SetCell (js ''Gradebook'') ad v]"
proof -
  obtain e where e: "parseCellEdit U (in_prompt input) = Some e"
    using assms by (auto simp: resolveCellEdit_def split: option.splits)
  let ?t = "resolveGradebookCellTarget U (edit_cell e) (in_roster input) (in_assignments input) (in_workbook input)"
  show ?thesis
  proof (cases ?t)
    case None
    then show ?thesis using assms e that(1) by (auto simp: resolveCellEdit_def)
  next
    case (Some t)
    then show ?thesis
    proof (cases t)
      case (AssignmentHeader ad a)
      then show ?thesis using assms e Some that(2) resolve_AssignmentHeader [of U "edit_cell e"]
        by (force simp: resolveCellEdit_def)
    next
      case (GradeCell ad a s)
      then show ?thesis using assms e Some that(3) resolve_GradeCell [of U "edit_cell e"]
        by (force simp: resolveCellEdit_def)
    next
      case (Custom ad)
      then show ?thesis using assms e Some that(4) [of "edit_cell e" ad] by (auto simp: resolveCellEdit_def)
    qed (use assms e that(1) in \<open>auto simp: resolveCellEdit_def\<close>)
  qed
qed

lemma resolveGradebookIntent_cases:
  assumes "resolveGradebookIntent U input = Some i"
  obtains "resolveCellEdit U input = Some i" | "resolveCellEdit U input = None" "resolveBulkGrades U input = Some i"
  using assms by (auto simp: resolveGradebookIntent_def split: option.splits)

lemma intent_action_cases:
  assumes "resolveGradebookIntent U input = Some i" and "act \<in> set (intent_actions i)"
  obtains ad a raw where "a \<in> set (in_assignments input)" "act \<in> set (intent_actions (headerIntent U input ad a raw))" |
    ad a s raw where "a \<in> set (in_assignments input)" "s \<in> set (in_roster input)"
      "act \<in> set (intent_actions (gradeIntent input ad a s raw))" |
    cell ad v where
      "resolveGradebookCellTarget U cell (in_roster input) (in_assignments input) (in_workbook input) = Some (Custom ad)"
      "act = SetCell (js ''Gradebook'') ad v" |
    s fm score where "s \<in> set (in_roster input)" "act \<in> set (intent_actions (bulkIntent input s fm score))"
  using assms(1)
proof (cases rule: resolveGradebookIntent_cases)
  case 1
  then show ?thesis using assms(2) that by (cases rule: resolveCellEdit_cases) auto
next
  case 2
  from 2(2) show ?thesis using assms(2) that by (cases rule: resolveBulkGrades_cases) auto
qed

section \<open>Properties\<close>

text \<open>C11: Every grade the assistant prepares, for one cell or in bulk, is for a student of the roster
  and an assignment of the class with a submission, and lies between zero and the assignment's
  maximum, when maxima are not negative and have at most two decimals.\<close>

theorem intent_grades_in_range:
  assumes "\<forall>a \<in> set (in_assignments input). 0 \<le> max_points a \<and> wholeCents (max_points a)"
    and "resolveGradebookIntent U input = Some i"
    and "SetGrade sid aid p \<in> set (intent_actions i)"
  shows "\<exists>student \<in> set (in_roster input). \<exists>a \<in> set (in_assignments input).
     user_id student = sid \<and> assignment_id a = aid \<and> in_submissionFor input sid aid \<noteq> None \<and>
     0 \<le> p \<and> p \<le> max_points a"
  using assms(2,3)
proof (cases rule: intent_action_cases)
  case (1 ad a raw)
  from 1(2) show ?thesis by (cases rule: headerIntent_actions) auto
next
  case (2 ad a s raw)
  then show ?thesis using gradeIntent_actions [OF 2(3)] pointsForGrade_range assms(1) by fastforce
next
  case (4 s fm score)
  then show ?thesis using bulkIntent_SetGrade [OF 4(2) assms(1)] by blast
qed auto

definition demo_user :: user where
  "demo_user = \<lparr>user_id = js ''u1'', username = js ''asha'', display_name = js ''Asha Rao'', user_role = Student,
     grade_level = None, user_section = None, roll_number = None, must_change_password = False,
     user_created_at = js ''2026''\<rparr>"

definition demo_assignment :: "rat \<Rightarrow> assignment" where
  "demo_assignment m = \<lparr>assignment_id = js ''a1'', assignment_classroom_id = js ''c1'',
     assignment_classroom_name = js ''7B'', assignment_title = js ''Story'', assignment_instructions = [],
     due_at = None, max_points = m, grading_scheme = JNull, assignment_status = Published,
     assignment_created_at = js ''2026'', assignment_updated_at = js ''2026''\<rparr>"

definition demo_submission :: submission where
  "demo_submission = \<lparr>submission_id = js ''s1'', submission_assignment_id = js ''a1'',
     submission_assignment_title = js ''Story'', submission_student_id = js ''u1'',
     submission_student_name = js ''Asha Rao'', submission_status = Submitted, submission_version = None,
     submission_grade = None, submitted_at = None, submission_updated_at = js ''2026''\<rparr>"

definition demo_input :: "string \<Rightarrow> rat \<Rightarrow> intent_input" where
  "demo_input prompt m = \<lparr>in_prompt = js prompt, in_roster = [demo_user], in_assignments = [demo_assignment m],
     in_workbook = None, in_submissionFor = (\<lambda>s a. Some demo_submission)\<rparr>"

theorem intent_grades_in_range_witness:
  "\<exists>i. resolveGradebookIntent ascii_env (demo_input ''set C2 to 90%'' 20) = Some i \<and>
     intent_actions i = [SetGrade (js ''u1'') (js ''a1'') 18] \<and> (0::rat) \<le> 18 \<and> (18::rat) \<le> 20"
proof -
  let ?in = "demo_input ''set C2 to 90%'' 20"
  have h: "resolveGradebookIntent ascii_env ?in =
     Some \<lparr>intent_message = GradeRead (js ''C2'') (js ''Asha Rao'') (js ''Story'') (ReadPercent 90),
           intent_actions = [SetGrade (js ''u1'') (js ''a1'') 18]\<rparr>" by code_simp
  have w: "\<forall>a \<in> set (in_assignments ?in). 0 \<le> max_points a \<and> wholeCents (max_points a)" by code_simp
  show ?thesis using h intent_grades_in_range [OF w h, of "js ''u1''" "js ''a1''" 18] by simp
qed

text \<open>Without the restriction to two decimals the range fails: \<open>Math.round\<close> on hundredths can
  round up past the maximum, so 100 percent of a 10.005-point assignment is prepared as 10.01
  points.\<close>

theorem intent_percent_exceeds_maximum:
  "\<exists>input i p a. resolveGradebookIntent ascii_env input = Some i \<and>
     SetGrade (js ''u1'') (js ''a1'') p \<in> set (intent_actions i) \<and>
     in_assignments input = [a] \<and> 0 < max_points a \<and> max_points a < p"
proof -
  let ?in = "demo_input ''set C2 to 100%'' (10005 / 1000)"
  have h: "resolveGradebookIntent ascii_env ?in =
     Some \<lparr>intent_message = GradeRead (js ''C2'') (js ''Asha Rao'') (js ''Story'') (ReadPercent 100),
           intent_actions = [SetGrade (js ''u1'') (js ''a1'') (1001 / 100)]\<rparr>" by code_simp
  have "in_assignments ?in = [demo_assignment (10005 / 1000)]" by (simp add: demo_input_def)
  moreover have "0 < max_points (demo_assignment (10005 / 1000))"
    and "max_points (demo_assignment (10005 / 1000)) < 1001 / 100" by (simp_all add: demo_assignment_def)
  ultimately show ?thesis using h by (metis gradebook_intent.select_convs(2) list.set_intros(1))
qed

text \<open>A heading the assistant prepares to change belongs to an assignment of the class, gets a title
  that is not empty and a maximum above zero and at most 10000, really changes something, and never
  puts the maximum below a grade that a student of the roster already has.\<close>

theorem intent_header_updates_safe:
  assumes "resolveGradebookIntent U input = Some i"
    and "UpdateAssignment aid title q \<in> set (intent_actions i)"
  shows "\<exists>a \<in> set (in_assignments input). assignment_id a = aid \<and> title \<noteq> [] \<and> 0 < q \<and> q \<le> 10000 \<and>
     (title \<noteq> assignment_title a \<or> q \<noteq> max_points a) \<and>
     (\<forall>student \<in> set (in_roster input). \<forall>s g p.
        in_submissionFor input (user_id student) aid = Some s \<longrightarrow> submission_grade s = Some g \<longrightarrow>
        grade_points g = Some p \<longrightarrow> p \<le> q)"
  using assms
proof (cases rule: intent_action_cases)
  case (1 ad a raw)
  from 1(2) show ?thesis
  proof (cases rule: headerIntent_actions)
    case (1 title' q')
    then show ?thesis using \<open>a \<in> set (in_assignments input)\<close> by (intro bexI [of _ a]) auto
  qed
next
  case (2 ad a s raw)
  then show ?thesis using gradeIntent_actions [OF 2(3)] by auto
next
  case (4 s fm score)
  then show ?thesis using bulkIntent_only_SetGrade [OF 4(2)] by auto
qed auto

theorem intent_header_updates_safe_witness:
  "\<exists>i. resolveGradebookIntent ascii_env (demo_input ''rename C1 to Essay / 25'' 20) = Some i \<and>
     intent_actions i = [UpdateAssignment (js ''a1'') (js ''Essay'') 25] \<and> (25::rat) \<le> 10000"
proof -
  let ?in = "demo_input ''rename C1 to Essay / 25'' 20"
  have h: "resolveGradebookIntent ascii_env ?in =
     Some \<lparr>intent_message = AuthoritativeHeader (js ''C1'') (js ''Story''),
           intent_actions = [UpdateAssignment (js ''a1'') (js ''Essay'') 25]\<rparr>" by code_simp
  show ?thesis using h intent_header_updates_safe [OF h, of "js ''a1''" "js ''Essay''" 25] by simp
qed

text \<open>A cell the assistant writes directly is on the Gradebook sheet and is a free cell: it is
  neither a student's identity, nor an assignment heading, nor a grade. No request ever adds a
  column.\<close>

theorem intent_cells_are_custom:
  assumes "asciiUpperLaw U" and "resolveGradebookIntent U input = Some i" and "act \<in> set (intent_actions i)"
  shows "case act of
      SetCell sheet cell v \<Rightarrow> sheet = js ''Gradebook'' \<and>
        resolveGradebookCellTarget U cell (in_roster input) (in_assignments input) (in_workbook input) = Some (Custom cell)
    | AddColumn _ _ _ \<Rightarrow> False
    | _ \<Rightarrow> True"
  using assms(2,3)
proof (cases rule: intent_action_cases)
  case (1 ad a raw)
  from 1(2) show ?thesis by (cases rule: headerIntent_actions) auto
next
  case (2 ad a s raw)
  then show ?thesis using gradeIntent_actions [OF 2(3)] by auto
next
  case (3 cell ad v)
  then show ?thesis using resolve_Custom [OF assms(1) 3(1)] by simp
next
  case (4 s fm score)
  then show ?thesis using bulkIntent_only_SetGrade [OF 4(2)] by auto
qed

theorem intent_cells_are_custom_witness:
  "resolveGradebookCellTarget ascii_env (js ''F9'') [demo_user] [demo_assignment 20] None = Some (Custom (js ''F9''))"
proof -
  let ?in = "demo_input ''put f9 as hello'' 20"
  have h: "resolveGradebookIntent ascii_env ?in =
     Some \<lparr>intent_message = CustomCell (js ''F9''),
           intent_actions = [SetCell (js ''Gradebook'') (js ''F9'') (CStr (js ''hello''))]\<rparr>" by code_simp
  show ?thesis
    using intent_cells_are_custom [OF asciiUpperLaw_ascii h, of "SetCell (js ''Gradebook'') (js ''F9'') (CStr (js ''hello''))"]
    by (simp add: demo_input_def)
qed

text \<open>A request to edit a cell of the first two columns is refused with the identity message and no
  action, whatever the sheet holds; and the cell of a request that was read is always found.\<close>

theorem intent_identity_protected:
  assumes "asciiUpperLaw U" and "parseCellEdit U (in_prompt input) = Some e"
  shows "\<exists>location. parseCellAddress U (edit_cell e) = Some location \<and>
     (if loc_column location \<le> 1
      then resolveGradebookIntent U input =
             Some \<lparr>intent_message = ProtectedIdentity (edit_cell e), intent_actions = []\<rparr>
      else \<exists>i. resolveGradebookIntent U input = Some i \<and> intent_message i \<noteq> CellNotFound (edit_cell e))"
proof -
  obtain l where l: "parseCellAddress U (edit_cell e) = Some l" "loc_address l = edit_cell e"
    using parseCellEdit_parses [OF assms] by blast
  have "intent_message (headerIntent U input ad a raw) \<noteq> CellNotFound c" for ad a raw c
    by (auto simp: headerIntent_def Let_def split: prod.splits jsnum.splits)
  moreover have "intent_message (gradeIntent input ad a s raw) \<noteq> CellNotFound c" for ad a s raw c
    by (auto simp: gradeIntent_def split: option.splits)
  ultimately show ?thesis using assms(2) l
    by (auto simp: resolveGradebookIntent_def resolveCellEdit_def resolveGradebookCellTarget_def Let_def
        split: option.splits)
qed

theorem intent_identity_protected_witness:
  "resolveGradebookIntent ascii_env (demo_input ''set cell b2 to Zoe'' 20) =
     Some \<lparr>intent_message = ProtectedIdentity (js ''B2''), intent_actions = []\<rparr>"
proof -
  let ?in = "demo_input ''set cell b2 to Zoe'' 20"
  have e: "parseCellEdit ascii_env (in_prompt ?in) = Some \<lparr>edit_cell = js ''B2'', edit_rawValue = js ''Zoe''\<rparr>"
    by code_simp
  have "parseCellAddress ascii_env (js ''B2'') = Some \<lparr>loc_address = js ''B2'', loc_column = 1, loc_row = 1\<rparr>"
    by code_simp
  then show ?thesis using intent_identity_protected [OF asciiUpperLaw_ascii e] by simp
qed

text \<open>A bulk request that prepares anything prepares exactly one grade for every assignment that the
  one student it names has submitted, in the order of the assignments, and none for the others.\<close>

theorem bulk_covers_submitted:
  assumes "resolveBulkGrades U input = Some i" and "intent_actions i \<noteq> []"
  shows "\<exists>student \<in> set (in_roster input). \<exists>points.
     intent_actions i = map (\<lambda>a. SetGrade (user_id student) (assignment_id a) (points a))
       (filter (\<lambda>a. in_submissionFor input (user_id student) (assignment_id a) \<noteq> None) (in_assignments input))"
  using assms(1)
proof (cases rule: resolveBulkGrades_cases)
  case (2 student fm score)
  have "\<exists>points. intent_actions (bulkIntent input student fm score) =
      map (\<lambda>a. SetGrade (user_id student) (assignment_id a) (points a))
       (filter (\<lambda>a. in_submissionFor input (user_id student) (assignment_id a) \<noteq> None) (in_assignments input))"
    using assms(2) unfolding 2(2) by (cases rule: bulkIntent_actions [of input student fm score]) blast+
  then show ?thesis using 2 by blast
qed (use assms in simp)

theorem bulk_covers_submitted_witness:
  "\<exists>i. resolveBulkGrades ascii_env (demo_input ''Give Asha Rao full marks on every assignment'' 20) = Some i \<and>
     (\<exists>student \<in> {demo_user}. \<exists>points. intent_actions i =
        map (\<lambda>a. SetGrade (user_id student) (assignment_id a) (points a)) [demo_assignment 20])"
proof -
  let ?in = "demo_input ''Give Asha Rao full marks on every assignment'' 20"
  have h: "resolveBulkGrades ascii_env ?in =
     Some \<lparr>intent_message = BulkPrepared BulkFullMarks 1 (js ''Asha Rao'') 0,
           intent_actions = [SetGrade (js ''u1'') (js ''a1'') 20]\<rparr>" by code_simp
  show ?thesis using h bulk_covers_submitted [OF h] by (auto simp: demo_input_def)
qed

end
