(* ===== verification/Web_Storage.thy ===== *)
theory Web_Storage
  imports Cinder_Prelude
begin

text \<open>
  The browser's key-value stores. \<open>localStorage\<close> and an object store of IndexedDB are association
  lists with one entry per key, in the order of insertion. Their contract is the locale
  \<open>kv_store\<close>; what its clients need is proved there once, and \<open>scoped_store\<close> adds keys that are
  built from an account or host and a name, as the student apps build them.
\<close>

section \<open>The contract\<close>

locale kv_store =
  fixes get :: "'s \<Rightarrow> 'k \<Rightarrow> 'v option"
    and put :: "'k \<Rightarrow> 'v \<Rightarrow> 's \<Rightarrow> 's"
    and remove :: "'k \<Rightarrow> 's \<Rightarrow> 's"
  assumes get_put: "get (put k v s) k' = (if k' = k then Some v else get s k')"
    and get_remove: "get (remove k s) k' = (if k' = k then None else get s k')"
begin

lemma get_put_same [simp]: "get (put k v s) k = Some v"
  by (simp add: get_put)

lemma get_put_other [simp]: "k' \<noteq> k \<Longrightarrow> get (put k v s) k' = get s k'"
  by (simp add: get_put)

lemma get_removed [simp]: "get (remove k s) k = None"
  by (simp add: get_remove)

lemma get_remove_other [simp]: "k' \<noteq> k \<Longrightarrow> get (remove k s) k' = get s k'"
  by (simp add: get_remove)

text \<open>A series of removals: exactly the keys on the list are gone.\<close>

lemma get_remove_all: "get (fold remove ks s) k = (if k \<in> set ks then None else get s k)"
  by (induction ks arbitrary: s) (auto simp: get_remove)

text \<open>A series of writes: the last one of a key counts.\<close>

lemma get_put_all: "get (fold (\<lambda>(k, v). put k v) kvs s) k = (case map_of (rev kvs) k of Some v \<Rightarrow> Some v | None \<Rightarrow> get s k)"
proof (induction kvs arbitrary: s)
  case (Cons p kvs)
  obtain j v where p: "p = (j, v)" by (cases p)
  have "get (fold (\<lambda>(k, v). put k v) (p # kvs) s) k = (case map_of (rev kvs) k of Some v \<Rightarrow> Some v | None \<Rightarrow> get (put j v s) k)"
    using Cons [of "put j v s"] by (simp add: p)
  then show ?case by (auto simp: p get_put map_of_append map_add_def split: option.splits)
qed simp

end

text \<open>Keys that carry a scope: no key of one scope is a key of another.\<close>

locale scoped_store = kv_store get put remove
  for get :: "'s \<Rightarrow> 'k \<Rightarrow> 'v option" and put :: "'k \<Rightarrow> 'v \<Rightarrow> 's \<Rightarrow> 's" and remove :: "'k \<Rightarrow> 's \<Rightarrow> 's" +
  fixes scoped :: "'a \<Rightarrow> 'n \<Rightarrow> 'k" and valid :: "'a \<Rightarrow> bool"
  assumes scoped_inj: "valid a \<Longrightarrow> valid b \<Longrightarrow> scoped a n = scoped b m \<Longrightarrow> a = b \<and> n = m"
begin

lemma write_stays_in_scope: "valid a \<Longrightarrow> valid b \<Longrightarrow> a \<noteq> b \<Longrightarrow> get (put (scoped a n) v s) (scoped b m) = get s (scoped b m)"
  using scoped_inj by (auto simp: get_put)

lemma remove_stays_in_scope: "valid a \<Longrightarrow> valid b \<Longrightarrow> a \<noteq> b \<Longrightarrow> get (remove (scoped a n) s) (scoped b m) = get s (scoped b m)"
  using scoped_inj by (auto simp: get_remove)

lemma write_reads_back: "valid a \<Longrightarrow> get (put (scoped a n) v s) (scoped a n) = Some v"
  by simp

lemma write_keeps_names: "valid a \<Longrightarrow> n \<noteq> m \<Longrightarrow> get (put (scoped a n) v s) (scoped a m) = get s (scoped a m)"
  using scoped_inj by (auto simp: get_put)

end

section \<open>localStorage and object stores\<close>

type_synonym ('k, 'v) store = "('k \<times> 'v) list"
type_synonym local_storage = "(jsstring, jsstring) store"

definition getItem :: "('k, 'v) store \<Rightarrow> 'k \<Rightarrow> 'v option" where
  "getItem st k = map_of st k"

definition setItem :: "'k \<Rightarrow> 'v \<Rightarrow> ('k, 'v) store \<Rightarrow> ('k, 'v) store" where
  "setItem k v st = mapSet k v st"

definition removeItem :: "'k \<Rightarrow> ('k, 'v) store \<Rightarrow> ('k, 'v) store" where
  "removeItem k st = mapDelete k st"

definition storeKeys :: "('k, 'v) store \<Rightarrow> 'k list" where
  "storeKeys st = map fst st"

interpretation ls: kv_store getItem setItem removeItem
  by unfold_locales (simp_all add: getItem_def setItem_def removeItem_def)

text \<open>One entry per key, which every operation keeps.\<close>

definition wfStore :: "('k, 'v) store \<Rightarrow> bool" where
  "wfStore st \<longleftrightarrow> distinct (storeKeys st)"

lemma wfStore_setItem [simp]: "wfStore st \<Longrightarrow> wfStore (setItem k v st)"
  by (simp add: wfStore_def storeKeys_def setItem_def)

lemma wfStore_removeItem [simp]: "wfStore st \<Longrightarrow> wfStore (removeItem k st)"
  by (simp add: wfStore_def storeKeys_def removeItem_def)

lemma getItem_keys: "getItem st k \<noteq> None \<longleftrightarrow> k \<in> set (storeKeys st)"
  by (auto simp: getItem_def storeKeys_def map_of_eq_None_iff)

lemma setItem_keys: "set (storeKeys (setItem k v st)) = insert k (set (storeKeys st))"
  by (simp add: storeKeys_def setItem_def fst_set_mapSet)

lemma removeItem_absent: "getItem st k = None \<Longrightarrow> removeItem k st = st"
  by (force simp: getItem_def removeItem_def mapDelete_def map_of_eq_None_iff intro!: filter_True)

end
