(* ===== verification/Gradebook_Sheet.thy ===== *)
theory Gradebook_Sheet
  imports Gradebook_Safety Web_Storage
begin

text \<open>
  The gradebook's spreadsheet as it is built from the class (\<open>workbookData\<close> of
  \<open>apps/teacher/src/UniverGradebook.tsx\<close>) with the small functions beside it. The cells of a sheet are a store keyed by
  row and column; a cell keeps its value, whether it has a formula, and the rest (its style) as a JSON value the code
  never looks at. What else a saved workbook holds, its other sheets and its styles, passes through unchanged.
\<close>

section \<open>Data\<close>

record sheet_cell =
  cell_v :: "cell_value option"
  cell_f :: bool
  cell_style :: json

type_synonym cell_store = "(int \<times> int, sheet_cell) store"

record sheet_data =
  sheet_id :: jsstring
  sheetName :: jsstring
  rowCount :: "int option"
  columnCount :: "int option"
  cellData :: cell_store

record workbook =
  wb_id :: "jsstring option"
  wb_name :: jsstring
  sheetOrder :: "jsstring list"
  sheets :: "(jsstring, sheet_data) store"
  wb_rest :: json

record gradebook_props =
  gp_classroomId :: jsstring
  gp_classroomName :: jsstring
  gp_roster :: "user list"
  gp_assignments :: "assignment list"
  gp_scores :: "(jsstring, jsstring) store"
  gp_submitted :: "jsstring \<Rightarrow> jsstring \<Rightarrow> bool"

definition workbookKey :: "jsstring \<Rightarrow> jsstring" where
  "workbookKey classroomId = js ''cinder.teacher.workbook.'' @ classroomId"

definition scoreKey :: "jsstring \<Rightarrow> jsstring \<Rightarrow> jsstring" where
  "scoreKey studentId assignmentId = studentId @ [58] @ assignmentId"

section \<open>Cells\<close>

definition plainCell :: "cell_value option \<Rightarrow> sheet_cell" where
  "plainCell v = \<lparr>cell_v = v, cell_f = False, cell_style = JNull\<rparr>"

definition headStyle :: json where
  "headStyle = JObj [(js ''bg'', JObj [(js ''rgb'', JStr (js ''#f0e7de''))]), (js ''bl'', JNum 1)]"

definition headCell :: "jsstring \<Rightarrow> sheet_cell" where
  "headCell s = \<lparr>cell_v = Some (CStr s), cell_f = False, cell_style = headStyle\<rparr>"

text \<open>The value of a grade: a number where the text is one. A score that is missing is \<open>undefined\<close>.\<close>

definition scoreValue :: "jsstring option \<Rightarrow> cell_value option" where
  "scoreValue value = (case value of
      None \<Rightarrow> None
    | Some [] \<Rightarrow> Some CNull
    | Some s \<Rightarrow> Some (if isFinite (toNumber s) then CNum (toNumber s) else CStr s))"

definition shownScore :: "gradebook_props \<Rightarrow> user \<Rightarrow> assignment \<Rightarrow> jsstring option" where
  "shownScore props student a =
     (if gp_submitted props (user_id student) (assignment_id a)
      then getItem (gp_scores props) (scoreKey (user_id student) (assignment_id a)) else Some [8212])"

definition cellValueMatches :: "cell_value \<Rightarrow> cell_value option \<Rightarrow> bool" where
  "cellValueMatches expected actual = (case expected of
      CNull \<Rightarrow> actual = None \<or> actual = Some CNull \<or> actual = Some (CStr [])
    | CNum (Fin n) \<Rightarrow> (case actual of
          Some (CNum m) \<Rightarrow> m = Fin n | Some (CStr s) \<Rightarrow> toNumber s = Fin n
        | Some (CBool b) \<Rightarrow> n = (if b then 1 else 0) | Some CNull \<Rightarrow> n = 0 | None \<Rightarrow> False)
    | CNum x \<Rightarrow> (case actual of Some (CNum m) \<Rightarrow> m = x \<and> x \<noteq> NaN | Some (CStr s) \<Rightarrow> toNumber s = x \<and> x \<noteq> NaN | _ \<Rightarrow> False)
    | e \<Rightarrow> actual = Some e)"

definition a1Rx :: rx where
  "a1Rx = seqs [Bol, Grp 1 (Seq (Cls isLetterI) (upTo 2 (Cls isLetterI))), Grp 2 (Seq (Cls (\<lambda>c. 49 \<le> c \<and> c \<le> 57)) (upTo 3 rx_d)), Eol]"

definition columnIndexFromA1 :: "jsstring \<Rightarrow> (int \<times> int) option" where
  "columnIndexFromA1 cell = (case rexec a1Rx (trim cell) of
      None \<Rightarrow> None
    | Some m \<Rightarrow> Some (readDigits (capStr m 2) - 1, foldl (\<lambda>column c. column * 26 + c - 64) 0 (map asciiUpperChar (capStr m 1)) - 1))"

section \<open>Layout\<close>

definition populated :: "js_env \<Rightarrow> cell_store \<Rightarrow> int list" where
  "populated U cells =
     remdups (map (\<lambda>((r, c), cell). c) (filter (\<lambda>((r, c), cell). 2 \<le> c \<and> (trim (cellText U (cell_v cell)) \<noteq> [] \<or> cell_f cell)) cells))"

definition headingAt :: "cell_store \<Rightarrow> int \<Rightarrow> cell_value option" where
  "headingAt cells c = (case getItem cells (0, c) of Some cell \<Rightarrow> cell_v cell | None \<Rightarrow> None)"

definition customColumns :: "js_env \<Rightarrow> assignment list \<Rightarrow> cell_store \<Rightarrow> int list" where
  "customColumns U assignments cells =
     sort (filter (\<lambda>c. trim (cellText U (headingAt cells c)) \<noteq> [] \<and> assignmentForHeader U (headingAt cells c) assignments = None) (populated U cells))"

text \<open>The writes of \<open>workbookData\<close>, in their order.\<close>

definition customWrites :: "int \<Rightarrow> int list \<Rightarrow> cell_store \<Rightarrow> cell_store" where
  "customWrites n cols cells =
     concat (map (\<lambda>(i, source). map (\<lambda>((r, c), cell). ((r, n + 2 + int i), cell)) (filter (\<lambda>((r, c), cell). c = source) cells)) (enumerate 0 cols))"

definition headWrites :: "js_env \<Rightarrow> assignment list \<Rightarrow> cell_store" where
  "headWrites U assignments =
     [((0, 0), headCell (js ''Student'')), ((0, 1), headCell (js ''Username''))] @
     map (\<lambda>(j, a). ((0, int j + 2), headCell (formatAssignmentHeader U a))) (enumerate 0 assignments)"

definition rosterWrites :: "gradebook_props \<Rightarrow> cell_store" where
  "rosterWrites props =
     concat (map (\<lambda>(i, student).
       [((int i + 1, 0), plainCell (Some (CStr (display_name student)))), ((int i + 1, 1), plainCell (Some (CStr (username student))))] @
       map (\<lambda>(j, a). ((int i + 1, int j + 2), plainCell (scoreValue (shownScore props student a)))) (enumerate 0 (gp_assignments props)))
       (enumerate 0 (gp_roster props)))"

definition layoutCells :: "js_env \<Rightarrow> gradebook_props \<Rightarrow> cell_store \<Rightarrow> cell_store" where
  "layoutCells U props previous =
     fold (\<lambda>(k, v). setItem k v)
       (customWrites (int (length (gp_assignments props))) (customColumns U (gp_assignments props) previous) previous @
        headWrites U (gp_assignments props) @ rosterWrites props) []"

definition gradebookSheetId :: jsstring where
  "gradebookSheetId = js ''cinder-gradebook''"

text \<open>\<open>saved\<close> is the workbook stored for the class, if there is one that can be read.\<close>

definition workbookData :: "js_env \<Rightarrow> gradebook_props \<Rightarrow> workbook option \<Rightarrow> workbook" where
  "workbookData U props saved =
     (let i = (case saved of Some w \<Rightarrow> (case wb_id w of Some i \<Rightarrow> i | None \<Rightarrow> js ''cinder-gradebook-'' @ gp_classroomId props)
               | None \<Rightarrow> js ''cinder-gradebook-'' @ gp_classroomId props);
          d = (case saved of Some w \<Rightarrow> w
               | None \<Rightarrow> \<lparr>wb_id = Some i, wb_name = [], sheetOrder = [gradebookSheetId], sheets = [], wb_rest = JNull\<rparr>);
          s = (case getItem (sheets d) gradebookSheetId of Some s \<Rightarrow> s
               | None \<Rightarrow> \<lparr>sheet_id = gradebookSheetId, sheetName = [], rowCount = None, columnCount = None, cellData = []\<rparr>);
          s = s\<lparr>sheet_id := gradebookSheetId, sheetName := js ''Gradebook'',
               rowCount := Some (max (max (case rowCount s of Some n \<Rightarrow> n | None \<Rightarrow> 0) (int (length (gp_roster props)) + 40)) 120),
               columnCount := Some (max (max (case columnCount s of Some n \<Rightarrow> n | None \<Rightarrow> 0) (int (length (gp_assignments props)) + 12)) 30),
               cellData := layoutCells U props (cellData s)\<rparr>
      in d\<lparr>wb_id := Some i, wb_name := gp_classroomName props @ js '' gradebook'',
           sheetOrder := (if gradebookSheetId \<in> set (sheetOrder d) then sheetOrder d else gradebookSheetId # sheetOrder d),
           sheets := setItem gradebookSheetId s (sheets d)\<rparr>)"

section \<open>The layout as a table\<close>

text \<open>What each position holds, without reference to the order of the writes.\<close>

definition gridCell :: "js_env \<Rightarrow> gradebook_props \<Rightarrow> cell_store \<Rightarrow> int \<times> int \<Rightarrow> sheet_cell option" where
  "gridCell U props previous p =
     (let (r, c) = p; assignments = gp_assignments props; n = int (length assignments) in
      if c < 0 then None
      else if n + 2 \<le> c then
        (case nthOpt (customColumns U assignments previous) (c - n - 2) of Some source \<Rightarrow> getItem previous (r, source) | None \<Rightarrow> None)
      else if r = 0 then
        (if c = 0 then Some (headCell (js ''Student'')) else if c = 1 then Some (headCell (js ''Username''))
         else map_option (\<lambda>a. headCell (formatAssignmentHeader U a)) (nthOpt assignments (c - 2)))
      else (case nthOpt (gp_roster props) (r - 1) of
          None \<Rightarrow> None
        | Some student \<Rightarrow>
            if c = 0 then Some (plainCell (Some (CStr (display_name student))))
            else if c = 1 then Some (plainCell (Some (CStr (username student))))
            else map_option (\<lambda>a. plainCell (scoreValue (shownScore props student a))) (nthOpt assignments (c - 2))))"

lemma fold_setItem_spec:
  assumes "\<And>k v. (k, v) \<in> set kvs \<Longrightarrow> spec k = Some v" "\<And>k v. spec k = Some v \<Longrightarrow> k \<in> fst ` set kvs"
  shows "getItem (fold (\<lambda>(k, v). setItem k v) kvs []) k = spec k"
proof (cases "map_of (rev kvs) k")
  case None
  then have "k \<notin> fst ` set kvs" by (simp add: map_of_eq_None_iff)
  then have "spec k = None" using assms(2) by (cases "spec k") auto
  then show ?thesis using None by (simp add: ls.get_put_all) (simp add: getItem_def)
next
  case (Some v)
  then have "(k, v) \<in> set kvs" using map_of_SomeD by fastforce
  then show ?thesis using Some assms(1) by (simp add: ls.get_put_all)
qed

lemma fold_setItem_lookup:
  assumes "(k, v) \<in> set kvs" "\<And>v'. (k, v') \<in> set kvs \<Longrightarrow> v' = v"
  shows "getItem (fold (\<lambda>(k, v). setItem k v) kvs st) k = Some v"
proof (cases "map_of (rev kvs) k")
  case None
  then show ?thesis using assms(1) by (force simp: map_of_eq_None_iff)
next
  case (Some v')
  then have "(k, v') \<in> set kvs" using map_of_SomeD by fastforce
  then show ?thesis using Some assms(2) by (simp add: ls.get_put_all)
qed

lemma in_enumerate: "(i, x) \<in> set (enumerate 0 xs) \<longleftrightarrow> nthOpt xs (int i) = Some x"
  by (auto simp: in_set_enumerate_eq nthOpt_def)

lemma nthOpt_int: "nthOpt xs i = Some x \<Longrightarrow> \<exists>k. i = int k"
  by (auto simp: nthOpt_def split: if_splits intro: nonneg_int_cases)

lemma in_customWrites: "(k, v) \<in> set (customWrites n cols cells) \<longleftrightarrow>
    (\<exists>i source r. nthOpt cols (int i) = Some source \<and> ((r, source), v) \<in> set cells \<and> k = (r, n + 2 + int i))"
  unfolding customWrites_def by (force simp: in_enumerate)

lemma in_headWrites: "(k, v) \<in> set (headWrites U as) \<longleftrightarrow>
    (k = (0, 0) \<and> v = headCell (js ''Student'')) \<or> (k = (0, 1) \<and> v = headCell (js ''Username'')) \<or>
    (\<exists>j a. nthOpt as (int j) = Some a \<and> k = (0, int j + 2) \<and> v = headCell (formatAssignmentHeader U a))"
  unfolding headWrites_def by (force simp: in_enumerate)

lemma in_rosterWrites: "(k, v) \<in> set (rosterWrites props) \<longleftrightarrow>
    (\<exists>i student. nthOpt (gp_roster props) (int i) = Some student \<and>
      ((k = (int i + 1, 0) \<and> v = plainCell (Some (CStr (display_name student)))) \<or>
       (k = (int i + 1, 1) \<and> v = plainCell (Some (CStr (username student)))) \<or>
       (\<exists>j a. nthOpt (gp_assignments props) (int j) = Some a \<and> k = (int i + 1, int j + 2) \<and> v = plainCell (scoreValue (shownScore props student a)))))"
  unfolding rosterWrites_def by (force simp: in_enumerate)

lemma nthOpt_bound: "nthOpt xs (int j) = Some x \<Longrightarrow> int j < int (length xs)"
  by (auto simp: nthOpt_def split: if_splits)

lemma writes_on_grid:
  assumes "wfStore previous"
    and "(k, v) \<in> set (customWrites (int (length (gp_assignments props))) (customColumns U (gp_assignments props) previous) previous @
        headWrites U (gp_assignments props) @ rosterWrites props)"
  shows "gridCell U props previous k = Some v"
proof -
  let ?n = "int (length (gp_assignments props))"
  consider "(k, v) \<in> set (customWrites ?n (customColumns U (gp_assignments props) previous) previous)"
    | "(k, v) \<in> set (headWrites U (gp_assignments props))" | "(k, v) \<in> set (rosterWrites props)"
    using assms(2) by auto
  then show ?thesis
  proof cases
    case 1
    then obtain i source r where c: "nthOpt (customColumns U (gp_assignments props) previous) (int i) = Some source"
        "((r, source), v) \<in> set previous" "k = (r, ?n + 2 + int i)" unfolding in_customWrites by blast
    have "getItem previous (r, source) = Some v" using assms(1) c(2) unfolding wfStore_def storeKeys_def getItem_def by simp
    then show ?thesis using c(1) unfolding c(3) gridCell_def Let_def by simp
  next
    case 2
    then show ?thesis unfolding in_headWrites by (elim disjE exE conjE) (auto simp: gridCell_def Let_def dest: nthOpt_bound)
  next
    case 3
    then show ?thesis unfolding in_rosterWrites by (elim exE conjE disjE) (auto simp: gridCell_def Let_def dest: nthOpt_bound)
  qed
qed

lemma grid_is_written:
  assumes "gridCell U props previous k = Some v"
  shows "(k, v) \<in> set (customWrites (int (length (gp_assignments props))) (customColumns U (gp_assignments props) previous) previous @
        headWrites U (gp_assignments props) @ rosterWrites props)"
proof -
  obtain r c where k: "k = (r, c)" by (cases k)
  let ?n = "int (length (gp_assignments props))"
  have c0: "0 \<le> c" using assms unfolding k gridCell_def Let_def by (auto split: if_splits)
  show ?thesis
  proof (cases "?n + 2 \<le> c")
    case True
    then obtain source where s: "nthOpt (customColumns U (gp_assignments props) previous) (c - ?n - 2) = Some source" "getItem previous (r, source) = Some v"
      using assms c0 unfolding k gridCell_def Let_def by (auto split: option.splits)
    obtain i where i: "c - ?n - 2 = int i" using nthOpt_int [OF s(1)] by blast
    have "((r, source), v) \<in> set previous" using s(2) unfolding getItem_def by (rule map_of_SomeD)
    then have "(k, v) \<in> set (customWrites ?n (customColumns U (gp_assignments props) previous) previous)"
      unfolding in_customWrites k using s(1) i by (intro exI [of _ i] exI [of _ source] exI [of _ r]) auto
    then show ?thesis by simp
  next
    case False
    have j: "\<exists>j. c = int j + 2" if "c \<noteq> 0" "c \<noteq> 1" using that c0 by (intro exI [of _ "nat (c - 2)"]) simp
    show ?thesis
    proof (cases "r = 0")
      case True
      then have "(k, v) \<in> set (headWrites U (gp_assignments props))"
        using assms False c0 j unfolding k gridCell_def Let_def in_headWrites by (auto split: if_splits)
      then show ?thesis by simp
    next
      case r: False
      then obtain student where st: "nthOpt (gp_roster props) (r - 1) = Some student"
        using assms False c0 unfolding k gridCell_def Let_def by (auto split: option.splits if_splits)
      obtain i where i: "r - 1 = int i" using nthOpt_int [OF st] by blast
      have "(k, v) \<in> set (rosterWrites props)"
        unfolding in_rosterWrites k using assms False c0 r st i j unfolding k gridCell_def Let_def
        by (intro exI [of _ i] exI [of _ student]) (auto split: if_splits)
      then show ?thesis by simp
    qed
  qed
qed

section \<open>Properties\<close>


text \<open>For the witnesses: one student, one assignment, and a saved sheet with a column of the teacher's and one that has
  a value but no heading.\<close>

definition demoSheet :: cell_store where
  "demoSheet = [((0, 7), headCell (js ''Effort'')), ((1, 7), plainCell (Some (CStr (js ''good'')))), ((1, 5), plainCell (Some (CStr (js ''note''))))]"

definition demoProps :: gradebook_props where
  "demoProps = \<lparr>gp_classroomId = js ''r'', gp_classroomName = js ''8B'', gp_roster = [demo_user], gp_assignments = [demo_assignment 20],
     gp_scores = [(scoreKey (user_id demo_user) (assignment_id (demo_assignment 20)), js ''17'')], gp_submitted = (\<lambda>_ _. True)\<rparr>"


end
