(* ===== verification/Gradebook_Grades.thy ===== *)
theory Gradebook_Grades
  imports Gradebook_Sheet
begin

text \<open>
  Grades typed into the sheet on their way to the host: the view with its scores (\<open>apps/teacher/src/GradebookView.tsx\<close>), the
  listener of the sheet with its timers and its synchronization (\<open>UniverGradebook.tsx\<close>), and the export. The spreadsheet's own
  cells are a store of texts, which is what \<open>setValue\<close> and \<open>getValues\<close> amount to here; a blank cell is
  empty. Each event is an operation: an edit, the half-second timer of a cell, an answer of the host, and the effect that
  writes the scores back into the sheet whenever they change.
\<close>

section \<open>State\<close>

record pending_grade =
  pg_student :: jsstring
  pg_assignment :: assignment
  pg_value :: jsstring
  pg_version :: int

record grade_request =
  rq_submission :: submission
  rq_points :: "rat option"
  rq_pending :: pending_grade
  rq_previous :: jsstring

record grades_state =
  gr_roster :: "user list"
  gr_assignments :: "assignment list"
  gr_by :: "(jsstring, submission list) store"
  gr_scores :: "(jsstring, jsstring) store"
  gr_status :: jsstring
  gr_cells :: "(jsstring, jsstring) store"
  gradeValues :: "(jsstring, jsstring) store"
  gradeVersions :: "(jsstring, int) store"
  persistedValues :: "(jsstring, jsstring) store"
  gradeTimers :: "(jsstring, pending_grade) store"
  gr_requests :: "grade_request list"
  synchronizing :: bool

abbreviation getOr :: "('k, jsstring) store \<Rightarrow> 'k \<Rightarrow> jsstring" where
  "getOr st k \<equiv> (case getItem st k of Some v \<Rightarrow> v | None \<Rightarrow> [])"

definition keyOf :: "pending_grade \<Rightarrow> jsstring" where
  "keyOf p = scoreKey (pg_student p) (assignment_id (pg_assignment p))"

definition submissionFor :: "grades_state \<Rightarrow> jsstring \<Rightarrow> jsstring \<Rightarrow> submission option" where
  "submissionFor s studentId assignmentId =
     (case getItem (gr_by s) assignmentId of
        Some subs \<Rightarrow> List.find (\<lambda>sub. submission_student_id sub = studentId) subs | None \<Rightarrow> None)"

definition pointsText :: "js_env \<Rightarrow> submission \<Rightarrow> jsstring" where
  "pointsText U sub = (case submission_grade sub of
      Some g \<Rightarrow> (case grade_points g of Some q \<Rightarrow> numToString U q | None \<Rightarrow> []) | None \<Rightarrow> [])"

section \<open>Loading\<close>

text \<open>The answers of \<open>load\<close>: the roster and each assignment's submissions, in the order of the assignments.\<close>

definition loadGrades :: "js_env \<Rightarrow> user list \<Rightarrow> (jsstring \<times> submission list) list \<Rightarrow> grades_state \<Rightarrow> grades_state" where
  "loadGrades U students pairs s =
     (let by = newMap pairs
      in s\<lparr>gr_roster := students, gr_by := by,
           gr_scores := newMap (concat (map (\<lambda>(i, subs). map (\<lambda>sub. (scoreKey (submission_student_id sub) i, pointsText U sub)) subs) by)),
           gr_status := js ''Saved to Cinder''\<rparr>)"

section \<open>The sheet follows the scores\<close>

text \<open>What the effect writes, and records, for a student's assignment: work that was not submitted shows a dash and counts as
  blank.\<close>

definition sheetText :: "grades_state \<Rightarrow> jsstring \<Rightarrow> jsstring \<Rightarrow> jsstring" where
  "sheetText s studentId assignmentId =
     (if submissionFor s studentId assignmentId \<noteq> None then getOr (gr_scores s) (scoreKey studentId assignmentId) else [8212])"

definition gradeText :: "grades_state \<Rightarrow> jsstring \<Rightarrow> jsstring \<Rightarrow> jsstring" where
  "gradeText s studentId assignmentId =
     (let v = sheetText s studentId assignmentId in if v = [8212] then [] else v)"

definition gradeKeys :: "grades_state \<Rightarrow> (jsstring \<times> jsstring) list" where
  "gradeKeys s = concat (map (\<lambda>u. map (\<lambda>a. (user_id u, assignment_id a)) (gr_assignments s)) (gr_roster s))"

definition fillKeys :: "(jsstring \<Rightarrow> jsstring \<Rightarrow> jsstring) \<Rightarrow> (jsstring \<times> jsstring) list \<Rightarrow> (jsstring, jsstring) store" where
  "fillKeys f ks = fold (\<lambda>(k, v). setItem k v) (map (\<lambda>(u, a). (scoreKey u a, f u a)) ks) []"

definition syncSheet :: "grades_state \<Rightarrow> grades_state" where
  "syncSheet s =
     s\<lparr>synchronizing := True, gradeTimers := [], gr_cells := fillKeys (sheetText s) (gradeKeys s),
       gradeValues := fillKeys (gradeText s) (gradeKeys s), persistedValues := fillKeys (gradeText s) (gradeKeys s)\<rparr>"

definition syncDone :: "grades_state \<Rightarrow> grades_state" where
  "syncDone s = s\<lparr>synchronizing := False\<rparr>"

section \<open>Edits\<close>

text \<open>An edit changes the cell; the listener then starts a timer, which replaces the one the cell may have.\<close>

definition editCell :: "jsstring \<Rightarrow> assignment \<Rightarrow> jsstring \<Rightarrow> grades_state \<Rightarrow> grades_state" where
  "editCell studentId a typed s =
     (let key = scoreKey studentId (assignment_id a); v = trim typed; s = s\<lparr>gr_cells := setItem key typed (gr_cells s)\<rparr> in
      if synchronizing s then s
      else if submissionFor s studentId (assignment_id a) = None then s
      else if v = getOr (gradeValues s) key then s
      else
        (let version = (case getItem (gradeVersions s) key of Some n \<Rightarrow> n | None \<Rightarrow> 0) + 1
         in s\<lparr>gradeValues := setItem key v (gradeValues s), gradeVersions := setItem key version (gradeVersions s),
              gradeTimers := setItem key \<lparr>pg_student = studentId, pg_assignment = a, pg_value = v, pg_version = version\<rparr> (gradeTimers s)\<rparr>))"

text \<open>\<open>onScoreChange\<close> and \<open>saveScore\<close> up to the request: the points are \<open>null\<close> for a blank, and must be a number from zero to the
  maximum.\<close>

definition checkedPoints :: "assignment \<Rightarrow> jsstring \<Rightarrow> rat option option" where
  "checkedPoints a v =
     (if trim v = [] then Some None
      else (case toNumber v of Fin q \<Rightarrow> if q < 0 \<or> q > max_points a then None else Some (Some q) | _ \<Rightarrow> None))"

definition rollback :: "pending_grade \<Rightarrow> grades_state \<Rightarrow> grades_state" where
  "rollback p s =
     (if getItem (gradeVersions s) (keyOf p) \<noteq> Some (pg_version p) then s
      else
        (let v = getOr (persistedValues s) (keyOf p)
         in s\<lparr>gradeValues := setItem (keyOf p) v (gradeValues s), gr_cells := setItem (keyOf p) v (gr_cells s)\<rparr>))"

definition fireTimer :: "js_env \<Rightarrow> jsstring \<Rightarrow> grades_state \<Rightarrow> grades_state" where
  "fireTimer U key s = (case getItem (gradeTimers s) key of
      None \<Rightarrow> s
    | Some p \<Rightarrow>
        (let s = s\<lparr>gradeTimers := removeItem key (gradeTimers s), gr_scores := setItem key (pg_value p) (gr_scores s)\<rparr>
         in case submissionFor s (pg_student p) (assignment_id (pg_assignment p)) of
              None \<Rightarrow> rollback p s
            | Some sub \<Rightarrow> (case checkedPoints (pg_assignment p) (pg_value p) of
                  None \<Rightarrow> rollback p (s\<lparr>gr_scores := setItem key (pointsText U sub) (gr_scores s),
                            gr_status := js ''Use a score from 0 to '' @ numToString U (max_points (pg_assignment p)) @ js ''.''\<rparr>)
                | Some points \<Rightarrow>
                    s\<lparr>gr_requests := \<lparr>rq_submission = sub, rq_points = points, rq_pending = p, rq_previous = pointsText U sub\<rparr> # gr_requests s,
                      gr_status := js ''Saving'' @ [8230]\<rparr>)))"

definition gradeAnswer :: "js_env \<Rightarrow> grade_request \<Rightarrow> grade option \<Rightarrow> grades_state \<Rightarrow> grades_state" where
  "gradeAnswer U rq resp s =
     (let p = rq_pending rq; key = keyOf p; i = assignment_id (pg_assignment p); s = s\<lparr>gr_requests := removeAll rq (gr_requests s)\<rparr> in
      case resp of
        Some g \<Rightarrow>
          s\<lparr>gr_scores := setItem key (case grade_points g of Some q \<Rightarrow> numToString U q | None \<Rightarrow> []) (gr_scores s),
            gr_by := (case getItem (gr_by s) i of
                None \<Rightarrow> gr_by s
              | Some subs \<Rightarrow> setItem i (map (\<lambda>sub. if submission_id sub = submission_id (rq_submission rq) then sub\<lparr>submission_grade := Some g\<rparr> else sub) subs) (gr_by s)),
            gr_status := js ''Saved to Cinder'', persistedValues := setItem key (pg_value p) (persistedValues s)\<rparr>
      | None \<Rightarrow> rollback p (s\<lparr>gr_scores := setItem key (rq_previous rq) (gr_scores s)\<rparr>))"

section \<open>Export\<close>

definition quoteField :: "jsstring \<Rightarrow> jsstring" where
  "quoteField s = [34] @ concat (map (\<lambda>c. if c = 34 then [34, 34] else [c]) s) @ [34]"

definition csvText :: "jsstring list list \<Rightarrow> jsstring" where
  "csvText rows = [65279] @ joinWith [13, 10] (map (\<lambda>row. joinWith [44] (map quoteField row)) rows)"

definition csvRows :: "js_env \<Rightarrow> grades_state \<Rightarrow> jsstring list list" where
  "csvRows U s =
     (js ''Student'' # js ''Username'' # map (formatAssignmentHeader U) (gr_assignments s)) #
     map (\<lambda>u. display_name u # username u # map (\<lambda>a. getOr (gr_scores s) (scoreKey (user_id u) (assignment_id a))) (gr_assignments s)) (gr_roster s)"

definition unsafeChar :: "int \<Rightarrow> bool" where
  "unsafeChar c \<longleftrightarrow> c \<in> set (js ''<>:/|?*'') \<or> c = 34 \<or> c = 92 \<or> (0 \<le> c \<and> c \<le> 31)"

text \<open>\<open>replace(/\s+/g, " ")\<close>.\<close>

fun collapseSpaces :: "jsstring \<Rightarrow> jsstring" where
  "collapseSpaces [] = []"
| "collapseSpaces (c # s) =
     (if isSpace c then (case s of d # _ \<Rightarrow> if isSpace d then collapseSpaces s else 32 # collapseSpaces s | [] \<Rightarrow> [32])
      else c # collapseSpaces s)"

definition safeFilename :: "jsstring \<Rightarrow> jsstring" where
  "safeFilename v =
     orElse (sliceTo 100 (collapseSpaces (map (\<lambda>c. if unsafeChar c then 45 else c) (trim v)))) (js ''Cinder export'')"

section \<open>Steps\<close>

inductive gradeStep :: "js_env \<Rightarrow> grades_state \<Rightarrow> grades_state \<Rightarrow> bool" for U where
  loaded: "gradeStep U s (loadGrades U students pairs s)"
| edited: "a \<in> set (gr_assignments s) \<Longrightarrow> gradeStep U s (editCell studentId a typed s)"
| fired: "gradeStep U s (fireTimer U key s)"
| synced: "gradeStep U s (syncSheet s)"
| sync_ended: "gradeStep U s (syncDone s)"
| answered: "rq \<in> set (gr_requests s) \<Longrightarrow> gradeStep U s (gradeAnswer U rq resp s)"

definition okRequest :: "grade_request \<Rightarrow> bool" where
  "okRequest rq \<longleftrightarrow> submission_student_id (rq_submission rq) = pg_student (rq_pending rq) \<and>
     (case rq_points rq of None \<Rightarrow> True | Some q \<Rightarrow> 0 \<le> q \<and> q \<le> max_points (pg_assignment (rq_pending rq)))"

lemma checkedPoints_range: "checkedPoints a v = Some (Some q) \<Longrightarrow> 0 \<le> q \<and> q \<le> max_points a"
  by (auto simp: checkedPoints_def split: if_splits jsnum.splits)

lemma find_some: "List.find P xs = Some x \<Longrightarrow> P x \<and> x \<in> set xs"
  by (auto simp: find_Some_iff)

lemma submissionFor_student: "submissionFor s u a = Some sub \<Longrightarrow> submission_student_id sub = u"
  by (auto simp: submissionFor_def dest: find_some split: option.splits)

lemma submissionFor_update [simp]:
  "submissionFor (s\<lparr>gradeTimers := t, gr_scores := x\<rparr>) u a = submissionFor s u a" "submissionFor (s\<lparr>gr_cells := c\<rparr>) u a = submissionFor s u a"
  by (simp_all add: submissionFor_def)

lemma rollback_requests [simp]: "gr_requests (rollback p s) = gr_requests s" "gradeTimers (rollback p s) = gradeTimers s"
  "gr_roster (rollback p s) = gr_roster s" "gr_assignments (rollback p s) = gr_assignments s" "gr_scores (rollback p s) = gr_scores s"
  "gr_by (rollback p s) = gr_by s"
  by (simp_all add: rollback_def Let_def)

lemma fireTimer_requests:
  "rq \<in> set (gr_requests (fireTimer U key s)) \<Longrightarrow> rq \<in> set (gr_requests s) \<or> okRequest rq"
  unfolding fireTimer_def Let_def
  by (auto simp: okRequest_def submissionFor_student dest: checkedPoints_range split: option.splits)

lemma okRequest_step: "gradeStep U s s' \<Longrightarrow> list_all okRequest (gr_requests s) \<Longrightarrow> list_all okRequest (gr_requests s')"
proof (induction rule: gradeStep.induct)
  case (fired s key)
  then show ?case using fireTimer_requests unfolding list_all_iff by blast
next
  case (answered rq s resp)
  then show ?case by (auto simp: gradeAnswer_def Let_def list_all_iff split: option.splits)
qed (simp_all add: loadGrades_def editCell_def syncSheet_def syncDone_def Let_def)

section \<open>Lemmas on the synchronization\<close>

text \<open>Identifiers of students have no colon, so a key names one student and one assignment.\<close>

definition plainIds :: "grades_state \<Rightarrow> bool" where
  "plainIds s \<longleftrightarrow> list_all (\<lambda>u. 58 \<notin> set (user_id u)) (gr_roster s)"

lemma scoreKey_inj: "58 \<notin> set u \<Longrightarrow> 58 \<notin> set u' \<Longrightarrow> scoreKey u a = scoreKey u' a' \<longleftrightarrow> u = u' \<and> a = a'"
  using split_at [of 58 u u' a a'] unfolding scoreKey_def by auto

lemma fillKeys_lookup:
  assumes "(u, a) \<in> set ks" "\<forall>(u, a) \<in> set ks. 58 \<notin> set u"
  shows "getItem (fillKeys f ks) (scoreKey u a) = Some (f u a)"
  unfolding fillKeys_def
proof (rule fold_setItem_lookup)
  show "(scoreKey u a, f u a) \<in> set (map (\<lambda>(u, a). (scoreKey u a, f u a)) ks)" using assms(1) by force
  show "v = f u a" if in_ks: "(scoreKey u a, v) \<in> set (map (\<lambda>(u, a). (scoreKey u a, f u a)) ks)" for v
  proof -
    obtain p where p: "p \<in> set ks" "(scoreKey u a, v) = (case p of (u, a) \<Rightarrow> (scoreKey u a, f u a))" using in_ks unfolding set_map by blast
    obtain u' a' where q: "p = (u', a')" by (cases p)
    have "58 \<notin> set u" "58 \<notin> set u'" using assms p(1) unfolding q by auto
    then show ?thesis using p(2) scoreKey_inj unfolding q by auto
  qed
qed

lemma in_gradeKeys: "(u, a) \<in> set (gradeKeys s) \<longleftrightarrow> (\<exists>x \<in> set (gr_roster s). \<exists>y \<in> set (gr_assignments s). u = user_id x \<and> a = assignment_id y)"
  unfolding gradeKeys_def by auto

lemma sync_lookup:
  assumes "plainIds s" "u \<in> set (gr_roster s)" "a \<in> set (gr_assignments s)"
  shows "getItem (gr_cells (syncSheet s)) (scoreKey (user_id u) (assignment_id a)) = Some (sheetText s (user_id u) (assignment_id a))"
    "getItem (gradeValues (syncSheet s)) (scoreKey (user_id u) (assignment_id a)) = Some (gradeText s (user_id u) (assignment_id a))"
proof -
  have "(user_id u, assignment_id a) \<in> set (gradeKeys s)" using assms(2,3) unfolding in_gradeKeys by blast
  moreover have "\<forall>(u, a) \<in> set (gradeKeys s). 58 \<notin> set u" using assms(1) unfolding plainIds_def list_all_iff gradeKeys_def by auto
  ultimately show "getItem (gr_cells (syncSheet s)) (scoreKey (user_id u) (assignment_id a)) = Some (sheetText s (user_id u) (assignment_id a))"
    "getItem (gradeValues (syncSheet s)) (scoreKey (user_id u) (assignment_id a)) = Some (gradeText s (user_id u) (assignment_id a))"
    by (simp_all add: syncSheet_def fillKeys_lookup)
qed

section \<open>Lemmas on the export\<close>

text \<open>A reader of the format: fields in quotes, a doubled quote for a quote, commas between fields, line breaks between rows.\<close>

fun readQuoted :: "jsstring \<Rightarrow> (jsstring \<times> jsstring) option" where
  "readQuoted [] = None"
| "readQuoted [c] = (if c = 34 then Some ([], []) else None)"
| "readQuoted (c # d # s) =
     (if c = 34 then (if d = 34 then map_option (\<lambda>(f, r). (34 # f, r)) (readQuoted s) else Some ([], d # s))
      else map_option (\<lambda>(f, r). (c # f, r)) (readQuoted (d # s)))"

lemma readQuoted_shorter: "readQuoted s = Some (f, r) \<Longrightarrow> length r < length s"
  by (induction s arbitrary: f r rule: readQuoted.induct) (fastforce split: if_splits)+

function readCsv :: "jsstring \<Rightarrow> jsstring list list option" where
  "readCsv s = (case s of
      [] \<Rightarrow> None
    | q # s' \<Rightarrow> if q \<noteq> 34 then None else (case readQuoted s' of
          None \<Rightarrow> None
        | Some (f, r) \<Rightarrow> (case r of
              [] \<Rightarrow> Some [[f]]
            | c # r' \<Rightarrow>
                if c = 44 then (case readCsv r' of Some (row # rows) \<Rightarrow> Some ((f # row) # rows) | _ \<Rightarrow> None)
                else if c = 13 \<and> take 1 r' = [10] then map_option ((#) [f]) (readCsv (drop 1 r'))
                else None)))"
  by pat_completeness auto
termination by (relation "measure length") (auto dest!: readQuoted_shorter)

declare readCsv.simps [simp del]

lemma readQuoted_field: "r = [] \<or> hd r \<noteq> 34 \<Longrightarrow> readQuoted (concat (map (\<lambda>c. if c = 34 then [34, 34] else [c]) s) @ 34 # r) = Some (s, r)"
proof (induction s)
  case Nil
  then show ?case by (cases r) auto
next
  case (Cons c s)
  show ?case
  proof (cases "c = 34")
    case False
    obtain d t where t: "concat (map (\<lambda>c. if c = 34 then [34, 34] else [c]) s) @ 34 # r = d # t"
      by (cases "concat (map (\<lambda>c. if c = 34 then [34, 34] else [c]) s) @ 34 # r") auto
    show ?thesis using Cons False t by simp
  qed (use Cons in simp)
qed

lemma readCsv_field:
  "r = [] \<or> hd r \<noteq> 34 \<Longrightarrow> readCsv (quoteField s @ r) = (case r of
      [] \<Rightarrow> Some [[s]]
    | c # r' \<Rightarrow>
        if c = 44 then (case readCsv r' of Some (row # rows) \<Rightarrow> Some ((s # row) # rows) | _ \<Rightarrow> None)
        else if c = 13 \<and> take 1 r' = [10] then map_option ((#) [s]) (readCsv (drop 1 r'))
        else None)"
  by (subst readCsv.simps) (simp add: quoteField_def readQuoted_field)

lemma readCsv_row:
  "fs \<noteq> [] \<Longrightarrow> readCsv (joinWith [44] (map quoteField fs)) = Some [fs]"
  "fs \<noteq> [] \<Longrightarrow> readCsv (joinWith [44] (map quoteField fs) @ 13 # 10 # r) = map_option ((#) fs) (readCsv r)"
proof (induction fs)
  case (Cons f fs)
  case 1
  show ?case
  proof (cases fs)
    case Nil
    then show ?thesis using readCsv_field [of "[]" f] by simp
  next
    case (Cons g gs)
    then show ?thesis using readCsv_field [of "44 # joinWith [44] (map quoteField fs)" f] Cons.IH(1) by simp
  qed
next
  case (Cons f fs)
  case 2
  show ?case
  proof (cases fs)
    case Nil
    then show ?thesis using readCsv_field [of "13 # 10 # r" f] by simp
  next
    case (Cons g gs)
    then show ?thesis using readCsv_field [of "44 # joinWith [44] (map quoteField fs) @ 13 # 10 # r" f] Cons.IH(2)
      by (cases "readCsv r") simp_all
  qed
qed simp_all

lemma readCsv_rows:
  "rows \<noteq> [] \<Longrightarrow> \<forall>row \<in> set rows. row \<noteq> [] \<Longrightarrow> readCsv (joinWith [13, 10] (map (\<lambda>row. joinWith [44] (map quoteField row)) rows)) = Some rows"
proof (induction rows)
  case (Cons row rows)
  show ?case
  proof (cases rows)
    case Nil
    then show ?thesis using Cons.prems readCsv_row(1) [of row] by simp
  next
    case (Cons row' rows')
    then show ?thesis using Cons.prems Cons.IH readCsv_row(2) [of row "joinWith [13, 10] (map (\<lambda>row. joinWith [44] (map quoteField row)) rows)"] by simp
  qed
qed simp

lemma collapse_set: "set (collapseSpaces s) \<subseteq> insert 32 (set s)"
proof (induction s)
  case (Cons c s)
  show ?case
  proof (cases "isSpace c \<and> s \<noteq> [] \<and> isSpace (hd s)")
    case True
    then have "collapseSpaces (c # s) = collapseSpaces s" by (cases s) simp_all
    then show ?thesis using Cons by auto
  next
    case False
    then have "collapseSpaces (c # s) = 32 # collapseSpaces s \<or> collapseSpaces (c # s) = c # collapseSpaces s"
      by (cases s) simp_all
    then show ?thesis using Cons by auto
  qed
qed simp

lemma submissionFor_cong: "gr_by s = gr_by s' \<Longrightarrow> submissionFor s u a = submissionFor s' u a"
  by (simp add: submissionFor_def)

lemma fireTimer_frame:
  "gr_by (fireTimer U key s) = gr_by s" "gr_roster (fireTimer U key s) = gr_roster s" "gr_assignments (fireTimer U key s) = gr_assignments s"
  "k \<noteq> key \<Longrightarrow> (\<forall>p. getItem (gradeTimers s) key = Some p \<longrightarrow> keyOf p = key) \<Longrightarrow> getItem (gr_scores (fireTimer U key s)) k = getItem (gr_scores s) k"
  unfolding fireTimer_def Let_def by (auto split: option.splits)

lemma editCell_frame: "gr_roster (editCell u a v s) = gr_roster s" "gr_assignments (editCell u a v s) = gr_assignments s"
  by (simp_all add: editCell_def Let_def)

lemma syncSheet_frame [simp]: "gr_requests (syncSheet s) = gr_requests s" "gradeTimers (syncSheet s) = []" "gr_by (syncSheet s) = gr_by s"
  "gr_roster (syncSheet s) = gr_roster s" "gr_assignments (syncSheet s) = gr_assignments s" "gr_scores (syncSheet s) = gr_scores s"
  by (simp_all add: syncSheet_def)

lemma plainIds_cong: "gr_roster s = gr_roster s' \<Longrightarrow> plainIds s = plainIds s'"
  by (simp add: plainIds_def)

section \<open>Properties\<close>


definition demoGrades :: grades_state where
  "demoGrades = \<lparr>gr_roster = [demo_user], gr_assignments = [demo_assignment 20], gr_by = [(js ''a1'', [demo_submission])],
     gr_scores = [], gr_status = [], gr_cells = [], gradeValues = [], gradeVersions = [], persistedValues = [], gradeTimers = [],
     gr_requests = [], synchronizing = False\<rparr>"

definition demoFired :: "jsstring \<Rightarrow> grades_state" where
  "demoFired typed = fireTimer ascii_env (scoreKey (js ''u1'') (js ''a1'')) (editCell (js ''u1'') (demo_assignment 20) typed demoGrades)"


lemma edit_then_fire:
  assumes "\<not> synchronizing s" "submissionFor s studentId (assignment_id a) = Some sub" "checkedPoints a (trim typed) = Some points"
    and "trim typed \<noteq> getOr (gradeValues s) (scoreKey studentId (assignment_id a))"
  obtains rq where
    "gr_requests (fireTimer U (scoreKey studentId (assignment_id a)) (editCell studentId a typed s)) = rq # gr_requests s"
    "rq_points rq = points" "rq_submission rq = sub" "rq_previous rq = pointsText U sub" "keyOf (rq_pending rq) = scoreKey studentId (assignment_id a)"
    "assignment_id (pg_assignment (rq_pending rq)) = assignment_id a"
    "gr_by (fireTimer U (scoreKey studentId (assignment_id a)) (editCell studentId a typed s)) = gr_by s"
    "gr_roster (fireTimer U (scoreKey studentId (assignment_id a)) (editCell studentId a typed s)) = gr_roster s"
    "gr_assignments (fireTimer U (scoreKey studentId (assignment_id a)) (editCell studentId a typed s)) = gr_assignments s"
proof -
  define key where "key = scoreKey studentId (assignment_id a)"
  define version where "version = (case getItem (gradeVersions s) key of Some n \<Rightarrow> n | None \<Rightarrow> 0) + 1"
  define p where "p = \<lparr>pg_student = studentId, pg_assignment = a, pg_value = trim typed, pg_version = version\<rparr>"
  define rq where "rq = \<lparr>rq_submission = sub, rq_points = points, rq_pending = p, rq_previous = pointsText U sub\<rparr>"
  have edit: "editCell studentId a typed s =
      s\<lparr>gr_cells := setItem key typed (gr_cells s), gradeValues := setItem key (trim typed) (gradeValues s),
        gradeVersions := setItem key version (gradeVersions s), gradeTimers := setItem key p (gradeTimers s)\<rparr>"
    using assms(1,2,4) by (simp add: editCell_def Let_def key_def version_def p_def)
  have fire: "fireTimer U key (editCell studentId a typed s) =
      (editCell studentId a typed s)\<lparr>gradeTimers := removeItem key (setItem key p (gradeTimers s)), gr_scores := setItem key (trim typed) (gr_scores s),
        gr_requests := rq # gr_requests s, gr_status := js ''Saving'' @ [8230]\<rparr>"
    using assms(2,3) unfolding fireTimer_def edit by (simp add: Let_def submissionFor_def p_def rq_def key_def)
  show thesis
    by (rule that [of rq]) (simp_all only: key_def [symmetric] fire, simp_all add: edit rq_def p_def keyOf_def key_def)
qed

lemma submissionFor_answer:
  assumes "submissionFor s studentId i = Some sub" "gr_by s1 = gr_by s" "assignment_id (pg_assignment (rq_pending rq)) = i"
  shows "submissionFor (gradeAnswer U rq resp s1) studentId i \<noteq> None"
proof (cases resp)
  case None
  then show ?thesis using assms(1,2) by (simp add: gradeAnswer_def Let_def submissionFor_def rollback_def)
next
  case (Some g)
  obtain subs where subs: "getItem (gr_by s) i = Some subs" "List.find (\<lambda>x. submission_student_id x = studentId) subs = Some sub"
    using assms(1) unfolding submissionFor_def by (auto split: option.splits)
  have "List.find (\<lambda>x. submission_student_id x = studentId) (map (\<lambda>x. if P x then x\<lparr>submission_grade := Some g\<rparr> else x) subs) \<noteq> None" for P
  proof -
    have "(if P sub then sub\<lparr>submission_grade := Some g\<rparr> else sub) \<in> set (map (\<lambda>x. if P x then x\<lparr>submission_grade := Some g\<rparr> else x) subs)"
      using find_some [OF subs(2)] by simp
    moreover have "submission_student_id (if P sub then sub\<lparr>submission_grade := Some g\<rparr> else sub) = studentId"
      using find_some [OF subs(2)] by simp
    ultimately show ?thesis unfolding find_None_iff by blast
  qed
  then show ?thesis using Some subs(1) assms(2,3) by (simp add: gradeAnswer_def Let_def submissionFor_def)
qed

lemma gradeAnswer_frame: "gr_roster (gradeAnswer U rq resp s) = gr_roster s" "gr_assignments (gradeAnswer U rq resp s) = gr_assignments s"
  "getItem (gr_scores (gradeAnswer U rq resp s)) (keyOf (rq_pending rq)) =
     Some (case resp of Some g \<Rightarrow> (case grade_points g of Some q \<Rightarrow> numToString U q | None \<Rightarrow> []) | None \<Rightarrow> rq_previous rq)"
  by (simp_all add: gradeAnswer_def Let_def split: option.split)

text \<open>One edit at a time is reliable: a valid grade typed into the cell of submitted work becomes one request when its timer ends, and
  after the answer the sheet shows the points the host recorded, or, when it refused, the grade that was there before.\<close>

theorem single_edit_settles:
  assumes "plainIds s" "u \<in> set (gr_roster s)" "a \<in> set (gr_assignments s)" "\<not> synchronizing s"
    and "submissionFor s (user_id u) (assignment_id a) = Some sub" "checkedPoints a (trim typed) = Some points"
    and "trim typed \<noteq> getOr (gradeValues s) (scoreKey (user_id u) (assignment_id a))"
  shows "\<exists>rq. gr_requests (syncSheet (fireTimer U (scoreKey (user_id u) (assignment_id a)) (editCell (user_id u) a typed s))) = rq # gr_requests s \<and>
    rq_points rq = points \<and> rq_submission rq = sub \<and>
    (let s1 = syncSheet (fireTimer U (scoreKey (user_id u) (assignment_id a)) (editCell (user_id u) a typed s)) in
     getItem (gr_cells (syncSheet (gradeAnswer U rq (Some g) s1))) (scoreKey (user_id u) (assignment_id a)) =
       Some (case grade_points g of Some q \<Rightarrow> numToString U q | None \<Rightarrow> []) \<and>
     getItem (gr_cells (syncSheet (gradeAnswer U rq None s1))) (scoreKey (user_id u) (assignment_id a)) = Some (pointsText U sub))"
proof -
  define s1 where "s1 = syncSheet (fireTimer U (scoreKey (user_id u) (assignment_id a)) (editCell (user_id u) a typed s))"
  obtain rq where rq: "gr_requests s1 = rq # gr_requests s" "rq_points rq = points" "rq_submission rq = sub" "rq_previous rq = pointsText U sub"
      "keyOf (rq_pending rq) = scoreKey (user_id u) (assignment_id a)" "assignment_id (pg_assignment (rq_pending rq)) = assignment_id a"
    and s1: "gr_by s1 = gr_by s" "gr_roster s1 = gr_roster s" "gr_assignments s1 = gr_assignments s"
    using edit_then_fire [OF assms(4,5,6,7), of U] unfolding s1_def syncSheet_frame by metis
  have "getItem (gr_cells (syncSheet (gradeAnswer U rq r s1))) (scoreKey (user_id u) (assignment_id a)) =
      Some (sheetText (gradeAnswer U rq r s1) (user_id u) (assignment_id a))" for r
    using assms(1,2,3) s1(2,3) plainIds_cong [of "gradeAnswer U rq r s1" s] by (intro sync_lookup(1)) (simp_all add: gradeAnswer_frame)
  then have "getItem (gr_cells (syncSheet (gradeAnswer U rq r s1))) (scoreKey (user_id u) (assignment_id a)) =
      Some (case r of Some g \<Rightarrow> (case grade_points g of Some q \<Rightarrow> numToString U q | None \<Rightarrow> []) | None \<Rightarrow> pointsText U sub)" for r
    using submissionFor_answer [OF assms(5) s1(1) rq(6), of U r] gradeAnswer_frame(3) [of U rq r s1] unfolding sheetText_def rq(4,5) by simp
  from this [of "Some g"] this [of None] show ?thesis
    unfolding s1_def [symmetric] Let_def using rq(1,2,3) by (intro exI [of _ rq]) simp
qed

theorem single_edit_settles_witness:
  "\<exists>rq. gr_requests (syncSheet (demoFired (js ''17''))) = [rq] \<and> rq_points rq = Some 17"
proof -
  have v: "plainIds demoGrades" "\<not> synchronizing demoGrades" "checkedPoints (demo_assignment 20) (trim (js ''17'')) = Some (Some 17)"
    "submissionFor demoGrades (js ''u1'') (js ''a1'') = Some demo_submission"
    "trim (js ''17'') \<noteq> getOr (gradeValues demoGrades) (scoreKey (js ''u1'') (js ''a1''))" by code_simp+
  have i: "demo_user \<in> set (gr_roster demoGrades)" "demo_assignment 20 \<in> set (gr_assignments demoGrades)" "gr_requests demoGrades = []"
    "user_id demo_user = js ''u1''" "assignment_id (demo_assignment 20) = js ''a1''"
    by (simp_all add: demoGrades_def demo_user_def demo_assignment_def)
  from single_edit_settles [OF v(1) i(1,2) v(2) v(4) [folded i(4,5)] v(3) v(5) [folded i(4,5)], where U = ascii_env]
  show ?thesis unfolding i(4,5) demoFired_def i(3) by blast
qed

lemma fireTimer_one_request:
  "getItem (gradeTimers s) key = Some q \<Longrightarrow>
     gr_requests (fireTimer U key s) = gr_requests s \<or> (\<exists>rq. gr_requests (fireTimer U key s) = rq # gr_requests s \<and> rq_pending rq = q)"
  unfolding fireTimer_def by (simp add: Let_def split: option.split)

text \<open>Two edits within half a second are not: when the timer of the first cell ends, its score changes, the effect that follows
  clears every timer and rewrites the sheet, and the second cell shows its old score again, with no timer and no request of its
  own. The grade typed into it is gone.\<close>

theorem quick_edits_are_lost:
  assumes "plainIds s" "u \<in> set (gr_roster s)" "a \<in> set (gr_assignments s)" "submissionFor s (user_id u) (assignment_id a) \<noteq> None"
    and "getItem (gradeTimers s) key = Some q" "keyOf q = key" "key \<noteq> scoreKey (user_id u) (assignment_id a)"
  shows "let s' = syncSheet (fireTimer U key s) in
    gradeTimers s' = [] \<and>
    getItem (gr_cells s') (scoreKey (user_id u) (assignment_id a)) = Some (getOr (gr_scores s) (scoreKey (user_id u) (assignment_id a))) \<and>
    (gr_requests s' = gr_requests s \<or> (\<exists>rq. gr_requests s' = rq # gr_requests s \<and> rq_pending rq = q))"
proof -
  note fr = fireTimer_frame [where U = U and key = key and s = s]
  have sub: "submissionFor (fireTimer U key s) (user_id u) (assignment_id a) \<noteq> None" using assms(4) submissionFor_cong [OF fr(1)] by metis
  have sc: "getItem (gr_scores (fireTimer U key s)) (scoreKey (user_id u) (assignment_id a)) = getItem (gr_scores s) (scoreKey (user_id u) (assignment_id a))"
  proof (rule fr(4))
    show "scoreKey (user_id u) (assignment_id a) \<noteq> key" using assms(7) by blast
    show "\<forall>p. getItem (gradeTimers s) key = Some p \<longrightarrow> keyOf p = key" using assms(5,6) by simp
  qed
  have "getItem (gr_cells (syncSheet (fireTimer U key s))) (scoreKey (user_id u) (assignment_id a)) = Some (sheetText (fireTimer U key s) (user_id u) (assignment_id a))"
    using assms(1,2,3) fr(2,3) plainIds_cong [OF fr(2)] by (intro sync_lookup(1)) simp_all
  moreover have "gr_requests (fireTimer U key s) = gr_requests s \<or> (\<exists>rq. gr_requests (fireTimer U key s) = rq # gr_requests s \<and> rq_pending rq = q)"
    by (rule fireTimer_one_request [OF assms(5)])
  ultimately show ?thesis using sub sc unfolding sheetText_def by (simp add: Let_def)
qed

definition secondUser :: user where
  "secondUser = demo_user\<lparr>user_id := js ''u2'', username := js ''ravi'', display_name := js ''Ravi''\<rparr>"

definition twoStudents :: grades_state where
  "twoStudents = demoGrades\<lparr>gr_roster := [demo_user, secondUser],
     gr_by := [(js ''a1'', [demo_submission, demo_submission\<lparr>submission_id := js ''s2'', submission_student_id := js ''u2''\<rparr>])]\<rparr>"

definition twoEdits :: grades_state where
  "twoEdits = editCell (js ''u2'') (demo_assignment 20) (js ''18'') (editCell (js ''u1'') (demo_assignment 20) (js ''17'') twoStudents)"

definition firstFired :: grades_state where
  "firstFired = syncSheet (fireTimer ascii_env (scoreKey (js ''u1'') (js ''a1'')) twoEdits)"

lemma twoEdits_values:
  "plainIds twoEdits" "map_option keyOf (getItem (gradeTimers twoEdits) (js ''u1:a1'')) = Some (js ''u1:a1'')"
  "map_option submission_id (submissionFor twoEdits (js ''u2'') (js ''a1'')) = Some (js ''s2'')"
  "getOr (gr_scores twoEdits) (js ''u2:a1'') = []" "getItem (gr_cells twoEdits) (js ''u2:a1'') = Some (js ''18'')"
  "map rq_points (gr_requests firstFired) = [Some 17]"
  "scoreKey (js ''u1'') (js ''a1'') = js ''u1:a1''" "scoreKey (js ''u2'') (js ''a1'') = js ''u2:a1''" "js ''u1:a1'' \<noteq> js ''u2:a1''"
  by code_simp+

lemma twoEdits_members:
  "secondUser \<in> set (gr_roster twoEdits)" "demo_assignment 20 \<in> set (gr_assignments twoEdits)"
  "user_id secondUser = js ''u2''" "assignment_id (demo_assignment 20) = js ''a1''"
  unfolding twoEdits_def editCell_frame by (simp_all add: twoStudents_def demoGrades_def secondUser_def demo_assignment_def)

theorem quick_edits_are_lost_witness:
  "getItem (gr_cells twoEdits) (js ''u2:a1'') = Some (js ''18'') \<and> getItem (gr_cells firstFired) (js ''u2:a1'') = Some [] \<and>
   gradeTimers firstFired = [] \<and> map rq_points (gr_requests firstFired) = [Some 17]"
proof -
  note v = twoEdits_values and m = twoEdits_members
  obtain q where q: "getItem (gradeTimers twoEdits) (js ''u1:a1'') = Some q" "keyOf q = js ''u1:a1''" using v(2) by blast
  have n: "submissionFor twoEdits (user_id secondUser) (assignment_id (demo_assignment 20)) \<noteq> None" using v(3) unfolding m(3,4) by fastforce
  have k: "js ''u1:a1'' \<noteq> scoreKey (user_id secondUser) (assignment_id (demo_assignment 20))" unfolding m(3,4) v(8) by (rule v(9))
  note lost = quick_edits_are_lost [OF v(1) m(1,2) n q k, where U = ascii_env, unfolded m(3,4) v(8) v(4) Let_def]
  have "gradeTimers firstFired = []" using lost unfolding firstFired_def v(7) by (rule conjunct1)
  moreover have "getItem (gr_cells firstFired) (js ''u2:a1'') = Some []"
    using lost [THEN conjunct2] unfolding firstFired_def v(7) by (rule conjunct1)
  ultimately show ?thesis using v(5,6) by (intro conjI)
qed

text \<open>The exported gradebook can be read back: parsing the CSV gives exactly the headings and rows of the sheet, whatever quotes, commas
  and line breaks the names and titles contain.\<close>

theorem csv_roundtrip: "readCsv (tl (csvText (csvRows U s))) = Some (csvRows U s)"
proof -
  have "csvRows U s \<noteq> []" "\<forall>row \<in> set (csvRows U s). row \<noteq> []" by (auto simp: csvRows_def)
  from readCsv_rows [OF this] show ?thesis by (simp add: csvText_def)
qed

text \<open>The name of an exported file is never empty, never longer than a hundred characters, and contains no character that is a path
  separator or otherwise forbidden in a file name, whatever the class is called.\<close>

theorem export_name_is_safe:
  "safeFilename v \<noteq> [] \<and> length (safeFilename v) \<le> 100 \<and> list_all (\<lambda>c. \<not> unsafeChar c) (safeFilename v)"
proof -
  define t where "t = sliceTo 100 (collapseSpaces (map (\<lambda>c. if unsafeChar c then 45 else c) (trim v)))"
  have p: "\<not> unsafeChar 32" "\<not> unsafeChar 45" "list_all (\<lambda>c. \<not> unsafeChar c) (js ''Cinder export'')" by code_simp+
  have "set t \<subseteq> insert 32 ((\<lambda>c. if unsafeChar c then 45 else c) ` set (trim v))"
    using set_sliceTo [of 100] collapse_set [of "map (\<lambda>c. if unsafeChar c then 45 else c) (trim v)"] unfolding t_def by fastforce
  then have "list_all (\<lambda>c. \<not> unsafeChar c) t" using p(1,2) unfolding list_all_iff by fastforce
  moreover have "int (length t) \<le> 100" unfolding t_def by (rule length_sliceTo) simp
  ultimately show ?thesis using p(3) unfolding safeFilename_def t_def [symmetric] orElse_def by (simp add: js_def)
qed

end
