(* ===== verification/Js_Uri.thy ===== *)
theory Js_Uri
  imports Cinder_Prelude
begin

text \<open>
  \<open>encodeURIComponent\<close> of the language, which several parts of the program build keys and addresses with: it reads the
  UTF-16 string as code points, refuses a lone surrogate (\<open>None\<close> is its \<open>URIError\<close>), and writes what is not
  unreserved as the bytes of UTF-8. It is injective, and no result contains a colon.
\<close>

section \<open>Percent-encoding\<close>

fun codePoints :: "jsstring \<Rightarrow> int list option" where
  "codePoints [] = Some []"
| "codePoints (c # s) =
     (if c < 55296 \<or> 57344 \<le> c then map_option ((#) c) (codePoints s)
      else if 56320 \<le> c then None
      else (case s of
          [] \<Rightarrow> None
        | d # s' \<Rightarrow> if 56320 \<le> d \<and> d \<le> 57343 then map_option ((#) (65536 + (c - 55296) * 1024 + (d - 56320))) (codePoints s') else None))"

definition utf8 :: "int \<Rightarrow> int list" where
  "utf8 c = (if c < 128 then [c]
     else if c < 2048 then [192 + c div 64, 128 + c mod 64]
     else if c < 65536 then [224 + c div 4096, 128 + c div 64 mod 64, 128 + c mod 64]
     else [240 + c div 262144, 128 + c div 4096 mod 64, 128 + c div 64 mod 64, 128 + c mod 64])"

definition hexDigit :: "int \<Rightarrow> int" where
  "hexDigit n = (if n < 10 then 48 + n else 55 + n)"

definition isUnreserved :: "int \<Rightarrow> bool" where
  "isUnreserved c \<longleftrightarrow> isDigit c \<or> isUpper c \<or> isLower c \<or> c \<in> set (js ''-_.!~*()'') \<or> c = 39"

definition percentByte :: "int \<Rightarrow> jsstring" where
  "percentByte b = [37, hexDigit (b div 16), hexDigit (b mod 16)]"

definition encodePoint :: "int \<Rightarrow> jsstring" where
  "encodePoint c = (if isUnreserved c then [c] else concat (map percentByte (utf8 c)))"

definition encodeURIComponent :: "jsstring \<Rightarrow> jsstring option" where
  "encodeURIComponent s = map_option (\<lambda>cs. concat (map encodePoint cs)) (codePoints s)"

section \<open>Percent-encoding is unambiguous\<close>

lemma hexDigit_inj: "0 \<le> a \<Longrightarrow> a < 16 \<Longrightarrow> 0 \<le> b \<Longrightarrow> b < 16 \<Longrightarrow> hexDigit a = hexDigit b \<longleftrightarrow> a = b"
  by (auto simp: hexDigit_def split: if_splits)

lemma percentByte_inj: "0 \<le> a \<Longrightarrow> a < 256 \<Longrightarrow> 0 \<le> b \<Longrightarrow> b < 256 \<Longrightarrow> percentByte a = percentByte b \<longleftrightarrow> a = b"
  unfolding percentByte_def by (auto simp: hexDigit_inj) presburger

lemma percent_bytes_cong:
  "\<forall>b \<in> set bs. 0 \<le> b \<and> b < 256 \<Longrightarrow> \<forall>b \<in> set bs'. 0 \<le> b \<and> b < 256 \<Longrightarrow> concat (map percentByte bs) @ x = concat (map percentByte bs') @ y \<Longrightarrow>
   length bs = length bs' \<Longrightarrow> bs = bs' \<and> x = y"
proof (induction bs bs' rule: list_induct2')
  case (4 b bs b' bs')
  have "length (percentByte b) = length (percentByte b')" by (simp add: percentByte_def)
  with 4(4) have "percentByte b = percentByte b'" "concat (map percentByte bs) @ x = concat (map percentByte bs') @ y" by simp_all
  then show ?case using 4 percentByte_inj [of b b'] by simp
qed simp_all

text \<open>The four lengths, with the digits to base 64 named.\<close>

lemma base64:
  assumes "0 \<le> (c::int)"
  obtains b where "0 \<le> b" "b < 64" "c = c div 64 * 64 + b" "c mod 64 = b" "0 \<le> c div 64"
  using assms by (intro that [of "c mod 64"]) (simp_all add: pos_imp_zdiv_nonneg_iff)

lemma utf8_cases:
  assumes "0 \<le> c" "c < 1114112"
  obtains (one) "c < 128" "utf8 c = [c]"
    | (two) x y where "c = x * 64 + y" "0 \<le> y" "y < 64" "0 \<le> x" "x < 32" "utf8 c = [192 + x, 128 + y]"
    | (three) x y z where "c = (x * 64 + y) * 64 + z" "0 \<le> y" "y < 64" "0 \<le> z" "z < 64" "0 \<le> x" "x < 16" "utf8 c = [224 + x, 128 + y, 128 + z]"
    | (four) w x y z where "c = ((w * 64 + x) * 64 + y) * 64 + z" "0 \<le> x" "x < 64" "0 \<le> y" "y < 64" "0 \<le> z" "z < 64" "0 \<le> w" "w < 16"
        "utf8 c = [240 + w, 128 + x, 128 + y, 128 + z]"
proof -
  have q: "c div 4096 = c div 64 div 64" using zdiv_zmult2_eq [of 64 c 64] by simp
  moreover have "c div 262144 = c div 4096 div 64" using zdiv_zmult2_eq [of 64 c 4096] by simp
  ultimately have q': "c div 262144 = c div 64 div 64 div 64" by simp
  define d e f where d: "d = c div 64" and e: "e = d div 64" and f: "f = e div 64"
  obtain z where z: "0 \<le> z" "z < 64" "c = d * 64 + z" "c mod 64 = z" "0 \<le> d" unfolding d by (rule base64 [OF assms(1)])
  obtain y where y: "0 \<le> y" "y < 64" "d = e * 64 + y" "d mod 64 = y" "0 \<le> e" unfolding e by (rule base64 [OF z(5)])
  obtain x where x: "0 \<le> x" "x < 64" "e = f * 64 + x" "e mod 64 = x" "0 \<le> f" unfolding f by (rule base64 [OF y(5)])
  have u: "utf8 c = (if c < 128 then [c] else if c < 2048 then [192 + d, 128 + z] else if c < 65536 then [224 + e, 128 + y, 128 + z]
      else [240 + f, 128 + x, 128 + y, 128 + z])"
    unfolding utf8_def q q' d [symmetric] e [symmetric] f [symmetric] z(4) y(4) x(4) ..
  consider "c < 128" | "128 \<le> c" "c < 2048" | "2048 \<le> c" "c < 65536" | "65536 \<le> c" by linarith
  then show ?thesis
  proof cases
    case 1
    then show ?thesis using u by (intro one) simp_all
  next
    case 2
    have "d < 32" using 2 z by linarith
    then show ?thesis using u 2 z by (intro two [of d z]) simp_all
  next
    case 3
    have "e < 16" using 3 y z by linarith
    then show ?thesis using u 3 z y by (intro three [of e y z]) simp_all
  next
    case 4
    have "f < 16" using x y z assms(2) by linarith
    then show ?thesis using u 4 z y x by (intro four [of f x y z]) simp_all
  qed
qed

lemma utf8_bytes: "0 \<le> c \<Longrightarrow> c < 1114112 \<Longrightarrow> b \<in> set (utf8 c) \<Longrightarrow> 0 \<le> b \<and> b < 256"
  by (rule utf8_cases [of c]) auto

text \<open>The first byte tells the length, so no encoding of a code point begins another one's.\<close>

lemma utf8_length:
  assumes "0 \<le> c" "c < 1114112" "0 \<le> d" "d < 1114112" "hd (utf8 c) = hd (utf8 d)"
  shows "length (utf8 c) = length (utf8 d)"
proof -
  have "length (utf8 c) = (if hd (utf8 c) < 128 then 1 else if hd (utf8 c) < 224 then 2 else if hd (utf8 c) < 240 then 3 else 4)"
    if "0 \<le> c" "c < 1114112" for c using that by (rule utf8_cases [of c]) auto
  then show ?thesis using assms by simp
qed

definition decodeUtf8 :: "int list \<Rightarrow> int" where
  "decodeUtf8 bs = (case bs of
      [a] \<Rightarrow> a
    | [a, b] \<Rightarrow> (a - 192) * 64 + (b - 128)
    | [a, b, c] \<Rightarrow> ((a - 224) * 64 + (b - 128)) * 64 + (c - 128)
    | [a, b, c, d] \<Rightarrow> (((a - 240) * 64 + (b - 128)) * 64 + (c - 128)) * 64 + (d - 128)
    | _ \<Rightarrow> 0)"

lemma decodeUtf8_utf8: "0 \<le> c \<Longrightarrow> c < 1114112 \<Longrightarrow> decodeUtf8 (utf8 c) = c"
  by (rule utf8_cases [of c]) (simp_all add: decodeUtf8_def)

lemma utf8_inj: "0 \<le> c \<Longrightarrow> c < 1114112 \<Longrightarrow> 0 \<le> d \<Longrightarrow> d < 1114112 \<Longrightarrow> utf8 c = utf8 d \<Longrightarrow> c = d"
  by (metis decodeUtf8_utf8)

lemma utf8_nonempty: "utf8 c \<noteq> []"
  by (simp add: utf8_def)

lemma utf8_prefix_free:
  assumes "0 \<le> c" "c < 1114112" "0 \<le> d" "d < 1114112"
    and "concat (map percentByte (utf8 c)) @ x = concat (map percentByte (utf8 d)) @ y"
  shows "c = d \<and> x = y"
proof -
  obtain b bs b' bs' where u: "utf8 c = b # bs" "utf8 d = b' # bs'"
    by (metis list.exhaust utf8_nonempty)
  have r: "\<forall>b \<in> set (utf8 c). 0 \<le> b \<and> b < 256" "\<forall>b \<in> set (utf8 d). 0 \<le> b \<and> b < 256"
    using utf8_bytes assms(1-4) by blast+
  have "length (percentByte b) = length (percentByte b')" by (simp add: percentByte_def)
  with assms(5) have "percentByte b = percentByte b'" unfolding u by simp
  then have "hd (utf8 c) = hd (utf8 d)" using r percentByte_inj [of b b'] unfolding u by simp
  then have "length (utf8 c) = length (utf8 d)" using utf8_length assms(1-4) by blast
  then have "utf8 c = utf8 d \<and> x = y" using percent_bytes_cong [OF r assms(5)] by blast
  then show ?thesis using utf8_inj assms by blast
qed

lemma unreserved_not_percent: "isUnreserved c \<Longrightarrow> c \<noteq> 37 \<and> c \<noteq> 58"
  by (auto simp: isUnreserved_def isDigit_def isUpper_def isLower_def js_def)

lemma encodePoint_prefix_free:
  assumes "0 \<le> c" "c < 1114112" "0 \<le> d" "d < 1114112" "encodePoint c @ x = encodePoint d @ y"
  shows "c = d \<and> x = y"
proof -
  have p: "\<exists>r. concat (map percentByte (utf8 e)) @ z = 37 # r" for e z by (auto simp: utf8_def percentByte_def)
  consider "isUnreserved c" "isUnreserved d" | "isUnreserved c" "\<not> isUnreserved d" | "\<not> isUnreserved c" "isUnreserved d"
    | "\<not> isUnreserved c" "\<not> isUnreserved d" by blast
  then show ?thesis
  proof cases
    case 2
    then show ?thesis using assms(5) p [of d y] unreserved_not_percent [of c] by (auto simp: encodePoint_def)
  next
    case 3
    then show ?thesis using assms(5) p [of c x] unreserved_not_percent [of d] by (auto simp: encodePoint_def)
  next
    case 4
    then show ?thesis using assms utf8_prefix_free [of c d x y] by (simp add: encodePoint_def)
  qed (use assms(5) in \<open>simp add: encodePoint_def\<close>)
qed

lemma encodePoint_nonempty [simp]: "encodePoint c \<noteq> []"
  by (simp add: encodePoint_def utf8_def percentByte_def)

lemma encodePoints_inj:
  "\<forall>c \<in> set cs. 0 \<le> c \<and> c < 1114112 \<Longrightarrow> \<forall>c \<in> set ds. 0 \<le> c \<and> c < 1114112 \<Longrightarrow>
   concat (map encodePoint cs) = concat (map encodePoint ds) \<Longrightarrow> cs = ds"
proof (induction cs ds rule: list_induct2')
  case (4 c cs d ds)
  then have "c = d \<and> concat (map encodePoint cs) = concat (map encodePoint ds)"
    using encodePoint_prefix_free [of c d "concat (map encodePoint cs)" "concat (map encodePoint ds)"] by simp
  then show ?case using 4 by simp
qed simp_all

lemma codePoints_range:
  "\<forall>c \<in> set s. 0 \<le> c \<and> c < 65536 \<Longrightarrow> codePoints s = Some cs \<Longrightarrow> \<forall>c \<in> set cs. 0 \<le> c \<and> c < 1114112"
  by (induction s arbitrary: cs rule: codePoints.induct) (auto split: if_splits list.splits)

text \<open>Code points determine the string they were read from.\<close>

definition codeUnits :: "int \<Rightarrow> jsstring" where
  "codeUnits c = (if c < 65536 then [c] else [55296 + (c - 65536) div 1024, 56320 + (c - 65536) mod 1024])"

lemma surrogates: "0 \<le> b \<Longrightarrow> b < 1024 \<Longrightarrow> (a * 1024 + b) div 1024 = (a::int) \<and> (a * 1024 + b) mod 1024 = b"
  by simp

lemma codeUnits_pair:
  "55296 \<le> c \<Longrightarrow> 56320 \<le> d \<Longrightarrow> d \<le> 57343 \<Longrightarrow> codeUnits (65536 + (c - 55296) * 1024 + (d - 56320)) = [c, d]"
  using surrogates [of "d - 56320" "c - 55296"] unfolding codeUnits_def by simp

lemma codeUnits_codePoints:
  "\<forall>c \<in> set s. c < 65536 \<Longrightarrow> codePoints s = Some cs \<Longrightarrow> concat (map codeUnits cs) = s"
proof (induction s arbitrary: cs rule: codePoints.induct)
  case (2 c s)
  show ?case
  proof (cases "c < 55296 \<or> 57344 \<le> c")
    case True
    then obtain ds where d: "codePoints s = Some ds" "cs = c # ds" using 2(4) by auto
    then show ?thesis using 2(1) [OF True] 2(3) by (simp add: codeUnits_def)
  next
    case False
    then obtain d s' where s: "s = d # s'" using 2(4) by (auto split: if_splits list.splits)
    then obtain ds where d: "\<not> 56320 \<le> c" "56320 \<le> d" "d \<le> 57343" "codePoints s' = Some ds"
        "cs = (65536 + (c - 55296) * 1024 + (d - 56320)) # ds"
      using 2(4) False by (auto split: if_splits)
    have "concat (map codeUnits ds) = s'" using 2(2) [OF False d(1) s] d 2(3) unfolding s by simp
    then show ?thesis using codeUnits_pair [of c d] d False unfolding s by simp
  qed
qed simp

text \<open>A string of 16-bit code units, as every string of the language is.\<close>

definition isUtf16 :: "jsstring \<Rightarrow> bool" where
  "isUtf16 s \<longleftrightarrow> (\<forall>c \<in> set s. 0 \<le> c \<and> c < 65536)"

lemma encodeURIComponent_inj:
  assumes "isUtf16 s" "isUtf16 t" "encodeURIComponent s = Some e" "encodeURIComponent t = Some e"
  shows "s = t"
proof -
  obtain cs ds where c: "codePoints s = Some cs" "codePoints t = Some ds" and e: "concat (map encodePoint cs) = concat (map encodePoint ds)"
    using assms(3,4) unfolding encodeURIComponent_def by auto
  have "cs = ds" using encodePoints_inj [OF _ _ e] codePoints_range c assms(1,2) unfolding isUtf16_def by blast
  then show ?thesis using codeUnits_codePoints c assms(1,2) unfolding isUtf16_def by (metis option.inject)
qed

lemma hexDigit_no_colon: "0 \<le> n \<Longrightarrow> n < 16 \<Longrightarrow> hexDigit n \<noteq> 58"
  by (simp add: hexDigit_def)

lemma encodePoint_no_colon: "0 \<le> c \<Longrightarrow> c < 1114112 \<Longrightarrow> 58 \<notin> set (encodePoint c)"
proof -
  assume c: "0 \<le> c" "c < 1114112"
  have "58 \<notin> set (percentByte b)" if "0 \<le> b" "b < 256" for b
  proof -
    have "0 \<le> b div 16" "b div 16 < 16" "0 \<le> b mod 16" "b mod 16 < 16" using that by (auto simp: pos_imp_zdiv_nonneg_iff)
    from hexDigit_no_colon [OF this(1,2)] hexDigit_no_colon [OF this(3,4)] show ?thesis unfolding percentByte_def by auto
  qed
  then show ?thesis using utf8_bytes [OF c] unreserved_not_percent [of c] unfolding encodePoint_def by auto
qed

lemma encodeURIComponent_no_colon: "isUtf16 s \<Longrightarrow> encodeURIComponent s = Some e \<Longrightarrow> 58 \<notin> set e"
  using codePoints_range [of s] encodePoint_no_colon unfolding encodeURIComponent_def isUtf16_def by fastforce

end
