(* ===== verification/Paper_Logic.thy ===== *)
theory Paper_Logic
  imports Ui_Types Js_Regex Js_Uri "HOL-Library.Monad_Syntax"
begin

text \<open>
  Question papers (\<open>apps/teacher/src/paperLogic.ts\<close>): the data of a generated paper, the
  normaliser that turns the language model's answer into it, the repair and recovery of damaged
  JSON, the page ranges of citations, and the two texts a paper is printed as.

  A thrown \<open>Error\<close> is \<open>Inl\<close> of its message. \<open>JSON.parse\<close> is a parameter: it returns a value
  or the message of its \<open>SyntaxError\<close>. Marks and line counts are numbers of the language, held
  as rationals; page numbers are integers.
\<close>

section \<open>Data\<close>

datatype exam_board = CIE | IGCSE | CBSE | ICSE
datatype difficulty_level = Level1 | Level2 | Level3 | Level4 | Level5
datatype paper_source_mode = Adapt | Excerpt | FullPage

definition PAPER_OUTPUT_TOKEN_OPTIONS :: "(rat \<times> jsstring) list" where
  "PAPER_OUTPUT_TOKEN_OPTIONS =
     [(512, js ''512 - Smoke test''), (1024, js ''1,024 - Small test''), (2048, js ''2,048 - Economy''),
      (4096, js ''4,096 - Balanced''), (8192, js ''8,192 - Full paper'')]"

definition DEFAULT_PAPER_OUTPUT_TOKENS :: rat where
  "DEFAULT_PAPER_OUTPUT_TOKENS = 4096"

record paper_diagram =
  imageDataUrl :: jsstring
  caption :: jsstring
  alt :: jsstring

record paper_marking_point =
  point_text :: jsstring
  point_marks :: rat

record paper_scheme =
  markingPoints :: "paper_marking_point list"
  acceptedAlternatives :: "jsstring list"
  guidance :: jsstring

record paper_subpart =
  part_label :: jsstring
  part_prompt :: jsstring
  part_marks :: rat
  part_answer :: jsstring
  part_workingLines :: rat
  part_scheme :: paper_scheme

record paper_question =
  question_id :: jsstring
  prompt :: jsstring
  marks :: rat
  answer :: jsstring
  workingLines :: rat
  subparts :: "paper_subpart list"
  diagram :: "paper_diagram option"
  source :: jsstring
  scheme :: paper_scheme

record generated_paper =
  instructions :: "jsstring list"
  questions :: "paper_question list"

record paper_source_citation =
  source_name :: jsstring
  pages :: "int list"

record paper_metadata =
  title :: jsstring
  subject :: jsstring
  board :: exam_board
  syllabusCode :: jsstring
  year :: jsstring
  session :: jsstring
  paperVariant :: jsstring
  durationMinutes :: rat
  sources :: "paper_source_citation list"
  headerText :: "jsstring option"
  footerText :: "jsstring option"
  repeatHeader :: bool
  repeatFooter :: bool

definition boardName :: "exam_board \<Rightarrow> jsstring" where
  "boardName b = (case b of
      CIE \<Rightarrow> js ''Cambridge International AS & A Level (CIE)''
    | IGCSE \<Rightarrow> js ''Cambridge IGCSE''
    | CBSE \<Rightarrow> js ''CBSE''
    | ICSE \<Rightarrow> js ''CISCE / ICSE'')"

definition difficultyName :: "difficulty_level \<Rightarrow> jsstring" where
  "difficultyName l = (case l of
      Level1 \<Rightarrow> js ''Foundation'' | Level2 \<Rightarrow> js ''Developing'' | Level3 \<Rightarrow> js ''Exam standard''
    | Level4 \<Rightarrow> js ''Advanced'' | Level5 \<Rightarrow> js ''Stretch'')"

section \<open>Values of unknown type\<close>

text \<open>\<open>Number(v)\<close>: an array is read through its text, in which \<open>null\<close> is empty.\<close>

fun jsonText :: "js_env \<Rightarrow> json \<Rightarrow> jsstring" where
  "jsonText U JNull = js ''null''"
| "jsonText U (JBool b) = (if b then js ''true'' else js ''false'')"
| "jsonText U (JNum q) = numToString U q"
| "jsonText U (JStr s) = s"
| "jsonText U (JArr vs) = joinWith (js '','') (map (\<lambda>v. if v = JNull then [] else jsonText U v) vs)"
| "jsonText U (JObj fs) = js ''[object Object]''"

definition jsonNumber :: "js_env \<Rightarrow> json option \<Rightarrow> jsnum" where
  "jsonNumber U v = (case v of
      None \<Rightarrow> NaN
    | Some JNull \<Rightarrow> Fin 0
    | Some (JBool b) \<Rightarrow> Fin (if b then 1 else 0)
    | Some (JNum q) \<Rightarrow> Fin q
    | Some (JStr s) \<Rightarrow> toNumber s
    | Some (JArr vs) \<Rightarrow> toNumber (jsonText U (JArr vs))
    | Some (JObj _) \<Rightarrow> NaN)"

definition isObject :: "json option \<Rightarrow> bool" where
  "isObject v \<longleftrightarrow> (case v of Some (JArr _) \<Rightarrow> True | Some (JObj _) \<Rightarrow> True | _ \<Rightarrow> False)"

definition asArray :: "json option \<Rightarrow> json list option" where
  "asArray v = (case v of Some (JArr vs) \<Rightarrow> Some vs | _ \<Rightarrow> None)"

abbreviation field :: "json \<Rightarrow> string \<Rightarrow> json option" where
  "field v k \<equiv> jget v (js k)"

definition normalizePaperOutputTokens :: "js_env \<Rightarrow> json option \<Rightarrow> rat" where
  "normalizePaperOutputTokens U v =
     (case jsonNumber U v of
        Fin n \<Rightarrow> if \<exists>opt \<in> set PAPER_OUTPUT_TOKEN_OPTIONS. fst opt = n then n else DEFAULT_PAPER_OUTPUT_TOKENS
      | _ \<Rightarrow> DEFAULT_PAPER_OUTPUT_TOKENS)"

section \<open>Page ranges\<close>

fun pageRanges :: "int \<Rightarrow> int \<Rightarrow> int list \<Rightarrow> (int \<times> int) list" where
  "pageRanges start end [] = [(start, end)]"
| "pageRanges start end (page # rest) =
     (if page = end + 1 then pageRanges start page rest
      else (start, end) # pageRanges page page rest)"

definition showRange :: "int \<times> int \<Rightarrow> jsstring" where
  "showRange r = (if fst r = snd r then showInt (fst r) else showInt (fst r) @ [45] @ showInt (snd r))"

definition compactPageRanges :: "int list \<Rightarrow> jsstring" where
  "compactPageRanges ps =
     (let sorted = sort (remdups ps) in
      case sorted of
        [] \<Rightarrow> []
      | p # rest \<Rightarrow> (if length sorted = 1 then js ''p.'' else js ''pp.'') @ [32] @
          joinWith (js '', '') (map showRange (pageRanges p p rest)))"

definition sourceSummary :: "paper_source_citation list \<Rightarrow> jsstring" where
  "sourceSummary ss =
     joinWith (js ''; '')
       (map (\<lambda>s. let ps = compactPageRanges (pages s)
                 in if ps \<noteq> [] then source_name s @ js '' ('' @ ps @ js '')'' else source_name s) ss)"

section \<open>Text and numbers of the model\<close>

definition markerRx :: rx where
  "markerRx = seqs [chr 91, alts [liti ''cinder_questions'', liti ''cinder_answer_key'', liti ''working_space''], chr 93]"

definition openFenceRx :: rx where
  "openFenceRx = seqs [Bol, lit ''```'', Opt (alts [liti ''json'', liti ''text'', liti ''markdown'', liti ''md'']), Star True rx_s]"

definition closeFenceRx :: rx where
  "closeFenceRx = seqs [Star True rx_s, lit ''```'', Eol]"

definition headingRx :: rx where
  "headingRx = seqs [MBol, chr 35, upTo 5 (chr 35), Plus rx_s]"

definition cleanModelText :: "json option \<Rightarrow> jsstring \<Rightarrow> jsstring" where
  "cleanModelText v fallback = (case v of
      Some (JStr s) \<Rightarrow>
        (let s = replaceAllBy markerRx [] s;
             s = replaceFirst openFenceRx (\<lambda>_. []) s;
             s = replaceFirst closeFenceRx (\<lambda>_. []) s;
             s = replaceAllBy headingRx [] s;
             s = replaceAllBy (lit ''**'') [] s;
             s = replaceAllBy (Seq (chr 95) (Plus (chr 95))) [] s;
             s = replaceAllBy (litOf [13, 10]) [10] s
         in trim s)
    | _ \<Rightarrow> fallback)"

definition numeric :: "js_env \<Rightarrow> json option \<Rightarrow> rat \<Rightarrow> rat \<Rightarrow> rat \<Rightarrow> rat" where
  "numeric U v fallback minimum maximum =
     (case jsonNumber U v of
        Fin q \<Rightarrow> max minimum (min maximum (of_int (mathRound q)))
      | _ \<Rightarrow> fallback)"

definition safeId :: "nat \<Rightarrow> jsstring" where
  "safeId i = js ''question-'' @ showInt (int i + 1)"

section \<open>Diagrams\<close>

definition ALLOWED_SVG_TAGS :: "jsstring list" where
  "ALLOWED_SVG_TAGS = map js [''svg'', ''g'', ''line'', ''rect'', ''circle'', ''ellipse'', ''polyline'',
     ''polygon'', ''path'', ''text'']"

definition svgOpenRx :: rx where "svgOpenRx = seqs [Bol, liti ''<svg'', WordB]"
definition svgCloseRx :: rx where "svgCloseRx = seqs [liti ''</svg>'', Star True rx_s, Eol]"

definition svgBannedRx :: rx where
  "svgBannedRx = alts [liti ''<!doctype'', liti ''<?xml'', liti ''<script'', liti ''<style'', liti ''<foreignobject'',
     liti ''<image'', liti ''<use'', Seq (liti ''<a'') WordB, liti ''<iframe'', liti ''<object'', liti ''<embed'']"

definition svgTagRx :: rx where
  "svgTagRx = seqs [chr 60, Opt (chr 47), Star True rx_s,
     Grp 1 (Seq (Cls isLetterI) (Star True (Cls (\<lambda>c. isWordChar c \<or> c = 58 \<or> c = 45)))), WordB]"

definition svgAttrRx :: rx where
  "svgAttrRx = alts [
     seqs [WordB, liti ''on'', Plus (Cls isLetterI), Star True rx_s, chr 61],
     seqs [WordB, alts [liti ''href'', liti ''xlink:href'', liti ''src'', liti ''style''], Star True rx_s, chr 61],
     seqs [liti ''url'', Star True rx_s, chr 40], liti ''javascript:'', liti ''data:'']"

definition svgCommentRx :: rx where
  "svgCommentRx = seqs [lit ''<!--'', Star False (Cls (\<lambda>_. True)), lit ''-->'']"

definition svgSizeRx :: rx where
  "svgSizeRx = seqs [rx_s, alts [liti ''width'', liti ''height'', liti ''xmlns''], Star True rx_s, chr 61, Star True rx_s,
     Cls (\<lambda>c. c = 34 \<or> c = 39), Star True (Cls (\<lambda>c. c \<noteq> 34 \<and> c \<noteq> 39)), Cls (\<lambda>c. c = 34 \<or> c = 39)]"

definition quoted :: "string \<Rightarrow> jsstring" where
  "quoted s = [34] @ js s @ [34]"

definition sanitizeDiagramSvg :: "json option \<Rightarrow> jsstring" where
  "sanitizeDiagramSvg v = (case v of
      Some (JStr s) \<Rightarrow>
        (let svg = sliceTo 24000 (trim s) in
         if \<not> rtest svgOpenRx svg \<or> \<not> rtest svgCloseRx svg then []
         else if rtest svgBannedRx svg then []
         else if \<exists>m \<in> set (matchAll svgTagRx svg). map asciiLowerChar (capStr m 1) \<notin> set ALLOWED_SVG_TAGS then []
         else if rtest svgAttrRx svg then []
         else
           (let svg = replaceAllBy svgCommentRx [] svg;
                svg = replaceAllBy svgSizeRx [] svg;
                svg = replaceFirst svgOpenRx (\<lambda>_. js ''<svg xmlns='' @ quoted ''http://www.w3.org/2000/svg'' @
                        js '' width='' @ quoted ''720'' @ js '' height='' @ quoted ''360'') svg
            in if \<not> rtest (seqs [WordB, lit ''viewBox'', Star True rx_s, chr 61])
                     (sliceTo (findIndex (\<lambda>c. c = 62) svg + 1) svg)
               then replaceFirst svgOpenRx (\<lambda>_. js ''<svg viewBox='' @ quoted ''0 0 720 360'') svg
               else svg))
    | _ \<Rightarrow> [])"

definition dataUrlRx :: rx where
  "dataUrlRx = seqs [Bol, liti ''data:image/'', alts [liti ''png'', liti ''jpeg''], liti '';base64,'',
     Plus (Cls (\<lambda>c. isLetterI c \<or> isDigit c \<or> c = 43 \<or> c = 47)), upTo 2 (chr 61), Eol]"

definition sanitizeDiagramImageDataUrl :: "json option \<Rightarrow> jsstring" where
  "sanitizeDiagramImageDataUrl v = (case v of
      Some (JStr s) \<Rightarrow>
        if int (length s) > 7000000 then []
        else (let dataUrl = trim s in if \<not> rtest dataUrlRx dataUrl then [] else dataUrl)
    | _ \<Rightarrow> [])"

section \<open>The normaliser\<close>

definition EMPTY_SCHEME :: paper_scheme where
  "EMPTY_SCHEME = \<lparr>markingPoints = [], acceptedAlternatives = [], guidance = []\<rparr>"

definition normalizePoint :: "js_env \<Rightarrow> rat \<Rightarrow> json \<Rightarrow> paper_marking_point list" where
  "normalizePoint U availableMarks item =
     (case item of
        JStr s \<Rightarrow>
          (let text = sliceTo 600 (cleanModelText (Some item) [])
           in if text \<noteq> [] then [\<lparr>point_text = text, point_marks = 1\<rparr>] else [])
      | _ \<Rightarrow>
          if \<not> isObject (Some item) then []
          else
            (let text = sliceTo 600 (cleanModelText (coalesce (field item ''text'') (field item ''point'')) [])
             in if text = [] then []
                else [\<lparr>point_text = text,
                       point_marks = numeric U (field item ''marks'') 1 0 (max 1 availableMarks)\<rparr>]))"

definition normalizeScheme :: "js_env \<Rightarrow> json option \<Rightarrow> rat \<Rightarrow> paper_scheme" where
  "normalizeScheme U v availableMarks =
     (case v of
        None \<Rightarrow> EMPTY_SCHEME
      | Some candidate \<Rightarrow>
          if \<not> isObject v then EMPTY_SCHEME
          else
            \<lparr>markingPoints =
               (case asArray (coalesce (field candidate ''marking_points'') (field candidate ''markingPoints'')) of
                  Some raw \<Rightarrow> concat (map (normalizePoint U availableMarks) (sliceTo 20 raw))
                | None \<Rightarrow> []),
             acceptedAlternatives =
               (case asArray (coalesce (field candidate ''accepted_alternatives'') (field candidate ''acceptedAlternatives'')) of
                  Some raw \<Rightarrow>
                    sliceTo 20 (filter (\<lambda>s. s \<noteq> []) (map (\<lambda>item. sliceTo 400 (cleanModelText (Some item) [])) raw))
                | None \<Rightarrow> []),
             guidance =
               sliceTo 2000 (cleanModelText (coalesce (field candidate ''guidance'') (field candidate ''notes'')) [])\<rparr>)"

definition schemeOf :: "json \<Rightarrow> json option" where
  "schemeOf candidate =
     coalesce (coalesce (field candidate ''scheme'') (field candidate ''marking_scheme'')) (field candidate ''markingScheme'')"

definition normalizeSubpart :: "js_env \<Rightarrow> nat \<Rightarrow> json \<Rightarrow> paper_subpart list" where
  "normalizeSubpart U index candidate =
     (if \<not> isObject (Some candidate) then []
      else
        (let promptText = sliceTo 4000 (cleanModelText (coalesce (field candidate ''prompt'') (field candidate ''question'')) [])
         in if promptText = [] then []
            else
              (let m = numeric U (field candidate ''marks'') 1 1 50
               in [\<lparr>part_label = sliceTo 5 (cleanModelText (field candidate ''label'') [97 + int index]),
                    part_prompt = promptText,
                    part_marks = m,
                    part_answer = sliceTo 8000 (cleanModelText (field candidate ''answer'') []),
                    part_workingLines =
                      numeric U (coalesce (field candidate ''working_lines'') (field candidate ''workingLines'')) 3 0 12,
                    part_scheme = normalizeScheme U (schemeOf candidate) m\<rparr>])))"

definition normalizeSubparts :: "js_env \<Rightarrow> json option \<Rightarrow> paper_subpart list" where
  "normalizeSubparts U v =
     (case asArray v of
        None \<Rightarrow> []
      | Some vs \<Rightarrow> concat (map (\<lambda>(i, item). normalizeSubpart U i item) (List.enumerate 0 (sliceTo 12 vs))))"

definition normalizeDiagram :: "json option \<Rightarrow> paper_diagram option" where
  "normalizeDiagram v =
     (case v of
        None \<Rightarrow> None
      | Some candidate \<Rightarrow>
          if \<not> isObject v then None
          else
            (let url = sanitizeDiagramImageDataUrl (coalesce (field candidate ''imageDataUrl'') (field candidate ''image_data_url''))
             in if url = [] then None
                else Some \<lparr>imageDataUrl = url,
                       caption = sliceTo 240 (cleanModelText (field candidate ''caption'') []),
                       alt = sliceTo 240 (cleanModelText (field candidate ''alt'') (js ''Question diagram''))\<rparr>))"

definition defaultLines :: "rat \<Rightarrow> rat" where
  "defaultLines m = (if m \<ge> 5 then 6 else if m \<ge> 3 then 4 else 2)"

definition normalizeQuestion :: "js_env \<Rightarrow> nat \<Rightarrow> json \<Rightarrow> paper_question list" where
  "normalizeQuestion U index q =
     (if \<not> isObject (Some q) then []
      else
        (let promptText = sliceTo 8000 (cleanModelText (coalesce (field q ''prompt'') (field q ''question'')) [])
         in if promptText = [] then []
            else
              (let parts = normalizeSubparts U (coalesce (field q ''subparts'') (field q ''parts''));
                   m = (if parts \<noteq> [] then foldl (\<lambda>total part. total + part_marks part) 0 parts
                        else numeric U (field q ''marks'') 1 1 100)
               in [\<lparr>question_id = orElse (sliceTo 80 (cleanModelText (field q ''id'') (safeId index))) (safeId index),
                    prompt = promptText,
                    marks = m,
                    answer = sliceTo 12000 (cleanModelText (field q ''answer'') []),
                    workingLines =
                      numeric U (coalesce (field q ''working_lines'') (field q ''workingLines'')) (defaultLines m) 0 14,
                    subparts = parts,
                    diagram = normalizeDiagram (field q ''diagram''),
                    source = sliceTo 300 (cleanModelText (field q ''source'') []),
                    scheme = normalizeScheme U (schemeOf q) m\<rparr>])))"

definition noSpecification :: jsstring where
  "noSpecification = js ''The AI response did not contain a paper specification.''"
definition noQuestionsList :: jsstring where
  "noQuestionsList = js ''The AI response did not contain a questions list.''"
definition noUsableQuestions :: jsstring where
  "noUsableQuestions = js ''The AI response did not contain usable questions.''"
definition noStructuredData :: jsstring where
  "noStructuredData = js ''The AI did not return structured paper data.''"
definition malformedPaper :: jsstring where
  "malformedPaper = js ''The AI returned malformed paper data. Try creating the paper again.''"

definition paperRoot :: "json \<Rightarrow> json" where
  "paperRoot doc =
     (let nested = coalesce (coalesce (coalesce (field doc ''paper'') (field doc ''question_paper''))
                     (field doc ''questionPaper'')) (field doc ''data'')
      in case nested of Some (JObj fs) \<Rightarrow> JObj fs | _ \<Rightarrow> doc)"

definition normalizeGeneratedPaper :: "js_env \<Rightarrow> json \<Rightarrow> jsstring + generated_paper" where
  "normalizeGeneratedPaper U v =
     (let v = (case v of JArr vs \<Rightarrow> JObj [(js ''questions'', JArr vs)] | _ \<Rightarrow> v)
      in if \<not> isObject (Some v) then Inl noSpecification
         else
           (let candidate = paperRoot v
            in case asArray (field candidate ''questions'') of
                 None \<Rightarrow> Inl noQuestionsList
               | Some raw \<Rightarrow>
                   (let qs = concat (map (\<lambda>(i, item). normalizeQuestion U i item) (List.enumerate 0 (sliceTo 50 raw)))
                    in if qs = [] then Inl noUsableQuestions
                       else Inr
                         \<lparr>instructions =
                            (case asArray (field candidate ''instructions'') of
                               Some ins \<Rightarrow>
                                 sliceTo 12 (filter (\<lambda>s. s \<noteq> []) (map (\<lambda>item. sliceTo 1000 (cleanModelText (Some item) [])) ins))
                             | None \<Rightarrow> []),
                          questions = qs\<rparr>)))"

section \<open>Repair and recovery of damaged JSON\<close>

definition jsonFenceRx :: rx where
  "jsonFenceRx = seqs [Bol, lit ''```'', Opt (liti ''json''), Star True rx_s]"

definition lastIndexOf :: "int \<Rightarrow> jsstring \<Rightarrow> int" where
  "lastIndexOf c s = (let i = findIndex (\<lambda>x. x = c) (rev s) in if i < 0 then - 1 else int (length s) - 1 - i)"

definition extractJsonObject :: "jsstring \<Rightarrow> jsstring + jsstring" where
  "extractJsonObject v =
     (let cleaned = trim (replaceFirst closeFenceRx (\<lambda>_. []) (replaceFirst jsonFenceRx (\<lambda>_. []) v));
          start = findIndex (\<lambda>c. c = 123) cleaned;
          end = lastIndexOf 125 cleaned
      in if start < 0 \<or> end \<le> start then Inl noStructuredData
         else Inr (sliceTo (end + 1 - start) (drop (nat start) cleaned)))"

definition isEscapable :: "int \<Rightarrow> bool" where
  "isEscapable c \<longleftrightarrow> c \<in> set ([34, 92] @ js ''/bfnrtu'')"

fun repairLoop :: "bool \<Rightarrow> bool \<Rightarrow> jsstring \<Rightarrow> jsstring" where
  "repairLoop inString escaped [] = (if escaped then [92, 92] else [])"
| "repairLoop inString escaped (c # s) =
     (if \<not> inString then c # repairLoop (c = 34) escaped s
      else if escaped then (if isEscapable c then [92, c] else [92, 92, c]) @ repairLoop inString False s
      else if c = 92 then repairLoop inString True s
      else if c = 34 then c # repairLoop False escaped s
      else if c = 10 then js [CHR 0x5C, CHR ''n''] @ repairLoop inString escaped s
      else if c = 13 then js [CHR 0x5C, CHR ''r''] @ repairLoop inString escaped s
      else if c = 9 then js [CHR 0x5C, CHR ''t''] @ repairLoop inString escaped s
      else c # repairLoop inString escaped s)"

definition trailingCommaRx :: rx where
  "trailingCommaRx = seqs [chr 44, Star True rx_s, Grp 1 (Cls (\<lambda>c. c = 125 \<or> c = 93))]"

definition repairCommonJsonIssues :: "jsstring \<Rightarrow> jsstring" where
  "repairCommonJsonIssues v = replaceAll trailingCommaRx (\<lambda>m. capStr m 1) (repairLoop False False v)"

type_synonym json_parser = "jsstring \<Rightarrow> jsstring + json"

text \<open>The text from \<open>objectStart\<close> to the current character is kept, reversed, in place of the index.\<close>

definition parseFragment :: "json_parser \<Rightarrow> jsstring \<Rightarrow> json list" where
  "parseFragment parse fragment =
     (case parse fragment of
        Inr v \<Rightarrow> [v]
      | Inl _ \<Rightarrow> (case parse (repairCommonJsonIssues fragment) of Inr v \<Rightarrow> [v] | Inl _ \<Rightarrow> []))"

fun recoverLoop :: "json_parser \<Rightarrow> jsstring \<Rightarrow> jsstring option \<Rightarrow> nat \<Rightarrow> bool \<Rightarrow> bool \<Rightarrow> json list" where
  "recoverLoop parse [] obj depth inString escaped = []"
| "recoverLoop parse (c # s) obj depth inString escaped =
     (let obj' = map_option (\<lambda>t. c # t) obj in
      if inString then
        (if escaped then recoverLoop parse s obj' depth inString False
         else if c = 92 then recoverLoop parse s obj' depth inString True
         else if c = 34 then recoverLoop parse s obj' depth False escaped
         else recoverLoop parse s obj' depth inString escaped)
      else if c = 34 then recoverLoop parse s obj' depth True escaped
      else if c = 123 then
        recoverLoop parse s (if depth = 0 then Some [c] else obj') (depth + 1) inString escaped
      else if c = 125 \<and> depth > 0 then
        (case (depth = 1, obj') of
           (True, Some t) \<Rightarrow> parseFragment parse (rev t) @ recoverLoop parse s None 0 inString escaped
         | _ \<Rightarrow> recoverLoop parse s obj' (depth - 1) inString escaped)
      else if c = 93 \<and> depth = 0 then []
      else recoverLoop parse s obj' depth inString escaped)"

definition questionsStartRx :: rx where
  "questionsStartRx = seqs [Cls (\<lambda>c. c = 34 \<or> c = 39), liti ''questions'', Cls (\<lambda>c. c = 34 \<or> c = 39),
     Star True rx_s, chr 58, Star True rx_s, chr 91]"

definition recoverCompleteQuestions :: "js_env \<Rightarrow> json_parser \<Rightarrow> jsstring \<Rightarrow> jsstring + generated_paper option" where
  "recoverCompleteQuestions U parse v =
     (case rexec questionsStartRx v of
        None \<Rightarrow> Inr None
      | Some m \<Rightarrow>
          (let qs = recoverLoop parse (mRest m) None 0 False False
           in if qs = [] then Inr None
              else (case normalizeGeneratedPaper U (JObj [(js ''instructions'', JArr []), (js ''questions'', JArr qs)]) of
                      Inl e \<Rightarrow> Inl e | Inr p \<Rightarrow> Inr (Some p))))"

definition recoverOrFail :: "js_env \<Rightarrow> json_parser \<Rightarrow> jsstring \<Rightarrow> jsstring + generated_paper" where
  "recoverOrFail U parse v =
     (case recoverCompleteQuestions U parse v of
        Inl e \<Rightarrow> Inl e | Inr (Some p) \<Rightarrow> Inr p | Inr None \<Rightarrow> Inl malformedPaper)"

definition parseAndNormalize :: "js_env \<Rightarrow> json_parser \<Rightarrow> jsstring \<Rightarrow> jsstring + generated_paper" where
  "parseAndNormalize U parse text =
     (case parse text of Inl e \<Rightarrow> Inl e | Inr v \<Rightarrow> normalizeGeneratedPaper U v)"

definition contentErrorRx :: rx where
  "contentErrorRx = alts [lit ''AI response'', lit ''questions'', lit ''paper specification'']"

definition parseGeneratedPaperResponse :: "js_env \<Rightarrow> json_parser \<Rightarrow> jsstring \<Rightarrow> jsstring + generated_paper" where
  "parseGeneratedPaperResponse U parse v =
     (case extractJsonObject v of
        Inl _ \<Rightarrow> recoverOrFail U parse v
      | Inr text \<Rightarrow>
          (case parseAndNormalize U parse text of
             Inr p \<Rightarrow> Inr p
           | Inl message \<Rightarrow>
               if rtest contentErrorRx message then Inl message
               else (case parseAndNormalize U parse (repairCommonJsonIssues text) of
                       Inr p \<Rightarrow> Inr p
                     | Inl _ \<Rightarrow> recoverOrFail U parse v)))"

section \<open>The two texts of a paper\<close>

definition paperTotalMarks :: "generated_paper \<Rightarrow> rat" where
  "paperTotalMarks p = foldl (\<lambda>total q. total + marks q) 0 (questions p)"

abbreviation nonEmpty :: "jsstring list \<Rightarrow> jsstring list" where
  "nonEmpty ss \<equiv> filter (\<lambda>s. s \<noteq> []) ss"

definition boardDetails :: "paper_metadata \<Rightarrow> jsstring list" where
  "boardDetails md = nonEmpty
     [boardName (board md),
      if syllabusCode md \<noteq> [] then js ''Syllabus '' @ syllabusCode md else [],
      year md, session md,
      if paperVariant md \<noteq> [] then js ''Paper '' @ paperVariant md else []]"

definition metadataLines :: "js_env \<Rightarrow> paper_metadata \<Rightarrow> jsstring list" where
  "metadataLines U md = nonEmpty
     [orElse (trim (title md)) (js ''Question paper''),
      trim (subject md),
      joinWith (js '' | '') (boardDetails md),
      if durationMinutes md > 0 then js ''Time allowed: '' @ numToString U (durationMinutes md) @ js '' minutes'' else [],
      if sources md \<noteq> [] then js ''Sources: '' @ sourceSummary (sources md) else []]"

text \<open>\<open>for (let line = 0; line < n; line += 1)\<close> runs \<open>max 0 (ceiling n)\<close> times.\<close>

definition blankLines :: "rat \<Rightarrow> jsstring list" where
  "blankLines n = replicate (nat (mathCeil n)) []"

definition bracketed :: "js_env \<Rightarrow> rat \<Rightarrow> jsstring" where
  "bracketed U m = js '' ['' @ numToString U m @ js '']''"

definition questionLines :: "js_env \<Rightarrow> nat \<Rightarrow> paper_question \<Rightarrow> jsstring list" where
  "questionLines U index q =
     [[], showInt (int index + 1) @ js ''. '' @ prompt q @ bracketed U (marks q)] @
     (case diagram q of None \<Rightarrow> [] | Some d \<Rightarrow> [js ''[Diagram: '' @ orElse (caption d) (alt d) @ js '']'']) @
     concat (map (\<lambda>part. (js ''   ('' @ part_label part @ js '') '' @ part_prompt part @ bracketed U (part_marks part)) #
                     blankLines (part_workingLines part)) (subparts q)) @
     (if subparts q = [] then blankLines (workingLines q) else [])"

definition questionPaperText :: "js_env \<Rightarrow> paper_metadata \<Rightarrow> generated_paper \<Rightarrow> jsstring" where
  "questionPaperText U md p =
     trim (joinWith [10]
       (metadataLines U md @
        (if instructions p \<noteq> [] then [[], js ''Instructions''] @ map (\<lambda>i. js ''- '' @ i) (instructions p) else []) @
        concat (map (\<lambda>(i, q). questionLines U i q) (List.enumerate 0 (questions p)))))"

definition schemeLines :: "js_env \<Rightarrow> paper_scheme option \<Rightarrow> jsstring \<Rightarrow> jsstring list" where
  "schemeLines U sch indent =
     (case sch of
        None \<Rightarrow> []
      | Some sc \<Rightarrow>
          map (\<lambda>pt. indent @ js ''- '' @ point_text pt @ bracketed U (point_marks pt)) (markingPoints sc) @
          (if acceptedAlternatives sc \<noteq> []
           then [indent @ js ''Also accept: '' @ joinWith (js ''; '') (acceptedAlternatives sc)] else []) @
          (if guidance sc \<noteq> [] then [indent @ js ''Guidance: '' @ guidance sc] else []))"

definition answerLines :: "js_env \<Rightarrow> nat \<Rightarrow> paper_question \<Rightarrow> jsstring list" where
  "answerLines U index q =
     [[], if subparts q \<noteq> []
          then showInt (int index + 1) @ js ''. '' @ prompt q @ bracketed U (marks q)
          else showInt (int index + 1) @ js ''. '' @ orElse (answer q) (js ''No answer supplied.'') @ bracketed U (marks q)] @
     schemeLines U (Some (scheme q)) (js ''   '') @
     concat (map (\<lambda>part. (js ''   ('' @ part_label part @ js '') '' @
                       orElse (part_answer part) (js ''No answer supplied.'') @ bracketed U (part_marks part)) #
                     schemeLines U (Some (part_scheme part)) (js ''      '')) (subparts q)) @
     (if source q \<noteq> [] then [js ''   Source note: '' @ source q] else [])"

definition answerKeyText :: "js_env \<Rightarrow> paper_metadata \<Rightarrow> generated_paper \<Rightarrow> jsstring" where
  "answerKeyText U md p =
     trim (joinWith [10]
       (nonEmpty [orElse (trim (title md)) (js ''Question paper'') @ js '' - Marking scheme'', trim (subject md),
          boardName (board md), js ''Teacher copy. Do not give this to students.''] @
        concat (map (\<lambda>(i, q). answerLines U i q) (List.enumerate 0 (questions p)))))"

section \<open>Papers saved as plain text\<close>

text \<open>\<open>split(/\r?\n/)\<close>: one carriage return before a line feed goes with it.\<close>

fun dropCr :: "jsstring list \<Rightarrow> jsstring list" where
  "dropCr [] = []"
| "dropCr [l] = [l]"
| "dropCr (l # m # ls) = (if l \<noteq> [] \<and> last l = 13 then butlast l else l) # dropCr (m # ls)"

definition splitLines :: "jsstring \<Rightarrow> jsstring list" where
  "splitLines s = dropCr (splitOn 10 s)"

definition numberRx3 :: rx where "numberRx3 = Seq rx_d (upTo 2 rx_d)"

definition answerLineRx :: rx where
  "answerLineRx = seqs [Bol, Star True rx_s, Grp 1 numberRx3, anyOf '').:-|'', Star True rx_s,
     Grp 2 (LazyPlus rx_dot), Star True rx_s, Eol]"

definition tableLineRx :: rx where
  "tableLineRx = seqs [Bol, Star True rx_s, Opt (chr 124), Star True rx_s, Grp 1 numberRx3, Star True rx_s, chr 124,
     Star True rx_s, Grp 2 numberRx3, Star True rx_s, chr 124, Star True rx_s, Grp 3 (LazyPlus rx_dot), Star True rx_s,
     Opt (chr 124), Star True rx_s, Eol]"

definition plainLineRx :: rx where
  "plainLineRx = seqs [Bol, Star True rx_s, Opt (Seq (lit ''question'') (Star True rx_s)), Grp 1 numberRx3, anyOf '').:'',
     Star True rx_s, Grp 2 (LazyPlus rx_dot), Opt (seqs [Star True rx_s, chr 91, Grp 3 numberRx3, chr 93]), Star True rx_s, Eol]"

definition headingPromptRx :: rx where
  "headingPromptRx = Alt (Seq Bol (liti ''marks'')) (Seq (liti ''question'') Eol)"

definition legacyAnswers :: "jsstring \<Rightarrow> (int \<times> jsstring) list" where
  "legacyAnswers answerText =
     fold (\<lambda>line m. case rexec answerLineRx line of
             None \<Rightarrow> m
           | Some r \<Rightarrow> mapSet (readDigits (capStr r 1)) (cleanModelText (map_option JStr (cap r 2)) []) m)
       (splitLines answerText) []"

definition legacyQuestion :: "js_env \<Rightarrow> (int \<times> jsstring) list \<Rightarrow> nat \<Rightarrow> jsstring \<Rightarrow> paper_question option" where
  "legacyQuestion U answers count line =
     (let build = (\<lambda>number m p.
            if p = [] \<or> rtest headingPromptRx p then None
            else Some \<lparr>question_id = safeId count, prompt = p, marks = m,
                   answer = (case map_of answers number of Some a \<Rightarrow> a | None \<Rightarrow> []),
                   workingLines = defaultLines m, subparts = [], diagram = None, source = [], scheme = EMPTY_SCHEME\<rparr>)
      in case rexec tableLineRx line of
           Some t \<Rightarrow> build (readDigits (capStr t 1)) (of_int (readDigits (capStr t 2)))
                       (cleanModelText (map_option JStr (cap t 3)) [])
         | None \<Rightarrow>
             (case rexec plainLineRx line of
                None \<Rightarrow> None
              | Some r \<Rightarrow> build (readDigits (capStr r 1)) (numeric U (map_option JStr (cap r 3)) 1 1 100)
                            (cleanModelText (map_option JStr (cap r 2)) [])))"

definition legacyQuestions :: "js_env \<Rightarrow> (int \<times> jsstring) list \<Rightarrow> jsstring list \<Rightarrow> paper_question list" where
  "legacyQuestions U answers ls =
     fold (\<lambda>line qs. case legacyQuestion U answers (length qs) line of None \<Rightarrow> qs | Some q \<Rightarrow> qs @ [q]) ls []"

definition legacySkipRx :: rx where
  "legacySkipRx = alts [seqs [Bol, liti ''source'', Opt (liti ''s''), chr 58], Seq Bol (liti ''subject:''),
     Seq Bol (liti ''student section'')]"

definition legacyPaperToSpec :: "js_env \<Rightarrow> jsstring \<Rightarrow> jsstring \<Rightarrow> generated_paper" where
  "legacyPaperToSpec U questionText answerText =
     (let qs = legacyQuestions U (legacyAnswers answerText) (splitLines questionText)
      in if qs \<noteq> [] then \<lparr>instructions = [], questions = qs\<rparr>
         else
           (let cleaned = sliceTo 8000 (joinWith [32]
                  (filter (\<lambda>line. trim line \<noteq> [] \<and> \<not> rtest legacySkipRx line)
                     (splitLines (cleanModelText (Some (JStr questionText)) []))))
            in \<lparr>instructions = [],
                questions =
                  (if cleaned \<noteq> []
                   then [\<lparr>question_id = safeId 0, prompt = cleaned, marks = 1,
                          answer = cleanModelText (Some (JStr answerText)) [], workingLines = 3, subparts = [],
                          diagram = None, source = [], scheme = EMPTY_SCHEME\<rparr>]
                   else [])\<rparr>))"

section \<open>Links and prompts\<close>

text \<open>\<open>None\<close> is the \<open>URIError\<close> of a text that is not well-formed UTF-16.\<close>

definition officialSourceUrl :: "exam_board \<Rightarrow> jsstring \<Rightarrow> jsstring \<Rightarrow> jsstring \<Rightarrow> jsstring option" where
  "officialSourceUrl b code subj yr =
     map_option (\<lambda>query.
        if b = CIE \<or> b = IGCSE then js ''https://www.cambridgeinternational.org/search-results/?query='' @ query
        else if b = CBSE then js ''https://cbseacademic.nic.in/sqp_archive.html''
        else js ''https://cisce.org/?s='' @ query)
       (encodeURIComponent (joinWith [32] (nonEmpty [code, subj, yr, js ''past papers specimen''])))"

definition difficultyPrompt :: "difficulty_level \<Rightarrow> jsstring" where
  "difficultyPrompt l = (case l of
      Level1 \<Rightarrow> js ''Use direct recall and one-step applications, but avoid trivial arithmetic repetition.''
    | Level2 \<Rightarrow> js ''Use familiar contexts with two-step reasoning and a balanced mix of knowledge and application.''
    | Level3 \<Rightarrow> js ''Match real board-exam demand: multi-step application, data interpretation and precise command words; keep pure recall below 30 percent.''
    | Level4 \<Rightarrow> js ''Use unfamiliar contexts, linked concepts, explanation and evaluation at the upper end of the selected board's normal demand.''
    | Level5 \<Rightarrow> js ''Create stretch questions above routine exam demand, requiring synthesis, assumptions, justification and error analysis while remaining inside the syllabus.'')"

end
