(* ===== verification/Paper_Wellformed.thy ===== *)
theory Paper_Wellformed
  imports Paper_Logic
begin

text \<open>
  What a paper is after normalisation: the invariant \<open>wfPaper\<close> of the data the teacher app works
  with, and that the normaliser, the repair and the recovery of \<open>paperLogic.ts\<close> establish it
  whatever the language model answered.
\<close>

section \<open>The invariant\<close>

definition whole :: "rat \<Rightarrow> bool" where
  "whole q \<longleftrightarrow> of_int \<lfloor>q\<rfloor> = q"

definition between :: "rat \<Rightarrow> rat \<Rightarrow> rat \<Rightarrow> bool" where
  "between lo hi q \<longleftrightarrow> lo \<le> q \<and> q \<le> hi \<and> whole q"

definition textUpTo :: "int \<Rightarrow> jsstring \<Rightarrow> bool" where
  "textUpTo n s \<longleftrightarrow> int (length s) \<le> n"

definition wfPoint :: "rat \<Rightarrow> paper_marking_point \<Rightarrow> bool" where
  "wfPoint m pt \<longleftrightarrow> point_text pt \<noteq> [] \<and> textUpTo 600 (point_text pt) \<and> between 0 (max 1 m) (point_marks pt)"

definition wfScheme :: "rat \<Rightarrow> paper_scheme \<Rightarrow> bool" where
  "wfScheme m sc \<longleftrightarrow> length (markingPoints sc) \<le> 20 \<and> (\<forall>pt \<in> set (markingPoints sc). wfPoint m pt) \<and>
     length (acceptedAlternatives sc) \<le> 20 \<and>
     (\<forall>s \<in> set (acceptedAlternatives sc). s \<noteq> [] \<and> textUpTo 400 s) \<and> textUpTo 2000 (guidance sc)"

definition wfSubpart :: "paper_subpart \<Rightarrow> bool" where
  "wfSubpart part \<longleftrightarrow> part_prompt part \<noteq> [] \<and> textUpTo 4000 (part_prompt part) \<and> textUpTo 5 (part_label part) \<and>
     between 1 50 (part_marks part) \<and> textUpTo 8000 (part_answer part) \<and> between 0 12 (part_workingLines part) \<and>
     wfScheme (part_marks part) (part_scheme part)"

definition wfDiagram :: "paper_diagram \<Rightarrow> bool" where
  "wfDiagram d \<longleftrightarrow> rtest dataUrlRx (imageDataUrl d) \<and> textUpTo 7000000 (imageDataUrl d) \<and>
     textUpTo 240 (caption d) \<and> textUpTo 240 (alt d)"

definition wfQuestion :: "paper_question \<Rightarrow> bool" where
  "wfQuestion q \<longleftrightarrow> question_id q \<noteq> [] \<and> textUpTo 80 (question_id q) \<and> prompt q \<noteq> [] \<and> textUpTo 8000 (prompt q) \<and>
     between 1 600 (marks q) \<and> textUpTo 12000 (answer q) \<and> between 0 14 (workingLines q) \<and>
     length (subparts q) \<le> 12 \<and> (\<forall>part \<in> set (subparts q). wfSubpart part) \<and>
     (if subparts q = [] then marks q \<le> 100 else marks q = sum_list (map part_marks (subparts q))) \<and>
     (\<forall>d. diagram q = Some d \<longrightarrow> wfDiagram d) \<and> textUpTo 300 (source q) \<and> wfScheme (marks q) (scheme q)"

definition wfPaper :: "generated_paper \<Rightarrow> bool" where
  "wfPaper p \<longleftrightarrow> questions p \<noteq> [] \<and> length (questions p) \<le> 50 \<and> (\<forall>q \<in> set (questions p). wfQuestion q) \<and>
     length (instructions p) \<le> 12 \<and> (\<forall>s \<in> set (instructions p). s \<noteq> [] \<and> textUpTo 1000 s)"

section \<open>Helpers\<close>

lemma whole_of_int [simp]: "whole (of_int n)"
  by (simp add: whole_def)

lemma whole_numeral [simp]: "whole 0" "whole 1" "whole (numeral k)"
  by (simp_all add: whole_def)

lemma whole_max_min [simp]: "whole a \<Longrightarrow> whole b \<Longrightarrow> whole (max a b)" "whole a \<Longrightarrow> whole b \<Longrightarrow> whole (min a b)"
  by (simp_all add: max_def min_def)

lemma whole_add: "whole a \<Longrightarrow> whole b \<Longrightarrow> whole (a + b)"
  unfolding whole_def by (metis floor_of_int of_int_add)

lemma whole_sum_list: "\<forall>x \<in> set xs. whole x \<Longrightarrow> whole (sum_list xs)"
  by (induction xs) (auto intro: whole_add)

lemma textUpTo_sliceTo [simp]: "0 \<le> n \<Longrightarrow> textUpTo n (sliceTo n s)"
  by (simp add: textUpTo_def length_sliceTo)

lemma textUpTo_Nil [simp]: "0 \<le> n \<Longrightarrow> textUpTo n []"
  by (simp add: textUpTo_def)

lemma numeric_between:
  assumes "lo \<le> fallback" "fallback \<le> hi" "whole lo" "whole hi" "whole fallback"
  shows "between lo hi (numeric U v fallback lo hi)"
  using assms by (auto simp: numeric_def between_def split: jsnum.splits)

lemma defaultLines_bounds: "0 \<le> defaultLines m" "defaultLines m \<le> 14" "whole (defaultLines m)"
  by (simp_all add: defaultLines_def)

lemma length_concat_at_most_one:
  "(\<And>x. length (f x) \<le> 1) \<Longrightarrow> length (concat (map f xs)) \<le> length xs"
proof (induction xs)
  case (Cons x xs)
  have "length (concat (map f xs)) \<le> length xs" by (rule Cons.IH) (rule Cons.prems)
  then show ?case using Cons.prems [of x] by simp
qed simp

lemma length_sliceTo_le: "length (sliceTo n s) \<le> nat n"
  by (simp add: sliceTo_take)

lemma foldl_marks: "foldl (\<lambda>total x. total + f x) a xs = a + sum_list (map f xs)" for a :: rat
  by (induction xs arbitrary: a) simp_all

lemma sum_list_between:
  assumes "\<forall>x \<in> set xs. lo \<le> f x \<and> f x \<le> hi"
  shows "of_nat (length xs) * lo \<le> sum_list (map f xs) \<and> sum_list (map f xs) \<le> of_nat (length xs) * (hi :: rat)"
  using assms by (induction xs) (auto simp: algebra_simps intro: add_mono)

section \<open>The normaliser establishes the invariant\<close>

lemma normalizePoint_wf: "pt \<in> set (normalizePoint U m item) \<Longrightarrow> whole m \<Longrightarrow> wfPoint m pt"
proof -
  assume "pt \<in> set (normalizePoint U m item)" and m: "whole m"
  moreover have "between 0 (max 1 m) (numeric U (field item ''marks'') 1 0 (max 1 m))"
    using m by (intro numeric_between) simp_all
  moreover have "between 0 (max 1 m) 1" by (simp add: between_def)
  ultimately show ?thesis
    by (auto simp: normalizePoint_def Let_def wfPoint_def split: json.splits if_splits)
qed

lemma normalizePoint_single: "length (normalizePoint U m item) \<le> 1"
  by (auto simp: normalizePoint_def Let_def split: json.splits)

text \<open>A list of cleaned texts, as the alternatives and the instructions are.\<close>

definition cleanedTexts :: "int \<Rightarrow> int \<Rightarrow> json list \<Rightarrow> jsstring list" where
  "cleanedTexts n k raw = sliceTo n (filter (\<lambda>s. s \<noteq> []) (map (\<lambda>item. sliceTo k (cleanModelText (Some item) [])) raw))"

lemma cleanedTexts_wf:
  assumes "0 \<le> k"
  shows "length (cleanedTexts n k raw) \<le> nat n" and "\<forall>s \<in> set (cleanedTexts n k raw). s \<noteq> [] \<and> textUpTo k s"
  using assms subsetD [OF set_sliceTo] by (fastforce simp: cleanedTexts_def length_sliceTo_le)+

lemma normalizePoints_wf:
  assumes "whole m"
  shows "length (concat (map (normalizePoint U m) (sliceTo 20 raw))) \<le> 20"
    and "\<forall>pt \<in> set (concat (map (normalizePoint U m) (sliceTo 20 raw))). wfPoint m pt"
  using length_concat_at_most_one [of "normalizePoint U m" "sliceTo 20 raw", OF normalizePoint_single]
    length_sliceTo_le [of 20 raw] normalizePoint_wf [OF _ assms] by auto

lemma normalizeScheme_wf:
  assumes "whole m"
  shows "wfScheme m (normalizeScheme U v m)"
proof (cases "isObject v")
  case True
  then obtain c where v: "v = Some c" by (cases v) (auto simp: isObject_def)
  let ?pts = "\<lambda>a. case asArray a of Some raw \<Rightarrow> concat (map (normalizePoint U m) (sliceTo 20 raw)) | None \<Rightarrow> []"
  let ?alts = "\<lambda>a. case asArray a of Some raw \<Rightarrow> cleanedTexts 20 400 raw | None \<Rightarrow> []"
  have "length (?pts a) \<le> 20 \<and> (\<forall>pt \<in> set (?pts a). wfPoint m pt)" for a
    using normalizePoints_wf [OF assms] by (cases "asArray a") simp_all
  moreover have "length (?alts a) \<le> 20 \<and> (\<forall>s \<in> set (?alts a). s \<noteq> [] \<and> textUpTo 400 s)" for a
    using cleanedTexts_wf [of 400 20] by (cases "asArray a") simp_all
  ultimately show ?thesis
    using True unfolding normalizeScheme_def v option.case wfScheme_def cleanedTexts_def [symmetric] by simp
next
  case False
  then show ?thesis by (cases v) (simp_all add: normalizeScheme_def wfScheme_def EMPTY_SCHEME_def)
qed

lemma normalizeSubpart_wf: "part \<in> set (normalizeSubpart U i v) \<Longrightarrow> wfSubpart part"
proof -
  assume a: "part \<in> set (normalizeSubpart U i v)"
  have m: "between 1 50 (numeric U (field v ''marks'') 1 1 50)" by (intro numeric_between) simp_all
  moreover have "between 0 12 (numeric U w 3 0 12)" for w by (intro numeric_between) simp_all
  moreover have "wfScheme (numeric U (field v ''marks'') 1 1 50) (normalizeScheme U s (numeric U (field v ''marks'') 1 1 50))" for s
    using m by (intro normalizeScheme_wf) (simp add: between_def)
  ultimately show ?thesis using a
    by (auto simp: normalizeSubpart_def Let_def wfSubpart_def split: if_splits)
qed

lemma normalizeSubpart_single: "length (normalizeSubpart U i v) \<le> 1"
  by (simp add: normalizeSubpart_def Let_def)

lemma normalizeSubparts_wf: "part \<in> set (normalizeSubparts U v) \<Longrightarrow> wfSubpart part"
  by (auto simp: normalizeSubparts_def split: option.splits dest: normalizeSubpart_wf)

lemma normalizeSubparts_length: "length (normalizeSubparts U v) \<le> 12"
proof -
  have "length (concat (map (\<lambda>(i, item). normalizeSubpart U i item) (List.enumerate 0 (sliceTo 12 vs)))) \<le> 12" for vs
    using length_concat_at_most_one [of "\<lambda>(i, item). normalizeSubpart U i item" "List.enumerate 0 (sliceTo 12 vs)"]
      length_sliceTo_le [of 12 vs] normalizeSubpart_single by (auto simp: length_enumerate)
  then show ?thesis by (auto simp: normalizeSubparts_def split: option.splits)
qed

lemma normalizeDiagram_wf: "normalizeDiagram v = Some d \<Longrightarrow> wfDiagram d"
proof -
  assume a: "normalizeDiagram v = Some d"
  have "sanitizeDiagramImageDataUrl w = [] \<or>
      rtest dataUrlRx (sanitizeDiagramImageDataUrl w) \<and> textUpTo 7000000 (sanitizeDiagramImageDataUrl w)" for w
    using order_trans [OF length_trim]
    by (fastforce simp: sanitizeDiagramImageDataUrl_def Let_def textUpTo_def split: option.splits json.splits
        intro: order_trans [OF of_nat_mono [OF length_trim]])
  moreover obtain c where "v = Some c" "imageDataUrl d \<noteq> []" "textUpTo 240 (caption d)" "textUpTo 240 (alt d)"
      "imageDataUrl d = sanitizeDiagramImageDataUrl (coalesce (field c ''imageDataUrl'') (field c ''image_data_url''))"
    using a by (auto simp: normalizeDiagram_def Let_def split: option.splits if_splits)
  ultimately show ?thesis unfolding wfDiagram_def by metis
qed

lemma safeId_length: "i < 50 \<Longrightarrow> textUpTo 80 (safeId i) \<and> safeId i \<noteq> []"
proof -
  assume "i < 50"
  then have "length (showPos (int i + 1)) \<le> Suc 1" by (intro showPos_length) simp_all
  then show ?thesis by (simp add: safeId_def showInt_def textUpTo_def js_def)
qed

definition questionMarks :: "js_env \<Rightarrow> json \<Rightarrow> paper_subpart list \<Rightarrow> rat" where
  "questionMarks U q parts =
     (if parts \<noteq> [] then foldl (\<lambda>total part. total + part_marks part) 0 parts
      else numeric U (field q ''marks'') 1 1 100)"

lemma questionMarks_wf:
  assumes "\<forall>part \<in> set parts. wfSubpart part" "length parts \<le> 12"
  shows "between 1 600 (questionMarks U q parts)"
    and "if parts = [] then questionMarks U q parts \<le> 100 else questionMarks U q parts = sum_list (map part_marks parts)"
proof -
  have n: "between 1 100 (numeric U (field q ''marks'') 1 1 100)" by (intro numeric_between) simp_all
  have s: "of_nat (length parts) * 1 \<le> sum_list (map part_marks parts)"
      "sum_list (map part_marks parts) \<le> of_nat (length parts) * 50"
    using sum_list_between [of parts 1 part_marks 50] assms(1) by (auto simp: wfSubpart_def between_def)
  have l: "(of_nat (length parts) :: rat) \<le> 12" using assms(2) by simp
  have w: "whole (sum_list (map part_marks parts))"
    using assms(1) by (intro whole_sum_list) (auto simp: wfSubpart_def between_def)
  show "between 1 600 (questionMarks U q parts)"
  proof (cases "parts = []")
    case True
    then show ?thesis using n by (simp add: questionMarks_def between_def)
  next
    case False
    then have "(1 :: rat) \<le> of_nat (length parts)" by (cases parts) auto
    then show ?thesis using False s l w by (simp add: questionMarks_def between_def foldl_marks)
  qed
  show "if parts = [] then questionMarks U q parts \<le> 100 else questionMarks U q parts = sum_list (map part_marks parts)"
    using n by (simp add: questionMarks_def between_def foldl_marks)
qed

lemma normalizeQuestion_wf:
  assumes "x \<in> set (normalizeQuestion U i q)" and "i < 50"
  shows "wfQuestion x"
proof -
  define parts where "parts = normalizeSubparts U (coalesce (field q ''subparts'') (field q ''parts''))"
  define m where "m = questionMarks U q parts"
  have p: "\<forall>part \<in> set parts. wfSubpart part" "length parts \<le> 12"
    by (auto simp: parts_def normalizeSubparts_length dest: normalizeSubparts_wf)
  note m = questionMarks_wf [OF p, of U q, folded m_def]
  have w: "whole m" using m(1) by (simp add: between_def)
  have l: "between 0 14 (numeric U v (defaultLines m) 0 14)" for v
    by (intro numeric_between defaultLines_bounds) simp_all
  have d: "\<forall>d. normalizeDiagram v = Some d \<longrightarrow> wfDiagram d" for v using normalizeDiagram_wf by blast
  let ?id = "orElse (sliceTo 80 (cleanModelText (field q ''id'') (safeId i))) (safeId i)"
  have id: "?id \<noteq> [] \<and> textUpTo 80 ?id" using safeId_length [OF assms(2)] by (simp add: orElse_def)
  let ?prompt = "sliceTo 8000 (cleanModelText (coalesce (field q ''prompt'') (field q ''question'')) [])"
  have x: "?prompt \<noteq> []" "x = \<lparr>question_id = ?id, prompt = ?prompt, marks = m,
      answer = sliceTo 12000 (cleanModelText (field q ''answer'') []),
      workingLines = numeric U (coalesce (field q ''working_lines'') (field q ''workingLines'')) (defaultLines m) 0 14,
      subparts = parts, diagram = normalizeDiagram (field q ''diagram''),
      source = sliceTo 300 (cleanModelText (field q ''source'') []), scheme = normalizeScheme U (schemeOf q) m\<rparr>"
    using assms(1) unfolding normalizeQuestion_def Let_def parts_def [symmetric] questionMarks_def [symmetric] m_def
    by (simp_all split: if_splits)
  show ?thesis
    unfolding wfQuestion_def x(2) using x(1) id m l p d normalizeScheme_wf [OF w] by simp
qed

lemma normalizeQuestion_single: "length (normalizeQuestion U i v) \<le> 1"
  by (simp add: normalizeQuestion_def Let_def)

lemma normalizeQuestions_wf:
  assumes "qs = concat (map (\<lambda>(i, item). normalizeQuestion U i item) (List.enumerate 0 (sliceTo 50 raw)))"
  shows "length qs \<le> 50" and "\<forall>q \<in> set qs. wfQuestion q"
proof -
  have len: "length (sliceTo 50 raw) \<le> 50" using length_sliceTo_le [of 50 raw] by simp
  have single: "length ((\<lambda>(i, item). normalizeQuestion U i item) x) \<le> 1" for x
    using normalizeQuestion_single by (cases x) simp
  show "length qs \<le> 50"
    using length_concat_at_most_one [of "\<lambda>(i, item). normalizeQuestion U i item" "List.enumerate 0 (sliceTo 50 raw)", OF single] len
    unfolding assms by (simp only: length_enumerate)
  have "i < 50" if "(i, v) \<in> set (List.enumerate 0 (sliceTo 50 raw))" for i v
    using that len by (auto simp: in_set_enumerate_eq)
  then show "\<forall>q \<in> set qs. wfQuestion q" unfolding assms using normalizeQuestion_wf by fastforce
qed

lemma normalizeGeneratedPaper_cases:
  assumes "normalizeGeneratedPaper U v = Inr p"
  obtains c raw where "questions p = concat (map (\<lambda>(i, item). normalizeQuestion U i item) (List.enumerate 0 (sliceTo 50 raw)))"
    "questions p \<noteq> []" "asArray (field c ''questions'') = Some raw"
    "instructions p = (case asArray (field c ''instructions'') of Some ins \<Rightarrow> cleanedTexts 12 1000 ins | None \<Rightarrow> [])"
proof -
  define w where "w = (case v of JArr vs \<Rightarrow> JObj [(js ''questions'', JArr vs)] | _ \<Rightarrow> v)"
  define c where "c = paperRoot w"
  have i: "isObject (Some w)" using assms unfolding normalizeGeneratedPaper_def w_def [symmetric] Let_def by (simp split: if_splits)
  obtain raw where raw: "asArray (field c ''questions'') = Some raw"
    using assms i unfolding normalizeGeneratedPaper_def w_def [symmetric] Let_def c_def [symmetric] by (simp split: option.splits)
  define qs where "qs = concat (map (\<lambda>(i, item). normalizeQuestion U i item) (List.enumerate 0 (sliceTo 50 raw)))"
  have "qs \<noteq> []" "p = \<lparr>instructions = (case asArray (field c ''instructions'') of Some ins \<Rightarrow> cleanedTexts 12 1000 ins | None \<Rightarrow> []),
      questions = qs\<rparr>"
    using assms i raw unfolding normalizeGeneratedPaper_def w_def [symmetric] Let_def c_def [symmetric] cleanedTexts_def [symmetric]
    by (simp_all add: qs_def [symmetric] split: if_splits)
  then show ?thesis using that [of raw c] raw by (simp add: qs_def)
qed

lemma normalizeGeneratedPaper_wf:
  assumes "normalizeGeneratedPaper U v = Inr p"
  shows "wfPaper p"
proof (rule normalizeGeneratedPaper_cases [OF assms])
  fix c raw
  assume q: "questions p = concat (map (\<lambda>(i, item). normalizeQuestion U i item) (List.enumerate 0 (sliceTo 50 raw)))"
      "questions p \<noteq> []"
    and i: "instructions p = (case asArray (field c ''instructions'') of Some ins \<Rightarrow> cleanedTexts 12 1000 ins | None \<Rightarrow> [])"
  have "length (instructions p) \<le> 12 \<and> (\<forall>s \<in> set (instructions p). s \<noteq> [] \<and> textUpTo 1000 s)"
    unfolding i using cleanedTexts_wf [of 1000 12] by (cases "asArray (field c ''instructions'')") simp_all
  then show ?thesis unfolding wfPaper_def using normalizeQuestions_wf [OF q(1)] q(2) by blast
qed

lemma normalizeGeneratedPaper_errors:
  "normalizeGeneratedPaper U v = Inl e \<Longrightarrow> e \<in> {noSpecification, noQuestionsList, noUsableQuestions}"
  by (auto simp: normalizeGeneratedPaper_def Let_def split: if_splits option.splits)

lemma recoverOrFail_wf: "recoverOrFail U parse v = Inr p \<Longrightarrow> wfPaper p"
  by (auto simp: recoverOrFail_def recoverCompleteQuestions_def Let_def
      split: sum.splits option.splits if_splits dest: normalizeGeneratedPaper_wf)

lemma recoverOrFail_errors:
  "recoverOrFail U parse v = Inl e \<Longrightarrow> e \<in> {noSpecification, noQuestionsList, noUsableQuestions, malformedPaper}"
  by (auto simp: recoverOrFail_def recoverCompleteQuestions_def Let_def
      split: sum.splits option.splits if_splits dest: normalizeGeneratedPaper_errors)

lemma parseAndNormalize_wf: "parseAndNormalize U parse s = Inr p \<Longrightarrow> wfPaper p"
  by (auto simp: parseAndNormalize_def split: sum.splits dest: normalizeGeneratedPaper_wf)

section \<open>Properties\<close>

text \<open>A response and a parser that reads it, for the witnesses.\<close>

definition sampleText :: jsstring where
  "sampleText = js ''{`questions`:[{`prompt`:`Define power.`,`marks`:3}]}''"

definition sampleQuestion :: json where
  "sampleQuestion = JObj [(js ''prompt'', JStr (js ''Define **power**.'')), (js ''marks'', JNum 3)]"

definition sampleParser :: json_parser where
  "sampleParser s = (if s = sampleText then Inr (JObj [(js ''questions'', JArr [sampleQuestion, JNull])])
     else Inl (js ''Unexpected token''))"

text \<open>C12: Whatever the language model answered and whatever the JSON parser makes of it, a paper that
  \<open>parseGeneratedPaperResponse\<close> returns is well formed: one to fifty questions with a prompt, whole marks
  within bounds, the marks of a question with parts being the sum of its parts, every list and text within
  its limit, and every diagram a base64 PNG or JPEG data URL.\<close>

theorem paper_response_wellformed:
  "parseGeneratedPaperResponse U parse v = Inr p \<Longrightarrow> wfPaper p"
  by (auto simp: parseGeneratedPaperResponse_def split: sum.splits if_splits
      dest: parseAndNormalize_wf recoverOrFail_wf)

theorem paper_response_wellformed_witness:
  "\<exists>p. parseGeneratedPaperResponse ascii_env sampleParser (js ''Here: '' @ sampleText) = Inr p \<and> wfPaper p \<and>
     map prompt (questions p) = [js ''Define power.'']"
proof -
  define v where "v = js ''Here: '' @ sampleText"
  define r where "r = normalizeGeneratedPaper ascii_env (JObj [(js ''questions'', JArr [sampleQuestion, JNull])])"
  have "(case r of Inr p \<Rightarrow> map prompt (questions p) = [js ''Define power.''] | Inl _ \<Rightarrow> False)"
    unfolding r_def by code_simp
  then obtain p where p: "r = Inr p" "map prompt (questions p) = [js ''Define power.'']"
    by (cases r) (simp_all only: sum.case)
  have "extractJsonObject v = Inr sampleText" unfolding v_def by code_simp
  moreover have "parseAndNormalize ascii_env sampleParser sampleText = r"
    by (simp add: parseAndNormalize_def sampleParser_def r_def)
  ultimately have "parseGeneratedPaperResponse ascii_env sampleParser v = Inr p"
    using p(1) by (simp add: parseGeneratedPaperResponse_def)
  then show ?thesis unfolding v_def [symmetric]
    by (intro exI [of _ p] conjI paper_response_wellformed [of ascii_env sampleParser v p] p(2))
qed

text \<open>When no paper comes back, the error is one of the five messages of the source, except that the JSON
  parser's own message is passed on if it happens to contain one of the phrases by which the code recognises
  its own errors; in that case neither the repair nor the recovery is tried.\<close>

theorem paper_response_errors:
  assumes "parseGeneratedPaperResponse U parse v = Inl e"
  shows "e \<in> {noSpecification, noQuestionsList, noUsableQuestions, malformedPaper} \<or>
    (\<exists>s. extractJsonObject v = Inr s \<and> parse s = Inl e \<and> rtest contentErrorRx e)"
  using assms
  by (auto simp: parseGeneratedPaperResponse_def parseAndNormalize_def split: sum.splits if_splits
      dest: normalizeGeneratedPaper_errors recoverOrFail_errors)

theorem paper_response_errors_witness:
  "parseGeneratedPaperResponse ascii_env sampleParser (js ''no paper'') = Inl malformedPaper \<and>
   (malformedPaper \<in> {noSpecification, noQuestionsList, noUsableQuestions, malformedPaper} \<or>
    (\<exists>s. extractJsonObject (js ''no paper'') = Inr s \<and> sampleParser s = Inl malformedPaper \<and>
       rtest contentErrorRx malformedPaper))"
proof -
  have "parseGeneratedPaperResponse ascii_env sampleParser (js ''no paper'') = Inl malformedPaper" by code_simp
  then show ?thesis using paper_response_errors [of ascii_env sampleParser "js ''no paper''" malformedPaper] by blast
qed

text \<open>A syntax error whose message quotes the text around the fault, and so the word
  \<open>questions\<close>, is taken for one of the code's own errors: the response is refused although the
  repaired text is a complete paper.\<close>

theorem syntax_message_blocks_repair:
  assumes "extractJsonObject v = Inr s" and "parse s = Inl message" and "strIncludes message (js ''questions'')"
    and "rtest contentErrorRx message" and "parseAndNormalize U parse (repairCommonJsonIssues s) = Inr p"
  shows "parseGeneratedPaperResponse U parse v = Inl message"
  using assms by (simp add: parseGeneratedPaperResponse_def parseAndNormalize_def)

definition brokenText :: jsstring where
  "brokenText = js ''{'' @ [34] @ js ''questions'' @ [34] @ js '':[1,],}''"

definition quotingParser :: json_parser where
  "quotingParser s =
     (if s = brokenText then Inl (js ''Unexpected token in '' @ s)
      else if s = repairCommonJsonIssues brokenText then Inr (JObj [(js ''questions'', JArr [sampleQuestion])])
      else Inl (js ''Unexpected token''))"

theorem syntax_message_blocks_repair_witness:
  "(\<exists>p. parseAndNormalize ascii_env quotingParser (repairCommonJsonIssues brokenText) = Inr p) \<and>
   parseGeneratedPaperResponse ascii_env quotingParser brokenText = Inl (js ''Unexpected token in '' @ brokenText)"
proof -
  let ?r = "parseAndNormalize ascii_env quotingParser (repairCommonJsonIssues brokenText)"
  let ?m = "js ''Unexpected token in '' @ brokenText"
  have "(case ?r of Inr p \<Rightarrow> True | Inl _ \<Rightarrow> False)" by code_simp
  then obtain p where p: "?r = Inr p" by (auto split: sum.splits)
  have "extractJsonObject brokenText = Inr brokenText" by code_simp
  moreover have "quotingParser brokenText = Inl ?m" by (simp add: quotingParser_def)
  moreover have "strIncludes ?m (js ''questions'')" "rtest contentErrorRx ?m" by code_simp+
  ultimately show ?thesis
    using syntax_message_blocks_repair [of brokenText brokenText quotingParser ?m ascii_env p] p by blast
qed

end
