(* ===== verification/Paper_Recovery.thy ===== *)
theory Paper_Recovery
  imports Paper_Wellformed
begin

text \<open>
  Damaged answers of the language model: the repair of string literals, and the recovery of the
  complete questions of an answer that was cut off.
\<close>

section \<open>String literals\<close>

text \<open>The literals of a JSON text: a backslash starts one of the legal escapes, and no raw line feed,
  carriage return or tab stands inside a literal; the text does not end after a backslash.\<close>

fun literalsOk :: "bool \<Rightarrow> bool \<Rightarrow> jsstring \<Rightarrow> bool" where
  "literalsOk inString escaped [] = (\<not> escaped)"
| "literalsOk inString escaped (c # s) =
     (if \<not> inString then literalsOk (c = 34) False s
      else if escaped then isEscapable c \<and> literalsOk True False s
      else if c = 92 then literalsOk True True s
      else if c = 34 then literalsOk False False s
      else c \<noteq> 10 \<and> c \<noteq> 13 \<and> c \<noteq> 9 \<and> literalsOk True False s)"

lemma isEscapable_simps [simp]:
  "isEscapable 92" "isEscapable 34" "isEscapable 110" "isEscapable 114" "isEscapable 116"
  by (simp_all add: isEscapable_def js_def)

definition isControl :: "int \<Rightarrow> bool" where
  "isControl c \<longleftrightarrow> c = 9 \<or> c = 10 \<or> c = 13"

text \<open>No backslash stands right before a raw line feed, carriage return or tab.\<close>

fun noEscapedControl :: "jsstring \<Rightarrow> bool" where
  "noEscapedControl [] = True"
| "noEscapedControl (c # s) = ((c = 92 \<longrightarrow> (case s of [] \<Rightarrow> True | d # _ \<Rightarrow> \<not> isControl d)) \<and> noEscapedControl s)"

lemma repairLoop_ok:
  "escaped \<longrightarrow> inString \<Longrightarrow> noEscapedControl s \<Longrightarrow> (escaped \<longrightarrow> (case s of [] \<Rightarrow> True | d # _ \<Rightarrow> \<not> isControl d)) \<Longrightarrow>
     literalsOk inString False (repairLoop inString escaped s)"
proof (induction inString escaped s rule: repairLoop.induct)
  case (2 inString escaped c s)
  then show ?case by (auto simp: js_def isControl_def)
qed (auto simp: js_def)

lemma repairLoop_id:
  "escaped \<longrightarrow> inString \<Longrightarrow> literalsOk inString escaped s \<Longrightarrow>
     repairLoop inString escaped s = (if escaped then 92 # s else s)"
proof (induction inString escaped s rule: literalsOk.induct)
  case (2 inString escaped c s)
  then show ?case by (auto split: if_splits)
qed auto

section \<open>Complete objects\<close>

text \<open>\<open>closes s d\<close>: reading \<open>s\<close> at brace depth \<open>d\<close>, the depth first comes back to zero with the last
  character; braces inside string literals do not count. \<open>staysOpen\<close>: it never does.\<close>

fun closes :: "jsstring \<Rightarrow> nat \<Rightarrow> bool \<Rightarrow> bool \<Rightarrow> bool" where
  "closes [] depth inString escaped = False"
| "closes (c # s) depth inString escaped =
     (if inString then
        (if escaped then closes s depth True False
         else if c = 92 then closes s depth True True
         else closes s depth (c \<noteq> 34) False)
      else if c = 34 then closes s depth True False
      else if c = 123 then closes s (depth + 1) False False
      else if c = 125 then (if depth = 1 then s = [] else closes s (depth - 1) False False)
      else closes s depth False False)"

fun staysOpen :: "jsstring \<Rightarrow> nat \<Rightarrow> bool \<Rightarrow> bool \<Rightarrow> bool" where
  "staysOpen [] depth inString escaped = True"
| "staysOpen (c # s) depth inString escaped =
     (if inString then
        (if escaped then staysOpen s depth True False
         else if c = 92 then staysOpen s depth True True
         else staysOpen s depth (c \<noteq> 34) False)
      else if c = 34 then staysOpen s depth True False
      else if c = 123 then staysOpen s (depth + 1) False False
      else if c = 125 then depth \<noteq> 1 \<and> staysOpen s (depth - 1) False False
      else staysOpen s depth False False)"

definition completeObject :: "jsstring \<Rightarrow> bool" where
  "completeObject s \<longleftrightarrow> (case s of [] \<Rightarrow> False | c # t \<Rightarrow> c = 123 \<and> closes t 1 False False)"

definition cutOffObject :: "jsstring \<Rightarrow> bool" where
  "cutOffObject s \<longleftrightarrow> (case s of [] \<Rightarrow> True | c # t \<Rightarrow> c = 123 \<and> staysOpen t 1 False False)"

text \<open>What stands between two objects of the array: anything but a quote, an opening brace or the bracket
  that ends the array.\<close>

definition separator :: "jsstring \<Rightarrow> bool" where
  "separator s \<longleftrightarrow> (\<forall>c \<in> set s. c \<noteq> 34 \<and> c \<noteq> 123 \<and> c \<noteq> 93)"

lemma recoverLoop_closes:
  "closes t d i e \<Longrightarrow> 0 < d \<Longrightarrow> \<not> i \<longrightarrow> \<not> e \<Longrightarrow>
     recoverLoop parse (t @ rest) (Some acc) d i e =
       parseFragment parse (rev acc @ t) @ recoverLoop parse rest None 0 False False"
proof (induction t d i e arbitrary: acc rule: closes.induct)
  case (2 c s d i e)
  show ?case
  proof (cases "i \<or> c = 34 \<or> c = 123 \<or> c \<noteq> 125")
    case True
    then show ?thesis using 2 by (auto simp: Let_def split: if_splits)
  next
    case False
    then have c: "\<not> i" "c = 125" "\<not> e" using 2 by auto
    show ?thesis
    proof (cases "d = 1")
      case True
      then show ?thesis using c "2.prems" by (simp add: Let_def)
    next
      case d: False
      then have "recoverLoop parse (s @ rest) (Some (c # acc)) (d - 1) False False =
          parseFragment parse (rev (c # acc) @ s) @ recoverLoop parse rest None 0 False False"
        using c 2 by simp
      then show ?thesis using c d "2.prems"(2) by (simp add: Let_def)
    qed
  qed
qed simp

lemma recoverLoop_staysOpen:
  "staysOpen t d i e \<Longrightarrow> 0 < d \<Longrightarrow> \<not> i \<longrightarrow> \<not> e \<Longrightarrow> recoverLoop parse t (Some acc) d i e = []"
proof (induction t d i e arbitrary: acc rule: staysOpen.induct)
  case (2 c s d i e)
  show ?case
  proof (cases "i \<or> c = 34 \<or> c = 123 \<or> c \<noteq> 125")
    case True
    then show ?thesis using 2 by (auto simp: Let_def split: if_splits)
  next
    case False
    then have c: "\<not> i" "c = 125" "\<not> e" "d \<noteq> 1" using 2 by auto
    then have "recoverLoop parse s (Some (c # acc)) (d - 1) False False = []" using 2 by simp
    then show ?thesis using c "2.prems"(2) by (simp add: Let_def)
  qed
qed simp

lemma recoverLoop_separator:
  "separator s \<Longrightarrow> recoverLoop parse (s @ rest) None 0 False False = recoverLoop parse rest None 0 False False"
  by (induction s) (simp_all add: separator_def)

lemma recoverLoop_object:
  "completeObject ob \<Longrightarrow> recoverLoop parse (ob @ rest) None 0 False False =
     parseFragment parse ob @ recoverLoop parse rest None 0 False False"
  using recoverLoop_closes [of "tl ob" 1 False False parse rest "[123]"]
  by (cases ob) (auto simp: completeObject_def)

lemma recoverLoop_cutOff: "cutOffObject s \<Longrightarrow> recoverLoop parse s None 0 False False = []"
  using recoverLoop_staysOpen [of "tl s" 1 False False parse "[123]"]
  by (cases s) (auto simp: cutOffObject_def)

lemma recoverLoop_objects:
  assumes "\<forall>(sep, ob) \<in> set parts. separator sep \<and> completeObject ob" and "separator sep" and "cutOffObject rest"
  shows "recoverLoop parse (concat (map (\<lambda>(sep, ob). sep @ ob) parts) @ sep @ rest) None 0 False False =
    concat (map (\<lambda>(sep, ob). parseFragment parse ob) parts)"
  using assms(1)
proof (induction parts)
  case Nil
  show ?case using recoverLoop_separator [OF assms(2)] recoverLoop_cutOff [OF assms(3)] by simp
next
  case (Cons p parts)
  then show ?case by (cases p) (simp add: recoverLoop_separator recoverLoop_object)
qed

section \<open>Properties\<close>

text \<open>The repair leaves a text whose string literals are legal as it is and makes the literals of every
  other text legal, so that a second run of its loop changes nothing; the text has no backslash right before a
  raw line feed, carriage return or tab.\<close>

theorem repair_makes_literals_legal:
  assumes "noEscapedControl s"
  shows "literalsOk False False (repairLoop False False s) \<and>
   (literalsOk False False s \<longrightarrow> repairLoop False False s = s) \<and>
   repairLoop False False (repairLoop False False s) = repairLoop False False s"
  using repairLoop_ok [of False False s] repairLoop_id [of False False] assms by simp

definition rawLiteral :: jsstring where
  "rawLiteral = [34] @ js ''2'' @ [92] @ js ''pi'' @ [10, 34]"

theorem repair_makes_literals_legal_witness:
  "\<not> literalsOk False False rawLiteral \<and> literalsOk False False (repairLoop False False rawLiteral) \<and>
   repairLoop False False rawLiteral = [34] @ js ''2'' @ [92, 92] @ js ''pi'' @ [92, 110, 34]"
proof -
  have "noEscapedControl rawLiteral" "\<not> literalsOk False False rawLiteral"
    "repairLoop False False rawLiteral = [34] @ js ''2'' @ [92, 92] @ js ''pi'' @ [92, 110, 34]" by code_simp+
  then show ?thesis using repair_makes_literals_legal [of rawLiteral] by simp
qed

text \<open>Two limits of the repair. The removal of trailing commas does not stop at string literals: a valid
  text whose question speaks of \<open>[2, 4, ]\<close> comes back with the comma gone from the question. And a backslash
  before a raw line feed becomes an escaped backslash with the raw line feed still behind it, which no JSON
  parser accepts.\<close>

theorem repair_limits:
  "(let s = js ''{'' @ [34] @ js ''prompt'' @ [34, 58, 34] @ js ''Complete [2, 4, ]'' @ [34] @ js ''}''
    in literalsOk False False s \<and>
       repairCommonJsonIssues s = js ''{'' @ [34] @ js ''prompt'' @ [34, 58, 34] @ js ''Complete [2, 4]'' @ [34] @ js ''}'') \<and>
   (let s = repairCommonJsonIssues ([34] @ js ''a'' @ [92, 10, 34])
    in s = [34] @ js ''a'' @ [92, 92, 10, 34] \<and> \<not> literalsOk False False s)"
  by code_simp

text \<open>From an answer that was cut off inside a question, exactly the complete questions before the cut are
  recovered, in order: each that parses as it is or after the repair, the others left out; they are normalised
  into the paper.\<close>

theorem recovery_returns_complete_questions:
  assumes "rexec questionsStartRx v = Some m"
    and "mRest m = concat (map (\<lambda>(sep, ob). sep @ ob) parts) @ sep @ rest"
    and "\<forall>(sep, ob) \<in> set parts. separator sep \<and> completeObject ob" and "separator sep" and "cutOffObject rest"
    and "found = concat (map (\<lambda>(sep, ob). parseFragment parse ob) parts)" and "found \<noteq> []"
  shows "recoverCompleteQuestions U parse v =
    map_sum id Some (normalizeGeneratedPaper U (JObj [(js ''instructions'', JArr []), (js ''questions'', JArr found)]))"
proof -
  have "recoverLoop parse (mRest m) None 0 False False = found"
    unfolding assms(2,6) by (rule recoverLoop_objects [OF assms(3-5)])
  then show ?thesis using assms(1,7) by (simp add: recoverCompleteQuestions_def split: sum.splits)
qed

definition quoteMarks :: "string \<Rightarrow> jsstring" where
  "quoteMarks s = map (\<lambda>c. if c = 96 then 34 else c) (js s)"

definition cutOffAnswer :: jsstring where
  "cutOffAnswer = quoteMarks ''{`questions`: [ {`prompt`:`A}`},{`prompt`:`B`, {`pro''"

definition objectParser :: json_parser where
  "objectParser s = (if s = quoteMarks ''{`prompt`:`A}`}'' then Inr (JObj [(js ''prompt'', JStr (js ''A}''))]) else Inl [])"

theorem recovery_returns_complete_questions_witness:
  "\<exists>p. recoverCompleteQuestions ascii_env objectParser cutOffAnswer = Inr (Some p) \<and> map prompt (questions p) = [js ''A}'']"
proof -
  define found where "found = [JObj [(js ''prompt'', JStr (js ''A}''))]]"
  define r where "r = normalizeGeneratedPaper ascii_env (JObj [(js ''instructions'', JArr []), (js ''questions'', JArr found)])"
  define parts where "parts = [([32] :: jsstring, quoteMarks ''{`prompt`:`A}`}'')]"
  define rest where "rest = quoteMarks ''{`prompt`:`B`, {`pro''"
  have "(case r of Inr p \<Rightarrow> map prompt (questions p) = [js ''A}''] | Inl _ \<Rightarrow> False)"
    unfolding r_def found_def by code_simp
  then obtain p where p: "r = Inr p" "map prompt (questions p) = [js ''A}'']" by (cases r) (simp_all only: sum.case)
  have "map_option mRest (rexec questionsStartRx cutOffAnswer) = Some (concat (map (\<lambda>(sep, ob). sep @ ob) parts) @ [44] @ rest)"
    unfolding parts_def rest_def by code_simp
  then obtain m where m: "rexec questionsStartRx cutOffAnswer = Some m"
    "mRest m = concat (map (\<lambda>(sep, ob). sep @ ob) parts) @ [44] @ rest" by (auto simp only: map_option_eq_Some)
  have "\<forall>(sep, ob) \<in> set parts. separator sep \<and> completeObject ob" "separator [44]" "cutOffObject rest"
    unfolding parts_def rest_def by code_simp+
  moreover have "found = concat (map (\<lambda>(sep, ob). parseFragment objectParser ob) parts)"
    by (simp add: found_def parts_def parseFragment_def objectParser_def)
  moreover have "found \<noteq> []" by (simp add: found_def)
  ultimately have "recoverCompleteQuestions ascii_env objectParser cutOffAnswer = map_sum id Some r"
    unfolding r_def by (rule recovery_returns_complete_questions [OF m])
  then show ?thesis using p by auto
qed

end
