(* ===== verification/Paper_Citations.thy ===== *)
theory Paper_Citations
  imports Paper_Logic
begin

text \<open>
  Citations, diagrams and imported papers: the page ranges that a citation prints can be read back,
  what the two diagram sanitisers let through, and the lines that the import of a plain-text paper skips.
\<close>

section \<open>Page ranges\<close>

definition rangePages :: "int \<times> int \<Rightarrow> int list" where
  "rangePages r = [fst r..snd r]"

text \<open>Reading a printed list of ranges.\<close>

definition readRange :: "jsstring \<Rightarrow> int list" where
  "readRange s = (case splitOn 45 s of
      [a] \<Rightarrow> [readDigits a..readDigits a] | [a, b] \<Rightarrow> [readDigits a..readDigits b] | _ \<Rightarrow> [])"

definition readPageRanges :: "jsstring \<Rightarrow> int list" where
  "readPageRanges s =
     (if s = [] then [] else concat (map (\<lambda>w. readRange (trim w)) (splitOn 44 (tl (dropWhile (\<lambda>c. c \<noteq> 32) s)))))"

lemma pageRanges_pages:
  "start \<le> end \<Longrightarrow> sorted_wrt (<) (end # rest) \<Longrightarrow>
     concat (map rangePages (pageRanges start end rest)) = [start..end] @ rest"
proof (induction start "end" rest rule: pageRanges.induct)
  case (1 start "end")
  then show ?case by (simp add: rangePages_def)
next
  case (2 start "end" page rest)
  have "[start..end + 1] = [start..end] @ [end + 1]" using "2.prems"(1) by (subst upto_rec2) simp_all
  moreover have "[page..page] = [page]" by simp
  ultimately show ?case using 2 by (auto simp: rangePages_def)
qed

lemma pageRanges_gaps:
  "start \<le> end \<Longrightarrow> sorted_wrt (<) (end # rest) \<Longrightarrow>
     successively (\<lambda>r s. snd r + 1 < fst s) (pageRanges start end rest) \<and> fst (hd (pageRanges start end rest)) = start \<and>
     pageRanges start end rest \<noteq> []"
proof (induction start "end" rest rule: pageRanges.induct)
  case (2 start "end" page rest)
  show ?case
  proof (cases "page = end + 1")
    case True
    then show ?thesis using 2 by simp
  next
    case False
    then have g: "end + 1 < page" using "2.prems" by simp
    have "sorted_wrt (<) (page # rest)" using "2.prems" by simp
    with False "2.IH"(2) have i: "successively (\<lambda>r s. snd r + 1 < fst s) (pageRanges page page rest)"
      "fst (hd (pageRanges page page rest)) = page" "pageRanges page page rest \<noteq> []" by simp_all
    then show ?thesis using False g by (cases "pageRanges page page rest") simp_all
  qed
qed simp

lemma pageRanges_nonneg:
  "0 \<le> start \<Longrightarrow> 0 \<le> end \<Longrightarrow> \<forall>p \<in> set rest. 0 \<le> p \<Longrightarrow> r \<in> set (pageRanges start end rest) \<Longrightarrow> 0 \<le> fst r \<and> 0 \<le> snd r"
  by (induction start "end" rest rule: pageRanges.induct) (auto split: if_splits)

lemma showPos_chars: "0 \<le> n \<Longrightarrow> \<not> isDigit c \<Longrightarrow> c \<notin> set (showPos n)"
  using showPos_digits by blast

lemma showRange_chars: "0 \<le> fst r \<Longrightarrow> 0 \<le> snd r \<Longrightarrow> \<forall>c \<in> set (showRange r). isDigit c \<or> c = 45"
  using showPos_digits by (auto simp: showRange_def showInt_def)

lemma readRange_showRange: "0 \<le> fst r \<Longrightarrow> 0 \<le> snd r \<Longrightarrow> readRange (showRange r) = rangePages r"
  by (simp add: readRange_def showRange_def showInt_def rangePages_def splitOn_absent splitOn_append showPos_chars
      isDigit_def readDigits_showPos)

lemma showRange_ends:
  assumes "0 \<le> fst r" "0 \<le> snd r"
  shows "showRange r \<noteq> [] \<and> \<not> isSpace (hd (showRange r)) \<and> \<not> isSpace (last (showRange r))"
proof -
  have "showRange r \<noteq> []" by (simp add: showRange_def showInt_def assms)
  moreover have "\<not> isSpace c" if "c \<in> set (showRange r)" for c
    using showRange_chars [OF assms] that by (auto simp: isSpace_def isDigit_def)
  ultimately show ?thesis by simp
qed

lemma trim_space_Cons: "s \<noteq> [] \<Longrightarrow> \<not> isSpace (hd s) \<Longrightarrow> trim (32 # s) = trim s"
  by (cases s) (simp_all add: trim_def trimStart_def isSpace_def)

lemma splitOn_joined:
  "\<forall>w \<in> set (w # ws). 44 \<notin> set w \<Longrightarrow> splitOn 44 (joinWith (js '', '') (w # ws)) = w # map (\<lambda>w. 32 # w) ws"
proof (induction ws arbitrary: w)
  case Nil
  then show ?case by (simp add: splitOn_absent)
next
  case (Cons v ws)
  have "splitOn 44 (32 # joinWith (js '', '') (v # ws)) = (32 # v) # map (\<lambda>w. 32 # w) ws"
    using Cons by (simp del: joinWith.simps)
  then show ?case using Cons.prems by (simp add: js_def splitOn_append)
qed

lemma read_joined_ranges:
  assumes "rs \<noteq> []" "\<forall>r \<in> set rs. 0 \<le> fst r \<and> 0 \<le> snd r"
  shows "concat (map (\<lambda>w. readRange (trim w)) (splitOn 44 (joinWith (js '', '') (map showRange rs)))) = concat (map rangePages rs)"
proof -
  obtain r rs' where r: "rs = r # rs'" using assms(1) by (cases rs) auto
  have "44 \<notin> set (showRange s)" if "s \<in> set rs" for s
    using showRange_chars [of s] assms(2) that by (auto simp: isDigit_def)
  then have "splitOn 44 (joinWith (js '', '') (map showRange rs)) = showRange r # map (\<lambda>s. 32 # showRange s) rs'"
    using splitOn_joined [of "showRange r" "map showRange rs'"] by (simp add: r comp_def)
  moreover have "readRange (trim (showRange s)) = rangePages s \<and> readRange (trim (32 # showRange s)) = rangePages s"
    if "s \<in> set rs" for s
    using showRange_ends [of s] trim_id [of "showRange s"] trim_space_Cons [of "showRange s"] readRange_showRange [of s] assms(2) that
    by auto
  ultimately show ?thesis by (simp add: r comp_def cong: map_cong)
qed

section \<open>Data URLs\<close>

definition dataUrlTail :: "rx list" where
  "dataUrlTail = [alts [liti ''png'', liti ''jpeg''], liti '';base64,'',
     Plus (Cls (\<lambda>c. isLetterI c \<or> isDigit c \<or> c = 43 \<or> c = 47)), upTo 2 (chr 61)]"

lemma dataUrlRx_split: "dataUrlRx = Seq Bol (Seq (liti ''data:image/'') (seqs (dataUrlTail @ [Eol])))"
  by (simp add: dataUrlRx_def dataUrlTail_def)

lemma asciiLowerChar_url:
  "asciiLowerChar c \<in> set (js ''data:image/pngjpeg;base64,'') \<Longrightarrow> isLetterI c \<or> isDigit c \<or> c \<in> set (js '':/;,+='')"
  by (auto simp: js_def asciiLowerChar_def isLetterI_def isUpper_def isLower_def isDigit_def split: if_splits)

lemma dataUrlTail_consumes:
  "mayConsume (seqs (dataUrlTail @ [Eol])) c \<Longrightarrow> isLetterI c \<or> isDigit c \<or> c \<in> set (js '':/;,+='')"
  using asciiLowerChar_url [of c]
  by (auto simp: dataUrlTail_def liti_def js_def Plus_def chr_def Opt_def numeral_2_eq_2)

lemma dataUrl_chars:
  assumes "rtest dataUrlRx u"
  shows "\<forall>c \<in> set u. isLetterI c \<or> isDigit c \<or> c \<in> set (js '':/;,+='')"
    and "startsWith (map asciiLowerChar u) (js ''data:image/'')"
proof -
  obtain m where "rexec dataUrlRx u = Some m" using assms by (auto simp: rtest_def)
  from rexec_Bol(1) [OF this [unfolded dataUrlRx_split]] obtain l' s' k' where
    m: "(l', s', k') \<in> set (rmatch (Seq (liti ''data:image/'') (seqs (dataUrlTail @ [Eol]))) ([], u, []))" by blast
  then obtain p where p: "p \<in> set (rmatch (liti ''data:image/'') ([], u, []))"
      "(l', s', k') \<in> set (rmatch (seqs (dataUrlTail @ [Eol])) p)" unfolding in_rmatch_Seq by blast
  obtain l1 s1 k1 where p1: "p = (l1, s1, k1)" by (rule prod_cases3)
  obtain a where a: "u = a @ s1" "map asciiLowerChar a = js ''data:image/''"
    using rmatch_caseless p(1) unfolding p1 liti_def by blast
  have "s' = []" using rmatch_seqs_Eol [OF p(2)] by simp
  then have b: "\<forall>c \<in> set s1. mayConsume (seqs (dataUrlTail @ [Eol])) c"
    using rmatch_only [OF p(2) [unfolded p1]] by auto
  have "asciiLowerChar c \<in> set (js ''data:image/'')" if "c \<in> set a" for c using that a(2) by (metis imageI set_map)
  then have "isLetterI c \<or> isDigit c \<or> c \<in> set (js '':/;,+='')" if "c \<in> set a" for c
    using asciiLowerChar_url [of c] that by (auto simp: js_def)
  then show "\<forall>c \<in> set u. isLetterI c \<or> isDigit c \<or> c \<in> set (js '':/;,+='')"
    using a(1) b dataUrlTail_consumes by auto
  show "startsWith (map asciiLowerChar u) (js ''data:image/'')" using a by simp
qed

section \<open>Properties\<close>

text \<open>The page list of a citation can be read back: the printed ranges denote exactly the cited pages, each
  once and in order, and the ranges are maximal, every one separated from the next by a page that is not cited.\<close>

theorem page_ranges_roundtrip:
  assumes "\<forall>p \<in> set ps. 0 \<le> p"
  shows "readPageRanges (compactPageRanges ps) = sort (remdups ps) \<and>
    (\<forall>p rest. sort (remdups ps) = p # rest \<longrightarrow> successively (\<lambda>r s. snd r + 1 < fst s) (pageRanges p p rest))"
proof (cases "sort (remdups ps)")
  case Nil
  then show ?thesis by (simp add: compactPageRanges_def readPageRanges_def)
next
  case (Cons p rest)
  have "sorted (p # rest)" "distinct (p # rest)" by (simp_all flip: Cons)
  then have s: "sorted_wrt (<) (p # rest)" by (simp only: strict_sorted_iff)
  have "set (p # rest) = set ps" by (simp flip: Cons)
  then have n: "0 \<le> p" "\<forall>x \<in> set rest. 0 \<le> x" using assms by auto
  let ?rs = "pageRanges p p rest" and ?w = "if length (p # rest) = 1 then js ''p.'' else js ''pp.''"
  have c: "compactPageRanges ps = ?w @ 32 # joinWith (js '', '') (map showRange ?rs)"
    using Cons by (simp add: compactPageRanges_def Let_def)
  have "dropWhile (\<lambda>c. c \<noteq> 32) (compactPageRanges ps) = 32 # joinWith (js '', '') (map showRange ?rs)"
    unfolding c by (simp add: js_def)
  then have "readPageRanges (compactPageRanges ps) =
      concat (map (\<lambda>w. readRange (trim w)) (splitOn 44 (joinWith (js '', '') (map showRange ?rs))))"
    unfolding readPageRanges_def by (simp add: c)
  also have "\<dots> = concat (map rangePages ?rs)"
    using pageRanges_gaps [OF order_refl s] pageRanges_nonneg [OF n(1) n(1) n(2)] by (intro read_joined_ranges) blast+
  also have "\<dots> = p # rest" using pageRanges_pages [OF order_refl s] by simp
  finally show ?thesis using Cons pageRanges_gaps [OF order_refl s] by simp
qed

theorem page_ranges_roundtrip_witness:
  "compactPageRanges [7, 3, 1, 2, 3] = js ''pp. 1-3, 7'' \<and> readPageRanges (compactPageRanges [7, 3, 1, 2, 3]) = [1, 2, 3, 7]"
proof -
  have "compactPageRanges [7, 3, 1, 2, 3] = js ''pp. 1-3, 7''" "sort (remdups [7, 3, 1, 2, 3]) = [1, 2, 3, 7 :: int]" by code_simp+
  then show ?thesis using page_ranges_roundtrip [of "[7, 3, 1, 2, 3]"] by simp
qed

text \<open>A diagram that passes \<open>sanitizeDiagramImageDataUrl\<close> is a text of at most seven million characters
  that consists of letters, digits and the characters of a base64 data URL, so it can neither end an
  attribute value nor open a tag; everything else becomes the empty string.\<close>

theorem data_url_characters:
  "let u = sanitizeDiagramImageDataUrl v in
   int (length u) \<le> 7000000 \<and>
   list_all (\<lambda>c. isLetterI c \<or> isDigit c \<or> c \<in> set (js '':/;,+='')) u \<and>
   (if u = [] then True else startsWith (map asciiLowerChar u) (js ''data:image/''))"
proof (cases "sanitizeDiagramImageDataUrl v = []")
  case False
  then obtain s where s: "sanitizeDiagramImageDataUrl v = trim s" "int (length s) \<le> 7000000" "rtest dataUrlRx (trim s)"
    by (auto simp: sanitizeDiagramImageDataUrl_def Let_def split: option.splits json.splits if_splits)
  have "int (length (trim s)) \<le> 7000000" using s(2) length_trim [of s] by linarith
  then show ?thesis using s(1) dataUrl_chars [OF s(3)] by (simp add: list_all_iff)
qed simp

text \<open>\<open>sanitizeDiagramSvg\<close> checks its input for forbidden elements before it removes comments, so a comment
  that splits a tag hides it: this input passes every check and comes out with a script element.\<close>

theorem svg_comment_hides_script:
  "strIncludes (sanitizeDiagramSvg (Some (JStr (js ''<svg><<!---->script>alert(1)<<!---->/script></svg>''))))
     (js ''<script>alert(1)</script>'')"
  by code_simp

text \<open>The test that skips a heading row of a plain-text paper is \<open>marks\<close> at the start or \<open>question\<close> at the
  end, so questions are lost: of the three lines here only the last survives.\<close>

theorem legacy_import_drops_questions:
  "map prompt (questions (legacyPaperToSpec ascii_env
      (joinWith [10] [js ''1. Marks are lost to friction: explain how. [4]'', js ''2. State one open research question'',
                      js ''3. Define power. [2]'']) [])) = [js ''Define power.'']"
  by code_simp

end
