(* ===== verification/Paper_Export.thy ===== *)
theory Paper_Export
  imports Paper_Logic
begin

text \<open>
  The PDF of a paper (\<open>apps/teacher/src/paperExport.ts\<close>): the characters that the standard fonts
  can show, the breaking of text into lines, and the layout of a paper on A4 pages.

  The document under construction is a state: the finished pages, the page being drawn and the
  height \<open>y\<close> of the cursor. What is drawn is a list of operations with their place; colours and
  line thickness are left out. \<open>pdf-lib\<close> and the browser are parameters, in \<open>pdf_env\<close>: the width of
  a text in a font and size, the Unicode normalisation NFKD, and what becomes of a diagram (no
  picture, a failure, or a picture with its size after \<open>scaleToFit\<close>). Lengths are exact
  rationals.
\<close>

section \<open>Text\<close>

datatype pdf_font = Regular | Bold

datatype diagram_picture = NoPicture | PictureFailed | Picture rat rat

record pdf_env =
  widthOfTextAtSize :: "pdf_font \<Rightarrow> jsstring \<Rightarrow> rat \<Rightarrow> rat"
  nfkd :: "jsstring \<Rightarrow> jsstring"
  picture :: "paper_diagram \<Rightarrow> diagram_picture"
  jsEnv :: js_env

definition A4_WIDTH :: rat where "A4_WIDTH = 59528 / 100"
definition A4_HEIGHT :: rat where "A4_HEIGHT = 84189 / 100"
definition PAGE_MARGIN :: rat where "PAGE_MARGIN = 52"
definition CONTENT_BOTTOM :: rat where "CONTENT_BOTTOM = 48"
definition contentWidth :: rat where "contentWidth = A4_WIDTH - PAGE_MARGIN * 2"

definition CHARACTER_REPLACEMENTS :: "(int \<times> string) list" where
  "CHARACTER_REPLACEMENTS =
     [(0x2018, [CHR 0x27]), (0x2019, [CHR 0x27]), (0x201c, [CHR 0x22]), (0x201d, [CHR 0x22]), (0x2013, ''-''), (0x2014, ''-''),
      (0x2026, ''...''), (0x2022, ''-''), (0x00d7, ''x''), (0x00f7, ''/''), (0x2264, ''<=''), (0x2265, ''>=''),
      (0x2260, ''!=''), (0x00b1, ''+/-''), (0x20b9, ''Rs.''), (0x03a9, ''ohm''), (0x03b1, ''alpha''), (0x03b2, ''beta''),
      (0x03b3, ''gamma''), (0x03b4, ''delta''), (0x03b8, ''theta''), (0x03bb, ''lambda''), (0x03bc, ''mu''), (0x03c0, ''pi''),
      (0x03c3, ''sigma''), (0x03c6, ''phi''), (0x03c9, ''omega''), (0x00b2, ''^2''), (0x00b3, ''^3'')]"

definition isPrintable :: "int \<Rightarrow> bool" where
  "isPrintable c \<longleftrightarrow> (32 \<le> c \<and> c \<le> 126) \<or> c = 176"

definition pdfSafeText :: "pdf_env \<Rightarrow> jsstring \<Rightarrow> jsstring" where
  "pdfSafeText P v =
     (let replaced = concat (map (\<lambda>c. case map_of CHARACTER_REPLACEMENTS c of Some t \<Rightarrow> js t | None \<Rightarrow> [c]) v)
      in map (\<lambda>c. if isPrintable c then c else 63)
           (filter (\<lambda>c. \<not> (0x0300 \<le> c \<and> c \<le> 0x036f)) (nfkd P replaced)))"

text \<open>\<open>split(/\s+/).filter(Boolean)\<close>\<close>

fun splitSpaces :: "jsstring \<Rightarrow> jsstring list" where
  "splitSpaces [] = [[]]"
| "splitSpaces (c # s) =
     (if isSpace c then [] # splitSpaces s
      else case splitSpaces s of [] \<Rightarrow> [[c]] | w # ws \<Rightarrow> (c # w) # ws)"

definition wordsOf :: "jsstring \<Rightarrow> jsstring list" where
  "wordsOf s = filter (\<lambda>w. w \<noteq> []) (splitSpaces s)"

text \<open>The loop over the characters of a word that is too wide: the fragments it pushes and the one
  it is left with.\<close>

fun breakWord :: "(jsstring \<Rightarrow> rat) \<Rightarrow> rat \<Rightarrow> jsstring \<Rightarrow> jsstring \<Rightarrow> jsstring list \<times> jsstring" where
  "breakWord width maxWidth fragment [] = ([], fragment)"
| "breakWord width maxWidth fragment (c # s) =
     (if width (fragment @ [c]) > maxWidth \<and> fragment \<noteq> []
      then (let (ls, rest) = breakWord width maxWidth [c] s in (fragment # ls, rest))
      else breakWord width maxWidth (fragment @ [c]) s)"

definition pushLine :: "jsstring \<Rightarrow> jsstring list \<Rightarrow> jsstring list" where
  "pushLine line ls = (if line \<noteq> [] then line # ls else ls)"

fun wrapWords :: "(jsstring \<Rightarrow> rat) \<Rightarrow> rat \<Rightarrow> jsstring \<Rightarrow> jsstring list \<Rightarrow> jsstring list" where
  "wrapWords width maxWidth line [] = pushLine line []"
| "wrapWords width maxWidth line (word # ws) =
     (let candidate = (if line \<noteq> [] then line @ [32] @ word else word) in
      if width candidate \<le> maxWidth then wrapWords width maxWidth candidate ws
      else if width word \<le> maxWidth then pushLine line (wrapWords width maxWidth word ws)
      else (let (ls, rest) = breakWord width maxWidth [] word
            in pushLine line (ls @ wrapWords width maxWidth rest ws)))"

definition wrapLine :: "pdf_env \<Rightarrow> jsstring \<Rightarrow> rat \<Rightarrow> pdf_font \<Rightarrow> rat \<Rightarrow> jsstring list" where
  "wrapLine P v maxWidth font sz =
     (let ws = wordsOf (trim (pdfSafeText P v))
      in if ws = [] then [[]]
         else wrapWords (\<lambda>s. widthOfTextAtSize P font s sz) maxWidth [] ws)"

section \<open>The document under construction\<close>

datatype draw_op =
    DrawText jsstring rat rat rat pdf_font
  | DrawLine rat rat rat
  | DrawImage rat rat rat rat

record pdf_state =
  donePages :: "draw_op list list"
  thisPage :: "draw_op list"
  cursor :: rat

definition draw :: "draw_op \<Rightarrow> pdf_state \<Rightarrow> pdf_state" where
  "draw d st = st\<lparr>thisPage := thisPage st @ [d]\<rparr>"

definition down :: "rat \<Rightarrow> pdf_state \<Rightarrow> pdf_state" where
  "down h st = st\<lparr>cursor := cursor st - h\<rparr>"

definition drawLines :: "pdf_font \<Rightarrow> rat \<Rightarrow> rat \<Rightarrow> rat \<Rightarrow> jsstring list \<Rightarrow> pdf_state \<Rightarrow> pdf_state" where
  "drawLines font sz x lineHeight ls st =
     fold (\<lambda>line st. down lineHeight (draw (DrawText line x (cursor st) sz font) st)) ls st"

definition drawCustomHeader :: "pdf_env \<Rightarrow> paper_metadata \<Rightarrow> pdf_state \<Rightarrow> pdf_state" where
  "drawCustomHeader P md st =
     (let header = (case headerText md of None \<Rightarrow> [] | Some h \<Rightarrow> trim h)
      in if header = [] then st
         else down 7 (drawLines Bold (85 / 10) PAGE_MARGIN 11 (wrapLine P header contentWidth Bold (85 / 10)) st))"

definition newPage :: "pdf_env \<Rightarrow> paper_metadata \<Rightarrow> pdf_state \<Rightarrow> pdf_state" where
  "newPage P md st =
     (let st = \<lparr>donePages = donePages st @ [thisPage st], thisPage = [], cursor = A4_HEIGHT - PAGE_MARGIN\<rparr>
      in if repeatHeader md then drawCustomHeader P md st else st)"

definition ensureSpace :: "pdf_env \<Rightarrow> paper_metadata \<Rightarrow> rat \<Rightarrow> pdf_state \<Rightarrow> pdf_state" where
  "ensureSpace P md height st = (if cursor st - height < CONTENT_BOTTOM then newPage P md st else st)"

text \<open>The options object of \<open>drawWrapped\<close> and \<open>wrappedHeight\<close>, with its defaults.\<close>

record text_options =
  opt_x :: rat
  opt_width :: rat
  opt_size :: rat
  opt_lineHeight :: rat
  opt_font :: pdf_font
  opt_gapAfter :: rat

definition plainText :: "rat \<Rightarrow> text_options" where
  "plainText sz = \<lparr>opt_x = PAGE_MARGIN, opt_width = contentWidth, opt_size = sz, opt_lineHeight = sz * (142 / 100),
     opt_font = Regular, opt_gapAfter = 0\<rparr>"

definition wrappedHeight :: "pdf_env \<Rightarrow> jsstring \<Rightarrow> text_options \<Rightarrow> rat" where
  "wrappedHeight P v opts =
     of_nat (length (wrapLine P v (opt_width opts) (opt_font opts) (opt_size opts))) * opt_lineHeight opts + opt_gapAfter opts"

definition drawWrapped :: "pdf_env \<Rightarrow> paper_metadata \<Rightarrow> jsstring \<Rightarrow> text_options \<Rightarrow> pdf_state \<Rightarrow> pdf_state" where
  "drawWrapped P md v opts st =
     (let ls = wrapLine P v (opt_width opts) (opt_font opts) (opt_size opts);
          st = ensureSpace P md (of_nat (length ls) * opt_lineHeight opts + opt_gapAfter opts) st
      in down (opt_gapAfter opts) (drawLines (opt_font opts) (opt_size opts) (opt_x opts) (opt_lineHeight opts) ls st))"

section \<open>Marking schemes\<close>

definition schemeOptions :: "rat \<Rightarrow> rat \<Rightarrow> text_options" where
  "schemeOptions x width = (plainText (86 / 10))\<lparr>opt_x := x, opt_width := width, opt_lineHeight := 11, opt_gapAfter := 1\<rparr>"

definition schemeHeight :: "pdf_env \<Rightarrow> paper_scheme \<Rightarrow> rat \<Rightarrow> rat" where
  "schemeHeight P sc width =
     foldl (\<lambda>total line. total + wrappedHeight P line (schemeOptions PAGE_MARGIN width)) 0 (schemeLines (jsEnv P) (Some sc) [])"

definition drawScheme :: "pdf_env \<Rightarrow> paper_metadata \<Rightarrow> paper_scheme \<Rightarrow> rat \<Rightarrow> pdf_state \<Rightarrow> pdf_state" where
  "drawScheme P md sc x st =
     fold (\<lambda>line st.
             (let opts = schemeOptions x (A4_WIDTH - PAGE_MARGIN - x)
              in drawWrapped P md line opts (ensureSpace P md (wrappedHeight P line opts) st)))
       (schemeLines (jsEnv P) (Some sc) []) st"

section \<open>Questions\<close>

datatype paper_kind = QuestionKind | AnswerKind

definition drawMark :: "pdf_env \<Rightarrow> rat \<Rightarrow> rat \<Rightarrow> pdf_state \<Rightarrow> pdf_state" where
  "drawMark P m baseline st =
     (let label = js ''['' @ numToString (jsEnv P) m @ js '']''
      in draw (DrawText label (A4_WIDTH - PAGE_MARGIN - widthOfTextAtSize P Bold label (95 / 10)) baseline (95 / 10) Bold) st)"

definition promptOptions :: text_options where
  "promptOptions = (plainText (105 / 10))\<lparr>opt_x := PAGE_MARGIN + 24, opt_width := contentWidth - 70, opt_lineHeight := 15, opt_gapAfter := 5\<rparr>"

definition captionOptions :: text_options where
  "captionOptions = (plainText 8)\<lparr>opt_x := PAGE_MARGIN + 30, opt_width := contentWidth - 60, opt_lineHeight := 10, opt_gapAfter := 4\<rparr>"

definition answerOptions :: text_options where
  "answerOptions = (plainText (98 / 10))\<lparr>opt_x := PAGE_MARGIN + 24, opt_width := contentWidth - 24, opt_gapAfter := 4\<rparr>"

definition partOptions :: text_options where
  "partOptions = (plainText 10)\<lparr>opt_x := PAGE_MARGIN + 50, opt_width := contentWidth - 96, opt_lineHeight := 142 / 10, opt_gapAfter := 4\<rparr>"

definition sourceOptions :: text_options where
  "sourceOptions = (plainText 8)\<lparr>opt_x := PAGE_MARGIN + 24, opt_width := contentWidth - 24\<rparr>"

definition noAnswer :: jsstring where "noAnswer = js ''No answer supplied.''"

definition partText :: "paper_kind \<Rightarrow> paper_subpart \<Rightarrow> jsstring" where
  "partText kind part = (case kind of AnswerKind \<Rightarrow> orElse (part_answer part) noAnswer | QuestionKind \<Rightarrow> part_prompt part)"

definition estimatedHeight :: "pdf_env \<Rightarrow> paper_kind \<Rightarrow> paper_question \<Rightarrow> rat" where
  "estimatedHeight P kind q =
     wrappedHeight P (prompt q) promptOptions + 9 +
     (case diagram q of
        None \<Rightarrow> 0
      | Some d \<Rightarrow> 215 + (if caption d \<noteq> [] then wrappedHeight P (caption d) captionOptions else 0)) +
     (if kind = AnswerKind \<and> subparts q = [] then wrappedHeight P (orElse (answer q) noAnswer) answerOptions else 0) +
     (if kind = AnswerKind then schemeHeight P (scheme q) (contentWidth - 36) else 0) +
     foldl (\<lambda>total part. total + wrappedHeight P (partText kind part) partOptions +
              (if kind = QuestionKind then part_workingLines part * 18 else 0) +
              (if kind = AnswerKind then schemeHeight P (part_scheme part) (contentWidth - 62) else 0)) 0 (subparts q) +
     (if subparts q = [] \<and> kind = QuestionKind then workingLines q * 18 else 0) +
     (if kind = AnswerKind \<and> source q \<noteq> [] then wrappedHeight P (js ''Source note: '' @ source q) sourceOptions else 0)"

definition drawDiagram :: "pdf_env \<Rightarrow> paper_metadata \<Rightarrow> paper_diagram option \<Rightarrow> pdf_state \<Rightarrow> pdf_state" where
  "drawDiagram P md dg st = (case dg of
      None \<Rightarrow> st
    | Some d \<Rightarrow> (case picture P d of
          NoPicture \<Rightarrow> st
        | PictureFailed \<Rightarrow> drawWrapped P md (js ''Diagram: '' @ alt d) ((plainText (85 / 10))\<lparr>opt_gapAfter := 4\<rparr>) st
        | Picture w h \<Rightarrow>
            (let st = ensureSpace P md (h + 26) st;
                 st = draw (DrawImage (PAGE_MARGIN + (contentWidth - w) / 2) (cursor st - h) w h) st;
                 st = down (h + 5) st
             in if caption d \<noteq> [] then drawWrapped P md (caption d) captionOptions st else st)))"

definition drawRules :: "pdf_env \<Rightarrow> paper_metadata \<Rightarrow> rat \<Rightarrow> rat \<Rightarrow> pdf_state \<Rightarrow> pdf_state" where
  "drawRules P md x n st =
     ((\<lambda>st. (let st = down 12 (ensureSpace P md 18 st)
             in down 6 (draw (DrawLine x (A4_WIDTH - PAGE_MARGIN) (cursor st)) st))) ^^ nat (mathCeil n)) st"

definition drawPart :: "pdf_env \<Rightarrow> paper_metadata \<Rightarrow> paper_kind \<Rightarrow> paper_subpart \<Rightarrow> pdf_state \<Rightarrow> pdf_state" where
  "drawPart P md kind part st =
     (let st = ensureSpace P md (wrappedHeight P (partText kind part) partOptions +
                 (if kind = QuestionKind \<and> part_workingLines part \<noteq> 0 then 18 else 0)) st;
          partY = cursor st;
          st = draw (DrawText (js ''('' @ pdfSafeText P (part_label part) @ js '')'') (PAGE_MARGIN + 24) partY 10 Regular) st;
          st = drawMark P (part_marks part) partY st;
          st = drawWrapped P md (partText kind part) partOptions st;
          st = (if kind = QuestionKind then drawRules P md (PAGE_MARGIN + 50) (part_workingLines part) st else st)
      in if kind = AnswerKind then drawScheme P md (part_scheme part) (PAGE_MARGIN + 62) st else st)"

definition drawQuestion :: "pdf_env \<Rightarrow> paper_metadata \<Rightarrow> paper_kind \<Rightarrow> nat \<Rightarrow> paper_question \<Rightarrow> pdf_state \<Rightarrow> pdf_state" where
  "drawQuestion P md kind index q st =
     (let promptHeight = wrappedHeight P (prompt q) promptOptions;
          estimate = estimatedHeight P kind q;
          pageCapacity = A4_HEIGHT - PAGE_MARGIN - CONTENT_BOTTOM;
          st = ensureSpace P md (if estimate \<le> pageCapacity then estimate else max 80 (promptHeight + 20)) st;
          startY = cursor st;
          st = draw (DrawText (showInt (int index + 1) @ js ''.'') PAGE_MARGIN startY 11 Bold) st;
          st = drawMark P (marks q) startY st;
          st = drawWrapped P md (prompt q) promptOptions st;
          st = drawDiagram P md (diagram q) st;
          st = (if kind = AnswerKind \<and> subparts q = []
                then drawWrapped P md (orElse (answer q) noAnswer) answerOptions st else st);
          st = (if kind = AnswerKind then drawScheme P md (scheme q) (PAGE_MARGIN + 36) st else st);
          st = fold (drawPart P md kind) (subparts q) st;
          st = (if subparts q = [] \<and> kind = QuestionKind
                then drawRules P md (PAGE_MARGIN + 24) (workingLines q) st else st);
          st = (if kind = AnswerKind \<and> source q \<noteq> []
                then drawWrapped P md (js ''Source note: '' @ source q) sourceOptions st else st)
      in down (if startY = cursor st then 14 else 9) st)"

section \<open>The whole document\<close>

definition drawTitle :: "pdf_env \<Rightarrow> paper_metadata \<Rightarrow> paper_kind \<Rightarrow> pdf_state \<Rightarrow> pdf_state" where
  "drawTitle P md kind st =
     (let heading = (if kind = AnswerKind then title md @ js '' - Marking scheme'' else title md);
          st = drawCustomHeader P md st;
          st = drawWrapped P md (orElse heading (js ''Question paper''))
                 ((plainText 19)\<lparr>opt_lineHeight := 23, opt_font := Bold, opt_gapAfter := 5\<rparr>) st;
          st = drawWrapped P md (subject md) ((plainText 11)\<lparr>opt_font := Bold, opt_gapAfter := 2\<rparr>) st;
          st = drawWrapped P md (joinWith (js '' | '') (boardDetails md)) (plainText (88 / 10)) st;
          st = (if kind = QuestionKind \<and> durationMinutes md > 0
                then drawWrapped P md (js ''Time allowed: '' @ numToString (jsEnv P) (durationMinutes md) @ js '' minutes'')
                       (plainText (88 / 10)) st else st);
          st = (if sources md \<noteq> []
                then drawWrapped P md (js ''Sources: '' @ sourceSummary (sources md))
                       ((plainText 8)\<lparr>opt_lineHeight := 11, opt_gapAfter := 6\<rparr>) st
                else down 7 st)
      in down 15 (draw (DrawLine PAGE_MARGIN (A4_WIDTH - PAGE_MARGIN) (cursor st)) st))"

definition drawInstructions :: "pdf_env \<Rightarrow> paper_metadata \<Rightarrow> paper_kind \<Rightarrow> generated_paper \<Rightarrow> pdf_state \<Rightarrow> pdf_state" where
  "drawInstructions P md kind p st =
     (if kind = QuestionKind \<and> instructions p \<noteq> []
      then (let st = drawWrapped P md (js ''Instructions'') ((plainText 10)\<lparr>opt_font := Bold, opt_gapAfter := 2\<rparr>) st
            in down 8 (fold (\<lambda>i st. drawWrapped P md (js ''- '' @ i)
                 ((plainText (93 / 10))\<lparr>opt_x := PAGE_MARGIN + 8, opt_width := contentWidth - 8\<rparr>) st) (instructions p) st))
      else st)"

definition drawFooter :: "pdf_env \<Rightarrow> paper_metadata \<Rightarrow> nat \<Rightarrow> nat \<Rightarrow> draw_op list \<Rightarrow> draw_op list" where
  "drawFooter P md count index page =
     (let pageNumber = showInt (int index + 1) @ js '' of '' @ showInt (int count);
          footer = (case footerText md of None \<Rightarrow> [] | Some f \<Rightarrow> trim f)
      in page @
         (if footer \<noteq> [] \<and> (repeatFooter md \<or> index + 1 = count)
          then [DrawText (sliceTo 160 (pdfSafeText P footer)) PAGE_MARGIN 24 8 Regular] else []) @
         [DrawText pageNumber (A4_WIDTH - PAGE_MARGIN - widthOfTextAtSize P Regular pageNumber 8) 24 8 Regular])"

definition drawBody :: "pdf_env \<Rightarrow> paper_metadata \<Rightarrow> paper_kind \<Rightarrow> generated_paper \<Rightarrow> pdf_state" where
  "drawBody P md kind p =
     fold (\<lambda>(i, q). drawQuestion P md kind i q) (List.enumerate 0 (questions p))
       (drawInstructions P md kind p
          (drawTitle P md kind \<lparr>donePages = [], thisPage = [], cursor = A4_HEIGHT - PAGE_MARGIN\<rparr>))"

record pdf_document =
  pdfTitle :: jsstring
  pdfSubject :: jsstring
  pdfPages :: "draw_op list list"

definition createPaperPdf :: "pdf_env \<Rightarrow> paper_metadata \<Rightarrow> paper_kind \<Rightarrow> generated_paper \<Rightarrow> pdf_document" where
  "createPaperPdf P md kind p =
     (let st = drawBody P md kind p;
          ps = donePages st @ [thisPage st]
      in \<lparr>pdfTitle = pdfSafeText P (if kind = AnswerKind then title md @ js '' - Marking scheme'' else title md),
          pdfSubject = pdfSafeText P (if kind = AnswerKind then js ''Marking scheme'' else js ''Question paper''),
          pdfPages = map (\<lambda>(i, page). drawFooter P md (length ps) i page) (List.enumerate 0 ps)\<rparr>)"

end
