(* ===== verification/Paper_Layout.thy ===== *)
theory Paper_Layout
  imports Paper_Export
begin

text \<open>
  What the printed paper promises: the students' copy says nothing of the answers, no word is lost
  when text is broken into lines, lines fit their column, and a paragraph that fits a page is drawn
  inside it. One that does not fit runs over the foot of the page.
\<close>

section \<open>The students' copy\<close>

definition hidePart :: "paper_subpart \<Rightarrow> paper_subpart" where
  "hidePart part = part\<lparr>part_answer := [], part_scheme := EMPTY_SCHEME\<rparr>"

definition hideQuestion :: "paper_question \<Rightarrow> paper_question" where
  "hideQuestion q = q\<lparr>answer := [], source := [], scheme := EMPTY_SCHEME, subparts := map hidePart (subparts q)\<rparr>"

text \<open>The paper without answers, marking schemes and source notes.\<close>

definition studentView :: "generated_paper \<Rightarrow> generated_paper" where
  "studentView p = p\<lparr>questions := map hideQuestion (questions p)\<rparr>"

lemma questionLines_hide: "questionLines U i (hideQuestion q) = questionLines U i q"
  by (simp add: questionLines_def hideQuestion_def hidePart_def comp_def)

lemma partText_hide: "partText QuestionKind (hidePart part) = partText QuestionKind part"
  by (simp add: partText_def hidePart_def)

lemma drawPart_hide: "drawPart P md QuestionKind (hidePart part) = drawPart P md QuestionKind part"
  by (rule ext) (simp add: drawPart_def partText_hide Let_def, simp add: hidePart_def)

lemma foldl_map_cong: "(\<And>a x. f a (g x) = f a x) \<Longrightarrow> foldl f a (map g xs) = foldl f a xs"
  by (induction xs arbitrary: a) simp_all

lemma estimatedHeight_hide: "estimatedHeight P QuestionKind (hideQuestion q) = estimatedHeight P QuestionKind q"
proof -
  have "foldl (\<lambda>total part. total + wrappedHeight P (partText QuestionKind part) partOptions + part_workingLines part * 18) 0
      (map hidePart ps) =
    foldl (\<lambda>total part. total + wrappedHeight P (partText QuestionKind part) partOptions + part_workingLines part * 18) 0 ps" for ps
    by (rule foldl_map_cong) (simp add: partText_hide, simp add: hidePart_def)
  then show ?thesis by (simp add: estimatedHeight_def hideQuestion_def)
qed

lemma drawQuestion_hide: "drawQuestion P md QuestionKind i (hideQuestion q) = drawQuestion P md QuestionKind i q"
proof
  fix st
  have parts: "fold (drawPart P md QuestionKind) (map hidePart ps) s = fold (drawPart P md QuestionKind) ps s" for ps s
    by (simp add: fold_map drawPart_hide comp_def)
  show "drawQuestion P md QuestionKind i (hideQuestion q) st = drawQuestion P md QuestionKind i q st"
    unfolding drawQuestion_def estimatedHeight_hide by (simp add: hideQuestion_def parts Let_def)
qed

lemma enumerate_map: "List.enumerate n (map f xs) = map (\<lambda>(i, x). (i, f x)) (List.enumerate n xs)"
  by (induction xs arbitrary: n) simp_all

lemma drawBody_hide: "drawBody P md QuestionKind (studentView p) = drawBody P md QuestionKind p"
proof -
  have "drawInstructions P md QuestionKind (studentView p) = drawInstructions P md QuestionKind p"
    by (rule ext) (simp add: drawInstructions_def studentView_def)
  then show ?thesis
    by (simp add: drawBody_def studentView_def enumerate_map fold_map comp_def split_def drawQuestion_hide)
qed

lemma questionPaperText_hide: "questionPaperText U md (studentView p) = questionPaperText U md p"
  by (simp add: questionPaperText_def studentView_def enumerate_map comp_def split_def questionLines_hide)

section \<open>Breaking lines\<close>

lemma breakWord_text: "breakWord w m f s = (ls, rest) \<Longrightarrow> concat ls @ rest = f @ s"
proof (induction s arbitrary: f ls rest)
  case (Cons c s)
  show ?case
  proof (cases "w (f @ [c]) > m \<and> f \<noteq> []")
    case True
    then obtain ls' where b: "breakWord w m [c] s = (ls', rest)" "ls = f # ls'"
      using Cons.prems by (auto split: prod.splits)
    then show ?thesis using Cons.IH [OF b(1)] by simp
  next
    case False
    then have "breakWord w m (f @ [c]) s = (ls, rest)" using Cons.prems by (simp split: if_splits)
    from Cons.IH [OF this] show ?thesis by simp
  qed
qed simp

lemma breakWord_fits:
  "breakWord w m f s = (ls, rest) \<Longrightarrow> \<forall>c \<in> set s. w [c] \<le> m \<Longrightarrow> f = [] \<or> w f \<le> m \<Longrightarrow>
     (\<forall>l \<in> set ls. w l \<le> m) \<and> (rest = [] \<or> w rest \<le> m)"
proof (induction s arbitrary: f ls rest)
  case (Cons c s)
  have s: "\<forall>c \<in> set s. w [c] \<le> m" and c: "w [c] \<le> m" using Cons.prems(2) unfolding list.set by blast+
  show ?case
  proof (cases "w (f @ [c]) > m \<and> f \<noteq> []")
    case True
    then obtain ls' where b: "breakWord w m [c] s = (ls', rest)" "ls = f # ls'"
      using Cons.prems(1) by (auto split: prod.splits)
    show ?thesis using Cons.IH [OF b(1) s disjI2 [OF c]] True Cons.prems(3) unfolding b(2) list.set by blast
  next
    case False
    then have b: "breakWord w m (f @ [c]) s = (ls, rest)" using Cons.prems(1) by (simp split: if_splits)
    have "w (f @ [c]) \<le> m"
    proof (cases "f = []")
      case True
      then show ?thesis using c by simp
    next
      case f: False
      then show ?thesis using False by (simp only: not_less de_Morgan_conj simp_thms)
    qed
    then show ?thesis by (intro Cons.IH [OF b s] disjI2)
  qed
qed simp

text \<open>The text of a line list without its spaces.\<close>

definition letters :: "jsstring list \<Rightarrow> jsstring" where
  "letters ls = filter (\<lambda>c. c \<noteq> 32) (concat ls)"

lemma letters_simps [simp]:
  "letters [] = []" "letters (l # ls) = filter (\<lambda>c. c \<noteq> 32) l @ letters ls" "letters (ls @ ms) = letters ls @ letters ms"
  "letters (pushLine l ls) = filter (\<lambda>c. c \<noteq> 32) l @ letters ls"
  by (simp_all add: letters_def pushLine_def)

lemma letters_concat: "concat ls @ rest = s \<Longrightarrow> letters ls @ filter (\<lambda>c. c \<noteq> 32) rest = filter (\<lambda>c. c \<noteq> 32) s"
  unfolding letters_def by (metis filter_append)

lemma wrapWords_letters: "letters (wrapWords w m line ws) = filter (\<lambda>c. c \<noteq> 32) line @ letters ws"
proof (induction w m line ws rule: wrapWords.induct)
  case (2 w m line word ws)
  obtain ls rest where b: "breakWord w m [] word = (ls, rest)" by (cases "breakWord w m [] word")
  have "letters ls @ filter (\<lambda>c. c \<noteq> 32) rest = filter (\<lambda>c. c \<noteq> 32) word"
    using letters_concat [of ls rest word] breakWord_text [OF b] by simp
  then show ?case using 2 b by (simp add: Let_def)
qed simp

lemma pushLine_all: "line = [] \<or> Q line \<Longrightarrow> \<forall>l \<in> set ls. Q l \<Longrightarrow> \<forall>l \<in> set (pushLine line ls). Q l"
  by (auto simp: pushLine_def)

lemma wrapWords_fits:
  "\<forall>word \<in> set ws. \<forall>c \<in> set word. w [c] \<le> m \<Longrightarrow> line = [] \<or> w line \<le> m \<Longrightarrow> \<forall>l \<in> set (wrapWords w m line ws). w l \<le> m"
proof (induction ws arbitrary: line)
  case Nil
  show ?case unfolding wrapWords.simps by (rule pushLine_all [of line "\<lambda>l. w l \<le> m", OF Nil(2)]) simp
next
  case (Cons word ws)
  define c where "c = (if line \<noteq> [] then line @ [32] @ word else word)"
  have ws: "\<forall>word \<in> set ws. \<forall>c \<in> set word. w [c] \<le> m" and word: "\<forall>c \<in> set word. w [c] \<le> m"
    using Cons.prems(1) unfolding list.set by blast+
  obtain ls rest where b: "breakWord w m [] word = (ls, rest)" by (cases "breakWord w m [] word")
  have u: "wrapWords w m line (word # ws) = (if w c \<le> m then wrapWords w m c ws
      else if w word \<le> m then pushLine line (wrapWords w m word ws) else pushLine line (ls @ wrapWords w m rest ws))"
    by (simp add: c_def Let_def b)
  have f: "\<forall>l \<in> set ls. w l \<le> m" "rest = [] \<or> w rest \<le> m" using breakWord_fits [OF b word] by blast+
  have "\<forall>l \<in> set (ls @ wrapWords w m rest ws). w l \<le> m"
    using f(1) Cons.IH [OF ws f(2)] unfolding set_append by blast
  note broken = pushLine_all [of line "\<lambda>l. w l \<le> m", OF Cons.prems(2) this]
  note IH = Cons.IH [OF ws disjI2]
  show ?case
  proof (cases "w c \<le> m")
    case True
    then show ?thesis unfolding u using IH [OF True] by (simp only: if_True)
  next
    case c: False
    show ?thesis
    proof (cases "w word \<le> m")
      case True
      then show ?thesis unfolding u
        using c pushLine_all [of line "\<lambda>l. w l \<le> m", OF Cons.prems(2) IH [OF True]] by (simp only: if_True if_False)
    next
      case False
      then show ?thesis unfolding u using c broken by (simp only: if_False)
    qed
  qed
qed

lemma splitSpaces_chars: "concat (splitSpaces s) = filter (\<lambda>c. \<not> isSpace c) s"
proof (induction s)
  case (Cons c s)
  then show ?case by (cases "splitSpaces s") auto
qed simp

lemma wordsOf_concat: "concat (wordsOf s) = filter (\<lambda>c. \<not> isSpace c) s"
proof -
  have "concat (filter (\<lambda>w. w \<noteq> []) ws) = concat ws" for ws :: "jsstring list" by (induction ws) auto
  then show ?thesis by (simp add: wordsOf_def splitSpaces_chars)
qed

lemma dropWhile_spaces: "filter (\<lambda>c. \<not> isSpace c) (dropWhile isSpace s) = filter (\<lambda>c. \<not> isSpace c) s"
  by (induction s) auto

lemma filter_trim: "filter (\<lambda>c. \<not> isSpace c) (trim s) = filter (\<lambda>c. \<not> isSpace c) s"
  by (simp add: trim_def trimStart_def trimEnd_def dropWhile_spaces flip: rev_filter)

lemma pdfSafeText_printable: "\<forall>c \<in> set (pdfSafeText P v). isPrintable c"
  by (auto simp: pdfSafeText_def Let_def isPrintable_def)

lemma printable_space: "isPrintable c \<Longrightarrow> isSpace c \<longleftrightarrow> c = 32"
  by (auto simp: isPrintable_def isSpace_def)

lemma wrapLine_letters: "letters (wrapLine P v m font sz) = filter (\<lambda>c. c \<noteq> 32) (pdfSafeText P v)"
proof -
  let ?t = "pdfSafeText P v" and ?ws = "wordsOf (trim (pdfSafeText P v))"
  have f: "filter (\<lambda>c. \<not> isSpace c) ?t = filter (\<lambda>c. c \<noteq> 32) ?t"
    using pdfSafeText_printable [of P v] printable_space by (intro filter_cong) auto
  have c: "concat ?ws = filter (\<lambda>c. c \<noteq> 32) ?t" by (simp add: wordsOf_concat filter_trim f)
  then have l: "letters ?ws = filter (\<lambda>c. c \<noteq> 32) ?t" by (simp add: letters_def)
  show ?thesis
  proof (cases "?ws = []")
    case True
    then show ?thesis using c [symmetric] by (simp add: wrapLine_def)
  next
    case False
    then show ?thesis using l by (simp add: wrapLine_def Let_def wrapWords_letters)
  qed
qed

section \<open>Placing lines\<close>

lemma drawLines_eq:
  "drawLines font sz x lh ls st =
     st\<lparr>thisPage := thisPage st @ map (\<lambda>(i, l). DrawText l x (cursor st - of_nat i * lh) sz font) (List.enumerate 0 ls),
        cursor := cursor st - of_nat (length ls) * lh\<rparr>"
proof (induction ls rule: rev_induct)
  case Nil
  show ?case by (simp add: drawLines_def)
next
  case (snoc l ls)
  have "drawLines font sz x lh (ls @ [l]) st =
      down lh (draw (DrawText l x (cursor (drawLines font sz x lh ls st)) sz font) (drawLines font sz x lh ls st))"
    by (simp add: drawLines_def)
  then show ?case using snoc by (simp add: down_def draw_def enumerate_append_eq algebra_simps)
qed

definition opHeight :: "draw_op \<Rightarrow> rat" where
  "opHeight d = (case d of DrawText _ _ y _ _ \<Rightarrow> y | DrawLine _ _ y \<Rightarrow> y | DrawImage _ y _ _ \<Rightarrow> y)"

definition pageCapacity :: rat where
  "pageCapacity = A4_HEIGHT - PAGE_MARGIN - CONTENT_BOTTOM"

lemma ensureSpace_room:
  assumes "\<not> repeatHeader md" "h \<le> pageCapacity"
  shows "CONTENT_BOTTOM \<le> cursor (ensureSpace P md h st) - h"
  using assms by (auto simp: ensureSpace_def newPage_def pageCapacity_def)

lemma ensureSpace_top:
  assumes "\<not> repeatHeader md" "cursor st \<le> A4_HEIGHT - PAGE_MARGIN"
  shows "cursor (ensureSpace P md h st) \<le> A4_HEIGHT - PAGE_MARGIN"
  using assms by (auto simp: ensureSpace_def newPage_def)

lemma drawWrapped_page:
  "thisPage (drawWrapped P md v opts st) =
     (let ls = wrapLine P v (opt_width opts) (opt_font opts) (opt_size opts); st' = ensureSpace P md (wrappedHeight P v opts) st
      in thisPage st' @ map (\<lambda>(i, l). DrawText l (opt_x opts) (cursor st' - of_nat i * opt_lineHeight opts) (opt_size opts) (opt_font opts))
           (List.enumerate 0 ls))"
  by (simp add: drawWrapped_def Let_def drawLines_eq down_def wrappedHeight_def)

section \<open>Properties\<close>

text \<open>The students' copy of a paper, as text and as PDF, is the same whatever the answers, the marking
  schemes and the source notes are: it is the one of the paper with all of them removed.\<close>

theorem student_copy_hides_answers:
  "questionPaperText U md p = questionPaperText U md (studentView p) \<and>
   createPaperPdf P md QuestionKind p = createPaperPdf P md QuestionKind (studentView p)"
  by (simp add: questionPaperText_hide createPaperPdf_def drawBody_hide)

text \<open>Breaking a text into lines loses, adds and reorders nothing but spaces, and every line fits the column
  it is set in whenever each single character does.\<close>

theorem wrapped_lines_fit_and_keep_text:
  assumes "\<forall>c \<in> set (pdfSafeText P v). widthOfTextAtSize P font [c] sz \<le> maxWidth"
    and "widthOfTextAtSize P font [] sz \<le> maxWidth"
  shows "(\<forall>l \<in> set (wrapLine P v maxWidth font sz). widthOfTextAtSize P font l sz \<le> maxWidth) \<and>
    letters (wrapLine P v maxWidth font sz) = filter (\<lambda>c. c \<noteq> 32) (pdfSafeText P v)"
proof -
  define ws where "ws = wordsOf (trim (pdfSafeText P v))"
  have "set (concat ws) \<subseteq> set (pdfSafeText P v)"
    unfolding ws_def wordsOf_concat using set_trim [of "pdfSafeText P v"] by auto
  then have "\<forall>word \<in> set ws. \<forall>c \<in> set word. widthOfTextAtSize P font [c] sz \<le> maxWidth" using assms(1) by (simp only: set_concat) blast
  then have "\<forall>l \<in> set (wrapWords (\<lambda>s. widthOfTextAtSize P font s sz) maxWidth [] ws). widthOfTextAtSize P font l sz \<le> maxWidth"
    by (rule wrapWords_fits [of _ "\<lambda>s. widthOfTextAtSize P font s sz", OF _ disjI1 [OF refl]])
  then have "\<forall>l \<in> set (wrapLine P v maxWidth font sz). widthOfTextAtSize P font l sz \<le> maxWidth"
    using assms(2) unfolding wrapLine_def Let_def ws_def [symmetric] by (cases "ws = []") simp_all
  then show ?thesis using wrapLine_letters by blast
qed

text \<open>A monospaced font on plain ASCII, for the witnesses.\<close>

definition mono_env :: pdf_env where
  "mono_env = \<lparr>widthOfTextAtSize = (\<lambda>font s sz. of_nat (length s) * sz / 2), nfkd = id, picture = (\<lambda>_. NoPicture), jsEnv = ascii_env\<rparr>"

theorem wrapped_lines_fit_and_keep_text_witness:
  "wrapLine mono_env (js ''to be  continued'') 20 Regular 10 = [js ''to'', js ''be'', js ''cont'', js ''inue'', js ''d''] \<and>
   list_all (\<lambda>l. widthOfTextAtSize mono_env Regular l 10 \<le> 20) (wrapLine mono_env (js ''to be  continued'') 20 Regular 10)"
proof -
  have "\<forall>c \<in> set (pdfSafeText mono_env (js ''to be  continued'')). widthOfTextAtSize mono_env Regular [c] 10 \<le> 20"
    "widthOfTextAtSize mono_env Regular [] 10 \<le> 20"
    "wrapLine mono_env (js ''to be  continued'') 20 Regular 10 = [js ''to'', js ''be'', js ''cont'', js ''inue'', js ''d'']" by code_simp+
  then show ?thesis using wrapped_lines_fit_and_keep_text [of mono_env "js ''to be  continued''" Regular 10 20]
    unfolding list_all_iff by blast
qed

text \<open>A paragraph that is no taller than a page is drawn whole on one page, all its lines above the bottom
  margin, and moves the cursor down by exactly its height; the header is not repeated.\<close>

theorem paragraph_stays_on_page:
  assumes "\<not> repeatHeader md" and "wrappedHeight P v opts \<le> pageCapacity" and "0 \<le> opt_lineHeight opts" and "0 \<le> opt_gapAfter opts"
  shows "\<exists>ops. thisPage (drawWrapped P md v opts st) = thisPage (ensureSpace P md (wrappedHeight P v opts) st) @ ops \<and>
    length ops = length (wrapLine P v (opt_width opts) (opt_font opts) (opt_size opts)) \<and>
    (\<forall>d \<in> set ops. CONTENT_BOTTOM + opt_lineHeight opts \<le> opHeight d) \<and>
    cursor (drawWrapped P md v opts st) = cursor (ensureSpace P md (wrappedHeight P v opts) st) - wrappedHeight P v opts"
proof -
  define ls where "ls = wrapLine P v (opt_width opts) (opt_font opts) (opt_size opts)"
  define st' where "st' = ensureSpace P md (wrappedHeight P v opts) st"
  define ops where "ops = map (\<lambda>(i, l). DrawText l (opt_x opts) (cursor st' - of_nat i * opt_lineHeight opts) (opt_size opts) (opt_font opts))
           (List.enumerate 0 ls)"
  have room: "CONTENT_BOTTOM \<le> cursor st' - wrappedHeight P v opts" unfolding st'_def by (rule ensureSpace_room [OF assms(1,2)])
  have h: "wrappedHeight P v opts = of_nat (length ls) * opt_lineHeight opts + opt_gapAfter opts"
    by (simp add: wrappedHeight_def ls_def)
  have y: "CONTENT_BOTTOM + opt_lineHeight opts \<le> cursor st' - of_nat i * opt_lineHeight opts" if "i < length ls" for i
  proof -
    have "of_nat (Suc i) * opt_lineHeight opts \<le> of_nat (length ls) * opt_lineHeight opts"
      using that assms(3) by (intro mult_right_mono) simp_all
    then show ?thesis using room assms(4) unfolding h by (simp add: algebra_simps)
  qed
  have "\<forall>d \<in> set ops. CONTENT_BOTTOM + opt_lineHeight opts \<le> opHeight d"
    using y by (auto simp: ops_def opHeight_def in_set_enumerate_eq)
  moreover have "thisPage (drawWrapped P md v opts st) = thisPage st' @ ops"
    by (simp add: drawWrapped_page Let_def st'_def ops_def ls_def)
  moreover have "length ops = length ls" by (simp add: ops_def length_enumerate)
  moreover have "cursor (drawWrapped P md v opts st) = cursor st' - wrappedHeight P v opts"
    by (simp add: drawWrapped_def drawLines_eq down_def st'_def h ls_def Let_def)
  ultimately show ?thesis unfolding ls_def st'_def by blast
qed

definition plain_metadata :: paper_metadata where
  "plain_metadata = \<lparr>title = js ''Test'', subject = js ''Physics'', board = CIE, syllabusCode = [], year = [], session = [], paperVariant = [],
     durationMinutes = 45, sources = [], headerText = None, footerText = None, repeatHeader = False, repeatFooter = False\<rparr>"

definition emptyPage :: pdf_state where
  "emptyPage = \<lparr>donePages = [], thisPage = [], cursor = A4_HEIGHT - PAGE_MARGIN\<rparr>"

theorem paragraph_stays_on_page_witness:
  "cursor (drawWrapped mono_env plain_metadata (js ''one line'') (plainText 10) emptyPage) = A4_HEIGHT - PAGE_MARGIN - 142 / 10"
proof -
  have a: "\<not> repeatHeader plain_metadata" "0 \<le> opt_lineHeight (plainText 10)" "0 \<le> opt_gapAfter (plainText 10)"
    by (simp_all add: plain_metadata_def plainText_def)
  have h: "wrappedHeight mono_env (js ''one line'') (plainText 10) = 142 / 10" by code_simp
  have c: "142 / 10 \<le> pageCapacity" by code_simp
  have e: "cursor (ensureSpace mono_env plain_metadata (142 / 10) emptyPage) = A4_HEIGHT - PAGE_MARGIN" by code_simp
  show ?thesis
    using paragraph_stays_on_page [of plain_metadata mono_env "js ''one line''" "plainText 10" emptyPage, unfolded h, OF a(1) c a(2,3)]
    unfolding e by blast
qed

text \<open>A paragraph is never split over pages: when its lines are taller than a page, the last of them is
  drawn below the edge of the sheet, and what it says is lost in print.\<close>

theorem tall_paragraph_leaves_page:
  assumes "\<not> repeatHeader md" and "cursor st \<le> A4_HEIGHT - PAGE_MARGIN"
    and "wrapLine P v (opt_width opts) (opt_font opts) (opt_size opts) = ls @ [l]"
    and "A4_HEIGHT - PAGE_MARGIN < of_nat (length ls) * opt_lineHeight opts"
  shows "\<exists>y < 0. DrawText l (opt_x opts) y (opt_size opts) (opt_font opts) \<in> set (thisPage (drawWrapped P md v opts st))"
proof -
  let ?y = "cursor (ensureSpace P md (wrappedHeight P v opts) st) - of_nat (length ls) * opt_lineHeight opts"
  have "?y < 0" using ensureSpace_top [OF assms(1,2), of P "wrappedHeight P v opts"] assms(4) by simp
  moreover have "DrawText l (opt_x opts) ?y (opt_size opts) (opt_font opts) \<in> set (thisPage (drawWrapped P md v opts st))"
    unfolding drawWrapped_page assms(3) by (simp add: Let_def enumerate_append_eq)
  ultimately show ?thesis by blast
qed

definition narrowText :: text_options where
  "narrowText = (plainText 10)\<lparr>opt_width := 10\<rparr>"

definition tallText :: jsstring where
  "tallText = concat (replicate 60 (js ''ab ''))"

theorem tall_paragraph_leaves_page_witness:
  "\<exists>y < 0. DrawText (js ''ab'') PAGE_MARGIN y 10 Regular \<in> set (thisPage (drawWrapped mono_env plain_metadata tallText narrowText emptyPage))"
proof -
  have w: "wrapLine mono_env tallText 10 Regular 10 = replicate 59 (js ''ab'') @ [js ''ab'']" by code_simp
  have o: "opt_width narrowText = 10" "opt_font narrowText = Regular" "opt_size narrowText = 10"
    "opt_x narrowText = PAGE_MARGIN" "opt_lineHeight narrowText = 10 * (142 / 100)" by (simp_all add: narrowText_def plainText_def)
  have "A4_HEIGHT - PAGE_MARGIN < of_nat (length (replicate 59 (js ''ab''))) * (10 * (142 / 100))"
    by (simp add: A4_HEIGHT_def PAGE_MARGIN_def)
  moreover have "\<not> repeatHeader plain_metadata" "cursor emptyPage \<le> A4_HEIGHT - PAGE_MARGIN"
    by (simp_all add: plain_metadata_def emptyPage_def)
  ultimately show ?thesis
    using tall_paragraph_leaves_page [of plain_metadata emptyPage mono_env tallText narrowText "replicate 59 (js ''ab'')" "js ''ab''", unfolded o] w
    by blast
qed

text \<open>Everything the PDF prints is in the character set of the standard fonts, whatever the text was; a line
  break in a prompt is outside it and so is printed as a question mark, instead of starting a new line.\<close>

theorem pdf_text_printable:
  "list_all isPrintable (pdfSafeText P v) \<and>
   wrapLine mono_env (js ''Read the text.'' @ [10] @ js ''Then answer.'') 400 Regular 10 = [js ''Read the text.?Then answer.'']"
proof -
  have "wrapLine mono_env (js ''Read the text.'' @ [10] @ js ''Then answer.'') 400 Regular 10 = [js ''Read the text.?Then answer.'']"
    by code_simp
  then show ?thesis using pdfSafeText_printable by (simp add: list_all_iff)
qed

end
