(* ===== verification/Paper_Library.thy ===== *)
theory Paper_Library
  imports Paper_Logic Web_Storage
begin

text \<open>
  The library of saved papers (\<open>apps/teacher/src/paperLibrary.ts\<close>): what is sent to the host for a
  paper and how a row of the host becomes a paper again, and the one-time move of the papers that
  older versions kept in the browser.

  The host is a parameter: its state and the operation that saves a paper, which fails or returns
  the new state. The records of the old browser database are either papers (identifier and title are
  strings, which is all the code checks) or unusable. The paper specification of a row is
  taken over as it is, so it is a JSON value here.
\<close>

section \<open>Data\<close>

record saved_question_paper =
  saved_id :: jsstring
  saved_title :: jsstring
  saved_subject :: jsstring
  questionText :: jsstring
  questionDocument :: json
  saved_answerKeyText :: jsstring
  answerKeyDocument :: json
  saved_sources :: "paper_source_citation list"
  classroomId :: "jsstring option"
  saved_board :: "exam_board option"
  saved_syllabusCode :: "jsstring option"
  saved_difficulty :: "difficulty_level option"
  sourceMode :: "paper_source_mode option"
  rightsConfirmed :: "bool option"
  advanced :: "json option"
  paperSpec :: "json option"
  createdAt :: jsstring
  updatedAt :: jsstring

record save_question_paper_input =
  in_classroom_id :: "jsstring option"
  in_title :: jsstring
  in_subject :: jsstring
  in_board :: jsstring
  in_syllabus_code :: jsstring
  in_difficulty :: rat
  in_source_mode :: jsstring
  in_rights_confirmed :: bool
  in_spec :: json
  in_scheme :: json
  in_sources :: json
  in_advanced :: json

record question_paper =
  row_id :: jsstring
  row_owner_id :: jsstring
  row_input :: save_question_paper_input
  row_created_at :: jsstring
  row_updated_at :: jsstring

definition boardText :: "exam_board \<Rightarrow> jsstring" where
  "boardText b = (case b of CIE \<Rightarrow> js ''CIE'' | IGCSE \<Rightarrow> js ''IGCSE'' | CBSE \<Rightarrow> js ''CBSE'' | ICSE \<Rightarrow> js ''ICSE'')"

definition BOARDS :: "exam_board list" where "BOARDS = [CIE, IGCSE, CBSE, ICSE]"

definition modeText :: "paper_source_mode \<Rightarrow> jsstring" where
  "modeText m = (case m of Adapt \<Rightarrow> js ''adapt'' | Excerpt \<Rightarrow> js ''excerpt'' | FullPage \<Rightarrow> js ''full_page'')"

definition SOURCE_MODES :: "paper_source_mode list" where "SOURCE_MODES = [Adapt, Excerpt, FullPage]"

definition levelNumber :: "difficulty_level \<Rightarrow> rat" where
  "levelNumber l = (case l of Level1 \<Rightarrow> 1 | Level2 \<Rightarrow> 2 | Level3 \<Rightarrow> 3 | Level4 \<Rightarrow> 4 | Level5 \<Rightarrow> 5)"

definition LEVELS :: "difficulty_level list" where "LEVELS = [Level1, Level2, Level3, Level4, Level5]"

section \<open>Rows and papers\<close>

definition asRecord :: "json option \<Rightarrow> json" where
  "asRecord v = (case v of Some (JObj fs) \<Rightarrow> JObj fs | _ \<Rightarrow> JObj [])"

definition asPages :: "json option \<Rightarrow> int list" where
  "asPages v = (case v of
      Some (JArr vs) \<Rightarrow>
        List.map_filter (\<lambda>p. case p of
            JNum q \<Rightarrow> if of_int \<lfloor>q\<rfloor> = q \<and> q > 0 \<and> q \<le> 10000 then Some \<lfloor>q\<rfloor> else None
          | _ \<Rightarrow> None) vs
    | _ \<Rightarrow> [])"

definition asSources :: "json \<Rightarrow> paper_source_citation list" where
  "asSources v = (case v of
      JArr vs \<Rightarrow>
        List.map_filter (\<lambda>item. let s = asRecord (Some item) in
          case field s ''name'' of Some (JStr n) \<Rightarrow> Some \<lparr>source_name = n, pages = asPages (field s ''pages'')\<rparr> | _ \<Rightarrow> None) vs
    | _ \<Rightarrow> [])"

definition textField :: "json \<Rightarrow> string \<Rightarrow> jsstring" where
  "textField v k = (case field v k of Some (JStr s) \<Rightarrow> s | _ \<Rightarrow> [])"

definition fromRow :: "question_paper \<Rightarrow> saved_question_paper" where
  "fromRow row =
     (let inp = row_input row; spec = asRecord (Some (in_spec inp)); sch = asRecord (Some (in_scheme inp));
          adv = asRecord (Some (in_advanced inp))
      in \<lparr>saved_id = row_id row, saved_title = in_title inp, saved_subject = in_subject inp,
          questionText = textField spec ''questionText'', questionDocument = asRecord (field spec ''questionDocument''),
          saved_answerKeyText = textField sch ''answerKeyText'', answerKeyDocument = asRecord (field sch ''answerKeyDocument''),
          saved_sources = asSources (in_sources inp),
          classroomId = in_classroom_id inp,
          saved_board = List.find (\<lambda>b. boardText b = in_board inp) BOARDS,
          saved_syllabusCode = (if in_syllabus_code inp = [] then None else Some (in_syllabus_code inp)),
          saved_difficulty = List.find (\<lambda>l. levelNumber l = in_difficulty inp) LEVELS,
          sourceMode = (case List.find (\<lambda>m. modeText m = in_source_mode inp) SOURCE_MODES of Some m \<Rightarrow> Some m | None \<Rightarrow> Some Adapt),
          rightsConfirmed = Some (in_rights_confirmed inp),
          advanced = (if field adv ''year'' = None then None else Some adv),
          paperSpec = coalesce (field spec ''paper'') None,
          createdAt = row_created_at row, updatedAt = row_updated_at row\<rparr>)"

definition sourceJson :: "paper_source_citation \<Rightarrow> json" where
  "sourceJson s = JObj [(js ''name'', JStr (source_name s)), (js ''pages'', JArr (map (\<lambda>p. JNum (of_int p)) (pages s)))]"

definition toInput :: "saved_question_paper \<Rightarrow> save_question_paper_input" where
  "toInput p =
     \<lparr>in_classroom_id = classroomId p, in_title = saved_title p, in_subject = saved_subject p,
      in_board = (case saved_board p of Some b \<Rightarrow> boardText b | None \<Rightarrow> []),
      in_syllabus_code = (case saved_syllabusCode p of Some s \<Rightarrow> s | None \<Rightarrow> []),
      in_difficulty = (case saved_difficulty p of Some l \<Rightarrow> levelNumber l | None \<Rightarrow> 3),
      in_source_mode = modeText (case sourceMode p of Some m \<Rightarrow> m | None \<Rightarrow> Adapt),
      in_rights_confirmed = (case rightsConfirmed p of Some b \<Rightarrow> b | None \<Rightarrow> False),
      in_spec = JObj [(js ''paper'', case paperSpec p of Some v \<Rightarrow> v | None \<Rightarrow> JNull),
                      (js ''questionText'', JStr (questionText p)), (js ''questionDocument'', questionDocument p)],
      in_scheme = JObj [(js ''answerKeyText'', JStr (saved_answerKeyText p)), (js ''answerKeyDocument'', answerKeyDocument p)],
      in_sources = JArr (map sourceJson (saved_sources p)),
      in_advanced = (case advanced p of Some a \<Rightarrow> a | None \<Rightarrow> JObj [])\<rparr>"

section \<open>The move to the host\<close>

definition MIGRATED_KEY :: jsstring where
  "MIGRATED_KEY = js ''cinder.teacher.papers-moved-to-host''"

datatype local_record = Usable saved_question_paper | Unusable

datatype local_database = LocalFailure | LocalRecords "local_record list"

definition readLocalPapers :: "local_database \<Rightarrow> saved_question_paper list option" where
  "readLocalPapers db = (case db of
      LocalFailure \<Rightarrow> None
    | LocalRecords rs \<Rightarrow> Some (List.map_filter (\<lambda>r. case r of Usable p \<Rightarrow> Some p | Unusable \<Rightarrow> None) rs))"

definition hostIdRx :: rx where
  "hostIdRx = seqs [Bol, times 36 (Cls (\<lambda>c. isDigit c \<or> (97 \<le> asciiLowerChar c \<and> asciiLowerChar c \<le> 102) \<or> c = 45)), Eol]"

type_synonym 'h save_paper = "jsstring \<Rightarrow> save_question_paper_input \<Rightarrow> 'h \<Rightarrow> jsstring + 'h"

text \<open>The loop over the local papers: \<open>uuid\<close> gives the value of each call of \<open>crypto.randomUUID\<close>, and the
  number counts the calls.\<close>

fun moveLoop :: "'h save_paper \<Rightarrow> (nat \<Rightarrow> jsstring) \<Rightarrow> nat \<Rightarrow> saved_question_paper list \<Rightarrow> 'h \<Rightarrow> 'h" where
  "moveLoop save uuid n [] host = host"
| "moveLoop save uuid n (p # ps) host =
     (let (pid, n) = (if rtest hostIdRx (saved_id p) then (saved_id p, n) else (uuid n, n + 1))
      in moveLoop save uuid n ps (case save pid (toInput p) host of Inr host' \<Rightarrow> host' | Inl _ \<Rightarrow> host))"

definition migrateLocalPapers ::
  "'h save_paper \<Rightarrow> (nat \<Rightarrow> jsstring) \<Rightarrow> jsstring \<Rightarrow> local_database \<Rightarrow> local_storage \<times> 'h \<Rightarrow> local_storage \<times> 'h" where
  "migrateLocalPapers save uuid now db st =
     (case st of (storage, host) \<Rightarrow>
        (case getItem storage MIGRATED_KEY of
           Some (c # marker) \<Rightarrow> (storage, host)
         | _ \<Rightarrow>
             (case readLocalPapers db of
                None \<Rightarrow> (setItem MIGRATED_KEY now storage, host)
              | Some ps \<Rightarrow> (setItem MIGRATED_KEY now storage, moveLoop save uuid 0 ps host))))"

definition listSavedQuestionPapers ::
  "'h save_paper \<Rightarrow> ('h \<Rightarrow> jsstring + question_paper list) \<Rightarrow> (nat \<Rightarrow> jsstring) \<Rightarrow> jsstring \<Rightarrow> local_database \<Rightarrow>
     local_storage \<times> 'h \<Rightarrow> (jsstring + saved_question_paper list) \<times> local_storage \<times> 'h" where
  "listSavedQuestionPapers save rows uuid now db st =
     (let st' = migrateLocalPapers save uuid now db st
      in (case rows (snd st') of Inl e \<Rightarrow> Inl e | Inr rs \<Rightarrow> Inr (map fromRow rs), st'))"

section \<open>Lemmas\<close>

lemma find_boardText [simp]: "List.find (\<lambda>c. boardText c = boardText b) BOARDS = Some b"
  by (cases b) (simp_all add: BOARDS_def boardText_def js_def)

lemma find_modeText [simp]: "List.find (\<lambda>c. modeText c = modeText m) SOURCE_MODES = Some m"
  by (cases m) (simp_all add: SOURCE_MODES_def modeText_def js_def)

lemma find_levelNumber [simp]: "List.find (\<lambda>c. levelNumber c = levelNumber l) LEVELS = Some l"
  by (cases l) (simp_all add: LEVELS_def levelNumber_def)

lemma asPages_back: "\<forall>p \<in> set ps. 0 < p \<and> p \<le> 10000 \<Longrightarrow> asPages (Some (JArr (map (\<lambda>p. JNum (of_int p)) ps))) = ps"
  by (induction ps) (simp_all add: asPages_def List.map_filter_simps)

lemma asSources_back:
  "\<forall>s \<in> set ss. \<forall>p \<in> set (pages s). 0 < p \<and> p \<le> 10000 \<Longrightarrow> asSources (JArr (map sourceJson ss)) = ss"
proof (induction ss)
  case (Cons s ss)
  then show ?case
    by (simp add: asSources_def sourceJson_def asRecord_def js_def asPages_back List.map_filter_simps)
qed (simp add: asSources_def List.map_filter_simps)

lemma moveLoop_failing: "(\<And>i inp h. \<exists>e. save i inp h = Inl e) \<Longrightarrow> moveLoop save uuid n ps host = host"
proof (induction ps arbitrary: n)
  case (Cons p ps)
  obtain e where "save (if rtest hostIdRx (saved_id p) then saved_id p else uuid n) (toInput p) host = Inl e"
    using Cons.prems by blast
  then show ?case using Cons.IH [OF Cons.prems] by (simp split: if_splits)
qed simp

section \<open>Properties\<close>

text \<open>What a paper is when it comes from the app: documents are objects, page numbers are those a citation may
  have, the optional fields that the server always fills are set.\<close>

definition storable :: "saved_question_paper \<Rightarrow> bool" where
  "storable p \<longleftrightarrow> asRecord (Some (questionDocument p)) = questionDocument p \<and>
     asRecord (Some (answerKeyDocument p)) = answerKeyDocument p \<and>
     (\<forall>s \<in> set (saved_sources p). \<forall>n \<in> set (pages s). 0 < n \<and> n \<le> 10000) \<and>
     saved_syllabusCode p \<noteq> Some [] \<and> saved_difficulty p \<noteq> None \<and> sourceMode p \<noteq> None \<and> rightsConfirmed p \<noteq> None \<and>
     (case advanced p of None \<Rightarrow> True | Some a \<Rightarrow> asRecord (Some a) = a \<and> field a ''year'' \<noteq> None) \<and>
     paperSpec p \<noteq> Some JNull"

text \<open>A paper that is saved and read back is the same paper: the row that the host keeps of what
  \<open>toInput\<close> sent becomes, by \<open>fromRow\<close>, the paper it was made from.\<close>

theorem saved_paper_roundtrip:
  assumes "storable p"
  shows "fromRow \<lparr>row_id = saved_id p, row_owner_id = owner, row_input = toInput p,
           row_created_at = createdAt p, row_updated_at = updatedAt p\<rparr> = p"
proof -
  have d: "asRecord (Some (questionDocument p)) = questionDocument p" "asRecord (Some (answerKeyDocument p)) = answerKeyDocument p"
    using assms by (simp_all add: storable_def)
  have s: "asSources (JArr (map sourceJson (saved_sources p))) = saved_sources p"
    using assms by (intro asSources_back) (simp add: storable_def)
  have b: "List.find (\<lambda>b. boardText b = (case saved_board p of Some b \<Rightarrow> boardText b | None \<Rightarrow> [])) BOARDS = saved_board p"
    by (cases "saved_board p") (simp add: BOARDS_def boardText_def js_def, simp)
  have y: "(if (case saved_syllabusCode p of Some s \<Rightarrow> s | None \<Rightarrow> []) = [] then None
      else Some (case saved_syllabusCode p of Some s \<Rightarrow> s | None \<Rightarrow> [])) = saved_syllabusCode p"
    using assms by (cases "saved_syllabusCode p") (simp_all add: storable_def)
  obtain l m r where o: "saved_difficulty p = Some l" "sourceMode p = Some m" "rightsConfirmed p = Some r"
    using assms by (auto simp: storable_def)
  have e: "asRecord (Some (JObj fs)) = JObj fs" for fs by (simp add: asRecord_def)
  let ?adv = "asRecord (Some (case advanced p of Some a \<Rightarrow> a | None \<Rightarrow> JObj []))"
  have a: "(if field ?adv ''year'' = None then None else Some ?adv) = advanced p"
    using assms by (cases "advanced p") (auto simp: storable_def e)
  have t: "coalesce (Some (case paperSpec p of Some v \<Rightarrow> v | None \<Rightarrow> JNull)) None = paperSpec p"
    using assms by (cases "paperSpec p") (auto simp: storable_def coalesce_def split: json.splits)
  have k: "field (JObj [(js ''paper'', v), (js ''questionText'', w), (js ''questionDocument'', x)]) ''paper'' = Some v"
    "field (JObj [(js ''paper'', v), (js ''questionText'', w), (js ''questionDocument'', x)]) ''questionText'' = Some w"
    "field (JObj [(js ''paper'', v), (js ''questionText'', w), (js ''questionDocument'', x)]) ''questionDocument'' = Some x"
    "field (JObj [(js ''answerKeyText'', v), (js ''answerKeyDocument'', w)]) ''answerKeyText'' = Some v"
    "field (JObj [(js ''answerKeyText'', v), (js ''answerKeyDocument'', w)]) ''answerKeyDocument'' = Some w" for v w x
    by (simp_all add: js_def)
  show ?thesis
    unfolding fromRow_def toInput_def Let_def
    by (rule saved_question_paper.equality)
      (simp_all only: saved_question_paper.select_convs question_paper.select_convs save_question_paper_input.select_convs
        e k textField_def d s b y o a t option.case json.case find_levelNumber find_modeText, simp)
qed

definition savedExample :: saved_question_paper where
  "savedExample = \<lparr>saved_id = js ''p1'', saved_title = js ''Waves'', saved_subject = js ''Physics'', questionText = js ''1. Define'',
     questionDocument = JObj [], saved_answerKeyText = js ''1. A'', answerKeyDocument = JObj [],
     saved_sources = [\<lparr>source_name = js ''9702'', pages = [3, 4]\<rparr>], classroomId = None, saved_board = Some CIE,
     saved_syllabusCode = None, saved_difficulty = Some Level3, sourceMode = Some Excerpt, rightsConfirmed = Some True,
     advanced = Some (JObj [(js ''year'', JStr (js ''2024''))]), paperSpec = None, createdAt = js ''t0'', updatedAt = js ''t1''\<rparr>"

theorem saved_paper_roundtrip_witness:
  "fromRow \<lparr>row_id = js ''p1'', row_owner_id = js ''u1'', row_input = toInput savedExample,
     row_created_at = js ''t0'', row_updated_at = js ''t1''\<rparr> = savedExample"
proof -
  have "storable savedExample" by code_simp
  moreover have "saved_id savedExample = js ''p1''" "createdAt savedExample = js ''t0''" "updatedAt savedExample = js ''t1''"
    by (simp_all add: savedExample_def)
  ultimately show ?thesis using saved_paper_roundtrip [of savedExample "js ''u1''"] by simp
qed

text \<open>The move of local papers happens once: whatever the first run met, the second leaves the browser's
  storage and the host as they are, and the first leaves every other key of the storage alone.\<close>

theorem migration_runs_once:
  assumes "now \<noteq> []"
  shows "let st' = migrateLocalPapers save uuid now db st in
    migrateLocalPapers save' uuid' now' db' st' = st' \<and>
    (\<forall>k. getItem (fst st') k = (if k = MIGRATED_KEY then getItem (fst st') k else getItem (fst st) k))"
proof -
  obtain storage host where st: "st = (storage, host)" by (cases st)
  obtain c marker where n: "now = c # marker" using assms by (cases now) auto
  show ?thesis
    by (auto simp: migrateLocalPapers_def st n Let_def ls.get_put split: option.splits list.splits)
qed

text \<open>A move that fails is final: when the host refuses every paper (it is not reachable, or the session
  has expired), or the old database cannot be read, nothing reaches the host, and the marker is set all the
  same, so no later visit tries again and the papers are listed nowhere.\<close>

theorem failed_migration_is_final:
  assumes "\<And>i inp h. \<exists>e. save i inp h = Inl e" and "getItem storage MIGRATED_KEY = None" and "now \<noteq> []"
  shows "let st' = migrateLocalPapers save uuid now db (storage, host) in
    snd st' = host \<and> getItem (fst st') MIGRATED_KEY = Some now \<and>
    migrateLocalPapers save' uuid' now' db st' = st'"
proof -
  obtain c marker where n: "now = c # marker" using assms(3) by (cases now) auto
  have m: "moveLoop save uuid 0 ps host = host" for ps by (rule moveLoop_failing [OF assms(1)])
  show ?thesis
    using assms(2) by (auto simp: migrateLocalPapers_def n Let_def m split: option.splits)
qed

theorem migration_runs_once_witness:
  "let st' = migrateLocalPapers (\<lambda>i inp h. Inr ((i, inp) # h)) (\<lambda>_. js ''u'') (js ''now'') (LocalRecords [Unusable]) ([], []) in
    migrateLocalPapers (\<lambda>i inp h. Inr ((i, inp) # h)) (\<lambda>_. js ''u'') (js ''later'') (LocalRecords [Usable savedExample]) st' = st'"
  using migration_runs_once [of "js ''now''" "\<lambda>i inp h. Inr ((i, inp) # h)" "\<lambda>_. js ''u''" "LocalRecords [Unusable]" "([], [])"
      "\<lambda>i inp h. Inr ((i, inp) # h)" "\<lambda>_. js ''u''" "js ''later''" "LocalRecords [Usable savedExample]"]
  by (simp add: js_def Let_def)

theorem failed_migration_is_final_witness:
  "let st' = migrateLocalPapers (\<lambda>i inp h. Inl (js ''offline'')) (\<lambda>_. js ''u'') (js ''now'') (LocalRecords [Usable savedExample]) ([], []) in
    snd st' = [] \<and> migrateLocalPapers (\<lambda>i inp h. Inr ((i, inp) # h)) (\<lambda>_. js ''u'') (js ''later'') (LocalRecords [Usable savedExample]) st' = st'"
  using failed_migration_is_final [of "\<lambda>i inp h. Inl (js ''offline'')" "[]" "js ''now''" "\<lambda>_. js ''u''" "LocalRecords [Usable savedExample]" "[]"
      "\<lambda>i inp h. Inr ((i, inp) # h)" "\<lambda>_. js ''u''" "js ''later''"]
  by (simp add: js_def getItem_def Let_def)

end
