(* ===== verification/Host_Transport.thy ===== *)
theory Host_Transport
  imports Paper_Logic "HOL-Library.Word"
begin

text \<open>
  How the apps reach Cinder Host: the frame in which a request crosses to the native side
  (\<open>packages/ui/src/hostTransport.ts\<close>), the health check (\<open>health.ts\<close>) and the request layer of
  \<open>CinderApi\<close> (\<open>api.ts\<close>) with the errors it reports.

  Bytes are 8-bit words. \<open>TextEncoder\<close> after \<open>JSON.stringify\<close>, and \<open>JSON.parse\<close> after
  \<open>TextDecoder\<close>, are parameters. What comes back from the network is a parameter too: the raw outcome of
  the native call, or of \<open>fetch\<close> in a browser.
\<close>

unbundle bit_operations_syntax

section \<open>Frames\<close>

type_synonym bytes = "8 word list"

text \<open>\<open>DataView.setUint32\<close> takes its argument modulo \<open>2 ^ 32\<close>, high byte first.\<close>

definition uint32Bytes :: "32 word \<Rightarrow> bytes" where
  "uint32Bytes w = [ucast (drop_bit 24 w), ucast (drop_bit 16 w), ucast (drop_bit 8 w), ucast w]"

definition bytesUint32 :: "bytes \<Rightarrow> 32 word" where
  "bytesUint32 bs =
     push_bit 24 (ucast (bs ! 0)) OR push_bit 16 (ucast (bs ! 1)) OR push_bit 8 (ucast (bs ! 2)) OR ucast (bs ! 3)"

definition frame :: "('h \<Rightarrow> bytes) \<Rightarrow> 'h \<Rightarrow> bytes \<Rightarrow> bytes" where
  "frame encode head body = uint32Bytes (of_nat (length (encode head))) @ encode head @ body"

text \<open>\<open>getUint32\<close> throws on a buffer of less than four bytes; \<open>subarray\<close> and \<open>slice\<close> clamp their bounds.\<close>

definition unframe :: "(bytes \<Rightarrow> 'h option) \<Rightarrow> bytes \<Rightarrow> ('h \<times> bytes) option" where
  "unframe decode raw =
     (if length raw < 4 then None
      else (let n = unat (bytesUint32 (take 4 raw))
            in map_option (\<lambda>head. (head, drop (4 + n) raw)) (decode (take n (drop 4 raw)))))"

section \<open>Errors and responses\<close>

record response =
  resp_status :: int
  resp_json :: "json option"

datatype fetch_error = HostTransportError jsstring jsstring | OtherError

definition NAMED_FAILURES :: "jsstring list" where
  "NAMED_FAILURES = map js [''host_identity_changed'', ''host_outdated'', ''invalid'']"

text \<open>The text of a failed native call, as \<open>hostFetch\<close> rethrows it.\<close>

definition hostFetchError :: "jsstring \<Rightarrow> fetch_error" where
  "hostFetchError text =
     (case List.find (\<lambda>known. startsWith text (known @ [58])) NAMED_FAILURES of
        Some code \<Rightarrow> HostTransportError code (trim (drop (length code + 1) text))
      | None \<Rightarrow> OtherError)"

record api_error =
  err_code :: jsstring
  err_message :: jsstring
  err_status :: int

definition offline :: "api_error \<Rightarrow> bool" where
  "offline e \<longleftrightarrow> err_status e = 0"

text \<open>A call yields a value, nothing (status 204), an \<open>ApiError\<close>, or the \<open>SyntaxError\<close> of a
  successful response whose body is not JSON.\<close>

datatype api_result = Value json | NoContent | ApiFailure api_error | BodyError

definition isOk :: "response \<Rightarrow> bool" where
  "isOk r \<longleftrightarrow> 200 \<le> resp_status r \<and> resp_status r \<le> 299"

definition fieldOr :: "js_env \<Rightarrow> json option \<Rightarrow> string \<Rightarrow> jsstring \<Rightarrow> jsstring" where
  "fieldOr U body k fallback =
     (case coalesce (case body of Some v \<Rightarrow> field v k | None \<Rightarrow> None) None of
        Some v \<Rightarrow> jsonText U v | None \<Rightarrow> fallback)"

definition unreachable :: jsstring where
  "unreachable = js ''The teacher computer is currently unreachable.''"

text \<open>\<open>aborted\<close> tells whether the timer fired before the failure.\<close>

definition transportFailure :: "jsstring \<Rightarrow> bool \<Rightarrow> fetch_error \<Rightarrow> api_error" where
  "transportFailure timeoutMessage aborted err = (case err of
      HostTransportError code message \<Rightarrow> \<lparr>err_code = code, err_message = message, err_status = 0\<rparr>
    | OtherError \<Rightarrow>
        \<lparr>err_code = (if aborted then js ''timeout'' else js ''offline''),
         err_message = (if aborted then timeoutMessage else unreachable), err_status = 0\<rparr>)"

definition request :: "js_env \<Rightarrow> bool \<Rightarrow> fetch_error + response \<Rightarrow> api_result" where
  "request U aborted outcome = (case outcome of
      Inl err \<Rightarrow> ApiFailure (transportFailure (js ''The teacher computer did not respond in time.'') aborted err)
    | Inr r \<Rightarrow>
        if \<not> isOk r then
          ApiFailure \<lparr>err_code = fieldOr U (resp_json r) ''error'' (js ''request_failed''),
            err_message = fieldOr U (resp_json r) ''message'' (js ''Request failed ('' @ showInt (resp_status r) @ js '')''),
            err_status = resp_status r\<rparr>
        else if resp_status r = 204 then NoContent
        else (case resp_json r of Some v \<Rightarrow> Value v | None \<Rightarrow> BodyError))"

section \<open>Health\<close>

definition isCinderHealthResponse :: "json \<Rightarrow> bool" where
  "isCinderHealthResponse v \<longleftrightarrow> isObject (Some v) \<and> field v ''ok'' = Some (JBool True) \<and>
     (case field v ''version'' of Some (JStr s) \<Rightarrow> trim s \<noteq> [] | _ \<Rightarrow> False)"

definition health :: "js_env \<Rightarrow> bool \<Rightarrow> fetch_error + response \<Rightarrow> api_result" where
  "health U aborted outcome =
     (let notHost = ApiFailure \<lparr>err_code = js ''invalid_host'',
              err_message = js ''The server did not identify as Cinder Host.'', err_status = 200\<rparr>
      in case request U aborted outcome of
           Value v \<Rightarrow> if isCinderHealthResponse v then Value v else notHost
         | NoContent \<Rightarrow> notHost
         | r \<Rightarrow> r)"

definition probeHost :: "js_env \<Rightarrow> bool \<Rightarrow> fetch_error + response \<Rightarrow> bool" where
  "probeHost U aborted outcome = (case health U aborted outcome of Value _ \<Rightarrow> True | _ \<Rightarrow> False)"

definition materialBlob :: "bool \<Rightarrow> fetch_error + (int \<times> bytes) \<Rightarrow> api_error + bytes" where
  "materialBlob aborted outcome = (case outcome of
      Inl err \<Rightarrow> Inl (transportFailure (js ''The material download timed out.'') aborted err)
    | Inr (status, blob) \<Rightarrow>
        if \<not> (200 \<le> status \<and> status \<le> 299)
        then Inl \<lparr>err_code = js ''request_failed'', err_message = js ''The material could not be opened.'', err_status = status\<rparr>
        else Inr blob)"

section \<open>Lemmas\<close>

lemma uint32_roundtrip: "bytesUint32 (uint32Bytes w) = w"
proof (rule bit_word_eqI)
  fix n
  assume "n < LENGTH(32)"
  then consider "n < 8" | "8 \<le> n" "n < 16" | "16 \<le> n" "n < 24" | "24 \<le> n" "n < 32" by fastforce
  then show "bit (bytesUint32 (uint32Bytes w)) n \<longleftrightarrow> bit w n"
    unfolding bytesUint32_def uint32Bytes_def by cases (auto simp: bit_simps)
qed

lemma unat_length: "n < 2 ^ 32 \<Longrightarrow> unat (of_nat n :: 32 word) = n"
  by (simp add: unat_of_nat)

lemma NAMED_FAILURES_find:
  assumes "code \<in> set NAMED_FAILURES"
  shows "List.find (\<lambda>known. startsWith (code @ 58 # rest) (known @ [58])) NAMED_FAILURES = Some code"
  using assms by (auto simp: NAMED_FAILURES_def startsWith_def js_def)

section \<open>Properties\<close>

text \<open>The native side can take apart what the page puts together and the other way round: reading a
  framed message gives back the head and the body, for every head whose encoding is shorter than four
  gigabytes.\<close>

theorem frame_roundtrip:
  assumes "decode (encode head) = Some head" and "length (encode head) < 2 ^ 32"
  shows "unframe decode (frame encode head body) = Some (head, body)"
proof -
  let ?e = "encode head"
  have l: "length (uint32Bytes w) = 4" for w by (simp add: uint32Bytes_def)
  have "unat (bytesUint32 (take 4 (frame encode head body))) = length ?e"
    using assms(2) by (simp add: frame_def l uint32_roundtrip unat_length)
  then show ?thesis using assms(1) by (simp add: unframe_def frame_def l)
qed

theorem frame_roundtrip_witness:
  "unframe Some (frame id [1, 2, 3] [9, 9]) = Some ([1, 2, 3], [9, 9 :: 8 word])"
  using frame_roundtrip [of Some id "[1, 2, 3]" "[9, 9]"] by simp

text \<open>A call of the host ends in exactly one of four ways. It counts as offline (status zero) exactly when
  no response arrived (a response has a status of at least 100); a response outside 200 to 299 is an error with
  that status; 204 is an empty result; any other success is the parsed body, or a body error when it does not
  parse. A failure that the native side names keeps its name and its message.\<close>

theorem request_outcomes:
  assumes "\<And>r. outcome = Inr r \<Longrightarrow> 100 \<le> resp_status r" and "code \<in> set NAMED_FAILURES"
  shows "(case request U aborted outcome of
      ApiFailure e \<Rightarrow>
        (if offline e then \<exists>err. outcome = Inl err
         else \<exists>r. outcome = Inr r \<and> err_status e = resp_status r \<and> \<not> isOk r)
    | NoContent \<Rightarrow> \<exists>r. outcome = Inr r \<and> resp_status r = 204
    | Value v \<Rightarrow> \<exists>r. outcome = Inr r \<and> isOk r \<and> resp_status r \<noteq> 204 \<and> resp_json r = Some v
    | BodyError \<Rightarrow> \<exists>r. outcome = Inr r \<and> isOk r \<and> resp_status r \<noteq> 204 \<and> resp_json r = None) \<and>
    request U aborted (Inl (hostFetchError (code @ [58] @ message))) =
      ApiFailure \<lparr>err_code = code, err_message = trim message, err_status = 0\<rparr>"
proof -
  have "request U aborted (Inl (hostFetchError (code @ [58] @ message))) =
      ApiFailure \<lparr>err_code = code, err_message = trim message, err_status = 0\<rparr>"
    using NAMED_FAILURES_find [OF assms(2)] by (simp add: request_def hostFetchError_def transportFailure_def)
  moreover have "resp_status r \<noteq> 0" if "outcome = Inr r" for r using assms(1) [OF that] by simp
  ultimately show ?thesis
    by (cases outcome) (auto simp: request_def transportFailure_def offline_def split: fetch_error.splits option.splits)
qed

theorem request_outcomes_witness:
  "request ascii_env False (Inr \<lparr>resp_status = 503, resp_json = None\<rparr>) =
     ApiFailure \<lparr>err_code = js ''request_failed'', err_message = js ''Request failed (503)'', err_status = 503\<rparr> \<and>
   request ascii_env False (Inl (hostFetchError (js ''host_outdated'' @ [58] @ js '' Update Cinder Host.''))) =
     ApiFailure \<lparr>err_code = js ''host_outdated'', err_message = trim (js '' Update Cinder Host.''), err_status = 0\<rparr>"
proof -
  have "request ascii_env False (Inr \<lparr>resp_status = 503, resp_json = None\<rparr>) =
     ApiFailure \<lparr>err_code = js ''request_failed'', err_message = js ''Request failed (503)'', err_status = 503\<rparr>" by code_simp
  moreover have "js ''host_outdated'' \<in> set NAMED_FAILURES" by code_simp
  ultimately show ?thesis
    using request_outcomes [of "Inr \<lparr>resp_status = 503, resp_json = None\<rparr>" "js ''host_outdated''" ascii_env False "js '' Update Cinder Host.''"]
    by simp
qed

text \<open>A server passes for Cinder Host only if it answers the health request with a success whose body says
  \<open>ok: true\<close> and names a version that is not blank.\<close>

theorem probe_accepts_only_cinder_host:
  "probeHost U aborted outcome \<longleftrightarrow>
   (\<exists>r v. outcome = Inr r \<and> isOk r \<and> resp_status r \<noteq> 204 \<and> resp_json r = Some v \<and>
      field v ''ok'' = Some (JBool True) \<and> (\<exists>s. field v ''version'' = Some (JStr s) \<and> trim s \<noteq> []))"
proof -
  have "isObject (Some v)" if "field v ''ok'' = Some (JBool True)" for v using that by (cases v) (simp_all add: isObject_def)
  then have h: "isCinderHealthResponse v \<longleftrightarrow> field v ''ok'' = Some (JBool True) \<and> (\<exists>s. field v ''version'' = Some (JStr s) \<and> trim s \<noteq> [])" for v
    by (auto simp: isCinderHealthResponse_def split: option.splits json.splits)
  show ?thesis
    unfolding probeHost_def health_def Let_def request_def h by (auto split: sum.splits option.splits)
qed

end
