(* ===== verification/Host_Api.thy ===== *)
theory Host_Api
  imports Host_Transport
begin

text \<open>
  The calls of \<open>CinderApi\<close> (\<open>packages/ui/src/api.ts\<close>): for every method of the class, the HTTP method,
  the path, the body and the time limit it hands to \<open>request\<close>, and the URL and headers that
  \<open>request\<close> builds. An argument that the method passes on as the body is a JSON value here; a field
  that is \<open>undefined\<close> is left out, as \<open>JSON.stringify\<close> does.
\<close>

section \<open>Requests\<close>

datatype http_method = GET | POST | PUT | PATCH | DELETE

datatype http_body = JsonBody json | FormBody

record http_request =
  req_method :: http_method
  req_path :: jsstring
  req_query :: "(jsstring \<times> jsstring) option"
  req_body :: "http_body option"
  req_timeout :: int

definition api :: "http_method \<Rightarrow> jsstring list \<Rightarrow> json option \<Rightarrow> http_request" where
  "api m segments body =
     \<lparr>req_method = m, req_path = concat (map (\<lambda>s. 47 # s) (js ''api'' # segments)), req_query = None,
      req_body = map_option JsonBody body, req_timeout = 10000\<rparr>"

abbreviation limited :: "int \<Rightarrow> http_request \<Rightarrow> http_request" where
  "limited ms r \<equiv> r\<lparr>req_timeout := ms\<rparr>"

text \<open>A classroom in the query of a path: what stands before it, and its identifier, which is encoded when the URL is built.\<close>

definition query :: "string \<Rightarrow> jsstring option \<Rightarrow> http_request \<Rightarrow> http_request" where
  "query k v r = (case v of
      Some (c # s) \<Rightarrow> r\<lparr>req_query := Some (js ''?'' @ js k @ js ''='', c # s)\<rparr>
    | _ \<Rightarrow> r)"

abbreviation str :: "string \<Rightarrow> jsstring \<Rightarrow> jsstring \<times> json" where
  "str k v \<equiv> (js k, JStr v)"

definition strOrNull :: "string \<Rightarrow> jsstring option \<Rightarrow> jsstring \<times> json" where
  "strOrNull k v = (js k, case v of Some (c # s) \<Rightarrow> JStr (c # s) | _ \<Rightarrow> JNull)"

definition nullable :: "string \<Rightarrow> jsstring option \<Rightarrow> jsstring \<times> json" where
  "nullable k v = (js k, case v of Some s \<Rightarrow> JStr s | None \<Rightarrow> JNull)"

definition roleText :: "role \<Rightarrow> jsstring" where
  "roleText r = (case r of Student \<Rightarrow> js ''student'' | Teacher \<Rightarrow> js ''teacher'')"

section \<open>Accounts\<close>

datatype account_call =
    Health int | AuthStatus
  | Login jsstring jsstring role "jsstring option"
  | Me | Logout
  | BootstrapTeacher jsstring jsstring jsstring jsstring
  | RegisterTeacher jsstring jsstring jsstring jsstring
  | GenerateTeacherInvite | TeacherAccounts
  | DeleteTeacher jsstring jsstring
  | RecoverTeacher jsstring jsstring jsstring
  | ChangePassword jsstring jsstring

datatype student_call =
    Students | CreateStudent json
  | ResetStudentCredentials jsstring
  | UpdateStudent jsstring json
  | DeleteStudent jsstring
  | RecoverStudent jsstring jsstring jsstring

definition account_request :: "account_call \<Rightarrow> http_request" where
  "account_request c = (case c of
      Health ms \<Rightarrow> limited ms (api GET [js ''health''] None)
    | AuthStatus \<Rightarrow> limited 2000 (api GET [js ''auth'', js ''status''] None)
    | Login uname password expectedRole deviceLabel \<Rightarrow>
        api POST [js ''auth'', js ''login'']
          (Some (JObj [str ''username'' uname, str ''password'' password, str ''expected_role'' (roleText expectedRole),
                       strOrNull ''device_label'' deviceLabel]))
    | Me \<Rightarrow> limited 4000 (api GET [js ''me''] None)
    | Logout \<Rightarrow> api POST [js ''auth'', js ''logout''] None
    | BootstrapTeacher uname displayName password bootstrapPin \<Rightarrow>
        api POST [js ''auth'', js ''bootstrap'']
          (Some (JObj [str ''username'' uname, str ''display_name'' displayName, str ''password'' password,
                       str ''bootstrap_pin'' bootstrapPin]))
    | RegisterTeacher uname displayName password invitePin \<Rightarrow>
        api POST [js ''auth'', js ''register-teacher'']
          (Some (JObj [str ''username'' uname, str ''display_name'' displayName, str ''password'' password,
                       str ''invite_pin'' invitePin]))
    | GenerateTeacherInvite \<Rightarrow> api POST [js ''teacher'', js ''invite-pin''] None
    | TeacherAccounts \<Rightarrow> api GET [js ''teacher'', js ''accounts''] None
    | DeleteTeacher teacherId currentPassword \<Rightarrow>
        api DELETE [js ''teacher'', js ''accounts'', teacherId] (Some (JObj [str ''current_password'' currentPassword]))
    | RecoverTeacher uname recoveryCode newPassword \<Rightarrow>
        api POST [js ''auth'', js ''recover'']
          (Some (JObj [str ''username'' uname, str ''recovery_code'' recoveryCode, str ''new_password'' newPassword]))
    | ChangePassword currentPassword newPassword \<Rightarrow>
        api POST [js ''auth'', js ''change-password'']
          (Some (JObj [str ''current_password'' currentPassword, str ''new_password'' newPassword])))"

definition student_request :: "student_call \<Rightarrow> http_request" where
  "student_request c = (case c of
      Students \<Rightarrow> api GET [js ''teacher'', js ''users''] None
    | CreateStudent input \<Rightarrow> api POST [js ''teacher'', js ''users''] (Some input)
    | ResetStudentCredentials studentId \<Rightarrow> api POST [js ''teacher'', js ''users'', studentId, js ''reset-credentials''] None
    | UpdateStudent studentId input \<Rightarrow> api PATCH [js ''teacher'', js ''users'', studentId] (Some input)
    | DeleteStudent studentId \<Rightarrow> api DELETE [js ''teacher'', js ''users'', studentId] None
    | RecoverStudent uname recoveryCode newPassword \<Rightarrow>
        api POST [js ''auth'', js ''student-recover'']
          (Some (JObj [str ''username'' uname, str ''recovery_code'' recoveryCode, str ''new_password'' newPassword])))"

section \<open>Classrooms\<close>

datatype classroom_call =
    Classrooms | JoinClassroom jsstring | ClassroomTeachers jsstring
  | AddClassroomTeacher jsstring jsstring | RemoveClassroomTeacher jsstring jsstring
  | CreateClassroom json | UpdateClassroom jsstring json | DeleteClassroom jsstring
  | ClassroomRoster jsstring | EnrolStudent jsstring jsstring | RemoveStudent jsstring jsstring

datatype live_call =
    StartLiveSession json | ActiveLiveSession jsstring | ActiveStudentLiveSessions
  | JoinLiveSession jsstring | JoinLiveSessionById jsstring | AssignLiveSessionTask jsstring json
  | AcknowledgeLiveSessionTask jsstring rat jsstring | LiveSessionHistory jsstring
  | LiveSessionDetails jsstring | SubmitLiveSessionResult jsstring json | EndLiveSession jsstring

definition classroom_request :: "classroom_call \<Rightarrow> http_request" where
  "classroom_request c = (case c of
      Classrooms \<Rightarrow> api GET [js ''classrooms''] None
    | JoinClassroom code \<Rightarrow> api POST [js ''classrooms'', js ''join''] (Some (JObj [str ''code'' code]))
    | ClassroomTeachers i \<Rightarrow> api GET [js ''classrooms'', i, js ''teachers''] None
    | AddClassroomTeacher i teacherId \<Rightarrow> api POST [js ''classrooms'', i, js ''teachers''] (Some (JObj [str ''teacher_id'' teacherId]))
    | RemoveClassroomTeacher i teacherId \<Rightarrow> api DELETE [js ''classrooms'', i, js ''teachers'', teacherId] None
    | CreateClassroom input \<Rightarrow> api POST [js ''classrooms''] (Some input)
    | UpdateClassroom i input \<Rightarrow> api PATCH [js ''classrooms'', i] (Some input)
    | DeleteClassroom i \<Rightarrow> api DELETE [js ''classrooms'', i] None
    | ClassroomRoster i \<Rightarrow> api GET [js ''classrooms'', i] None
    | EnrolStudent i studentId \<Rightarrow> api POST [js ''classrooms'', i, js ''students''] (Some (JObj [str ''student_id'' studentId]))
    | RemoveStudent i studentId \<Rightarrow> api DELETE [js ''classrooms'', i, js ''students'', studentId] None)"

section \<open>Live sessions\<close>

definition live_request :: "live_call \<Rightarrow> http_request" where
  "live_request c = (case c of
      StartLiveSession input \<Rightarrow> api POST [js ''live-sessions''] (Some input)
    | ActiveLiveSession i \<Rightarrow> api GET [js ''classrooms'', i, js ''live-session''] None
    | ActiveStudentLiveSessions \<Rightarrow> api GET [js ''live-sessions'', js ''active''] None
    | JoinLiveSession code \<Rightarrow> api POST [js ''live-sessions'', js ''join''] (Some (JObj [str ''code'' code]))
    | JoinLiveSessionById i \<Rightarrow> api POST [js ''live-sessions'', i, js ''join''] None
    | AssignLiveSessionTask i input \<Rightarrow> api POST [js ''live-sessions'', i, js ''task''] (Some input)
    | AcknowledgeLiveSessionTask i revision state \<Rightarrow>
        api POST [js ''live-sessions'', i, js ''task-ack''] (Some (JObj [(js ''revision'', JNum revision), str ''state'' state]))
    | LiveSessionHistory i \<Rightarrow> api GET [js ''classrooms'', i, js ''live-sessions''] None
    | LiveSessionDetails i \<Rightarrow> api GET [js ''live-sessions'', i] None
    | SubmitLiveSessionResult i input \<Rightarrow> api POST [js ''live-sessions'', i, js ''result''] (Some input)
    | EndLiveSession i \<Rightarrow> api POST [js ''live-sessions'', i, js ''end''] None)"

section \<open>Quizzes\<close>

datatype quiz_call =
    Quizzes "jsstring option" | CreateQuiz json | UpdateQuiz jsstring json | DuplicateQuiz jsstring
  | PublishQuiz jsstring | ArchiveQuiz jsstring | DeliverQuiz jsstring json | QuizDeliveries "jsstring option"
  | StartQuizAttempt jsstring | QuizAttempt jsstring | QuizAttempts jsstring
  | SaveQuizResponse jsstring jsstring json | SubmitQuizAttempt jsstring | ReopenQuizAttempt jsstring
  | GradeQuizResponse jsstring jsstring rat jsstring | ReleaseQuizResults jsstring | QuizStatistics jsstring

definition quiz_request :: "quiz_call \<Rightarrow> http_request" where
  "quiz_request c = (case c of
      Quizzes classroom \<Rightarrow> query ''classroom_id'' classroom (api GET [js ''quizzes''] None)
    | CreateQuiz input \<Rightarrow> api POST [js ''quizzes''] (Some input)
    | UpdateQuiz i input \<Rightarrow> api PATCH [js ''quizzes'', i] (Some input)
    | DuplicateQuiz i \<Rightarrow> api POST [js ''quizzes'', i, js ''duplicate''] None
    | PublishQuiz i \<Rightarrow> api POST [js ''quizzes'', i, js ''publish''] None
    | ArchiveQuiz i \<Rightarrow> api DELETE [js ''quizzes'', i] None
    | DeliverQuiz i input \<Rightarrow> api POST [js ''quizzes'', i, js ''deliver''] (Some input)
    | QuizDeliveries classroom \<Rightarrow> query ''classroom_id'' classroom (api GET [js ''quiz-deliveries''] None)
    | StartQuizAttempt i \<Rightarrow> api POST [js ''quiz-deliveries'', i, js ''start''] None
    | QuizAttempt i \<Rightarrow> api GET [js ''quiz-attempts'', i] None
    | QuizAttempts i \<Rightarrow> api GET [js ''quiz-deliveries'', i, js ''attempts''] None
    | SaveQuizResponse i questionId ans \<Rightarrow> api PUT [js ''quiz-attempts'', i, js ''responses'', questionId] (Some (JObj [(js ''answer'', ans)]))
    | SubmitQuizAttempt i \<Rightarrow> api POST [js ''quiz-attempts'', i, js ''submit''] None
    | ReopenQuizAttempt i \<Rightarrow> api POST [js ''quiz-attempts'', i, js ''reopen''] None
    | GradeQuizResponse i questionId points feedback \<Rightarrow>
        api PUT [js ''quiz-attempts'', i, js ''responses'', questionId, js ''grade'']
          (Some (JObj [(js ''points'', JNum points), str ''feedback'' feedback]))
    | ReleaseQuizResults i \<Rightarrow> api POST [js ''quiz-deliveries'', i, js ''release''] None
    | QuizStatistics i \<Rightarrow> api GET [js ''quiz-deliveries'', i, js ''stats''] None)"

section \<open>Assignments, submissions, attendance\<close>

datatype coursework_call =
    Assignments "jsstring option" | CreateAssignment json | UpdateAssignment jsstring json | DeleteAssignment jsstring
  | Submissions jsstring | MySubmission jsstring | SubmitWork jsstring json jsstring "jsstring option"
  | WithdrawWork jsstring | SaveGrade jsstring json | Comments jsstring | AddComment jsstring jsstring json
  | GradeHistory jsstring | Attendance jsstring jsstring
  | SaveAttendance jsstring jsstring jsstring jsstring jsstring | Dashboard

definition coursework_request :: "coursework_call \<Rightarrow> http_request" where
  "coursework_request c = (case c of
      Assignments classroom \<Rightarrow> query ''classroom_id'' classroom (api GET [js ''assignments''] None)
    | CreateAssignment input \<Rightarrow> api POST [js ''assignments''] (Some input)
    | UpdateAssignment i input \<Rightarrow> api PATCH [js ''assignments'', i] (Some input)
    | DeleteAssignment i \<Rightarrow> api DELETE [js ''assignments'', i] None
    | Submissions i \<Rightarrow> api GET [js ''assignments'', i, js ''submissions''] None
    | MySubmission i \<Rightarrow> api GET [js ''assignments'', i, js ''submission''] None
    | SubmitWork i docJson plaintext changeNote \<Rightarrow>
        api PUT [js ''assignments'', i, js ''submission'']
          (Some (JObj [(js ''doc_json'', docJson), str ''plaintext'' plaintext, strOrNull ''change_note'' changeNote]))
    | WithdrawWork i \<Rightarrow> api DELETE [js ''assignments'', i, js ''submission''] None
    | SaveGrade i input \<Rightarrow> api PUT [js ''submissions'', i, js ''grade''] (Some input)
    | Comments i \<Rightarrow> api GET [js ''submissions'', i, js ''comments''] None
    | AddComment i body anchor \<Rightarrow>
        api POST [js ''submissions'', i, js ''comments''] (Some (JObj [str ''body'' body, (js ''anchor'', anchor)]))
    | GradeHistory i \<Rightarrow> api GET [js ''submissions'', i, js ''grade-history''] None
    | Attendance i day \<Rightarrow> api GET [js ''classrooms'', i, js ''attendance'', day] None
    | SaveAttendance i day studentId status note \<Rightarrow>
        api PUT [js ''classrooms'', i, js ''attendance'', day]
          (Some (JObj [str ''student_id'' studentId, str ''status'' status, str ''note'' note]))
    | Dashboard \<Rightarrow> api GET [js ''teacher'', js ''dashboard''] None)"

section \<open>Study tree and notes\<close>

datatype library_call =
    Tree | CreateNode json | UpdateNode jsstring json | DeleteNode jsstring | UploadMaterial jsstring | MaterialBlob jsstring
  | Note jsstring | SaveNote jsstring json jsstring "jsstring option"

datatype paper_call =
    SearchPapers jsstring | FetchPaperSource jsstring
  | FindPaperFigures json | QuestionPapers | SaveQuestionPaper jsstring json | DeleteQuestionPaper jsstring
  | Chat json "jsstring option" "rat option" | Cards jsstring | CreateCard jsstring jsstring jsstring | DeleteCard jsstring

definition library_request :: "library_call \<Rightarrow> http_request" where
  "library_request c = (case c of
      Tree \<Rightarrow> api GET [js ''tree''] None
    | CreateNode input \<Rightarrow> api POST [js ''nodes''] (Some input)
    | UpdateNode i input \<Rightarrow> api PATCH [js ''nodes'', i] (Some input)
    | DeleteNode i \<Rightarrow> api DELETE [js ''nodes'', i] None
    | UploadMaterial classroom \<Rightarrow>
        limited 60000 ((api POST [js ''files''] None)
          \<lparr>req_query := Some (js ''?shared=true&classroom_id='', classroom), req_body := Some FormBody\<rparr>)
    | MaterialBlob i \<Rightarrow> limited 60000 (api GET [js ''files'', i] None)
    | Note i \<Rightarrow> api GET [js ''notes'', i] None
    | SaveNote i docJson plaintext baseUpdatedAt \<Rightarrow>
        api PUT [js ''notes'', i]
          (Some (JObj [(js ''doc_json'', docJson), str ''plaintext'' plaintext, nullable ''base_updated_at'' baseUpdatedAt])))"

section \<open>Papers, assistant, cards\<close>

definition paper_request :: "paper_call \<Rightarrow> http_request" where
  "paper_request c = (case c of
      SearchPapers q \<Rightarrow> limited 120000 (api POST [js ''papers'', js ''search''] (Some (JObj [str ''query'' q])))
    | FetchPaperSource url \<Rightarrow> limited 120000 (api POST [js ''papers'', js ''fetch''] (Some (JObj [str ''url'' url])))
    | FindPaperFigures ps \<Rightarrow> limited 190000 (api POST [js ''papers'', js ''figures''] (Some (JObj [(js ''pages'', ps)])))
    | QuestionPapers \<Rightarrow> api GET [js ''papers''] None
    | SaveQuestionPaper i input \<Rightarrow> api PATCH [js ''papers'', i] (Some input)
    | DeleteQuestionPaper i \<Rightarrow> api DELETE [js ''papers'', i] None
    | Chat messages context maxOutputTokens \<Rightarrow>
        limited 190000 (api POST [js ''ai'', js ''chat'']
          (Some (JObj ([(js ''messages'', messages)] @
             (case context of Some s \<Rightarrow> [str ''context'' s] | None \<Rightarrow> []) @
             (case maxOutputTokens of Some n \<Rightarrow> [(js ''max_output_tokens'', JNum n)] | None \<Rightarrow> [])))))
    | Cards i \<Rightarrow> api GET [js ''decks'', i, js ''cards''] None
    | CreateCard i front back \<Rightarrow>
        api POST [js ''decks'', i, js ''cards'']
          (Some (JObj [str ''front'' front, str ''back'' back, (js ''source_node_id'', JNull), (js ''source_excerpt'', JNull)]))
    | DeleteCard i \<Rightarrow> api DELETE [js ''cards'', i] None)"

section \<open>URL and headers\<close>

datatype api_call =
    Account account_call | StudentCall student_call | ClassroomCall classroom_call | LiveCall live_call | QuizCall quiz_call
  | Coursework coursework_call | Library library_call | PaperCall paper_call

definition call_request :: "api_call \<Rightarrow> http_request" where
  "call_request c = (case c of
      Account a \<Rightarrow> account_request a | StudentCall a \<Rightarrow> student_request a | ClassroomCall a \<Rightarrow> classroom_request a
    | LiveCall a \<Rightarrow> live_request a | QuizCall a \<Rightarrow> quiz_request a | Coursework a \<Rightarrow> coursework_request a
    | Library a \<Rightarrow> library_request a | PaperCall a \<Rightarrow> paper_request a)"

text \<open>The constructor removes the slashes at the end of the base URL.\<close>

definition normalBaseUrl :: "jsstring \<Rightarrow> jsstring" where
  "normalBaseUrl u = replaceFirst (Seq (Plus (chr 47)) Eol) (\<lambda>_. []) u"

record cinder_api =
  baseUrl :: jsstring
  token :: "jsstring option"

definition newApi :: "jsstring \<Rightarrow> jsstring option \<Rightarrow> cinder_api" where
  "newApi u t = \<lparr>baseUrl = normalBaseUrl u, token = t\<rparr>"

text \<open>\<open>None\<close>: a classroom's identifier that is not well-formed UTF-16 throws and nothing is sent.\<close>

definition requestUrl :: "cinder_api \<Rightarrow> http_request \<Rightarrow> jsstring option" where
  "requestUrl a r = (case req_query r of
      None \<Rightarrow> Some (baseUrl a @ req_path r)
    | Some (before, v) \<Rightarrow> map_option (\<lambda>e. baseUrl a @ req_path r @ before @ e) (encodeURIComponent v))"

definition requestHeaders :: "cinder_api \<Rightarrow> http_request \<Rightarrow> (jsstring \<times> jsstring) list" where
  "requestHeaders a r =
     (case token a of Some (c # t) \<Rightarrow> [(js ''Authorization'', js ''Bearer '' @ c # t)] | _ \<Rightarrow> []) @
     (case req_body r of Some (JsonBody _) \<Rightarrow> [(js ''Content-Type'', js ''application/json'')] | _ \<Rightarrow> [])"

section \<open>Lemmas\<close>

lemma rmatch_slashes_rest: "q \<in> set (rmatch (Seq (Plus (chr 47)) Eol) p) \<Longrightarrow> fst (snd q) = []"
  by (rule rmatch_seqs_Eol [of q "[Plus (chr 47)]" p, unfolded append.simps seqs.simps])

lemma rmatch_then_Eol: "rmatch (Seq a Eol) p \<noteq> [] \<longleftrightarrow> (\<exists>m \<in> set (rmatch a p). fst (snd m) = [])"
  by (simp add: concat_eq_Nil_conv image_iff split: if_splits) blast

lemma rmatch_slashes:
  "rmatch (Seq (Plus (chr 47)) Eol) (l, s, k) \<noteq> [] \<longleftrightarrow> s \<noteq> [] \<and> (\<forall>c \<in> set s. c = 47)"
proof -
  have "(\<exists>m \<in> set (rmatch (Plus (chr 47)) (l, s, k)). fst (snd m) = []) \<longleftrightarrow>
      (\<exists>l' k'. (l', [], k') \<in> set (rmatch (Plus (chr 47)) (l, s, k)))"
    by (metis fst_conv prod.collapse snd_conv)
  then show ?thesis unfolding rmatch_then_Eol unfolding chr_def in_rmatch_Plus_Cls by auto
qed

lemma rsearch_slashes:
  "rsearch (Seq (Plus (chr 47)) Eol) l s = None \<and> (s = [] \<or> last s \<noteq> 47) \<or>
   (\<exists>m p k. rsearch (Seq (Plus (chr 47)) Eol) l s = Some m \<and> mPre m = rev l @ p \<and> mRest m = [] \<and>
      s = p @ replicate (Suc k) 47 \<and> (p = [] \<or> last p \<noteq> 47))"
proof (induction s arbitrary: l)
  case Nil
  then show ?case using rmatch_slashes [of l "[]" "[]"] by (simp del: rmatch.simps)
next
  case (Cons c s)
  let ?r = "rmatch (Seq (Plus (chr 47)) Eol) (l, c # s, [])"
  show ?case
  proof (cases "\<forall>x \<in> set (c # s). x = 47")
    case True
    then have "?r \<noteq> []" using rmatch_slashes by blast
    then obtain l' s' k' qs where q: "?r = (l', s', k') # qs" by (cases ?r) auto
    have "s' = []" using rmatch_slashes_rest [of "(l', s', k')" "(l, c # s, [])"] q by (simp del: rmatch.simps)
    moreover have "c # s = replicate (Suc (length s)) 47" using True by (simp add: replicate_length_same)
    ultimately show ?thesis using q by (auto simp del: rmatch.simps intro!: exI [of _ "[]"] exI [of _ "length s"])
  next
    case False
    then have r: "?r = []" using rmatch_slashes by blast
    then have e: "rsearch (Seq (Plus (chr 47)) Eol) l (c # s) = rsearch (Seq (Plus (chr 47)) Eol) (c # l) s"
      by (simp del: rmatch.simps)
    from Cons [of "c # l"] consider (none) "rsearch (Seq (Plus (chr 47)) Eol) (c # l) s = None" "s = [] \<or> last s \<noteq> 47" |
      (some) m p k where "rsearch (Seq (Plus (chr 47)) Eol) (c # l) s = Some m" "mPre m = rev (c # l) @ p" "mRest m = []"
        "s = p @ replicate (Suc k) 47" "p = [] \<or> last p \<noteq> 47" by (auto simp del: replicate_Suc)
    then show ?thesis
    proof cases
      case none
      then show ?thesis using e False by (cases s) auto
    next
      case some
      have "p \<noteq> [] \<or> c \<noteq> 47" using False some(4) by auto
      then have "last (c # p) \<noteq> 47" using some(5) by auto
      then show ?thesis using e some by (intro disjI2 exI [of _ m] exI [of _ "c # p"] exI [of _ k]) simp
    qed
  qed
qed

lemma normalBaseUrl_spec: "\<exists>k. u = normalBaseUrl u @ replicate k 47" "normalBaseUrl u = [] \<or> last (normalBaseUrl u) \<noteq> 47"
proof -
  have "(\<exists>k. u = normalBaseUrl u @ replicate k 47) \<and> (normalBaseUrl u = [] \<or> last (normalBaseUrl u) \<noteq> 47)"
  proof -
    from rsearch_slashes [of "[]" u] consider (none) "rexec (Seq (Plus (chr 47)) Eol) u = None" "u = [] \<or> last u \<noteq> 47" |
      (some) m p k where "rexec (Seq (Plus (chr 47)) Eol) u = Some m" "mPre m = p" "mRest m = []"
        "u = p @ replicate (Suc k) 47" "p = [] \<or> last p \<noteq> 47" unfolding rexec_def by auto
    then show ?thesis
    proof cases
      case none
      then show ?thesis by (intro conjI exI [of _ 0]) (simp_all add: normalBaseUrl_def replaceFirst_def)
    next
      case some
      then show ?thesis by (intro conjI exI [of _ "Suc k"]) (simp_all add: normalBaseUrl_def replaceFirst_def del: replicate_Suc)
    qed
  qed
  then show "\<exists>k. u = normalBaseUrl u @ replicate k 47" "normalBaseUrl u = [] \<or> last (normalBaseUrl u) \<noteq> 47" by blast+
qed

lemma api_path [simp]: "\<exists>rest. req_path (api m (s # segments) b) = js ''/api/'' @ rest"
  by (simp add: api_def js_def)

lemma query_path [simp]: "req_path (query k v r) = req_path r"
  by (simp add: query_def split: option.split list.split)

lemma api_simps [simp]:
  "req_method (api m segments b) = m" "req_body (api m segments b) = map_option JsonBody b"
  "req_method (query k v r) = req_method r" "req_body (query k v r) = req_body r"
  by (simp_all add: api_def query_def split: option.splits list.splits)

lemma call_path: "\<exists>rest. req_path (call_request c) = js ''/api/'' @ rest"
proof (cases c)
  case (Account a)
  then show ?thesis by (cases a) (simp_all add: call_request_def account_request_def)
next
  case (StudentCall a)
  then show ?thesis by (cases a) (simp_all add: call_request_def student_request_def)
next
  case (ClassroomCall a)
  then show ?thesis by (cases a) (simp_all add: call_request_def classroom_request_def)
next
  case (LiveCall a)
  then show ?thesis by (cases a) (simp_all add: call_request_def live_request_def)
next
  case (QuizCall a)
  then show ?thesis by (cases a) (simp_all add: call_request_def quiz_request_def)
next
  case (Coursework a)
  then show ?thesis by (cases a) (simp_all add: call_request_def coursework_request_def)
next
  case (Library a)
  then show ?thesis by (cases a) (simp_all add: call_request_def library_request_def)
next
  case (PaperCall a)
  then show ?thesis by (cases a) (simp_all add: call_request_def paper_request_def)
qed

lemma get_has_no_body: "req_method (call_request c) = GET \<Longrightarrow> req_body (call_request c) = None"
proof (cases c)
  case (Account a)
  then show "req_method (call_request c) = GET \<Longrightarrow> ?thesis" by (cases a) (simp_all add: call_request_def account_request_def)
next
  case (StudentCall a)
  then show "req_method (call_request c) = GET \<Longrightarrow> ?thesis" by (cases a) (simp_all add: call_request_def student_request_def)
next
  case (ClassroomCall a)
  then show "req_method (call_request c) = GET \<Longrightarrow> ?thesis" by (cases a) (simp_all add: call_request_def classroom_request_def)
next
  case (LiveCall a)
  then show "req_method (call_request c) = GET \<Longrightarrow> ?thesis" by (cases a) (simp_all add: call_request_def live_request_def)
next
  case (QuizCall a)
  then show "req_method (call_request c) = GET \<Longrightarrow> ?thesis" by (cases a) (simp_all add: call_request_def quiz_request_def)
next
  case (Coursework a)
  then show "req_method (call_request c) = GET \<Longrightarrow> ?thesis" by (cases a) (simp_all add: call_request_def coursework_request_def)
next
  case (Library a)
  then show "req_method (call_request c) = GET \<Longrightarrow> ?thesis" by (cases a) (simp_all add: call_request_def library_request_def)
next
  case (PaperCall a)
  then show "req_method (call_request c) = GET \<Longrightarrow> ?thesis" by (cases a) (simp_all add: call_request_def paper_request_def)
qed

section \<open>Properties\<close>

text \<open>Every call of the API goes to a path under \<open>/api/\<close> of the configured host, whose address is the given
  one without the slashes at its end, or the classroom it asks for cannot be encoded and nothing is sent; a GET carries no body; and the token is sent, as a bearer token, exactly
  when there is one that is not empty.\<close>

theorem api_calls_reach_host:
  "let a = newApi u t; r = call_request c in
   (case requestUrl a r of
      Some url \<Rightarrow> \<exists>rest. url = baseUrl a @ js ''/api/'' @ rest
    | None \<Rightarrow> \<exists>p v. req_query r = Some (p, v) \<and> encodeURIComponent v = None) \<and>
   (\<exists>k. u = baseUrl a @ replicate k 47) \<and> last (0 # baseUrl a) \<noteq> 47 \<and>
   list_all (\<lambda>b. req_method r \<noteq> GET) (case req_body r of Some b \<Rightarrow> [b] | None \<Rightarrow> []) \<and>
   map_of (requestHeaders a r) (js ''Authorization'') =
     (case t of Some (x # s) \<Rightarrow> Some (js ''Bearer '' @ x # s) | _ \<Rightarrow> None)"
proof -
  have base: "baseUrl (newApi u t) = normalBaseUrl u" by (simp add: newApi_def)
  have "last (0 # normalBaseUrl u) \<noteq> 47" using normalBaseUrl_spec(2) [of u] by auto
  moreover have "case requestUrl (newApi u t) (call_request c) of
      Some url \<Rightarrow> \<exists>rest. url = normalBaseUrl u @ js ''/api/'' @ rest
    | None \<Rightarrow> \<exists>p v. req_query (call_request c) = Some (p, v) \<and> encodeURIComponent v = None"
    using call_path [of c] by (auto simp: requestUrl_def newApi_def split: option.splits)
  moreover have "list_all (\<lambda>b. req_method (call_request c) \<noteq> GET) (case req_body (call_request c) of Some b \<Rightarrow> [b] | None \<Rightarrow> [])"
    using get_has_no_body [of c] by (auto split: option.splits)
  moreover have "map_of (requestHeaders (newApi u t) (call_request c)) (js ''Authorization'') =
     (case t of Some (x # s) \<Rightarrow> Some (js ''Bearer '' @ x # s) | _ \<Rightarrow> None)"
    by (auto simp: requestHeaders_def newApi_def js_def split: option.splits list.splits http_body.splits)
  moreover note normalBaseUrl_spec(1) [of u]
  ultimately show ?thesis unfolding Let_def base by blast
qed

end
