(* ===== verification/Session_Store.thy ===== *)
theory Session_Store
  imports Web_Storage
begin

text \<open>
  The saved session (\<open>packages/ui/src/session.ts\<close>): an installed app keeps it in the operating
  system's encrypted store, a browser in \<open>localStorage\<close> under the first of a list of keys, the
  others being names of older versions.

  The native store is a parameter in the form of the outcome of each native call: whether it
  succeeds. The operations run one after the other (\<open>createSessionOperationQueue\<close>), so each is a
  function of the state the one before it left.

  The second part is the discipline by which the apps ignore answers that come too late: every
  request remembers the generation it was made in. \<open>generation_guard\<close> states it once for all
  clients.
\<close>

section \<open>Operations\<close>

record session_state =
  native :: "jsstring option"
  web :: local_storage

definition removeWebValues :: "jsstring list \<Rightarrow> local_storage \<Rightarrow> local_storage" where
  "removeWebValues keys st = fold removeItem keys st"

definition legacyValue :: "jsstring list \<Rightarrow> local_storage \<Rightarrow> jsstring option" where
  "legacyValue keys st = List.find (\<lambda>v. v \<noteq> []) (List.map_filter (getItem st) keys)"

definition loadSessionValue ::
  "bool \<Rightarrow> bool \<Rightarrow> bool \<Rightarrow> jsstring list \<Rightarrow> session_state \<Rightarrow> jsstring option \<times> session_state" where
  "loadSessionValue tauri loadOk saveOk keys st =
     (case (if tauri \<and> loadOk then native st else None) of
        Some (c # v) \<Rightarrow> (Some (c # v), st\<lparr>web := removeWebValues keys (web st)\<rparr>)
      | _ \<Rightarrow>
          (case legacyValue keys (web st) of
             None \<Rightarrow> (None, st)
           | Some v \<Rightarrow>
               (Some v, if tauri \<and> saveOk then \<lparr>native = Some v, web = removeWebValues keys (web st)\<rparr> else st)))"

definition saveSessionValue :: "bool \<Rightarrow> bool \<Rightarrow> jsstring list \<Rightarrow> jsstring \<Rightarrow> session_state \<Rightarrow> bool \<times> session_state" where
  "saveSessionValue tauri saveOk keys v st =
     (if tauri then
        (if saveOk then (True, \<lparr>native = Some v, web = removeWebValues keys (web st)\<rparr>) else (False, st))
      else (True, st\<lparr>web := removeWebValues (tl keys) (setItem (hd keys) v (web st))\<rparr>))"

definition clearSessionValue :: "bool \<Rightarrow> bool \<Rightarrow> jsstring list \<Rightarrow> session_state \<Rightarrow> session_state" where
  "clearSessionValue tauri clearOk keys st =
     \<lparr>native = (if tauri \<and> clearOk then None else native st), web = removeWebValues keys (web st)\<rparr>"

section \<open>Lemmas\<close>

lemma getItem_removeWebValues [simp]: "getItem (removeWebValues keys st) k = (if k \<in> set keys then None else getItem st k)"
  by (simp add: removeWebValues_def ls.get_remove_all)

lemma legacyValue_None: "(\<And>k. k \<in> set keys \<Longrightarrow> getItem st k = None) \<Longrightarrow> legacyValue keys st = None"
  by (induction keys) (simp_all add: legacyValue_def List.map_filter_simps)

lemma legacyValue_removed [simp]: "legacyValue keys (removeWebValues keys st) = None"
  by (rule legacyValue_None) simp

lemma legacyValue_first: "v \<noteq> [] \<Longrightarrow> getItem st k = Some v \<Longrightarrow> legacyValue (k # keys) st = Some v"
  by (simp add: legacyValue_def List.map_filter_simps)

section \<open>The generation discipline\<close>

text \<open>\<open>view\<close> is the part of the state that the user sees; a task whose generation is not the current one
  changes neither it nor the generation.\<close>

locale generation_guard =
  fixes generation :: "'s \<Rightarrow> nat"
    and taskGeneration :: "'t \<Rightarrow> nat"
    and finish :: "'t \<Rightarrow> 's \<Rightarrow> 's"
    and view :: "'s \<Rightarrow> 'v"
  assumes stale_finish: "taskGeneration t \<noteq> generation s \<Longrightarrow> view (finish t s) = view s \<and> generation (finish t s) = generation s"
begin

text \<open>However many stale tasks finish, in whatever order, the view stays.\<close>

lemma stale_tasks_finish: "\<forall>t \<in> set ts. taskGeneration t \<noteq> generation s \<Longrightarrow> view (fold finish ts s) = view s \<and> generation (fold finish ts s) = generation s"
proof (induction ts arbitrary: s)
  case (Cons t ts)
  then have t: "view (finish t s) = view s" "generation (finish t s) = generation s" using stale_finish by auto
  then show ?case using Cons by simp
qed simp

end

section \<open>Properties\<close>

text \<open>An installed app never writes a session to the browser's plain storage: saving there only removes
  values, a refused save changes nothing, and an accepted one leaves the value in the encrypted store and no copy
  under any of the session keys.\<close>

theorem installed_app_keeps_no_plaintext:
  "let (ok, st') = saveSessionValue True saveOk keys v st in
   ok = saveOk \<and>
   (\<forall>k. getItem (web st') k = (if ok \<and> k \<in> set keys then None else getItem (web st) k)) \<and>
   native st' = (if ok then Some v else native st)"
  by (simp add: saveSessionValue_def)

text \<open>What was saved is loaded: after a successful save, the next load returns the value, in an installed app
  and in a browser, and after clearing it returns nothing; values of older versions are found, moved to the
  encrypted store, and found again by every later load.\<close>

theorem session_roundtrip:
  assumes "v \<noteq> []" and "keys \<noteq> []" and "distinct keys"
  shows "(let (ok, st') = saveSessionValue tauri saveOk keys v st in
       fst (loadSessionValue tauri True saveOk' keys st') = (if ok then Some v else fst (loadSessionValue tauri True saveOk' keys st))) \<and>
    fst (loadSessionValue tauri True saveOk' keys (clearSessionValue tauri True keys (if tauri then st else st\<lparr>native := None\<rparr>))) = None \<and>
    fst (loadSessionValue tauri True saveOk' keys (snd (loadSessionValue tauri True saveOk keys st))) =
      fst (loadSessionValue tauri True saveOk keys st)"
proof -
  obtain k ks where k: "keys = k # ks" using assms(2) by (cases keys) auto
  obtain c w where v: "v = c # w" using assms(1) by (cases v) auto
  have "getItem (removeWebValues ks (setItem k v (web st))) k = Some v" using assms(3) k by simp
  then have l: "legacyValue keys (removeWebValues ks (setItem k v (web st))) = Some v"
    unfolding k by (intro legacyValue_first assms(1))
  have a: "(let (ok, st') = saveSessionValue tauri saveOk keys v st in
       fst (loadSessionValue tauri True saveOk' keys st') = (if ok then Some v else fst (loadSessionValue tauri True saveOk' keys st)))"
    using l by (auto simp: saveSessionValue_def loadSessionValue_def k v split: option.splits)
  have n: "x \<noteq> []" if "legacyValue keys (web st) = Some x" for x
    using that set_find_SomeD by (fastforce simp: legacyValue_def)
  show ?thesis
    using a n by (auto simp: loadSessionValue_def clearSessionValue_def split: option.splits list.splits)
qed

theorem session_roundtrip_witness:
  "fst (loadSessionValue False True True [js ''a'', js ''b''] (snd (saveSessionValue False True [js ''a'', js ''b''] (js ''token'') \<lparr>native = None, web = []\<rparr>)))
     = Some (js ''token'')"
  using session_roundtrip [of "js ''token''" "[js ''a'', js ''b'']" False True "\<lparr>native = None, web = []\<rparr>" True]
  by (simp add: js_def saveSessionValue_def Let_def)

end
