(* ===== verification/Host_Address.thy ===== *)
theory Host_Address
  imports Paper_Logic "HOL-Library.Word"
begin

text \<open>
  Which hosts the apps may talk to (\<open>apps/teacher/src/teacherSession.ts\<close> and
  \<open>apps/forge/src/matchboxConnection.ts\<close>, which hold the same code): the test for an address of the
  local network, and the normalisation of the address a user enters.

  \<open>new URL\<close> is a parameter that yields the parts of a URL or fails.
\<close>

unbundle bit_operations_syntax

section \<open>Local network\<close>

text \<open>\<open>Number.parseInt(text, 16)\<close>: white space, a sign and a prefix \<open>0x\<close> are skipped, then the longest run of
  hexadecimal digits counts; without any the result is \<open>NaN\<close>.\<close>

definition parseInt16 :: "jsstring \<Rightarrow> int option" where
  "parseInt16 text =
     (let s = trimStart text;
          neg = (case s of c # _ \<Rightarrow> c = 45 | [] \<Rightarrow> False);
          s = (case s of c # t \<Rightarrow> if c = 45 \<or> c = 43 then t else s | [] \<Rightarrow> []);
          s = (if map asciiLowerChar (take 2 s) = js ''0x'' then drop 2 s else s);
          ds = takeWhile (\<lambda>c. digitValue c < 16) s
      in if ds = [] then None else Some (if neg then - readBase 16 ds else readBase 16 ds))"

text \<open>\<open>n & mask\<close>: the operand becomes a 32-bit integer, \<open>NaN\<close> becomes zero.\<close>

definition bitAnd :: "int option \<Rightarrow> 32 word \<Rightarrow> 32 word" where
  "bitAnd n m = (case n of None \<Rightarrow> 0 | Some k \<Rightarrow> word_of_int k AND m)"

definition isByte :: "jsnum \<Rightarrow> bool" where
  "isByte x \<longleftrightarrow> (case x of Fin q \<Rightarrow> of_int \<lfloor>q\<rfloor> = q \<and> q \<ge> 0 \<and> q \<le> 255 | _ \<Rightarrow> False)"

definition isPrivateIpv4 :: "jsnum list \<Rightarrow> bool" where
  "isPrivateIpv4 ip \<longleftrightarrow>
     (let a = (case ip ! 0 of Fin q \<Rightarrow> q | _ \<Rightarrow> 0); b = (case ip ! 1 of Fin q \<Rightarrow> q | _ \<Rightarrow> 0)
      in a = 127 \<or> a = 10 \<or> (a = 172 \<and> b \<ge> 16 \<and> b \<le> 31) \<or> (a = 192 \<and> b = 168) \<or> (a = 169 \<and> b = 254))"

definition bareHost :: "jsstring \<Rightarrow> jsstring" where
  "bareHost hostname =
     map asciiLowerChar
       (replaceFirst (Seq (chr 46) Eol) (\<lambda>_. [])
         (replaceAllBy (Alt (Seq Bol (chr 91)) (Seq (chr 93) Eol)) [] hostname))"

definition isLocalNetworkHost :: "jsstring \<Rightarrow> bool" where
  "isLocalNetworkHost hostname =
     (let host = bareHost hostname in
      if host = js ''localhost'' \<or> endsWith host (js ''.local'') then True
      else
        (let ipv4 = map toNumber (splitOn 46 host) in
         if length ipv4 = 4 \<and> (\<forall>part \<in> set ipv4. isByte part) then isPrivateIpv4 ipv4
         else if host = js ''::1'' then True
         else if 58 \<notin> set host then False
         else
           (let firstIpv6Group = parseInt16 (orElse (hd (splitOn 58 host)) (js ''0''))
            in bitAnd firstIpv6Group 0xfe00 = 0xfc00 \<or> bitAnd firstIpv6Group 0xffc0 = 0xfe80)))"

section \<open>Host addresses\<close>

record url =
  protocol :: jsstring
  hostname :: jsstring
  url_username :: jsstring
  url_password :: jsstring
  pathname :: jsstring
  origin :: jsstring

definition schemeRx :: rx where
  "schemeRx = seqs [Bol, liti ''http'', Opt (liti ''s''), lit ''://'']"

definition normalizeHostAddress :: "(jsstring \<Rightarrow> url option) \<Rightarrow> jsstring \<Rightarrow> jsstring + jsstring" where
  "normalizeHostAddress newURL v =
     (let input = trim v in
      if \<not> rtest schemeRx input then Inl (js ''The Host address must start with http:// or https://.'')
      else (case newURL input of
          None \<Rightarrow> Inl (js ''Enter a valid Cinder Host address.'')
        | Some u \<Rightarrow>
            if hostname u = [] then Inl (js ''The Host address has no host.'')
            else if url_username u \<noteq> [] \<or> url_password u \<noteq> [] \<or> 63 \<in> set input \<or> 35 \<in> set input
            then Inl (js ''The Host address cannot contain credentials or parameters.'')
            else if pathname u \<noteq> js ''/'' then Inl (js ''The Host address cannot contain an extra path.'')
            else if protocol u = js ''http:'' \<and> \<not> isLocalNetworkHost (hostname u)
            then Inl (js ''Use HTTPS when connecting outside the local school network.'')
            else Inr (origin u)))"

section \<open>Lemmas\<close>

definition dotted :: "int \<Rightarrow> int \<Rightarrow> int \<Rightarrow> int \<Rightarrow> jsstring" where
  "dotted a b c d = joinWith [46] [showInt a, showInt b, showInt c, showInt d]"

lemma toNumber_byte: "0 \<le> n \<Longrightarrow> n \<le> 255 \<Longrightarrow> toNumber (showInt n) = Fin (of_int n)"
proof -
  have "list_all (\<lambda>n. toNumber (showInt n) = Fin (of_int n)) [0..255]" by code_simp
  then show "0 \<le> n \<Longrightarrow> n \<le> 255 \<Longrightarrow> toNumber (showInt n) = Fin (of_int n)" by (simp add: list_all_iff)
qed

lemma showInt_dotless: "0 \<le> n \<Longrightarrow> 46 \<notin> set (showInt n)"
  using showPos_digits [of n] by (auto simp: showInt_def isDigit_def)

lemma splitOn_dotted:
  "0 \<le> a \<Longrightarrow> 0 \<le> b \<Longrightarrow> 0 \<le> c \<Longrightarrow> 0 \<le> d \<Longrightarrow> splitOn 46 (dotted a b c d) = [showInt a, showInt b, showInt c, showInt d]"
  by (simp add: dotted_def splitOn_append splitOn_absent showInt_dotless)

lemma normalizeHostAddress_Inr:
  assumes "normalizeHostAddress newURL v = Inr x"
  obtains u where "newURL (trim v) = Some u" "x = origin u" "hostname u \<noteq> []" "url_username u = []" "url_password u = []"
    "63 \<notin> set (trim v)" "35 \<notin> set (trim v)" "pathname u = js ''/''" "protocol u = js ''http:'' \<longrightarrow> isLocalNetworkHost (hostname u)"
  using assms by (auto simp: normalizeHostAddress_def Let_def split: if_splits option.splits)

lemma scan_brackets: "91 \<notin> set s \<Longrightarrow> 93 \<notin> set s \<Longrightarrow> scanAll (Alt (Seq Bol (chr 91)) (Seq (chr 93) Eol)) l s = map Inl s"
proof (induction s arbitrary: l)
  case Nil
  show ?case by (subst scanAll.simps) (simp add: chr_def)
next
  case (Cons c s)
  then show ?case by (subst scanAll.simps) (simp add: chr_def)
qed

lemma search_dot: "s = [] \<or> last s \<noteq> 46 \<Longrightarrow> rsearch (Seq (chr 46) Eol) l s = None"
proof (induction s arbitrary: l)
  case (Cons c s)
  then show ?case by (cases s) (auto simp: chr_def split: if_splits)
qed (simp add: chr_def)

lemma bareHost_digits: "\<forall>c \<in> set s. isDigit c \<or> c = 46 \<Longrightarrow> last s \<noteq> 46 \<Longrightarrow> bareHost s = s"
proof -
  assume c: "\<forall>c \<in> set s. isDigit c \<or> c = 46" and l: "last s \<noteq> 46"
  have "91 \<notin> set s" "93 \<notin> set s" using c by (auto simp: isDigit_def)
  then have "replaceAllBy (Alt (Seq Bol (chr 91)) (Seq (chr 93) Eol)) [] s = s"
    by (simp add: replaceAllBy_def replaceAll_def scan_brackets comp_def)
  moreover have "replaceFirst (Seq (chr 46) Eol) (\<lambda>_. []) s = s" using l by (simp add: replaceFirst_def rexec_def search_dot)
  moreover have "map asciiLowerChar s = s" using c by (intro map_idI) (auto simp: asciiLowerChar_def isUpper_def isDigit_def)
  ultimately show ?thesis by (simp add: bareHost_def)
qed

lemma dotted_chars: "0 \<le> a \<Longrightarrow> 0 \<le> b \<Longrightarrow> 0 \<le> c \<Longrightarrow> 0 \<le> d \<Longrightarrow> (\<forall>x \<in> set (dotted a b c d). isDigit x \<or> x = 46) \<and> isDigit (last (dotted a b c d))"
  using showPos_digits [of a] showPos_digits [of b] showPos_digits [of c] showPos_digits [of d]
  by (auto simp: dotted_def showInt_def)

lemma dotted_not_name:
  assumes "0 \<le> a" "0 \<le> b" "0 \<le> c" "0 \<le> d"
  shows "dotted a b c d \<noteq> js ''localhost''" "\<not> endsWith (dotted a b c d) (js ''.local'')"
proof -
  have d: "108 \<notin> set (dotted a b c d)" using dotted_chars [OF assms] by (auto simp: isDigit_def)
  have "108 \<in> set (js ''localhost'')" "108 \<in> set (js ''.local'')" by code_simp+
  note m = this
  show "dotted a b c d \<noteq> js ''localhost''" using d m(1) by metis
  show "\<not> endsWith (dotted a b c d) (js ''.local'')"
  proof
    assume "endsWith (dotted a b c d) (js ''.local'')"
    then obtain r where "rev (dotted a b c d) = rev (js ''.local'') @ r" unfolding endsWith_def startsWith_iff_prefix prefix_def by blast
    then have "set (js ''.local'') \<subseteq> set (dotted a b c d)" by (metis set_append set_rev Un_upper1)
    then show False using d m(2) by blast
  qed
qed

lemma isByte_of_int: "a \<in> {0..255} \<Longrightarrow> isByte (Fin (of_int a))"
  by (simp add: isByte_def)

lemma isPrivateIpv4_of_int: "isPrivateIpv4 [Fin (of_int a), Fin (of_int b), Fin (of_int c), Fin (of_int d)] \<longleftrightarrow>
    a = 127 \<or> a = 10 \<or> (a = 172 \<and> b \<in> {16..31}) \<or> (a = 192 \<and> b = 168) \<or> (a = 169 \<and> b = 254)"
  by (simp add: isPrivateIpv4_def)

section \<open>Properties\<close>


definition sampleURL :: "jsstring \<Rightarrow> url option" where
  "sampleURL s = (if s = js ''http://192.168.1.20:7373''
     then Some \<lparr>protocol = js ''http:'', hostname = js ''192.168.1.20'', url_username = [], url_password = [],
            pathname = js ''/'', origin = js ''http://192.168.1.20:7373''\<rparr>
     else if s = js ''http://example.com''
     then Some \<lparr>protocol = js ''http:'', hostname = js ''example.com'', url_username = [], url_password = [],
            pathname = js ''/'', origin = js ''http://example.com''\<rparr> else None)"


text \<open>Of the IPv4 addresses, exactly the loopback, private and link-local ranges count as the local network:
  127/8, 10/8, 172.16/12, 192.168/16 and 169.254/16.\<close>

theorem local_ipv4_ranges:
  assumes "a \<in> {0..255}" "b \<in> {0..255}" "c \<in> {0..255}" "d \<in> {0..255}"
  shows "isLocalNetworkHost (dotted a b c d) \<longleftrightarrow>
    a = 127 \<or> a = 10 \<or> (a = 172 \<and> b \<in> {16..31}) \<or> (a = 192 \<and> b = 168) \<or> (a = 169 \<and> b = 254)"
proof -
  have n: "0 \<le> a" "0 \<le> b" "0 \<le> c" "0 \<le> d" using assms by auto
  note ch = dotted_chars [OF n]
  have h: "bareHost (dotted a b c d) = dotted a b c d" using ch by (intro bareHost_digits) (auto simp: isDigit_def)
  have "map toNumber (splitOn 46 (dotted a b c d)) = [Fin (of_int a), Fin (of_int b), Fin (of_int c), Fin (of_int d)]"
    using assms n by (simp add: splitOn_dotted toNumber_byte)
  then have "isLocalNetworkHost (dotted a b c d) = isPrivateIpv4 [Fin (of_int a), Fin (of_int b), Fin (of_int c), Fin (of_int d)]"
    using isByte_of_int [OF assms(1)] isByte_of_int [OF assms(2)] isByte_of_int [OF assms(3)] isByte_of_int [OF assms(4)]
    unfolding isLocalNetworkHost_def h by (simp add: Let_def dotted_not_name [OF n])
  then show ?thesis unfolding isPrivateIpv4_of_int .
qed

theorem local_ipv4_ranges_witness:
  "isLocalNetworkHost (dotted 172 31 255 1) \<and> \<not> isLocalNetworkHost (dotted 172 32 0 1)"
  using local_ipv4_ranges [of 172 31 255 1] local_ipv4_ranges [of 172 32 0 1] by simp

end
