(* ===== verification/Teacher_App.thy ===== *)
theory Teacher_App
  imports Session_Store Host_Address Host_Api
begin

text \<open>
  The teacher's app (\<open>apps/teacher/src/App.tsx\<close>, with \<open>apps/teacher/src/teacherSession.ts\<close>): start-up with a saved
  session, signing in and out, the change of host, the retry while the host is unreachable, and the workspace that
  is loaded, each guarded by the generation of the workspace.

  The state is that of the component \<open>App\<close>. Connections (\<open>CinderApi\<close>) are objects whose token is overwritten, so
  they live in a store and the state and the functions in flight hold references to them. A function that awaits is
  a task, which holds what the function captured; each handler runs to its next await. The operations on the saved
  session run in the order in which they were queued, so the field \<open>teacherSaved\<close> is the saved session when
  the queued operations have run. The outcome of a request or of a native call is an argument.

  Start-up is one function: until it ends the app shows a boot screen and nothing else runs.
\<close>

section \<open>Sessions and generations\<close>

record stored_teacher_session =
  ts_baseUrl :: jsstring
  ts_token :: jsstring
  ts_user :: json

text \<open>Property access on a parsed value that may be anything: on \<open>null\<close> it throws, which the function catches.\<close>

definition parseStoredTeacherSession :: "json_parser \<Rightarrow> jsstring \<Rightarrow> jsstring \<Rightarrow> stored_teacher_session option" where
  "parseStoredTeacherSession parse raw fallbackBaseUrl =
     (case parse raw of
        Inl _ \<Rightarrow> None
      | Inr v \<Rightarrow>
          (case (field v ''token'', coalesce (field v ''user'') None) of
             (Some (JStr (c # t)), Some u) \<Rightarrow>
               if field u ''role'' \<noteq> Some (JStr (js ''teacher'')) then None
               else Some \<lparr>ts_baseUrl = (case field v ''baseUrl'' of Some (JStr (d # b)) \<Rightarrow> d # b | _ \<Rightarrow> fallbackBaseUrl),
                      ts_token = c # t, ts_user = u\<rparr>
           | _ \<Rightarrow> None))"

datatype startup_view = WorkspaceView | CreateSchoolView | SignInView

definition teacherStartupView :: "bool option \<Rightarrow> bool \<Rightarrow> startup_view" where
  "teacherStartupView needsSetup signedIn =
     (if signedIn then WorkspaceView else if needsSetup = Some True then CreateSchoolView else SignInView)"

definition teacherReconnectDelay :: "bool \<Rightarrow> bool \<Rightarrow> int option" where
  "teacherReconnectDelay isOnline signedIn = (if signedIn \<and> \<not> isOnline then Some 20000 else None)"

record dashboard_stats =
  students_count :: rat
  classrooms_count :: rat
  pending_submissions :: rat
  ungraded_submissions :: rat
  present_today :: rat

record teacher_workspace =
  ws_generation :: nat
  ws_stats :: dashboard_stats
  ws_students :: "user list"
  ws_classrooms :: "classroom list"
  ws_assignments :: "assignment list"

definition resetTeacherWorkspaceState :: "nat \<Rightarrow> teacher_workspace" where
  "resetTeacherWorkspaceState g =
     \<lparr>ws_generation = g + 1,
      ws_stats = \<lparr>students_count = 0, classrooms_count = 0, pending_submissions = 0, ungraded_submissions = 0, present_today = 0\<rparr>,
      ws_students = [], ws_classrooms = [], ws_assignments = []\<rparr>"

definition isCurrentTeacherWorkspaceGeneration :: "nat \<Rightarrow> nat \<Rightarrow> bool" where
  "isCurrentTeacherWorkspaceGeneration requestGeneration currentGeneration \<longleftrightarrow> requestGeneration = currentGeneration"

section \<open>State\<close>

datatype teacher_tab = DashboardTab | StudentsTab | ClassroomsTab | AssignmentsTab | AttendanceTab | GradebookTab | PapersTab | SettingsTab

text \<open>The functions in flight: a load of the workspace (started by a retry or not), a retry, a sign-in that waits for the host and
  for the saved session, and a change of host that waits for the new host and for the old one's sign-out.\<close>

datatype teacher_task =
    LoadCall nat nat bool
  | RetryCall nat nat
  | SignInCall nat nat jsstring
  | SignInSaving nat nat jsstring json bool
  | ConnCall jsstring jsstring nat jsstring
  | ConnClearing jsstring jsstring bool

record teacher_state =
  workspace :: teacher_workspace
  ts_online :: bool
  refreshing :: bool
  loadInFlight :: "nat option"
  reconnectInFlight :: "nat option"
  teacherTab :: teacher_tab
  needsSetup :: "bool option"
  teacherBaseUrl :: jsstring
  deviceLabel :: jsstring
  apis :: "cinder_api list"
  activeApi :: nat
  teacherUser :: "json option"
  teacherKnown :: "jsstring list"
  connectionOpen :: bool
  teacherSaved :: session_state
  teacherTasks :: "teacher_task list"

text \<open>The device: whether the app is installed, its encrypted store, the native check of addresses, and the language's URL and JSON
  functions.\<close>

record teacher_device =
  td_tauri :: bool
  td_loadOk :: bool
  td_saveOk :: bool
  td_validate :: "jsstring \<Rightarrow> jsstring option"
  td_newURL :: "jsstring \<Rightarrow> url option"
  td_parse :: json_parser
  td_stringify :: "json \<Rightarrow> jsstring"

definition TEACHER_KEYS :: "jsstring list" where
  "TEACHER_KEYS = [js ''cinder.teacher.session'', js ''lu'' @ js ''mina.teacher.session'']"

definition KNOWN_ACCOUNTS_KEY :: jsstring where
  "KNOWN_ACCOUNTS_KEY = js ''cinder.teacher.known-accounts''"

definition TEACHER_DEV_HOST :: jsstring where
  "TEACHER_DEV_HOST = js ''http://127.0.0.1:7373''"

definition storedTeacher :: "teacher_device \<Rightarrow> bool \<Rightarrow> jsstring \<Rightarrow> session_state \<Rightarrow> stored_teacher_session option \<times> session_state" where
  "storedTeacher D clearOk fallbackBaseUrl ss =
     (case loadSessionValue (td_tauri D) (td_loadOk D) (td_saveOk D) TEACHER_KEYS ss of
        (None, ss) \<Rightarrow> (None, ss)
      | (Some raw, ss) \<Rightarrow>
          (case parseStoredTeacherSession (td_parse D) raw fallbackBaseUrl of
             Some x \<Rightarrow> (Some x, ss)
           | None \<Rightarrow> (None, clearSessionValue (td_tauri D) clearOk TEACHER_KEYS ss)))"

text \<open>\<open>normalizeHostAddress\<close>: the check of the program and, when installed, the native one, which may refuse.\<close>

definition teacherHost :: "teacher_device \<Rightarrow> jsstring \<Rightarrow> jsstring option" where
  "teacherHost D v =
     (case normalizeHostAddress (td_newURL D) v of
        Inl _ \<Rightarrow> None
      | Inr u \<Rightarrow> if td_tauri D then td_validate D u else Some u)"

text \<open>The accounts of this device: a value that is not a list of strings is ignored or filtered.\<close>

definition readKnownAccounts :: "json_parser \<Rightarrow> local_storage \<Rightarrow> jsstring list" where
  "readKnownAccounts parse st =
     (case parse (case getItem st KNOWN_ACCOUNTS_KEY of Some v \<Rightarrow> v | None \<Rightarrow> js ''[]'') of
        Inr (JArr items) \<Rightarrow> List.map_filter (\<lambda>v. case v of JStr t \<Rightarrow> Some t | _ \<Rightarrow> None) items
      | _ \<Rightarrow> [])"

definition accountName :: "json \<Rightarrow> jsstring" where
  "accountName u = (case field u ''username'' of Some (JStr n) \<Rightarrow> n | _ \<Rightarrow> [])"

definition sessionJson :: "jsstring \<Rightarrow> jsstring \<Rightarrow> json \<Rightarrow> json" where
  "sessionJson url tok u = JObj [(js ''baseUrl'', JStr url), (js ''token'', JStr tok), (js ''user'', u)]"

section \<open>Small steps\<close>

definition currentToken :: "teacher_state \<Rightarrow> jsstring option" where
  "currentToken s = token (apis s ! activeApi s)"

definition setToken :: "nat \<Rightarrow> jsstring option \<Rightarrow> teacher_state \<Rightarrow> teacher_state" where
  "setToken r t s = s\<lparr>apis := (apis s)[r := (apis s ! r)\<lparr>token := t\<rparr>]\<rparr>"

definition openApi :: "jsstring \<Rightarrow> jsstring option \<Rightarrow> teacher_state \<Rightarrow> teacher_state" where
  "openApi url t s = s\<lparr>apis := apis s @ [newApi url t], activeApi := length (apis s)\<rparr>"

definition clearTeacher :: "teacher_device \<Rightarrow> bool \<Rightarrow> teacher_state \<Rightarrow> teacher_state" where
  "clearTeacher D clearOk s = s\<lparr>teacherSaved := clearSessionValue (td_tauri D) clearOk TEACHER_KEYS (teacherSaved s)\<rparr>"

definition saveTeacher :: "teacher_device \<Rightarrow> bool \<Rightarrow> jsstring \<Rightarrow> jsstring \<Rightarrow> json \<Rightarrow> teacher_state \<Rightarrow> bool \<times> teacher_state" where
  "saveTeacher D saveOk url tok u s =
     (case saveSessionValue (td_tauri D) saveOk TEACHER_KEYS (td_stringify D (sessionJson url tok u)) (teacherSaved s) of
        (ok, ss) \<Rightarrow> (ok, s\<lparr>teacherSaved := ss\<rparr>))"

definition spawnTask :: "teacher_task \<Rightarrow> teacher_state \<Rightarrow> teacher_state" where
  "spawnTask t s = s\<lparr>teacherTasks := t # teacherTasks s\<rparr>"

definition endTask :: "teacher_task \<Rightarrow> teacher_state \<Rightarrow> teacher_state" where
  "endTask t s = s\<lparr>teacherTasks := remove1 t (teacherTasks s)\<rparr>"

abbreviation generationOf :: "teacher_state \<Rightarrow> nat" where
  "generationOf s \<equiv> ws_generation (workspace s)"

text \<open>Remembering and forgetting an account, in the state and in the browser's storage.\<close>

definition keepKnown :: "teacher_device \<Rightarrow> jsstring list \<Rightarrow> teacher_state \<Rightarrow> teacher_state" where
  "keepKnown D known s =
     s\<lparr>teacherKnown := known,
       teacherSaved := (teacherSaved s)\<lparr>web := setItem KNOWN_ACCOUNTS_KEY (td_stringify D (JArr (map JStr known))) (web (teacherSaved s))\<rparr>\<rparr>"

definition rememberTeacher :: "teacher_device \<Rightarrow> jsstring \<Rightarrow> teacher_state \<Rightarrow> teacher_state" where
  "rememberTeacher D name s = keepKnown D (sliceTo 12 (name # filter (\<lambda>item. item \<noteq> name) (teacherKnown s))) s"

definition forgetTeacher :: "teacher_device \<Rightarrow> jsstring \<Rightarrow> teacher_state \<Rightarrow> teacher_state" where
  "forgetTeacher D name s = keepKnown D (filter (\<lambda>item. item \<noteq> name) (teacherKnown s)) s"

section \<open>The workspace\<close>

definition resetWorkspace :: "teacher_state \<Rightarrow> teacher_state" where
  "resetWorkspace s =
     s\<lparr>workspace := resetTeacherWorkspaceState (generationOf s), loadInFlight := None, reconnectInFlight := None,
       refreshing := False, teacherTab := DashboardTab\<rparr>"

text \<open>Loading: the four requests in flight are one task, which remembers its generation and its connection.\<close>

record workspace_load =
  load_generation :: nat
  load_result :: "(dashboard_stats \<times> user list \<times> classroom list \<times> assignment list) option"

definition mayLoad :: "nat \<Rightarrow> teacher_state \<Rightarrow> bool" where
  "mayLoad g s \<longleftrightarrow> isCurrentTeacherWorkspaceGeneration g (generationOf s) \<and> loadInFlight s \<noteq> Some g"

definition startLoad :: "nat \<Rightarrow> teacher_state \<Rightarrow> teacher_state" where
  "startLoad g s = (if mayLoad g s then s\<lparr>loadInFlight := Some g, refreshing := True\<rparr> else s)"

definition finishLoad :: "workspace_load \<Rightarrow> teacher_state \<Rightarrow> teacher_state" where
  "finishLoad t s =
     (if \<not> isCurrentTeacherWorkspaceGeneration (load_generation t) (generationOf s) then s
      else
        (let s = (case load_result t of
               Some (st, us, cs, as) \<Rightarrow>
                 s\<lparr>workspace := (workspace s)\<lparr>ws_stats := st, ws_students := us, ws_classrooms := cs, ws_assignments := as\<rparr>, ts_online := True\<rparr>
             | None \<Rightarrow> s\<lparr>ts_online := False\<rparr>)
         in s\<lparr>loadInFlight := None, refreshing := False\<rparr>))"

interpretation tw: generation_guard generationOf load_generation finishLoad id
  by unfold_locales (simp add: finishLoad_def isCurrentTeacherWorkspaceGeneration_def)

text \<open>The end of a retry: \<open>finally\<close>.\<close>

definition endRetry :: "nat \<Rightarrow> teacher_state \<Rightarrow> teacher_state" where
  "endRetry g s = (if reconnectInFlight s = Some g then s\<lparr>reconnectInFlight := None\<rparr> else s)"

text \<open>\<open>loadWorkspace\<close> up to its requests, and from their answer on; a retry ends with the load it waits for.\<close>

definition beginLoad :: "nat \<Rightarrow> nat \<Rightarrow> bool \<Rightarrow> teacher_state \<Rightarrow> teacher_state" where
  "beginLoad g r retrying s =
     (if mayLoad g s then spawnTask (LoadCall g r retrying) (startLoad g s)
      else if retrying then endRetry g s else s)"

definition loadAnswered ::
  "teacher_task \<Rightarrow> (dashboard_stats \<times> user list \<times> classroom list \<times> assignment list) option \<Rightarrow> teacher_state \<Rightarrow> teacher_state" where
  "loadAnswered t res s = (case t of
      LoadCall g r retrying \<Rightarrow>
        (let s = finishLoad \<lparr>load_generation = g, load_result = res\<rparr> (endTask t s) in if retrying then endRetry g s else s)
    | _ \<Rightarrow> s)"

section \<open>Start-up\<close>

record teacher_config =
  host_url :: "jsstring option"
  device_label :: "jsstring option"

text \<open>The answer to \<open>me()\<close>: the account, an error of the host or of the program, or no connection.\<close>

datatype me_answer = MeUser json | MeError | MeUnreachable

text \<open>What start-up is answered: the status of the host (\<open>None\<close>: the request failed), the account, whether the native store saves and
  clears, and the load of the workspace.\<close>

record startup_answers =
  sta_status :: "bool option"
  sta_me :: me_answer
  sta_saveOk :: bool
  sta_clearOk :: bool
  sta_load :: "(dashboard_stats \<times> user list \<times> classroom list \<times> assignment list) option"

text \<open>The session and the host to use: a host that the check refuses loses its session.\<close>

definition startHost ::
  "teacher_device \<Rightarrow> teacher_config \<Rightarrow> bool \<Rightarrow> teacher_state \<Rightarrow> stored_teacher_session option \<times> jsstring \<times> teacher_state" where
  "startHost D config clearOk s =
     (let configured = (case host_url config of Some u \<Rightarrow> u | None \<Rightarrow> TEACHER_DEV_HOST);
          (kept, ss) = storedTeacher D clearOk configured (teacherSaved s);
          s = s\<lparr>teacherSaved := ss\<rparr>
      in case teacherHost D (case kept of Some x \<Rightarrow> ts_baseUrl x | None \<Rightarrow> configured) of
           Some host \<Rightarrow> (kept, host, s)
         | None \<Rightarrow>
             (None, configured,
              if kept \<noteq> None then clearTeacher D clearOk ((resetWorkspace s)\<lparr>teacherUser := None\<rparr>) else s))"

definition startConnection :: "teacher_device \<Rightarrow> teacher_config \<Rightarrow> stored_teacher_session option \<Rightarrow> jsstring \<Rightarrow> teacher_state \<Rightarrow> teacher_state" where
  "startConnection D config kept host s =
     (openApi host (map_option ts_token kept) s)
       \<lparr>teacherBaseUrl := host, deviceLabel := (case device_label config of Some l \<Rightarrow> l | None \<Rightarrow> js ''Teacher computer''),
        connectionOpen := td_tauri D \<and> host_url config \<in> {None, Some []} \<and> kept = None\<rparr>"

text \<open>A refused session: the workspace is reset, the token dropped and the saved session cleared.\<close>

definition dropSession :: "teacher_device \<Rightarrow> bool \<Rightarrow> nat \<Rightarrow> teacher_state \<Rightarrow> teacher_state" where
  "dropSession D clearOk r s = clearTeacher D clearOk (setToken r None ((resetWorkspace s)\<lparr>teacherUser := None\<rparr>))"

definition showAccount :: "teacher_device \<Rightarrow> json \<Rightarrow> teacher_state \<Rightarrow> teacher_state" where
  "showAccount D u s = rememberTeacher D (accountName u) (s\<lparr>teacherUser := Some u\<rparr>)"

definition startSession :: "teacher_device \<Rightarrow> startup_answers \<Rightarrow> stored_teacher_session \<Rightarrow> jsstring \<Rightarrow> teacher_state \<Rightarrow> teacher_state" where
  "startSession D A x host s =
     (case sta_me A of
        MeUser current \<Rightarrow>
          (let (saved, s) = saveTeacher D (sta_saveOk A) host (ts_token x) current (showAccount D current s) in
           if \<not> saved then dropSession D (sta_clearOk A) (activeApi s) s
           else finishLoad \<lparr>load_generation = generationOf s, load_result = sta_load A\<rparr> (startLoad (generationOf s) s))
      | MeError \<Rightarrow> dropSession D (sta_clearOk A) (activeApi s) s
      | MeUnreachable \<Rightarrow> (showAccount D (ts_user x) s)\<lparr>ts_online := False\<rparr>)"

definition teacherStartup :: "teacher_device \<Rightarrow> teacher_config \<Rightarrow> startup_answers \<Rightarrow> teacher_state \<Rightarrow> teacher_state" where
  "teacherStartup D config A s =
     (let (kept, host, s) = startHost D config (sta_clearOk A) (resetWorkspace s);
          s = startConnection D config kept host s
      in case sta_status A of
           None \<Rightarrow> (case kept of
               Some x \<Rightarrow> showAccount D (ts_user x) (s\<lparr>ts_online := False\<rparr>)
             | None \<Rightarrow> s\<lparr>ts_online := False\<rparr>)
         | Some setup \<Rightarrow>
             (let s = s\<lparr>needsSetup := Some setup, ts_online := True\<rparr> in
              case kept of
                Some x \<Rightarrow> if setup then s else startSession D A x host s
              | None \<Rightarrow> s))"

section \<open>Signing in and out\<close>

definition signIn :: "teacher_state \<Rightarrow> teacher_state" where
  "signIn s = (let s = resetWorkspace s in spawnTask (SignInCall (generationOf s) (activeApi s) (teacherBaseUrl s)) s)"

definition signInAnswer :: "teacher_device \<Rightarrow> teacher_task \<Rightarrow> jsstring \<Rightarrow> json \<Rightarrow> bool \<Rightarrow> teacher_state \<Rightarrow> teacher_state" where
  "signInAnswer D t tok u saveOk s = (case t of
      SignInCall g r url \<Rightarrow>
        (let s = endTask t s in
         if \<not> isCurrentTeacherWorkspaceGeneration g (generationOf s) then s
         else (let (saved, s) = saveTeacher D saveOk url tok u s in spawnTask (SignInSaving g r tok u saved) s))
    | _ \<Rightarrow> s)"

definition signInSaved :: "teacher_device \<Rightarrow> teacher_task \<Rightarrow> bool \<Rightarrow> teacher_state \<Rightarrow> teacher_state" where
  "signInSaved D t clearOk s = (case t of
      SignInSaving g r tok u saved \<Rightarrow>
        (let s = endTask t s in
         if \<not> isCurrentTeacherWorkspaceGeneration g (generationOf s) then clearTeacher D clearOk s
         else if \<not> saved then s
         else beginLoad g r False
           (rememberTeacher D (accountName u) ((setToken r (Some tok) s)\<lparr>teacherUser := Some u, ts_online := True\<rparr>)))
    | _ \<Rightarrow> s)"

text \<open>\<open>logout\<close>; the host is told with the token that is then dropped.\<close>

definition signOut :: "teacher_device \<Rightarrow> bool \<Rightarrow> teacher_state \<Rightarrow> teacher_state" where
  "signOut D clearOk s = dropSession D clearOk (activeApi s) s"

section \<open>The retry\<close>

definition retry :: "teacher_state \<Rightarrow> teacher_state" where
  "retry s =
     (if teacherReconnectDelay (ts_online s) (teacherUser s \<noteq> None) = None then s
      else if reconnectInFlight s = Some (generationOf s) then s
      else spawnTask (RetryCall (generationOf s) (activeApi s)) (s\<lparr>reconnectInFlight := Some (generationOf s)\<rparr>))"

text \<open>The effect is cancelled when what it depends on has changed since it was set up.\<close>

definition retryAnswer :: "teacher_device \<Rightarrow> teacher_task \<Rightarrow> bool \<Rightarrow> me_answer \<Rightarrow> bool \<Rightarrow> teacher_state \<Rightarrow> teacher_state" where
  "retryAnswer D t cancelled answered clearOk s = (case t of
      RetryCall g r \<Rightarrow>
        (let s = endTask t s in
         if cancelled \<or> \<not> isCurrentTeacherWorkspaceGeneration g (generationOf s) then endRetry g s
         else case answered of
             MeUser current \<Rightarrow> beginLoad g r True (showAccount D current s)
           | MeUnreachable \<Rightarrow> endRetry g (s\<lparr>ts_online := False\<rparr>)
           | MeError \<Rightarrow> endRetry g (dropSession D clearOk r (s\<lparr>ts_online := False\<rparr>)))
    | _ \<Rightarrow> s)"

section \<open>The change of host\<close>

text \<open>\<open>saveConnection\<close>: the address is checked, the host probed and its status asked with what the function captured; from there the
  session of another host is dropped, and at last the connection is replaced.\<close>

definition connect :: "teacher_device \<Rightarrow> jsstring \<Rightarrow> jsstring \<Rightarrow> teacher_state \<Rightarrow> teacher_state" where
  "connect D nextUrl nextLabel s = (case teacherHost D nextUrl of
      Some normalized \<Rightarrow>
        spawnTask (ConnCall normalized (orElse (trim nextLabel) (js ''Teacher computer'')) (activeApi s) (teacherBaseUrl s)) s
    | None \<Rightarrow> s)"

definition finishConnection :: "jsstring \<Rightarrow> jsstring \<Rightarrow> bool \<Rightarrow> teacher_state \<Rightarrow> teacher_state" where
  "finishConnection url label setup s =
     s\<lparr>teacherBaseUrl := url, deviceLabel := label, needsSetup := Some setup, ts_online := True, connectionOpen := False\<rparr>"

definition connectAnswer :: "teacher_device \<Rightarrow> teacher_task \<Rightarrow> bool \<Rightarrow> bool \<Rightarrow> teacher_state \<Rightarrow> teacher_state" where
  "connectAnswer D t setup clearOk s = (case t of
      ConnCall url label r base \<Rightarrow>
        (let s = endTask t s in
         if url \<noteq> base then spawnTask (ConnClearing url label setup) (dropSession D clearOk r s)
         else finishConnection url label setup (s\<lparr>activeApi := r\<rparr>))
    | _ \<Rightarrow> s)"

definition connectCleared :: "teacher_task \<Rightarrow> teacher_state \<Rightarrow> teacher_state" where
  "connectCleared t s = (case t of
      ConnClearing url label setup \<Rightarrow> finishConnection url label setup (openApi url None (endTask t s))
    | _ \<Rightarrow> s)"

section \<open>Steps\<close>

text \<open>Sign-ins that the workspace still waits for, those that may still change the saved session, and changes of host.\<close>

definition currentSignIn :: "teacher_state \<Rightarrow> teacher_task \<Rightarrow> bool" where
  "currentSignIn s t \<longleftrightarrow>
     (case t of SignInCall g r url \<Rightarrow> g = generationOf s | SignInSaving g r tok u saved \<Rightarrow> g = generationOf s | _ \<Rightarrow> False)"

definition signingIn :: "teacher_state \<Rightarrow> teacher_task \<Rightarrow> bool" where
  "signingIn s t \<longleftrightarrow> (case t of SignInCall g r url \<Rightarrow> g = generationOf s | SignInSaving g r tok u saved \<Rightarrow> True | _ \<Rightarrow> False)"

definition connecting :: "teacher_task \<Rightarrow> bool" where
  "connecting t \<longleftrightarrow> (case t of ConnCall url label r base \<Rightarrow> True | ConnClearing url label setup \<Rightarrow> True | _ \<Rightarrow> False)"

definition savingSession :: "teacher_task \<Rightarrow> bool" where
  "savingSession t \<longleftrightarrow> (case t of SignInSaving g r tok u saved \<Rightarrow> True | _ \<Rightarrow> False)"

text \<open>The sign-in form is shown when nobody is signed in and is busy while its own sign-in runs; it is built anew when the address
  changes, after the operations queued before have run. \<open>overlap\<close> tells whether the user may sign in or
  change the host again while a change of host is under way, which the app does not prevent; \<open>signins\<close> whether anybody
  signs in at all. A view may hold an earlier connection when it asks for a load.\<close>

inductive teacherStep :: "teacher_device \<Rightarrow> bool \<Rightarrow> bool \<Rightarrow> teacher_state \<Rightarrow> teacher_state \<Rightarrow> bool"
  for D overlap signins where
  load: "r < length (apis s) \<Longrightarrow> teacherStep D overlap signins s (beginLoad (generationOf s) r False s)"
| load_answer: "LoadCall g r b \<in> set (teacherTasks s) \<Longrightarrow> teacherStep D overlap signins s (loadAnswered (LoadCall g r b) res s)"
| retry: "teacherStep D overlap signins s (retry s)"
| retry_answer: "RetryCall g r \<in> set (teacherTasks s) \<Longrightarrow>
    teacherStep D overlap signins s (retryAnswer D (RetryCall g r) cancelled answered clearOk s)"
| sign_in: "signins \<Longrightarrow> teacherUser s = None \<Longrightarrow> \<forall>t \<in> set (teacherTasks s). \<not> signingIn s t \<Longrightarrow>
    overlap \<or> (\<forall>t \<in> set (teacherTasks s). \<not> connecting t) \<Longrightarrow> teacherStep D overlap signins s (signIn s)"
| sign_in_answer: "SignInCall g r url \<in> set (teacherTasks s) \<Longrightarrow>
    teacherStep D overlap signins s (signInAnswer D (SignInCall g r url) tok u saveOk s)"
| sign_in_failure: "SignInCall g r url \<in> set (teacherTasks s) \<Longrightarrow> teacherStep D overlap signins s (endTask (SignInCall g r url) s)"
| sign_in_saved: "SignInSaving g r tok u saved \<in> set (teacherTasks s) \<Longrightarrow>
    teacherStep D overlap signins s (signInSaved D (SignInSaving g r tok u saved) clearOk s)"
| sign_out: "teacherUser s \<noteq> None \<Longrightarrow> teacherStep D overlap signins s (signOut D clearOk s)"
| connect: "overlap \<or> (\<forall>t \<in> set (teacherTasks s). \<not> connecting t) \<Longrightarrow> teacherStep D overlap signins s (connect D nextUrl nextLabel s)"
| connect_failure: "ConnCall url label r base \<in> set (teacherTasks s) \<Longrightarrow> teacherStep D overlap signins s (endTask (ConnCall url label r base) s)"
| connect_answer: "ConnCall url label r base \<in> set (teacherTasks s) \<Longrightarrow>
    teacherStep D overlap signins s (connectAnswer D (ConnCall url label r base) setup clearOk s)"
| connect_cleared: "ConnClearing url label setup \<in> set (teacherTasks s) \<Longrightarrow> overlap \<or> (\<forall>t \<in> set (teacherTasks s). \<not> savingSession t) \<Longrightarrow>
    teacherStep D overlap signins s (connectCleared (ConnClearing url label setup) s)"
| forget: "teacherStep D overlap signins s (forgetTeacher D name s)"

definition noStats :: dashboard_stats where
  "noStats = \<lparr>students_count = 0, classrooms_count = 0, pending_submissions = 0, ungraded_submissions = 0, present_today = 0\<rparr>"

definition initialTeacher :: "json_parser \<Rightarrow> session_state \<Rightarrow> teacher_state" where
  "initialTeacher parse ss =
     \<lparr>workspace = \<lparr>ws_generation = 0, ws_stats = noStats, ws_students = [], ws_classrooms = [], ws_assignments = []\<rparr>,
      ts_online = False, refreshing = False, loadInFlight = None, reconnectInFlight = None, teacherTab = DashboardTab, needsSetup = None,
      teacherBaseUrl = TEACHER_DEV_HOST, deviceLabel = js ''Teacher computer'', apis = [newApi TEACHER_DEV_HOST None], activeApi = 0,
      teacherUser = None, teacherKnown = readKnownAccounts parse (web ss), connectionOpen = False, teacherSaved = ss, teacherTasks = []\<rparr>"

inductive teacherReachable :: "teacher_device \<Rightarrow> bool \<Rightarrow> teacher_state \<Rightarrow> bool" for D overlap where
  start: "teacherReachable D overlap (teacherStartup D config A (initialTeacher (td_parse D) ss))"
| step: "teacherReachable D overlap s \<Longrightarrow> teacherStep D overlap True s s' \<Longrightarrow> teacherReachable D overlap s'"

section \<open>The invariant\<close>

text \<open>The token that the next start of the app on this device finds.\<close>

definition savedToken :: "teacher_device \<Rightarrow> session_state \<Rightarrow> jsstring option" where
  "savedToken D ss =
     (case fst (loadSessionValue (td_tauri D) (td_loadOk D) (td_saveOk D) TEACHER_KEYS ss) of
        None \<Rightarrow> None
      | Some raw \<Rightarrow> (case td_parse D raw of Inr v \<Rightarrow> (case field v ''token'' of Some (JStr tok) \<Rightarrow> Some tok | _ \<Rightarrow> None) | Inl _ \<Rightarrow> None))"

text \<open>A device whose encrypted store can be read and whose JSON functions give back the token of a saved session.\<close>

definition goodDevice :: "teacher_device \<Rightarrow> bool" where
  "goodDevice D \<longleftrightarrow> td_loadOk D \<and>
     (\<forall>url tok u. td_stringify D (sessionJson url tok u) \<noteq> [] \<and>
        (case td_parse D (td_stringify D (sessionJson url tok u)) of Inr v \<Rightarrow> field v ''token'' = Some (JStr tok) | Inl _ \<Rightarrow> False))"

fun okTask :: "teacher_device \<Rightarrow> teacher_state \<Rightarrow> teacher_task \<Rightarrow> bool" where
  "okTask D s (LoadCall g r b) = True"
| "okTask D s (RetryCall g r) = (g \<le> generationOf s \<and> (g = generationOf s \<longrightarrow> r = activeApi s \<and> teacherUser s \<noteq> None))"
| "okTask D s (SignInCall g r url) =
     (g \<le> generationOf s \<and> (g = generationOf s \<longrightarrow> r = activeApi s \<and> url = teacherBaseUrl s \<and> teacherUser s = None))"
| "okTask D s (SignInSaving g r tok u saved) =
     (g \<le> generationOf s \<and> (g = generationOf s \<longrightarrow> r = activeApi s \<and> (saved \<longrightarrow> savedToken D (teacherSaved s) = Some tok)) \<and> teacherUser s = None)"
| "okTask D s (ConnCall url label r base) = (r = activeApi s \<and> base = teacherBaseUrl s)"
| "okTask D s (ConnClearing url label setup) =
     (teacherUser s = None \<and> currentToken s = None \<and>
      (\<forall>t \<in> set (teacherTasks s). \<not> currentSignIn s t))"

definition oneToken :: "teacher_state \<Rightarrow> bool" where
  "oneToken s \<longleftrightarrow> activeApi s < length (apis s) \<and> (\<forall>r < length (apis s). r \<noteq> activeApi s \<longrightarrow> token (apis s ! r) = None)"

definition sessionKept :: "teacher_device \<Rightarrow> teacher_state \<Rightarrow> bool" where
  "sessionKept D s \<longleftrightarrow> teacherUser s = None \<or> (\<exists>tok. currentToken s = Some tok \<and> savedToken D (teacherSaved s) = Some tok)"

definition tasksOk :: "teacher_device \<Rightarrow> teacher_state \<Rightarrow> bool" where
  "tasksOk D s \<longleftrightarrow> (\<forall>t \<in> set (teacherTasks s). okTask D s t) \<and>
     length (filter (signingIn s) (teacherTasks s)) \<le> 1 \<and> length (filter connecting (teacherTasks s)) \<le> 1"

definition teacherInv :: "teacher_device \<Rightarrow> teacher_state \<Rightarrow> bool" where
  "teacherInv D s \<longleftrightarrow> oneToken s \<and> sessionKept D s \<and> tasksOk D s"

section \<open>The saved session\<close>

lemma savedToken_keep [simp]: "savedToken D (ss\<lparr>web := setItem KNOWN_ACCOUNTS_KEY v (web ss)\<rparr>) = savedToken D ss"
proof -
  have k: "KNOWN_ACCOUNTS_KEY \<notin> set TEACHER_KEYS" by code_simp
  have "legacyValue keys (setItem KNOWN_ACCOUNTS_KEY v w) = legacyValue keys w" if "KNOWN_ACCOUNTS_KEY \<notin> set keys" for keys w
    using that by (induction keys) (auto simp: legacyValue_def List.map_filter_simps split: option.splits)
  from this [OF k] show ?thesis by (auto simp: savedToken_def loadSessionValue_def split: option.splits list.splits)
qed

lemma savedToken_save:
  assumes "goodDevice D" "saveSessionValue (td_tauri D) ok TEACHER_KEYS (td_stringify D (sessionJson url tok u)) ss = (True, ss')"
  shows "savedToken D ss' = Some tok"
proof -
  let ?v = "td_stringify D (sessionJson url tok u)"
  obtain c w where v: "?v = c # w" using assms(1) by (cases ?v) (auto simp: goodDevice_def)
  have d: "js ''cinder.teacher.session'' \<noteq> js ''lu'' @ js ''mina.teacher.session''" by code_simp
  have "getItem (removeWebValues (tl TEACHER_KEYS) (setItem (hd TEACHER_KEYS) ?v (web ss))) (hd TEACHER_KEYS) = Some ?v"
    using d by (simp add: TEACHER_KEYS_def)
  then have l: "legacyValue TEACHER_KEYS (removeWebValues (tl TEACHER_KEYS) (setItem (hd TEACHER_KEYS) ?v (web ss))) = Some ?v"
    using legacyValue_first [of ?v _ "hd TEACHER_KEYS" "tl TEACHER_KEYS"] v by (simp add: TEACHER_KEYS_def)
  have "fst (loadSessionValue (td_tauri D) (td_loadOk D) (td_saveOk D) TEACHER_KEYS ss') = Some ?v"
    using assms l v by (auto simp: saveSessionValue_def loadSessionValue_def goodDevice_def split: if_splits)
  moreover have "case td_parse D ?v of Inr v \<Rightarrow> field v ''token'' = Some (JStr tok) | Inl _ \<Rightarrow> False"
    using assms(1) unfolding goodDevice_def by blast
  ultimately show ?thesis by (auto simp: savedToken_def split: sum.splits)
qed

lemma loadSessionValue_again:
  "fst (loadSessionValue w True ok keys (snd (loadSessionValue w True ok keys ss))) = fst (loadSessionValue w True ok keys ss)"
proof -
  have "x \<noteq> []" if "legacyValue keys (web ss) = Some x" for x
    using that set_find_SomeD by (fastforce simp: legacyValue_def)
  then show ?thesis by (auto simp: loadSessionValue_def split: option.splits list.splits)
qed

lemma parse_token:
  assumes "parseStoredTeacherSession parse raw fb = Some x"
  obtains v where "parse raw = Inr v" "field v ''token'' = Some (JStr (ts_token x))"
  using assms by (auto simp: parseStoredTeacherSession_def split: sum.splits option.splits json.splits list.splits if_splits)

lemma savedToken_stored:
  assumes "goodDevice D" "storedTeacher D ok fb ss = (Some x, ss')"
  shows "savedToken D ss' = Some (ts_token x)"
proof -
  obtain raw where r: "loadSessionValue (td_tauri D) (td_loadOk D) (td_saveOk D) TEACHER_KEYS ss = (Some raw, ss')"
    and p: "parseStoredTeacherSession (td_parse D) raw fb = Some x"
    using assms(2) by (auto simp: storedTeacher_def split: prod.splits option.splits)
  have l: "td_loadOk D" using assms(1) by (simp add: goodDevice_def)
  from p obtain v where "td_parse D raw = Inr v" "field v ''token'' = Some (JStr (ts_token x))" by (rule parse_token)
  moreover have "fst (loadSessionValue (td_tauri D) (td_loadOk D) (td_saveOk D) TEACHER_KEYS ss') = Some raw"
    using loadSessionValue_again [of "td_tauri D" "td_saveOk D" TEACHER_KEYS ss] r l by simp
  ultimately show ?thesis by (simp add: savedToken_def)
qed

section \<open>Frames\<close>

text \<open>The parts of the state that the invariant speaks of.\<close>

definition core :: "teacher_device \<Rightarrow> teacher_state \<Rightarrow> nat \<times> json option \<times> nat \<times> cinder_api list \<times> jsstring \<times> jsstring option \<times> teacher_task list" where
  "core D s = (generationOf s, teacherUser s, activeApi s, apis s, teacherBaseUrl s, savedToken D (teacherSaved s), teacherTasks s)"

lemma okTask_core: "core D s = core D s' \<Longrightarrow> okTask D s t = okTask D s' t"
proof -
  assume c: "core D s = core D s'"
  then have "currentSignIn s = currentSignIn s'" by (auto simp: fun_eq_iff currentSignIn_def core_def split: teacher_task.splits)
  then show ?thesis using c by (cases t) (simp_all add: core_def currentToken_def)
qed

lemma teacherInv_core:
  assumes "core D s = core D s'"
  shows "teacherInv D s = teacherInv D s'"
proof -
  have "signingIn s = signingIn s'" using assms by (auto simp: fun_eq_iff signingIn_def core_def split: teacher_task.splits)
  then show ?thesis
    using assms okTask_core [OF assms] by (simp add: teacherInv_def oneToken_def sessionKept_def tasksOk_def core_def currentToken_def)
qed

lemma core_simps [simp]:
  "core D (keepKnown D known s) = core D s"
  "core D (endRetry g s) = core D s"
  "core D (startLoad g s) = core D s"
  "core D (finishLoad l s) = core D s"
  "core D (s\<lparr>ts_online := b\<rparr>) = core D s"
  "core D (s\<lparr>reconnectInFlight := n\<rparr>) = core D s"
  "core D (rememberTeacher D name s) = core D s"
  "core D (forgetTeacher D name s) = core D s"
  by (auto simp: core_def keepKnown_def endRetry_def startLoad_def finishLoad_def rememberTeacher_def forgetTeacher_def Let_def split: option.splits)

lemma inv_frames [simp]:
  "teacherInv D (endRetry g s) = teacherInv D s"
  "teacherInv D (startLoad g s) = teacherInv D s"
  "teacherInv D (finishLoad l s) = teacherInv D s"
  "teacherInv D (s\<lparr>ts_online := b\<rparr>) = teacherInv D s"
  "teacherInv D (s\<lparr>reconnectInFlight := n\<rparr>) = teacherInv D s"
  "teacherInv D (rememberTeacher D name s) = teacherInv D s"
  "teacherInv D (forgetTeacher D name s) = teacherInv D s"
  by (rule teacherInv_core; simp)+

lemma one_left: "length (filter P xs) \<le> 1 \<Longrightarrow> x \<in> set xs \<Longrightarrow> P x \<Longrightarrow> y \<in> set (remove1 x xs) \<Longrightarrow> \<not> P y"
proof (induction xs)
  case (Cons a xs)
  then show ?case by (cases "a = x") (auto simp: filter_empty_conv split: if_splits)
qed simp

lemma filter_remove1_le: "length (filter P (remove1 x xs)) \<le> length (filter P xs)"
  by (induction xs) auto

section \<open>Preservation\<close>

lemma filter_mono_len: "(\<And>x. x \<in> set xs \<Longrightarrow> P x \<Longrightarrow> Q x) \<Longrightarrow> length (filter P xs) \<le> length (filter Q xs)"
  by (induction xs) auto

text \<open>A connection replaced at the end of a change of host: nobody is signed in and its sign-ins are over.\<close>

definition noSignIn :: "teacher_state \<Rightarrow> bool" where
  "noSignIn s \<longleftrightarrow> (\<forall>t \<in> set (teacherTasks s). \<not> signingIn s t)"

lemma teacherInvD:
  assumes "teacherInv D s"
  shows "oneToken s" "sessionKept D s" "\<And>t. t \<in> set (teacherTasks s) \<Longrightarrow> okTask D s t"
    "length (filter (signingIn s) (teacherTasks s)) \<le> 1" "length (filter connecting (teacherTasks s)) \<le> 1"
  using assms unfolding teacherInv_def tasksOk_def by blast+

lemma currentSignIn_signingIn: "currentSignIn s t \<Longrightarrow> signingIn s t"
  by (auto simp: currentSignIn_def signingIn_def split: teacher_task.splits)

lemma endTask_simps [simp]:
  "generationOf (endTask t s) = generationOf s" "teacherUser (endTask t s) = teacherUser s" "activeApi (endTask t s) = activeApi s"
  "apis (endTask t s) = apis s" "teacherBaseUrl (endTask t s) = teacherBaseUrl s" "teacherSaved (endTask t s) = teacherSaved s"
  "currentToken (endTask t s) = currentToken s" "signingIn (endTask t s) = signingIn s" "currentSignIn (endTask t s) = currentSignIn s"
  "teacherTasks (endTask t s) = remove1 t (teacherTasks s)"
  by (auto simp: endTask_def currentToken_def signingIn_def currentSignIn_def fun_eq_iff split: teacher_task.splits)

lemma okTask_endTask: "okTask D s x \<Longrightarrow> okTask D (endTask t s) x"
  using set_remove1_subset [of t "teacherTasks s"] by (cases x) auto

lemma inv_endTask: "teacherInv D s \<Longrightarrow> teacherInv D (endTask t s)"
proof -
  assume i: "teacherInv D s"
  note k = teacherInvD [OF i]
  have "\<forall>x \<in> set (remove1 t (teacherTasks s)). okTask D (endTask t s) x"
    using k(3) okTask_endTask notin_set_remove1 by fast
  then have "tasksOk D (endTask t s)"
    unfolding tasksOk_def endTask_simps
    using le_trans [OF filter_remove1_le k(4)] le_trans [OF filter_remove1_le k(5)] by blast
  then show ?thesis using i by (simp add: teacherInv_def oneToken_def sessionKept_def)
qed

lemma noSignIn_endTask: "teacherInv D s \<Longrightarrow> t \<in> set (teacherTasks s) \<Longrightarrow> signingIn s t \<Longrightarrow> noSignIn (endTask t s)"
  unfolding noSignIn_def endTask_simps using one_left [OF teacherInvD(4)] by blast

lemma noConn_endTask: "teacherInv D s \<Longrightarrow> t \<in> set (teacherTasks s) \<Longrightarrow> connecting t \<Longrightarrow> x \<in> set (remove1 t (teacherTasks s)) \<Longrightarrow> \<not> connecting x"
  using one_left [OF teacherInvD(5)] by blast

lemma spawnTask_simps [simp]:
  "generationOf (spawnTask t s) = generationOf s" "teacherUser (spawnTask t s) = teacherUser s" "activeApi (spawnTask t s) = activeApi s"
  "apis (spawnTask t s) = apis s" "teacherBaseUrl (spawnTask t s) = teacherBaseUrl s" "teacherSaved (spawnTask t s) = teacherSaved s"
  "currentToken (spawnTask t s) = currentToken s" "signingIn (spawnTask t s) = signingIn s" "currentSignIn (spawnTask t s) = currentSignIn s"
  "teacherTasks (spawnTask t s) = t # teacherTasks s"
  by (auto simp: spawnTask_def currentToken_def signingIn_def currentSignIn_def fun_eq_iff split: teacher_task.splits)

definition clearing :: "teacher_task \<Rightarrow> bool" where
  "clearing t \<longleftrightarrow> (case t of ConnClearing url label setup \<Rightarrow> True | _ \<Rightarrow> False)"

lemma clearing_connecting: "clearing t \<Longrightarrow> connecting t"
  by (cases t) (simp_all add: clearing_def connecting_def)

lemma not_clearing: "okTask D s x \<Longrightarrow> currentSignIn s t \<Longrightarrow> t \<in> set (teacherTasks s) \<Longrightarrow> \<not> clearing x"
  by (cases x) (auto simp: clearing_def)

lemma okTask_spawn:
  "okTask D s x \<Longrightarrow> currentSignIn s t \<Longrightarrow> \<not> clearing x \<Longrightarrow> okTask D (spawnTask t s) x"
  "okTask D s x \<Longrightarrow> \<not> currentSignIn s t \<Longrightarrow> okTask D (spawnTask t s) x"
  by (cases x; simp add: clearing_def)+

text \<open>A new task: it is in order, it is the only sign-in or the only change of host of its kind, and a new sign-in finds no change of
  host under way.\<close>

lemma inv_spawn:
  assumes "teacherInv D s" "okTask D (spawnTask t s) t"
    "signingIn s t \<Longrightarrow> noSignIn s \<and> (\<forall>x \<in> set (teacherTasks s). \<not> clearing x)"
    "connecting t \<Longrightarrow> \<forall>x \<in> set (teacherTasks s). \<not> connecting x"
  shows "teacherInv D (spawnTask t s)"
proof -
  have "okTask D (spawnTask t s) x" if x: "x \<in> set (teacherTasks s)" for x
    using assms(1,3) x okTask_spawn [of D s x t] currentSignIn_signingIn [of s t] by (auto simp: teacherInv_def tasksOk_def)
  moreover have "length (filter (signingIn s) (t # teacherTasks s)) \<le> 1"
    using assms(1,3) by (cases "signingIn s t") (auto simp: teacherInv_def tasksOk_def noSignIn_def)
  moreover have "length (filter connecting (t # teacherTasks s)) \<le> 1"
    using assms(1,4) by (cases "connecting t") (auto simp: teacherInv_def tasksOk_def)
  ultimately show ?thesis
    using assms(1,2) by (simp add: teacherInv_def tasksOk_def oneToken_def sessionKept_def)
qed

lemma dropSession_simps [simp]:
  "generationOf (dropSession D ok r s) = generationOf s + 1" "teacherUser (dropSession D ok r s) = None"
  "activeApi (dropSession D ok r s) = activeApi s" "apis (dropSession D ok r s) = (apis s)[r := (apis s ! r)\<lparr>token := None\<rparr>]"
  "teacherBaseUrl (dropSession D ok r s) = teacherBaseUrl s" "teacherTasks (dropSession D ok r s) = teacherTasks s"
  by (simp_all add: dropSession_def clearTeacher_def setToken_def resetWorkspace_def resetTeacherWorkspaceState_def)

lemma inv_drop:
  assumes "teacherInv D s"
  shows "teacherInv D (dropSession D ok (activeApi s) s)" "currentToken (dropSession D ok (activeApi s) s) = None"
proof -
  let ?s = "dropSession D ok (activeApi s) s"
  have a: "activeApi s < length (apis s)" using assms by (simp add: teacherInv_def oneToken_def)
  show tok: "currentToken ?s = None" using a by (simp add: currentToken_def)
  have ok: "okTask D s x" if "x \<in> set (teacherTasks s)" for x using assms that by (simp add: teacherInv_def tasksOk_def)
  have gen: "\<not> currentSignIn ?s x" if "x \<in> set (teacherTasks s)" for x
    using ok [OF that] by (cases x) (auto simp: currentSignIn_def)
  have "okTask D ?s x" if "x \<in> set (teacherTasks s)" for x
    using ok [OF that] gen tok by (cases x) auto
  moreover have "signingIn s x" if "x \<in> set (teacherTasks s)" "signingIn ?s x" for x
    using ok [OF that(1)] that(2) by (cases x) (auto simp: signingIn_def)
  then have "length (filter (signingIn ?s) (teacherTasks s)) \<le> length (filter (signingIn s) (teacherTasks s))"
    by (rule filter_mono_len)
  moreover have "oneToken ?s" using assms by (simp add: teacherInv_def oneToken_def nth_list_update)
  ultimately show "teacherInv D ?s" using assms by (auto simp: teacherInv_def tasksOk_def sessionKept_def)
qed

text \<open>An invariant of the same connections and the same changes of host, when the tasks are in order again.\<close>

lemma teacherInvI:
  assumes "oneToken s'" "sessionKept D s'" "teacherTasks s' = teacherTasks s" "teacherInv D s"
    "\<And>x. x \<in> set (teacherTasks s) \<Longrightarrow> okTask D s x \<Longrightarrow> okTask D s' x"
    "\<And>x. x \<in> set (teacherTasks s) \<Longrightarrow> okTask D s x \<Longrightarrow> signingIn s' x \<Longrightarrow> signingIn s x"
  shows "teacherInv D s'"
proof -
  note k = teacherInvD [OF assms(4)]
  have "length (filter (signingIn s') (teacherTasks s)) \<le> length (filter (signingIn s) (teacherTasks s))"
    using filter_mono_len [of "teacherTasks s" "signingIn s'" "signingIn s"] assms(6) k(3) by blast
  then show ?thesis using assms(1,2,3,5) k by (simp add: teacherInv_def tasksOk_def)
qed

lemma resetWorkspace_simps [simp]:
  "generationOf (resetWorkspace s) = generationOf s + 1" "teacherUser (resetWorkspace s) = teacherUser s"
  "activeApi (resetWorkspace s) = activeApi s" "apis (resetWorkspace s) = apis s" "currentToken (resetWorkspace s) = currentToken s"
  "teacherBaseUrl (resetWorkspace s) = teacherBaseUrl s" "teacherTasks (resetWorkspace s) = teacherTasks s"
  "teacherSaved (resetWorkspace s) = teacherSaved s"
  by (simp_all add: resetWorkspace_def resetTeacherWorkspaceState_def currentToken_def)

lemma okTask_signingIn_later: "okTask D s x \<Longrightarrow> generationOf s' = generationOf s + 1 \<Longrightarrow> \<not> currentSignIn s' x \<and> (signingIn s' x \<longrightarrow> signingIn s x)"
  by (cases x) (auto simp: currentSignIn_def signingIn_def)

lemma inv_reset:
  assumes "teacherInv D s"
  shows "teacherInv D (resetWorkspace s)"
proof (rule teacherInvI [OF _ _ _ assms])
  show "oneToken (resetWorkspace s)" "sessionKept D (resetWorkspace s)"
    using teacherInvD(1,2) [OF assms] by (simp_all add: oneToken_def sessionKept_def)
  have later: "\<not> currentSignIn (resetWorkspace s) x" if "x \<in> set (teacherTasks s)" for x
    using okTask_signingIn_later [OF teacherInvD(3) [OF assms that]] by simp
  show "okTask D (resetWorkspace s) x" if "okTask D s x" for x
    using that later by (cases x) auto
  show "signingIn s x" if "okTask D s x" "signingIn (resetWorkspace s) x" for x
    using okTask_signingIn_later [OF that(1), of "resetWorkspace s"] that(2) by simp
qed simp

lemma inv_setUser:
  assumes "teacherInv D s" "teacherUser s \<noteq> None"
  shows "teacherInv D (s\<lparr>teacherUser := Some u\<rparr>)"
proof (rule teacherInvI [OF _ _ _ assms(1)])
  show "oneToken (s\<lparr>teacherUser := Some u\<rparr>)" "sessionKept D (s\<lparr>teacherUser := Some u\<rparr>)"
    using teacherInvD(1,2) [OF assms(1)] assms(2) by (simp_all add: oneToken_def sessionKept_def currentToken_def)
  show "okTask D (s\<lparr>teacherUser := Some u\<rparr>) x" if "okTask D s x" for x
    using that assms(2) by (cases x) auto
  show "signingIn s x" if "signingIn (s\<lparr>teacherUser := Some u\<rparr>) x" for x
    using that by (auto simp: signingIn_def split: teacher_task.splits)
qed simp

lemma inv_showAccount: "teacherInv D s \<Longrightarrow> teacherUser s \<noteq> None \<Longrightarrow> teacherInv D (showAccount D u s)"
  using inv_setUser unfolding showAccount_def inv_frames by blast

lemma inv_saved:
  assumes "teacherInv D s" "teacherUser s = None" "noSignIn s"
  shows "teacherInv D (s\<lparr>teacherSaved := ss\<rparr>)"
proof (rule teacherInvI [OF _ _ _ assms(1)])
  show "oneToken (s\<lparr>teacherSaved := ss\<rparr>)" "sessionKept D (s\<lparr>teacherSaved := ss\<rparr>)"
    using teacherInvD(1) [OF assms(1)] assms(2) by (simp_all add: oneToken_def sessionKept_def)
  show "okTask D (s\<lparr>teacherSaved := ss\<rparr>) x" if "x \<in> set (teacherTasks s)" "okTask D s x" for x
  proof -
    have "\<not> signingIn s x" using that(1) assms(3) by (simp add: noSignIn_def)
    moreover have "currentSignIn (s\<lparr>teacherSaved := ss\<rparr>) = currentSignIn s"
      by (auto simp: fun_eq_iff currentSignIn_def split: teacher_task.splits)
    ultimately show ?thesis using that(2) by (cases x) (simp_all add: signingIn_def currentToken_def)
  qed
  show "signingIn s x" if "signingIn (s\<lparr>teacherSaved := ss\<rparr>) x" for x
    using that by (auto simp: signingIn_def split: teacher_task.splits)
qed simp

lemma inv_beginLoad: "teacherInv D s \<Longrightarrow> teacherInv D (beginLoad g r b s)"
  using inv_spawn [of D "startLoad g s" "LoadCall g r b"] by (simp add: beginLoad_def signingIn_def connecting_def)

lemma inv_loadAnswered: "teacherInv D s \<Longrightarrow> teacherInv D (loadAnswered t res s)"
  using inv_endTask by (cases t) (simp_all add: loadAnswered_def Let_def)

lemma inv_retry:
  assumes i: "teacherInv D s"
  shows "teacherInv D (retry s)"
proof (cases "teacherUser s \<noteq> None \<and> \<not> ts_online s \<and> reconnectInFlight s \<noteq> Some (generationOf s)")
  case True
  let ?s = "s\<lparr>reconnectInFlight := Some (generationOf s)\<rparr>"
  have "teacherInv D (spawnTask (RetryCall (generationOf s) (activeApi s)) ?s)"
    using i True by (intro inv_spawn) (simp_all add: signingIn_def connecting_def)
  then show ?thesis using True by (simp add: retry_def teacherReconnectDelay_def)
qed (use i in \<open>auto simp: retry_def teacherReconnectDelay_def\<close>)

lemma inv_retryAnswer:
  assumes "teacherInv D s" "RetryCall g r \<in> set (teacherTasks s)"
  shows "teacherInv D (retryAnswer D (RetryCall g r) cancelled answered clearOk s)"
proof -
  let ?s = "endTask (RetryCall g r) s"
  have e: "teacherInv D ?s" by (rule inv_endTask [OF assms(1)])
  show ?thesis
  proof (cases "cancelled \<or> g \<noteq> generationOf s")
    case True
    then show ?thesis using e by (simp add: retryAnswer_def isCurrentTeacherWorkspaceGeneration_def)
  next
    case False
    then have "okTask D s (RetryCall (generationOf s) r)" using teacherInvD(3) [OF assms] by simp
    then have u: "teacherUser ?s \<noteq> None" and r: "activeApi (?s\<lparr>ts_online := False\<rparr>) = r" by simp_all
    have d: "teacherInv D (dropSession D clearOk r (?s\<lparr>ts_online := False\<rparr>))"
      using inv_drop(1) [of D "?s\<lparr>ts_online := False\<rparr>"] e r by simp
    show ?thesis
      using False e d inv_beginLoad [OF inv_showAccount [OF e u]]
      by (cases answered) (simp_all add: retryAnswer_def isCurrentTeacherWorkspaceGeneration_def)
  qed
qed

lemma inv_signIn:
  assumes i: "teacherInv D s" and u: "teacherUser s = None" and n: "noSignIn s" "\<forall>t \<in> set (teacherTasks s). \<not> connecting t"
  shows "teacherInv D (signIn s)"
proof -
  let ?s = "resetWorkspace s"
  have "\<not> signingIn ?s x" if "x \<in> set (teacherTasks s)" for x
    using okTask_signingIn_later [OF teacherInvD(3) [OF i that], of ?s] n(1) that by (auto simp: noSignIn_def)
  then have "noSignIn ?s" by (simp add: noSignIn_def)
  then show ?thesis
    unfolding signIn_def Let_def using u n(2) clearing_connecting
    by (intro inv_spawn inv_reset i) (auto simp: connecting_def)
qed

lemma inv_signInAnswer:
  assumes "goodDevice D" "teacherInv D s" "SignInCall g r url \<in> set (teacherTasks s)"
  shows "teacherInv D (signInAnswer D (SignInCall g r url) tok u saveOk s)"
proof -
  let ?t = "SignInCall g r url" let ?s = "endTask ?t s"
  have e: "teacherInv D ?s" by (rule inv_endTask [OF assms(2)])
  show ?thesis
  proof (cases "g = generationOf s")
    case True
    then have sg: "currentSignIn s ?t" by (simp add: currentSignIn_def)
    have n: "noSignIn ?s" using noSignIn_endTask [OF assms(2,3)] sg currentSignIn_signingIn by blast
    have ok: "r = activeApi s" "teacherUser s = None" using teacherInvD(3) [OF assms(2,3)] True by auto
    have nc: "\<not> clearing x" if "x \<in> set (teacherTasks ?s)" for x
      using not_clearing [OF teacherInvD(3) [OF assms(2)] sg assms(3)] that notin_set_remove1 by fastforce
    obtain saved ss where sv: "saveSessionValue (td_tauri D) saveOk TEACHER_KEYS (td_stringify D (sessionJson url tok u)) (teacherSaved ?s) = (saved, ss)"
      by fastforce
    let ?s' = "?s\<lparr>teacherSaved := ss\<rparr>"
    have i: "teacherInv D ?s'" using inv_saved [OF e _ n] ok(2) by simp
    have new: "okTask D (spawnTask (SignInSaving g r tok u saved) ?s') (SignInSaving g r tok u saved)"
      using ok True savedToken_save [OF assms(1)] sv by auto
    have res: "signInAnswer D ?t tok u saveOk s = spawnTask (SignInSaving g r tok u saved) ?s'"
      using True sv by (simp add: signInAnswer_def saveTeacher_def isCurrentTeacherWorkspaceGeneration_def)
    have n': "noSignIn ?s'" using n by (auto simp: noSignIn_def signingIn_def split: teacher_task.splits)
    show ?thesis unfolding res by (rule inv_spawn [OF i new]) (use n' nc in \<open>simp_all add: connecting_def\<close>)
  qed (use e in \<open>simp add: signInAnswer_def isCurrentTeacherWorkspaceGeneration_def\<close>)
qed

text \<open>The end of a sign-in: the token goes to the connection, and the account is shown.\<close>

lemma inv_signedIn:
  assumes i: "teacherInv D s" and n: "noSignIn s" "\<forall>x \<in> set (teacherTasks s). \<not> clearing x" and u: "teacherUser s = None"
    and k: "savedToken D (teacherSaved s) = Some tok"
  shows "teacherInv D ((setToken (activeApi s) (Some tok) s)\<lparr>teacherUser := Some a, ts_online := b\<rparr>)" (is "teacherInv D ?s")
proof (rule teacherInvI [OF _ _ _ i])
  have l: "activeApi s < length (apis s)" using teacherInvD(1) [OF i] by (simp add: oneToken_def)
  show "oneToken ?s" using teacherInvD(1) [OF i] by (simp add: oneToken_def setToken_def)
  show "sessionKept D ?s" using l k by (simp add: sessionKept_def setToken_def currentToken_def)
  show "okTask D ?s x" if "x \<in> set (teacherTasks s)" "okTask D s x" for x
  proof -
    have "\<not> signingIn s x" "\<not> clearing x" using that(1) n by (simp_all add: noSignIn_def)
    then show ?thesis using that(2) u by (cases x) (auto simp: setToken_def signingIn_def clearing_def)
  qed
  show "signingIn s x" if "signingIn ?s x" for x using that by (auto simp: setToken_def signingIn_def split: teacher_task.splits)
qed (simp add: setToken_def)

lemma inv_signInSaved:
  assumes "teacherInv D s" "SignInSaving g r tok u saved \<in> set (teacherTasks s)"
  shows "teacherInv D (signInSaved D (SignInSaving g r tok u saved) clearOk s)"
proof -
  let ?t = "SignInSaving g r tok u saved" let ?s = "endTask ?t s"
  have e: "teacherInv D ?s" by (rule inv_endTask [OF assms(1)])
  have ok: "okTask D s ?t" by (rule teacherInvD(3) [OF assms])
  have n: "noSignIn ?s" using noSignIn_endTask [OF assms] by (simp add: signingIn_def)
  show ?thesis
  proof (cases "g = generationOf s \<and> saved")
    case True
    then have sg: "currentSignIn s ?t" by (simp add: currentSignIn_def)
    have nc: "\<forall>x \<in> set (teacherTasks ?s). \<not> clearing x"
      using not_clearing [OF teacherInvD(3) [OF assms(1)] sg assms(2)] notin_set_remove1 by fastforce
    have a: "activeApi ?s = r" "teacherUser ?s = None" "savedToken D (teacherSaved ?s) = Some tok" using ok True by auto
    have "teacherInv D ((setToken r (Some tok) ?s)\<lparr>teacherUser := Some u, ts_online := True\<rparr>)"
      using inv_signedIn [OF e n nc a(2,3)] a(1) by simp
    then show ?thesis
      using True inv_beginLoad by (simp add: signInSaved_def isCurrentTeacherWorkspaceGeneration_def)
  next
    case False
    have "teacherInv D (clearTeacher D clearOk ?s)"
      using inv_saved [OF e _ n] ok unfolding clearTeacher_def by simp
    then show ?thesis using False e by (auto simp: signInSaved_def isCurrentTeacherWorkspaceGeneration_def Let_def)
  qed
qed

lemma inv_connect:
  assumes "teacherInv D s" "\<forall>t \<in> set (teacherTasks s). \<not> connecting t"
  shows "teacherInv D (connect D nextUrl nextLabel s)"
  using assms by (auto simp: connect_def signingIn_def intro!: inv_spawn split: option.splits)

lemma inv_connectAnswer:
  assumes "teacherInv D s" "ConnCall url label r base \<in> set (teacherTasks s)"
  shows "teacherInv D (connectAnswer D (ConnCall url label r base) setup clearOk s)"
proof -
  let ?t = "ConnCall url label r base" let ?s = "endTask ?t s"
  have e: "teacherInv D ?s" by (rule inv_endTask [OF assms(1)])
  have ok: "activeApi ?s = r" "teacherBaseUrl s = base" using teacherInvD(3) [OF assms] by simp_all
  let ?d = "dropSession D clearOk r ?s"
  have d: "teacherInv D ?d" "currentToken ?d = None" using inv_drop [OF e, of clearOk] unfolding ok(1) .
  have cl: "\<not> connecting x" if "x \<in> set (teacherTasks ?d)" for x
    using noConn_endTask [OF assms, of x] that by (simp add: connecting_def)
  have sg: "\<not> currentSignIn ?d x" if "x \<in> set (teacherTasks ?d)" for x
    using okTask_signingIn_later [OF teacherInvD(3) [OF e], of x ?d] that by simp
  have "okTask D (spawnTask (ConnClearing url label setup) ?d) (ConnClearing url label setup)"
    using d(2) sg by (simp add: currentSignIn_def)
  then have "teacherInv D (spawnTask (ConnClearing url label setup) ?d)"
    using cl by (intro inv_spawn d) (simp_all add: signingIn_def)
  moreover have "teacherInv D (finishConnection base label setup (?s\<lparr>activeApi := r\<rparr>))"
  proof -
    have "core D (finishConnection base label setup (?s\<lparr>activeApi := r\<rparr>)) = core D ?s" using ok by (simp add: core_def finishConnection_def)
    then show ?thesis using teacherInv_core e by blast
  qed
  ultimately show ?thesis by (auto simp: connectAnswer_def Let_def)
qed

lemma inv_connectCleared:
  assumes "teacherInv D s" "ConnClearing url label setup \<in> set (teacherTasks s)" "\<forall>t \<in> set (teacherTasks s). \<not> savingSession t"
  shows "teacherInv D (connectCleared (ConnClearing url label setup) s)"
proof -
  let ?t = "ConnClearing url label setup" let ?s = "endTask ?t s"
  let ?c = "finishConnection url label setup (openApi url None ?s)"
  have e: "teacherInv D ?s" by (rule inv_endTask [OF assms(1)])
  have ok: "teacherUser s = None" "token (apis s ! activeApi s) = None" "\<forall>x \<in> set (teacherTasks s). \<not> currentSignIn s x"
    using teacherInvD(3) [OF assms(1,2)] by (simp_all add: currentToken_def)
  have one: "oneToken s" by (rule teacherInvD(1) [OF assms(1)])
  have "teacherInv D ?c"
  proof (rule teacherInvI [OF _ _ _ e])
    have "token (apis s ! r) = None" if "r < length (apis s)" for r
      using one ok(2) that by (cases "r = activeApi s") (auto simp: oneToken_def)
    then show "oneToken ?c" by (auto simp: oneToken_def finishConnection_def openApi_def nth_append newApi_def)
    show "sessionKept D ?c" using ok(1) by (simp add: sessionKept_def finishConnection_def openApi_def)
    show "okTask D ?c x" if "x \<in> set (teacherTasks ?s)" "okTask D ?s x" for x
    proof -
      have x: "x \<in> set (teacherTasks s)" using that(1) notin_set_remove1 by force
      have "\<not> connecting x" using noConn_endTask [OF assms(1,2), of x] that(1) by (simp add: connecting_def)
      moreover have "\<not> savingSession x" "\<not> currentSignIn s x" using assms(3) ok(3) x by blast+
      ultimately show ?thesis using that(2) ok(1)
        by (cases x) (auto simp: connecting_def savingSession_def currentSignIn_def finishConnection_def openApi_def)
    qed
    show "signingIn ?s x" if "signingIn ?c x" for x
      using that by (auto simp: signingIn_def finishConnection_def openApi_def split: teacher_task.splits)
  qed (simp add: finishConnection_def openApi_def)
  then show ?thesis by (simp add: connectCleared_def)
qed

lemma inv_step:
  assumes "goodDevice D" "teacherStep D False signins s s'" "teacherInv D s"
  shows "teacherInv D s'"
  using assms(2)
proof cases
  case (sign_in_answer g r url tok u saveOk)
  then show ?thesis using inv_signInAnswer [OF assms(1,3)] by simp
next
  case sign_out
  then show ?thesis using inv_drop(1) [OF assms(3)] by (simp add: signOut_def)
next
  case sign_in
  then show ?thesis using inv_signIn [OF assms(3)] by (simp add: noSignIn_def)
qed (use assms(3) inv_beginLoad inv_loadAnswered inv_retry inv_retryAnswer inv_endTask inv_signInSaved inv_connect inv_connectAnswer inv_connectCleared
    in \<open>simp_all\<close>)

section \<open>Start-up is in order\<close>

lemma showAccount_simps [simp]:
  "generationOf (showAccount D u s) = generationOf s" "teacherUser (showAccount D u s) = Some u" "activeApi (showAccount D u s) = activeApi s"
  "apis (showAccount D u s) = apis s" "teacherBaseUrl (showAccount D u s) = teacherBaseUrl s" "teacherTasks (showAccount D u s) = teacherTasks s"
  "savedToken D (teacherSaved (showAccount D u s)) = savedToken D (teacherSaved s)"
  by (simp_all add: showAccount_def rememberTeacher_def keepKnown_def)

lemma finishLoad_simps [simp]:
  "teacherUser (finishLoad l s) = teacherUser s" "activeApi (finishLoad l s) = activeApi s" "apis (finishLoad l s) = apis s"
  "teacherBaseUrl (finishLoad l s) = teacherBaseUrl s" "teacherTasks (finishLoad l s) = teacherTasks s" "teacherSaved (finishLoad l s) = teacherSaved s"
  "teacherUser (startLoad g s) = teacherUser s" "activeApi (startLoad g s) = activeApi s" "apis (startLoad g s) = apis s"
  "teacherBaseUrl (startLoad g s) = teacherBaseUrl s" "teacherTasks (startLoad g s) = teacherTasks s" "teacherSaved (startLoad g s) = teacherSaved s"
  by (auto simp: finishLoad_def startLoad_def Let_def split: option.splits)

text \<open>Before anybody is shown: nothing runs, and a token in the connection is that of the saved session.\<close>

definition fresh :: "teacher_device \<Rightarrow> teacher_state \<Rightarrow> bool" where
  "fresh D s \<longleftrightarrow> oneToken s \<and> teacherTasks s = [] \<and> teacherUser s = None \<and>
     (\<forall>tok. currentToken s = Some tok \<longrightarrow> savedToken D (teacherSaved s) = Some tok)"

lemma inv_idle: "teacherTasks s = [] \<Longrightarrow> teacherInv D s \<longleftrightarrow> oneToken s \<and> sessionKept D s"
  by (simp add: teacherInv_def tasksOk_def)

lemma fresh_inv: "fresh D s \<Longrightarrow> teacherInv D s"
  by (simp add: inv_idle fresh_def sessionKept_def)

lemma startHost_kept:
  assumes "startHost D config clearOk s = (kept, host, s')"
  shows "apis s' = apis s" "activeApi s' = activeApi s" "teacherTasks s' = teacherTasks s" "teacherUser s = None \<Longrightarrow> teacherUser s' = None"
    "kept = Some x \<Longrightarrow> fst (storedTeacher D clearOk (case host_url config of Some u \<Rightarrow> u | None \<Rightarrow> TEACHER_DEV_HOST) (teacherSaved s)) = Some x \<and>
       teacherHost D (ts_baseUrl x) = Some host"
    "goodDevice D \<Longrightarrow> kept = Some x \<Longrightarrow> savedToken D (teacherSaved s') = Some (ts_token x)"
  using assms savedToken_stored
  by (auto simp: startHost_def clearTeacher_def Let_def split: prod.splits option.splits if_splits)

lemma fresh_start:
  assumes g: "goodDevice D" and "startHost D config clearOk (resetWorkspace (initialTeacher parse ss)) = (kept, host, s')"
  shows "fresh D (startConnection D config kept host s')" "currentToken (startConnection D config kept host s') = map_option ts_token kept"
proof -
  note h = startHost_kept [OF assms(2)]
  have a: "apis s' = [newApi TEACHER_DEV_HOST None]" "teacherTasks s' = []" "teacherUser s' = None"
    using h(1-4) by (simp_all add: initialTeacher_def)
  show t: "currentToken (startConnection D config kept host s') = map_option ts_token kept"
    using a(1) by (simp add: startConnection_def openApi_def currentToken_def newApi_def)
  have "oneToken (startConnection D config kept host s')"
    using a(1) by (auto simp: oneToken_def startConnection_def openApi_def newApi_def nth_append less_Suc_eq)
  then show "fresh D (startConnection D config kept host s')"
    using a(2,3) t h(6) [OF g] by (auto simp: fresh_def startConnection_def openApi_def)
qed

lemma inv_shown: "fresh D s \<Longrightarrow> currentToken s = Some tok \<Longrightarrow> teacherInv D (showAccount D u s)"
  by (subst inv_idle) (auto simp: fresh_def oneToken_def sessionKept_def currentToken_def)

lemma inv_startSession:
  assumes "goodDevice D" "fresh D s" "currentToken s = Some (ts_token x)"
  shows "teacherInv D (startSession D A x host s)"
proof -
  have drop: "teacherInv D (dropSession D ok (activeApi s') s')" if "teacherInv D s'" for ok s' using inv_drop(1) [OF that] .
  note shown = inv_shown [OF assms(2,3)]
  have saved: "teacherInv D (finishLoad l (startLoad g (s'\<lparr>teacherSaved := ss\<rparr>)))"
    if "s' = showAccount D u s"
      "saveSessionValue (td_tauri D) ok TEACHER_KEYS (td_stringify D (sessionJson host (ts_token x) u)) (teacherSaved s') = (True, ss)" for u ok ss s' g l
  proof -
    have "savedToken D ss = Some (ts_token x)" by (rule savedToken_save [OF assms(1) that(2)])
    then have "teacherInv D (s'\<lparr>teacherSaved := ss\<rparr>)"
      using assms(2,3) unfolding that(1) by (subst inv_idle) (auto simp: fresh_def oneToken_def sessionKept_def currentToken_def)
    then show ?thesis by simp
  qed
  show ?thesis
  proof (cases "sta_me A")
    case (MeUser u)
    let ?s = "showAccount D u s"
    obtain ok ss where sv: "saveSessionValue (td_tauri D) (sta_saveOk A) TEACHER_KEYS (td_stringify D (sessionJson host (ts_token x) u)) (teacherSaved ?s) = (ok, ss)"
      by fastforce
    show ?thesis
    proof (cases ok)
      case True
      then show ?thesis using MeUser sv saved [OF refl] by (simp add: startSession_def saveTeacher_def)
    next
      case False
      then have "?s\<lparr>teacherSaved := ss\<rparr> = ?s" using sv by (auto simp: saveSessionValue_def split: if_splits)
      then show ?thesis using MeUser sv False drop [OF shown [of u]] by (simp add: startSession_def saveTeacher_def)
    qed
  next
    case MeError
    then show ?thesis using drop [OF fresh_inv [OF assms(2)]] by (simp add: startSession_def)
  next
    case MeUnreachable
    then show ?thesis using shown by (simp add: startSession_def)
  qed
qed

lemma inv_startup: "goodDevice D \<Longrightarrow> teacherInv D (teacherStartup D config A (initialTeacher parse ss))"
proof -
  assume g: "goodDevice D"
  obtain kept host s' where h: "startHost D config (sta_clearOk A) (resetWorkspace (initialTeacher parse ss)) = (kept, host, s')"
    by (cases "startHost D config (sta_clearOk A) (resetWorkspace (initialTeacher parse ss))") auto
  let ?s = "startConnection D config kept host s'"
  note f = fresh_start [OF g h]
  have v: "fresh D (?s\<lparr>ts_online := b\<rparr>)" "currentToken (?s\<lparr>ts_online := b\<rparr>) = map_option ts_token kept"
    "fresh D (?s\<lparr>needsSetup := n, ts_online := b\<rparr>)" "currentToken (?s\<lparr>needsSetup := n, ts_online := b\<rparr>) = map_option ts_token kept" for b n
    using f by (simp_all add: fresh_def oneToken_def currentToken_def)
  show ?thesis
  proof (cases "sta_status A")
    case None
    then have r: "teacherStartup D config A (initialTeacher parse ss) =
        (case kept of Some x \<Rightarrow> showAccount D (ts_user x) (?s\<lparr>ts_online := False\<rparr>) | None \<Rightarrow> ?s\<lparr>ts_online := False\<rparr>)"
      by (simp add: teacherStartup_def h Let_def)
    show ?thesis unfolding r using fresh_inv [OF v(1)] inv_shown [OF v(1)] v(2) by (cases kept) (auto simp del: inv_frames)
  next
    case (Some su)
    let ?o = "?s\<lparr>needsSetup := Some su, ts_online := True\<rparr>"
    have r: "teacherStartup D config A (initialTeacher parse ss) =
        (case kept of Some x \<Rightarrow> if su then ?o else startSession D A x host ?o | None \<Rightarrow> ?o)"
      by (simp add: teacherStartup_def h Some Let_def)
    show ?thesis unfolding r using fresh_inv [OF v(3)] inv_startSession [OF g v(3)] v(4) by (cases kept) (auto simp del: inv_frames)
  qed
qed

lemma inv_reachable: "goodDevice D \<Longrightarrow> teacherReachable D False s \<Longrightarrow> teacherInv D s"
  by (rotate_tac 1, induction rule: teacherReachable.induct) (auto intro: inv_startup inv_step)

section \<open>Signed out\<close>

text \<open>Nobody is signed in or about to be, and no connection carries a token.\<close>

definition signedOut :: "teacher_state \<Rightarrow> bool" where
  "signedOut s \<longleftrightarrow> teacherUser s = None \<and> currentToken s = None \<and> (\<forall>t \<in> set (teacherTasks s). \<not> currentSignIn s t)"

lemma signedOut_drop: "teacherInv D s \<Longrightarrow> signedOut (dropSession D ok (activeApi s) s)"
  using inv_drop(2) [of D s ok] okTask_signingIn_later [of D s _ "dropSession D ok (activeApi s) s"] teacherInvD(3) [of D s]
  by (auto simp: signedOut_def)

lemma signedOut_core: "core D s = core D s' \<Longrightarrow> signedOut s = signedOut s'"
  by (auto simp: signedOut_def core_def currentToken_def currentSignIn_def split: teacher_task.splits)

lemma signedOut_frames [simp]:
  "signedOut (endRetry g s) = signedOut s" "signedOut (startLoad g s) = signedOut s" "signedOut (finishLoad l s) = signedOut s"
  "signedOut (s\<lparr>ts_online := b\<rparr>) = signedOut s" "signedOut (s\<lparr>reconnectInFlight := n\<rparr>) = signedOut s" "signedOut (forgetTeacher D name s) = signedOut s"
  by (rule signedOut_core [where D = D]; simp)+

lemma signedOut_endTask: "signedOut s \<Longrightarrow> signedOut (endTask t s)"
  using notin_set_remove1 by (fastforce simp: signedOut_def)

lemma signedOut_spawn [simp]: "signedOut (spawnTask t s) \<longleftrightarrow> signedOut s \<and> \<not> currentSignIn s t"
  by (auto simp: signedOut_def)

lemma currentSignIn_cong: "generationOf s = generationOf s' \<Longrightarrow> currentSignIn s = currentSignIn s'"
  by (auto simp: fun_eq_iff currentSignIn_def split: teacher_task.splits)

lemma signedOut_finish [simp]: "signedOut (finishConnection url label b s) = signedOut s"
  using currentSignIn_cong [of "finishConnection url label b s" s] by (simp add: signedOut_def finishConnection_def currentToken_def)

lemma signedOut_openApi: "signedOut s \<Longrightarrow> signedOut (openApi url None s)"
  using currentSignIn_cong [of "openApi url None s" s] by (simp add: signedOut_def openApi_def currentToken_def newApi_def)

lemma signedOut_clear [simp]: "signedOut (clearTeacher D ok s) = signedOut s"
  using currentSignIn_cong [of "clearTeacher D ok s" s] by (simp add: signedOut_def clearTeacher_def currentToken_def)

lemma signedOut_step:
  assumes i: "teacherInv D s" and o: "signedOut s" and st: "teacherStep D False False s s'"
  shows "signedOut s'"
  using st
proof cases
  case (load r)
  then show ?thesis using o by (simp add: beginLoad_def currentSignIn_def)
next
  case (load_answer g r b res)
  then show ?thesis using signedOut_endTask [OF o] by (simp add: loadAnswered_def Let_def)
next
  case (retry_answer g r cancelled answered clearOk)
  have "g \<noteq> generationOf s" using teacherInvD(3) [OF i retry_answer(2)] o by (auto simp: signedOut_def)
  then show ?thesis using retry_answer(1) signedOut_endTask [OF o] by (simp add: retryAnswer_def isCurrentTeacherWorkspaceGeneration_def)
next
  case (sign_in_answer g r url tok u saveOk)
  have "g \<noteq> generationOf s" using sign_in_answer(2) o by (auto simp: signedOut_def currentSignIn_def)
  then show ?thesis using sign_in_answer(1) signedOut_endTask [OF o] by (simp add: signInAnswer_def isCurrentTeacherWorkspaceGeneration_def)
next
  case (sign_in_saved g r tok u saved clearOk)
  have "g \<noteq> generationOf s" using sign_in_saved(2) o by (auto simp: signedOut_def currentSignIn_def)
  then have "s' = clearTeacher D clearOk (endTask (SignInSaving g r tok u saved) s)"
    using sign_in_saved(1) by (simp add: signInSaved_def isCurrentTeacherWorkspaceGeneration_def)
  then show ?thesis using signedOut_endTask [OF o] by simp
next
  case (connect_answer url label r base su clearOk)
  let ?s = "endTask (ConnCall url label r base) s"
  have r: "activeApi ?s = r" using teacherInvD(3) [OF i connect_answer(2)] by simp
  have "signedOut (dropSession D clearOk r ?s)" using signedOut_drop [OF inv_endTask [OF i], of clearOk "ConnCall url label r base"] unfolding r .
  moreover have "signedOut (finishConnection url label su (?s\<lparr>activeApi := r\<rparr>))"
  proof -
    have "?s\<lparr>activeApi := activeApi ?s\<rparr> = ?s" by simp
    then show ?thesis using signedOut_endTask [OF o, of "ConnCall url label r base"] unfolding r by simp
  qed
  ultimately show ?thesis using connect_answer(1) by (auto simp: connectAnswer_def Let_def currentSignIn_def)
next
  case (connect_cleared url label su)
  then show ?thesis using signedOut_openApi [OF signedOut_endTask [OF o]] by (simp add: connectCleared_def)
next
  case (connect nextUrl nextLabel)
  then show ?thesis using o by (auto simp: connect_def currentSignIn_def split: option.splits)
next
  case retry
  then show ?thesis using o by (simp add: retry_def teacherReconnectDelay_def signedOut_def)
next
  case sign_out
  then show ?thesis using o by (simp add: signedOut_def)
qed (use o signedOut_endTask in simp_all)

lemma signedOut_run:
  "goodDevice D \<Longrightarrow> teacherInv D s \<Longrightarrow> signedOut s \<Longrightarrow> (teacherStep D False False)\<^sup>*\<^sup>* s s' \<Longrightarrow> teacherInv D s' \<and> signedOut s'"
  by (rotate_tac 3, induction rule: rtranclp_induct) (use inv_step signedOut_step in blast)+

section \<open>Properties\<close>

text \<open>A saved token is used only with a host that passed the check of the address, and nobody is shown without one: when start-up
  ends with a token in its connection, that is the token of the saved session and the connection goes to what the check made
  of the address saved with it; otherwise nobody is signed in.\<close>

theorem teacher_startup_guards_token:
  "let s = teacherStartup D config A (initialTeacher (td_parse D) ss) in
   (case currentToken s of
      None \<Rightarrow> teacherUser s = None
    | Some tok \<Rightarrow> \<exists>x fb. fst (storedTeacher D (sta_clearOk A) fb ss) = Some x \<and> ts_token x = tok \<and>
        teacherHost D (ts_baseUrl x) = Some (teacherBaseUrl s) \<and> apis s ! activeApi s = newApi (teacherBaseUrl s) (Some tok))"
proof -
  obtain kept host s' where h: "startHost D config (sta_clearOk A) (resetWorkspace (initialTeacher (td_parse D) ss)) = (kept, host, s')"
    by (cases "startHost D config (sta_clearOk A) (resetWorkspace (initialTeacher (td_parse D) ss))") auto
  note k = startHost_kept [OF h]
  obtain c where c: "startConnection D config kept host s' = c" by blast
  have a: "apis c = [newApi TEACHER_DEV_HOST None, newApi host (map_option ts_token kept)]" "activeApi c = 1" "teacherUser c = None"
    "teacherBaseUrl c = host"
    using k(1-4) by (simp_all add: c [symmetric] startConnection_def openApi_def initialTeacher_def)
  have n: "token (newApi u t) = t" "(newApi u t)\<lparr>token := t'\<rparr> = newApi u t'" for u t t' by (simp_all add: newApi_def)
  have k': "fst (storedTeacher D (sta_clearOk A) (case host_url config of Some u \<Rightarrow> u | None \<Rightarrow> TEACHER_DEV_HOST) ss) = Some x \<and>
      teacherHost D (ts_baseUrl x) = Some host" if "kept = Some x" for x
    using k(5) [OF that] by (simp add: initialTeacher_def)
  have e: "case currentToken s of None \<Rightarrow> teacherUser s = None
      | Some tok \<Rightarrow> \<exists>x fb. fst (storedTeacher D (sta_clearOk A) fb ss) = Some x \<and> ts_token x = tok \<and>
          teacherHost D (ts_baseUrl x) = Some (teacherBaseUrl s) \<and> apis s ! activeApi s = newApi (teacherBaseUrl s) (Some tok)"
    if "kept = None \<and> currentToken s = None \<and> teacherUser s = None \<or> currentToken s = None \<and> teacherUser s = None \<or>
        (\<exists>x. kept = Some x \<and> apis s ! activeApi s = newApi host (Some (ts_token x)) \<and> teacherBaseUrl s = host)" for s
    using that
  proof (elim disjE exE conjE)
    fix x assume x: "kept = Some x" "apis s ! activeApi s = newApi host (Some (ts_token x))" "teacherBaseUrl s = host"
    then show ?thesis using k' [OF x(1)] by (simp add: currentToken_def n) blast
  qed simp_all
  show ?thesis
    unfolding Let_def teacherStartup_def h split c
    by (rule e) (auto simp: Let_def startSession_def saveTeacher_def currentToken_def a n dropSession_def clearTeacher_def setToken_def
        split: option.splits me_answer.splits prod.splits)
qed

text \<open>C3: While one change of host at a time is made and nobody signs in during it, whoever is signed in is signed in with the saved
  session: the token of the connection in use is the one that the next start of the app finds, and no earlier connection
  still holds a token. This is so after every sign-in, sign-out, retry, late answer and failed operation of the device's store.\<close>

theorem signed_in_with_saved_session:
  assumes "goodDevice D" "teacherReachable D False s" "teacherUser s = Some u"
  shows "currentToken s \<noteq> None \<and> currentToken s = savedToken D (teacherSaved s) \<and>
    list_all (\<lambda>r. r = activeApi s \<or> token (apis s ! r) = None) [0..<length (apis s)]"
  using inv_reachable [OF assms(1,2)] assms(3) by (auto simp: teacherInv_def sessionKept_def oneToken_def list_all_iff)


section \<open>A run\<close>

text \<open>An installed app at one host, with a second host at hand.\<close>

definition hostA :: jsstring where "hostA = js ''https://a.school''"
definition hostB :: jsstring where "hostB = js ''https://b.school''"

definition demoAccount :: json where
  "demoAccount = JObj [(js ''username'', JStr (js ''ada'')), (js ''role'', JStr (js ''teacher''))]"

definition demoTeacher :: teacher_device where
  "demoTeacher = \<lparr>td_tauri = True, td_loadOk = True, td_saveOk = True, td_validate = Some,
     td_newURL = (\<lambda>u. Some \<lparr>protocol = js ''https:'', hostname = u, url_username = [], url_password = [], pathname = js ''/'', origin = u\<rparr>),
     td_parse = (\<lambda>s. case s of c # tok \<Rightarrow> Inr (JObj [(js ''token'', JStr tok), (js ''user'', demoAccount)]) | [] \<Rightarrow> Inl []),
     td_stringify = (\<lambda>v. case field v ''token'' of Some (JStr tok) \<Rightarrow> 1 # tok | _ \<Rightarrow> [0])\<rparr>"

lemma demoTeacher_good: "goodDevice demoTeacher"
proof -
  have "field (sessionJson url tok u) ''token'' = Some (JStr tok)" for url tok u
    by (simp add: sessionJson_def js_def)
  moreover have "field (JObj [(js ''token'', JStr tok), (js ''user'', demoAccount)]) ''token'' = Some (JStr tok)" for tok
    by (simp add: js_def)
  ultimately show ?thesis by (simp add: goodDevice_def demoTeacher_def)
qed

definition demoAnswers :: startup_answers where
  "demoAnswers = \<lparr>sta_status = Some False, sta_me = MeUnreachable, sta_saveOk = True, sta_clearOk = True, sta_load = None\<rparr>"

definition demoStart :: teacher_state where
  "demoStart = teacherStartup demoTeacher \<lparr>host_url = Some hostA, device_label = None\<rparr> demoAnswers
     (initialTeacher (td_parse demoTeacher) \<lparr>native = None, web = []\<rparr>)"

definition signInCalled :: "jsstring \<Rightarrow> teacher_state \<Rightarrow> teacher_state" where
  "signInCalled tok s = signInAnswer demoTeacher (hd (teacherTasks (signIn s))) tok demoAccount True (signIn s)"

definition signedInAs :: "jsstring \<Rightarrow> teacher_state \<Rightarrow> teacher_state" where
  "signedInAs tok s = signInSaved demoTeacher (hd (teacherTasks (signInCalled tok s))) True (signInCalled tok s)"

lemma sign_in_run:
  assumes "teacherReachable demoTeacher overlap s" "teacherUser s = None" "noSignIn s" "overlap \<or> (\<forall>t \<in> set (teacherTasks s). \<not> connecting t)"
  shows "teacherReachable demoTeacher overlap (signedInAs tok s)"
proof -
  have a: "teacherReachable demoTeacher overlap (signIn s)"
    using assms by (auto intro!: teacherReachable.step [OF assms(1)] teacherStep.sign_in simp: noSignIn_def)
  then have "teacherReachable demoTeacher overlap (signInCalled tok s)"
    unfolding signInCalled_def
    by (intro teacherReachable.step [OF a]) (auto simp: signIn_def Let_def intro!: teacherStep.sign_in_answer)
  then show ?thesis unfolding signedInAs_def
    by (rule teacherReachable.step)
      (auto simp: signInCalled_def signInAnswer_def signIn_def saveTeacher_def isCurrentTeacherWorkspaceGeneration_def Let_def
        intro!: teacherStep.sign_in_saved split: prod.splits)
qed

lemma demoStart_reachable: "teacherReachable demoTeacher overlap demoStart"
  unfolding demoStart_def by (rule teacherReachable.start)

lemma demoStart_idle: "teacherTasks demoStart = [] \<and> teacherUser demoStart = None"
  by code_simp

lemma demo_signed_in: "teacherReachable demoTeacher overlap (signedInAs tok demoStart)"
  by (rule sign_in_run [OF demoStart_reachable]) (simp_all add: demoStart_idle noSignIn_def)

theorem signed_in_with_saved_session_witness:
  "currentToken (signedInAs (js ''t1'') demoStart) = Some (js ''t1'') \<and>
   savedToken demoTeacher (teacherSaved (signedInAs (js ''t1'') demoStart)) = Some (js ''t1'')"
proof -
  have e: "teacherUser (signedInAs (js ''t1'') demoStart) = Some demoAccount" "currentToken (signedInAs (js ''t1'') demoStart) = Some (js ''t1'')"
    by code_simp+
  show ?thesis using signed_in_with_saved_session [OF demoTeacher_good demo_signed_in e(1)] e(2) by simp
qed


definition hostChange :: "teacher_state \<Rightarrow> teacher_state" where
  "hostChange s = (let s = connect demoTeacher hostB [] s in connectAnswer demoTeacher (hd (teacherTasks s)) False True s)"


text \<open>After the teacher's workspace is reset (sign-out, change of account or of host), no load that was started before
  shows its data: whatever loads come back late, the workspace stays as the reset left it.\<close>

theorem late_loads_are_dropped:
  assumes "\<forall>t \<in> set loads. load_generation t \<le> generationOf s"
  shows "fold finishLoad loads (resetWorkspace s) = resetWorkspace s"
proof -
  have "generationOf (resetWorkspace s) = generationOf s + 1"
    by (simp add: resetWorkspace_def resetTeacherWorkspaceState_def)
  then have "\<forall>t \<in> set loads. load_generation t \<noteq> generationOf (resetWorkspace s)" using assms by auto
  from tw.stale_tasks_finish [OF this] show ?thesis by simp
qed

theorem late_loads_are_dropped_witness:
  "fold finishLoad [\<lparr>load_generation = 1, load_result = None\<rparr>] (demoStart\<lparr>ts_online := True\<rparr>) \<noteq> demoStart\<lparr>ts_online := True\<rparr> \<and>
   fold finishLoad [\<lparr>load_generation = 1, load_result = None\<rparr>] (resetWorkspace demoStart) = resetWorkspace demoStart"
proof -
  have g: "generationOf demoStart = 1" by code_simp
  then have "ts_online (fold finishLoad [\<lparr>load_generation = 1, load_result = None\<rparr>] (demoStart\<lparr>ts_online := True\<rparr>)) = False"
    by (simp add: finishLoad_def isCurrentTeacherWorkspaceGeneration_def)
  then show ?thesis
    using late_loads_are_dropped [of "[\<lparr>load_generation = 1, load_result = None\<rparr>]" demoStart] g by fastforce
qed

end
