(* ===== verification/Matchbox_Session.thy ===== *)
theory Matchbox_Session
  imports Session_Store Host_Transport
begin

text \<open>
  The student's sign-in gate (\<open>apps/forge/src/matchboxSession.tsx\<close>) as a state machine. The state
  holds what the component keeps, the saved session, the queue of session operations that are still
  to run, and the asynchronous functions in flight with what they captured. Each handler of the source is
  a function on this state; \<open>mb_step\<close> collects them, one rule per event: the start of a handler, the
  answer to a request, the end of a save, and the execution of the next queued operation.

  A save returns when its operation has run: the task holds the number of the operation. Whether the
  device accepts a save is part of the event; clearing succeeds. The component shows the login form
  only when nobody is signed in and not while a login of the current generation is in flight (the form is
  busy), and offers the password change, the switch of accounts and the refresh timer only when somebody
  is.
\<close>

section \<open>State\<close>

record stored_session =
  s_baseUrl :: jsstring
  s_token :: jsstring
  s_user :: user

datatype session_op = SaveOp stored_session bool | ClearOp

datatype task =
    RefreshCall nat jsstring jsstring user
  | RefreshSaving nat user nat
  | LoginCall nat jsstring jsstring
  | LoginSaving nat jsstring user jsstring bool nat
  | PasswordCall nat jsstring "jsstring option"
  | PasswordSaving nat user nat

record mb =
  generation :: nat
  mbUser :: "user option"
  mbToken :: "jsstring option"
  apiToken :: "jsstring option"
  mbBaseUrl :: jsstring
  mbOnline :: bool
  temporaryPassword :: jsstring
  knownAccounts :: "jsstring list"
  stored :: "stored_session option"
  opQueue :: "session_op list"
  issued :: nat
  executed :: nat
  tasks :: "task list"

fun taskGeneration :: "task \<Rightarrow> nat" where
  "taskGeneration (RefreshCall g _ _ _) = g"
| "taskGeneration (RefreshSaving g _ _) = g"
| "taskGeneration (LoginCall g _ _) = g"
| "taskGeneration (LoginSaving g _ _ _ _ _) = g"
| "taskGeneration (PasswordCall g _ _) = g"
| "taskGeneration (PasswordSaving g _ _) = g"

fun isRefresh :: "task \<Rightarrow> bool" where
  "isRefresh (RefreshCall _ _ _ _) = True"
| "isRefresh (RefreshSaving _ _ _) = True"
| "isRefresh _ = False"

fun isLogin :: "task \<Rightarrow> bool" where
  "isLogin (LoginCall _ _ _) = True"
| "isLogin (LoginSaving _ _ _ _ _ _) = True"
| "isLogin _ = False"

definition isCurrentMatchboxSessionGeneration :: "nat \<Rightarrow> nat \<Rightarrow> bool" where
  "isCurrentMatchboxSessionGeneration requestGeneration currentGeneration \<longleftrightarrow> requestGeneration = currentGeneration"

definition current :: "mb \<Rightarrow> task \<Rightarrow> bool" where
  "current s t \<longleftrightarrow> isCurrentMatchboxSessionGeneration (taskGeneration t) (generation s)"

section \<open>The queue\<close>

definition applyOp :: "session_op \<Rightarrow> stored_session option \<Rightarrow> stored_session option" where
  "applyOp op st = (case op of SaveOp v ok \<Rightarrow> if ok then Some v else st | ClearOp \<Rightarrow> None)"

definition enqueue :: "session_op \<Rightarrow> mb \<Rightarrow> mb" where
  "enqueue op s = s\<lparr>opQueue := opQueue s @ [op], issued := issued s + 1\<rparr>"

definition runOp :: "mb \<Rightarrow> mb" where
  "runOp s = (case opQueue s of
      [] \<Rightarrow> s
    | op # ops \<Rightarrow> s\<lparr>stored := applyOp op (stored s), opQueue := ops, executed := executed s + 1\<rparr>)"

definition spawn :: "task \<Rightarrow> mb \<Rightarrow> mb" where
  "spawn t s = s\<lparr>tasks := t # tasks s\<rparr>"

definition finished :: "task \<Rightarrow> mb \<Rightarrow> mb" where
  "finished t s = s\<lparr>tasks := remove1 t (tasks s)\<rparr>"

section \<open>Handlers\<close>

definition signOut :: "mb \<Rightarrow> mb" where
  "signOut s = enqueue ClearOp
     (s\<lparr>generation := generation s + 1, apiToken := None, mbToken := None, mbUser := None, temporaryPassword := []\<rparr>)"

definition refresh :: "mb \<Rightarrow> mb" where
  "refresh s =
     (if \<exists>t \<in> set (tasks s). isRefresh t \<and> taskGeneration t = generation s then s
      else case (mbUser s, mbToken s) of
          (Some u, Some tok) \<Rightarrow> spawn (RefreshCall (generation s) (mbBaseUrl s) tok u) s
        | _ \<Rightarrow> s)"

definition refreshAnswer :: "task \<Rightarrow> user \<Rightarrow> bool \<Rightarrow> mb \<Rightarrow> mb" where
  "refreshAnswer t fresh saveOk s = (case t of
      RefreshCall g url tok u \<Rightarrow>
        if \<not> current s t then finished t s
        else if fresh \<noteq> u then
          enqueue (SaveOp \<lparr>s_baseUrl = url, s_token = tok, s_user = fresh\<rparr> saveOk)
            (spawn (RefreshSaving g fresh (issued s + 1)) (finished t s))
        else (finished t s)\<lparr>mbOnline := True\<rparr>
    | _ \<Rightarrow> s)"

definition refreshFailure :: "task \<Rightarrow> bool \<Rightarrow> mb \<Rightarrow> mb" where
  "refreshFailure t isOffline s = (case t of
      RefreshCall g url tok u \<Rightarrow>
        if \<not> current s t then finished t s
        else if isOffline then (finished t s)\<lparr>mbOnline := False\<rparr>
        else signOut (finished t s)
    | _ \<Rightarrow> s)"

definition refreshSaved :: "task \<Rightarrow> mb \<Rightarrow> mb" where
  "refreshSaved t s = (case t of
      RefreshSaving g fresh n \<Rightarrow>
        if \<not> current s t then finished t s
        else (finished t s)\<lparr>mbUser := Some fresh, mbOnline := True\<rparr>
    | _ \<Rightarrow> s)"

definition login :: "jsstring \<Rightarrow> mb \<Rightarrow> mb" where
  "login password s =
     (let g = generation s + 1 in spawn (LoginCall g (mbBaseUrl s) password) (s\<lparr>generation := g\<rparr>))"

definition loginAnswer :: "task \<Rightarrow> jsstring \<Rightarrow> user \<Rightarrow> bool \<Rightarrow> mb \<Rightarrow> mb" where
  "loginAnswer t tok u saveOk s = (case t of
      LoginCall g url password \<Rightarrow>
        if \<not> current s t then finished t s
        else enqueue (SaveOp \<lparr>s_baseUrl = url, s_token = tok, s_user = u\<rparr> saveOk)
               (spawn (LoginSaving g tok u password saveOk (issued s + 1)) (finished t s))
    | _ \<Rightarrow> s)"

definition loginFailure :: "task \<Rightarrow> mb \<Rightarrow> mb" where
  "loginFailure t s = finished t s"

definition rememberAccount :: "jsstring \<Rightarrow> jsstring list \<Rightarrow> jsstring list" where
  "rememberAccount name accounts = take 12 (name # filter (\<lambda>n. n \<noteq> name) accounts)"

definition loginSaved :: "task \<Rightarrow> mb \<Rightarrow> mb" where
  "loginSaved t s = (case t of
      LoginSaving g tok u password saved n \<Rightarrow>
        if \<not> current s t then finished t s
        else if \<not> saved then finished t s
        else (finished t s)\<lparr>apiToken := Some tok, mbToken := Some tok, mbUser := Some u,
               temporaryPassword := (if must_change_password u then password else []), mbOnline := True,
               knownAccounts := rememberAccount (username u) (knownAccounts s)\<rparr>
    | _ \<Rightarrow> s)"

definition switchAccount :: "mb \<Rightarrow> mb" where
  "switchAccount s = signOut s"

definition saveConnection :: "jsstring \<Rightarrow> mb \<Rightarrow> mb" where
  "saveConnection url s =
     (if url = mbBaseUrl s then s\<lparr>mbOnline := True\<rparr>
      else (signOut s)\<lparr>mbBaseUrl := url, mbOnline := True\<rparr>)"

definition changePassword :: "mb \<Rightarrow> mb" where
  "changePassword s = spawn (PasswordCall (generation s) (mbBaseUrl s) (mbToken s)) s"

definition passwordAnswer :: "task \<Rightarrow> user \<Rightarrow> bool \<Rightarrow> mb \<Rightarrow> mb" where
  "passwordAnswer t updated saveOk s = (case t of
      PasswordCall g url activeToken \<Rightarrow>
        if \<not> current s t then finished t s
        else (case activeToken of
            Some tok \<Rightarrow> enqueue (SaveOp \<lparr>s_baseUrl = url, s_token = tok, s_user = updated\<rparr> saveOk)
                          (spawn (PasswordSaving g updated (issued s + 1)) (finished t s))
          | None \<Rightarrow> (finished t s)\<lparr>mbUser := Some updated, temporaryPassword := []\<rparr>)
    | _ \<Rightarrow> s)"

definition passwordSaved :: "task \<Rightarrow> mb \<Rightarrow> mb" where
  "passwordSaved t s = (case t of
      PasswordSaving g updated n \<Rightarrow>
        if \<not> current s t then finished t s
        else (finished t s)\<lparr>mbUser := Some updated, temporaryPassword := []\<rparr>
    | _ \<Rightarrow> s)"

section \<open>Steps\<close>

inductive mb_step :: "mb \<Rightarrow> mb \<Rightarrow> bool" where
  run_op: "mb_step s (runOp s)"
| refresh: "mb_step s (refresh s)"
| refresh_answer: "RefreshCall g url tok u \<in> set (tasks s) \<Longrightarrow> mb_step s (refreshAnswer (RefreshCall g url tok u) fresh saveOk s)"
| refresh_failure: "RefreshCall g url tok u \<in> set (tasks s) \<Longrightarrow> mb_step s (refreshFailure (RefreshCall g url tok u) isOffline s)"
| refresh_saved: "RefreshSaving g fresh n \<in> set (tasks s) \<Longrightarrow> n \<le> executed s \<Longrightarrow> mb_step s (refreshSaved (RefreshSaving g fresh n) s)"
| login: "mbUser s = None \<Longrightarrow> \<forall>t \<in> set (tasks s). isLogin t \<longrightarrow> taskGeneration t \<noteq> generation s \<Longrightarrow> mb_step s (login password s)"
| login_answer: "LoginCall g url password \<in> set (tasks s) \<Longrightarrow> mb_step s (loginAnswer (LoginCall g url password) tok u saveOk s)"
| login_failure: "LoginCall g url password \<in> set (tasks s) \<Longrightarrow> mb_step s (loginFailure (LoginCall g url password) s)"
| login_saved: "LoginSaving g tok u password saved n \<in> set (tasks s) \<Longrightarrow> n \<le> executed s \<Longrightarrow>
    mb_step s (loginSaved (LoginSaving g tok u password saved n) s)"
| switch_account: "mbUser s \<noteq> None \<Longrightarrow> mb_step s (switchAccount s)"
| save_connection: "mb_step s (saveConnection url s)"
| change_password: "mbUser s \<noteq> None \<Longrightarrow> mb_step s (changePassword s)"
| password_answer: "PasswordCall g url tk \<in> set (tasks s) \<Longrightarrow> mb_step s (passwordAnswer (PasswordCall g url tk) updated saveOk s)"
| password_failure: "PasswordCall g url tk \<in> set (tasks s) \<Longrightarrow> mb_step s (finished (PasswordCall g url tk) s)"
| password_saved: "PasswordSaving g updated n \<in> set (tasks s) \<Longrightarrow> n \<le> executed s \<Longrightarrow> mb_step s (passwordSaved (PasswordSaving g updated n) s)"

text \<open>The state after start-up: signed out with nothing saved, or with the saved session of an account.\<close>

definition initial :: "jsstring \<Rightarrow> stored_session option \<Rightarrow> jsstring list \<Rightarrow> mb" where
  "initial url st accounts =
     \<lparr>generation = 0, mbUser = map_option s_user st, mbToken = map_option s_token st, apiToken = map_option s_token st,
      mbBaseUrl = (case st of Some v \<Rightarrow> s_baseUrl v | None \<Rightarrow> url), mbOnline = False, temporaryPassword = [],
      knownAccounts = accounts, stored = st, opQueue = [], issued = 0, executed = 0, tasks = []\<rparr>"

inductive mb_reachable :: "mb \<Rightarrow> bool" where
  start: "distinct accounts \<Longrightarrow> length accounts \<le> 12 \<Longrightarrow> mb_reachable (initial url st accounts)"
| step: "mb_reachable s \<Longrightarrow> mb_step s s' \<Longrightarrow> mb_reachable s'"

inductive_cases mb_stepE: "mb_step s s'"

section \<open>The invariant\<close>

text \<open>What the saved session will be when every queued operation has run.\<close>

definition drained :: "mb \<Rightarrow> stored_session option" where
  "drained s = foldl (\<lambda>st op. applyOp op st) (stored s) (opQueue s)"

fun okTask :: "mb \<Rightarrow> task \<Rightarrow> bool" where
  "okTask s (RefreshCall g url tok u) = (g = generation s \<longrightarrow> url = mbBaseUrl s \<and> mbToken s = Some tok)"
| "okTask s (RefreshSaving g u n) = (g = generation s \<longrightarrow> mbUser s \<noteq> None)"
| "okTask s (LoginCall g url password) = (g = generation s \<longrightarrow> url = mbBaseUrl s \<and> mbUser s = None)"
| "okTask s (LoginSaving g tok u password saved n) =
     (g = generation s \<longrightarrow> mbUser s = None \<and> (saved \<longrightarrow> drained s = Some \<lparr>s_baseUrl = mbBaseUrl s, s_token = tok, s_user = u\<rparr>) \<and>
        (\<not> saved \<longrightarrow> drained s = None))"
| "okTask s (PasswordCall g url tk) = (g = generation s \<longrightarrow> url = mbBaseUrl s \<and> tk = mbToken s \<and> mbUser s \<noteq> None)"
| "okTask s (PasswordSaving g u n) = (g = generation s \<longrightarrow> mbUser s \<noteq> None)"

definition pendingLogin :: "mb \<Rightarrow> bool" where
  "pendingLogin s \<longleftrightarrow> (\<exists>t \<in> set (tasks s). isLogin t \<and> taskGeneration t = generation s)"

definition savingLogin :: "mb \<Rightarrow> task \<Rightarrow> bool" where
  "savingLogin s t \<longleftrightarrow> (case t of LoginSaving g tok u password saved n \<Rightarrow> g = generation s | _ \<Rightarrow> False)"

definition singleLogin :: "mb \<Rightarrow> bool" where
  "singleLogin s \<longleftrightarrow> length (filter (\<lambda>t. isLogin t \<and> taskGeneration t = generation s) (tasks s)) \<le> 1"

definition mbInv :: "mb \<Rightarrow> bool" where
  "mbInv s \<longleftrightarrow>
     (mbUser s = None \<longleftrightarrow> mbToken s = None) \<and> apiToken s = mbToken s \<and>
     (\<forall>tok. mbToken s = Some tok \<longrightarrow> (\<exists>u. drained s = Some \<lparr>s_baseUrl = mbBaseUrl s, s_token = tok, s_user = u\<rparr>)) \<and>
     (mbUser s = None \<longrightarrow> drained s = None \<or> (\<exists>t \<in> set (tasks s). savingLogin s t)) \<and>
     (\<forall>t \<in> set (tasks s). okTask s t \<and> taskGeneration t \<le> generation s) \<and> singleLogin s \<and>
     distinct (knownAccounts s) \<and> length (knownAccounts s) \<le> 12"

section \<open>Preservation\<close>

lemmas handler_defs = enqueue_def spawn_def finished_def

lemma drained_enqueue [simp]: "drained (enqueue op s) = applyOp op (drained s)"
  by (simp add: drained_def enqueue_def)

lemma drained_cong: "stored s' = stored s \<Longrightarrow> opQueue s' = opQueue s \<Longrightarrow> drained s' = drained s"
  by (simp add: drained_def)

lemma drained_runOp: "drained (runOp s) = drained s"
  by (simp add: drained_def runOp_def split: list.splits)

lemma drained_simps [simp]:
  "drained (spawn t s) = drained s" "drained (finished t s) = drained s"
  "drained (s\<lparr>generation := g\<rparr>) = drained s" "drained (s\<lparr>mbUser := u\<rparr>) = drained s" "drained (s\<lparr>mbToken := k\<rparr>) = drained s"
  "drained (s\<lparr>apiToken := k\<rparr>) = drained s" "drained (s\<lparr>mbBaseUrl := b\<rparr>) = drained s" "drained (s\<lparr>mbOnline := x\<rparr>) = drained s"
  "drained (s\<lparr>temporaryPassword := p\<rparr>) = drained s" "drained (s\<lparr>knownAccounts := a\<rparr>) = drained s"
  by (simp_all add: drained_def spawn_def finished_def)

lemma okTask_cong:
  assumes "generation s' = generation s" "mbUser s' = mbUser s" "mbToken s' = mbToken s" "mbBaseUrl s' = mbBaseUrl s" "drained s' = drained s"
  shows "okTask s' t = okTask s t"
  using assms by (cases t) simp_all

lemma okTask_stale: "taskGeneration t \<noteq> generation s \<Longrightarrow> okTask s t"
  by (cases t) simp_all

text \<open>The same session with fewer tasks: the invariant stays as long as a removed login left nothing behind.\<close>

lemma mbInv_fewer:
  assumes "mbInv s" and "set (tasks s') \<subseteq> set (tasks s)"
    and "generation s' = generation s" "mbUser s' = mbUser s" "mbToken s' = mbToken s" "mbBaseUrl s' = mbBaseUrl s" "drained s' = drained s"
      "apiToken s' = apiToken s" "knownAccounts s' = knownAccounts s"
    and "singleLogin s'"
    and "mbUser s = None \<Longrightarrow> drained s = None \<or> (\<exists>t \<in> set (tasks s'). savingLogin s t)"
  shows "mbInv s'"
proof -
  have sv: "savingLogin s' = savingLogin s" using assms(3) by (simp add: savingLogin_def fun_eq_iff split: task.splits)
  have ok: "okTask s' = okTask s" using okTask_cong [OF assms(3-7)] by (rule ext)
  show ?thesis unfolding mbInv_def assms(3-9) sv ok
    using assms(1) [unfolded mbInv_def] assms(2,10,11) by blast
qed

lemma mbInv_single: "mbInv s \<Longrightarrow> singleLogin s"
  unfolding mbInv_def by blast

lemma mbInv_signed_out: "mbInv s \<Longrightarrow> mbUser s = None \<Longrightarrow> drained s = None \<or> (\<exists>t \<in> set (tasks s). savingLogin s t)"
  unfolding mbInv_def by blast

lemma mbInv_task: "mbInv s \<Longrightarrow> t \<in> set (tasks s) \<Longrightarrow> okTask s t \<and> taskGeneration t \<le> generation s"
  unfolding mbInv_def by blast

lemma mbInv_no_token: "mbInv s \<Longrightarrow> mbUser s = None \<Longrightarrow> mbToken s = None \<and> apiToken s = None"
  unfolding mbInv_def by metis

lemma tasks_finished: "tasks (finished t s) = remove1 t (tasks s)"
  by (simp add: finished_def)

lemma finished_simps [simp]:
  "generation (finished t s) = generation s" "mbUser (finished t s) = mbUser s" "mbToken (finished t s) = mbToken s"
  "mbBaseUrl (finished t s) = mbBaseUrl s" "apiToken (finished t s) = apiToken s" "knownAccounts (finished t s) = knownAccounts s"
  "issued (finished t s) = issued s"
  by (simp_all add: finished_def)

lemma singleLogin_fewer: "singleLogin s \<Longrightarrow> tasks s' = remove1 t (tasks s) \<Longrightarrow> generation s' = generation s \<Longrightarrow> singleLogin s'"
proof -
  assume "singleLogin s" "tasks s' = remove1 t (tasks s)" "generation s' = generation s"
  then show ?thesis
    by (simp add: singleLogin_def filter_remove1) (metis diff_le_self le_trans length_remove1)
qed

text \<open>Finishing a task that is stale, or that is no current login, changes nothing else.\<close>

lemma mbInv_finished:
  assumes "mbInv s" and "\<not> savingLogin s t \<or> drained s = None"
  shows "mbInv (finished t s)"
proof -
  have single: "singleLogin (finished t s)"
    by (rule singleLogin_fewer [OF mbInv_single [OF assms(1)] tasks_finished]) simp
  have out: "drained s = None \<or> (\<exists>t' \<in> set (tasks (finished t s)). savingLogin s t')" if u: "mbUser s = None"
  proof (cases "drained s = None")
    case False
    with mbInv_signed_out [OF assms(1) u] have "\<exists>t' \<in> set (tasks s). savingLogin s t'" by (elim disjE) (erule notE, assumption)
    then obtain t' where t': "t' \<in> set (tasks s)" "savingLogin s t'" by (elim bexE)
    then have "t' \<noteq> t" using assms(2) False by blast
    then have "t' \<in> set (tasks (finished t s))" using t'(1) unfolding tasks_finished by simp
    then show ?thesis using t'(2) by blast
  qed simp
  have "set (tasks (finished t s)) \<subseteq> set (tasks s)" unfolding tasks_finished by (rule set_remove1_subset)
  from mbInv_fewer [OF assms(1) this _ _ _ _ _ _ _ single out] show ?thesis by simp
qed

text \<open>An operation that raises the generation: every task in flight is stale.\<close>

lemma mbInv_new_generation:
  assumes "mbInv s" and "generation s' = generation s + 1" and "tasks s' = tasks s"
    and "mbUser s' = None" "mbToken s' = None" "apiToken s' = None" "drained s' = None" "knownAccounts s' = knownAccounts s"
  shows "mbInv s'"
proof -
  have g: "taskGeneration t \<noteq> generation s'" "taskGeneration t \<le> generation s'" if "t \<in> set (tasks s)" for t
    using assms(1,2) that unfolding mbInv_def by force+
  have "filter (\<lambda>t. isLogin t \<and> taskGeneration t = generation s') (tasks s) = []" using g(1) by (auto simp: filter_empty_conv)
  then have "singleLogin s'" using assms(3) by (simp add: singleLogin_def)
  then show ?thesis using assms g okTask_stale unfolding mbInv_def by auto
qed

lemma mbInv_signOut: "mbInv s \<Longrightarrow> mbInv (signOut s)"
  by (rule mbInv_new_generation [of s]) (simp_all add: signOut_def enqueue_def drained_def applyOp_def)

lemma mbInv_signOut_url: "mbInv s \<Longrightarrow> mbInv ((signOut s)\<lparr>mbBaseUrl := url, mbOnline := True\<rparr>)"
  by (rule mbInv_new_generation [of s]) (simp_all add: signOut_def enqueue_def drained_def applyOp_def)

lemma mbInv_same:
  assumes "mbInv s" "tasks s' = tasks s" "generation s' = generation s" "mbUser s' = mbUser s" "mbToken s' = mbToken s"
    "mbBaseUrl s' = mbBaseUrl s" "drained s' = drained s" "apiToken s' = apiToken s" "knownAccounts s' = knownAccounts s"
  shows "mbInv s'"
  using assms by (intro mbInv_fewer [OF assms(1)]) (simp_all add: mbInv_def singleLogin_def)

lemma mbInv_signed_in:
  assumes "mbInv s" "mbUser s \<noteq> None"
  shows "\<exists>tok u. mbToken s = Some tok \<and> drained s = Some \<lparr>s_baseUrl = mbBaseUrl s, s_token = tok, s_user = u\<rparr>"
    and "\<forall>t \<in> set (tasks s). isLogin t \<longrightarrow> taskGeneration t \<noteq> generation s"
proof -
  show "\<exists>tok u. mbToken s = Some tok \<and> drained s = Some \<lparr>s_baseUrl = mbBaseUrl s, s_token = tok, s_user = u\<rparr>"
    using assms unfolding mbInv_def by auto
  have "taskGeneration t \<noteq> generation s" if "okTask s t" "isLogin t" for t using that assms(2) by (cases t) auto
  then show "\<forall>t \<in> set (tasks s). isLogin t \<longrightarrow> taskGeneration t \<noteq> generation s" using assms(1) unfolding mbInv_def by blast
qed

text \<open>While somebody is signed in, a new task of no login and a save for the same account keep the invariant.\<close>

lemma mbInv_signed_in_step:
  assumes inv: "mbInv s" and user: "mbUser s \<noteq> None" and "mbUser s' \<noteq> None"
    and "tasks s' = tasks s \<or> (\<exists>t. tasks s' = t # tasks s \<and> \<not> isLogin t \<and> okTask s' t \<and> taskGeneration t \<le> generation s)"
    and "generation s' = generation s" "mbToken s' = mbToken s" "mbBaseUrl s' = mbBaseUrl s"
      "apiToken s' = apiToken s" "knownAccounts s' = knownAccounts s"
    and "drained s' = drained s \<or> (\<exists>tok u. mbToken s = Some tok \<and> drained s' = Some \<lparr>s_baseUrl = mbBaseUrl s, s_token = tok, s_user = u\<rparr>)"
  shows "mbInv s'"
proof -
  have "okTask s' t" if "t \<in> set (tasks s)" for t
  proof -
    have "okTask s t" "isLogin t \<longrightarrow> taskGeneration t \<noteq> generation s"
      using inv that mbInv_signed_in(2) [OF inv user] unfolding mbInv_def by blast+
    then show ?thesis using assms(3,5-7) user by (cases t) auto
  qed
  moreover have "singleLogin s'" using inv assms(4,5) unfolding mbInv_def singleLogin_def by auto
  ultimately show ?thesis using inv assms(3-10) user unfolding mbInv_def by auto
qed

lemma mbInv_refresh: "mbInv s \<Longrightarrow> mbInv (refresh s)"
proof (cases "mbUser s")
  case (Some u)
  assume inv: "mbInv s"
  from Some have user: "mbUser s \<noteq> None" by simp
  obtain tok where tok: "mbToken s = Some tok" using mbInv_signed_in(1) [OF inv user] by blast
  show ?thesis
  proof (cases "\<exists>t \<in> set (tasks s). isRefresh t \<and> taskGeneration t = generation s")
    case True
    then show ?thesis using inv by (simp add: refresh_def)
  next
    case False
    let ?t = "RefreshCall (generation s) (mbBaseUrl s) tok u"
    have "mbInv (spawn ?t s)"
      by (rule mbInv_signed_in_step [OF inv user]) (use user tok in \<open>simp_all add: spawn_def drained_def\<close>)
    then show ?thesis unfolding refresh_def if_not_P [OF False] using Some tok by simp
  qed
qed (auto simp: refresh_def)

lemma mbInv_save:
  assumes inv: "mbInv s" and user: "mbUser s \<noteq> None" and tok: "mbToken s = Some tok"
    and t: "\<not> isLogin t" "taskGeneration t = generation s" "okTask s t" "\<And>g url k u. t \<noteq> RefreshCall g url k u"
  shows "mbInv (enqueue (SaveOp \<lparr>s_baseUrl = mbBaseUrl s, s_token = tok, s_user = v\<rparr> ok) (spawn t s))"
proof (rule mbInv_signed_in_step [OF inv user])
  let ?s = "enqueue (SaveOp \<lparr>s_baseUrl = mbBaseUrl s, s_token = tok, s_user = v\<rparr> ok) (spawn t s)"
  have "okTask ?s t" using t user by (cases t) (simp_all add: enqueue_def spawn_def)
  then show "tasks ?s = tasks s \<or> (\<exists>t. tasks ?s = t # tasks s \<and> \<not> isLogin t \<and> okTask ?s t \<and> taskGeneration t \<le> generation s)"
    using t(1,2) by (simp add: enqueue_def spawn_def)
  show "drained ?s = drained s \<or> (\<exists>tok u. mbToken s = Some tok \<and> drained ?s = Some \<lparr>s_baseUrl = mbBaseUrl s, s_token = tok, s_user = u\<rparr>)"
    using tok by (simp add: applyOp_def)
qed (use user in \<open>simp_all add: enqueue_def spawn_def\<close>)

lemma mbInv_refreshAnswer:
  assumes inv: "mbInv s" and t: "RefreshCall g url tok u \<in> set (tasks s)"
  shows "mbInv (refreshAnswer (RefreshCall g url tok u) fresh ok s)"
proof -
  let ?t = "RefreshCall g url tok u"
  have f: "mbInv (finished ?t s)" by (rule mbInv_finished [OF inv]) (simp add: savingLogin_def)
  show ?thesis
  proof (cases "g = generation s \<and> fresh \<noteq> u")
    case True
    then have k: "url = mbBaseUrl s" "mbToken s = Some tok" using mbInv_task [OF inv t] by simp_all
    then have user: "mbUser s \<noteq> None" using mbInv_no_token [OF inv] by fastforce
    have "mbInv (enqueue (SaveOp \<lparr>s_baseUrl = mbBaseUrl (finished ?t s), s_token = tok, s_user = fresh\<rparr> ok)
        (spawn (RefreshSaving g fresh (issued s + 1)) (finished ?t s)))"
      by (rule mbInv_save [OF f]) (use user k True in simp_all)
    then show ?thesis using True k by (simp add: refreshAnswer_def current_def isCurrentMatchboxSessionGeneration_def)
  next
    case False
    have "mbInv ((finished ?t s)\<lparr>mbOnline := True\<rparr>)" by (rule mbInv_same [OF f]) simp_all
    then show ?thesis using f False by (auto simp: refreshAnswer_def current_def isCurrentMatchboxSessionGeneration_def)
  qed
qed

lemma mbInv_refreshFailure:
  assumes inv: "mbInv s"
  shows "mbInv (refreshFailure (RefreshCall g url tok u) off s)"
proof -
  let ?t = "RefreshCall g url tok u"
  have f: "mbInv (finished ?t s)" by (rule mbInv_finished [OF inv]) (simp add: savingLogin_def)
  have "mbInv ((finished ?t s)\<lparr>mbOnline := False\<rparr>)" by (rule mbInv_same [OF f]) simp_all
  then show ?thesis using f mbInv_signOut [OF f] by (simp add: refreshFailure_def)
qed

lemma mbInv_setUser:
  assumes inv: "mbInv s" and "mbUser s \<noteq> None" and "mbUser s' \<noteq> None"
    and "tasks s' = tasks s" "generation s' = generation s" "mbToken s' = mbToken s" "mbBaseUrl s' = mbBaseUrl s"
      "apiToken s' = apiToken s" "knownAccounts s' = knownAccounts s" "drained s' = drained s"
  shows "mbInv s'"
  by (rule mbInv_signed_in_step [OF inv assms(2,3)]) (use assms in simp_all)

lemma mbInv_refreshSaved:
  assumes inv: "mbInv s" and t: "RefreshSaving g fresh n \<in> set (tasks s)"
  shows "mbInv (refreshSaved (RefreshSaving g fresh n) s)"
proof -
  let ?t = "RefreshSaving g fresh n"
  have f: "mbInv (finished ?t s)" by (rule mbInv_finished [OF inv]) (simp add: savingLogin_def)
  have "mbInv ((finished ?t s)\<lparr>mbUser := Some fresh, mbOnline := True\<rparr>)" if "g = generation s"
  proof -
    have "mbUser (finished ?t s) \<noteq> None" using mbInv_task [OF inv t] that by simp
    then show ?thesis by (rule mbInv_setUser [OF f]) simp_all
  qed
  then show ?thesis using f by (simp add: refreshSaved_def current_def isCurrentMatchboxSessionGeneration_def)
qed

lemma mbInv_passwordSaved:
  assumes inv: "mbInv s" and t: "PasswordSaving g updated n \<in> set (tasks s)"
  shows "mbInv (passwordSaved (PasswordSaving g updated n) s)"
proof -
  let ?t = "PasswordSaving g updated n"
  have f: "mbInv (finished ?t s)" by (rule mbInv_finished [OF inv]) (simp add: savingLogin_def)
  have "mbInv ((finished ?t s)\<lparr>mbUser := Some updated, temporaryPassword := []\<rparr>)" if "g = generation s"
  proof -
    have "mbUser (finished ?t s) \<noteq> None" using mbInv_task [OF inv t] that by simp
    then show ?thesis by (rule mbInv_setUser [OF f]) simp_all
  qed
  then show ?thesis using f by (simp add: passwordSaved_def current_def isCurrentMatchboxSessionGeneration_def)
qed

lemma mbInv_passwordAnswer:
  assumes inv: "mbInv s" and t: "PasswordCall g url tk \<in> set (tasks s)"
  shows "mbInv (passwordAnswer (PasswordCall g url tk) updated ok s)"
proof -
  let ?t = "PasswordCall g url tk"
  have f: "mbInv (finished ?t s)" by (rule mbInv_finished [OF inv]) (simp add: savingLogin_def)
  show ?thesis
  proof (cases "g = generation s")
    case True
    then have k: "url = mbBaseUrl s" "tk = mbToken s" "mbUser s \<noteq> None" using mbInv_task [OF inv t] by simp_all
    obtain tok where tok: "mbToken s = Some tok" using mbInv_signed_in(1) [OF inv k(3)] by blast
    have "mbInv (enqueue (SaveOp \<lparr>s_baseUrl = mbBaseUrl (finished ?t s), s_token = tok, s_user = updated\<rparr> ok)
        (spawn (PasswordSaving g updated (issued s + 1)) (finished ?t s)))"
      by (rule mbInv_save [OF f]) (use k tok True in simp_all)
    then show ?thesis using True k tok by (simp add: passwordAnswer_def current_def isCurrentMatchboxSessionGeneration_def)
  next
    case False
    then show ?thesis using f by (simp add: passwordAnswer_def current_def isCurrentMatchboxSessionGeneration_def)
  qed
qed

lemma mbInv_changePassword: "mbInv s \<Longrightarrow> mbUser s \<noteq> None \<Longrightarrow> mbInv (changePassword s)"
  by (rule mbInv_signed_in_step [of s]) (simp_all add: changePassword_def spawn_def drained_def)

section \<open>Login\<close>

lemma mbInv_login:
  assumes inv: "mbInv s" and user: "mbUser s = None" and idle: "\<forall>t \<in> set (tasks s). isLogin t \<longrightarrow> taskGeneration t \<noteq> generation s"
  shows "mbInv (login password s)"
proof -
  let ?g = "generation s + 1"
  have "\<not> savingLogin s t" if "t \<in> set (tasks s)" for t
    using idle that by (cases t) (auto simp: savingLogin_def)
  then have d: "drained s = None" using mbInv_signed_out [OF inv user] by blast
  have n: "mbToken s = None" "apiToken s = None" using mbInv_no_token [OF inv user] by simp_all
  have i: "mbInv (s\<lparr>generation := ?g\<rparr>)" by (rule mbInv_new_generation [OF inv]) (use d n user in simp_all)
  let ?t = "LoginCall ?g (mbBaseUrl s) password" and ?s = "login password s"
  have s: "?s = spawn ?t (s\<lparr>generation := ?g\<rparr>)" by (simp add: login_def Let_def)
  have old: "okTask ?s t \<and> taskGeneration t < ?g" if "t \<in> set (tasks s)" for t
    using mbInv_task [OF inv that] by (auto simp: s spawn_def intro: okTask_stale)
  have "filter (\<lambda>t. isLogin t \<and> taskGeneration t = ?g) (tasks s) = []" using old by (fastforce simp: filter_empty_conv)
  then have "singleLogin ?s" by (simp add: s spawn_def singleLogin_def)
  moreover have "okTask ?s ?t" by (simp add: s spawn_def user)
  moreover have "drained ?s = None" using d by (simp add: s)
  ultimately show ?thesis using i old n user unfolding mbInv_def by (auto simp: s spawn_def)
qed

lemma savingLogin_current: "savingLogin s t \<Longrightarrow> isLogin t \<and> taskGeneration t = generation s"
  by (cases t) (simp_all add: savingLogin_def)

lemma singleLogin_only:
  assumes "singleLogin s" "t \<in> set (tasks s)" "isLogin t" "taskGeneration t = generation s"
  shows "\<forall>t' \<in> set (remove1 t (tasks s)). isLogin t' \<longrightarrow> taskGeneration t' \<noteq> generation s"
proof -
  let ?P = "\<lambda>t. isLogin t \<and> taskGeneration t = generation s"
  have "t \<in> set (filter ?P (tasks s))" using assms by simp
  then have "length (remove1 t (filter ?P (tasks s))) < length (filter ?P (tasks s))"
    by (simp only: length_remove1 if_True) (use length_pos_if_in_set in fastforce)
  then have "length (filter ?P (remove1 t (tasks s))) < length (filter ?P (tasks s))" by (simp only: filter_remove1)
  then have "length (filter ?P (remove1 t (tasks s))) = 0" using assms(1) unfolding singleLogin_def by linarith
  then have "filter ?P (remove1 t (tasks s)) = []" by (simp only: length_0_conv)
  then show ?thesis by (auto simp: filter_empty_conv)
qed

lemma mbInv_loginAnswer:
  assumes inv: "mbInv s" and t: "LoginCall g url password \<in> set (tasks s)"
  shows "mbInv (loginAnswer (LoginCall g url password) tok u ok s)"
proof (cases "g = generation s")
  case False
  have "mbInv (finished (LoginCall g url password) s)" by (rule mbInv_finished [OF inv]) (simp add: savingLogin_def)
  then show ?thesis using False by (simp add: loginAnswer_def current_def isCurrentMatchboxSessionGeneration_def)
next
  case True
  let ?t = "LoginCall g url password" and ?n = "LoginSaving g tok u password ok (issued s + 1)"
  have k: "url = mbBaseUrl s" "mbUser s = None" using mbInv_task [OF inv t] True by simp_all
  have only: "\<forall>t' \<in> set (remove1 ?t (tasks s)). isLogin t' \<longrightarrow> taskGeneration t' \<noteq> generation s"
    by (rule singleLogin_only [OF mbInv_single [OF inv] t]) (simp_all add: True)
  have "\<not> savingLogin s t'" if "t' \<in> set (tasks s)" for t'
  proof (cases "t' = ?t")
    case False
    then have "t' \<in> set (remove1 ?t (tasks s))" using that by simp
    then show ?thesis using only savingLogin_current by blast
  qed (simp add: savingLogin_def)
  then have d: "drained s = None" using mbInv_signed_out [OF inv k(2)] by blast
  define s' where "s' = enqueue (SaveOp \<lparr>s_baseUrl = url, s_token = tok, s_user = u\<rparr> ok) (spawn ?n (finished ?t s))"
  have e: "loginAnswer ?t tok u ok s = s'"
    using True by (simp add: loginAnswer_def current_def isCurrentMatchboxSessionGeneration_def s'_def)
  have p: "generation s' = generation s" "mbUser s' = None" "mbToken s' = None" "apiToken s' = None" "mbBaseUrl s' = mbBaseUrl s"
      "knownAccounts s' = knownAccounts s" "tasks s' = ?n # remove1 ?t (tasks s)"
    using mbInv_no_token [OF inv k(2)] k(2) by (simp_all add: s'_def enqueue_def spawn_def finished_def)
  have dr: "drained s' = (if ok then Some \<lparr>s_baseUrl = mbBaseUrl s, s_token = tok, s_user = u\<rparr> else None)"
    using d k(1) by (simp add: s'_def applyOp_def)
  have old: "okTask s' t' \<and> taskGeneration t' \<le> generation s" if "t' \<in> set (remove1 ?t (tasks s))" for t'
  proof -
    have "t' \<in> set (tasks s)" using that set_remove1_subset by fastforce
    then have "okTask s t'" "taskGeneration t' \<le> generation s" using mbInv_task [OF inv] by blast+
    moreover have "isLogin t' \<longrightarrow> taskGeneration t' \<noteq> generation s" using only that by blast
    ultimately show ?thesis using p mbInv_no_token [OF inv k(2)] k(2) by (cases t') auto
  qed
  have "filter (\<lambda>t. isLogin t \<and> taskGeneration t = generation s) (remove1 ?t (tasks s)) = []"
    using only by (auto simp: filter_empty_conv)
  then have "singleLogin s'" unfolding singleLogin_def p by (simp only: filter.simps list.size split: if_split) simp
  moreover have "okTask s' ?n" using dr p by simp
  moreover have "savingLogin s' ?n" using p True by (simp add: savingLogin_def)
  moreover have "distinct (knownAccounts s) \<and> length (knownAccounts s) \<le> 12" using inv unfolding mbInv_def by blast
  ultimately show ?thesis using old True unfolding e mbInv_def p by auto
qed

lemma rememberAccount_ok: "distinct xs \<Longrightarrow> distinct (rememberAccount n xs) \<and> length (rememberAccount n xs) \<le> 12"
  by (auto simp: rememberAccount_def dest: in_set_takeD)

lemma mbInv_loginSaved:
  assumes inv: "mbInv s" and t: "LoginSaving g tok u password saved n \<in> set (tasks s)"
  shows "mbInv (loginSaved (LoginSaving g tok u password saved n) s)"
proof (cases "g = generation s \<and> saved")
  case False
  let ?t = "LoginSaving g tok u password saved n"
  have "\<not> savingLogin s ?t \<or> drained s = None" using mbInv_task [OF inv t] False by (auto simp: savingLogin_def)
  then have "mbInv (finished ?t s)" by (rule mbInv_finished [OF inv])
  then show ?thesis using False by (auto simp: loginSaved_def current_def isCurrentMatchboxSessionGeneration_def)
next
  case True
  let ?t = "LoginSaving g tok u password saved n"
  define s' where "s' = loginSaved ?t s"
  have k: "mbUser s = None" "drained s = Some \<lparr>s_baseUrl = mbBaseUrl s, s_token = tok, s_user = u\<rparr>"
    using mbInv_task [OF inv t] True by simp_all
  have p: "generation s' = generation s" "mbUser s' = Some u" "mbToken s' = Some tok" "apiToken s' = Some tok" "mbBaseUrl s' = mbBaseUrl s"
      "knownAccounts s' = rememberAccount (username u) (knownAccounts s)" "tasks s' = remove1 ?t (tasks s)" "drained s' = drained s"
    using True by (simp_all add: s'_def loginSaved_def current_def isCurrentMatchboxSessionGeneration_def tasks_finished)
  have only: "\<forall>t' \<in> set (remove1 ?t (tasks s)). isLogin t' \<longrightarrow> taskGeneration t' \<noteq> generation s"
    by (rule singleLogin_only [OF mbInv_single [OF inv] t]) (simp_all add: True)
  have old: "okTask s' t' \<and> taskGeneration t' \<le> generation s" if "t' \<in> set (remove1 ?t (tasks s))" for t'
  proof -
    have "t' \<in> set (tasks s)" using that set_remove1_subset by fastforce
    then have "okTask s t'" "taskGeneration t' \<le> generation s" using mbInv_task [OF inv] by blast+
    moreover have "isLogin t' \<longrightarrow> taskGeneration t' \<noteq> generation s" using only that by blast
    ultimately show ?thesis using p mbInv_no_token [OF inv k(1)] k(1) by (cases t') auto
  qed
  have "filter (\<lambda>t. isLogin t \<and> taskGeneration t = generation s) (remove1 ?t (tasks s)) = []"
    using only by (auto simp: filter_empty_conv)
  then have "singleLogin s'" unfolding singleLogin_def p by simp
  moreover have "distinct (knownAccounts s)" using inv unfolding mbInv_def by blast
  ultimately have "mbInv s'" using old k(2) rememberAccount_ok unfolding mbInv_def p by auto
  then show ?thesis by (simp add: s'_def)
qed

lemma mbInv_initial: "distinct accounts \<Longrightarrow> length accounts \<le> 12 \<Longrightarrow> mbInv (initial url st accounts)"
proof (cases st)
  case (Some a)
  have "\<exists>u. a = \<lparr>s_baseUrl = s_baseUrl a, s_token = s_token a, s_user = u\<rparr>" by (intro exI [of _ "s_user a"]) simp
  then show "distinct accounts \<Longrightarrow> length accounts \<le> 12 \<Longrightarrow> ?thesis"
    using Some by (auto simp: mbInv_def initial_def drained_def singleLogin_def)
qed (auto simp: mbInv_def initial_def drained_def singleLogin_def)

lemma mbInv_runOp: "mbInv s \<Longrightarrow> mbInv (runOp s)"
  by (rule mbInv_same [of s]) (simp_all add: drained_runOp, simp_all add: runOp_def split: list.splits)

lemma mbInv_saveConnection: "mbInv s \<Longrightarrow> mbInv (saveConnection url s)"
  using mbInv_signOut_url [of s url] mbInv_same [of s "s\<lparr>mbOnline := True\<rparr>"] by (simp add: saveConnection_def)

lemma mbInv_step: "mb_step s s' \<Longrightarrow> mbInv s \<Longrightarrow> mbInv s'"
proof (induction rule: mb_step.induct)
  case (login_failure g url password s)
  then show ?case unfolding loginFailure_def by (intro mbInv_finished) (simp_all add: savingLogin_def)
next
  case (password_failure g url tk s)
  then show ?case by (intro mbInv_finished) (simp_all add: savingLogin_def)
next
  case (switch_account s)
  then show ?case unfolding switchAccount_def by (intro mbInv_signOut)
qed (simp_all add: mbInv_runOp mbInv_refresh mbInv_refreshAnswer mbInv_refreshFailure mbInv_refreshSaved mbInv_login mbInv_loginAnswer
  mbInv_loginSaved mbInv_saveConnection mbInv_changePassword mbInv_passwordAnswer mbInv_passwordSaved)

lemma mbInv_reachable: "mb_reachable s \<Longrightarrow> mbInv s"
  by (induction rule: mb_reachable.induct) (auto intro: mbInv_initial mbInv_step)

section \<open>Late answers\<close>

datatype answer = MeAnswer user bool | MeFailure bool | LoginAnswer jsstring user bool | PasswordAnswer user bool | Saved | CallFailed

text \<open>The continuation of a task with the answer it waited for.\<close>

definition finishTask :: "task \<times> answer \<Rightarrow> mb \<Rightarrow> mb" where
  "finishTask p s = (case snd p of
      MeAnswer fresh ok \<Rightarrow> refreshAnswer (fst p) fresh ok s
    | MeFailure off \<Rightarrow> refreshFailure (fst p) off s
    | LoginAnswer tok u ok \<Rightarrow> loginAnswer (fst p) tok u ok s
    | PasswordAnswer updated ok \<Rightarrow> passwordAnswer (fst p) updated ok s
    | Saved \<Rightarrow> (case fst p of
          RefreshSaving _ _ _ \<Rightarrow> refreshSaved (fst p) s
        | LoginSaving _ _ _ _ _ _ \<Rightarrow> loginSaved (fst p) s
        | _ \<Rightarrow> passwordSaved (fst p) s)
    | CallFailed \<Rightarrow> finished (fst p) s)"

text \<open>Everything but the bookkeeping of the tasks.\<close>

definition mbView :: "mb \<Rightarrow> mb" where
  "mbView s = s\<lparr>tasks := []\<rparr>"

lemma finishTask_stale:
  assumes "taskGeneration (fst p) \<noteq> generation s"
  shows "mbView (finishTask p s) = mbView s \<and> generation (finishTask p s) = generation s"
proof -
  have "mbView (finished t s) = mbView s" for t by (simp add: mbView_def finished_def)
  then show ?thesis
    using assms by (cases p; cases "fst p"; cases "snd p")
      (auto simp: finishTask_def refreshAnswer_def refreshFailure_def loginAnswer_def passwordAnswer_def refreshSaved_def
        loginSaved_def passwordSaved_def current_def isCurrentMatchboxSessionGeneration_def)
qed

interpretation mbg: generation_guard generation "\<lambda>p. taskGeneration (fst p)" finishTask mbView
  by unfold_locales (rule finishTask_stale)

section \<open>Properties\<close>


definition anna :: user where
  "anna = \<lparr>user_id = js ''u1'', username = js ''anna'', display_name = js ''Anna'', user_role = Student, grade_level = None,
     user_section = None, roll_number = None, must_change_password = False, user_created_at = []\<rparr>"

definition annaSession :: stored_session where
  "annaSession = \<lparr>s_baseUrl = js ''http://10.0.0.2'', s_token = js ''t'', s_user = anna\<rparr>"

text \<open>A refresh is in flight when the student switches the account; then the queue runs.\<close>

definition switched :: mb where
  "switched = runOp (switchAccount (refresh (initial [] (Some annaSession) [])))"

lemma refreshing_reachable: "mb_reachable (refresh (initial [] (Some annaSession) []))"
  by (rule mb_reachable.step [OF mb_reachable.start [of "[]" "[]" "Some annaSession"] mb_step.refresh]) simp_all

lemma switched_reachable: "mb_reachable switched"
proof -
  have "mbUser (refresh (initial [] (Some annaSession) [])) \<noteq> None" by (simp add: refresh_def initial_def spawn_def)
  note mb_reachable.step [OF refreshing_reachable mb_step.switch_account [OF this]]
  from mb_reachable.step [OF this mb_step.run_op] show ?thesis unfolding switched_def .
qed




text \<open>A refresh that any HTTP error answers ends the session: a busy or restarting host (429, 503) signs the student
  out and deletes the saved session, exactly as a revoked token would; only a missing response counts as being offline.\<close>

theorem server_error_signs_out:
  assumes "current s (RefreshCall g url tok u)" and "err_status e \<noteq> 0"
  shows "let s' = refreshFailure (RefreshCall g url tok u) (offline e) s in
    mbUser s' = None \<and> mbToken s' = None \<and> drained s' = None"
  using assms by (simp add: refreshFailure_def offline_def signOut_def Let_def applyOp_def) (simp add: enqueue_def)

theorem server_error_signs_out_witness:
  "let s = refresh (initial [] (Some annaSession) []);
       s' = refreshFailure (RefreshCall 0 (js ''http://10.0.0.2'') (js ''t'') anna)
              (offline \<lparr>err_code = js ''request_failed'', err_message = [], err_status = 503\<rparr>) s
   in mbUser s = Some anna \<and> mbUser s' = None \<and> mbToken s' = None \<and> drained s' = None"
proof -
  let ?s = "refresh (initial [] (Some annaSession) [])"
  have "current ?s (RefreshCall 0 (js ''http://10.0.0.2'') (js ''t'') anna)" "mbUser ?s = Some anna"
    by (simp_all add: current_def isCurrentMatchboxSessionGeneration_def refresh_def initial_def spawn_def annaSession_def)
  then show ?thesis
    using server_error_signs_out [of ?s 0 "js ''http://10.0.0.2''" "js ''t''" anna "\<lparr>err_code = js ''request_failed'', err_message = [], err_status = 503\<rparr>"]
    by (simp add: Let_def)
qed

end
