(* ===== verification/Student_Cache.thy ===== *)
theory Student_Cache
  imports Web_Storage Ui_Types "HOL-Library.List_Lexorder"
begin

text \<open>
  The IndexedDB database of the student apps (\<open>packages/ui/src/cache.ts\<close>): one object store for cached
  answers of the host and one for work that waits to be sent. Every operation opens the database, which
  creates missing stores, and runs one transaction; what becomes of the two is an argument.

  A waiting entry's \<open>kind\<close> and \<open>payload\<close> are one tagged value, because each call that queues an entry
  gives the two together.
\<close>

section \<open>Data\<close>

record submission_payload =
  sp_assignmentId :: jsstring
  sp_doc :: json
  sp_text :: jsstring
  sp_note :: "jsstring option"

record note_payload =
  np_id :: jsstring
  np_doc :: json
  np_text :: jsstring
  np_base :: "jsstring option"

datatype outbox_payload = NoteWork note_payload | SubmissionWork submission_payload

record outbox_entry =
  entry_key :: jsstring
  entry_work :: outbox_payload
  queuedAt :: jsstring

record 'v database =
  cacheStore :: "(jsstring, 'v) store option"
  outboxStore :: "(jsstring, outbox_entry) store option"

text \<open>A store that does not exist yet is empty once it is opened.\<close>

definition cacheOf :: "'v database \<Rightarrow> (jsstring, 'v) store" where
  "cacheOf db = (case cacheStore db of Some st \<Rightarrow> st | None \<Rightarrow> [])"

definition outboxOf :: "'v database \<Rightarrow> (jsstring, outbox_entry) store" where
  "outboxOf db = (case outboxStore db of Some st \<Rightarrow> st | None \<Rightarrow> [])"

section \<open>Operations\<close>

datatype idb_outcome = OpenFails | Aborts | Completes

definition openDatabase :: "'v database \<Rightarrow> 'v database" where
  "openDatabase db = db\<lparr>cacheStore := Some (cacheOf db), outboxStore := Some (outboxOf db)\<rparr>"

text \<open>The promise resolves (\<open>True\<close>) when the transaction completes; one that aborts changes no store.\<close>

definition transactionDone :: "idb_outcome \<Rightarrow> ('v database \<Rightarrow> 'v database) \<Rightarrow> 'v database \<Rightarrow> bool \<times> 'v database" where
  "transactionDone oc operation db = (case oc of
      OpenFails \<Rightarrow> (False, db)
    | Aborts \<Rightarrow> (False, openDatabase db)
    | Completes \<Rightarrow> (True, operation (openDatabase db)))"

definition cacheSet :: "idb_outcome \<Rightarrow> jsstring \<Rightarrow> 'v \<Rightarrow> 'v database \<Rightarrow> bool \<times> 'v database" where
  "cacheSet oc key v = transactionDone oc (\<lambda>db. db\<lparr>cacheStore := Some (setItem key v (cacheOf db))\<rparr>)"

text \<open>A read that fails rejects (\<open>Inl\<close>).\<close>

definition cacheGet :: "idb_outcome \<Rightarrow> jsstring \<Rightarrow> 'v database \<Rightarrow> unit + 'v option" where
  "cacheGet oc key db = (if oc = Completes then Inr (getItem (cacheOf db) key) else Inl ())"

definition cacheRemove :: "idb_outcome \<Rightarrow> jsstring \<Rightarrow> 'v database \<Rightarrow> bool \<times> 'v database" where
  "cacheRemove oc key = transactionDone oc (\<lambda>db. db\<lparr>cacheStore := Some (removeItem key (cacheOf db))\<rparr>)"

definition queueOffline :: "idb_outcome \<Rightarrow> jsstring \<Rightarrow> jsstring \<Rightarrow> outbox_payload \<Rightarrow> 'v database \<Rightarrow> bool \<times> 'v database" where
  "queueOffline oc now key work =
     transactionDone oc (\<lambda>db. db\<lparr>outboxStore := Some (setItem key \<lparr>entry_key = key, entry_work = work, queuedAt = now\<rparr> (outboxOf db))\<rparr>)"

text \<open>\<open>getAll\<close> returns the values in the order of their keys, which compare by code units.\<close>

definition outboxEntries :: "'v database \<Rightarrow> outbox_entry list" where
  "outboxEntries db = map snd (sort_key fst (outboxOf db))"

definition removeOutbox :: "idb_outcome \<Rightarrow> jsstring \<Rightarrow> 'v database \<Rightarrow> bool \<times> 'v database" where
  "removeOutbox oc key = transactionDone oc (\<lambda>db. db\<lparr>outboxStore := Some (removeItem key (outboxOf db))\<rparr>)"

definition clearStudentCache :: "idb_outcome \<Rightarrow> idb_outcome \<Rightarrow> 'v database \<Rightarrow> bool \<times> 'v database" where
  "clearStudentCache oc oc' db =
     (let (a, db) = transactionDone oc (\<lambda>db. db\<lparr>cacheStore := Some []\<rparr>) db;
          (b, db) = transactionDone oc' (\<lambda>db. db\<lparr>outboxStore := Some []\<rparr>) db
      in (a \<and> b, db))"

section \<open>The contract\<close>

lemma cacheOf_open [simp]: "cacheOf (openDatabase db) = cacheOf db"
  by (simp add: openDatabase_def cacheOf_def)

lemma outboxOf_open [simp]: "outboxOf (openDatabase db) = outboxOf db"
  by (simp add: openDatabase_def outboxOf_def)

lemma cacheOf_update [simp]: "cacheOf (db\<lparr>cacheStore := Some st\<rparr>) = st" "cacheOf (db\<lparr>outboxStore := x\<rparr>) = cacheOf db"
  by (simp_all add: cacheOf_def)

lemma outboxOf_update [simp]: "outboxOf (db\<lparr>outboxStore := Some st'\<rparr>) = st'" "outboxOf (db\<lparr>cacheStore := x\<rparr>) = outboxOf db"
  by (simp_all add: outboxOf_def)

lemmas cache_op_defs = cacheSet_def cacheRemove_def queueOffline_def removeOutbox_def transactionDone_def

lemma cacheOf_ops [simp]:
  "cacheOf (snd (cacheSet oc k v db)) = (if oc = Completes then setItem k v (cacheOf db) else cacheOf db)"
  "cacheOf (snd (cacheRemove oc k db)) = (if oc = Completes then removeItem k (cacheOf db) else cacheOf db)"
  "cacheOf (snd (queueOffline oc now k w db)) = cacheOf db"
  "cacheOf (snd (removeOutbox oc k db)) = cacheOf db"
  by (simp_all add: cache_op_defs split: idb_outcome.split)

lemma outboxOf_ops [simp]:
  "outboxOf (snd (cacheSet oc k v db)) = outboxOf db"
  "outboxOf (snd (cacheRemove oc k db)) = outboxOf db"
  "outboxOf (snd (queueOffline oc now k w db)) =
     (if oc = Completes then setItem k \<lparr>entry_key = k, entry_work = w, queuedAt = now\<rparr> (outboxOf db) else outboxOf db)"
  "outboxOf (snd (removeOutbox oc k db)) = (if oc = Completes then removeItem k (outboxOf db) else outboxOf db)"
  by (simp_all add: cache_op_defs split: idb_outcome.split)

lemma op_resolves [simp]:
  "fst (cacheSet oc k v db) \<longleftrightarrow> oc = Completes" "fst (cacheRemove oc k db) \<longleftrightarrow> oc = Completes"
  "fst (queueOffline oc now k w db) \<longleftrightarrow> oc = Completes" "fst (removeOutbox oc k db) \<longleftrightarrow> oc = Completes"
  by (simp_all add: cache_op_defs split: idb_outcome.split)

interpretation cache: kv_store "\<lambda>db. getItem (cacheOf db)" "\<lambda>k v db. snd (cacheSet Completes k v db)"
    "\<lambda>k db. snd (cacheRemove Completes k db)"
  by unfold_locales (simp_all add: ls.get_put ls.get_remove)

interpretation outbox: kv_store "\<lambda>db k. map_option entry_work (getItem (outboxOf db) k)"
    "\<lambda>k w db. snd (queueOffline Completes now k w db)" "\<lambda>k db. snd (removeOutbox Completes k db)"
  by unfold_locales (simp_all add: ls.get_put ls.get_remove)

text \<open>Every entry of the outbox is filed under its own key, once; all operations keep that.\<close>

definition wfDatabase :: "'v database \<Rightarrow> bool" where
  "wfDatabase db \<longleftrightarrow> wfStore (cacheOf db) \<and> wfStore (outboxOf db) \<and> (\<forall>(k, e) \<in> set (outboxOf db). entry_key e = k)"

lemma set_setItem: "set (setItem k v st) \<subseteq> insert (k, v) (set st)"
  unfolding setItem_def by (induction st) (auto split: if_splits)

lemma set_removeItem: "set (removeItem k st) = {p \<in> set st. fst p \<noteq> k}"
  unfolding removeItem_def mapDelete_def by auto

lemma wfDatabase_ops:
  assumes "wfDatabase db"
  shows "wfDatabase (snd (cacheSet oc k v db))" "wfDatabase (snd (cacheRemove oc k db))"
    "wfDatabase (snd (queueOffline oc now k w db))" "wfDatabase (snd (removeOutbox oc k db))"
    "wfDatabase (snd (clearStudentCache oc oc' db))"
proof -
  note wf = assms [unfolded wfDatabase_def]
  show "wfDatabase (snd (cacheSet oc k v db))" "wfDatabase (snd (cacheRemove oc k db))" "wfDatabase (snd (removeOutbox oc k db))"
    using wf by (auto simp: wfDatabase_def set_removeItem)
  show "wfDatabase (snd (queueOffline oc now k w db))"
    using wf set_setItem [of k "\<lparr>entry_key = k, entry_work = w, queuedAt = now\<rparr>" "outboxOf db"] by (auto simp: wfDatabase_def)
  show "wfDatabase (snd (clearStudentCache oc oc' db))"
    using wf by (cases oc; cases oc') (auto simp: wfDatabase_def clearStudentCache_def transactionDone_def wfStore_def storeKeys_def)
qed

lemma outboxEntries_set: "wfDatabase db \<Longrightarrow> e \<in> set (outboxEntries db) \<longleftrightarrow> getItem (outboxOf db) (entry_key e) = Some e"
  unfolding wfDatabase_def outboxEntries_def getItem_def wfStore_def storeKeys_def by force

lemma outboxEntries_keys:
  assumes "wfDatabase db"
  shows "map entry_key (outboxEntries db) = map fst (sort_key fst (outboxOf db))" "distinct (map entry_key (outboxEntries db))"
    "sorted (map entry_key (outboxEntries db))"
proof -
  show k: "map entry_key (outboxEntries db) = map fst (sort_key fst (outboxOf db))"
    using assms unfolding wfDatabase_def outboxEntries_def by (auto simp: case_prod_beta)
  have "distinct (map fst (sort_key fst (outboxOf db)))"
    using assms unfolding wfDatabase_def wfStore_def storeKeys_def by (simp add: distinct_map)
  then show "distinct (map entry_key (outboxEntries db))" unfolding k .
  show "sorted (map entry_key (outboxEntries db))" unfolding k by simp
qed

end
