(* ===== verification/Classroom_State.thy ===== *)
theory Classroom_State
  imports Student_Cache Js_Uri
begin

text \<open>
  The pure part of the student's classrooms (\<open>apps/forge/src/classrooms/classroomState.ts\<close>): the keys under
  which an account keeps its data on a shared device, the classification of failures, and the clock and the
  result of a live session.
\<close>

section \<open>Keys\<close>

text \<open>\<open>None\<close> is the \<open>URIError\<close> of an address that is not well-formed UTF-16.\<close>

definition classroomScope :: "jsstring \<Rightarrow> jsstring \<Rightarrow> jsstring option" where
  "classroomScope baseUrl userId = map_option (\<lambda>e. js ''student:'' @ e @ [58] @ userId @ [58]) (encodeURIComponent baseUrl)"

datatype cache_name = ClassroomsName | AssignmentsName | SubmissionsName | TreeName | LiveSessionName

fun cacheName :: "cache_name \<Rightarrow> jsstring" where
  "cacheName ClassroomsName = js ''classrooms''"
| "cacheName AssignmentsName = js ''assignments''"
| "cacheName SubmissionsName = js ''submissions''"
| "cacheName TreeName = js ''tree''"
| "cacheName LiveSessionName = js ''live-session''"

definition classroomCacheKey :: "jsstring \<Rightarrow> cache_name \<Rightarrow> jsstring" where
  "classroomCacheKey scope name = scope @ js ''cache:'' @ cacheName name"

definition submissionOutboxKey :: "jsstring \<Rightarrow> jsstring \<Rightarrow> jsstring" where
  "submissionOutboxKey scope assignmentId = scope @ js ''submission:'' @ assignmentId"

definition belongsToClassroomScope :: "jsstring \<Rightarrow> jsstring \<Rightarrow> bool" where
  "belongsToClassroomScope key scope = startsWith key scope"

section \<open>Failures\<close>

definition shouldRetryOutboxFailure :: "int \<Rightarrow> bool \<Rightarrow> bool" where
  "shouldRetryOutboxFailure status isOffline \<longleftrightarrow> isOffline \<or> status = 408 \<or> status = 425 \<or> status = 429 \<or> status \<ge> 500"

section \<open>Live sessions\<close>

datatype student_live_module = ClassroomModule | TypingModule | EnglishModule | GamesModule | UnsupportedModule

definition studentLiveModule :: "jsstring \<Rightarrow> student_live_module" where
  "studentLiveModule moduleId =
     (if moduleId = js ''classroom.live'' then ClassroomModule
      else if moduleId = js ''typing'' \<or> moduleId = js ''typing.practice'' then TypingModule
      else if moduleId = js ''english'' \<or> moduleId = js ''english.practice'' then EnglishModule
      else if moduleId = js ''games'' \<or> moduleId = js ''games.practice'' then GamesModule
      else UnsupportedModule)"

datatype clock_state = ClockActive | ClockExpired | ClockEnded

text \<open>Reading a date text is the parameter \<open>dateParse\<close>: outside the ISO format it depends on the engine.\<close>

definition liveSessionClock :: "(jsstring \<Rightarrow> jsnum) \<Rightarrow> jsstring \<Rightarrow> jsstring option \<Rightarrow> rat \<Rightarrow> clock_state \<times> int" where
  "liveSessionClock dateParse endsAt endedAt nowMs =
     (if (case endedAt of Some (_ # _) \<Rightarrow> True | _ \<Rightarrow> False) then (ClockEnded, 0)
      else (case dateParse endsAt of
          Fin endMs \<Rightarrow> if nowMs \<ge> endMs then (ClockExpired, 0) else (ClockActive, max 0 (mathCeil ((endMs - nowMs) / 1000)))
        | _ \<Rightarrow> (ClockExpired, 0)))"

record live_result_input =
  lr_score :: rat
  lr_elapsed_seconds :: rat

definition checkedLiveResult :: "jsnum option \<Rightarrow> jsnum \<Rightarrow> rat \<Rightarrow> live_result_input option" where
  "checkedLiveResult score elapsedSeconds durationMinutes = (case score of
      Some (Fin sc) \<Rightarrow>
        if sc < 0 \<or> sc > 100 then None
        else (case elapsedSeconds of
            Fin el \<Rightarrow> if el < 0 then None
              else Some \<lparr>lr_score = sc, lr_elapsed_seconds = min (of_int (mathRound el)) (durationMinutes * 60)\<rparr>
          | _ \<Rightarrow> None)
    | _ \<Rightarrow> None)"

text \<open>The printing of a date in the user's language is the parameter \<open>formatDateTime\<close>.\<close>

definition formatAssignmentDue :: "(jsstring \<Rightarrow> jsnum) \<Rightarrow> (rat \<Rightarrow> jsstring) \<Rightarrow> jsstring option \<Rightarrow> jsstring" where
  "formatAssignmentDue dateParse formatDateTime due = (case due of
      Some (c # s) \<Rightarrow> (case dateParse (c # s) of Fin t \<Rightarrow> formatDateTime t | _ \<Rightarrow> js ''No deadline'')
    | _ \<Rightarrow> js ''No deadline'')"

section \<open>Scopes are disjoint\<close>

text \<open>An account on a host: the address is text, the identifier (a UUID of the host) has no colon.\<close>

definition validAccount :: "jsstring \<times> jsstring \<Rightarrow> bool" where
  "validAccount a \<longleftrightarrow> isUtf16 (fst a) \<and> classroomScope (fst a) (snd a) \<noteq> None \<and> 58 \<notin> set (snd a)"

lemma scope_prefix:
  assumes "validAccount (b, u)" "validAccount (b', u')"
    and "classroomScope b u = Some sc" "classroomScope b' u' = Some sc'" "sc @ x = sc' @ y"
  shows "b = b' \<and> u = u' \<and> x = y"
proof -
  obtain e e' where e: "encodeURIComponent b = Some e" "encodeURIComponent b' = Some e'"
    and s: "sc = js ''student:'' @ e @ [58] @ u @ [58]" "sc' = js ''student:'' @ e' @ [58] @ u' @ [58]"
    using assms(3,4) unfolding classroomScope_def by auto
  have n: "58 \<notin> set e" "58 \<notin> set e'" "58 \<notin> set u" "58 \<notin> set u'"
    using encodeURIComponent_no_colon e assms(1,2) unfolding validAccount_def by auto
  have "e @ 58 # (u @ 58 # x) = e' @ 58 # (u' @ 58 # y)" using assms(5) unfolding s by simp
  from split_at [OF n(1,2) this] have q: "e = e'" "u @ 58 # x = u' @ 58 # y" by blast+
  from split_at [OF n(3,4) q(2)] have "u = u'" "x = y" by blast+
  moreover have "b = b'" using encodeURIComponent_inj e q(1) assms(1,2) unfolding validAccount_def by auto
  ultimately show ?thesis by blast
qed

definition scopeOf :: "jsstring \<times> jsstring \<Rightarrow> jsstring" where
  "scopeOf a = (case classroomScope (fst a) (snd a) of Some sc \<Rightarrow> sc | None \<Rightarrow> [])"

lemma scopeOf_prefix: "validAccount a \<Longrightarrow> validAccount a' \<Longrightarrow> scopeOf a @ x = scopeOf a' @ y \<Longrightarrow> a = a' \<and> x = y"
  using scope_prefix [of "fst a" "snd a" "fst a'" "snd a'" _ _ x y] unfolding scopeOf_def validAccount_def
  by (auto simp: prod_eq_iff)

lemma cacheName_inj: "cacheName n = cacheName m \<longleftrightarrow> n = m"
  by (cases n; cases m) (simp_all add: js_def)

interpretation account_cache: scoped_store "\<lambda>db. getItem (cacheOf db)" "\<lambda>k v db. snd (cacheSet Completes k v db)"
    "\<lambda>k db. snd (cacheRemove Completes k db)" "\<lambda>a. classroomCacheKey (scopeOf a)" validAccount
proof
  fix a b :: "jsstring \<times> jsstring" and n m
  assume "validAccount a" "validAccount b" "classroomCacheKey (scopeOf a) n = classroomCacheKey (scopeOf b) m"
  then have "a = b \<and> js ''cache:'' @ cacheName n = js ''cache:'' @ cacheName m" unfolding classroomCacheKey_def using scopeOf_prefix by blast
  then show "a = b \<and> n = m" by (simp add: cacheName_inj)
qed

interpretation account_outbox: scoped_store "\<lambda>db k. map_option entry_work (getItem (outboxOf db) k)"
    "\<lambda>k w db. snd (queueOffline Completes now k w db)" "\<lambda>k db. snd (removeOutbox Completes k db)"
    "\<lambda>a. submissionOutboxKey (scopeOf a)" validAccount
proof
  fix a b :: "jsstring \<times> jsstring" and n m
  assume "validAccount a" "validAccount b" "submissionOutboxKey (scopeOf a) n = submissionOutboxKey (scopeOf b) m"
  then have "a = b \<and> js ''submission:'' @ n = js ''submission:'' @ m" unfolding submissionOutboxKey_def using scopeOf_prefix by blast
  then show "a = b \<and> n = m" by simp
qed

lemma belongs_own [simp]:
  "belongsToClassroomScope (submissionOutboxKey sc i) sc" "belongsToClassroomScope (classroomCacheKey sc n) sc"
  by (simp_all add: belongsToClassroomScope_def submissionOutboxKey_def classroomCacheKey_def startsWith_def)

lemma belongs_other:
  assumes "validAccount a" "validAccount b"
  shows "belongsToClassroomScope (scopeOf a @ x) (scopeOf b) \<longleftrightarrow> a = b"
proof
  assume "belongsToClassroomScope (scopeOf a @ x) (scopeOf b)"
  then obtain y where "scopeOf b @ y = scopeOf a @ x"
    unfolding belongsToClassroomScope_def startsWith_def by (metis append_take_drop_id)
  then show "a = b" using scopeOf_prefix [OF assms(2,1)] by metis
qed (simp add: belongsToClassroomScope_def startsWith_def)

section \<open>Properties\<close>

text \<open>C15: On a device that several students share, over several hosts, no key of one account is a key of
  another: the prefix test by which the app picks its waiting submissions accepts a key exactly when it was made
  for the same account, and a key determines the account and what it names.\<close>

theorem account_keys_separate:
  assumes "validAccount (b, u)" "validAccount (b', u')"
    and "classroomScope b u = Some sc" "classroomScope b' u' = Some sc'"
  shows "(belongsToClassroomScope (submissionOutboxKey sc i) sc' \<longleftrightarrow> (b, u) = (b', u')) \<and>
    (submissionOutboxKey sc i = submissionOutboxKey sc' i' \<longleftrightarrow> (b, u, i) = (b', u', i')) \<and>
    (classroomCacheKey sc n = classroomCacheKey sc' n' \<longleftrightarrow> (b, u, n) = (b', u', n')) \<and>
    submissionOutboxKey sc i \<noteq> classroomCacheKey sc' n"
proof -
  have s: "sc = scopeOf (b, u)" "sc' = scopeOf (b', u')" using assms(3,4) by (simp_all add: scopeOf_def)
  have "js ''submission:'' @ i \<noteq> js ''cache:'' @ cacheName n" by (simp add: js_def)
  then have "submissionOutboxKey sc i \<noteq> classroomCacheKey sc' n"
    using scopeOf_prefix [OF assms(1,2)] unfolding s submissionOutboxKey_def classroomCacheKey_def by blast
  moreover have "belongsToClassroomScope (submissionOutboxKey sc i) sc' \<longleftrightarrow> (b, u) = (b', u')"
    unfolding s submissionOutboxKey_def by (rule belongs_other [OF assms(1,2)])
  ultimately show ?thesis
    using account_outbox.scoped_inj [OF assms(1,2), of i i'] account_cache.scoped_inj [OF assms(1,2), of n n'] unfolding s by auto
qed

theorem account_keys_separate_witness:
  "let base = js ''http://192.168.1.20:7373''; sc = scopeOf (base, js ''asha''); sc' = scopeOf (base, js ''asha2'') in
   sc = js ''student:http%3A%2F%2F192.168.1.20%3A7373:asha:'' \<and>
   \<not> belongsToClassroomScope (submissionOutboxKey sc' (js ''a1'')) sc \<and>
   submissionOutboxKey sc (js ''a1'') \<noteq> submissionOutboxKey sc' (js ''a1'')"
proof -
  let ?b = "js ''http://192.168.1.20:7373''"
  have v: "validAccount (?b, js ''asha'')" "validAccount (?b, js ''asha2'')" by code_simp+
  have s: "classroomScope ?b (js ''asha'') = Some (scopeOf (?b, js ''asha''))" "classroomScope ?b (js ''asha2'') = Some (scopeOf (?b, js ''asha2''))"
    by code_simp+
  have "scopeOf (?b, js ''asha'') = js ''student:http%3A%2F%2F192.168.1.20%3A7373:asha:''" "js ''asha'' \<noteq> js ''asha2''" by code_simp+
  then show ?thesis using account_keys_separate [OF v(2,1) s(2,1), of "js ''a1''" "js ''a1''"] unfolding Let_def by auto
qed

text \<open>A live session's clock and results are safe to send: time remains, and then as a whole number of seconds of
  at least one and no more than the time to the end, exactly while the session is active, which is when it was not ended and its end lies
  ahead; and a result that passes the check is a score of 0 to 100 reached in a whole number of seconds within
  the session's length.\<close>

theorem live_result_bounds:
  "(case liveSessionClock dateParse endsAt endedAt nowMs of (st, remaining) \<Rightarrow>
      (st = ClockActive \<longleftrightarrow> remaining > 0) \<and> of_int (remaining - 1) * 1000 \<le> max 0 (case dateParse endsAt of Fin e \<Rightarrow> e - nowMs | _ \<Rightarrow> 0)) \<and>
   (case checkedLiveResult score elapsed duration of
      None \<Rightarrow> True
    | Some r \<Rightarrow> 0 \<le> lr_score r \<and> lr_score r \<le> 100 \<and> score = Some (Fin (lr_score r)) \<and>
        lr_elapsed_seconds r \<le> duration * 60 \<and> lr_elapsed_seconds r \<ge> min 0 (duration * 60))"
proof -
  have c: "0 < \<lceil>(e - nowMs) / 1000\<rceil> \<and> of_int (\<lceil>(e - nowMs) / 1000\<rceil> - 1) * 1000 \<le> e - nowMs" if "nowMs < e" for e :: rat
  proof -
    have "of_int \<lceil>(e - nowMs) / 1000\<rceil> - 1 < (e - nowMs) / 1000" by linarith
    then show ?thesis using that by (simp add: zero_less_ceiling field_simps)
  qed
  have "case liveSessionClock dateParse endsAt endedAt nowMs of (st, remaining) \<Rightarrow>
      (st = ClockActive \<longleftrightarrow> remaining > 0) \<and> of_int (remaining - 1) * 1000 \<le> max 0 (case dateParse endsAt of Fin e \<Rightarrow> e - nowMs | _ \<Rightarrow> 0)"
    using c by (cases "dateParse endsAt") (auto simp: liveSessionClock_def mathCeil_def max_def not_le split: option.splits list.splits)
  moreover have "case checkedLiveResult score elapsed duration of
      None \<Rightarrow> True
    | Some r \<Rightarrow> 0 \<le> lr_score r \<and> lr_score r \<le> 100 \<and> score = Some (Fin (lr_score r)) \<and>
        lr_elapsed_seconds r \<le> duration * 60 \<and> lr_elapsed_seconds r \<ge> min 0 (duration * 60)"
  proof -
    have "(0::rat) \<le> of_int (mathRound el)" if "0 \<le> el" for el using that by (simp add: mathRound_def)
    then have "min 0 (duration * 60) \<le> min (of_int (mathRound el)) (duration * 60)" if "\<not> el < 0" for el
      using that by (intro min.mono) simp_all
    then show ?thesis by (auto simp: checkedLiveResult_def simp del: min_less_iff_conj min.bounded_iff split: option.splits jsnum.splits)
  qed
  ultimately show ?thesis by blast
qed

end
