(* ===== verification/Live_Session.thy ===== *)
theory Live_Session
  imports Classroom_State Host_Transport Session_Store
begin

text \<open>
  The live session a student takes part in (\<open>useStudentLiveSession\<close> of
  \<open>apps/forge/src/classrooms/LiveSession.tsx\<close>) as a state machine. The state is what the hook keeps: the
  session on show, the sessions found, the clock, the two sequence counters and the flag \<open>attempted\<close>, with the
  database the session is cached in. An asynchronous function is split where it waits: one operation runs up to
  the request, another takes the answer, and what the function had captured before (its sequence number, the
  session on show) is the task in between.

  Reading a date is the parameter \<open>dateParse\<close>. A cached session is one that this version of the app stored, so
  every field of it is present.
\<close>

section \<open>State\<close>

datatype result_state = RActive | RSubmitting | RSubmitted | RExpired | REnded | RUnscored | RFailed

record cached_live_session =
  cl_session :: live_session
  cl_joined :: bool
  clockOffsetMs :: rat
  cl_result :: "live_result option"
  cl_state :: result_state
  cl_attempted :: bool
  cl_message :: jsstring

text \<open>What the student app caches, one constructor per key.\<close>

datatype cached =
    CachedClassrooms "classroom list"
  | CachedAssignments "assignment list"
  | CachedSubmissions "(jsstring \<times> submission option) list"
  | CachedTree "study_node list"
  | CachedLive "cached_live_session option"

record live_state =
  saved :: "cached_live_session option"
  live_sessions :: "live_session list"
  live_now :: rat
  discoverySequence :: nat
  mutationSequence :: nat
  attempted :: bool
  live_db :: "cached database"

section \<open>Merging\<close>

definition validCachedSession :: "cached option \<Rightarrow> cached_live_session option" where
  "validCachedSession v = (case v of
      Some (CachedLive (Some c)) \<Rightarrow>
        if live_id (cl_session c) \<noteq> [] \<and> live_classroom_id (cl_session c) \<noteq> [] \<and> ends_at (cl_session c) \<noteq> [] then Some c else None
    | _ \<Rightarrow> None)"

definition clockOffset :: "(jsstring \<Rightarrow> jsnum) \<Rightarrow> rat \<Rightarrow> live_session \<Rightarrow> rat" where
  "clockOffset dateParse dateNow s = (case server_now s of
      Some (c # t) \<Rightarrow> (case dateParse (c # t) of Fin q \<Rightarrow> q - dateNow | _ \<Rightarrow> 0)
    | _ \<Rightarrow> 0)"

definition revisionOf :: "live_session \<Rightarrow> rat" where
  "revisionOf s = (case current_task s of Some t \<Rightarrow> task_revision t | None \<Rightarrow> 0)"

text \<open>A comparison with \<open>NaN\<close> is false.\<close>

definition laterDate :: "(jsstring \<Rightarrow> jsnum) \<Rightarrow> jsstring \<Rightarrow> jsstring \<Rightarrow> bool" where
  "laterDate dateParse a b = (case (dateParse a, dateParse b) of (Fin p, Fin q) \<Rightarrow> p > q | _ \<Rightarrow> False)"

definition mergeSession :: "(jsstring \<Rightarrow> jsnum) \<Rightarrow> live_session \<Rightarrow> live_session \<Rightarrow> live_session" where
  "mergeSession dateParse current incoming =
     (if revisionOf current > revisionOf incoming
      then incoming\<lparr>current_task := current_task current, student_task_state := student_task_state current\<rparr>
      else if revisionOf current = revisionOf incoming then
        (case (student_task_state current, student_task_state incoming) of
           (Some a, None) \<Rightarrow> incoming\<lparr>student_task_state := Some a\<rparr>
         | (Some a, Some b) \<Rightarrow> if laterDate dateParse (ack_updated_at a) (ack_updated_at b) then incoming\<lparr>student_task_state := Some a\<rparr> else incoming
         | _ \<Rightarrow> incoming)
      else incoming)"

section \<open>Storing\<close>

definition cacheLive :: "idb_outcome \<Rightarrow> jsstring \<Rightarrow> cached_live_session option \<Rightarrow> live_state \<Rightarrow> live_state" where
  "cacheLive oc cacheKey next s = s\<lparr>live_db := snd (cacheSet oc cacheKey (CachedLive next) (live_db s))\<rparr>"

definition storeLive :: "idb_outcome \<Rightarrow> jsstring \<Rightarrow> cached_live_session option \<Rightarrow> live_state \<Rightarrow> live_state" where
  "storeLive oc cacheKey next s =
     cacheLive oc cacheKey next
       (s\<lparr>saved := next, attempted := (case next of Some c \<Rightarrow> cl_attempted c | None \<Rightarrow> False)\<rparr>)"

section \<open>Discovery\<close>

text \<open>The answer to a discovery: the active sessions, or, from a host that does not know the request (404), the
  classrooms with the active session of each, where a request per classroom may be rejected (\<open>None\<close>).\<close>

datatype discovery = Found "live_session list" | PerClassroom "live_session option option list" | DiscoveryFailed

definition foundSessions :: "discovery \<Rightarrow> live_session list option" where
  "foundSessions d = (case d of
      Found ss \<Rightarrow> Some ss
    | PerClassroom rs \<Rightarrow> Some (concat (map (\<lambda>r. case r of Some (Some s) \<Rightarrow> [s\<lparr>student_joined := Some True\<rparr>] | _ \<Rightarrow> []) rs))
    | DiscoveryFailed \<Rightarrow> None)"

text \<open>\<open>sort\<close> is stable; the start of a session is a date the host wrote, so the comparison is a number.\<close>

definition byStart :: "(jsstring \<Rightarrow> jsnum) \<Rightarrow> live_session list \<Rightarrow> live_session list" where
  "byStart dateParse = sort_key (\<lambda>s. case dateParse (starts_at s) of Fin q \<Rightarrow> - q | _ \<Rightarrow> 0)"

definition newLive :: "(jsstring \<Rightarrow> jsnum) \<Rightarrow> rat \<Rightarrow> live_session \<Rightarrow> bool \<Rightarrow> jsstring \<Rightarrow> cached_live_session" where
  "newLive dateParse dateNow s joined message =
     \<lparr>cl_session = s, cl_joined = joined, clockOffsetMs = clockOffset dateParse dateNow s, cl_result = None,
      cl_state = RActive, cl_attempted = False, cl_message = message\<rparr>"

definition chooseSession :: "cached_live_session option \<Rightarrow> live_session list \<Rightarrow> live_session option" where
  "chooseSession current found =
     (case List.find (\<lambda>item. Some (live_id item) = map_option (\<lambda>c. live_id (cl_session c)) current) found of
        Some s \<Rightarrow> Some s | None \<Rightarrow> (case found of s # _ \<Rightarrow> Some s | [] \<Rightarrow> None))"

definition nextLive :: "(jsstring \<Rightarrow> jsnum) \<Rightarrow> rat \<Rightarrow> cached_live_session option \<Rightarrow> live_session \<Rightarrow> cached_live_session" where
  "nextLive dateParse dateNow current chosen =
     (let fresh = newLive dateParse dateNow chosen (case student_joined chosen of Some j \<Rightarrow> j | None \<Rightarrow> False) []
      in case current of
           Some c \<Rightarrow>
             if live_id (cl_session c) = live_id chosen
             then c\<lparr>cl_session := mergeSession dateParse (cl_session c) chosen,
                    cl_joined := (case student_joined chosen of Some j \<Rightarrow> j | None \<Rightarrow> cl_joined c),
                    clockOffsetMs := clockOffset dateParse dateNow chosen\<rparr>
             else fresh
         | None \<Rightarrow> fresh)"

definition discoverStart :: "bool \<Rightarrow> live_state \<Rightarrow> live_state \<times> nat option" where
  "discoverStart isOnline s =
     (if \<not> isOnline then (s, None)
      else (s\<lparr>discoverySequence := discoverySequence s + 1\<rparr>, Some (discoverySequence s + 1)))"

record discovery_task =
  dt_sequence :: nat
  dt_answer :: discovery
  dt_now :: rat
  dt_write :: idb_outcome

definition discoverAnswer :: "(jsstring \<Rightarrow> jsnum) \<Rightarrow> jsstring \<Rightarrow> discovery_task \<Rightarrow> live_state \<Rightarrow> live_state" where
  "discoverAnswer dateParse cacheKey t s = (case foundSessions (dt_answer t) of
      None \<Rightarrow> s
    | Some found \<Rightarrow>
        if dt_sequence t \<noteq> discoverySequence s then s
        else
          (let found = byStart dateParse found; s = s\<lparr>live_sessions := found\<rparr>
           in case chooseSession (saved s) found of
                None \<Rightarrow> cacheLive (dt_write t) cacheKey None (s\<lparr>saved := None\<rparr>)
              | Some chosen \<Rightarrow>
                  (let next = nextLive dateParse (dt_now t) (saved s) chosen
                   in cacheLive (dt_write t) cacheKey (Some next) (s\<lparr>saved := Some next\<rparr>))))"

interpretation ld: generation_guard discoverySequence dt_sequence "discoverAnswer dateParse cacheKey" id
  by unfold_locales (simp add: discoverAnswer_def split: option.split)

text \<open>When the account or host changes: the cached session is read, then discovery starts.\<close>

definition mountStart :: "live_state \<Rightarrow> live_state \<times> nat" where
  "mountStart s = (s\<lparr>discoverySequence := discoverySequence s + 1\<rparr>, discoverySequence s + 1)"

definition mountAnswer :: "idb_outcome \<Rightarrow> idb_outcome \<Rightarrow> jsstring \<Rightarrow> nat \<Rightarrow> live_state \<Rightarrow> live_state" where
  "mountAnswer rd wr cacheKey sequence s = (case cacheGet rd cacheKey (live_db s) of
      Inl _ \<Rightarrow> s
    | Inr v \<Rightarrow>
        if sequence \<noteq> discoverySequence s then s
        else (case validCachedSession v of None \<Rightarrow> s | Some c \<Rightarrow> storeLive wr cacheKey (Some c) s))"

definition unmount :: "live_state \<Rightarrow> live_state" where
  "unmount s = s\<lparr>discoverySequence := discoverySequence s + 1, mutationSequence := mutationSequence s + 1\<rparr>"

section \<open>What is on show\<close>

definition clockOf :: "(jsstring \<Rightarrow> jsnum) \<Rightarrow> live_state \<Rightarrow> cached_live_session \<Rightarrow> clock_state \<times> int" where
  "clockOf dateParse s c = liveSessionClock dateParse (ends_at (cl_session c)) (ended_at (cl_session c)) (live_now s + clockOffsetMs c)"

text \<open>\<open>None\<close> is \<open>idle\<close>.\<close>

definition visibleState :: "(jsstring \<Rightarrow> jsnum) \<Rightarrow> live_state \<Rightarrow> result_state option" where
  "visibleState dateParse s = (case saved s of
      None \<Rightarrow> None
    | Some c \<Rightarrow> Some (case fst (clockOf dateParse s c) of ClockActive \<Rightarrow> cl_state c | ClockExpired \<Rightarrow> RExpired | ClockEnded \<Rightarrow> REnded))"

section \<open>What the student does\<close>

definition selectSession :: "(jsstring \<Rightarrow> jsnum) \<Rightarrow> rat \<Rightarrow> idb_outcome \<Rightarrow> jsstring \<Rightarrow> jsstring \<Rightarrow> live_state \<Rightarrow> live_state" where
  "selectSession dateParse dateNow wr cacheKey i s = (case List.find (\<lambda>item. live_id item = i) (live_sessions s) of
      None \<Rightarrow> s
    | Some sess \<Rightarrow>
        storeLive wr cacheKey (Some (newLive dateParse dateNow sess (case student_joined sess of Some j \<Rightarrow> j | None \<Rightarrow> False) [])) s)"

definition joinMessage :: jsstring where
  "joinMessage = js ''Joined live classroom.''"

text \<open>\<open>join\<close> with the host's answer to the code; without one it throws and changes nothing.\<close>

definition joinAnswer :: "(jsstring \<Rightarrow> jsnum) \<Rightarrow> rat \<Rightarrow> idb_outcome \<Rightarrow> jsstring \<Rightarrow> live_session option \<Rightarrow> live_state \<Rightarrow> live_state" where
  "joinAnswer dateParse dateNow wr cacheKey resp s = (case resp of
      None \<Rightarrow> s
    | Some sess \<Rightarrow>
        (let s = storeLive wr cacheKey (Some (newLive dateParse dateNow sess True joinMessage)) s
         in s\<lparr>live_sessions := sess # filter (\<lambda>item. live_id item \<noteq> live_id sess) (live_sessions s)\<rparr>))"

text \<open>\<open>joinDiscovered\<close>: it waits for the host with the session it captured.\<close>

definition joinDiscoveredStart :: "(jsstring \<Rightarrow> jsnum) \<Rightarrow> live_state \<Rightarrow> cached_live_session option" where
  "joinDiscoveredStart dateParse s = (if visibleState dateParse s = Some RActive then saved s else None)"

definition joinDiscoveredAnswer ::
  "(jsstring \<Rightarrow> jsnum) \<Rightarrow> rat \<Rightarrow> idb_outcome \<Rightarrow> jsstring \<Rightarrow> cached_live_session \<Rightarrow> live_session option \<Rightarrow> live_state \<Rightarrow> live_state" where
  "joinDiscoveredAnswer dateParse dateNow wr cacheKey captured resp s = (case resp of
      None \<Rightarrow> s
    | Some sess \<Rightarrow>
        storeLive wr cacheKey (Some (captured\<lparr>cl_session := sess, cl_joined := True,
          clockOffsetMs := clockOffset dateParse dateNow sess, cl_message := joinMessage\<rparr>)) s)"

record ack_task =
  at_sequence :: nat
  at_session :: jsstring
  at_revision :: rat

definition acknowledgeStart :: "(jsstring \<Rightarrow> jsnum) \<Rightarrow> bool \<Rightarrow> live_state \<Rightarrow> live_state \<times> ack_task option" where
  "acknowledgeStart dateParse isOnline s = (case saved s of
      None \<Rightarrow> (s, None)
    | Some c \<Rightarrow> (case current_task (cl_session c) of
          None \<Rightarrow> (s, None)
        | Some task \<Rightarrow>
            if \<not> cl_joined c \<or> \<not> isOnline \<or> visibleState dateParse s \<noteq> Some RActive then (s, None)
            else (s\<lparr>mutationSequence := mutationSequence s + 1\<rparr>,
                  Some \<lparr>at_sequence = mutationSequence s + 1, at_session = live_id (cl_session c), at_revision = task_revision task\<rparr>)))"

text \<open>With the acknowledgement of the host; a failure changes nothing here (after a conflict, discovery starts).\<close>

definition acknowledgeAnswer :: "idb_outcome \<Rightarrow> jsstring \<Rightarrow> ack_task \<Rightarrow> live_task_ack option \<Rightarrow> live_state \<Rightarrow> live_state" where
  "acknowledgeAnswer wr cacheKey t resp s = (case resp of
      None \<Rightarrow> s
    | Some ack \<Rightarrow>
        if at_sequence t \<noteq> mutationSequence s then s
        else (case saved s of
            None \<Rightarrow> s
          | Some c \<Rightarrow>
              if live_id (cl_session c) \<noteq> at_session t \<or> map_option task_revision (current_task (cl_session c)) \<noteq> Some (at_revision t) then s
              else
                (let next = c\<lparr>cl_session := (cl_session c)\<lparr>student_task_state := Some ack\<rparr>,
                       cl_message := (if ack_state ack = TaskCompleted then js ''Task marked complete.'' else cl_message c)\<rparr>
                 in cacheLive wr cacheKey (Some next) (s\<lparr>saved := Some next\<rparr>))))"

text \<open>\<open>submitResult\<close>: the request that is made, if one is, with the captured session.\<close>

definition submitStart ::
  "(jsstring \<Rightarrow> jsnum) \<Rightarrow> bool \<Rightarrow> idb_outcome \<Rightarrow> jsstring \<Rightarrow> jsnum option \<Rightarrow> jsnum \<Rightarrow> live_state \<Rightarrow>
    live_state \<times> (cached_live_session \<times> live_result_input) option" where
  "submitStart dateParse isOnline wr cacheKey score elapsedSeconds s = (case saved s of
      None \<Rightarrow> (s, None)
    | Some c \<Rightarrow>
        if attempted s \<or> visibleState dateParse s \<noteq> Some RActive then (s, None)
        else (case checkedLiveResult score elapsedSeconds (duration_minutes (cl_session c)) of
            None \<Rightarrow> (storeLive wr cacheKey (Some (c\<lparr>cl_state := RUnscored,
                  cl_message := js ''This activity did not produce an objective score, so no result was sent.''\<rparr>)) s, None)
          | Some r \<Rightarrow>
              if \<not> isOnline then (storeLive wr cacheKey (Some (c\<lparr>cl_state := RFailed,
                  cl_message := js ''Reconnect before the class timer ends to send this result.''\<rparr>)) s, None)
              else (storeLive wr cacheKey (Some (c\<lparr>cl_attempted := True, cl_state := RSubmitting,
                  cl_message := js ''Sending result'' @ [8230]\<rparr>)) s, Some (c, r))))"

definition submitAnswer :: "idb_outcome \<Rightarrow> jsstring \<Rightarrow> cached_live_session \<Rightarrow> live_result option \<Rightarrow> live_state \<Rightarrow> live_state" where
  "submitAnswer wr cacheKey captured resp s =
     storeLive wr cacheKey (Some (case resp of
        Some r \<Rightarrow> captured\<lparr>cl_attempted := True, cl_result := Some r, cl_state := RSubmitted, cl_message := js ''Result submitted to your teacher.''\<rparr>
      | None \<Rightarrow> captured\<lparr>cl_attempted := True, cl_result := None, cl_state := RFailed,
                  cl_message := js ''Cinder could not confirm that the result reached the Host.''\<rparr>)) s"

section \<open>Runs\<close>

text \<open>What the hook does on its own while the student keeps to one session: the clock, discoveries,
  acknowledgements and results, in any order and with any answers. A run remembers the results that wait for
  their answer and those that were sent.\<close>

record live_run =
  run_state :: live_state
  run_pending :: "cached_live_session list"
  run_sent :: "(jsstring \<times> live_result_input) list"

inductive liveStep :: "(jsstring \<Rightarrow> jsnum) \<Rightarrow> jsstring \<Rightarrow> live_run \<Rightarrow> live_run \<Rightarrow> bool" for dateParse cacheKey where
  tick: "liveStep dateParse cacheKey r (r\<lparr>run_state := (run_state r)\<lparr>live_now := n\<rparr>\<rparr>)"
| discover: "liveStep dateParse cacheKey r (r\<lparr>run_state := fst (discoverStart b (run_state r))\<rparr>)"
| discovered: "liveStep dateParse cacheKey r (r\<lparr>run_state := discoverAnswer dateParse cacheKey t (run_state r)\<rparr>)"
| acknowledge: "liveStep dateParse cacheKey r (r\<lparr>run_state := fst (acknowledgeStart dateParse b (run_state r))\<rparr>)"
| acknowledged: "liveStep dateParse cacheKey r (r\<lparr>run_state := acknowledgeAnswer oc cacheKey a x (run_state r)\<rparr>)"
| refused: "submitStart dateParse b oc cacheKey score elapsed (run_state r) = (s, None) \<Longrightarrow> liveStep dateParse cacheKey r (r\<lparr>run_state := s\<rparr>)"
| sent: "submitStart dateParse b oc cacheKey score elapsed (run_state r) = (s, Some (c, x)) \<Longrightarrow>
    liveStep dateParse cacheKey r (r\<lparr>run_state := s, run_pending := c # run_pending r, run_sent := (live_id (cl_session c), x) # run_sent r\<rparr>)"
| confirmed: "c \<in> set (run_pending r) \<Longrightarrow>
    liveStep dateParse cacheKey r (r\<lparr>run_state := submitAnswer oc cacheKey c x (run_state r), run_pending := removeAll c (run_pending r)\<rparr>)"

section \<open>Lemmas\<close>

lemma attempted_store [simp]:
  "attempted (storeLive oc k next s) = (case next of Some c \<Rightarrow> cl_attempted c | None \<Rightarrow> False)"
  "attempted (cacheLive oc k next s) = attempted s"
  "saved (storeLive oc k next s) = next" "saved (cacheLive oc k next s) = saved s"
  by (simp_all add: storeLive_def cacheLive_def)

lemma attempted_discover [simp]:
  "attempted (fst (discoverStart b s)) = attempted s" "attempted (discoverAnswer dateParse k t s) = attempted s"
  "attempted (fst (acknowledgeStart dateParse b s)) = attempted s" "attempted (acknowledgeAnswer oc k a x s) = attempted s"
  by (simp_all add: discoverStart_def discoverAnswer_def acknowledgeStart_def acknowledgeAnswer_def Let_def split: option.split)

lemma attempted_submitAnswer [simp]: "attempted (submitAnswer oc k c x s)"
  by (simp add: submitAnswer_def split: option.split)

lemma submitStart_cases:
  assumes "submitStart dateParse b oc k score elapsed s = (s', out)"
  obtains "out = None" "attempted s \<longrightarrow> attempted s'"
  | c x where "out = Some (c, x)" "saved s = Some c" "\<not> attempted s" "attempted s'" "b"
      "visibleState dateParse s = Some RActive" "checkedLiveResult score elapsed (duration_minutes (cl_session c)) = Some x"
  using assms unfolding submitStart_def by (auto split: option.splits if_splits)

text \<open>The invariant: at most one result has been sent, none while the flag is down.\<close>

definition sentOnce :: "live_run \<Rightarrow> bool" where
  "sentOnce r \<longleftrightarrow> (run_sent r = [] \<and> run_pending r = []) \<or>
     (attempted (run_state r) \<and> length (run_sent r) = 1 \<and> list_all (\<lambda>(i, x). 0 \<le> lr_score x \<and> lr_score x \<le> 100) (run_sent r))"

lemma sentOnce_state: "sentOnce r \<Longrightarrow> attempted (run_state r) \<longrightarrow> attempted s \<Longrightarrow> sentOnce (r\<lparr>run_state := s\<rparr>)"
  by (auto simp: sentOnce_def)

lemma checked_score: "checkedLiveResult score elapsed d = Some x \<Longrightarrow> 0 \<le> lr_score x \<and> lr_score x \<le> 100"
  by (auto simp: checkedLiveResult_def split: option.splits jsnum.splits if_splits)

lemma sentOnce_step: "liveStep dateParse k r r' \<Longrightarrow> sentOnce r \<Longrightarrow> sentOnce r'"
proof (induction rule: liveStep.induct)
  case (refused b oc score elapsed r s)
  from refused(1) have "attempted (run_state r) \<longrightarrow> attempted s" by (rule submitStart_cases) simp_all
  then show ?case using refused(2) sentOnce_state by blast
next
  case (sent b oc score elapsed r s c x)
  from sent(1) have "\<not> attempted (run_state r) \<and> attempted s \<and> 0 \<le> lr_score x \<and> lr_score x \<le> 100"
    by (rule submitStart_cases) (auto dest: checked_score)
  then show ?case using sent(2) by (auto simp: sentOnce_def)
next
  case (confirmed c r oc x)
  then show ?case by (auto simp: sentOnce_def)
qed (auto intro: sentOnce_state)

lemma revision_merge: "revisionOf (mergeSession dateParse c i) = max (revisionOf c) (revisionOf i)"
  by (auto simp: mergeSession_def revisionOf_def max_def split: option.splits)

lemma merge_fields: "live_id (mergeSession dateParse c i) = live_id i"
  by (auto simp: mergeSession_def split: option.splits)

section \<open>Properties\<close>


definition demoDate :: "jsstring \<Rightarrow> jsnum" where
  "demoDate s = (if s = [] then NaN else Fin (of_nat (length s) * 60000))"

definition demoTask :: "rat \<Rightarrow> live_task" where
  "demoTask n = \<lparr>task_id = js ''task'', task_revision = n, task_kind = InstructionTask, task_target_id = None,
     task_title = js ''Read'', task_instructions = [], task_created_at = js ''a''\<rparr>"

definition demoSession :: "jsstring \<Rightarrow> rat \<Rightarrow> live_session" where
  "demoSession i n = \<lparr>live_id = i, live_classroom_id = js ''room'', live_classroom_name = js ''8B'', live_module_id = js ''typing'',
     live_module_name = js ''Typing'', duration_minutes = 5, live_join_code = [], starts_at = js ''a'', ends_at = js ''abcdef'',
     ended_at = None, server_now = None, current_task = Some (demoTask n), student_task_state = None, student_joined = Some True\<rparr>"

definition demoDatabase :: "'v database" where
  "demoDatabase = \<lparr>cacheStore = None, outboxStore = None\<rparr>"

definition demoLive :: live_state where
  "demoLive = \<lparr>saved = Some (newLive demoDate 0 (demoSession (js ''one'') 1) True []), live_sessions = [], live_now = 60000,
     discoverySequence = 1, mutationSequence = 0, attempted = False, live_db = demoDatabase\<rparr>"

definition demoDiscovery :: "live_session list \<Rightarrow> discovery_task" where
  "demoDiscovery ss = \<lparr>dt_sequence = 1, dt_answer = Found ss, dt_now = 0, dt_write = Completes\<rparr>"

definition demoSubmit :: "live_state \<Rightarrow> live_state \<times> (cached_live_session \<times> live_result_input) option" where
  "demoSubmit = submitStart demoDate True Completes (js ''k'') (Some (Fin 80)) (Fin 30)"


text \<open>A discovery never takes back what the student's session has reached: when it leaves the same session on show, the
  task has the greater of the two revisions, an acknowledgement of the current task is kept unless the host sends one
  that is not older, and the result and its state stay.\<close>

theorem discovery_keeps_progress:
  assumes "saved s = Some c" "saved (discoverAnswer dateParse cacheKey t s) = Some c'"
    and "live_id (cl_session c') = live_id (cl_session c)"
  shows "revisionOf (cl_session c) \<le> revisionOf (cl_session c') \<and> cl_result c' = cl_result c \<and> cl_state c' = cl_state c \<and>
    cl_attempted c' = cl_attempted c \<and>
    (revisionOf (cl_session c') = revisionOf (cl_session c) \<longrightarrow>
      (case (student_task_state (cl_session c), student_task_state (cl_session c')) of
         (Some a, Some b) \<Rightarrow> a = b \<or> \<not> laterDate dateParse (ack_updated_at a) (ack_updated_at b)
       | (Some a, None) \<Rightarrow> False
       | _ \<Rightarrow> True))"
proof (cases "c' = c")
  case True
  then show ?thesis by (auto split: option.split)
next
  case False
  then obtain found chosen where f: "chooseSession (saved s) found = Some chosen" and n: "c' = nextLive dateParse (dt_now t) (saved s) chosen"
    using assms(1,2) unfolding discoverAnswer_def Let_def by (fastforce split: option.splits if_splits)
  then have "live_id chosen = live_id (cl_session c)"
    using assms(1,3) by (auto simp: nextLive_def newLive_def merge_fields split: if_splits)
  then have c': "cl_session c' = mergeSession dateParse (cl_session c) chosen" "cl_result c' = cl_result c" "cl_state c' = cl_state c"
      "cl_attempted c' = cl_attempted c"
    using n assms(1) by (simp_all add: nextLive_def)
  moreover have "revisionOf (cl_session c) \<le> revisionOf (cl_session c')" unfolding c'(1) revision_merge by simp
  moreover have "case (student_task_state (cl_session c), student_task_state (cl_session c')) of
         (Some a, Some b) \<Rightarrow> a = b \<or> \<not> laterDate dateParse (ack_updated_at a) (ack_updated_at b)
       | (Some a, None) \<Rightarrow> False
       | _ \<Rightarrow> True" if "revisionOf (cl_session c') = revisionOf (cl_session c)"
    using that unfolding c'(1) revision_merge by (auto simp: mergeSession_def max_def not_le split: option.splits if_splits)
  ultimately show ?thesis by blast
qed

theorem discovery_keeps_progress_witness:
  "let c = newLive demoDate 0 (demoSession (js ''one'') 1) True [];
       s' = discoverAnswer demoDate (js ''k'') (demoDiscovery [demoSession (js ''one'') 0, demoSession (js ''two'') 3]) demoLive
   in map_option (\<lambda>c'. (revisionOf (cl_session c'), live_id (cl_session c'))) (saved s') = Some (1, js ''one'')"
proof -
  let ?s = "discoverAnswer demoDate (js ''k'') (demoDiscovery [demoSession (js ''one'') 0, demoSession (js ''two'') 3]) demoLive"
  have e: "map_option (\<lambda>c'. live_id (cl_session c')) (saved ?s) = Some (js ''one'')"
    "map_option (\<lambda>c'. revisionOf (cl_session c') \<le> 1) (saved ?s) = Some True"
    "map_option (\<lambda>c. (live_id (cl_session c), revisionOf (cl_session c))) (saved demoLive) = Some (js ''one'', 1)" by code_simp+
  then obtain c c' where c: "saved demoLive = Some c" "saved ?s = Some c'" by blast
  with e have "live_id (cl_session c') = live_id (cl_session c)" by simp
  from discovery_keeps_progress [OF c this] show ?thesis using e c unfolding Let_def by simp
qed

text \<open>Two limits of the hook, both from the session an asynchronous function captured. A task the teacher publishes while
  a result is on its way is on show after the next discovery, and the answer to the result takes it back, because it
  stores the session as it was. And a session that discovery puts on show after another one inherits the flag
  \<open>attempted\<close>, which only \<open>store\<close> lowers: its own state says nothing was attempted, the student is in it and
  online, and the result of the new session is never sent.\<close>

theorem live_capture_limits:
  "(let s = fst (demoSubmit demoLive);
        s' = discoverAnswer demoDate (js ''k'') (demoDiscovery [demoSession (js ''one'') 2]) s;
        s'' = submitAnswer Completes (js ''k'') (newLive demoDate 0 (demoSession (js ''one'') 1) True []) None s'
    in map_option (\<lambda>c. revisionOf (cl_session c)) (saved s') = Some 2 \<and>
       map_option (\<lambda>c. revisionOf (cl_session c)) (saved s'') = Some 1) \<and>
   (let s = fst (demoSubmit demoLive);
        s' = discoverAnswer demoDate (js ''k'') (demoDiscovery [demoSession (js ''two'') 1]) s
    in map_option cl_attempted (saved s') = Some False \<and> map_option cl_joined (saved s') = Some True \<and>
       visibleState demoDate s' = Some RActive \<and> snd (demoSubmit s') = None \<and> fst (demoSubmit s') = s')"
proof -
  have "let s = fst (demoSubmit demoLive);
        s' = discoverAnswer demoDate (js ''k'') (demoDiscovery [demoSession (js ''one'') 2]) s;
        s'' = submitAnswer Completes (js ''k'') (newLive demoDate 0 (demoSession (js ''one'') 1) True []) None s'
    in map_option (\<lambda>c. revisionOf (cl_session c)) (saved s') = Some 2 \<and>
       map_option (\<lambda>c. revisionOf (cl_session c)) (saved s'') = Some 1" by code_simp
  moreover have "let s = fst (demoSubmit demoLive);
        s' = discoverAnswer demoDate (js ''k'') (demoDiscovery [demoSession (js ''two'') 1]) s
    in map_option cl_attempted (saved s') = Some False \<and> map_option cl_joined (saved s') = Some True \<and>
       visibleState demoDate s' = Some RActive \<and> snd (demoSubmit s') = None \<and> fst (demoSubmit s') = s'" by code_simp
  ultimately show ?thesis by blast
qed

end
