(* ===== verification/Forge_Data.thy ===== *)
theory Forge_Data
  imports Session_Store Host_Transport "HOL-Library.Multiset"
begin

text \<open>
  The student's own workspace (\<open>apps/forge/src/forgeData.ts\<close>): reading and migrating what earlier versions
  stored, the operations on notes, reference files, activity and widgets, and clearing the device.

  Items of the stored lists are records of the fields the code checks; the size of a file and the activity,
  which it does not check, stay JSON values. \<open>localStorage\<close> may refuse a write; whether it does is an argument, and so
  are the clock and new identifiers. \<open>dateParse\<close> reads a date (outside the ISO format it depends on the
  engine); \<open>otherSort\<close> is the order an engine gives a list whose comparison is not a number for some pair,
  which the language leaves open.
\<close>

section \<open>Data\<close>

datatype widget_id = TimerWidget | LibraryWidget | StudioWidget | ActivityWidget

record forge_note =
  fn_id :: jsstring
  fn_title :: jsstring
  fn_body :: jsstring
  fn_topic :: jsstring
  fn_createdAt :: jsstring

record reference_file =
  rf_id :: jsstring
  rf_name :: jsstring
  rf_size :: "json option"
  rf_addedAt :: jsstring

record studio_note =
  sn_id :: jsstring
  sn_title :: jsstring
  sn_topic :: jsstring
  bodyHtml :: jsstring
  sn_createdAt :: jsstring
  updatedAt :: jsstring
  deletedAt :: "jsstring option"

record forge_data =
  profileName :: jsstring
  legacyNotes :: "forge_note list"
  studioNotes :: "studio_note list"
  files :: "reference_file list"
  activities :: "json list"
  widgets :: "widget_id list"
  notesMigratedAt :: "json option"

definition LEGACY_STORAGE_KEY :: jsstring where
  "LEGACY_STORAGE_KEY = js ''cinder.forge.workspace.v1''"

definition MIGRATION_OWNER_KEY :: jsstring where
  "MIGRATION_OWNER_KEY = js ''cinder.matchbox.workspace.migration-owner''"

definition documentKeyPrefix :: "jsstring \<Rightarrow> jsstring" where
  "documentKeyPrefix accountId = js ''cinder.matchbox.'' @ accountId @ js ''.document.''"

definition workspaceStorageKey :: "jsstring \<Rightarrow> jsstring" where
  "workspaceStorageKey accountId = js ''cinder.matchbox.'' @ accountId @ js ''.workspace.v1''"

definition ALL_WIDGETS :: "widget_id list" where
  "ALL_WIDGETS = [TimerWidget, LibraryWidget, StudioWidget, ActivityWidget]"

definition EMPTY_DATA :: forge_data where
  "EMPTY_DATA = \<lparr>profileName = [], legacyNotes = [], studioNotes = [], files = [], activities = [], widgets = ALL_WIDGETS, notesMigratedAt = None\<rparr>"

section \<open>Text to HTML\<close>

fun escapeHtml :: "jsstring \<Rightarrow> jsstring" where
  "escapeHtml [] = []"
| "escapeHtml (c # s) =
     (if c = 38 then js ''&amp;'' else if c = 60 then js ''&lt;'' else if c = 62 then js ''&gt;'' else [c]) @ escapeHtml s"

text \<open>\<open>replace(/\r\n?/g, "\n")\<close>.\<close>

fun unixLines :: "jsstring \<Rightarrow> jsstring" where
  "unixLines [] = []"
| "unixLines [c] = (if c = 13 then [10] else [c])"
| "unixLines (c # d # s) = (if c = 13 then 10 # unixLines (if d = 10 then s else d # s) else c # unixLines (d # s))"

definition textToHtml :: "jsstring \<Rightarrow> jsstring" where
  "textToHtml text =
     concat (map (\<lambda>line. js ''<p>'' @ orElse line (js ''<br>'') @ js ''</p>'') (splitOn 10 (unixLines (escapeHtml text))))"

section \<open>Reading a stored workspace\<close>

definition timeOf :: "(jsstring \<Rightarrow> jsnum) \<Rightarrow> jsstring \<Rightarrow> rat" where
  "timeOf dateParse s = (case dateParse s of Fin q \<Rightarrow> q | _ \<Rightarrow> 0)"

definition latestFirst :: "(jsstring \<Rightarrow> jsnum) \<Rightarrow> (studio_note list \<Rightarrow> studio_note list) \<Rightarrow> studio_note list \<Rightarrow> studio_note list" where
  "latestFirst dateParse otherSort ns =
     (if \<forall>n \<in> set ns. isFinite (dateParse (updatedAt n)) then sort_key (\<lambda>n. - timeOf dateParse (updatedAt n)) ns else otherSort ns)"

definition fromLegacy :: "forge_note \<Rightarrow> studio_note" where
  "fromLegacy n =
     \<lparr>sn_id = fn_id n, sn_title = orElse (fn_title n) (js ''Untitled note''), sn_topic = fn_topic n, bodyHtml = textToHtml (fn_body n),
      sn_createdAt = fn_createdAt n, updatedAt = fn_createdAt n, deletedAt = None\<rparr>"

text \<open>The filter adds each note it keeps to the set of identifiers it has seen.\<close>

fun freshNotes :: "jsstring list \<Rightarrow> forge_note list \<Rightarrow> forge_note list" where
  "freshNotes seen [] = []"
| "freshNotes seen (n # ns) = (if fn_id n \<in> set seen then freshNotes seen ns else n # freshNotes (fn_id n # seen) ns)"

definition migrateNotes ::
  "(jsstring \<Rightarrow> jsnum) \<Rightarrow> (studio_note list \<Rightarrow> studio_note list) \<Rightarrow> forge_note list \<Rightarrow> studio_note list \<Rightarrow> studio_note list" where
  "migrateNotes dateParse otherSort ns stored =
     latestFirst dateParse otherSort (stored @ map fromLegacy (freshNotes (map sn_id stored) ns))"

definition strField :: "json \<Rightarrow> string \<Rightarrow> jsstring option" where
  "strField v k = (case field v k of Some (JStr s) \<Rightarrow> Some s | _ \<Rightarrow> None)"

definition asForgeNote :: "json \<Rightarrow> forge_note option" where
  "asForgeNote v = (case (strField v ''id'', strField v ''title'', strField v ''body'', strField v ''topic'', strField v ''createdAt'') of
      (Some i, Some t, Some b, Some tp, Some c) \<Rightarrow> Some \<lparr>fn_id = i, fn_title = t, fn_body = b, fn_topic = tp, fn_createdAt = c\<rparr>
    | _ \<Rightarrow> None)"

definition asStudioNote :: "json \<Rightarrow> studio_note option" where
  "asStudioNote v = (case (strField v ''id'', strField v ''title'', strField v ''bodyHtml'', strField v ''topic'', strField v ''createdAt'', strField v ''updatedAt'') of
      (Some i, Some t, Some b, Some tp, Some c, Some u) \<Rightarrow>
        Some \<lparr>sn_id = i, sn_title = t, sn_topic = tp, bodyHtml = b, sn_createdAt = c, updatedAt = u, deletedAt = strField v ''deletedAt''\<rparr>
    | _ \<Rightarrow> None)"

definition asReferenceFile :: "json \<Rightarrow> reference_file option" where
  "asReferenceFile v = (case (strField v ''id'', strField v ''name'', strField v ''addedAt'') of
      (Some i, Some n, Some a) \<Rightarrow> Some \<lparr>rf_id = i, rf_name = n, rf_size = field v ''size'', rf_addedAt = a\<rparr>
    | _ \<Rightarrow> None)"

fun truthyJson :: "json \<Rightarrow> bool" where
  "truthyJson JNull = False"
| "truthyJson (JBool b) = b"
| "truthyJson (JNum q) = (q \<noteq> 0)"
| "truthyJson (JStr s) = (s \<noteq> [])"
| "truthyJson _ = True"

fun allSome :: "'a option list \<Rightarrow> 'a list option" where
  "allSome [] = Some []"
| "allSome (x # xs) = (case (x, allSome xs) of (Some y, Some ys) \<Rightarrow> Some (y # ys) | _ \<Rightarrow> None)"

text \<open>A list of records: absent is empty, anything else must be an array of records with the required strings.\<close>

definition recordList :: "(json \<Rightarrow> 'a option) \<Rightarrow> json option \<Rightarrow> 'a list option" where
  "recordList conv v = (case v of None \<Rightarrow> Some [] | Some (JArr vs) \<Rightarrow> allSome (map conv vs) | _ \<Rightarrow> None)"

definition widgetOf :: "json \<Rightarrow> widget_id option" where
  "widgetOf v = (case v of
      JStr s \<Rightarrow> if s = js ''timer'' \<or> s = js ''focus'' then Some TimerWidget else if s = js ''library'' then Some LibraryWidget
        else if s = js ''studio'' then Some StudioWidget else if s = js ''activity'' then Some ActivityWidget else None
    | _ \<Rightarrow> None)"

text \<open>The elements at their first index.\<close>

definition firsts :: "'a list \<Rightarrow> 'a list" where
  "firsts xs = rev (remdups (rev xs))"

definition readWidgets :: "json option \<Rightarrow> widget_id list" where
  "readWidgets v =
     (let ws = (case v of Some (JArr vs) \<Rightarrow> firsts (List.map_filter widgetOf vs) | _ \<Rightarrow> ALL_WIDGETS)
      in if ws = [] then ALL_WIDGETS else ws)"

text \<open>\<open>None\<close> is the error that the workspace could not be read. The version, if present, must be 1.\<close>

definition decodeWorkspace ::
  "(jsstring \<Rightarrow> jsnum) \<Rightarrow> (studio_note list \<Rightarrow> studio_note list) \<Rightarrow> json_parser \<Rightarrow> jsstring \<Rightarrow> jsstring option \<Rightarrow> forge_data option" where
  "decodeWorkspace dateParse otherSort parse now raw = (case raw of
      None \<Rightarrow> Some EMPTY_DATA
    | Some [] \<Rightarrow> Some EMPTY_DATA
    | Some r \<Rightarrow> (case parse r of
          Inr (JObj fs) \<Rightarrow>
            (let v = JObj fs in
             if field v ''version'' \<noteq> None \<and> field v ''version'' \<noteq> Some (JNum 1) then None
             else (case (recordList asForgeNote (field v ''notes''), recordList asStudioNote (field v ''studioNotes''),
                         recordList asReferenceFile (field v ''files'')) of
                 (Some ns, Some stored, Some fs) \<Rightarrow>
                   (let marked = (case field v ''notesMigratedAt'' of Some m \<Rightarrow> truthyJson m | None \<Rightarrow> False);
                        pending = ns \<noteq> [] \<and> \<not> marked
                    in Some \<lparr>profileName = (case strField v ''profileName'' of Some p \<Rightarrow> p | None \<Rightarrow> []),
                         legacyNotes = ns,
                         studioNotes = (if pending then migrateNotes dateParse otherSort ns stored else stored),
                         files = fs,
                         activities = (case field v ''activity'' of Some (JArr as) \<Rightarrow> as | _ \<Rightarrow> []),
                         widgets = readWidgets (field v ''widgets''),
                         notesMigratedAt = (if marked then field v ''notesMigratedAt'' else if pending then Some (JStr now) else None)\<rparr>)
               | _ \<Rightarrow> None))
        | _ \<Rightarrow> None))"

section \<open>The workspace of an account\<close>

text \<open>\<open>w\<close> and \<open>w'\<close> tell whether the two writes succeed; a write that throws ends the function (\<open>None\<close>) and
  what was written before stays.\<close>

definition initialWorkspace ::
  "(jsstring \<Rightarrow> jsnum) \<Rightarrow> (studio_note list \<Rightarrow> studio_note list) \<Rightarrow> json_parser \<Rightarrow> jsstring \<Rightarrow> bool \<Rightarrow> bool \<Rightarrow>
    jsstring \<Rightarrow> jsstring \<Rightarrow> local_storage \<Rightarrow> forge_data option \<times> local_storage" where
  "initialWorkspace dateParse otherSort parse now w w' accountId name st =
     (let scopedKey = workspaceStorageKey accountId;
          finish = (\<lambda>raw st. (map_option (\<lambda>d. if profileName d \<noteq> [] \<or> name = [] then d else d\<lparr>profileName := name\<rparr>)
                       (decodeWorkspace dateParse otherSort parse now raw), st))
      in case getItem st scopedKey of
           Some (c # r) \<Rightarrow> finish (Some (c # r)) st
         | raw \<Rightarrow>
             (case getItem st LEGACY_STORAGE_KEY of
                Some (c # legacy) \<Rightarrow>
                  if (case getItem st MIGRATION_OWNER_KEY of Some (d # owner) \<Rightarrow> d # owner = accountId | _ \<Rightarrow> True)
                  then
                    (if \<not> w then (None, st)
                     else if \<not> w' then (None, setItem MIGRATION_OWNER_KEY accountId st)
                     else finish (Some (c # legacy)) (setItem scopedKey (c # legacy) (setItem MIGRATION_OWNER_KEY accountId st)))
                  else finish raw st
              | _ \<Rightarrow> finish raw st))"

text \<open>The state of \<open>useForgeData\<close>: \<open>readError\<close> is set when the stored workspace could not be read.\<close>

record forge_state =
  fs_data :: forge_data
  readError :: bool
  saveError :: bool
  fs_store :: local_storage

definition openWorkspace ::
  "(jsstring \<Rightarrow> jsnum) \<Rightarrow> (studio_note list \<Rightarrow> studio_note list) \<Rightarrow> json_parser \<Rightarrow> jsstring \<Rightarrow> bool \<Rightarrow> bool \<Rightarrow>
    jsstring \<Rightarrow> jsstring \<Rightarrow> local_storage \<Rightarrow> forge_state" where
  "openWorkspace dateParse otherSort parse now w w' accountId name st =
     (case initialWorkspace dateParse otherSort parse now w w' accountId name st of
        (Some d, st) \<Rightarrow> \<lparr>fs_data = d, readError = False, saveError = False, fs_store = st\<rparr>
      | (None, st) \<Rightarrow> \<lparr>fs_data = EMPTY_DATA, readError = True, saveError = False, fs_store = st\<rparr>)"

text \<open>The effect that saves after each change; \<open>JSON.stringify\<close> is a parameter.\<close>

definition saveWorkspace :: "(forge_data \<Rightarrow> jsstring) \<Rightarrow> bool \<Rightarrow> jsstring \<Rightarrow> forge_state \<Rightarrow> forge_state" where
  "saveWorkspace stringify w accountId s =
     (if readError s then s\<lparr>saveError := True\<rparr>
      else if w then s\<lparr>fs_store := setItem (workspaceStorageKey accountId) (stringify (fs_data s)) (fs_store s), saveError := False\<rparr>
      else s\<lparr>saveError := True\<rparr>)"

section \<open>Operations\<close>

definition activity :: "jsstring \<Rightarrow> jsstring \<Rightarrow> jsstring \<Rightarrow> jsstring \<Rightarrow> json" where
  "activity i now label detail = JObj [(js ''id'', JStr i), (js ''label'', JStr label), (js ''detail'', JStr detail), (js ''createdAt'', JStr now)]"

definition addActivity :: "json \<Rightarrow> forge_data \<Rightarrow> forge_data" where
  "addActivity a d = d\<lparr>activities := sliceTo 100 (a # activities d)\<rparr>"

definition quotedLabel :: "string \<Rightarrow> jsstring \<Rightarrow> jsstring" where
  "quotedLabel verb s = js verb @ [32, 8220] @ s @ [8221]"

definition setProfileName :: "jsstring \<Rightarrow> jsstring \<Rightarrow> jsstring \<Rightarrow> forge_data \<Rightarrow> forge_data" where
  "setProfileName i now name d =
     (let clean = sliceTo 80 (trim name);
          d' = d\<lparr>profileName := clean\<rparr>
      in if clean \<noteq> [] \<and> clean \<noteq> profileName d
         then addActivity (activity i now (js ''Profile updated'') (js ''Name saved on this device'')) d' else d')"

definition addReferenceFile :: "jsstring \<Rightarrow> jsstring \<Rightarrow> jsstring \<Rightarrow> jsstring \<Rightarrow> rat \<Rightarrow> forge_data \<Rightarrow> forge_data" where
  "addReferenceFile i now fileId name size' d =
     (let file = \<lparr>rf_id = fileId, rf_name = sliceTo 160 (trim name), rf_size = Some (JNum size'), rf_addedAt = now\<rparr>
      in addActivity (activity i now (quotedLabel ''Added'' (rf_name file)) (js ''Reference file'')) (d\<lparr>files := file # files d\<rparr>))"

definition removeReferenceFile :: "jsstring \<Rightarrow> forge_data \<Rightarrow> forge_data" where
  "removeReferenceFile i d = d\<lparr>files := filter (\<lambda>f. rf_id f \<noteq> i) (files d)\<rparr>"

definition addStudioNote :: "jsstring \<Rightarrow> jsstring \<Rightarrow> jsstring \<Rightarrow> jsstring \<Rightarrow> jsstring \<Rightarrow> jsstring \<Rightarrow> forge_data \<Rightarrow> forge_data" where
  "addStudioNote i i' now name tpc html d =
     (let note = \<lparr>sn_id = i, sn_title = orElse (trim name) (js ''Untitled note''), sn_topic = trim tpc, bodyHtml = html,
                  sn_createdAt = now, updatedAt = now, deletedAt = None\<rparr>
      in addActivity (activity i' now (quotedLabel ''Started'' (sn_title note)) (js ''Studio note'')) (d\<lparr>studioNotes := note # studioNotes d\<rparr>))"

definition onNote :: "jsstring \<Rightarrow> (studio_note \<Rightarrow> studio_note) \<Rightarrow> forge_data \<Rightarrow> forge_data" where
  "onNote i f d = d\<lparr>studioNotes := map (\<lambda>n. if sn_id n = i then f n else n) (studioNotes d)\<rparr>"

definition updateStudioNote :: "jsstring \<Rightarrow> jsstring \<Rightarrow> jsstring \<Rightarrow> jsstring \<Rightarrow> jsstring \<Rightarrow> forge_data \<Rightarrow> forge_data" where
  "updateStudioNote i now name tpc html =
     onNote i (\<lambda>n. n\<lparr>sn_title := orElse (trim name) (js ''Untitled note''), sn_topic := trim tpc, bodyHtml := html, updatedAt := now\<rparr>)"

definition removeStudioNote :: "jsstring \<Rightarrow> jsstring \<Rightarrow> forge_data \<Rightarrow> forge_data" where
  "removeStudioNote i now = onNote i (\<lambda>n. n\<lparr>deletedAt := Some now\<rparr>)"

definition restoreStudioNote :: "jsstring \<Rightarrow> forge_data \<Rightarrow> forge_data" where
  "restoreStudioNote i = onNote i (\<lambda>n. n\<lparr>deletedAt := None\<rparr>)"

definition setWidgets :: "widget_id list \<Rightarrow> forge_data \<Rightarrow> forge_data" where
  "setWidgets ws d = d\<lparr>widgets := (if firsts ws = [] then [TimerWidget] else firsts ws)\<rparr>"

text \<open>\<open>cleared\<close> tells whether the removals go through, \<open>w\<close> whether the last write does.\<close>

definition resetForge :: "(forge_data \<Rightarrow> jsstring) \<Rightarrow> bool \<Rightarrow> bool \<Rightarrow> jsstring \<Rightarrow> forge_state \<Rightarrow> bool \<times> forge_state" where
  "resetForge stringify cleared w accountId s =
     (if \<not> cleared then (False, s\<lparr>saveError := True\<rparr>)
      else
        (let stale = filter (\<lambda>k. startsWith k (documentKeyPrefix accountId)) (storeKeys (fs_store s));
             st = fold removeItem stale (fs_store s)
         in if \<not> w then (False, s\<lparr>fs_store := st, saveError := True\<rparr>)
            else (True, s\<lparr>fs_store := setItem (workspaceStorageKey accountId) (stringify EMPTY_DATA) st, readError := False, fs_data := EMPTY_DATA\<rparr>)))"

text \<open>The age of a date, from the difference to it in milliseconds.\<close>

definition relativeTime :: "rat \<Rightarrow> rat \<Rightarrow> jsstring" where
  "relativeTime nowMs thenMs =
     (let minutes = \<lfloor>max 0 (nowMs - thenMs) / 60000\<rfloor> in
      if minutes < 1 then js ''Just now''
      else if minutes < 60 then showInt minutes @ js ''m ago''
      else
        (let hours = minutes div 60 in
         if hours < 24 then showInt hours @ js ''h ago''
         else (let days = hours div 24 in if days = 1 then js ''Yesterday'' else showInt days @ js ''d ago'')))"

section \<open>Reading HTML back\<close>

text \<open>What the text of the paragraphs is, to a reader that knows the three entities and the tags in use.\<close>

function unescapeHtml :: "jsstring \<Rightarrow> jsstring" where
  "unescapeHtml s = (case s of
      [] \<Rightarrow> []
    | c # r \<Rightarrow>
        if startsWith s (js ''&amp;'') then 38 # unescapeHtml (drop 5 s)
        else if startsWith s (js ''&lt;'') then 60 # unescapeHtml (drop 4 s)
        else if startsWith s (js ''&gt;'') then 62 # unescapeHtml (drop 4 s)
        else c # unescapeHtml r)"
  by pat_completeness auto
termination by (relation "measure length") (auto simp: js_def)

lemma dropWhile_drop_shorter: "s \<noteq> [] \<Longrightarrow> length (dropWhile P (drop 3 s)) - k < length s"
  using length_dropWhile_le [of P "drop 3 s"] by (cases s) (auto simp: less_Suc_eq_le)

function readParagraphs :: "jsstring \<Rightarrow> jsstring list option" where
  "readParagraphs s =
     (if s = [] then Some []
      else if \<not> startsWith s (js ''<p>'') then None
      else
        (let r = drop 3 s; body = takeWhile (\<lambda>c. c \<noteq> 60) r; rest = dropWhile (\<lambda>c. c \<noteq> 60) r in
         if startsWith rest (js ''</p>'') then map_option ((#) (unescapeHtml body)) (readParagraphs (drop 4 rest))
         else if body = [] \<and> startsWith rest (js ''<br></p>'') then map_option ((#) []) (readParagraphs (drop 8 rest))
         else None))"
  by pat_completeness auto
termination by (relation "measure length") (auto intro: dropWhile_drop_shorter)

declare unescapeHtml.simps [simp del] readParagraphs.simps [simp del]

lemma unescape_step [simp]:
  "unescapeHtml [] = []"
  "unescapeHtml (js ''&amp;'' @ s) = 38 # unescapeHtml s" "unescapeHtml (js ''&lt;'' @ s) = 60 # unescapeHtml s"
  "unescapeHtml (js ''&gt;'' @ s) = 62 # unescapeHtml s" "c \<noteq> 38 \<Longrightarrow> unescapeHtml (c # s) = c # unescapeHtml s"
  by (subst unescapeHtml.simps; simp add: js_def startsWith_def)+

lemma unescape_escape: "unescapeHtml (escapeHtml s) = s"
  by (induction s) auto

lemma escape_append [simp]: "escapeHtml (s @ t) = escapeHtml s @ escapeHtml t"
  by (induction s) auto

lemma escape_no_tag: "60 \<notin> set (escapeHtml s)"
  by (induction s) (auto simp: js_def)

lemma escape_empty [simp]: "escapeHtml s = [] \<longleftrightarrow> s = []"
  by (cases s) (auto simp: js_def)

lemma unixLines_plain: "\<forall>c \<in> set s. c \<noteq> 13 \<Longrightarrow> unixLines (s @ t) = s @ unixLines t"
proof (induction s)
  case (Cons c s)
  then show ?case by (cases "s @ t") auto
qed simp

lemma unixLines_other: "c \<noteq> 13 \<Longrightarrow> unixLines (c # s) = c # unixLines s"
  using unixLines_plain [of "[c]" s] by simp

lemma unixLines_cr: "unixLines (13 # s) = 10 # unixLines (case s of d # r \<Rightarrow> if d = 10 then r else s | [] \<Rightarrow> [])"
  by (cases s) auto

lemma escape_case: "(case escapeHtml s of d # r \<Rightarrow> if d = 10 then r else escapeHtml s | [] \<Rightarrow> []) =
    escapeHtml (case s of d # r \<Rightarrow> if d = 10 then r else s | [] \<Rightarrow> [])"
  by (cases s) (auto simp: js_def)

lemma unixLines_escape: "unixLines (escapeHtml s) = escapeHtml (unixLines s)"
proof (induction "length s" arbitrary: s rule: less_induct)
  case less
  show ?case
  proof (cases s)
    case (Cons c r)
    show ?thesis
    proof (cases "c = 13")
      case True
      define u where "u = (case r of d # r' \<Rightarrow> if d = 10 then r' else r | [] \<Rightarrow> [])"
      have "length u < length s" unfolding u_def Cons by (auto split: list.splits)
      from less [OF this] show ?thesis unfolding Cons True by (simp add: unixLines_cr escape_case u_def)
    next
      case False
      have "unixLines (escapeHtml r) = escapeHtml (unixLines r)" using less [of r] Cons by simp
      then show ?thesis unfolding Cons using False
        by (auto simp: unixLines_other unixLines_plain [of "js ''&amp;''"] unixLines_plain [of "js ''&lt;''"] unixLines_plain [of "js ''&gt;''"] js_def)
    qed
  qed simp
qed

lemma splitOn_prefix: "d \<notin> set s \<Longrightarrow> splitOn d (s @ t) = (s @ hd (splitOn d t)) # tl (splitOn d t)"
proof (induction s)
  case Nil
  show ?case by (cases "splitOn d t") auto
next
  case (Cons c s)
  then show ?case by (auto split: list.splits)
qed

lemma splitOn_escape: "splitOn 10 (escapeHtml s) = map escapeHtml (splitOn 10 s)"
proof (induction s)
  case (Cons c s)
  obtain w ws where w: "splitOn 10 s = w # ws" by (cases "splitOn 10 s") auto
  show ?case
  proof (cases "c = 10")
    case False
    have "10 \<notin> set (escapeHtml [c])" using False by (simp add: js_def)
    then have "splitOn 10 (escapeHtml [c] @ escapeHtml s) = (escapeHtml [c] @ escapeHtml w) # map escapeHtml ws"
      using splitOn_prefix [of 10 "escapeHtml [c]" "escapeHtml s"] Cons w by simp
    then show ?thesis using False w by (simp flip: escape_append del: escapeHtml.simps(2))
  qed (use Cons in simp)
qed simp

lemma readParagraphs_step:
  "readParagraphs (js ''<p>'' @ orElse (escapeHtml s) (js ''<br>'') @ js ''</p>'' @ rest) = map_option ((#) s) (readParagraphs rest)"
proof (cases "s = []")
  case True
  then show ?thesis by (subst readParagraphs.simps) (simp add: js_def orElse_def startsWith_def Let_def)
next
  case False
  have "takeWhile (\<lambda>c. c \<noteq> 60) (escapeHtml s @ js ''</p>'' @ rest) = escapeHtml s" "dropWhile (\<lambda>c. c \<noteq> 60) (escapeHtml s @ js ''</p>'' @ rest) = js ''</p>'' @ rest"
    using escape_no_tag [of s] by (auto simp: takeWhile_append dropWhile_append js_def)
  then show ?thesis using False by (subst readParagraphs.simps) (simp add: orElse_def Let_def unescape_escape, simp add: js_def startsWith_def unescape_escape)
qed

lemma readParagraphs_concat:
  "readParagraphs (concat (map (\<lambda>line. js ''<p>'' @ orElse line (js ''<br>'') @ js ''</p>'') (map escapeHtml ls))) = Some ls"
proof (induction ls)
  case Nil
  show ?case by (subst readParagraphs.simps) simp
next
  case (Cons l ls)
  then show ?case using readParagraphs_step [of l] by simp
qed

section \<open>Lemmas on notes\<close>

lemma freshNotes_ids: "set (map fn_id (freshNotes seen ns)) = set (map fn_id ns) - set seen"
  by (induction ns arbitrary: seen) auto

lemma freshNotes_distinct: "distinct (map fn_id (freshNotes seen ns))"
proof (induction ns arbitrary: seen)
  case (Cons n ns)
  then show ?case using freshNotes_ids [of "fn_id n # seen" ns] by auto
qed simp

lemma freshNotes_subset: "set (freshNotes seen ns) \<subseteq> set ns"
  by (induction ns arbitrary: seen) auto

lemma freshNotes_known: "fn_id ` set ns \<subseteq> set seen \<Longrightarrow> freshNotes seen ns = []"
  by (induction ns) auto

lemma fromLegacy_fields [simp]: "sn_id (fromLegacy n) = fn_id n" "updatedAt (fromLegacy n) = fn_createdAt n" "deletedAt (fromLegacy n) = None"
  by (simp_all add: fromLegacy_def)

lemma firsts_distinct [simp]: "distinct (firsts xs)" "set (firsts xs) = set xs"
  by (simp_all add: firsts_def)

lemma readWidgets_wf: "readWidgets v \<noteq> [] \<and> distinct (readWidgets v)"
  by (auto simp: readWidgets_def Let_def ALL_WIDGETS_def split: option.split json.split)

lemma migrateNotes_finite:
  assumes "\<forall>n \<in> set stored. isFinite (dateParse (updatedAt n))" "\<forall>n \<in> set ns. isFinite (dateParse (fn_createdAt n))"
  shows "migrateNotes dateParse otherSort ns stored =
    sort_key (\<lambda>n. - timeOf dateParse (updatedAt n)) (stored @ map fromLegacy (freshNotes (map sn_id stored) ns))"
proof -
  have "\<forall>n \<in> set (stored @ map fromLegacy (freshNotes (map sn_id stored) ns)). isFinite (dateParse (updatedAt n))"
    using assms freshNotes_subset [of "map sn_id stored" ns] by auto
  then show ?thesis unfolding migrateNotes_def latestFirst_def by (rule if_P)
qed

lemma migrateNotes_again:
  assumes "\<forall>n \<in> set m. isFinite (dateParse (updatedAt n))" "\<forall>n \<in> set ns. isFinite (dateParse (fn_createdAt n))"
    and "fn_id ` set ns \<subseteq> sn_id ` set m" "sorted (map (\<lambda>n. - timeOf dateParse (updatedAt n)) m)"
  shows "migrateNotes dateParse otherSort ns m = m"
proof -
  have "freshNotes (map sn_id m) ns = []" using assms(3) by (intro freshNotes_known) simp
  then show ?thesis unfolding migrateNotes_finite [OF assms(1,2)] using assms(4) by (simp add: sort_key_id_if_sorted)
qed

section \<open>Lemmas on keys\<close>

lemma key_apart:
  "workspaceStorageKey a = workspaceStorageKey b \<longleftrightarrow> a = b"
  "workspaceStorageKey a \<noteq> LEGACY_STORAGE_KEY" "workspaceStorageKey a \<noteq> MIGRATION_OWNER_KEY" "LEGACY_STORAGE_KEY \<noteq> MIGRATION_OWNER_KEY"
proof -
  have "last (workspaceStorageKey a) = 49" "last MIGRATION_OWNER_KEY = 114"
    by (simp_all add: workspaceStorageKey_def MIGRATION_OWNER_KEY_def js_def)
  then show "workspaceStorageKey a \<noteq> MIGRATION_OWNER_KEY" by auto
qed (simp_all add: workspaceStorageKey_def LEGACY_STORAGE_KEY_def MIGRATION_OWNER_KEY_def js_def)

text \<open>An account whose own key is empty and that may not take the old workspace starts without it.\<close>

lemma initialWorkspace_scoped:
  assumes "getItem st MIGRATION_OWNER_KEY = Some owner" "owner \<noteq> []" "owner \<noteq> b"
  shows "initialWorkspace dateParse otherSort parse now w w' b name st =
    (fst (initialWorkspace dateParse otherSort parse now w w' b name (removeItem LEGACY_STORAGE_KEY st)), st)"
proof -
  obtain c r where o: "owner = c # r" using assms(2) by (cases owner) auto
  show ?thesis using assms(1,3) unfolding o initialWorkspace_def
    by (auto simp: Let_def ls.get_remove key_apart split: option.splits list.splits)
qed

lemma getItem_resetKeys:
  "getItem (fold removeItem (filter P (storeKeys st)) st) k = (if P k then None else getItem st k)"
  using getItem_keys [of st k] by (auto simp: ls.get_remove_all)

section \<open>Properties\<close>

text \<open>A note's plain text survives its conversion to HTML, whatever markup it contains: reading the paragraphs back gives
  exactly the lines of the text, with its line ends unified.\<close>

theorem text_to_html_roundtrip: "readParagraphs (textToHtml text) = Some (splitOn 10 (unixLines text))"
  unfolding textToHtml_def unixLines_escape splitOn_escape by (rule readParagraphs_concat)


definition demoDates :: "jsstring \<Rightarrow> jsnum" where
  "demoDates s = Fin (of_nat (length s))"

definition demoNote :: "jsstring \<Rightarrow> jsstring \<Rightarrow> forge_note" where
  "demoNote i created = \<lparr>fn_id = i, fn_title = [], fn_body = js ''a<b'', fn_topic = [], fn_createdAt = created\<rparr>"


text \<open>The workspace that an older version left on the device without an account goes to the first account that opens the
  app and to no other: that account finds it copied under its own key, and every other account then starts as if
  the old workspace did not exist.\<close>

theorem legacy_workspace_has_one_owner:
  assumes "getItem st (workspaceStorageKey a) = None" "getItem st LEGACY_STORAGE_KEY = Some legacy" "legacy \<noteq> []"
    and "getItem st MIGRATION_OWNER_KEY = None" "a \<noteq> []" "b \<noteq> a"
  shows "let st' = snd (initialWorkspace dateParse otherSort parse now True True a name st) in
    getItem st' (workspaceStorageKey a) = Some legacy \<and>
    fst (initialWorkspace dateParse otherSort parse now w w' b name' st') =
      fst (initialWorkspace dateParse otherSort parse now w w' b name' (removeItem LEGACY_STORAGE_KEY st))"
proof -
  obtain c l where l: "legacy = c # l" using assms(3) by (cases legacy) auto
  define st' where "st' = setItem (workspaceStorageKey a) legacy (setItem MIGRATION_OWNER_KEY a st)"
  have s: "snd (initialWorkspace dateParse otherSort parse now True True a name st) = st'"
    using assms(1,2,4) unfolding l st'_def initialWorkspace_def by (simp add: Let_def)
  have g: "getItem st' MIGRATION_OWNER_KEY = Some a" "getItem st' (workspaceStorageKey a) = Some legacy"
    "getItem (removeItem LEGACY_STORAGE_KEY st') (workspaceStorageKey b) = getItem (removeItem LEGACY_STORAGE_KEY st) (workspaceStorageKey b)"
    "getItem (removeItem LEGACY_STORAGE_KEY st') LEGACY_STORAGE_KEY = None" "getItem (removeItem LEGACY_STORAGE_KEY st) LEGACY_STORAGE_KEY = None"
    using assms(6) unfolding st'_def by (simp_all add: ls.get_put ls.get_remove key_apart not_sym [OF key_apart(3)])
  have "fst (initialWorkspace dateParse otherSort parse now w w' b name' st') =
      fst (initialWorkspace dateParse otherSort parse now w w' b name' (removeItem LEGACY_STORAGE_KEY st'))"
    using initialWorkspace_scoped [OF g(1) assms(5) not_sym [OF assms(6)]] by (metis fst_conv)
  also have "\<dots> = fst (initialWorkspace dateParse otherSort parse now w w' b name' (removeItem LEGACY_STORAGE_KEY st))"
    by (simp add: initialWorkspace_def Let_def g(3,4,5) split: option.split list.split)
  finally show ?thesis using g(2) unfolding Let_def s by blast
qed

theorem legacy_workspace_has_one_owner_witness:
  "let st = [(LEGACY_STORAGE_KEY, js ''old'')];
       parse = (\<lambda>_. Inr (JObj [(js ''profileName'', JStr (js ''Asha''))]));
       r = initialWorkspace demoDates id parse [] True True (js ''u1'') [] st;
       r' = initialWorkspace demoDates id parse [] True True (js ''u2'') [] (snd r)
   in map_option profileName (fst r) = Some (js ''Asha'') \<and> fst r' = Some EMPTY_DATA"
proof -
  define parse :: json_parser where "parse = (\<lambda>_. Inr (JObj [(js ''profileName'', JStr (js ''Asha''))]))"
  have h: "getItem [(LEGACY_STORAGE_KEY, js ''old'')] (workspaceStorageKey (js ''u1'')) = None"
    "getItem [(LEGACY_STORAGE_KEY, js ''old'')] LEGACY_STORAGE_KEY = Some (js ''old'')" "js ''old'' \<noteq> []"
    "getItem [(LEGACY_STORAGE_KEY, js ''old'')] MIGRATION_OWNER_KEY = None" "js ''u1'' \<noteq> []" "js ''u2'' \<noteq> js ''u1''" by code_simp+
  have e: "map_option profileName (fst (initialWorkspace demoDates id parse [] True True (js ''u1'') [] [(LEGACY_STORAGE_KEY, js ''old'')])) = Some (js ''Asha'')"
    "fst (initialWorkspace demoDates id parse [] True True (js ''u2'') [] (removeItem LEGACY_STORAGE_KEY [(LEGACY_STORAGE_KEY, js ''old'')])) = Some EMPTY_DATA"
    unfolding parse_def by code_simp+
  show ?thesis
    using legacy_workspace_has_one_owner [OF h, of demoDates id parse "[]" "[]" True True "[]"] e unfolding Let_def parse_def by simp
qed

text \<open>Clearing everything empties the workspace of the account and removes every document setting and version kept for it,
  and touches no other key of the device: no other account's, but not the workspace of an older version either, from
  which this one may have been copied.\<close>

theorem reset_clears_account:
  "let (done, s') = resetForge stringify True True accountId s in
   done \<and> fs_data s' = EMPTY_DATA \<and>
   getItem (fs_store s') k =
     (if k = workspaceStorageKey accountId then Some (stringify EMPTY_DATA)
      else if startsWith k (documentKeyPrefix accountId) then None
      else getItem (fs_store s) k) \<and>
   getItem (fs_store s') LEGACY_STORAGE_KEY = getItem (fs_store s) LEGACY_STORAGE_KEY"
proof -
  have "\<not> startsWith LEGACY_STORAGE_KEY (documentKeyPrefix accountId)"
    by (simp add: startsWith_def LEGACY_STORAGE_KEY_def documentKeyPrefix_def js_def)
  then show ?thesis by (simp add: resetForge_def Let_def ls.get_put getItem_resetKeys key_apart not_sym [OF key_apart(2)])
qed

section \<open>Sequences of operations\<close>

datatype forge_op =
    SetName jsstring jsstring jsstring
  | AddFile jsstring jsstring jsstring jsstring rat
  | RemoveFile jsstring
  | AddNote jsstring jsstring jsstring jsstring jsstring jsstring
  | UpdateNote jsstring jsstring jsstring jsstring jsstring
  | RemoveNote jsstring jsstring
  | RestoreNote jsstring
  | SetWidgets "widget_id list"

fun applyForge :: "forge_op \<Rightarrow> forge_data \<Rightarrow> forge_data" where
  "applyForge (SetName i now name) = setProfileName i now name"
| "applyForge (AddFile i now fid name sz) = addReferenceFile i now fid name sz"
| "applyForge (RemoveFile i) = removeReferenceFile i"
| "applyForge (AddNote i i' now name tpc html) = addStudioNote i i' now name tpc html"
| "applyForge (UpdateNote i now name tpc html) = updateStudioNote i now name tpc html"
| "applyForge (RemoveNote i now) = removeStudioNote i now"
| "applyForge (RestoreNote i) = restoreStudioNote i"
| "applyForge (SetWidgets ws) = setWidgets ws"

definition forgeKeeps :: "forge_data \<Rightarrow> forge_data \<Rightarrow> bool" where
  "forgeKeeps d d' \<longleftrightarrow> widgets d' \<noteq> [] \<and> distinct (widgets d') \<and> length (activities d') \<le> max 100 (length (activities d)) \<and>
     legacyNotes d' = legacyNotes d \<and> (\<exists>added. map sn_id (studioNotes d') = added @ map sn_id (studioNotes d))"

lemma addActivity_fields [simp]:
  "widgets (addActivity a d) = widgets d" "legacyNotes (addActivity a d) = legacyNotes d" "studioNotes (addActivity a d) = studioNotes d"
  "length (activities (addActivity a d)) \<le> 100"
  using length_sliceTo [of 100 "a # activities d"] by (simp_all add: addActivity_def del: sliceTo.simps)

lemma onNote_ids [simp]: "(\<And>n. sn_id (f n) = sn_id n) \<Longrightarrow> map sn_id (studioNotes (onNote i f d)) = map sn_id (studioNotes d)"
  by (simp add: onNote_def)

lemma onNote_fields [simp]: "widgets (onNote i f d) = widgets d" "legacyNotes (onNote i f d) = legacyNotes d" "activities (onNote i f d) = activities d"
  by (simp_all add: onNote_def)

lemma forgeKeeps_step: "forgeKeeps d d' \<Longrightarrow> forgeKeeps d (applyForge x d')"
proof (cases x)
  case (SetName i now name)
  assume k: "forgeKeeps d d'"
  show ?thesis using k addActivity_fields(4) unfolding SetName forgeKeeps_def applyForge.simps setProfileName_def
    by (simp add: Let_def le_max_iff_disj)
next
  case (AddNote i i' now name tpc html)
  assume k: "forgeKeeps d d'"
  then obtain added where a: "map sn_id (studioNotes d') = added @ map sn_id (studioNotes d)" unfolding forgeKeeps_def by blast
  show ?thesis using k a addActivity_fields(4) unfolding AddNote forgeKeeps_def applyForge.simps addStudioNote_def
    by (simp add: Let_def le_max_iff_disj)
next
  case (AddFile i now fid name sz)
  assume k: "forgeKeeps d d'"
  show ?thesis using k addActivity_fields(4) unfolding AddFile forgeKeeps_def applyForge.simps addReferenceFile_def
    by (simp add: Let_def le_max_iff_disj)
next
  case (SetWidgets ws)
  assume k: "forgeKeeps d d'"
  show ?thesis using k unfolding SetWidgets forgeKeeps_def applyForge.simps setWidgets_def by simp
qed (simp_all add: forgeKeeps_def removeReferenceFile_def updateStudioNote_def removeStudioNote_def restoreStudioNote_def)

lemma decoded_widgets:
  assumes "decodeWorkspace dateParse otherSort parse now raw = Some d"
  shows "widgets d \<noteq> [] \<and> distinct (widgets d)"
proof -
  have e: "widgets EMPTY_DATA \<noteq> [] \<and> distinct (widgets EMPTY_DATA)" by (simp add: EMPTY_DATA_def ALL_WIDGETS_def)
  consider "d = EMPTY_DATA" | c r fs where "raw = Some (c # r)" "parse (c # r) = Inr (JObj fs)"
    using assms unfolding decodeWorkspace_def by (cases raw) (auto split: list.splits sum.splits json.splits)
  then show ?thesis
  proof cases
    case 2
    note d = assms [unfolded decodeWorkspace_def 2(1) option.case list.case 2(2) sum.case json.case Let_def]
    show ?thesis
    proof (cases "recordList asForgeNote (field (JObj fs) ''notes'')")
      case ns: (Some ns)
      show ?thesis
      proof (cases "recordList asStudioNote (field (JObj fs) ''studioNotes'')")
        case st: (Some st)
        show ?thesis
        proof (cases "recordList asReferenceFile (field (JObj fs) ''files'')")
          case (Some rs)
          then have "widgets d = readWidgets (field (JObj fs) ''widgets'')"
            using d unfolding ns st by (auto split: if_split_asm)
          then show ?thesis using readWidgets_wf by simp
        qed (use d ns st in \<open>simp split: if_split_asm\<close>)
      qed (use d ns in \<open>simp split: if_split_asm\<close>)
    qed (use d in \<open>simp split: if_split_asm\<close>)
  qed (use e in simp)
qed

text \<open>Whatever the student does in a workspace that was read from the device, no note is lost: every note stays in its place
  under its identifier (removing one only marks it), the legacy notes stay, the activity list stays bounded, and the
  widgets remain distinct and at least one.\<close>

theorem workspace_operations_safe:
  assumes "decodeWorkspace dateParse otherSort parse now raw = Some d"
  shows "let d' = fold applyForge ops d in
    widgets d' \<noteq> [] \<and> distinct (widgets d') \<and> length (activities d') \<le> max 100 (length (activities d)) \<and>
    legacyNotes d' = legacyNotes d \<and> (\<exists>added. map sn_id (studioNotes d') = added @ map sn_id (studioNotes d))"
proof -
  have "forgeKeeps d d" using decoded_widgets [OF assms] unfolding forgeKeeps_def by simp
  then have "forgeKeeps d (fold applyForge ops d')" if "forgeKeeps d d'" for d'
    using that by (induction ops arbitrary: d') (auto intro: forgeKeeps_step)
  from this [of d] decoded_widgets [OF assms] show ?thesis unfolding Let_def forgeKeeps_def by simp
qed

theorem workspace_operations_safe_witness:
  "let d' = fold applyForge [AddNote (js ''n'') (js ''a'') [] (js '' Essay '') [] [], RemoveNote (js ''n'') (js ''now''), SetWidgets []] EMPTY_DATA in
   map sn_title (studioNotes d') = [js ''Essay''] \<and> widgets d' = [TimerWidget] \<and> distinct (widgets d')"
proof -
  have e: "decodeWorkspace demoDates id (\<lambda>_. Inl []) [] None = Some EMPTY_DATA" by (simp add: decodeWorkspace_def)
  have v: "map sn_title (studioNotes (fold applyForge [AddNote (js ''n'') (js ''a'') [] (js '' Essay '') [] [], RemoveNote (js ''n'') (js ''now''), SetWidgets []] EMPTY_DATA)) = [js ''Essay'']"
    "widgets (fold applyForge [AddNote (js ''n'') (js ''a'') [] (js '' Essay '') [] [], RemoveNote (js ''n'') (js ''now''), SetWidgets []] EMPTY_DATA) = [TimerWidget]"
    by code_simp+
  show ?thesis
    using workspace_operations_safe [OF e, of "[AddNote (js ''n'') (js ''a'') [] (js '' Essay '') [] [], RemoveNote (js ''n'') (js ''now''), SetWidgets []]"] v
    unfolding Let_def by blast
qed

end
