(* ===== verification/Student_Classrooms.thy ===== *)
theory Student_Classrooms
  imports Live_Session Forge_Data
begin

text \<open>
  The student's classrooms (\<open>apps/forge/src/classrooms/StudentClassrooms.tsx\<close>): the queue of waiting
  submissions and its delivery, loading with the fall-back to the cache, and handing in and taking back work. The state is that of the
  component with the device's database and, as a log, the submissions the host has accepted.

  Each request and each transaction has its outcome as an argument; the loop over the outbox takes them from a function
  of the entry's key, because a run treats each key once. The HTML sanitizer, the conversion to a document
  (\<open>documentBridge.ts\<close>) and the text content of HTML are parameters.
\<close>

section \<open>State\<close>

record classes_state =
  cs_classrooms :: "classroom list"
  cs_assignments :: "assignment list"
  cs_submissions :: "(jsstring \<times> submission option) list"
  cs_nodes :: "study_node list"
  cs_queued :: "jsstring list"
  cs_loading :: bool
  cs_message :: jsstring
  cs_generation :: nat
  cs_db :: "cached database"
  cs_accepted :: "submission_payload list"

section \<open>What is on show\<close>

definition submissionLabel :: "submission option \<Rightarrow> bool \<Rightarrow> jsstring" where
  "submissionLabel s queued =
     (if queued then js ''Waiting to send''
      else (case s of
          None \<Rightarrow> js ''Not submitted''
        | Some sub \<Rightarrow>
            if submission_status sub = Withdrawn then js ''Not submitted''
            else if (case submission_grade sub of Some g \<Rightarrow> grade_published g | None \<Rightarrow> False) then js ''Marked''
            else if submission_status sub = Resubmitted then js ''Resubmitted'' else js ''Submitted''))"

definition ownWaiting :: "jsstring \<Rightarrow> outbox_entry \<Rightarrow> submission_payload option" where
  "ownWaiting sc e = (case entry_work e of
      SubmissionWork p \<Rightarrow> if belongsToClassroomScope (entry_key e) sc then Some p else None
    | NoteWork _ \<Rightarrow> None)"

text \<open>\<open>readQueued\<close> rejects (\<open>False\<close>) when the outbox cannot be read.\<close>

definition readQueued :: "idb_outcome \<Rightarrow> jsstring \<Rightarrow> classes_state \<Rightarrow> bool \<times> classes_state" where
  "readQueued rd sc s =
     (if rd \<noteq> Completes then (False, s)
      else (True, s\<lparr>cs_queued := firsts (map sp_assignmentId (List.map_filter (ownWaiting sc) (outboxEntries (cs_db s))))\<rparr>))"

section \<open>Delivery\<close>

datatype submit_outcome = Accepted | Refused api_error | OtherFailure

definition dropEntry :: "idb_outcome \<Rightarrow> jsstring \<Rightarrow> classes_state \<Rightarrow> classes_state" where
  "dropEntry oc key s = s\<lparr>cs_db := snd (removeOutbox oc key (cs_db s))\<rparr>"

definition rejectedMessage :: jsstring where
  "rejectedMessage = js ''A waiting submission was rejected by the Host and was not sent. Your original note is still saved on this device.''"

text \<open>The loop over a snapshot of the outbox. \<open>False\<close> is an exception that leaves the loop: the removal of a rejected entry is not
  inside the \<open>try\<close>. A removal that fails after the host accepted ends the loop like any failure that is not an
  \<open>ApiError\<close>.\<close>

fun flushLoop :: "jsstring \<Rightarrow> (jsstring \<Rightarrow> submit_outcome \<times> idb_outcome) \<Rightarrow> outbox_entry list \<Rightarrow> classes_state \<Rightarrow> bool \<times> classes_state" where
  "flushLoop sc net [] s = (True, s)"
| "flushLoop sc net (e # es) s = (case ownWaiting sc e of
      None \<Rightarrow> flushLoop sc net es s
    | Some p \<Rightarrow> (case net (entry_key e) of
          (Accepted, oc) \<Rightarrow>
            (let s = dropEntry oc (entry_key e) (s\<lparr>cs_accepted := cs_accepted s @ [p]\<rparr>)
             in if oc = Completes then flushLoop sc net es s else (True, s))
        | (OtherFailure, _) \<Rightarrow> (True, s)
        | (Refused f, oc) \<Rightarrow>
            if shouldRetryOutboxFailure (err_status f) (offline f) then (if offline f then (True, s) else flushLoop sc net es s)
            else
              (let s = dropEntry oc (entry_key e) s
               in if oc = Completes then flushLoop sc net es (s\<lparr>cs_message := rejectedMessage\<rparr>) else (False, s))))"

definition flushCurrentStudent ::
  "jsstring \<Rightarrow> idb_outcome \<Rightarrow> (jsstring \<Rightarrow> submit_outcome \<times> idb_outcome) \<Rightarrow> idb_outcome \<Rightarrow> classes_state \<Rightarrow> bool \<times> classes_state" where
  "flushCurrentStudent sc rd net rd' s =
     (if rd \<noteq> Completes then (False, s)
      else (case flushLoop sc net (outboxEntries (cs_db s)) s of
          (False, s) \<Rightarrow> (False, s)
        | (True, s) \<Rightarrow> readQueued rd' sc s))"

section \<open>Loading\<close>

definition loadStart :: "classes_state \<Rightarrow> classes_state \<times> nat" where
  "loadStart s = (s\<lparr>cs_generation := cs_generation s + 1, cs_loading := True, cs_message := []\<rparr>, cs_generation s + 1)"

text \<open>What the requests bring: classrooms, assignments, the tree and the student's submission of each assignment,
  or a failure with its message, which is offline or not.\<close>

datatype load_answer =
    Loaded "classroom list" "assignment list" "study_node list" "jsstring \<Rightarrow> submission option"
  | LoadFailed bool jsstring

record load_task =
  lt_request :: nat
  lt_answer :: load_answer
  lt_writes :: "cache_name \<Rightarrow> idb_outcome"
  lt_reads :: "cache_name \<Rightarrow> idb_outcome"
  lt_outbox :: idb_outcome

definition writeCache :: "jsstring \<Rightarrow> (cache_name \<Rightarrow> idb_outcome) \<Rightarrow> (cache_name \<times> cached) list \<Rightarrow> cached database \<Rightarrow> cached database" where
  "writeCache sc oc kvs db = fold (\<lambda>(n, v) db. snd (cacheSet (oc n) (classroomCacheKey sc n) v db)) kvs db"

definition readCache :: "jsstring \<Rightarrow> cache_name \<Rightarrow> cached database \<Rightarrow> cached option" where
  "readCache sc n db = getItem (cacheOf db) (classroomCacheKey sc n)"

definition cachedClassrooms :: "jsstring \<Rightarrow> cached database \<Rightarrow> classroom list" where
  "cachedClassrooms sc db = (case readCache sc ClassroomsName db of Some (CachedClassrooms v) \<Rightarrow> v | _ \<Rightarrow> [])"

definition cachedAssignments :: "jsstring \<Rightarrow> cached database \<Rightarrow> assignment list" where
  "cachedAssignments sc db = (case readCache sc AssignmentsName db of Some (CachedAssignments v) \<Rightarrow> v | _ \<Rightarrow> [])"

definition cachedSubmissions :: "jsstring \<Rightarrow> cached database \<Rightarrow> (jsstring \<times> submission option) list" where
  "cachedSubmissions sc db = (case readCache sc SubmissionsName db of Some (CachedSubmissions v) \<Rightarrow> v | _ \<Rightarrow> [])"

definition cachedTree :: "jsstring \<Rightarrow> cached database \<Rightarrow> study_node list" where
  "cachedTree sc db = (case readCache sc TreeName db of Some (CachedTree v) \<Rightarrow> v | _ \<Rightarrow> [])"

text \<open>\<open>finally\<close>: the queue is read whatever happened, and a failure of that is ignored.\<close>

definition loadFinally :: "jsstring \<Rightarrow> load_task \<Rightarrow> classes_state \<Rightarrow> classes_state" where
  "loadFinally sc t s =
     (let s = (if lt_request t = cs_generation s then s\<lparr>cs_loading := False\<rparr> else s)
      in snd (readQueued (lt_outbox t) sc s))"

definition loadAnswer :: "jsstring \<Rightarrow> load_task \<Rightarrow> classes_state \<Rightarrow> classes_state" where
  "loadAnswer sc t s =
     loadFinally sc t (case lt_answer t of
        Loaded rooms work tree mine \<Rightarrow>
          if lt_request t \<noteq> cs_generation s then s
          else
            (let subs = newMap (map (\<lambda>a. (assignment_id a, mine (assignment_id a))) work);
                 db = writeCache sc (lt_writes t)
                   [(ClassroomsName, CachedClassrooms rooms), (AssignmentsName, CachedAssignments work),
                    (SubmissionsName, CachedSubmissions subs), (TreeName, CachedTree tree)] (cs_db s)
             in s\<lparr>cs_classrooms := rooms, cs_assignments := work, cs_submissions := subs, cs_nodes := tree, cs_db := db\<rparr>)
      | LoadFailed isOffline message \<Rightarrow>
          if \<exists>n \<in> {ClassroomsName, AssignmentsName, SubmissionsName, TreeName}. lt_reads t n \<noteq> Completes then s
          else if lt_request t \<noteq> cs_generation s then s
          else
            (let db = cs_db s;
                 s = s\<lparr>cs_classrooms := cachedClassrooms sc db, cs_assignments := cachedAssignments sc db,
                       cs_submissions := cachedSubmissions sc db, cs_nodes := cachedTree sc db\<rparr>
             in if isOffline then s else s\<lparr>cs_message := message\<rparr>))"

text \<open>A whole load without interruption: offline, or the delivery of what waits and then the requests. \<open>failure\<close> is
  the message of the database's error, if the delivery ends with one.\<close>

definition load :: "jsstring \<Rightarrow> jsstring \<Rightarrow> bool \<Rightarrow> idb_outcome \<Rightarrow> (jsstring \<Rightarrow> submit_outcome \<times> idb_outcome) \<Rightarrow> idb_outcome \<Rightarrow> load_task \<Rightarrow> classes_state \<Rightarrow> classes_state" where
  "load sc failure isOnline rd net rd' t s =
     (let (s, request) = loadStart s; t = t\<lparr>lt_request := request\<rparr>
      in if \<not> isOnline then loadAnswer sc (t\<lparr>lt_answer := LoadFailed True (js ''Host unavailable'')\<rparr>) s
         else (case flushCurrentStudent sc rd net rd' s of
             (False, s) \<Rightarrow> loadAnswer sc (t\<lparr>lt_answer := LoadFailed False failure\<rparr>) s
           | (True, s) \<Rightarrow> loadAnswer sc t s))"

definition loadedView :: "classes_state \<Rightarrow> classroom list \<times> assignment list \<times> (jsstring \<times> submission option) list \<times> study_node list" where
  "loadedView s = (cs_classrooms s, cs_assignments s, cs_submissions s, cs_nodes s)"

interpretation cl: generation_guard cs_generation lt_request "loadAnswer sc" "\<lambda>s. (loadedView s, cs_loading s, cs_db s)"
  by unfold_locales (auto simp: loadAnswer_def loadFinally_def readQueued_def loadedView_def Let_def split: load_answer.split)

section \<open>Handing in\<close>

record hand_in_env =
  sanitize :: "jsstring \<Rightarrow> jsstring"
  toDocument :: "jsstring \<Rightarrow> json"
  textContent :: "jsstring \<Rightarrow> jsstring"
  textBytes :: "jsstring \<Rightarrow> int"
  jsonBytes :: "json \<Rightarrow> int"

definition isGraded :: "submission option \<Rightarrow> bool" where
  "isGraded current = (case current of
      None \<Rightarrow> False
    | Some sub \<Rightarrow> submission_status sub = Graded \<or> (case submission_grade sub of Some g \<Rightarrow> grade_published g | None \<Rightarrow> False))"

definition preparePayload :: "hand_in_env \<Rightarrow> jsstring \<Rightarrow> submission option \<Rightarrow> studio_note \<Rightarrow> jsstring + submission_payload" where
  "preparePayload E assignmentId current note =
     (let cleanHtml = sanitize E (bodyHtml note);
          doc = toDocument E cleanHtml;
          body = trim (textContent E cleanHtml)
      in if body = [] then Inl (js ''The selected note is empty.'')
         else if textBytes E body > 1024 * 1024 \<or> jsonBytes E doc > 2 * 1024 * 1024 then Inl (js ''This note is too large to submit.'')
         else Inr \<lparr>sp_assignmentId = assignmentId, sp_doc = doc, sp_text = body,
                sp_note = Some ((if current = None then js ''Submitted from '' else js ''Resubmitted from '') @ [8220] @ sn_title note @ [8221])\<rparr>)"

record hand_in_outcomes =
  ho_remove :: idb_outcome
  ho_submit :: submit_outcome
  ho_queue :: idb_outcome
  ho_read :: idb_outcome
  ho_now :: jsstring
  ho_failure :: jsstring

datatype hand_in_result = NotStarted | HandedIn | Waiting | HandInFailed jsstring

text \<open>\<open>submit\<close> of an assignment that is open, up to the reload that follows an accepted submission. \<open>ho_failure\<close> is the
  message of a failure that is not an \<open>ApiError\<close>.\<close>

definition submitWork ::
  "hand_in_env \<Rightarrow> jsstring \<Rightarrow> bool \<Rightarrow> hand_in_outcomes \<Rightarrow> jsstring \<Rightarrow> submission option \<Rightarrow> studio_note option \<Rightarrow> classes_state \<Rightarrow>
    hand_in_result \<times> classes_state" where
  "submitWork E sc isOnline H assignmentId current note s =
     (case note of
        None \<Rightarrow> (NotStarted, s)
      | Some n \<Rightarrow>
          if cs_loading s \<or> isGraded current then (NotStarted, s)
          else (case preparePayload E assignmentId current n of
              Inl m \<Rightarrow> (HandInFailed m, s)
            | Inr p \<Rightarrow>
                (let key = submissionOutboxKey sc assignmentId;
                     queue = (\<lambda>s.
                       (let s = s\<lparr>cs_db := snd (queueOffline (ho_queue H) (ho_now H) key (SubmissionWork p) (cs_db s))\<rparr>
                        in if ho_queue H \<noteq> Completes then (HandInFailed (ho_failure H), s)
                           else (case readQueued (ho_read H) sc s of
                               (True, s) \<Rightarrow> (Waiting, s) | (False, s) \<Rightarrow> (HandInFailed (ho_failure H), s))))
                 in if \<not> isOnline then queue s
                    else if ho_remove H \<noteq> Completes then (HandInFailed (ho_failure H), dropEntry (ho_remove H) key s)
                    else
                      (let s = dropEntry Completes key s
                       in case ho_submit H of
                            Accepted \<Rightarrow> (HandedIn, s\<lparr>cs_accepted := cs_accepted s @ [p]\<rparr>)
                          | Refused f \<Rightarrow> if offline f then queue s else (HandInFailed (err_message f), s)
                          | OtherFailure \<Rightarrow> (HandInFailed (ho_failure H), s)))))"

text \<open>\<open>withdraw\<close>: waiting work is cancelled on the device; the rest is a request to the host, made only if this is \<open>Some True\<close>.\<close>

definition cancelWaiting :: "idb_outcome \<Rightarrow> idb_outcome \<Rightarrow> jsstring \<Rightarrow> jsstring \<Rightarrow> classes_state \<Rightarrow> bool \<times> classes_state" where
  "cancelWaiting oc rd sc assignmentId s =
     (if cs_loading s then (False, s)
      else
        (let s = dropEntry oc (submissionOutboxKey sc assignmentId) s
         in if oc \<noteq> Completes then (False, s) else readQueued rd sc s))"

definition withdrawAsks :: "bool \<Rightarrow> bool \<Rightarrow> submission option \<Rightarrow> classes_state \<Rightarrow> bool" where
  "withdrawAsks isOnline queued current s \<longleftrightarrow>
     \<not> cs_loading s \<and> \<not> queued \<and> isOnline \<and> (case current of Some sub \<Rightarrow> submission_status sub \<noteq> Withdrawn | None \<Rightarrow> False) \<and> \<not> isGraded current"

section \<open>Lemmas\<close>

lemma dropEntry_fields [simp]:
  "outboxOf (cs_db (dropEntry oc k s)) = (if oc = Completes then removeItem k (outboxOf (cs_db s)) else outboxOf (cs_db s))"
  "cacheOf (cs_db (dropEntry oc k s)) = cacheOf (cs_db s)" "cs_accepted (dropEntry oc k s) = cs_accepted s"
  by (simp_all add: dropEntry_def)

text \<open>Which entries a run over the outbox removes and which it hands to the host.\<close>

definition settles :: "jsstring \<Rightarrow> (jsstring \<Rightarrow> submit_outcome \<times> idb_outcome) \<Rightarrow> outbox_entry \<Rightarrow> bool" where
  "settles sc net e \<longleftrightarrow> ownWaiting sc e \<noteq> None \<and> (case fst (net (entry_key e)) of
      Accepted \<Rightarrow> True
    | Refused f \<Rightarrow> \<not> shouldRetryOutboxFailure (err_status f) (offline f)
    | OtherFailure \<Rightarrow> False)"

definition acceptedWork :: "jsstring \<Rightarrow> (jsstring \<Rightarrow> submit_outcome \<times> idb_outcome) \<Rightarrow> outbox_entry list \<Rightarrow> submission_payload list" where
  "acceptedWork sc net es = List.map_filter (\<lambda>e. if fst (net (entry_key e)) = Accepted then ownWaiting sc e else None) es"

lemma acceptedWork_simps [simp]:
  "acceptedWork sc net [] = []"
  "acceptedWork sc net (e # es) =
    (case if fst (net (entry_key e)) = Accepted then ownWaiting sc e else None of Some p \<Rightarrow> p # acceptedWork sc net es | None \<Rightarrow> acceptedWork sc net es)"
  by (simp_all add: acceptedWork_def List.map_filter_simps split: option.split)

text \<open>The host answers every request and the device's database works.\<close>

definition smooth :: "(jsstring \<Rightarrow> submit_outcome \<times> idb_outcome) \<Rightarrow> bool" where
  "smooth net \<longleftrightarrow> (\<forall>k. snd (net k) = Completes \<and> (case fst (net k) of Accepted \<Rightarrow> True | Refused f \<Rightarrow> \<not> offline f | OtherFailure \<Rightarrow> False))"

lemma removeItem_filter: "removeItem k (filter P st) = filter (\<lambda>p. P p \<and> fst p \<noteq> k) st"
  by (auto simp: removeItem_def mapDelete_def intro: filter_cong)

lemma flushLoop_smooth:
  assumes "smooth net"
  shows "fst (flushLoop sc net es s) \<and>
    outboxOf (cs_db (snd (flushLoop sc net es s))) = filter (\<lambda>p. fst p \<notin> entry_key ` {e \<in> set es. settles sc net e}) (outboxOf (cs_db s)) \<and>
    cs_accepted (snd (flushLoop sc net es s)) = cs_accepted s @ acceptedWork sc net es"
proof (induction es arbitrary: s)
  case (Cons e es)
  obtain out oc where n: "net (entry_key e) = (out, oc)" by (cases "net (entry_key e)")
  have oc: "oc = Completes" and so: "out \<noteq> OtherFailure" "\<And>f. out = Refused f \<Longrightarrow> \<not> offline f"
    using assms [unfolded smooth_def, rule_format, of "entry_key e"] n by auto
  have split: "filter (\<lambda>p. fst p \<notin> K) (removeItem k st) = filter (\<lambda>p. fst p \<noteq> k \<and> fst p \<notin> K) st"
    for k :: jsstring and K and st :: "(jsstring, outbox_entry) store"
    by (auto simp: removeItem_def mapDelete_def intro: filter_cong)
  show ?case
  proof (cases "ownWaiting sc e")
    case None
    then have "{x \<in> set (e # es). settles sc net x} = {x \<in> set es. settles sc net x}" by (auto simp: settles_def)
    then show ?thesis using Cons.IH [of s] None by simp
  next
    case (Some p)
    show ?thesis
    proof (cases out)
      case Accepted
      have "{x \<in> set (e # es). settles sc net x} = insert e {x \<in> set es. settles sc net x}"
        using Some n Accepted by (auto simp: settles_def)
      then show ?thesis using Cons.IH n Some Accepted oc by (simp add: split Let_def)
    next
      case (Refused f)
      show ?thesis
      proof (cases "shouldRetryOutboxFailure (err_status f) (offline f)")
        case True
        then have "{x \<in> set (e # es). settles sc net x} = {x \<in> set es. settles sc net x}" using n Refused by (auto simp: settles_def)
        then show ?thesis using Cons.IH [of s] n Some Refused oc so True by simp
      next
        case False
        then have "{x \<in> set (e # es). settles sc net x} = insert e {x \<in> set es. settles sc net x}" using Some n Refused by (auto simp: settles_def)
        then show ?thesis using Cons.IH n Some Refused oc False by (simp add: split Let_def)
      qed
    qed (use so in simp)
  qed
qed simp

lemma outboxEntries_entry: "wfDatabase db \<Longrightarrow> set (outboxEntries db) = snd ` set (outboxOf db)"
  by (simp add: outboxEntries_def)

lemma outbox_values: "wfDatabase db \<Longrightarrow> (k, e) \<in> set (outboxOf db) \<Longrightarrow> (k, e') \<in> set (outboxOf db) \<Longrightarrow> e = e'"
  unfolding wfDatabase_def wfStore_def storeKeys_def by (metis eq_key_imp_eq_value)

lemma outbox_filed: "wfDatabase db \<Longrightarrow> (k, e) \<in> set (outboxOf db) \<Longrightarrow> entry_key e = k"
  unfolding wfDatabase_def by auto

lemma getItem_outbox: "wfDatabase db \<Longrightarrow> getItem (outboxOf db) k = Some e \<longleftrightarrow> (k, e) \<in> set (outboxOf db)"
  unfolding wfDatabase_def wfStore_def storeKeys_def getItem_def by simp

text \<open>Removing the entries of the listing that satisfy a predicate is filtering the store.\<close>

lemma filter_entries:
  assumes "wfDatabase db"
  shows "filter (\<lambda>p. fst p \<notin> entry_key ` {e \<in> set (outboxEntries db). P e}) (outboxOf db) = filter (\<lambda>(k, e). \<not> P e) (outboxOf db)"
proof (rule filter_cong [OF refl])
  fix p assume p: "p \<in> set (outboxOf db)"
  obtain k e where q: "p = (k, e)" by (cases p)
  have k: "entry_key e = k" using outbox_filed assms p unfolding q by blast
  have "P e \<Longrightarrow> k \<in> entry_key ` {e \<in> set (outboxEntries db). P e}"
    using p k unfolding q outboxEntries_entry [OF assms] by force
  moreover have "P e" if "k \<in> entry_key ` {e \<in> set (outboxEntries db). P e}"
  proof -
    from that obtain e' k' where e': "entry_key e' = k" "(k', e') \<in> set (outboxOf db)" "P e'"
      unfolding outboxEntries_entry [OF assms] by auto
    then have "(k, e') \<in> set (outboxOf db)" using outbox_filed [OF assms] by blast
    then show ?thesis using outbox_values [OF assms] p e'(3) unfolding q by blast
  qed
  ultimately show "(fst p \<notin> entry_key ` {e \<in> set (outboxEntries db). P e}) = (case p of (k, e) \<Rightarrow> \<not> P e)" unfolding q by auto
qed

text \<open>Without any assumption on the outcomes: what the loop leaves alone, and what became of the rest.\<close>

definition flushSafe :: "jsstring \<Rightarrow> (jsstring \<Rightarrow> submit_outcome \<times> idb_outcome) \<Rightarrow> classes_state \<Rightarrow> classes_state \<Rightarrow> bool" where
  "flushSafe sc net s s' \<longleftrightarrow>
     (\<forall>k e. getItem (outboxOf (cs_db s)) k = Some e \<longrightarrow> getItem (outboxOf (cs_db s')) k = Some e \<or>
        (getItem (outboxOf (cs_db s')) k = None \<and> settles sc net e \<and>
         (\<forall>p. fst (net k) = Accepted \<and> ownWaiting sc e = Some p \<longrightarrow> p \<in> set (cs_accepted s')))) \<and>
     (\<exists>sent. cs_accepted s' = cs_accepted s @ sent \<and>
        (\<forall>p \<in> set sent. \<exists>k e. getItem (outboxOf (cs_db s)) k = Some e \<and> ownWaiting sc e = Some p))"

lemma flushSafe_accept:
  assumes "flushSafe sc net s0 s" "getItem (outboxOf (cs_db s0)) (entry_key e) = Some e" "ownWaiting sc e = Some p"
  shows "flushSafe sc net s0 (s\<lparr>cs_accepted := cs_accepted s @ [p]\<rparr>)"
proof -
  obtain sent where s: "cs_accepted s = cs_accepted s0 @ sent"
      "\<forall>p \<in> set sent. \<exists>k e. getItem (outboxOf (cs_db s0)) k = Some e \<and> ownWaiting sc e = Some p"
    using assms(1) unfolding flushSafe_def by blast
  have "\<exists>sent'. cs_accepted (s\<lparr>cs_accepted := cs_accepted s @ [p]\<rparr>) = cs_accepted s0 @ sent' \<and>
        (\<forall>p \<in> set sent'. \<exists>k e. getItem (outboxOf (cs_db s0)) k = Some e \<and> ownWaiting sc e = Some p)"
    using s assms(2,3) by (intro exI [of _ "sent @ [p]"]) auto
  then show ?thesis using assms(1) unfolding flushSafe_def by simp blast
qed

lemma flushSafe_drop:
  assumes "flushSafe sc net s0 s" "getItem (outboxOf (cs_db s0)) (entry_key e) = Some e" "settles sc net e"
    and "fst (net (entry_key e)) = Accepted \<Longrightarrow> set_option (ownWaiting sc e) \<subseteq> set (cs_accepted s)"
  shows "flushSafe sc net s0 (dropEntry oc (entry_key e) s)"
proof (cases "oc = Completes")
  case True
  have "getItem (outboxOf (cs_db (dropEntry oc (entry_key e) s))) k = (if k = entry_key e then None else getItem (outboxOf (cs_db s)) k)" for k
    using True by (simp add: ls.get_remove)
  then show ?thesis using assms unfolding flushSafe_def by auto
next
  case False
  then show ?thesis using assms(1) unfolding flushSafe_def by simp
qed

lemma flushLoop_safe:
  "flushSafe sc net s0 s \<Longrightarrow> \<forall>e \<in> set es. getItem (outboxOf (cs_db s0)) (entry_key e) = Some e \<Longrightarrow>
   flushSafe sc net s0 (snd (flushLoop sc net es s))"
proof (induction es arbitrary: s)
  case (Cons e es)
  have i: "getItem (outboxOf (cs_db s0)) (entry_key e) = Some e" using Cons.prems(2) by simp
  note IH = Cons.IH [OF _ ballI [OF Cons.prems(2) [rule_format, OF list.set_intros(2)]]]
  obtain out oc where n: "net (entry_key e) = (out, oc)" by (cases "net (entry_key e)")
  show ?case
  proof (cases "ownWaiting sc e")
    case None
    then show ?thesis using IH Cons.prems(1) by simp
  next
    case (Some p)
    show ?thesis
    proof (cases out)
      case Accepted
      have st: "settles sc net e" using Some n Accepted by (simp add: settles_def)
      have d: "flushSafe sc net s0 (dropEntry oc (entry_key e) (s\<lparr>cs_accepted := cs_accepted s @ [p]\<rparr>))"
        using Some by (intro flushSafe_drop [OF flushSafe_accept [OF Cons.prems(1) i Some] i st]) simp
      show ?thesis using IH [OF d] d n Some Accepted by (auto simp: Let_def)
    next
      case (Refused f)
      show ?thesis
      proof (cases "shouldRetryOutboxFailure (err_status f) (offline f)")
        case True
        then show ?thesis using IH Cons.prems(1) n Some Refused by simp
      next
        case False
        then have st: "settles sc net e" using Some n Refused by (simp add: settles_def)
        have d: "flushSafe sc net s0 (dropEntry oc (entry_key e) s)"
          using n Refused by (intro flushSafe_drop [OF Cons.prems(1) i st]) simp
        then have "flushSafe sc net s0 ((dropEntry oc (entry_key e) s)\<lparr>cs_message := rejectedMessage\<rparr>)" unfolding flushSafe_def by simp
        from IH [OF this] show ?thesis using d n Some Refused False by (auto simp: Let_def)
      qed
    qed (use n Some Cons.prems(1) in simp)
  qed
qed simp

lemma readQueued_fields [simp]:
  "cs_db (snd (readQueued rd sc s)) = cs_db s" "cs_accepted (snd (readQueued rd sc s)) = cs_accepted s"
  "loadedView (snd (readQueued rd sc s)) = loadedView s" "cs_generation (snd (readQueued rd sc s)) = cs_generation s"
  by (simp_all add: readQueued_def loadedView_def)

lemma flush_result:
  "snd (flushCurrentStudent sc Completes net rd s) =
     (let r = flushLoop sc net (outboxEntries (cs_db s)) s in if fst r then snd (readQueued rd sc (snd r)) else snd r)"
  by (auto simp: flushCurrentStudent_def Let_def split: prod.splits bool.splits)

section \<open>Lemmas on the cache\<close>

lemma loadFinally_fields [simp]:
  "loadedView (loadFinally sc t s) = loadedView s" "cs_db (loadFinally sc t s) = cs_db s" "cs_generation (loadFinally sc t s) = cs_generation s"
  by (simp_all add: loadFinally_def Let_def loadedView_def readQueued_def)

lemma cacheKey_inj: "classroomCacheKey sc n = classroomCacheKey sc m \<longleftrightarrow> n = m"
  by (simp add: classroomCacheKey_def cacheName_inj)

lemma readCache_write:
  "\<forall>n. oc n = Completes \<Longrightarrow>
   readCache sc n (writeCache sc oc kvs db) = (case map_of (rev kvs) n of Some v \<Rightarrow> Some v | None \<Rightarrow> readCache sc n db)"
proof (induction kvs arbitrary: db)
  case (Cons p kvs)
  obtain m v where p: "p = (m, v)" by (cases p)
  show ?case using Cons.IH [OF Cons.prems, of "snd (cacheSet (oc m) (classroomCacheKey sc m) v db)"] Cons.prems
    by (auto simp: p writeCache_def readCache_def ls.get_put cacheKey_inj map_add_def split: option.splits)
qed (simp add: writeCache_def)

lemma readCache_other:
  "(\<And>n m. classroomCacheKey sc n \<noteq> classroomCacheKey sc' m) \<Longrightarrow> readCache sc' n (writeCache sc oc kvs db) = readCache sc' n db"
proof (induction kvs arbitrary: db)
  case (Cons p kvs)
  obtain m v where p: "p = (m, v)" by (cases p)
  have "classroomCacheKey sc' n \<noteq> classroomCacheKey sc m" using Cons.prems [of m n] by simp
  then show ?case using Cons.IH [OF Cons.prems, of "snd (cacheSet (oc m) (classroomCacheKey sc m) v db)"]
    by (simp add: p writeCache_def readCache_def ls.get_put)
qed (simp add: writeCache_def)

definition offlineView :: "jsstring \<Rightarrow> cached database \<Rightarrow> classroom list \<times> assignment list \<times> (jsstring \<times> submission option) list \<times> study_node list" where
  "offlineView sc db = (cachedClassrooms sc db, cachedAssignments sc db, cachedSubmissions sc db, cachedTree sc db)"

lemma offlineView_cong: "(\<And>n. readCache sc n db = readCache sc n db') \<Longrightarrow> offlineView sc db = offlineView sc db'"
  by (simp add: offlineView_def cachedClassrooms_def cachedAssignments_def cachedSubmissions_def cachedTree_def)

lemma loadAnswer_failed:
  assumes "lt_answer t = LoadFailed b m" "\<forall>n. lt_reads t n = Completes" "lt_request t = cs_generation s"
  shows "loadedView (loadAnswer sc t s) = offlineView sc (cs_db s)"
  using assms by (simp add: loadAnswer_def Let_def loadedView_def offlineView_def loadFinally_def readQueued_def)

lemma loadAnswer_loaded:
  assumes "lt_answer t = Loaded rooms work tree mine" "lt_request t = cs_generation s"
  shows "loadedView (loadAnswer sc t s) = (rooms, work, newMap (map (\<lambda>a. (assignment_id a, mine (assignment_id a))) work), tree)"
    "cs_db (loadAnswer sc t s) = writeCache sc (lt_writes t)
       [(ClassroomsName, CachedClassrooms rooms), (AssignmentsName, CachedAssignments work),
        (SubmissionsName, CachedSubmissions (newMap (map (\<lambda>a. (assignment_id a, mine (assignment_id a))) work))), (TreeName, CachedTree tree)] (cs_db s)"
  using assms by (simp_all add: loadAnswer_def Let_def loadedView_def loadFinally_def readQueued_def)

section \<open>Properties\<close>

text \<open>C13: When the host answers and the device's database works, a delivery does exactly this: of the waiting submissions of this
  account on this host, those accepted are handed over in the order of their keys, those accepted or rejected for good leave
  the outbox, and those the host is too busy for stay; everything else in the outbox stays as it is.\<close>

theorem delivery_settles_own_work:
  assumes "smooth net" "wfDatabase (cs_db s)"
  shows "let s' = snd (flushCurrentStudent sc Completes net rd s) in
    outboxOf (cs_db s') = filter (\<lambda>(k, e). \<not> settles sc net e) (outboxOf (cs_db s)) \<and>
    cs_accepted s' = cs_accepted s @ acceptedWork sc net (outboxEntries (cs_db s)) \<and>
    sorted (map entry_key (outboxEntries (cs_db s)))"
proof -
  note l = flushLoop_smooth [OF assms(1), of sc "outboxEntries (cs_db s)" s]
  show ?thesis using l outboxEntries_keys(3) [OF assms(2)] by (simp add: filter_entries [OF assms(2)] flush_result Let_def)
qed


definition demoPayload :: "jsstring \<Rightarrow> submission_payload" where
  "demoPayload i = \<lparr>sp_assignmentId = i, sp_doc = JNull, sp_text = js ''text'', sp_note = None\<rparr>"

definition demoEntry :: "jsstring \<Rightarrow> jsstring \<Rightarrow> jsstring \<times> outbox_entry" where
  "demoEntry sc i = (submissionOutboxKey sc i, \<lparr>entry_key = submissionOutboxKey sc i, entry_work = SubmissionWork (demoPayload i), queuedAt = []\<rparr>)"

definition demoClasses :: "(jsstring, outbox_entry) store \<Rightarrow> classes_state" where
  "demoClasses es = \<lparr>cs_classrooms = [], cs_assignments = [], cs_submissions = [], cs_nodes = [], cs_queued = [], cs_loading = False,
     cs_message = [], cs_generation = 1, cs_db = \<lparr>cacheStore = None, outboxStore = Some es\<rparr>, cs_accepted = []\<rparr>"

definition demoOutbox :: "(jsstring, outbox_entry) store" where
  "demoOutbox = [demoEntry (js ''s:b:'') (js ''x''), demoEntry (js ''s:a:'') (js ''two''), demoEntry (js ''s:a:'') (js ''one'')]"

definition demoNet :: "jsstring \<Rightarrow> submit_outcome \<times> idb_outcome" where
  "demoNet k = (if k = submissionOutboxKey (js ''s:a:'') (js ''two'') then Refused \<lparr>err_code = [], err_message = [], err_status = 503\<rparr> else Accepted, Completes)"

theorem delivery_settles_own_work_witness:
  "let s' = snd (flushCurrentStudent (js ''s:a:'') Completes demoNet Completes (demoClasses demoOutbox)) in
   outboxOf (cs_db s') = [demoEntry (js ''s:b:'') (js ''x''), demoEntry (js ''s:a:'') (js ''two'')] \<and>
   cs_accepted s' = [demoPayload (js ''one'')] \<and> cs_queued s' = [js ''two'']"
proof -
  have "shouldRetryOutboxFailure 503 False" by code_simp
  have n: "smooth demoNet" unfolding smooth_def demoNet_def by (simp add: offline_def)
  have w: "wfDatabase (cs_db (demoClasses demoOutbox))"
    unfolding wfDatabase_def wfStore_def storeKeys_def cacheOf_def outboxOf_def demoClasses_def demoOutbox_def demoEntry_def submissionOutboxKey_def
    by (simp add: js_def)
  have e: "filter (\<lambda>(k, e). \<not> settles (js ''s:a:'') demoNet e) (outboxOf (cs_db (demoClasses demoOutbox))) =
      [demoEntry (js ''s:b:'') (js ''x''), demoEntry (js ''s:a:'') (js ''two'')]"
    "cs_accepted (demoClasses demoOutbox) @ acceptedWork (js ''s:a:'') demoNet (outboxEntries (cs_db (demoClasses demoOutbox))) = [demoPayload (js ''one'')]"
    "cs_queued (snd (flushCurrentStudent (js ''s:a:'') Completes demoNet Completes (demoClasses demoOutbox))) = [js ''two'']"
    by code_simp+
  show ?thesis using delivery_settles_own_work [OF n w, of "js ''s:a:''" Completes] unfolding Let_def e by (simp add: e(3))
qed


text \<open>C16: What a student sees without the host is what that student last loaded: after a load whose answers were cached, a load that
  fails shows exactly them again, and on a shared device another account sees what it would have seen before.\<close>

theorem offline_view_is_last_load:
  assumes "lt_answer t = Loaded rooms work tree mine" "lt_request t = cs_generation s" "\<forall>n. lt_writes t n = Completes"
    and "lt_answer t' = LoadFailed b m" "\<forall>n. lt_reads t' n = Completes" "lt_request t' = cs_generation s'"
    and "cs_db s' = cs_db (loadAnswer sc t s)"
    and "validAccount a" "validAccount a'" "sc = scopeOf a" "sc' = scopeOf a'" "a \<noteq> a'"
  shows "loadedView (loadAnswer sc t' s') = loadedView (loadAnswer sc t s) \<and>
    loadedView (loadAnswer sc' t' s') = offlineView sc' (cs_db s)"
proof -
  have k: "classroomCacheKey sc n \<noteq> classroomCacheKey sc' m" for n m
    using account_cache.scoped_inj [OF assms(8,9)] assms(12) unfolding assms(10,11) by blast
  have "offlineView sc (cs_db s') = loadedView (loadAnswer sc t s)"
    unfolding assms(7) loadAnswer_loaded [OF assms(1,2)] offlineView_def cachedClassrooms_def cachedAssignments_def cachedSubmissions_def
      cachedTree_def readCache_write [OF assms(3)] by simp
  moreover have "offlineView sc' (cs_db s') = offlineView sc' (cs_db s)"
    unfolding assms(7) loadAnswer_loaded [OF assms(1,2)] using readCache_other [OF k] by (intro offlineView_cong) simp
  ultimately show ?thesis using loadAnswer_failed [OF assms(4,5,6)] by simp
qed

definition demoRoom :: classroom where
  "demoRoom = \<lparr>classroom_id = js ''r'', classroom_name = js ''8B'', subject_code = None, description = [], color = [],
     owner_teacher_id = [], owner_teacher_name = [], enrolment_code = [], student_count = 1, classroom_created_at = []\<rparr>"

theorem offline_view_is_last_load_witness:
  "let sc = scopeOf (js ''http://h'', js ''u1''); sc' = scopeOf (js ''http://h'', js ''u2'');
       t = \<lparr>lt_request = 1, lt_answer = Loaded [demoRoom] [] [] (\<lambda>_. None), lt_writes = (\<lambda>_. Completes), lt_reads = (\<lambda>_. Completes), lt_outbox = Completes\<rparr>;
       t' = t\<lparr>lt_answer := LoadFailed True []\<rparr>;
       s' = (demoClasses [])\<lparr>cs_db := cs_db (loadAnswer sc t (demoClasses []))\<rparr>
   in cs_classrooms (loadAnswer sc t' s') = [demoRoom] \<and> cs_classrooms (loadAnswer sc' t' s') = []"
proof -
  define a a' where a: "a = (js ''http://h'', js ''u1'')" "a' = (js ''http://h'', js ''u2'')"
  define t where "t = \<lparr>lt_request = 1, lt_answer = Loaded [demoRoom] [] [] (\<lambda>_. None), lt_writes = (\<lambda>_. Completes), lt_reads = (\<lambda>_. Completes), lt_outbox = Completes\<rparr>"
  define s' where "s' = (demoClasses [])\<lparr>cs_db := cs_db (loadAnswer (scopeOf a) t (demoClasses []))\<rparr>"
  have v: "validAccount (js ''http://h'', js ''u1'')" "validAccount (js ''http://h'', js ''u2'')" "js ''u1'' \<noteq> js ''u2''" by code_simp+
  have h: "lt_answer t = Loaded [demoRoom] [] [] (\<lambda>_. None)" "lt_request t = cs_generation (demoClasses [])" "\<forall>n. lt_writes t n = Completes"
    "lt_answer (t\<lparr>lt_answer := LoadFailed True []\<rparr>) = LoadFailed True []" "\<forall>n. lt_reads (t\<lparr>lt_answer := LoadFailed True []\<rparr>) n = Completes"
    "lt_request (t\<lparr>lt_answer := LoadFailed True []\<rparr>) = cs_generation s'" "cs_db s' = cs_db (loadAnswer (scopeOf a) t (demoClasses []))"
    by (simp_all add: t_def s'_def demoClasses_def)
  have "loadedView (loadAnswer (scopeOf a) (t\<lparr>lt_answer := LoadFailed True []\<rparr>) s') = loadedView (loadAnswer (scopeOf a) t (demoClasses [])) \<and>
    loadedView (loadAnswer (scopeOf a') (t\<lparr>lt_answer := LoadFailed True []\<rparr>) s') = offlineView (scopeOf a') (cs_db (demoClasses []))"
    by (rule offline_view_is_last_load [OF h, of a a']) (use v in \<open>simp_all add: a\<close>)
  moreover have "fst (loadedView (loadAnswer (scopeOf a) t (demoClasses []))) = [demoRoom]" using loadAnswer_loaded(1) [OF h(1,2)] by simp
  moreover have "fst (offlineView (scopeOf a') (cs_db (demoClasses []))) = []"
    by (simp add: offlineView_def cachedClassrooms_def readCache_def cacheOf_def demoClasses_def getItem_def)
  moreover have f: "cs_classrooms x = fst (loadedView x)" for x by (simp add: loadedView_def)
  ultimately show ?thesis unfolding Let_def a [symmetric] t_def [symmetric] s'_def [symmetric] f by simp
qed

text \<open>Handing in online gives up the version that waits before the new one is safe: it leaves the outbox first, and if the
  host then answers with any error, also one for which waiting work is kept (429, 503), neither version is waiting any
  more and none was accepted.\<close>

theorem online_hand_in_drops_waiting:
  assumes "\<not> cs_loading s" "\<not> isGraded current" "preparePayload E i current n = Inr p"
    and "ho_remove H = Completes" "ho_submit H = Refused f" "\<not> offline f"
  shows "let (r, s') = submitWork E sc True H i current (Some n) s in
    r = HandInFailed (err_message f) \<and> getItem (outboxOf (cs_db s')) (submissionOutboxKey sc i) = None \<and> cs_accepted s' = cs_accepted s"
  using assms by (simp add: submitWork_def Let_def)

definition demoHandIn :: hand_in_env where
  "demoHandIn = \<lparr>sanitize = id, toDocument = JStr, textContent = id, textBytes = (\<lambda>s. int (length s)), jsonBytes = (\<lambda>_. 10)\<rparr>"

definition busyHost :: api_error where
  "busyHost = \<lparr>err_code = js ''busy'', err_message = js ''busy'', err_status = 503\<rparr>"

theorem online_hand_in_drops_waiting_witness:
  "let s = demoClasses demoOutbox; key = submissionOutboxKey (js ''s:a:'') (js ''one'');
       H = \<lparr>ho_remove = Completes, ho_submit = Refused busyHost, ho_queue = Completes, ho_read = Completes, ho_now = [], ho_failure = []\<rparr>;
       s' = snd (submitWork demoHandIn (js ''s:a:'') True H (js ''one'') None (Some (fromLegacy (demoNote (js ''n'') []))) s)
   in getItem (outboxOf (cs_db s)) key \<noteq> None \<and> getItem (outboxOf (cs_db s')) key = None \<and> shouldRetryOutboxFailure (err_status busyHost) (offline busyHost)"
proof -
  define H where "H = \<lparr>ho_remove = Completes, ho_submit = Refused busyHost, ho_queue = Completes, ho_read = Completes, ho_now = [], ho_failure = []\<rparr>"
  have "case preparePayload demoHandIn (js ''one'') None (fromLegacy (demoNote (js ''n'') [])) of Inr _ \<Rightarrow> True | Inl _ \<Rightarrow> False" by code_simp
  then obtain p where p: "preparePayload demoHandIn (js ''one'') None (fromLegacy (demoNote (js ''n'') [])) = Inr p"
    by (cases "preparePayload demoHandIn (js ''one'') None (fromLegacy (demoNote (js ''n'') []))") (simp_all only: sum.case)
  have h: "\<not> cs_loading (demoClasses demoOutbox)" "\<not> isGraded None" "ho_remove H = Completes" "ho_submit H = Refused busyHost" "\<not> offline busyHost"
    by (simp_all only: demoClasses_def isGraded_def H_def offline_def busyHost_def classes_state.simps hand_in_outcomes.simps api_error.simps option.case) simp_all
  have "case getItem (outboxOf (cs_db (demoClasses demoOutbox))) (submissionOutboxKey (js ''s:a:'') (js ''one'')) of None \<Rightarrow> False | Some _ \<Rightarrow> True" by code_simp
  then have g: "getItem (outboxOf (cs_db (demoClasses demoOutbox))) (submissionOutboxKey (js ''s:a:'') (js ''one'')) \<noteq> None"
    by (cases "getItem (outboxOf (cs_db (demoClasses demoOutbox))) (submissionOutboxKey (js ''s:a:'') (js ''one''))") simp_all
  have r: "shouldRetryOutboxFailure (err_status busyHost) (offline busyHost)" by code_simp
  show ?thesis using online_hand_in_drops_waiting [OF h(1,2) p h(3,4,5), of "js ''s:a:''"] g r
    unfolding Let_def H_def [symmetric] case_prod_beta by blast
qed

end
