(* ===== verification/Student_App.thy ===== *)
theory Student_App
  imports Student_Classrooms
begin

text \<open>
  The student app of the classroom computer (\<open>apps/student/src/App.tsx\<close>): start-up with a saved session, signing
  in and out, loading the workspace with the fall-back to the cache, work that waits for the host, and the notes and
  drafts that are edited without it. The state is that of \<open>App\<close> with the device's session store and database; what
  reaches the host is logged with the account whose token carried it.

  Accounts are the JSON values the host sent, which the app does not check beyond the role. The outcomes of
  requests, native calls and transactions are arguments.
\<close>

section \<open>State\<close>

record app_session =
  as_baseUrl :: jsstring
  as_token :: jsstring
  as_user :: json

record note_body =
  doc_json :: json
  plaintext :: jsstring
  body_updated_at :: jsstring

record flash_card =
  fc_id :: jsstring
  fc_deck :: jsstring
  fc_front :: jsstring
  fc_back :: jsstring
  fc_source :: "jsstring option"
  fc_excerpt :: "jsstring option"
  fc_ai :: bool

datatype student_value = SharedValue cached | NoteValue note_body | DraftValue json jsstring | CardsValue "flash_card list"

record student_state =
  sa_baseUrl :: jsstring
  sa_apiToken :: "jsstring option"
  sa_user :: "json option"
  sa_token :: "jsstring option"
  sa_online :: bool
  offlineUnlocked :: bool
  sa_known :: "jsstring list"
  sa_view :: "classroom list \<times> assignment list \<times> (jsstring \<times> submission option) list \<times> study_node list"
  sa_session :: session_state
  sa_db :: "student_value database"
  sa_log :: "(json option \<times> outbox_payload) list"

definition SESSION_KEYS :: "jsstring list" where
  "SESSION_KEYS = [js ''cinder.student.session'', js ''lu'' @ js ''mina.student.session'']"

definition DEV_HOST :: jsstring where
  "DEV_HOST = js ''http://127.0.0.1:7373''"

section \<open>Small functions\<close>

text \<open>\<open>value.trim().replace(/\/+$/, "")\<close>, and in an installed app the native check, which may refuse (\<open>None\<close>).\<close>

definition hostAddress :: "bool \<Rightarrow> (jsstring \<Rightarrow> jsstring option) \<Rightarrow> jsstring \<Rightarrow> jsstring option" where
  "hostAddress tauri validate v =
     (let trimmed = rev (dropWhile (\<lambda>c. c = 47) (rev (trim v))) in if tauri then validate trimmed else Some trimmed)"

definition relativeDue :: "rat option \<Rightarrow> rat \<Rightarrow> jsstring" where
  "relativeDue due nowMs = (case due of
      None \<Rightarrow> js ''No deadline''
    | Some t \<Rightarrow>
        (let days = mathCeil ((t - nowMs) / 86400000) in
         if days < 0 then showInt \<bar>days\<bar> @ js '' day'' @ (if days = -1 then [] else js ''s'') @ js '' late''
         else if days = 0 then js ''Due today''
         else if days = 1 then js ''Due tomorrow''
         else js ''Due in '' @ showInt days @ js '' days''))"

section \<open>Sessions\<close>

definition studentSession :: "json_parser \<Rightarrow> jsstring \<Rightarrow> app_session option" where
  "studentSession parse raw = (case parse raw of
      Inl _ \<Rightarrow> None
    | Inr v \<Rightarrow> (case (strField v ''baseUrl'', strField v ''token'', field v ''user'') of
          (Some b, Some t, Some u) \<Rightarrow>
            if truthyJson u \<and> field u ''role'' = Some (JStr (js ''student'')) then Some \<lparr>as_baseUrl = b, as_token = t, as_user = u\<rparr> else None
        | _ \<Rightarrow> None))"

record device =
  tauri :: bool
  loadOk :: bool
  saveOk :: bool
  clearOk :: bool
  validateHost :: "jsstring \<Rightarrow> jsstring option"
  parseJson :: json_parser
  showSession :: "app_session \<Rightarrow> jsstring"

definition clearSaved :: "device \<Rightarrow> session_state \<Rightarrow> session_state" where
  "clearSaved D = clearSessionValue (tauri D) (clearOk D) SESSION_KEYS"

definition storedSession :: "device \<Rightarrow> session_state \<Rightarrow> app_session option \<times> session_state" where
  "storedSession D ss = (case loadSessionValue (tauri D) (loadOk D) (saveOk D) SESSION_KEYS ss of
      (None, ss) \<Rightarrow> (None, ss)
    | (Some raw, ss) \<Rightarrow> (case studentSession (parseJson D) raw of
          Some x \<Rightarrow> (Some x, ss)
        | None \<Rightarrow> (None, clearSaved D ss)))"

text \<open>The answer to \<open>me()\<close>: the account, an error of the host, or offline.\<close>

datatype me_answer = Me json | MeRefused | MeOffline

definition mustChange :: "json \<Rightarrow> bool" where
  "mustChange u = (case field u ''must_change_password'' of Some v \<Rightarrow> truthyJson v | None \<Rightarrow> False)"

text \<open>\<open>config\<close> is the configured host, \<open>answers\<close> tells of the health check without a session. The second component tells
  whether the workspace is loaded next.\<close>

definition startup :: "device \<Rightarrow> jsstring option \<Rightarrow> me_answer \<Rightarrow> bool \<Rightarrow> student_state \<Rightarrow> student_state \<times> bool" where
  "startup D config me answers s =
     (let (session, ss) = storedSession D (sa_session s);
          url = (case session of Some x \<Rightarrow> as_baseUrl x | None \<Rightarrow> (case config of Some u \<Rightarrow> u | None \<Rightarrow> DEV_HOST));
          (session, ss, url) = (case hostAddress (tauri D) (validateHost D) url of
              Some u \<Rightarrow> (session, ss, u)
            | None \<Rightarrow> (None, if session \<noteq> None then clearSaved D ss else ss, DEV_HOST));
          s = s\<lparr>sa_baseUrl := url, sa_apiToken := map_option as_token session, sa_session := ss\<rparr>
      in case session of
           None \<Rightarrow> (s\<lparr>sa_online := answers\<rparr>, False)
         | Some x \<Rightarrow>
             (let s = s\<lparr>sa_token := Some (as_token x), sa_user := Some (as_user x)\<rparr>;
                  signedOut = s\<lparr>sa_session := clearSaved D ss, sa_user := None, sa_token := None\<rparr>
              in case me of
                   Me current \<Rightarrow>
                     (case saveSessionValue (tauri D) (saveOk D) SESSION_KEYS (showSession D (x\<lparr>as_user := current\<rparr>)) ss of
                        (True, ss') \<Rightarrow> (s\<lparr>sa_user := Some current, sa_session := ss', sa_online := True\<rparr>, \<not> mustChange current)
                      | (False, _) \<Rightarrow> (signedOut, False))
                 | MeRefused \<Rightarrow> (signedOut, False)
                 | MeOffline \<Rightarrow> (s, \<not> mustChange (as_user x))))"

text \<open>\<open>login\<close> with the host's answer; a session that cannot be saved throws after the state is set.\<close>

definition studentLogin :: "device \<Rightarrow> jsstring \<Rightarrow> json \<Rightarrow> jsstring \<Rightarrow> student_state \<Rightarrow> student_state" where
  "studentLogin D newToken account name s =
     s\<lparr>sa_apiToken := Some newToken, sa_token := Some newToken, sa_user := Some account, sa_online := True, offlineUnlocked := False,
       sa_known := sliceTo 12 (name # filter (\<lambda>n. n \<noteq> name) (sa_known s)),
       sa_session := snd (saveSessionValue (tauri D) (saveOk D) SESSION_KEYS
          (showSession D \<lparr>as_baseUrl = sa_baseUrl s, as_token = newToken, as_user = account\<rparr>) (sa_session s))\<rparr>"

definition studentLogout :: "device \<Rightarrow> student_state \<Rightarrow> student_state" where
  "studentLogout D s =
     s\<lparr>sa_session := clearSaved D (sa_session s), sa_apiToken := None, sa_token := None, sa_user := None,
       sa_view := (fst (sa_view s), fst (snd (sa_view s)), [], snd (snd (snd (sa_view s))))\<rparr>"

section \<open>Waiting work\<close>

text \<open>The loop over the outbox. \<open>False\<close> is the exception of a removal after a conflict.\<close>

fun flushAll :: "(jsstring \<Rightarrow> submit_outcome \<times> idb_outcome) \<Rightarrow> outbox_entry list \<Rightarrow> student_state \<Rightarrow> bool \<times> student_state" where
  "flushAll net [] s = (True, s)"
| "flushAll net (e # es) s =
     (let drop = (\<lambda>oc s. s\<lparr>sa_db := snd (removeOutbox oc (entry_key e) (sa_db s))\<rparr>) in
      case net (entry_key e) of
        (Accepted, oc) \<Rightarrow> flushAll net es (drop oc (s\<lparr>sa_log := sa_log s @ [(sa_user s, entry_work e)]\<rparr>))
      | (OtherFailure, _) \<Rightarrow> flushAll net es s
      | (Refused f, oc) \<Rightarrow>
          if offline f then (True, s)
          else if err_status f = 409 then (if oc = Completes then flushAll net es (drop oc s) else (False, drop oc s))
          else flushAll net es s)"

definition flushOutbox :: "idb_outcome \<Rightarrow> (jsstring \<Rightarrow> submit_outcome \<times> idb_outcome) \<Rightarrow> student_state \<Rightarrow> bool \<times> student_state" where
  "flushOutbox rd net s = (if rd \<noteq> Completes then (False, s) else flushAll net (outboxEntries (sa_db s)) s)"

section \<open>Loading\<close>

definition appKey :: "cache_name \<Rightarrow> jsstring" where
  "appKey n = cacheName n"

definition appCache :: "cache_name \<Rightarrow> student_value database \<Rightarrow> cached option" where
  "appCache n db = (case getItem (cacheOf db) (appKey n) of Some (SharedValue v) \<Rightarrow> Some v | _ \<Rightarrow> None)"

definition appCachedView :: "student_value database \<Rightarrow> classroom list \<times> assignment list \<times> (jsstring \<times> submission option) list \<times> study_node list" where
  "appCachedView db =
     ((case appCache ClassroomsName db of Some (CachedClassrooms v) \<Rightarrow> v | _ \<Rightarrow> []),
      (case appCache AssignmentsName db of Some (CachedAssignments v) \<Rightarrow> v | _ \<Rightarrow> []),
      (case appCache SubmissionsName db of Some (CachedSubmissions v) \<Rightarrow> v | _ \<Rightarrow> []),
      (case appCache TreeName db of Some (CachedTree v) \<Rightarrow> v | _ \<Rightarrow> []))"

definition writeAppCache :: "(cache_name \<Rightarrow> idb_outcome) \<Rightarrow> (cache_name \<times> cached) list \<Rightarrow> student_value database \<Rightarrow> student_value database" where
  "writeAppCache oc kvs db = fold (\<lambda>(n, v) db. snd (cacheSet (oc n) (appKey n) (SharedValue v) db)) kvs db"

definition goOffline :: "bool \<Rightarrow> student_state \<Rightarrow> student_state" where
  "goOffline readsOk s = (let s = s\<lparr>sa_online := False\<rparr> in if readsOk then s\<lparr>sa_view := appCachedView (sa_db s)\<rparr> else s)"

definition loadStudent ::
  "load_answer \<Rightarrow> (cache_name \<Rightarrow> idb_outcome) \<Rightarrow> idb_outcome \<Rightarrow> (jsstring \<Rightarrow> submit_outcome \<times> idb_outcome) \<Rightarrow> bool \<Rightarrow>
    student_state \<Rightarrow> student_state" where
  "loadStudent resp writes rd net readsOk s = (case resp of
      LoadFailed _ _ \<Rightarrow> goOffline readsOk s
    | Loaded rooms work tree mine \<Rightarrow>
        (let subs = newMap (map (\<lambda>a. (assignment_id a, mine (assignment_id a))) work);
             s = s\<lparr>sa_view := (rooms, work, subs, tree),
                   sa_db := writeAppCache writes
                     [(ClassroomsName, CachedClassrooms rooms), (AssignmentsName, CachedAssignments work),
                      (SubmissionsName, CachedSubmissions subs), (TreeName, CachedTree tree)] (sa_db s)\<rparr>
         in if \<exists>n \<in> {ClassroomsName, AssignmentsName, SubmissionsName, TreeName}. writes n \<noteq> Completes then goOffline readsOk s
            else (case flushOutbox rd net (s\<lparr>sa_online := True, offlineUnlocked := False\<rparr>) of
                (True, s) \<Rightarrow> s
              | (False, s) \<Rightarrow> goOffline readsOk s)))"

section \<open>Drafts and notes\<close>

definition draftKey :: "jsstring \<Rightarrow> jsstring" where
  "draftKey i = js ''assignment-draft:'' @ i"

definition noteKey :: "jsstring \<Rightarrow> jsstring" where
  "noteKey i = js ''note:'' @ i"

definition saveDraft :: "idb_outcome \<Rightarrow> jsstring \<Rightarrow> json \<Rightarrow> jsstring \<Rightarrow> student_state \<Rightarrow> student_state" where
  "saveDraft oc i doc text s = s\<lparr>sa_db := snd (cacheSet oc (draftKey i) (DraftValue doc text) (sa_db s))\<rparr>"

definition emptyDocument :: json where
  "emptyDocument = JObj [(js ''type'', JStr (js ''doc'')), (js ''content'', JArr [JObj [(js ''type'', JStr (js ''paragraph''))]])]"

text \<open>What an assignment opens with: the local draft, else the submitted version, else an empty document.\<close>

definition openDraft :: "jsstring \<Rightarrow> submission option \<Rightarrow> student_state \<Rightarrow> json \<times> jsstring" where
  "openDraft i existing s = (case getItem (cacheOf (sa_db s)) (draftKey i) of
      Some (DraftValue doc text) \<Rightarrow> (doc, text)
    | _ \<Rightarrow> (case existing of
          Some sub \<Rightarrow> (case submission_version sub of
              Some v \<Rightarrow> (version_doc_json v, version_plaintext v) | None \<Rightarrow> (emptyDocument, []))
        | None \<Rightarrow> (emptyDocument, [])))"

definition submissionKey :: "jsstring \<Rightarrow> jsstring" where
  "submissionKey i = js ''submission:'' @ i"

text \<open>\<open>submit\<close> of an assignment: the host's answer when online; a failure throws.\<close>

definition submitAssignment ::
  "jsstring \<Rightarrow> json \<Rightarrow> jsstring \<Rightarrow> bool \<Rightarrow> bool \<Rightarrow> idb_outcome \<Rightarrow> jsstring \<Rightarrow> student_state \<Rightarrow> student_state" where
  "submitAssignment i doc text resubmitted accepted oc now s =
     (if trim text = [] then s
      else if \<not> sa_online s then
        s\<lparr>sa_db := snd (queueOffline oc now (submissionKey i)
            (SubmissionWork \<lparr>sp_assignmentId = i, sp_doc = doc, sp_text = text, sp_note = Some (js ''Queued while offline'')\<rparr>) (sa_db s))\<rparr>
      else if \<not> accepted then s
      else s\<lparr>sa_log := sa_log s @ [(sa_user s, SubmissionWork \<lparr>sp_assignmentId = i, sp_doc = doc, sp_text = text,
                 sp_note = (if resubmitted then Some (js ''Updated work'') else None)\<rparr>)],
             sa_db := snd (cacheRemove oc (draftKey i) (sa_db s))\<rparr>)"

text \<open>Opening a note: the host's copy, which is also kept; when it cannot be kept, or the host does not answer, the copy of the cache,
  if there is one.\<close>

definition openNote :: "note_body option \<Rightarrow> idb_outcome \<Rightarrow> jsstring \<Rightarrow> student_state \<Rightarrow> note_body option \<times> student_state" where
  "openNote resp oc i s =
     (let cached = (case getItem (cacheOf (sa_db s)) (noteKey i) of Some (NoteValue b) \<Rightarrow> Some b | _ \<Rightarrow> None)
      in case resp of
           Some b \<Rightarrow>
             (if oc = Completes then Some b else (case cached of Some c \<Rightarrow> Some c | None \<Rightarrow> Some b),
              s\<lparr>sa_db := snd (cacheSet oc (noteKey i) (NoteValue b) (sa_db s))\<rparr>)
         | None \<Rightarrow> (cached, s))"

text \<open>The host's answer to a note that is saved: the new body, a conflict, or another failure.\<close>

datatype save_answer = NoteSaved note_body | NoteConflict | NoteFailed

definition saveNote ::
  "save_answer \<Rightarrow> idb_outcome \<Rightarrow> idb_outcome \<Rightarrow> jsstring \<Rightarrow> jsstring \<Rightarrow> json \<Rightarrow> jsstring \<Rightarrow> jsstring option \<Rightarrow> student_state \<Rightarrow> student_state" where
  "saveNote resp oc oc' now i doc text base s =
     (let queue = (\<lambda>s.
            (let s = s\<lparr>sa_db := snd (queueOffline oc now (noteKey i) (NoteWork \<lparr>np_id = i, np_doc = doc, np_text = text, np_base = base\<rparr>) (sa_db s))\<rparr>
             in if oc \<noteq> Completes then s
                else s\<lparr>sa_db := snd (cacheSet oc' (noteKey i) (NoteValue \<lparr>doc_json = doc, plaintext = text,
                       body_updated_at = (case base of Some b \<Rightarrow> b | None \<Rightarrow> now)\<rparr>) (sa_db s))\<rparr>))
      in if \<not> sa_online s then queue s
         else (case resp of
             NoteSaved b \<Rightarrow>
               (let s = s\<lparr>sa_log := sa_log s @ [(sa_user s, NoteWork \<lparr>np_id = i, np_doc = doc, np_text = text, np_base = base\<rparr>)]\<rparr>
                in if oc' = Completes then s\<lparr>sa_db := snd (cacheSet oc' (noteKey i) (NoteValue b) (sa_db s))\<rparr> else queue s)
           | NoteConflict \<Rightarrow> s
           | NoteFailed \<Rightarrow> queue s))"

section \<open>Lemmas\<close>

definition settled :: "(jsstring \<Rightarrow> submit_outcome \<times> idb_outcome) \<Rightarrow> outbox_entry \<Rightarrow> bool" where
  "settled net e \<longleftrightarrow> (case fst (net (entry_key e)) of Accepted \<Rightarrow> True | Refused f \<Rightarrow> err_status f = 409 | OtherFailure \<Rightarrow> False)"

lemma flushAll_smooth:
  assumes "smooth net"
  shows "fst (flushAll net es s) \<and>
    outboxOf (sa_db (snd (flushAll net es s))) = filter (\<lambda>p. fst p \<notin> entry_key ` {e \<in> set es. settled net e}) (outboxOf (sa_db s)) \<and>
    sa_log (snd (flushAll net es s)) =
      sa_log s @ map (\<lambda>e. (sa_user s, entry_work e)) (filter (\<lambda>e. fst (net (entry_key e)) = Accepted) es)"
proof (induction es arbitrary: s)
  case (Cons e es)
  obtain out oc where n: "net (entry_key e) = (out, oc)" by (cases "net (entry_key e)")
  have oc: "oc = Completes" and so: "out \<noteq> OtherFailure" "\<And>f. out = Refused f \<Longrightarrow> \<not> offline f"
    using assms [unfolded smooth_def, rule_format, of "entry_key e"] n by auto
  have split: "filter (\<lambda>p. fst p \<notin> K) (removeItem k st) = filter (\<lambda>p. fst p \<noteq> k \<and> fst p \<notin> K) st"
    for k :: jsstring and K and st :: "(jsstring, outbox_entry) store"
    by (auto simp: removeItem_def mapDelete_def intro: filter_cong)
  show ?case
  proof (cases out)
    case Accepted
    have "{x \<in> set (e # es). settled net x} = insert e {x \<in> set es. settled net x}" using n Accepted by (auto simp: settled_def)
    then show ?thesis using Cons.IH n Accepted oc by (simp add: split Let_def)
  next
    case (Refused f)
    show ?thesis
    proof (cases "err_status f = 409")
      case True
      then have "{x \<in> set (e # es). settled net x} = insert e {x \<in> set es. settled net x}" using n Refused by (auto simp: settled_def)
      then show ?thesis using Cons.IH n Refused oc so True by (simp add: split Let_def)
    next
      case False
      then have "{x \<in> set (e # es). settled net x} = {x \<in> set es. settled net x}" using n Refused by (auto simp: settled_def)
      then show ?thesis using Cons.IH [of s] n Refused oc so False by (simp add: Let_def)
    qed
  qed (use so in simp)
qed simp

section \<open>Properties\<close>

text \<open>A saved token is only ever used with a host address that passed the check of the device: when the app has started and its
  connection carries a token, it is the token of the saved session, and the address it goes to is what the check made of
  the address saved with it; when the check refuses, there is no token and nobody is signed in.\<close>

theorem startup_guards_token:
  assumes "sa_user s = None" "startup D config me answers s = (s', next)"
  shows "(case sa_apiToken s' of
      None \<Rightarrow> sa_user s' = None
    | Some tok \<Rightarrow> \<exists>x. fst (storedSession D (sa_session s)) = Some x \<and> as_token x = tok \<and>
        hostAddress (tauri D) (validateHost D) (as_baseUrl x) = Some (sa_baseUrl s'))"
  using assms unfolding startup_def Let_def
  by (auto split: prod.splits option.splits me_answer.splits bool.splits)

definition demoDevice :: device where
  "demoDevice = \<lparr>tauri = True, loadOk = True, saveOk = True, clearOk = True,
     validateHost = (\<lambda>u. if u = js ''http://10.0.0.2:7373'' then Some u else None),
     parseJson = (\<lambda>s. if s = js ''saved'' then Inr (JObj [(js ''baseUrl'', JStr (js ''http://10.0.0.2:7373/'')), (js ''token'', JStr (js ''tok'')),
        (js ''user'', JObj [(js ''role'', JStr (js ''student''))])]) else Inl []),
     showSession = (\<lambda>_. js ''saved'')\<rparr>"

definition demoStudent :: student_state where
  "demoStudent = \<lparr>sa_baseUrl = [], sa_apiToken = None, sa_user = None, sa_token = None, sa_online = False, offlineUnlocked = False,
     sa_known = [], sa_view = ([], [], [], []), sa_session = \<lparr>native = Some (js ''saved''), web = []\<rparr>, sa_db = demoDatabase, sa_log = []\<rparr>"

theorem startup_guards_token_witness:
  "let s' = fst (startup demoDevice None MeOffline True demoStudent) in
   sa_apiToken s' = Some (js ''tok'') \<and> sa_baseUrl s' = js ''http://10.0.0.2:7373'' \<and>
   (case sa_apiToken s' of None \<Rightarrow> False | Some tok \<Rightarrow> \<exists>x. fst (storedSession demoDevice (sa_session demoStudent)) = Some x \<and> as_token x = tok)"
proof -
  have u: "sa_user demoStudent = None" by (simp add: demoStudent_def)
  have e: "sa_apiToken (fst (startup demoDevice None MeOffline True demoStudent)) = Some (js ''tok'')"
    "sa_baseUrl (fst (startup demoDevice None MeOffline True demoStudent)) = js ''http://10.0.0.2:7373''" by code_simp+
  show ?thesis using startup_guards_token [OF u prod.collapse [symmetric], of demoDevice None MeOffline True] e unfolding Let_def by auto
qed


text \<open>Two students after each other at one device: the first hands in without the host and signs out, the second signs in.\<close>

definition secondStudent :: student_state where
  "secondStudent = studentLogin demoDevice (js ''tok2'') (JStr (js ''ravi'')) (js ''ravi'')
     (studentLogout demoDevice
       (submitAssignment (js ''essay'') JNull (js ''mine'') False False Completes [] (demoStudent\<lparr>sa_user := Some (JStr (js ''asha''))\<rparr>)))"


text \<open>What is written without the host is what the device shows without the host: a note saved offline opens with exactly its document
  and text, and a draft opens as it was left, whichever other notes and drafts were edited since.\<close>

theorem offline_edits_read_back:
  assumes "\<not> sa_online s" "i \<noteq> j"
  shows "map_option (\<lambda>b. (doc_json b, plaintext b))
      (fst (openNote None Completes i (saveNote resp Completes Completes now' j doc' text' base' (saveNote resp Completes Completes now i doc text base s)))) =
      Some (doc, text) \<and>
    openDraft i existing (saveDraft Completes j doc' text' (saveDraft Completes i doc text s)) = (doc, text)"
proof -
  have "noteKey i \<noteq> noteKey j" "draftKey i \<noteq> draftKey j" using assms(2) by (simp_all add: noteKey_def draftKey_def)
  then show ?thesis using assms(1) by (simp add: openNote_def saveNote_def openDraft_def saveDraft_def Let_def ls.get_put)
qed

theorem offline_edits_read_back_witness:
  "map_option (\<lambda>b. (doc_json b, plaintext b))
     (fst (openNote None Completes (js ''a'') (saveNote NoteFailed Completes Completes [] (js ''b'') JNull [] None
        (saveNote NoteFailed Completes Completes [] (js ''a'') JNull (js ''text'') None demoStudent)))) = Some (JNull, js ''text'')"
proof -
  have "\<not> sa_online demoStudent" "js ''a'' \<noteq> js ''b''" by (simp_all add: demoStudent_def js_def)
  from offline_edits_read_back [OF this] show ?thesis by blast
qed

text \<open>Two ways in which waiting work goes wrong, both when an entry outlives what made it. A note edited offline that meets a
  newer copy on the host is dropped from the outbox, and opening it then replaces the only other copy of the text. And work
  queued offline that the host was too busy to take is sent again after newer work the student handed in directly, so the
  older version becomes the latest.\<close>

theorem waiting_work_limits:
  assumes "\<not> sa_online s" "outboxOf (sa_db s) = []" "trim text \<noteq> []" "trim text' \<noteq> []"
  shows "(let s1 = saveNote NoteFailed Completes Completes now i doc text base s;
              s2 = snd (flushOutbox Completes (\<lambda>_. (Refused \<lparr>err_code = [], err_message = [], err_status = 409\<rparr>, Completes)) s1);
              (b', s3) = openNote (Some b) Completes i s2
          in outboxOf (sa_db s3) = [] \<and> getItem (cacheOf (sa_db s3)) (noteKey i) = Some (NoteValue b) \<and> sa_log s3 = sa_log s) \<and>
    (let s1 = submitAssignment i doc text False False Completes now s;
         s2 = submitAssignment i doc text' True True Completes now' (s1\<lparr>sa_online := True\<rparr>);
         s3 = snd (flushOutbox Completes (\<lambda>_. (Accepted, Completes)) s2)
     in map snd (sa_log s3) = map snd (sa_log s) @
          [SubmissionWork \<lparr>sp_assignmentId = i, sp_doc = doc, sp_text = text', sp_note = Some (js ''Updated work'')\<rparr>,
           SubmissionWork \<lparr>sp_assignmentId = i, sp_doc = doc, sp_text = text, sp_note = Some (js ''Queued while offline'')\<rparr>])"
  using assms
  by (simp add: saveNote_def flushOutbox_def openNote_def submitAssignment_def outboxEntries_def setItem_def removeItem_def mapDelete_def offline_def
      ls.get_put [unfolded setItem_def] Let_def)

theorem waiting_work_limits_witness:
  "let s1 = submitAssignment (js ''i'') JNull (js ''old'') False False Completes [] demoStudent;
       s2 = submitAssignment (js ''i'') JNull (js ''new'') True True Completes [] (s1\<lparr>sa_online := True\<rparr>);
       s3 = snd (flushOutbox Completes (\<lambda>_. (Accepted, Completes)) s2)
   in map (\<lambda>e. case snd e of SubmissionWork p \<Rightarrow> sp_text p | NoteWork _ \<Rightarrow> []) (sa_log s3) = [js ''new'', js ''old'']"
proof -
  have h: "\<not> sa_online demoStudent" "outboxOf (sa_db demoStudent) = []" "trim (js ''old'') \<noteq> []" "trim (js ''new'') \<noteq> []"
    by (simp_all add: demoStudent_def demoDatabase_def outboxOf_def) code_simp+
  have l: "sa_log demoStudent = []" by (simp add: demoStudent_def)
  have m: "map (\<lambda>e. f (snd e)) xs = map f (map snd xs)" for f :: "outbox_payload \<Rightarrow> jsstring" and xs :: "(json option \<times> outbox_payload) list" by simp
  show ?thesis unfolding Let_def m
    using waiting_work_limits [OF h, of "[]" "js ''i''" JNull None "\<lparr>doc_json = JNull, plaintext = [], body_updated_at = []\<rparr>" "[]"] l
    unfolding Let_def by simp
qed

end
