(* ===== verification/Student_Device.thy ===== *)
theory Student_Device
  imports Student_App
begin

text \<open>
  What the device of a student is set up with, and what it asks before it shows work (\<open>apps/student/src/App.tsx\<close>): the change of the
  connection, the lock while the host is away, the forms of the connection, of a first password and of a recovery, and the clearing
  of the device's copies. The label of the device, which only names sessions on the host, is not part of the state.
\<close>

section \<open>Lock\<close>

datatype student_screen = SignInScreen | LockScreen | WorkScreen

definition studentScreen :: "student_state \<Rightarrow> student_screen" where
  "studentScreen s = (case sa_user s of
      None \<Rightarrow> SignInScreen
    | Some u \<Rightarrow> if \<not> sa_online s \<and> \<not> offlineUnlocked s \<and> \<not> mustChange u then LockScreen else WorkScreen)"

definition continueOffline :: "student_state \<Rightarrow> student_state" where
  "continueOffline s = s\<lparr>offlineUnlocked := True\<rparr>"

section \<open>The connection\<close>

text \<open>\<open>saveConnection\<close>: a check of the address or a native call that fails throws before anything changes (\<open>Inl\<close>, what the form shows);
  otherwise the state with whether the workspace is loaded next. A session that is not saved throws when the form is closed already.\<close>

definition saveStudentConnection ::
  "device \<Rightarrow> jsstring \<Rightarrow> bool \<Rightarrow> bool \<Rightarrow> student_state \<Rightarrow> jsstring + student_state \<times> bool" where
  "saveStudentConnection D nextUrl answers configSaved s = (case hostAddress (tauri D) (validateHost D) nextUrl of
      None \<Rightarrow> Inl (js ''Connection failed.'')
    | Some u \<Rightarrow>
        if \<not> answers then Inl (js ''No Cinder Teacher app answered at that address.'')
        else if tauri D \<and> \<not> configSaved then Inl (js ''Connection failed.'')
        else
          (let s = s\<lparr>sa_baseUrl := u, sa_apiToken := sa_token s, sa_online := True\<rparr>
           in case (sa_user s, sa_token s) of
                (Some account, Some (c # cs)) \<Rightarrow>
                  (case saveSessionValue (tauri D) (saveOk D) SESSION_KEYS
                      (showSession D \<lparr>as_baseUrl = u, as_token = c # cs, as_user = account\<rparr>) (sa_session s) of
                    (ok, ss) \<Rightarrow> Inr (s\<lparr>sa_session := ss\<rparr>, ok))
              | _ \<Rightarrow> Inr (s, False)))"

record student_connection =
  sk_url :: jsstring
  sk_found :: "jsstring list"
  sk_busy :: bool
  sk_error :: jsstring

definition openConnection :: "jsstring \<Rightarrow> student_connection" where
  "openConnection url = \<lparr>sk_url = url, sk_found = [], sk_busy = False, sk_error = []\<rparr>"

text \<open>\<open>discover\<close>, and the answer of the native search (\<open>None\<close>: it fails) or the host of development in a browser.\<close>

definition findTeacherStart :: "student_connection \<Rightarrow> student_connection" where
  "findTeacherStart f = (if sk_busy f then f else f\<lparr>sk_busy := True, sk_error := []\<rparr>)"

definition discoverTeacher :: "bool \<Rightarrow> jsstring list option \<Rightarrow> student_connection \<Rightarrow> student_connection" where
  "discoverTeacher installed reply f = (case (if installed then reply else Some [DEV_HOST]) of
      Some hosts \<Rightarrow> f\<lparr>sk_found := hosts, sk_url := (case hosts of h # _ \<Rightarrow> if h = [] then sk_url f else h | [] \<Rightarrow> sk_url f), sk_busy := False,
        sk_error := (if hosts = [] then js ''No teacher app was found automatically. Enter its address below.'' else sk_error f)\<rparr>
    | None \<Rightarrow> f\<lparr>sk_busy := False, sk_error := js ''Automatic discovery was unavailable. Enter the address manually.''\<rparr>)"

text \<open>\<open>onSubmit\<close>: the button needs an address and nothing on its way; the second component is the address sent.\<close>

definition connectStart :: "student_connection \<Rightarrow> student_connection \<times> jsstring option" where
  "connectStart f = (if sk_busy f \<or> trim (sk_url f) = [] then (f, None) else (f\<lparr>sk_busy := True, sk_error := []\<rparr>, Some (sk_url f)))"

text \<open>The form stays open, with the message, when the change is refused.\<close>

definition connectAnswered ::
  "device \<Rightarrow> jsstring \<Rightarrow> bool \<Rightarrow> bool \<Rightarrow> student_connection \<Rightarrow> student_state \<Rightarrow> student_connection option \<times> student_state \<times> bool" where
  "connectAnswered D url answers configSaved f s = (case saveStudentConnection D url answers configSaved s of
      Inl e \<Rightarrow> (Some (f\<lparr>sk_busy := False, sk_error := e\<rparr>), s, False)
    | Inr (s', go) \<Rightarrow> (None, s', go))"

section \<open>Passwords\<close>

text \<open>The form of a first password (\<open>PasswordChange\<close> of \<open>packages/ui/src/components.tsx\<close>): a message, or the two passwords that are sent.\<close>

definition passwordSubmit :: "jsstring \<Rightarrow> jsstring \<Rightarrow> jsstring \<Rightarrow> jsstring + jsstring \<times> jsstring" where
  "passwordSubmit current new confirm =
     (if length new < 8 then Inl (js ''Use at least 8 characters.'')
      else if new \<noteq> confirm then Inl (js ''The passwords do not match.'')
      else Inr (current, new))"

text \<open>What follows a change that the host accepted; \<open>False\<close>: the session was not saved, which throws before the workspace is loaded.\<close>

definition passwordChanged :: "device \<Rightarrow> json \<Rightarrow> student_state \<Rightarrow> student_state \<times> bool" where
  "passwordChanged D updated s =
     (let s = s\<lparr>sa_user := Some updated\<rparr>
      in case sa_token s of
           Some (c # cs) \<Rightarrow> (case saveSessionValue (tauri D) (saveOk D) SESSION_KEYS
               (showSession D \<lparr>as_baseUrl = sa_baseUrl s, as_token = c # cs, as_user = updated\<rparr>) (sa_session s) of
             (ok, ss) \<Rightarrow> (s\<lparr>sa_session := ss\<rparr>, ok))
         | _ \<Rightarrow> (s, True))"

text \<open>The form of a recovery (\<open>RecoveryModal\<close>): the button (\<open>None\<close>), a message, or what is sent.\<close>

definition recoverySubmit :: "jsstring \<Rightarrow> jsstring \<Rightarrow> jsstring \<Rightarrow> jsstring \<Rightarrow> (jsstring + jsstring \<times> jsstring \<times> jsstring) option" where
  "recoverySubmit name code new confirm =
     (if trim name = [] \<or> trim code = [] \<or> length new < 8 then None
      else if new \<noteq> confirm then Some (Inl (js ''The passwords do not match.''))
      else Some (Inr (trim name, trim code, new)))"

section \<open>Copies of the device\<close>

text \<open>The button that clears the device's copies; the workspace is loaded again when it has.\<close>

definition clearLocalCache :: "idb_outcome \<Rightarrow> idb_outcome \<Rightarrow> student_state \<Rightarrow> student_state \<times> bool" where
  "clearLocalCache oc oc' s = (case clearStudentCache oc oc' (sa_db s) of (ok, db) \<Rightarrow> (s\<lparr>sa_db := db\<rparr>, ok))"

section \<open>Lemmas\<close>

lemma saveSession_ok: "fst (saveSessionValue installed True keys v st)"
  by (simp add: saveSessionValue_def)

lemma flushAll_cache: "cacheOf (sa_db (snd (flushAll net es s))) = cacheOf (sa_db s)"
  by (induction net es s rule: flushAll.induct) (auto simp: Let_def split: prod.splits submit_outcome.splits)

lemma flushOutbox_cache: "cacheOf (sa_db (snd (flushOutbox rd net s))) = cacheOf (sa_db s)"
  by (simp add: flushOutbox_def flushAll_cache)

lemma goOffline_db [simp]: "sa_db (goOffline b s) = sa_db s"
  by (simp add: goOffline_def Let_def)

lemma goOffline_view: "sa_view (goOffline True s) = appCachedView (sa_db s)" "sa_user (goOffline b s) = sa_user s" "\<not> sa_online (goOffline b s)"
  by (simp_all add: goOffline_def Let_def)

lemma appCachedView_cong: "cacheOf d = cacheOf d' \<Longrightarrow> appCachedView d = appCachedView d'"
  by (simp add: appCachedView_def appCache_def)

lemma appCachedView_written:
  "appCachedView (writeAppCache (\<lambda>_. Completes)
     [(ClassroomsName, CachedClassrooms rooms), (AssignmentsName, CachedAssignments work), (SubmissionsName, CachedSubmissions subs), (TreeName, CachedTree tree)] d) =
   (rooms, work, subs, tree)"
proof -
  have g: "appCache m (snd (cacheSet Completes (appKey n) (SharedValue v) db)) = (if m = n then Some v else appCache m db)" for m n v db
    unfolding appCache_def appKey_def cacheOf_ops by (simp add: ls.get_put cacheName_inj)
  show ?thesis unfolding appCachedView_def writeAppCache_def by (simp only: fold_simps comp_apply id_apply prod.case g) simp
qed

lemma loaded_view:
  assumes "s1 = loadStudent (Loaded rooms work tree mine) (\<lambda>_. Completes) rd net readsOk s"
  shows "appCachedView (sa_db s1) = (rooms, work, newMap (map (\<lambda>a. (assignment_id a, mine (assignment_id a))) work), tree)"
proof -
  define subs where "subs = newMap (map (\<lambda>a. (assignment_id a, mine (assignment_id a))) work)"
  define d where "d = writeAppCache (\<lambda>_. Completes)
     [(ClassroomsName, CachedClassrooms rooms), (AssignmentsName, CachedAssignments work), (SubmissionsName, CachedSubmissions subs), (TreeName, CachedTree tree)] (sa_db s)"
  define u where "u = (s\<lparr>sa_view := (rooms, work, subs, tree), sa_db := d\<rparr>)\<lparr>sa_online := True, offlineUnlocked := False\<rparr>"
  obtain ok t where f: "flushOutbox rd net u = (ok, t)" by (cases "flushOutbox rd net u")
  have t: "cacheOf (sa_db t) = cacheOf d" using flushOutbox_cache [of rd net u] f by (simp add: u_def)
  have "s1 = (case flushOutbox rd net u of (True, s) \<Rightarrow> s | (False, s) \<Rightarrow> goOffline readsOk s)"
    unfolding assms loadStudent_def u_def d_def subs_def Let_def by simp
  then have "cacheOf (sa_db s1) = cacheOf d" using t f by (cases ok) simp_all
  then have "appCachedView (sa_db s1) = appCachedView d" by (rule appCachedView_cong)
  also have "\<dots> = (rooms, work, subs, tree)" unfolding d_def by (rule appCachedView_written)
  finally show ?thesis unfolding subs_def .
qed

lemma flushAll_screen:
  "sa_user (snd (flushAll net es s)) = sa_user s \<and> offlineUnlocked (snd (flushAll net es s)) = offlineUnlocked s"
  by (induction net es s rule: flushAll.induct) (auto simp: Let_def split: prod.splits submit_outcome.splits)

lemma flushOutbox_screen:
  "sa_user (snd (flushOutbox rd net s)) = sa_user s" "offlineUnlocked (snd (flushOutbox rd net s)) = offlineUnlocked s"
  by (simp_all add: flushOutbox_def flushAll_screen)

lemma goOffline_unlocked [simp]: "offlineUnlocked (goOffline b s) = offlineUnlocked s"
  by (simp add: goOffline_def Let_def)

lemma loaded_screen:
  assumes "s1 = loadStudent (Loaded rooms work tree mine) (\<lambda>_. Completes) rd net readsOk s"
  shows "sa_user s1 = sa_user s \<and> \<not> offlineUnlocked s1"
proof -
  define u where "u = (let subs = newMap (map (\<lambda>a. (assignment_id a, mine (assignment_id a))) work) in
    (s\<lparr>sa_view := (rooms, work, subs, tree), sa_db := writeAppCache (\<lambda>_. Completes)
     [(ClassroomsName, CachedClassrooms rooms), (AssignmentsName, CachedAssignments work), (SubmissionsName, CachedSubmissions subs), (TreeName, CachedTree tree)] (sa_db s)\<rparr>)
     \<lparr>sa_online := True, offlineUnlocked := False\<rparr>)"
  obtain ok t where f: "flushOutbox rd net u = (ok, t)" by (cases "flushOutbox rd net u")
  have "sa_user t = sa_user s \<and> \<not> offlineUnlocked t" using flushOutbox_screen [of rd net u] f by (simp add: u_def Let_def)
  moreover have "s1 = (case flushOutbox rd net u of (True, s) \<Rightarrow> s | (False, s) \<Rightarrow> goOffline readsOk s)"
    unfolding assms loadStudent_def u_def Let_def by simp
  ultimately show ?thesis using f by (cases ok) (simp_all add: goOffline_view)
qed

section \<open>Properties\<close>


definition movingStudent :: student_state where
  "movingStudent = demoStudent\<lparr>sa_user := Some (JStr (js ''asha'')), sa_token := Some (js ''tok''),
     sa_db := snd (queueOffline Completes [] (submissionKey (js ''essay''))
       (SubmissionWork \<lparr>sp_assignmentId = js ''essay'', sp_doc = JNull, sp_text = js ''mine'', sp_note = None\<rparr>) demoDatabase)\<rparr>"


text \<open>Clearing the local copies throws away the work that waits for the host as well: nothing of it was sent, nothing of it is
  ever sent, and no draft or note opens with what was written; the button and its page speak of a cache.\<close>

theorem clearing_drops_waiting_work:
  "case clearLocalCache Completes Completes s of (s', ok) \<Rightarrow>
     ok \<and> outboxOf (sa_db s') = [] \<and> sa_log (snd (flushOutbox rd net s')) = sa_log s \<and>
     openDraft i None s' = (emptyDocument, []) \<and> fst (openNote None oc i s') = None"
  by (simp add: clearLocalCache_def clearStudentCache_def transactionDone_def flushOutbox_def outboxEntries_def openDraft_def openNote_def getItem_def)


definition ashasNote :: study_node where
  "ashasNote = \<lparr>node_id = js ''n1'', node_owner_id = Some (js ''asha''), node_parent_id = None, node_classroom_id = None, node_name = js ''Diary'',
     node_kind = NoteNode, node_position = 0, node_icon = None, node_created_at = [], node_updated_at = []\<rparr>"


text \<open>While the host is away a student who has nothing to change first sees the lock and nothing of the work until choosing the copies;
  the choice lasts until the host answers again, and the next failure locks again.\<close>

theorem lock_returns_after_host:
  assumes "sa_user s = Some u" "\<not> mustChange u" "\<not> offlineUnlocked s"
  shows "let away = loadStudent (LoadFailed b msg) writes rd net readsOk;
             back = loadStudent (Loaded rooms work tree mine) (\<lambda>_. Completes) Completes net readsOk
         in studentScreen (away s) = LockScreen \<and> studentScreen (continueOffline (away s)) = WorkScreen \<and>
            studentScreen (away (continueOffline s)) = WorkScreen \<and>
            studentScreen (away (back (continueOffline (away s)))) = LockScreen"
proof -
  have away: "loadStudent (LoadFailed b msg) writes rd net readsOk x = goOffline readsOk x" for x by (simp add: loadStudent_def)
  show ?thesis using assms loaded_screen [OF refl, of rooms work tree mine Completes net readsOk "continueOffline (goOffline readsOk s)"]
    unfolding Let_def away by (simp add: studentScreen_def continueOffline_def goOffline_view)
qed

theorem lock_returns_after_host_witness:
  "studentScreen (loadStudent (LoadFailed True []) (\<lambda>_. Completes) Completes (\<lambda>_. (Accepted, Completes)) True
     (demoStudent\<lparr>sa_user := Some (JStr (js ''asha''))\<rparr>)) = LockScreen"
proof -
  have "sa_user (demoStudent\<lparr>sa_user := Some (JStr (js ''asha''))\<rparr>) = Some (JStr (js ''asha''))" "\<not> mustChange (JStr (js ''asha''))"
    "\<not> offlineUnlocked (demoStudent\<lparr>sa_user := Some (JStr (js ''asha''))\<rparr>)"
    by (simp_all add: mustChange_def demoStudent_def)
  from lock_returns_after_host [OF this] show ?thesis unfolding Let_def by blast
qed

end
