(* ===== verification/Student_Notes.thy ===== *)
theory Student_Notes
  imports Student_App
begin

text \<open>
  The notes and the drafts of the classroom computer (\<open>NotesView\<close> and \<open>AssignmentsView\<close> of \<open>apps/student/src/App.tsx\<close>) as state
  machines over the operations of \<open>Student_App\<close>: which note is selected, the body and the draft on show, the timer that saves
  after a pause, and the requests on their way with what their continuation captured; for an assignment, the draft that is
  opened by an effect, its saving at every change, and its submission.

  Some fields are there for the statements only and influence nothing: \<open>nv_source\<close> and \<open>nv_bodyOf\<close>, the notes that the draft and the
  body on show came from, \<open>ns_from\<close> and \<open>ns_baseOf\<close>, the same of a text to be saved, and \<open>dv_from\<close> and \<open>sc_from\<close> for drafts.
\<close>

section \<open>Notes\<close>

record note_save =
  ns_id :: jsstring
  ns_doc :: json
  ns_text :: jsstring
  ns_base :: jsstring
  ns_online :: bool
  ns_from :: "jsstring option"
  ns_baseOf :: "jsstring option"

text \<open>A creation holds the number of the form it came from and the nodes as they were when it was sent.\<close>

datatype notes_call =
    OpenNoteCall jsstring
  | SaveNoteCall note_save
  | CreateNoteCall nat "study_node list" jsstring "jsstring option"

record notes_view =
  nv_app :: student_state
  nv_nodes :: "study_node list"
  nv_selected :: "jsstring option"
  nv_body :: "note_body option"
  nv_source :: "jsstring option"
  nv_bodyOf :: "jsstring option"
  nv_draft :: "json \<times> jsstring"
  nv_status :: jsstring
  nv_timer :: "note_save option"
  nv_form :: "(nat \<times> bool) option"
  nv_forms :: nat
  nv_calls :: "notes_call list"

definition ownNotes :: "study_node list \<Rightarrow> study_node list" where
  "ownNotes ns = filter (\<lambda>n. node_kind n = NoteNode \<and> node_owner_id n \<noteq> None \<and> node_owner_id n \<noteq> Some []) ns"

definition startNotes :: "student_state \<Rightarrow> study_node list \<Rightarrow> notes_view" where
  "startNotes app ns =
     (let i = (case ownNotes ns of n # _ \<Rightarrow> Some (node_id n) | [] \<Rightarrow> None)
      in \<lparr>nv_app = app, nv_nodes = ns, nv_selected = i, nv_body = None, nv_source = None, nv_bodyOf = None, nv_draft = (emptyDocument, []),
          nv_status = [], nv_timer = None, nv_form = None, nv_forms = 0, nv_calls = (case i of Some x \<Rightarrow> [OpenNoteCall x] | None \<Rightarrow> [])\<rparr>)"

text \<open>The effect that opens a note runs when another one is selected; what is on show stays until the answer.\<close>

definition selectNote :: "jsstring \<Rightarrow> notes_view \<Rightarrow> notes_view" where
  "selectNote i s =
     (if nv_selected s = Some i then s else s\<lparr>nv_selected := Some i, nv_calls := nv_calls s @ [OpenNoteCall i]\<rparr>)"

definition noteShown :: "notes_view \<Rightarrow> (jsstring \<times> note_body) option" where
  "noteShown s = (case (nv_selected s, nv_body s) of
      (Some i, Some b) \<Rightarrow> if i \<in> node_id ` set (ownNotes (nv_nodes s)) then Some (i, b) else None
    | _ \<Rightarrow> None)"

definition saveOf :: "jsstring \<Rightarrow> note_body \<Rightarrow> json \<Rightarrow> jsstring \<Rightarrow> notes_view \<Rightarrow> note_save" where
  "saveOf i b doc txt s = \<lparr>ns_id = i, ns_doc = doc, ns_text = txt, ns_base = body_updated_at b, ns_online = sa_online (nv_app s), 
     ns_from = nv_source s, ns_baseOf = nv_bodyOf s\<rparr>"

text \<open>A change of the document: one timer for all notes.\<close>

definition editNote :: "json \<Rightarrow> jsstring \<Rightarrow> notes_view \<Rightarrow> notes_view" where
  "editNote doc txt s = (case noteShown s of
      Some (i, b) \<Rightarrow> s\<lparr>nv_draft := (doc, txt), nv_timer := Some (saveOf i b doc txt s)\<rparr>
    | None \<Rightarrow> s)"

definition startSave :: "note_save \<Rightarrow> notes_view \<Rightarrow> notes_view" where
  "startSave v s = s\<lparr>nv_status := js ''Saving'' @ [8230], nv_calls := nv_calls s @ [SaveNoteCall v]\<rparr>"

definition saveNow :: "notes_view \<Rightarrow> notes_view" where
  "saveNow s = (case noteShown s of
      Some (i, b) \<Rightarrow> startSave (saveOf i b (fst (nv_draft s)) (snd (nv_draft s)) s) s
    | None \<Rightarrow> s)"

definition noteTimerFires :: "notes_view \<Rightarrow> notes_view" where
  "noteTimerFires s = (case nv_timer s of Some v \<Rightarrow> startSave v (s\<lparr>nv_timer := None\<rparr>) | None \<Rightarrow> s)"

text \<open>The answer to the effect: the host's note, else the one of the cache.\<close>

definition noteOpened :: "jsstring \<Rightarrow> note_body option \<Rightarrow> idb_outcome \<Rightarrow> notes_view \<Rightarrow> notes_view" where
  "noteOpened i resp oc s =
     (let r = openNote resp oc i (nv_app s); s1 = s\<lparr>nv_app := snd r\<rparr>
      in (case fst r of
          Some b \<Rightarrow> s1\<lparr>nv_body := Some b, nv_draft := (doc_json b, plaintext b), nv_source := Some i, nv_bodyOf := Some i\<rparr>
        | None \<Rightarrow> s1))"

definition storedStatus :: "bool \<Rightarrow> save_answer \<Rightarrow> idb_outcome \<Rightarrow> idb_outcome \<Rightarrow> jsstring \<Rightarrow> jsstring" where
  "storedStatus up resp oc oc' old =
     (let queued = (if oc = Completes \<and> oc' = Completes then js ''Saved offline'' @ [8212] @ js ''waiting to sync'' else old)
      in if \<not> up then queued
         else (case resp of
             NoteSaved _ \<Rightarrow> if oc' = Completes then js ''Saved'' else queued
           | NoteConflict \<Rightarrow> js ''Newer copy found'' @ [8212] @ js ''reload before saving''
           | NoteFailed \<Rightarrow> queued))"

text \<open>The answer to a save; whether there was a connection is what the rendering of the change knew.\<close>

definition noteStored :: "note_save \<Rightarrow> save_answer \<Rightarrow> idb_outcome \<Rightarrow> idb_outcome \<Rightarrow> jsstring \<Rightarrow> notes_view \<Rightarrow> notes_view" where
  "noteStored v resp oc oc' now s =
     (let app = saveNote resp oc oc' now (ns_id v) (ns_doc v) (ns_text v) (Some (ns_base v)) ((nv_app s)\<lparr>sa_online := ns_online v\<rparr>);
          s1 = s\<lparr>nv_app := app\<lparr>sa_online := sa_online (nv_app s)\<rparr>, nv_status := storedStatus (ns_online v) resp oc oc' (nv_status s)\<rparr>
      in (case resp of
          NoteSaved b \<Rightarrow> if ns_online v then s1\<lparr>nv_body := Some b, nv_bodyOf := Some (ns_id v)\<rparr> else s1
        | _ \<Rightarrow> s1))"

text \<open>The form of a new note: opened with a connection, sent once, and closed by the answer, which selects the note. When the tree cannot
  be kept, the note is in the list and the form stays.\<close>

definition openNoteForm :: "notes_view \<Rightarrow> notes_view" where
  "openNoteForm s = (if sa_online (nv_app s) \<and> nv_form s = None then s\<lparr>nv_form := Some (nv_forms s, False), nv_forms := Suc (nv_forms s)\<rparr> else s)"

definition submitNoteForm :: "jsstring \<Rightarrow> jsstring \<Rightarrow> notes_view \<Rightarrow> notes_view" where
  "submitNoteForm name room s = (case nv_form s of
      Some (n, busy) \<Rightarrow> if busy \<or> trim name = [] then s
        else s\<lparr>nv_form := Some (n, True), nv_calls := nv_calls s @ [CreateNoteCall n (nv_nodes s) (trim name) (if room = [] then None else Some room)]\<rparr>
    | None \<Rightarrow> s)"

definition formIdle :: "nat \<Rightarrow> notes_view \<Rightarrow> notes_view" where
  "formIdle n s = (case nv_form s of Some (m, busy) \<Rightarrow> if m = n then s\<lparr>nv_form := Some (m, False)\<rparr> else s | None \<Rightarrow> s)"

definition noteCreated :: "nat \<Rightarrow> study_node list \<Rightarrow> study_node option \<Rightarrow> idb_outcome \<Rightarrow> notes_view \<Rightarrow> notes_view" where
  "noteCreated n captured answer_node oc s = (case answer_node of
      None \<Rightarrow> formIdle n s
    | Some node \<Rightarrow>
        (let known = captured @ [node];
             s = s\<lparr>nv_nodes := known, nv_app := (nv_app s)\<lparr>sa_db := snd (cacheSet oc (appKey TreeName) (SharedValue (CachedTree known)) (sa_db (nv_app s)))\<rparr>\<rparr>
         in if oc = Completes then (selectNote (node_id node) s)\<lparr>nv_form := None\<rparr> else formIdle n s))"

datatype notes_event =
    SelectNote jsstring | EditNote json jsstring | SaveNow | TimerFires
  | NoteOpened nat "note_body option" idb_outcome | NoteStored nat save_answer idb_outcome idb_outcome jsstring
  | OpenNoteForm | CloseNoteForm | SubmitNoteForm jsstring jsstring | NoteCreated nat "study_node option" idb_outcome
  | NodesChanged "study_node list" | ConnectionChanged bool

definition takeNoteCall :: "nat \<Rightarrow> notes_view \<Rightarrow> notes_view" where
  "takeNoteCall k s = s\<lparr>nv_calls := take k (nv_calls s) @ drop (Suc k) (nv_calls s)\<rparr>"

definition noteCallAt :: "nat \<Rightarrow> notes_view \<Rightarrow> notes_call option" where
  "noteCallAt k s = (if k < length (nv_calls s) then Some (nv_calls s ! k) else None)"

fun notesStep :: "notes_event \<Rightarrow> notes_view \<Rightarrow> notes_view" where
  "notesStep (SelectNote i) s = (if i \<in> node_id ` set (ownNotes (nv_nodes s)) then selectNote i s else s)"
| "notesStep (EditNote doc txt) s = editNote doc txt s"
| "notesStep SaveNow s = saveNow s"
| "notesStep TimerFires s = noteTimerFires s"
| "notesStep (NoteOpened k resp oc) s = (case noteCallAt k s of
      Some (OpenNoteCall i) \<Rightarrow> noteOpened i resp oc (takeNoteCall k s) | _ \<Rightarrow> s)"
| "notesStep (NoteStored k resp oc oc' now) s = (case noteCallAt k s of
      Some (SaveNoteCall v) \<Rightarrow> noteStored v resp oc oc' now (takeNoteCall k s) | _ \<Rightarrow> s)"
| "notesStep OpenNoteForm s = openNoteForm s"
| "notesStep CloseNoteForm s = s\<lparr>nv_form := None\<rparr>"
| "notesStep (SubmitNoteForm name room) s = submitNoteForm name room s"
| "notesStep (NoteCreated k n oc) s = (case noteCallAt k s of
      Some (CreateNoteCall f captured _ _) \<Rightarrow> noteCreated f captured n oc (takeNoteCall k s) | _ \<Rightarrow> s)"
| "notesStep (NodesChanged ns) s = s\<lparr>nv_nodes := ns\<rparr>"
| "notesStep (ConnectionChanged b) s = s\<lparr>nv_app := (nv_app s)\<lparr>sa_online := b\<rparr>\<rparr>"

definition notesRun :: "notes_event list \<Rightarrow> notes_view \<Rightarrow> notes_view" where
  "notesRun es s = fold notesStep es s"

section \<open>Drafts of assignments\<close>

record submit_call =
  sc_id :: jsstring
  sc_doc :: json
  sc_text :: jsstring
  sc_online :: bool
  sc_again :: bool
  sc_from :: "jsstring option"

text \<open>A draft to be read, with the number of the effect; work handed in; work taken back; and the loading that follows either.\<close>

datatype draft_call =
    OpenDraftCall nat jsstring "submission option"
  | SubmitCall submit_call
  | WithdrawCall jsstring
  | UpdateCall "jsstring option"

record drafts_view =
  dv_app :: student_state
  dv_submissions :: "jsstring \<Rightarrow> submission option"
  dv_selected :: "assignment option"
  dv_doc :: json
  dv_text :: jsstring
  dv_from :: "jsstring option"
  dv_status :: jsstring
  dv_busy :: bool
  dv_ready :: bool
  dv_effect :: nat
  dv_calls :: "draft_call list"

definition startDrafts :: "student_state \<Rightarrow> (jsstring \<Rightarrow> submission option) \<Rightarrow> drafts_view" where
  "startDrafts app subs = \<lparr>dv_app = app, dv_submissions = subs, dv_selected = None, dv_doc = emptyDocument, dv_text = [], dv_from = None,
     dv_status = js ''Draft saved on this computer'', dv_busy = False, dv_ready = False, dv_effect = 0, dv_calls = []\<rparr>"

text \<open>The version of the submission that the effect depends on.\<close>

definition shownVersion :: "drafts_view \<Rightarrow> jsstring option" where
  "shownVersion s = (case dv_selected s of
      Some a \<Rightarrow> (case dv_submissions s (assignment_id a) of
          Some u \<Rightarrow> map_option version_id (submission_version u) | None \<Rightarrow> None)
    | None \<Rightarrow> None)"

text \<open>The effect: the draft is cleared, and what an earlier run of the effect still reads is ignored.\<close>

definition openingDraft :: "drafts_view \<Rightarrow> drafts_view" where
  "openingDraft s = (case dv_selected s of
      Some a \<Rightarrow> s\<lparr>dv_effect := Suc (dv_effect s), dv_ready := False, dv_doc := emptyDocument, dv_text := [],
        dv_status := js ''Preparing a clean draft'' @ [8230],
        dv_calls := dv_calls s @ [OpenDraftCall (Suc (dv_effect s)) (assignment_id a) (dv_submissions s (assignment_id a))]\<rparr>
    | None \<Rightarrow> s\<lparr>dv_effect := Suc (dv_effect s)\<rparr>)"

definition selectDraft :: "assignment option \<Rightarrow> drafts_view \<Rightarrow> drafts_view" where
  "selectDraft a s =
     (let s1 = s\<lparr>dv_selected := a\<rparr>
      in if map_option assignment_id a = map_option assignment_id (dv_selected s) \<and> shownVersion s1 = shownVersion s then s1 else openingDraft s1)"

definition submissionsChanged :: "(jsstring \<Rightarrow> submission option) \<Rightarrow> drafts_view \<Rightarrow> drafts_view" where
  "submissionsChanged f s =
     (let s1 = s\<lparr>dv_submissions := f\<rparr> in if shownVersion s1 = shownVersion s then s1 else openingDraft s1)"

definition openedStatus :: "bool \<Rightarrow> submission option \<Rightarrow> jsstring" where
  "openedStatus fromCache existing =
     (if fromCache then js ''Local draft restored''
      else (case existing of
          Some u \<Rightarrow> js ''Submission v'' @ showInt (case submission_version u of Some v \<Rightarrow> \<lfloor>version_number v\<rfloor> | None \<Rightarrow> 1)
        | None \<Rightarrow> js ''New draft''))"

definition draftOpened :: "nat \<Rightarrow> jsstring \<Rightarrow> submission option \<Rightarrow> drafts_view \<Rightarrow> drafts_view" where
  "draftOpened n i existing s =
     (if n \<noteq> dv_effect s then s
      else s\<lparr>dv_doc := fst (openDraft i existing (dv_app s)), dv_text := snd (openDraft i existing (dv_app s)), dv_from := Some i, dv_ready := True,
        dv_status := openedStatus (getItem (cacheOf (sa_db (dv_app s))) (draftKey i) \<noteq> None) existing\<rparr>)"

text \<open>Every change is kept in the cache at once; so does a request to save.\<close>

definition keptStatus :: "idb_outcome \<Rightarrow> jsstring \<Rightarrow> jsstring" where
  "keptStatus oc otherwise = (if oc = Completes then js ''Draft saved on this computer'' else otherwise)"

definition editDraft :: "idb_outcome \<Rightarrow> json \<Rightarrow> jsstring \<Rightarrow> drafts_view \<Rightarrow> drafts_view" where
  "editDraft oc doc txt s = (case dv_selected s of
      Some a \<Rightarrow> if dv_ready s then s\<lparr>dv_doc := doc, dv_text := txt, dv_app := saveDraft oc (assignment_id a) doc txt (dv_app s),
          dv_status := keptStatus oc (js ''Saving draft'' @ [8230])\<rparr> else s
    | None \<Rightarrow> s)"

definition keepDraft :: "idb_outcome \<Rightarrow> drafts_view \<Rightarrow> drafts_view" where
  "keepDraft oc s = (case dv_selected s of
      Some a \<Rightarrow> if dv_ready s then s\<lparr>dv_app := saveDraft oc (assignment_id a) (dv_doc s) (dv_text s) (dv_app s),
          dv_status := keptStatus oc (dv_status s)\<rparr> else s
    | None \<Rightarrow> s)"

definition submitDraft :: "drafts_view \<Rightarrow> drafts_view" where
  "submitDraft s = (case dv_selected s of
      Some a \<Rightarrow>
        if assignment_status a = Closed \<or> dv_busy s \<or> \<not> dv_ready s \<or> trim (dv_text s) = [] then s
        else s\<lparr>dv_busy := True, dv_calls := dv_calls s @
          [SubmitCall \<lparr>sc_id = assignment_id a, sc_doc = dv_doc s, sc_text = dv_text s, sc_online = sa_online (dv_app s),
             sc_again = (dv_submissions s (assignment_id a) \<noteq> None), sc_from = dv_from s\<rparr>]\<rparr>
    | None \<Rightarrow> s)"

text \<open>The answer to work handed in: accepted work is followed by a loading, which ends the busy state; waiting work is queued.\<close>

definition submitAnswered :: "submit_call \<Rightarrow> bool \<Rightarrow> idb_outcome \<Rightarrow> jsstring \<Rightarrow> drafts_view \<Rightarrow> drafts_view" where
  "submitAnswered c accepted oc now s =
     (let app = submitAssignment (sc_id c) (sc_doc c) (sc_text c) (sc_again c) accepted oc now ((dv_app s)\<lparr>sa_online := sc_online c\<rparr>);
          s1 = s\<lparr>dv_app := app\<lparr>sa_online := sa_online (dv_app s)\<rparr>\<rparr>
      in if \<not> sc_online c then
           s1\<lparr>dv_busy := False,
             dv_status := (if oc = Completes then js ''Queued'' @ [8212] @ js ''will submit when connected'' else dv_status s)\<rparr>
         else if accepted then s1\<lparr>dv_status := js ''Submitted successfully'', dv_calls := dv_calls s @ [UpdateCall None]\<rparr>
         else s1\<lparr>dv_busy := False\<rparr>)"

definition withdrawDraft :: "drafts_view \<Rightarrow> drafts_view" where
  "withdrawDraft s = (case dv_selected s of
      Some a \<Rightarrow> (case dv_submissions s (assignment_id a) of
          Some u \<Rightarrow> if assignment_status a = Closed \<or> submission_status u = Withdrawn \<or> \<not> sa_online (dv_app s) \<or> dv_busy s then s
            else s\<lparr>dv_busy := True, dv_calls := dv_calls s @ [WithdrawCall (assignment_id a)]\<rparr>
        | None \<Rightarrow> s)
    | None \<Rightarrow> s)"

definition withdrawAnswered :: "bool \<Rightarrow> drafts_view \<Rightarrow> drafts_view" where
  "withdrawAnswered accepted s =
     (if accepted then s\<lparr>dv_calls := dv_calls s @ [UpdateCall (Some (js ''Submission withdrawn''))]\<rparr> else s\<lparr>dv_busy := False\<rparr>)"

definition updateDone :: "jsstring option \<Rightarrow> drafts_view \<Rightarrow> drafts_view" where
  "updateDone m s = s\<lparr>dv_busy := False, dv_status := (case m of Some t \<Rightarrow> t | None \<Rightarrow> dv_status s)\<rparr>"

datatype drafts_event =
    SelectDraft "assignment option" | DraftOpened nat | EditDraft idb_outcome json jsstring | KeepDraft idb_outcome | SubmitDraft | WithdrawDraft
  | SubmitAnswered nat bool idb_outcome jsstring | WithdrawAnswered nat bool | UpdateDone nat | SubmissionsChanged "jsstring \<Rightarrow> submission option"
  | DraftConnection bool

definition takeDraftCall :: "nat \<Rightarrow> drafts_view \<Rightarrow> drafts_view" where
  "takeDraftCall k s = s\<lparr>dv_calls := take k (dv_calls s) @ drop (Suc k) (dv_calls s)\<rparr>"

definition draftCallAt :: "nat \<Rightarrow> drafts_view \<Rightarrow> draft_call option" where
  "draftCallAt k s = (if k < length (dv_calls s) then Some (dv_calls s ! k) else None)"

text \<open>Another assignment is chosen in the list, which is shown when none is.\<close>

fun draftsStep :: "drafts_event \<Rightarrow> drafts_view \<Rightarrow> drafts_view" where
  "draftsStep (SelectDraft a) s = (if a = None \<or> dv_selected s = None then selectDraft a s else s)"
| "draftsStep (DraftOpened k) s = (case draftCallAt k s of
      Some (OpenDraftCall n i existing) \<Rightarrow> draftOpened n i existing (takeDraftCall k s) | _ \<Rightarrow> s)"
| "draftsStep (EditDraft oc doc txt) s = editDraft oc doc txt s"
| "draftsStep (KeepDraft oc) s = keepDraft oc s"
| "draftsStep SubmitDraft s = submitDraft s"
| "draftsStep WithdrawDraft s = withdrawDraft s"
| "draftsStep (SubmitAnswered k accepted oc now) s = (case draftCallAt k s of
      Some (SubmitCall c) \<Rightarrow> submitAnswered c accepted oc now (takeDraftCall k s) | _ \<Rightarrow> s)"
| "draftsStep (WithdrawAnswered k accepted) s = (case draftCallAt k s of
      Some (WithdrawCall i) \<Rightarrow> withdrawAnswered accepted (takeDraftCall k s) | _ \<Rightarrow> s)"
| "draftsStep (UpdateDone k) s = (case draftCallAt k s of
      Some (UpdateCall m) \<Rightarrow> updateDone m (takeDraftCall k s) | _ \<Rightarrow> s)"
| "draftsStep (SubmissionsChanged f) s = submissionsChanged f s"
| "draftsStep (DraftConnection b) s = s\<lparr>dv_app := (dv_app s)\<lparr>sa_online := b\<rparr>\<rparr>"

definition draftsRun :: "drafts_event list \<Rightarrow> drafts_view \<Rightarrow> drafts_view" where
  "draftsRun es s = fold draftsStep es s"

section \<open>Notes: lemmas\<close>

lemma ownNotes_ids: "i \<in> node_id ` set (ownNotes ns) \<Longrightarrow> ownNotes ns \<noteq> []"
  by auto

lemma notes_frames [simp]:
  "nv_timer (selectNote i s) = nv_timer s" "nv_timer (saveNow s) = nv_timer s" "nv_timer (noteOpened i resp oc s) = nv_timer s"
  "nv_timer (noteStored v ans oc oc' now s) = nv_timer s" "nv_timer (openNoteForm s) = nv_timer s" "nv_timer (submitNoteForm name room s) = nv_timer s"
  "nv_timer (noteCreated n captured made oc s) = nv_timer s" "nv_timer (takeNoteCall k s) = nv_timer s" "nv_timer (formIdle n s) = nv_timer s"
  by (simp_all add: selectNote_def saveNow_def startSave_def noteOpened_def noteStored_def openNoteForm_def submitNoteForm_def noteCreated_def
      formIdle_def takeNoteCall_def Let_def split: option.splits save_answer.splits prod.splits)

definition writesNote :: "notes_event \<Rightarrow> bool" where
  "writesNote e \<longleftrightarrow> (case e of EditNote _ _ \<Rightarrow> True | TimerFires \<Rightarrow> True | _ \<Rightarrow> False)"

lemma timer_waits: "\<not> writesNote e \<Longrightarrow> nv_timer (notesStep e s) = nv_timer s"
  by (cases e) (auto simp: writesNote_def split: option.splits notes_call.splits)

lemma timer_waits_run: "list_all (\<lambda>e. \<not> writesNote e) es \<Longrightarrow> nv_timer (notesRun es s) = nv_timer s"
  unfolding notesRun_def by (induction es arbitrary: s) (simp_all add: timer_waits)

subsection \<open>Runs in which nothing overlaps\<close>

definition opensNote :: "notes_call \<Rightarrow> bool" where
  "opensNote c \<longleftrightarrow> (case c of OpenNoteCall _ \<Rightarrow> True | _ \<Rightarrow> False)"

definition savesNote :: "notes_call \<Rightarrow> bool" where
  "savesNote c \<longleftrightarrow> (case c of SaveNoteCall _ \<Rightarrow> True | _ \<Rightarrow> False)"

text \<open>Another note is selected when nothing is pending, nothing is written while a note is being opened, and a note that is opened has a
  body, of the host or of the cache.\<close>

definition calmNote :: "notes_event \<Rightarrow> notes_view \<Rightarrow> bool" where
  "calmNote e s \<longleftrightarrow> (case e of
      SelectNote i \<Rightarrow> nv_selected s = Some i \<or> nv_timer s = None \<and> nv_calls s = []
    | EditNote _ _ \<Rightarrow> \<not> list_ex opensNote (nv_calls s)
    | SaveNow \<Rightarrow> \<not> list_ex opensNote (nv_calls s)
    | NoteOpened k resp oc \<Rightarrow> (case noteCallAt k s of Some (OpenNoteCall i) \<Rightarrow> fst (openNote resp oc i (nv_app s)) \<noteq> None | _ \<Rightarrow> True)
    | NoteCreated k n oc \<Rightarrow> nv_timer s = None \<and> length (nv_calls s) = 1
    | _ \<Rightarrow> True)"

primrec calmNotes :: "notes_event list \<Rightarrow> notes_view \<Rightarrow> bool" where
  "calmNotes [] s = True"
| "calmNotes (e # es) s \<longleftrightarrow> calmNote e s \<and> calmNotes es (notesStep e s)"

definition ownSave :: "jsstring option \<Rightarrow> note_save \<Rightarrow> bool" where
  "ownSave i v \<longleftrightarrow> Some (ns_id v) = i \<and> ns_from v = i \<and> ns_baseOf v = i"

definition ownNoteCall :: "jsstring option \<Rightarrow> notes_call \<Rightarrow> bool" where
  "ownNoteCall i c \<longleftrightarrow> (case c of OpenNoteCall j \<Rightarrow> i = Some j | SaveNoteCall v \<Rightarrow> ownSave i v | CreateNoteCall _ _ _ _ \<Rightarrow> True)"

definition notesOwn :: "notes_view \<Rightarrow> bool" where
  "notesOwn s \<longleftrightarrow>
     pred_option (ownSave (nv_selected s)) (nv_timer s) \<and>
     list_all (ownNoteCall (nv_selected s)) (nv_calls s) \<and>
     (nv_body s = None \<longrightarrow> nv_timer s = None \<and> \<not> list_ex savesNote (nv_calls s)) \<and>
     (list_ex opensNote (nv_calls s) \<or> nv_body s = None \<or> nv_source s = nv_selected s \<and> nv_bodyOf s = nv_selected s)"

lemma noteShown_calls [simp]: "noteShown (s\<lparr>nv_calls := cs\<rparr>) = noteShown s"
  by (simp add: noteShown_def split: option.splits)

lemma own_simps [simp]:
  "opensNote (OpenNoteCall i)" "\<not> opensNote (SaveNoteCall v)" "\<not> opensNote (CreateNoteCall n ns name room)"
  "\<not> savesNote (OpenNoteCall i)" "savesNote (SaveNoteCall v)" "\<not> savesNote (CreateNoteCall n ns name room)"
  "ownNoteCall j (OpenNoteCall i) \<longleftrightarrow> j = Some i" "ownNoteCall j (SaveNoteCall v) \<longleftrightarrow> ownSave j v" "ownNoteCall j (CreateNoteCall n ns name room)"
  by (simp_all add: opensNote_def savesNote_def ownNoteCall_def)

lemma noteCallAt_split: "noteCallAt k s = Some c \<Longrightarrow> nv_calls s = take k (nv_calls s) @ c # drop (Suc k) (nv_calls s)"
  by (auto simp: noteCallAt_def id_take_nth_drop split: if_splits)

lemma takeNoteCall_calls:
  assumes "noteCallAt k s = Some c"
  obtains xs ys where "nv_calls s = xs @ c # ys" "nv_calls (takeNoteCall k s) = xs @ ys"
  by (rule that [OF noteCallAt_split [OF assms]]) (simp add: takeNoteCall_def)

lemma takeNoteCall_frames [simp]:
  "nv_selected (takeNoteCall k s) = nv_selected s" "nv_body (takeNoteCall k s) = nv_body s" "nv_source (takeNoteCall k s) = nv_source s"
  "nv_bodyOf (takeNoteCall k s) = nv_bodyOf s" "nv_app (takeNoteCall k s) = nv_app s"
  by (simp_all add: takeNoteCall_def)

lemma own_shown:
  assumes "notesOwn s" "noteShown s = Some (i, b)" "\<not> list_ex opensNote (nv_calls s)"
  shows "ownSave (nv_selected s) (saveOf i b doc txt s)" "nv_body s \<noteq> None"
  using assms by (auto simp: notesOwn_def noteShown_def saveOf_def ownSave_def split: option.splits if_splits)

lemma own_startSave: "notesOwn s \<Longrightarrow> ownSave (nv_selected s) v \<Longrightarrow> nv_body s \<noteq> None \<Longrightarrow> notesOwn (startSave v s)"
  by (auto simp: notesOwn_def startSave_def)

lemma own_setTimer:
  assumes "notesOwn s" "ownSave (nv_selected s) v" "nv_body s \<noteq> None"
  shows "notesOwn (s\<lparr>nv_draft := d, nv_timer := Some v\<rparr>)"
  using assms unfolding notesOwn_def by simp blast

lemma own_clearTimer: "notesOwn s \<Longrightarrow> notesOwn (s\<lparr>nv_timer := None\<rparr>)"
  unfolding notesOwn_def by simp

lemma own_edit:
  assumes "notesOwn s" "calmNote (EditNote doc txt) s"
  shows "notesOwn (editNote doc txt s)"
proof (cases "noteShown s")
  case (Some p)
  obtain i b where p: "p = (i, b)" by (cases p)
  have "\<not> list_ex opensNote (nv_calls s)" using assms(2) by (simp add: calmNote_def)
  from own_shown [OF assms(1) Some [unfolded p] this] show ?thesis
    using assms(1) by (simp add: editNote_def Some p own_setTimer)
qed (use assms in \<open>simp add: editNote_def\<close>)

lemma own_saveNow:
  assumes "notesOwn s" "calmNote SaveNow s"
  shows "notesOwn (saveNow s)"
proof (cases "noteShown s")
  case (Some p)
  obtain i b where p: "p = (i, b)" by (cases p)
  have "\<not> list_ex opensNote (nv_calls s)" using assms(2) by (simp add: calmNote_def)
  from own_shown [OF assms(1) Some [unfolded p] this] show ?thesis
    using assms(1) by (simp add: saveNow_def Some p own_startSave)
qed (use assms in \<open>simp add: saveNow_def\<close>)

lemma own_timer:
  assumes "notesOwn s"
  shows "notesOwn (noteTimerFires s)"
proof (cases "nv_timer s")
  case (Some v)
  then have "ownSave (nv_selected s) v" "nv_body s \<noteq> None" using assms by (auto simp: notesOwn_def)
  then show ?thesis using own_startSave [OF own_clearTimer [OF assms]] Some by (simp add: noteTimerFires_def)
qed (use assms in \<open>simp add: noteTimerFires_def\<close>)

lemma own_select: "notesOwn s \<Longrightarrow> nv_selected s = Some i \<or> nv_timer s = None \<and> nv_calls s = [] \<Longrightarrow> notesOwn (selectNote i s)"
  by (auto simp: notesOwn_def selectNote_def)

lemma own_opened:
  assumes "notesOwn s" "noteCallAt k s = Some (OpenNoteCall i)" "fst (openNote resp oc i (nv_app s)) \<noteq> None"
  shows "notesOwn (noteOpened i resp oc (takeNoteCall k s))"
proof -
  obtain xs ys where c: "nv_calls s = xs @ OpenNoteCall i # ys" "nv_calls (takeNoteCall k s) = xs @ ys" using assms(2) by (rule takeNoteCall_calls)
  obtain b where b: "fst (openNote resp oc i (nv_app s)) = Some b" using assms(3) by blast
  have "nv_selected s = Some i" using assms(1) c by (simp add: notesOwn_def)
  then show ?thesis using assms(1) c b by (simp add: notesOwn_def noteOpened_def Let_def)
qed

lemma own_stored:
  assumes "notesOwn s" "noteCallAt k s = Some (SaveNoteCall v)"
  shows "notesOwn (noteStored v ans oc oc' now (takeNoteCall k s))"
proof -
  obtain xs ys where c: "nv_calls s = xs @ SaveNoteCall v # ys" "nv_calls (takeNoteCall k s) = xs @ ys" using assms(2) by (rule takeNoteCall_calls)
  show ?thesis using assms(1) c by (auto simp: notesOwn_def noteStored_def Let_def ownSave_def split: save_answer.splits)
qed

lemma own_created:
  assumes "notesOwn s" "noteCallAt k s = Some (CreateNoteCall f captured name room)" "nv_timer s = None" "length (nv_calls s) = 1"
  shows "notesOwn (noteCreated f captured n oc (takeNoteCall k s))"
proof -
  obtain xs ys where c: "nv_calls s = xs @ CreateNoteCall f captured name room # ys" "nv_calls (takeNoteCall k s) = xs @ ys" using assms(2) by (rule takeNoteCall_calls)
  then have e: "nv_calls s = [CreateNoteCall f captured name room]" "nv_calls (takeNoteCall k s) = []" using assms(4) by auto
  show ?thesis using assms(1,3) e
    by (auto simp: notesOwn_def noteCreated_def formIdle_def selectNote_def Let_def split: option.splits prod.splits)
qed

lemma own_form: "notesOwn s \<Longrightarrow> notesOwn (openNoteForm s)" "notesOwn s \<Longrightarrow> notesOwn (submitNoteForm name room s)"
  by (auto simp: notesOwn_def openNoteForm_def submitNoteForm_def split: option.splits prod.splits)

lemma own_step: "notesOwn s \<Longrightarrow> calmNote e s \<Longrightarrow> notesOwn (notesStep e s)"
proof (cases e)
  case (SelectNote i)
  then show "notesOwn s \<Longrightarrow> calmNote e s \<Longrightarrow> ?thesis" using own_select [of s i] by (simp add: calmNote_def)
next
  case (NoteOpened k resp oc)
  then show "notesOwn s \<Longrightarrow> calmNote e s \<Longrightarrow> ?thesis"
    using own_opened [of s k] by (auto simp: calmNote_def split: option.splits notes_call.splits)
next
  case (NoteStored k ans oc oc' now)
  then show "notesOwn s \<Longrightarrow> calmNote e s \<Longrightarrow> ?thesis" using own_stored [of s k] by (auto split: option.splits notes_call.splits)
next
  case (NoteCreated k n oc)
  then show "notesOwn s \<Longrightarrow> calmNote e s \<Longrightarrow> ?thesis"
    using own_created [of s k] by (auto simp: calmNote_def split: option.splits notes_call.splits)
qed (simp_all add: own_edit own_saveNow own_timer own_form, simp_all add: notesOwn_def)

lemma own_run: "notesOwn s \<Longrightarrow> calmNotes es s \<Longrightarrow> notesOwn (notesRun es s)"
  unfolding notesRun_def by (induction es arbitrary: s) (simp_all add: own_step)

lemma own_start: "notesOwn (startNotes app ns)"
  by (simp add: startNotes_def notesOwn_def Let_def split: list.splits)

section \<open>Notes: properties\<close>

text \<open>C34: What is written into a note is saved: the text waits, whatever is selected, opened, saved, created or lost in between, until the
  timer fires, and then exactly that text goes to exactly that note; only another change of a document can take its place.\<close>

theorem written_note_waits_for_its_save:
  assumes "noteShown s = Some (i, b)" "list_all (\<lambda>e. \<not> writesNote e) es"
  shows "let s' = notesStep TimerFires (notesRun es (notesStep (EditNote doc txt) s)) in
    nv_timer s' = None \<and> last (nv_calls s') = SaveNoteCall (saveOf i b doc txt s)"
proof -
  have "nv_timer (notesRun es (notesStep (EditNote doc txt) s)) = Some (saveOf i b doc txt s)"
    using assms by (simp add: timer_waits_run editNote_def)
  then show ?thesis by (simp add: noteTimerFires_def startSave_def Let_def)
qed

definition noteNode :: "jsstring \<Rightarrow> study_node" where
  "noteNode i = \<lparr>node_id = i, node_owner_id = Some (js ''asha''), node_parent_id = None, node_classroom_id = None, node_name = i,
     node_kind = NoteNode, node_position = 0, node_icon = None, node_created_at = [], node_updated_at = []\<rparr>"

definition noteBody :: "jsstring \<Rightarrow> note_body" where
  "noteBody txt = \<lparr>doc_json = JNull, plaintext = txt, body_updated_at = js ''noon''\<rparr>"

definition twoNotes :: notes_view where
  "twoNotes = notesRun [NoteOpened 0 (Some (noteBody (js ''first''))) Completes] (startNotes demoStudent [noteNode (js ''a''), noteNode (js ''b'')])"

lemma twoNotes_eq:
  "nv_selected twoNotes = Some (js ''a'')" "nv_body twoNotes = Some (noteBody (js ''first''))" "nv_calls twoNotes = []"
  "nv_nodes twoNotes = [noteNode (js ''a''), noteNode (js ''b'')]" "noteShown twoNotes = Some (js ''a'', noteBody (js ''first''))"
  "nv_draft twoNotes = (JNull, js ''first'')" "js ''b'' \<in> node_id ` set (ownNotes (nv_nodes twoNotes))"
  by (simp_all add: twoNotes_def notesRun_def startNotes_def ownNotes_def noteNode_def noteCallAt_def takeNoteCall_def noteOpened_def openNote_def noteShown_def
      noteBody_def js_def)

theorem written_note_waits_for_its_save_witness:
  "let s' = notesStep TimerFires (notesRun [SelectNote (js ''b''), ConnectionChanged False] (notesStep (EditNote JNull (js ''new'')) twoNotes)) in
    map_option (\<lambda>c. case c of SaveNoteCall v \<Rightarrow> (ns_id v, ns_text v) | _ \<Rightarrow> ([], [])) (Some (last (nv_calls s'))) = Some (js ''a'', js ''new'')"
proof -
  have "list_all (\<lambda>e. \<not> writesNote e) [SelectNote (js ''b''), ConnectionChanged False]" by (simp add: writesNote_def)
  from written_note_waits_for_its_save [OF twoNotes_eq(5) this] show ?thesis unfolding Let_def by (simp add: saveOf_def)
qed

text \<open>C33: As long as nothing overlaps, a note only ever gets its own text on its own base: when notes are changed with nothing pending, are
  written into only when they are open, and open with a body, every save that is sent carries a text that was written into that note, and the
  time of that note's own copy.\<close>

theorem calm_notes_save_their_own_text:
  assumes "calmNotes es (startNotes app ns)" "SaveNoteCall v \<in> set (nv_calls (notesRun es (startNotes app ns)))"
  shows "ns_from v = Some (ns_id v) \<and> ns_baseOf v = Some (ns_id v)"
proof -
  have "notesOwn (notesRun es (startNotes app ns))" by (rule own_run [OF own_start assms(1)])
  then have "list_all (ownNoteCall (nv_selected (notesRun es (startNotes app ns)))) (nv_calls (notesRun es (startNotes app ns)))"
    by (simp add: notesOwn_def)
  then have "ownNoteCall (nv_selected (notesRun es (startNotes app ns))) (SaveNoteCall v)"
    using assms(2) unfolding list_all_iff by (rule bspec)
  then show ?thesis by (simp add: ownSave_def)
qed

theorem calm_notes_save_their_own_text_witness:
  "let s = notesRun [NoteOpened 0 (Some (noteBody (js ''first''))) Completes, EditNote JNull (js ''new''), TimerFires]
       (startNotes demoStudent [noteNode (js ''a''), noteNode (js ''b'')]);
       v = saveOf (js ''a'') (noteBody (js ''first'')) JNull (js ''new'') twoNotes
   in nv_calls s = [SaveNoteCall v] \<and> ns_from v = Some (js ''a'')"
proof -
  let ?es = "[NoteOpened 0 (Some (noteBody (js ''first''))) Completes, EditNote JNull (js ''new''), TimerFires]"
  let ?v = "saveOf (js ''a'') (noteBody (js ''first'')) JNull (js ''new'') twoNotes"
  have c: "calmNotes ?es (startNotes demoStudent [noteNode (js ''a''), noteNode (js ''b'')])"
    by (simp add: calmNote_def startNotes_def ownNotes_def noteNode_def noteCallAt_def takeNoteCall_def noteOpened_def openNote_def)
  have r: "notesRun ?es (startNotes demoStudent [noteNode (js ''a''), noteNode (js ''b'')]) = notesRun [EditNote JNull (js ''new''), TimerFires] twoNotes"
    by (simp add: notesRun_def twoNotes_def)
  have e: "nv_calls (notesRun [EditNote JNull (js ''new''), TimerFires] twoNotes) = [SaveNoteCall ?v]"
    by (simp add: notesRun_def editNote_def twoNotes_eq noteTimerFires_def startSave_def)
  then have "SaveNoteCall ?v \<in> set (nv_calls (notesRun ?es (startNotes demoStudent [noteNode (js ''a''), noteNode (js ''b'')])))" unfolding r by simp
  from calm_notes_save_their_own_text [OF c this] show ?thesis using r e unfolding Let_def by (simp add: saveOf_def)
qed

text \<open>One timer serves all notes: when a second note is opened and written into before it fires, the text of the first is dropped.
  Nothing of it is sent, queued or kept, and only the second note's save goes out.\<close>

theorem second_note_drops_first_text:
  assumes "noteShown s = Some (a, body)" "b \<in> node_id ` set (ownNotes (nv_nodes s))" "b \<noteq> a"
  shows "let s' = notesRun [EditNote doc txt, SelectNote b, NoteOpened (length (nv_calls s)) (Some bb) Completes, EditNote doc' txt', TimerFires] s in
    nv_timer s' = None \<and> nv_draft s' = (doc', txt') \<and>
    (\<exists>v. nv_calls s' = nv_calls s @ [SaveNoteCall v] \<and> ns_id v = b \<and> ns_text v = txt') \<and>
    getItem (cacheOf (sa_db (nv_app s'))) (noteKey a) = getItem (cacheOf (sa_db (nv_app s))) (noteKey a) \<and>
    outboxOf (sa_db (nv_app s')) = outboxOf (sa_db (nv_app s)) \<and> sa_log (nv_app s') = sa_log (nv_app s)"
proof -
  have sel: "nv_selected s = Some a" "nv_body s = Some body" using assms(1) by (auto simp: noteShown_def split: option.splits if_splits)
  have key: "noteKey a \<noteq> noteKey b" using assms(3) by (simp add: noteKey_def)
  show ?thesis using assms sel key
    by (simp add: notesRun_def editNote_def selectNote_def noteCallAt_def takeNoteCall_def noteOpened_def openNote_def noteShown_def noteTimerFires_def
        startSave_def saveOf_def Let_def ls.get_put)
qed

theorem second_note_drops_first_text_witness:
  "let s' = notesRun [EditNote JNull (js ''lost''), SelectNote (js ''b''), NoteOpened 0 (Some (noteBody [])) Completes, EditNote JNull (js ''kept''), TimerFires] twoNotes in
    length (nv_calls s') = 1 \<and> nv_timer s' = None \<and> sa_log (nv_app s') = sa_log (nv_app twoNotes)"
proof -
  have "js ''b'' \<noteq> js ''a''" by (simp add: js_def)
  from second_note_drops_first_text [OF twoNotes_eq(5,7) this, of JNull "js ''lost''" "noteBody []" JNull "js ''kept''"] show ?thesis
    unfolding Let_def twoNotes_eq(3) list.size(3) by (elim conjE exE) simp
qed

text \<open>Without the host, a note that the device has no copy of is opened with the text of the note before it, under its own name; saving
  then writes that text into it, in the cache and in the work that waits for the host.\<close>

theorem note_without_copy_takes_text_of_another:
  assumes "noteShown s = Some (a, body)" "b \<in> node_id ` set (ownNotes (nv_nodes s))" "b \<noteq> a" "nv_calls s = []" "\<not> sa_online (nv_app s)"
    "getItem (cacheOf (sa_db (nv_app s))) (noteKey b) = None"
  shows "let s' = notesRun [SelectNote b, NoteOpened 0 None Completes, SaveNow, NoteStored 0 ans Completes Completes now] s in
    getItem (cacheOf (sa_db (nv_app s'))) (noteKey b) =
      Some (NoteValue \<lparr>doc_json = fst (nv_draft s), plaintext = snd (nv_draft s), body_updated_at = body_updated_at body\<rparr>) \<and>
    getItem (outboxOf (sa_db (nv_app s'))) (noteKey b) = Some \<lparr>entry_key = noteKey b,
      entry_work = NoteWork \<lparr>np_id = b, np_doc = fst (nv_draft s), np_text = snd (nv_draft s), np_base = Some (body_updated_at body)\<rparr>, queuedAt = now\<rparr>"
proof -
  have sel: "nv_selected s = Some a" "nv_body s = Some body" using assms(1) by (auto simp: noteShown_def split: option.splits if_splits)
  show ?thesis using assms sel
    by (simp add: notesRun_def saveNow_def selectNote_def noteCallAt_def takeNoteCall_def noteOpened_def openNote_def noteShown_def noteStored_def
        startSave_def saveOf_def saveNote_def Let_def ls.get_put split: save_answer.splits)
qed

theorem note_without_copy_takes_text_of_another_witness:
  "let s' = notesRun [SelectNote (js ''b''), NoteOpened 0 None Completes, SaveNow, NoteStored 0 NoteFailed Completes Completes []] twoNotes in
    getItem (cacheOf (sa_db (nv_app s'))) (noteKey (js ''b'')) = Some (NoteValue (noteBody (js ''first'')))"
proof -
  have b: "js ''b'' \<noteq> js ''a''" by (simp add: js_def)
  have f: "\<not> sa_online (nv_app twoNotes)" "getItem (cacheOf (sa_db (nv_app twoNotes))) (noteKey (js ''b'')) = None" by code_simp+
  from note_without_copy_takes_text_of_another [OF twoNotes_eq(5,7) b twoNotes_eq(3) f, of NoteFailed "[]"] show ?thesis
    unfolding Let_def twoNotes_eq(6) by (simp add: noteBody_def)
qed

text \<open>The answer to a save replaces the copy on show even when another note is selected by then: the next text of that note is sent on the time
  of the first one's copy, which the host compares with the wrong note.\<close>

theorem late_save_answer_changes_base:
  assumes "noteShown s = Some (b, body)" "nv_calls s = [SaveNoteCall v]" "ns_online v"
  shows "let s' = notesRun [NoteStored 0 (NoteSaved n) Completes Completes now, EditNote doc txt] s in
    map_option (\<lambda>w. (ns_id w, ns_base w, ns_baseOf w)) (nv_timer s') = Some (b, body_updated_at n, Some (ns_id v))"
proof -
  have sel: "nv_selected s = Some b" "nv_body s = Some body" using assms(1) by (auto simp: noteShown_def split: option.splits if_splits)
  show ?thesis using assms sel
    by (simp add: notesRun_def editNote_def noteCallAt_def takeNoteCall_def noteShown_def noteStored_def saveOf_def Let_def split: if_splits)
qed

definition savingNote :: note_save where
  "savingNote = \<lparr>ns_id = js ''b'', ns_doc = JNull, ns_text = [], ns_base = [], ns_online = True, ns_from = None, ns_baseOf = None\<rparr>"

theorem late_save_answer_changes_base_witness:
  "let s' = notesRun [NoteStored 0 (NoteSaved \<lparr>doc_json = JNull, plaintext = [], body_updated_at = js ''one''\<rparr>) Completes Completes [], EditNote JNull (js ''new'')]
       (twoNotes\<lparr>nv_calls := [SaveNoteCall savingNote]\<rparr>) in
    map_option ns_base (nv_timer s') = Some (js ''one'')"
proof -
  have h: "noteShown (twoNotes\<lparr>nv_calls := [SaveNoteCall savingNote]\<rparr>) = Some (js ''a'', noteBody (js ''first''))"
    "nv_calls (twoNotes\<lparr>nv_calls := [SaveNoteCall savingNote]\<rparr>) = [SaveNoteCall savingNote]" "ns_online savingNote"
    using twoNotes_eq(5) by (simp_all add: savingNote_def)
  show ?thesis using late_save_answer_changes_base [OF h, of "\<lparr>doc_json = JNull, plaintext = [], body_updated_at = js ''one''\<rparr>" "[]" JNull "js ''new''"]
    unfolding Let_def by auto
qed

section \<open>Drafts: lemmas\<close>

definition ownDraftCall :: "drafts_view \<Rightarrow> draft_call \<Rightarrow> bool" where
  "ownDraftCall s c \<longleftrightarrow> (case c of
      OpenDraftCall n i existing \<Rightarrow> n \<le> dv_effect s \<and> (n = dv_effect s \<longrightarrow> map_option assignment_id (dv_selected s) = Some i)
    | SubmitCall w \<Rightarrow> sc_from w = Some (sc_id w)
    | _ \<Rightarrow> True)"

definition draftsOwn :: "drafts_view \<Rightarrow> bool" where
  "draftsOwn s \<longleftrightarrow>
     (dv_ready s \<and> dv_selected s \<noteq> None \<longrightarrow> dv_from s = map_option assignment_id (dv_selected s)) \<and> list_all (ownDraftCall s) (dv_calls s)"

lemma draftCall_in: "draftCallAt k s = Some c \<Longrightarrow> c \<in> set (dv_calls s)"
  by (auto simp: draftCallAt_def split: if_splits)

lemma takeDraftCall_set: "set (dv_calls (takeDraftCall k s)) \<subseteq> set (dv_calls s)"
  by (auto simp: takeDraftCall_def dest: in_set_takeD in_set_dropD)

lemma takeDraftCall_frames [simp]:
  "dv_selected (takeDraftCall k s) = dv_selected s" "dv_ready (takeDraftCall k s) = dv_ready s" "dv_from (takeDraftCall k s) = dv_from s"
  "dv_effect (takeDraftCall k s) = dv_effect s" "dv_app (takeDraftCall k s) = dv_app s"
  by (simp_all add: takeDraftCall_def)

text \<open>What the invariant depends on: selection, readiness, origin and number of the effect; and the calls may shrink or grow by harmless ones.\<close>

lemma draftsOwn_frame:
  assumes "draftsOwn s" "dv_selected t = dv_selected s" "dv_ready t = dv_ready s" "dv_from t = dv_from s" "dv_effect t = dv_effect s"
    "\<And>c. c \<in> set (dv_calls t) \<Longrightarrow> c \<in> set (dv_calls s) \<or> ownDraftCall s c"
  shows "draftsOwn t"
proof -
  have "ownDraftCall t = ownDraftCall s" using assms(2,5) by (simp add: ownDraftCall_def fun_eq_iff cong: draft_call.case_cong)
  then show ?thesis using assms unfolding draftsOwn_def list_all_iff by metis
qed

lemma draftsOwn_take: "draftsOwn s \<Longrightarrow> draftsOwn (takeDraftCall k s)"
  by (rule draftsOwn_frame) (use takeDraftCall_set in auto)

definition pastDraftCall :: "nat \<Rightarrow> draft_call \<Rightarrow> bool" where
  "pastDraftCall e c \<longleftrightarrow> (case c of OpenDraftCall n i ex \<Rightarrow> n \<le> e | SubmitCall w \<Rightarrow> sc_from w = Some (sc_id w) | _ \<Rightarrow> True)"

lemma draftsOwn_opening:
  assumes "list_all (pastDraftCall (dv_effect s)) (dv_calls s)"
  shows "draftsOwn (openingDraft s)"
proof -
  have "list_all (ownDraftCall (openingDraft s)) (dv_calls s)"
    using assms unfolding list_all_iff by (auto simp: ownDraftCall_def pastDraftCall_def openingDraft_def split: draft_call.splits option.splits)
  then show ?thesis by (auto simp: draftsOwn_def openingDraft_def ownDraftCall_def split: option.splits)
qed

lemma draftsOwn_stale:
  "draftsOwn s \<Longrightarrow>
   list_all (pastDraftCall (dv_effect s)) (dv_calls s)"
  unfolding draftsOwn_def list_all_iff ownDraftCall_def pastDraftCall_def by (auto split: draft_call.splits)

lemma draftsOwn_select: "draftsOwn s \<Longrightarrow> draftsOwn (selectDraft a s)"
proof -
  assume h: "draftsOwn s"
  let ?t = "s\<lparr>dv_selected := a\<rparr>"
  have o: "draftsOwn (openingDraft ?t)" by (rule draftsOwn_opening) (use draftsOwn_stale [OF h] in simp)
  have "draftsOwn ?t" if "map_option assignment_id a = map_option assignment_id (dv_selected s)"
  proof -
    have "ownDraftCall ?t = ownDraftCall s" using that by (simp add: ownDraftCall_def fun_eq_iff cong: draft_call.case_cong)
    moreover have "a = None \<longleftrightarrow> dv_selected s = None" using that by (metis map_option_is_None)
    ultimately show ?thesis using h that by (simp add: draftsOwn_def)
  qed
  then show ?thesis using o by (simp add: selectDraft_def Let_def)
qed

lemma draftsOwn_changed: "draftsOwn s \<Longrightarrow> draftsOwn (submissionsChanged f s)"
proof -
  assume h: "draftsOwn s"
  let ?t = "s\<lparr>dv_submissions := f\<rparr>"
  have "draftsOwn ?t" by (rule draftsOwn_frame [OF h]) auto
  moreover have "draftsOwn (openingDraft ?t)" by (rule draftsOwn_opening) (use draftsOwn_stale [OF h] in simp)
  ultimately show ?thesis by (simp add: submissionsChanged_def Let_def)
qed

lemma draftsOwn_opened:
  assumes "draftsOwn s" "OpenDraftCall n i ex \<in> set (dv_calls s)"
  shows "draftsOwn (draftOpened n i ex s)"
proof (cases "n = dv_effect s")
  case True
  have "ownDraftCall s (OpenDraftCall n i ex)" using assms unfolding draftsOwn_def list_all_iff by blast
  then have i: "map_option assignment_id (dv_selected s) = Some i" using True by (simp add: ownDraftCall_def)
  have "ownDraftCall (draftOpened n i ex s) = ownDraftCall s"
    by (simp add: ownDraftCall_def draftOpened_def fun_eq_iff cong: draft_call.case_cong)
  moreover have "draftOpened n i ex s = s\<lparr>dv_doc := fst (openDraft i ex (dv_app s)), dv_text := snd (openDraft i ex (dv_app s)), dv_from := Some i,
      dv_ready := True, dv_status := openedStatus (getItem (cacheOf (sa_db (dv_app s))) (draftKey i) \<noteq> None) ex\<rparr>"
    using True by (simp add: draftOpened_def)
  ultimately show ?thesis using assms(1) i by (auto simp: draftsOwn_def)
qed (use assms in \<open>simp add: draftOpened_def\<close>)

lemma ownDraftCall_simps [simp]:
  "ownDraftCall s (SubmitCall w) \<longleftrightarrow> sc_from w = Some (sc_id w)" "ownDraftCall s (WithdrawCall i)" "ownDraftCall s (UpdateCall m)"
  by (simp_all add: ownDraftCall_def)

lemma draftsOwn_edit: "draftsOwn s \<Longrightarrow> draftsOwn (editDraft oc doc txt s)" "draftsOwn s \<Longrightarrow> draftsOwn (keepDraft oc s)"
  by (rule draftsOwn_frame, auto simp: editDraft_def keepDraft_def split: option.splits)+

lemma draftsOwn_submit: "draftsOwn s \<Longrightarrow> draftsOwn (submitDraft s)"
proof (rule draftsOwn_frame)
  fix c assume h: "draftsOwn s" "c \<in> set (dv_calls (submitDraft s))"
  show "c \<in> set (dv_calls s) \<or> ownDraftCall s c"
  proof (cases "dv_selected s")
    case (Some a)
    then have "dv_ready s \<Longrightarrow> dv_from s = Some (assignment_id a)" using h(1) by (simp add: draftsOwn_def)
    then show ?thesis using h(2) Some by (auto simp: submitDraft_def split: if_splits)
  qed (use h in \<open>simp add: submitDraft_def\<close>)
qed (auto simp: submitDraft_def split: option.splits)

lemma draftsOwn_answers:
  "draftsOwn s \<Longrightarrow> draftsOwn (submitAnswered c accepted oc now s)" "draftsOwn s \<Longrightarrow> draftsOwn (withdrawDraft s)"
  "draftsOwn s \<Longrightarrow> draftsOwn (withdrawAnswered accepted s)" "draftsOwn s \<Longrightarrow> draftsOwn (updateDone m s)"
  by (rule draftsOwn_frame,
      auto simp: submitAnswered_def withdrawDraft_def withdrawAnswered_def updateDone_def Let_def split: option.splits if_splits)+

lemma draftsOwn_step: "draftsOwn s \<Longrightarrow> draftsOwn (draftsStep e s)"
proof (cases e)
  case (DraftOpened k)
  assume h: "draftsOwn s"
  show ?thesis
  proof (cases "draftCallAt k s")
    case (Some c)
    then show ?thesis
    proof (cases c)
      case (OpenDraftCall n i ex)
      have o: "ownDraftCall s (OpenDraftCall n i ex)" using draftCall_in [OF Some] h unfolding OpenDraftCall draftsOwn_def list_all_iff by blast
      show ?thesis
      proof (cases "n = dv_effect s")
        case True
        let ?s = "(takeDraftCall k s)\<lparr>dv_calls := OpenDraftCall n i ex # dv_calls (takeDraftCall k s)\<rparr>"
        have "draftsOwn ?s" by (rule draftsOwn_frame [OF draftsOwn_take [OF h, of k]]) (use o in \<open>auto simp: ownDraftCall_def\<close>)
        from draftsOwn_opened [OF this, of n i ex] have "draftsOwn (draftOpened n i ex ?s)" by simp
        then have "draftsOwn (draftOpened n i ex (takeDraftCall k s))"
          by (rule draftsOwn_frame) (auto simp: draftOpened_def)
        then show ?thesis using Some OpenDraftCall DraftOpened by simp
      qed (use Some OpenDraftCall DraftOpened draftsOwn_take [OF h, of k] in \<open>simp add: draftOpened_def\<close>)
    qed (use h DraftOpened Some in simp_all)
  qed (use h DraftOpened in simp)
next
  case (DraftConnection b)
  assume h: "draftsOwn s"
  show ?thesis unfolding DraftConnection by (rule draftsOwn_frame [OF h]) auto
qed (auto simp: draftsOwn_select draftsOwn_edit draftsOwn_submit draftsOwn_answers draftsOwn_take draftsOwn_changed split: option.splits draft_call.splits)

lemma draftsOwn_run: "draftsOwn s \<Longrightarrow> draftsOwn (draftsRun es s)"
  unfolding draftsRun_def by (induction es arbitrary: s) (simp_all add: draftsOwn_step)

lemma draftsOwn_start: "draftsOwn (startDrafts app subs)"
  by (simp add: startDrafts_def draftsOwn_def)

section \<open>Drafts: properties\<close>

text \<open>C32: What is handed in for an assignment is what was opened for it: whatever the order in which assignments are opened and left, drafts are
  read, written and handed in, and submissions change, the draft on show is that of the assignment on show, and every submission on its
  way carries a draft of its own assignment. The notes beside it have no such guard.\<close>

theorem drafts_stay_with_their_assignment:
  assumes "s = draftsRun es (startDrafts app subs)"
  shows "(dv_ready s \<longrightarrow> dv_selected s \<noteq> None \<longrightarrow> dv_from s = map_option assignment_id (dv_selected s)) \<and>
    (SubmitCall c \<in> set (dv_calls s) \<longrightarrow> sc_from c = Some (sc_id c))"
proof -
  have o: "draftsOwn s" unfolding assms by (rule draftsOwn_run [OF draftsOwn_start])
  then have "SubmitCall c \<in> set (dv_calls s) \<Longrightarrow> ownDraftCall s (SubmitCall c)" unfolding draftsOwn_def list_all_iff by blast
  then show ?thesis using o by (auto simp: draftsOwn_def)
qed

definition essay :: "jsstring \<Rightarrow> assignment" where
  "essay i = \<lparr>assignment_id = i, assignment_classroom_id = [], assignment_classroom_name = [], assignment_title = [], assignment_instructions = [],
     due_at = None, max_points = 10, grading_scheme = JNull, assignment_status = Published, assignment_created_at = [], assignment_updated_at = []\<rparr>"

definition essayDraft :: "bool \<Rightarrow> drafts_view" where
  "essayDraft up = draftsRun [DraftConnection up, SelectDraft (Some (essay (js ''e''))), DraftOpened 0, EditDraft Completes JNull (js ''mine'')]
     (startDrafts demoStudent (\<lambda>_. None))"

lemma essayDraft_eq:
  "dv_selected (essayDraft up) = Some (essay (js ''e''))" "dv_ready (essayDraft up)" "\<not> dv_busy (essayDraft up)" "dv_calls (essayDraft up) = []"
  "dv_doc (essayDraft up) = JNull" "dv_text (essayDraft up) = js ''mine''" "sa_online (dv_app (essayDraft up)) = up"
  "dv_submissions (essayDraft up) = (\<lambda>_. None)" "dv_from (essayDraft up) = Some (js ''e'')" "assignment_status (essay i) \<noteq> Closed"
  "trim (dv_text (essayDraft up)) \<noteq> []"
proof -
  have "trim (js ''mine'') \<noteq> []" by code_simp
  then show "trim (dv_text (essayDraft up)) \<noteq> []"
    by (simp add: essayDraft_def draftsRun_def startDrafts_def selectDraft_def openingDraft_def draftCallAt_def takeDraftCall_def draftOpened_def editDraft_def Let_def)
qed (simp_all add: essayDraft_def draftsRun_def startDrafts_def selectDraft_def openingDraft_def draftCallAt_def takeDraftCall_def draftOpened_def
    editDraft_def saveDraft_def essay_def Let_def)

theorem drafts_stay_with_their_assignment_witness:
  "let s = draftsRun [SubmitDraft] (essayDraft True) in
   dv_calls s = [SubmitCall \<lparr>sc_id = js ''e'', sc_doc = JNull, sc_text = js ''mine'', sc_online = True, sc_again = False, sc_from = dv_from s\<rparr>] \<and>
   dv_from s = Some (js ''e'')"
proof -
  let ?s = "draftsRun [SubmitDraft] (essayDraft True)"
  have r: "?s = draftsRun [DraftConnection True, SelectDraft (Some (essay (js ''e''))), DraftOpened 0, EditDraft Completes JNull (js ''mine''), SubmitDraft]
     (startDrafts demoStudent (\<lambda>_. None))"
    by (simp add: draftsRun_def essayDraft_def)
  have c: "dv_calls ?s = [SubmitCall \<lparr>sc_id = js ''e'', sc_doc = JNull, sc_text = js ''mine'', sc_online = True, sc_again = False, sc_from = dv_from ?s\<rparr>]"
    using essayDraft_eq by (simp add: draftsRun_def submitDraft_def) (simp add: essay_def)
  from drafts_stay_with_their_assignment [OF r, of "\<lparr>sc_id = js ''e'', sc_doc = JNull, sc_text = js ''mine'', sc_online = True, sc_again = False, sc_from = dv_from ?s\<rparr>"]
  show ?thesis using c unfolding Let_def by simp
qed

text \<open>C35: What is typed while work is being handed in is lost: the change is kept in the cache, but the answer removes the draft, and the load
  that follows opens the version just handed in over it; neither the page nor the cache nor the host has the newer text.\<close>

theorem text_typed_during_submission_is_lost:
  assumes "dv_selected s = Some a" "dv_ready s" "\<not> dv_busy s" "assignment_status a \<noteq> Closed" "trim (dv_text s) \<noteq> []" "sa_online (dv_app s)"
    "dv_calls s = []" "f (assignment_id a) = Some u" "submission_version u = Some w" "shownVersion s \<noteq> Some (version_id w)"
    "version_doc_json w = dv_doc s" "version_plaintext w = dv_text s"
  shows "let s' = draftsRun [SubmitDraft, EditDraft Completes doc txt, SubmitAnswered 0 True Completes now, SubmissionsChanged f, UpdateDone 0, DraftOpened 0] s in
    dv_ready s' \<and> dv_doc s' = dv_doc s \<and> dv_text s' = dv_text s \<and>
    getItem (cacheOf (sa_db (dv_app s'))) (draftKey (assignment_id a)) = None \<and> outboxOf (sa_db (dv_app s')) = outboxOf (sa_db (dv_app s)) \<and>
    map snd (sa_log (dv_app s')) = map snd (sa_log (dv_app s)) @ [SubmissionWork \<lparr>sp_assignmentId = assignment_id a, sp_doc = dv_doc s, sp_text = dv_text s,
      sp_note = (if dv_submissions s (assignment_id a) \<noteq> None then Some (js ''Updated work'') else None)\<rparr>]"
proof -
  let ?s3 = "draftsRun [SubmitDraft, EditDraft Completes doc txt, SubmitAnswered 0 True Completes now] s"
  have s3: "dv_selected ?s3 = Some a" "dv_calls ?s3 = [UpdateCall None]" "dv_submissions ?s3 = dv_submissions s"
    "getItem (cacheOf (sa_db (dv_app ?s3))) (draftKey (assignment_id a)) = None" "outboxOf (sa_db (dv_app ?s3)) = outboxOf (sa_db (dv_app s))"
    "map snd (sa_log (dv_app ?s3)) = map snd (sa_log (dv_app s)) @ [SubmissionWork \<lparr>sp_assignmentId = assignment_id a, sp_doc = dv_doc s, sp_text = dv_text s,
      sp_note = (if dv_submissions s (assignment_id a) \<noteq> None then Some (js ''Updated work'') else None)\<rparr>]"
    using assms(1-7)
    by (simp_all add: draftsRun_def submitDraft_def editDraft_def saveDraft_def draftCallAt_def takeDraftCall_def submitAnswered_def submitAssignment_def
        Let_def ls.get_put ls.get_remove)
  have "shownVersion ?s3 = shownVersion s" using s3(1,3) assms(1) by (simp add: shownVersion_def)
  moreover have "shownVersion (?s3\<lparr>dv_submissions := f\<rparr>) = Some (version_id w)" using s3(1) assms(8,9) by (simp add: shownVersion_def)
  ultimately have o: "submissionsChanged f ?s3 = openingDraft (?s3\<lparr>dv_submissions := f\<rparr>)" using assms(10) by (simp add: submissionsChanged_def Let_def)
  define t where "t = draftsRun [SubmissionsChanged f, UpdateDone 0, DraftOpened 0] ?s3"
  have "draftsRun [SubmitDraft, EditDraft Completes doc txt, SubmitAnswered 0 True Completes now, SubmissionsChanged f, UpdateDone 0, DraftOpened 0] s = t"
    by (simp add: t_def draftsRun_def)
  moreover have "dv_ready t \<and> dv_doc t = dv_doc s \<and> dv_text t = dv_text s \<and> dv_app t = dv_app ?s3"
    using s3(1,2,4) assms(8,9,11,12) o
    by (simp add: t_def draftsRun_def [of "[SubmissionsChanged f, UpdateDone 0, DraftOpened 0]"] openingDraft_def draftCallAt_def takeDraftCall_def updateDone_def draftOpened_def openDraft_def)
  ultimately show ?thesis using s3(4-6) unfolding Let_def by simp
qed

definition essayVersion :: submission_version where
  "essayVersion = \<lparr>version_id = js ''v1'', version_number = 1, version_doc_json = JNull, version_plaintext = js ''mine'', change_note = None, late = False,
     version_created_at = []\<rparr>"

definition essaySubmission :: submission where
  "essaySubmission = \<lparr>submission_id = js ''s'', submission_assignment_id = js ''e'', submission_assignment_title = [], submission_student_id = [],
     submission_student_name = [], submission_status = Submitted, submission_version = Some essayVersion, submission_grade = None, submitted_at = None,
     submission_updated_at = []\<rparr>"

theorem text_typed_during_submission_is_lost_witness:
  "let s' = draftsRun [SubmitDraft, EditDraft Completes JNull (js ''mine and more''), SubmitAnswered 0 True Completes [], SubmissionsChanged (\<lambda>_. Some essaySubmission),
       UpdateDone 0, DraftOpened 0] (essayDraft True) in
   dv_text s' = js ''mine'' \<and> getItem (cacheOf (sa_db (dv_app s'))) (draftKey (js ''e'')) = None"
proof -
  have h: "sa_online (dv_app (essayDraft True))" "(\<lambda>_. Some essaySubmission) (assignment_id (essay (js ''e''))) = Some essaySubmission"
    "submission_version essaySubmission = Some essayVersion" "shownVersion (essayDraft True) \<noteq> Some (version_id essayVersion)"
    "version_doc_json essayVersion = dv_doc (essayDraft True)" "version_plaintext essayVersion = dv_text (essayDraft True)"
    using essayDraft_eq by (simp_all add: essaySubmission_def essayVersion_def shownVersion_def)
  have e: "assignment_id (essay (js ''e'')) = js ''e''" by (simp add: essay_def)
  from text_typed_during_submission_is_lost [OF essayDraft_eq(1-3,10,11) h(1) essayDraft_eq(4) h(2-6), of JNull "js ''mine and more''" "[]"]
  show ?thesis unfolding Let_def e essayDraft_eq(6) by blast
qed

text \<open>Work handed in without the host waits as it was handed in: what is written afterwards is kept as the draft and opens again, and the
  waiting version stays the one of the button.\<close>

theorem waiting_work_is_the_version_handed_in:
  assumes "dv_selected s = Some a" "dv_ready s" "\<not> dv_busy s" "assignment_status a \<noteq> Closed" "trim (dv_text s) \<noteq> []" "\<not> sa_online (dv_app s)" "dv_calls s = []"
  shows "let s' = draftsRun [SubmitDraft, SubmitAnswered 0 accepted Completes now, EditDraft Completes doc txt] s in
    map_option entry_work (getItem (outboxOf (sa_db (dv_app s'))) (submissionKey (assignment_id a))) =
      Some (SubmissionWork \<lparr>sp_assignmentId = assignment_id a, sp_doc = dv_doc s, sp_text = dv_text s, sp_note = Some (js ''Queued while offline'')\<rparr>) \<and>
    openDraft (assignment_id a) existing (dv_app s') = (doc, txt) \<and> sa_log (dv_app s') = sa_log (dv_app s) \<and> \<not> dv_busy s'"
  using assms
  by (simp add: draftsRun_def submitDraft_def editDraft_def saveDraft_def draftCallAt_def takeDraftCall_def submitAnswered_def submitAssignment_def openDraft_def
      Let_def ls.get_put)

theorem waiting_work_is_the_version_handed_in_witness:
  "let s' = draftsRun [SubmitDraft, SubmitAnswered 0 False Completes [], EditDraft Completes JNull (js ''later'')] (essayDraft False) in
   openDraft (js ''e'') None (dv_app s') = (JNull, js ''later'') \<and> \<not> dv_busy s'"
proof -
  have h: "\<not> sa_online (dv_app (essayDraft False))" and e: "assignment_id (essay (js ''e'')) = js ''e''" using essayDraft_eq(7) [of False] by (simp_all add: essay_def)
  from waiting_work_is_the_version_handed_in [OF essayDraft_eq(1-3,10,11) h essayDraft_eq(4), of False "[]" JNull "js ''later''" None]
  show ?thesis unfolding Let_def e by blast
qed

end
