(* ===== verification/Student_Cards.thy ===== *)
theory Student_Cards
  imports Student_App
begin

text \<open>
  The flashcards of the classroom computer (\<open>FlashcardsView\<close> of \<open>apps/student/src/App.tsx\<close>) as a state machine, and the pages that show
  what the teacher gave: the first page, the rows of assignments, the materials of a classroom and the published feedback.

  The fields \<open>kv_from\<close> and the origin in a removal, the deck that the cards on show came from, are there for the statements only.
\<close>

section \<open>Flashcards\<close>

text \<open>Requests on their way, and a list of cards that is being kept (\<open>KeepCards\<close>): the page goes back to the first card when it is.\<close>

datatype cards_call =
    LoadCards jsstring
  | KeepCards jsstring "flash_card list"
  | DeleteCardCall jsstring jsstring "jsstring option"
  | CreateCardCall jsstring jsstring jsstring
  | CreateDeckCall "study_node list" jsstring "jsstring option"

record cards_view =
  kv_app :: student_state
  kv_nodes :: "study_node list"
  kv_selected :: "study_node option"
  kv_cards :: "flash_card list"
  kv_from :: "jsstring option"
  kv_index :: nat
  kv_flipped :: bool
  kv_deckForm :: bool
  kv_cardForm :: bool
  kv_calls :: "cards_call list"

definition ownDecks :: "study_node list \<Rightarrow> study_node list" where
  "ownDecks ns = filter (\<lambda>n. node_kind n = DeckNode \<and> node_owner_id n \<noteq> None \<and> node_owner_id n \<noteq> Some []) ns"

definition startCards :: "student_state \<Rightarrow> study_node list \<Rightarrow> cards_view" where
  "startCards app ns = \<lparr>kv_app = app, kv_nodes = ns, kv_selected = None, kv_cards = [], kv_from = None, kv_index = 0, kv_flipped = False,
     kv_deckForm = False, kv_cardForm = False, kv_calls = []\<rparr>"

definition cardsKey :: "jsstring \<Rightarrow> jsstring" where
  "cardsKey i = js ''cards:'' @ i"

definition cachedCards :: "jsstring \<Rightarrow> student_state \<Rightarrow> flash_card list" where
  "cachedCards i s = (case getItem (cacheOf (sa_db s)) (cardsKey i) of Some (CardsValue cs) \<Rightarrow> cs | _ \<Rightarrow> [])"

definition callCards :: "cards_call \<Rightarrow> cards_view \<Rightarrow> cards_view" where
  "callCards c s = s\<lparr>kv_calls := kv_calls s @ [c]\<rparr>"

text \<open>The effect loads the cards of the deck that is selected.\<close>

definition openDeck :: "study_node \<Rightarrow> cards_view \<Rightarrow> cards_view" where
  "openDeck d s = callCards (LoadCards (node_id d)) (s\<lparr>kv_selected := Some d\<rparr>)"

definition firstCard :: "cards_view \<Rightarrow> cards_view" where
  "firstCard s = s\<lparr>kv_index := 0, kv_flipped := False\<rparr>"

definition useCached :: "jsstring \<Rightarrow> cards_view \<Rightarrow> cards_view" where
  "useCached i s = s\<lparr>kv_cards := cachedCards i (kv_app s), kv_from := Some i\<rparr>"

text \<open>\<open>loadCards\<close> from the answer on: the host's cards are shown and then kept; without an answer, or when they cannot be kept, the
  device's copy is shown.\<close>

definition cardsLoaded :: "jsstring \<Rightarrow> flash_card list option \<Rightarrow> cards_view \<Rightarrow> cards_view" where
  "cardsLoaded i resp s = (case resp of
      Some cs \<Rightarrow> callCards (KeepCards i cs) (s\<lparr>kv_cards := cs, kv_from := Some i\<rparr>)
    | None \<Rightarrow> firstCard (useCached i s))"

definition cardsKept :: "jsstring \<Rightarrow> flash_card list \<Rightarrow> idb_outcome \<Rightarrow> cards_view \<Rightarrow> cards_view" where
  "cardsKept i cs oc s =
     (let s1 = s\<lparr>kv_app := (kv_app s)\<lparr>sa_db := snd (cacheSet oc (cardsKey i) (CardsValue cs) (sa_db (kv_app s)))\<rparr>\<rparr>
      in firstCard (if oc = Completes then s1 else useCached i s1))"

text \<open>The deck is answered with the tree as it was when the form was sent; a tree that is not kept leaves the form open.\<close>

definition deckCreated :: "study_node list \<Rightarrow> study_node option \<Rightarrow> idb_outcome \<Rightarrow> cards_view \<Rightarrow> cards_view" where
  "deckCreated captured made oc s = (case made of
      None \<Rightarrow> s
    | Some d \<Rightarrow>
        (let known = captured @ [d];
             s1 = s\<lparr>kv_nodes := known, kv_app := (kv_app s)\<lparr>sa_db := snd (cacheSet oc (appKey TreeName) (SharedValue (CachedTree known)) (sa_db (kv_app s)))\<rparr>\<rparr>
         in if oc = Completes then openDeck d (s1\<lparr>kv_deckForm := False\<rparr>) else s1))"

datatype cards_event =
    SelectDeck study_node | AllDecks | FlipCard | PreviousCard | NextCard | ChooseCard nat | RemoveCard nat
  | OpenCardForm | CloseCardForm | SubmitCard jsstring jsstring | OpenDeckForm | CloseDeckForm | SubmitDeck jsstring jsstring
  | CardsLoaded nat "flash_card list option" | CardsKept nat idb_outcome | CardDeleted nat bool | CardCreated nat bool
  | DeckCreated nat "study_node option" idb_outcome | TreeChanged "study_node list" | CardsConnection bool

definition takeCardsCall :: "nat \<Rightarrow> cards_view \<Rightarrow> cards_view" where
  "takeCardsCall k s = s\<lparr>kv_calls := take k (kv_calls s) @ drop (Suc k) (kv_calls s)\<rparr>"

definition cardsCallAt :: "nat \<Rightarrow> cards_view \<Rightarrow> cards_call option" where
  "cardsCallAt k s = (if k < length (kv_calls s) then Some (kv_calls s ! k) else None)"

text \<open>The controls of the study panel are shown when there is a card.\<close>

definition cardShown :: "cards_view \<Rightarrow> bool" where
  "cardShown s \<longleftrightarrow> kv_selected s \<noteq> None \<and> kv_index s < length (kv_cards s)"

definition removeCardAt :: "nat \<Rightarrow> cards_view \<Rightarrow> cards_view" where
  "removeCardAt i s = (case kv_selected s of
      Some d \<Rightarrow> if i < length (kv_cards s) \<and> sa_online (kv_app s) then callCards (DeleteCardCall (fc_id (kv_cards s ! i)) (node_id d) (kv_from s)) s else s
    | None \<Rightarrow> s)"

definition submitCard :: "jsstring \<Rightarrow> jsstring \<Rightarrow> cards_view \<Rightarrow> cards_view" where
  "submitCard front back s = (case kv_selected s of
      Some d \<Rightarrow> if kv_cardForm s \<and> trim front \<noteq> [] \<and> trim back \<noteq> [] then callCards (CreateCardCall (node_id d) (trim front) (trim back)) s else s
    | None \<Rightarrow> s)"

definition submitDeck :: "jsstring \<Rightarrow> jsstring \<Rightarrow> cards_view \<Rightarrow> cards_view" where
  "submitDeck name room s =
     (if kv_selected s = None \<and> kv_deckForm s \<and> trim name \<noteq> []
      then callCards (CreateDeckCall (kv_nodes s) (trim name) (if room = [] then None else Some room)) s else s)"

fun cardsStep :: "cards_event \<Rightarrow> cards_view \<Rightarrow> cards_view" where
  "cardsStep (SelectDeck d) s = (if kv_selected s = None \<and> d \<in> set (ownDecks (kv_nodes s)) then openDeck d s else s)"
| "cardsStep AllDecks s = s\<lparr>kv_selected := None\<rparr>"
| "cardsStep FlipCard s = (if cardShown s then s\<lparr>kv_flipped := \<not> kv_flipped s\<rparr> else s)"
| "cardsStep PreviousCard s = (if cardShown s \<and> kv_index s \<noteq> 0 then s\<lparr>kv_index := kv_index s - 1, kv_flipped := False\<rparr> else s)"
| "cardsStep NextCard s = (if cardShown s \<and> Suc (kv_index s) < length (kv_cards s) then s\<lparr>kv_index := Suc (kv_index s), kv_flipped := False\<rparr> else s)"
| "cardsStep (ChooseCard i) s = (if kv_selected s \<noteq> None \<and> i < length (kv_cards s) then s\<lparr>kv_index := i, kv_flipped := False\<rparr> else s)"
| "cardsStep (RemoveCard i) s = removeCardAt i s"
| "cardsStep OpenCardForm s = (if kv_selected s \<noteq> None \<and> sa_online (kv_app s) then s\<lparr>kv_cardForm := True\<rparr> else s)"
| "cardsStep CloseCardForm s = s\<lparr>kv_cardForm := False\<rparr>"
| "cardsStep (SubmitCard front back) s = submitCard front back s"
| "cardsStep OpenDeckForm s = (if kv_selected s = None \<and> sa_online (kv_app s) then s\<lparr>kv_deckForm := True\<rparr> else s)"
| "cardsStep CloseDeckForm s = s\<lparr>kv_deckForm := False\<rparr>"
| "cardsStep (SubmitDeck name room) s = submitDeck name room s"
| "cardsStep (CardsLoaded k resp) s = (case cardsCallAt k s of Some (LoadCards i) \<Rightarrow> cardsLoaded i resp (takeCardsCall k s) | _ \<Rightarrow> s)"
| "cardsStep (CardsKept k oc) s = (case cardsCallAt k s of Some (KeepCards i cs) \<Rightarrow> cardsKept i cs oc (takeCardsCall k s) | _ \<Rightarrow> s)"
| "cardsStep (CardDeleted k ok) s = (case cardsCallAt k s of
      Some (DeleteCardCall _ d _) \<Rightarrow> if ok then callCards (LoadCards d) (takeCardsCall k s) else takeCardsCall k s | _ \<Rightarrow> s)"
| "cardsStep (CardCreated k ok) s = (case cardsCallAt k s of
      Some (CreateCardCall d _ _) \<Rightarrow> if ok then callCards (LoadCards d) ((takeCardsCall k s)\<lparr>kv_cardForm := False\<rparr>) else takeCardsCall k s | _ \<Rightarrow> s)"
| "cardsStep (DeckCreated k made oc) s = (case cardsCallAt k s of
      Some (CreateDeckCall captured _ _) \<Rightarrow> deckCreated captured made oc (takeCardsCall k s) | _ \<Rightarrow> s)"
| "cardsStep (TreeChanged ns) s = s\<lparr>kv_nodes := ns\<rparr>"
| "cardsStep (CardsConnection b) s = s\<lparr>kv_app := (kv_app s)\<lparr>sa_online := b\<rparr>\<rparr>"

definition cardsRun :: "cards_event list \<Rightarrow> cards_view \<Rightarrow> cards_view" where
  "cardsRun es s = fold cardsStep es s"

section \<open>Flashcards: lemmas\<close>

definition keepsCards :: "cards_call \<Rightarrow> bool" where
  "keepsCards c \<longleftrightarrow> (case c of KeepCards _ _ \<Rightarrow> True | _ \<Rightarrow> False)"

definition loadsCards :: "cards_call \<Rightarrow> bool" where
  "loadsCards c \<longleftrightarrow> (case c of LoadCards _ \<Rightarrow> True | _ \<Rightarrow> False)"

definition cardsIndexOk :: "cards_view \<Rightarrow> bool" where
  "cardsIndexOk s \<longleftrightarrow> kv_index s = 0 \<or> kv_index s < length (kv_cards s) \<or> list_ex keepsCards (kv_calls s)"

lemma cards_call_simps [simp]:
  "\<not> keepsCards (LoadCards i)" "keepsCards (KeepCards i cs)" "\<not> keepsCards (DeleteCardCall c d fr)" "\<not> keepsCards (CreateCardCall d f b)"
  "\<not> keepsCards (CreateDeckCall ns name room)" "loadsCards (LoadCards i)" "\<not> loadsCards (KeepCards i cs)" "\<not> loadsCards (DeleteCardCall c d fr)"
  "\<not> loadsCards (CreateCardCall d f b)" "\<not> loadsCards (CreateDeckCall ns name room)"
  by (simp_all add: keepsCards_def loadsCards_def)

lemma cardsCallAt_split:
  assumes "cardsCallAt k s = Some c"
  obtains xs ys where "kv_calls s = xs @ c # ys" "kv_calls (takeCardsCall k s) = xs @ ys"
proof -
  have "kv_calls s = take k (kv_calls s) @ c # drop (Suc k) (kv_calls s)"
    using assms by (auto simp: cardsCallAt_def id_take_nth_drop split: if_splits)
  then show ?thesis by (rule that) (simp add: takeCardsCall_def)
qed

lemma takeCardsCall_frames [simp]:
  "kv_app (takeCardsCall k s) = kv_app s" "kv_nodes (takeCardsCall k s) = kv_nodes s" "kv_selected (takeCardsCall k s) = kv_selected s"
  "kv_cards (takeCardsCall k s) = kv_cards s" "kv_from (takeCardsCall k s) = kv_from s" "kv_index (takeCardsCall k s) = kv_index s"
  by (simp_all add: takeCardsCall_def)

lemma callCards_frames [simp]:
  "kv_app (callCards c s) = kv_app s" "kv_nodes (callCards c s) = kv_nodes s" "kv_selected (callCards c s) = kv_selected s"
  "kv_cards (callCards c s) = kv_cards s" "kv_from (callCards c s) = kv_from s" "kv_index (callCards c s) = kv_index s"
  "kv_calls (callCards c s) = kv_calls s @ [c]"
  by (simp_all add: callCards_def)

lemma indexOk_take: "cardsCallAt k s = Some c \<Longrightarrow> \<not> keepsCards c \<Longrightarrow> cardsIndexOk s \<Longrightarrow> cardsIndexOk (takeCardsCall k s)"
  by (erule cardsCallAt_split) (auto simp: cardsIndexOk_def)

lemma indexOk_call: "cardsIndexOk s \<Longrightarrow> cardsIndexOk (callCards c s)"
  by (auto simp: cardsIndexOk_def)

lemma indexOk_frame:
  "cardsIndexOk s \<Longrightarrow> kv_index t = kv_index s \<Longrightarrow> kv_cards t = kv_cards s \<Longrightarrow> kv_calls t = kv_calls s \<Longrightarrow> cardsIndexOk t"
  by (simp add: cardsIndexOk_def)

lemma indexOk_first: "cardsIndexOk (firstCard s)"
  by (simp add: cardsIndexOk_def firstCard_def)

lemma indexOk_loaded: "cardsIndexOk (cardsLoaded i resp s)"
  by (cases resp) (simp_all add: cardsLoaded_def indexOk_first, simp add: cardsIndexOk_def)

lemma indexOk_deck: "cardsIndexOk s \<Longrightarrow> cardsIndexOk (openDeck d s)"
  unfolding openDeck_def by (rule indexOk_call) (auto intro: indexOk_frame)

lemma indexOk_created: "cardsIndexOk s \<Longrightarrow> cardsIndexOk (deckCreated captured made oc s)"
  by (auto simp: deckCreated_def Let_def split: option.splits intro!: indexOk_deck intro: indexOk_frame)

lemma indexOk_step: "cardsIndexOk s \<Longrightarrow> cardsIndexOk (cardsStep e s)"
proof (cases e)
  case (CardDeleted k ok)
  then show "cardsIndexOk s \<Longrightarrow> ?thesis" using indexOk_take [of k s] by (auto simp: indexOk_call split: option.splits cards_call.splits)
next
  case (CardCreated k ok)
  assume h: "cardsIndexOk s"
  have "cardsIndexOk (callCards c (takeCardsCall k s\<lparr>kv_cardForm := False\<rparr>))" if "cardsIndexOk (takeCardsCall k s)" for c
    by (rule indexOk_call, rule indexOk_frame [OF that]) simp_all
  then show ?thesis using indexOk_take [of k s] h CardCreated by (auto split: option.splits cards_call.splits)
next
  case (DeckCreated k made oc)
  then show "cardsIndexOk s \<Longrightarrow> ?thesis" using indexOk_take [of k s] by (auto simp: indexOk_created split: option.splits cards_call.splits)
next
  case (RemoveCard i)
  then show "cardsIndexOk s \<Longrightarrow> ?thesis" by (simp add: removeCardAt_def indexOk_call split: option.splits)
next
  case (SubmitCard f b)
  then show "cardsIndexOk s \<Longrightarrow> ?thesis" by (simp add: submitCard_def indexOk_call split: option.splits)
next
  case (SubmitDeck name room)
  then show "cardsIndexOk s \<Longrightarrow> ?thesis" by (simp add: submitDeck_def indexOk_call)
next
  case (CardsLoaded k resp)
  then show "cardsIndexOk s \<Longrightarrow> ?thesis" by (simp add: indexOk_loaded split: option.splits cards_call.splits)
next
  case (CardsKept k oc)
  then show "cardsIndexOk s \<Longrightarrow> ?thesis" by (simp add: cardsKept_def Let_def indexOk_first split: option.splits cards_call.splits)
qed (simp_all add: indexOk_deck, auto simp: cardsIndexOk_def cardShown_def)

section \<open>Flashcards: properties\<close>


subsection \<open>Runs in which nothing overlaps\<close>

text \<open>A deck is opened when nothing is on its way, and a card is removed when no cards are being loaded or kept.\<close>

definition calmCard :: "cards_event \<Rightarrow> cards_view \<Rightarrow> bool" where
  "calmCard e s \<longleftrightarrow> (case e of
      SelectDeck d \<Rightarrow> kv_calls s = []
    | RemoveCard i \<Rightarrow> \<not> list_ex loadsCards (kv_calls s)
    | DeckCreated k made oc \<Rightarrow> length (kv_calls s) = 1
    | _ \<Rightarrow> True)"

primrec calmCards :: "cards_event list \<Rightarrow> cards_view \<Rightarrow> bool" where
  "calmCards [] s = True"
| "calmCards (e # es) s \<longleftrightarrow> calmCard e s \<and> calmCards es (cardsStep e s)"

definition ofDeck :: "study_node option \<Rightarrow> cards_call \<Rightarrow> bool" where
  "ofDeck sel c \<longleftrightarrow> (let own = (\<lambda>i. map_option node_id sel \<in> {None, Some i}) in case c of
      LoadCards i \<Rightarrow> own i | KeepCards i _ \<Rightarrow> own i | DeleteCardCall _ d fr \<Rightarrow> own d \<and> fr = Some d | CreateCardCall d _ _ \<Rightarrow> own d
    | CreateDeckCall _ _ _ \<Rightarrow> True)"

definition cardsOwn :: "cards_view \<Rightarrow> bool" where
  "cardsOwn s \<longleftrightarrow> list_all (ofDeck (kv_selected s)) (kv_calls s) \<and>
     (kv_selected s = None \<or> list_ex loadsCards (kv_calls s) \<or> kv_from s = map_option node_id (kv_selected s))"

lemma ofDeck_simps [simp]:
  "ofDeck None (LoadCards i)" "ofDeck None (KeepCards i cs)" "ofDeck None (DeleteCardCall c d fr) \<longleftrightarrow> fr = Some d" "ofDeck None (CreateCardCall d f b)"
  "ofDeck sel (CreateDeckCall ns name room)"
  "ofDeck (Some n) (LoadCards i) \<longleftrightarrow> node_id n = i" "ofDeck (Some n) (KeepCards i cs) \<longleftrightarrow> node_id n = i"
  "ofDeck (Some n) (DeleteCardCall c d fr) \<longleftrightarrow> node_id n = d \<and> fr = Some d" "ofDeck (Some n) (CreateCardCall d f b) \<longleftrightarrow> node_id n = d"
  by (simp_all add: ofDeck_def)

lemma ofDeck_None: "ofDeck sel c \<Longrightarrow> ofDeck None c"
  by (cases c) (auto simp: ofDeck_def)

lemma cardsOwn_frame:
  "cardsOwn s \<Longrightarrow> kv_selected t = kv_selected s \<Longrightarrow> kv_from t = kv_from s \<Longrightarrow> kv_calls t = kv_calls s \<Longrightarrow> cardsOwn t"
  by (simp add: cardsOwn_def)

lemma cardsOwn_call: "cardsOwn s \<Longrightarrow> ofDeck (kv_selected s) c \<Longrightarrow> cardsOwn (callCards c s)"
  by (auto simp: cardsOwn_def)

lemma cardsOwn_first [simp]: "cardsOwn (firstCard s) = cardsOwn s"
  by (simp add: cardsOwn_def firstCard_def)

lemma cardsOwn_take: "cardsOwn s \<Longrightarrow> cardsCallAt k s = Some c \<Longrightarrow> \<not> loadsCards c \<Longrightarrow> cardsOwn (takeCardsCall k s) \<and> ofDeck (kv_selected s) c"
  by (erule cardsCallAt_split) (auto simp: cardsOwn_def)

lemma cardsOwn_loaded:
  assumes "cardsOwn s" "cardsCallAt k s = Some (LoadCards i)"
  shows "cardsOwn (cardsLoaded i resp (takeCardsCall k s))"
proof -
  obtain xs ys where c: "kv_calls s = xs @ LoadCards i # ys" "kv_calls (takeCardsCall k s) = xs @ ys" using assms(2) by (rule cardsCallAt_split)
  show ?thesis using assms(1) c
    by (cases "kv_selected s"; cases resp) (auto simp: cardsOwn_def cardsLoaded_def useCached_def firstCard_def)
qed

lemma cardsOwn_kept:
  assumes "cardsOwn s" "cardsCallAt k s = Some (KeepCards i cs)"
  shows "cardsOwn (cardsKept i cs oc (takeCardsCall k s))"
proof -
  obtain xs ys where c: "kv_calls s = xs @ KeepCards i cs # ys" "kv_calls (takeCardsCall k s) = xs @ ys" using assms(2) by (rule cardsCallAt_split)
  show ?thesis using assms(1) c
    by (cases "kv_selected s") (auto simp: cardsOwn_def cardsKept_def useCached_def firstCard_def Let_def)
qed

lemma cardsOwn_created:
  assumes "cardsOwn s" "cardsCallAt k s = Some (CreateDeckCall ns name room)" "length (kv_calls s) = 1"
  shows "cardsOwn (deckCreated ns made oc (takeCardsCall k s))"
proof -
  obtain xs ys where c: "kv_calls s = xs @ CreateDeckCall ns name room # ys" "kv_calls (takeCardsCall k s) = xs @ ys" using assms(2) by (rule cardsCallAt_split)
  then have "kv_calls (takeCardsCall k s) = []" "\<not> list_ex loadsCards (kv_calls s)" using assms(3) by auto
  then show ?thesis using assms(1)
    by (auto simp: cardsOwn_def deckCreated_def openDeck_def callCards_def Let_def split: option.splits)
qed

lemma cardsOwn_remove: "cardsOwn s \<Longrightarrow> calmCard (RemoveCard i) s \<Longrightarrow> cardsOwn (removeCardAt i s)"
  by (cases "kv_selected s") (auto simp: removeCardAt_def calmCard_def cardsOwn_def)

lemma cardsOwn_step: "cardsOwn s \<Longrightarrow> calmCard e s \<Longrightarrow> cardsOwn (cardsStep e s)"
proof (cases e)
  case (SelectDeck d)
  then show "cardsOwn s \<Longrightarrow> calmCard e s \<Longrightarrow> ?thesis" by (auto simp: calmCard_def cardsOwn_def openDeck_def callCards_def)
next
  case AllDecks
  then show "cardsOwn s \<Longrightarrow> calmCard e s \<Longrightarrow> ?thesis" by (auto simp: cardsOwn_def list_all_iff dest: ofDeck_None)
next
  case (CardDeleted k ok)
  then show "cardsOwn s \<Longrightarrow> calmCard e s \<Longrightarrow> ?thesis"
    using cardsOwn_take [of s k] by (cases "kv_selected s") (auto intro!: cardsOwn_call split: option.splits cards_call.splits)
next
  case (CardCreated k ok)
  assume h: "cardsOwn s" "calmCard e s"
  have "cardsOwn (callCards (LoadCards d) (takeCardsCall k s\<lparr>kv_cardForm := False\<rparr>))" if "cardsCallAt k s = Some (CreateCardCall d f b)" for d f b
  proof -
    have t: "cardsOwn (takeCardsCall k s) \<and> ofDeck (kv_selected s) (CreateCardCall d f b)" by (rule cardsOwn_take [OF h(1) that]) simp
    then have "cardsOwn (takeCardsCall k s\<lparr>kv_cardForm := False\<rparr>)" by (auto intro: cardsOwn_frame)
    then show ?thesis by (rule cardsOwn_call) (use t in \<open>cases "kv_selected s"; simp\<close>)
  qed
  then show ?thesis using cardsOwn_take [of s k] h CardCreated by (auto split: option.splits cards_call.splits)
next
  case (DeckCreated k made oc)
  then show "cardsOwn s \<Longrightarrow> calmCard e s \<Longrightarrow> ?thesis" by (auto simp: calmCard_def cardsOwn_created split: option.splits cards_call.splits)
next
  case (CardsLoaded k resp)
  then show "cardsOwn s \<Longrightarrow> calmCard e s \<Longrightarrow> ?thesis" by (auto simp: cardsOwn_loaded split: option.splits cards_call.splits)
next
  case (CardsKept k oc)
  then show "cardsOwn s \<Longrightarrow> calmCard e s \<Longrightarrow> ?thesis" by (auto simp: cardsOwn_kept split: option.splits cards_call.splits)
next
  case (RemoveCard i)
  then show "cardsOwn s \<Longrightarrow> calmCard e s \<Longrightarrow> ?thesis" by (simp add: cardsOwn_remove)
next
  case (SubmitCard f b)
  then show "cardsOwn s \<Longrightarrow> calmCard e s \<Longrightarrow> ?thesis" by (auto simp: submitCard_def intro!: cardsOwn_call split: option.splits)
next
  case (SubmitDeck name room)
  then show "cardsOwn s \<Longrightarrow> calmCard e s \<Longrightarrow> ?thesis" by (auto simp: submitDeck_def intro!: cardsOwn_call)
qed (auto intro: cardsOwn_frame)

lemma cardsOwn_run: "cardsOwn s \<Longrightarrow> calmCards es s \<Longrightarrow> cardsOwn (cardsRun es s)"
  unfolding cardsRun_def by (induction es arbitrary: s) (simp_all add: cardsOwn_step)

text \<open>As long as nothing overlaps, only cards of the open deck are removed: when decks are opened with nothing on its way and cards are
  removed when none are being loaded, every removal is of a card that was shown as one of the deck it is removed from.\<close>

theorem calm_cards_are_removed_from_their_deck:
  assumes "calmCards es (startCards app ns)" "DeleteCardCall c d fr \<in> set (kv_calls (cardsRun es (startCards app ns)))"
  shows "fr = Some d"
proof -
  have "cardsOwn (cardsRun es (startCards app ns))" by (rule cardsOwn_run [OF _ assms(1)]) (simp add: startCards_def cardsOwn_def)
  then have "ofDeck (kv_selected (cardsRun es (startCards app ns))) (DeleteCardCall c d fr)" using assms(2) unfolding cardsOwn_def list_all_iff by blast
  then show ?thesis by (simp add: ofDeck_def)
qed

text \<open>A deck opens with the cards of the one before: until its own are answered, the cards of the deck that was left are on show under the
  new name, and removing one removes it from the other deck; when two loads are answered in the other order, they stay.\<close>

theorem cards_of_the_deck_before_are_removed:
  assumes "kv_selected s = Some a" "kv_cards s = c # cs" "kv_calls s = []" "sa_online (kv_app s)" "a \<in> set (ownDecks (kv_nodes s))"
    "b \<in> set (ownDecks (kv_nodes s))"
  shows "(let s1 = cardsRun [AllDecks, SelectDeck b, RemoveCard 0] s in
      kv_selected s1 = Some b \<and> kv_calls s1 = [LoadCards (node_id b), DeleteCardCall (fc_id c) (node_id b) (kv_from s)]) \<and>
    (let s2 = cardsRun [AllDecks, SelectDeck a, AllDecks, SelectDeck b, CardsLoaded 1 (Some ofB), CardsLoaded 0 (Some ofA)] s in
      kv_selected s2 = Some b \<and> kv_cards s2 = ofA \<and> list_ex loadsCards (kv_calls s2) = False)"
  using assms by (simp add: cardsRun_def openDeck_def callCards_def removeCardAt_def cardsCallAt_def takeCardsCall_def cardsLoaded_def Let_def)

definition deckNode :: "jsstring \<Rightarrow> study_node" where
  "deckNode i = \<lparr>node_id = i, node_owner_id = Some (js ''asha''), node_parent_id = None, node_classroom_id = None, node_name = i,
     node_kind = DeckNode, node_position = 0, node_icon = None, node_created_at = [], node_updated_at = []\<rparr>"

definition flashCard :: "jsstring \<Rightarrow> jsstring \<Rightarrow> flash_card" where
  "flashCard i d = \<lparr>fc_id = i, fc_deck = d, fc_front = [], fc_back = [], fc_source = None, fc_excerpt = None, fc_ai = False\<rparr>"

definition deckRun :: "cards_event list" where
  "deckRun = [CardsConnection True, SelectDeck (deckNode (js ''a'')), CardsLoaded 0 (Some [flashCard (js ''c'') (js ''a'')]), CardsKept 0 Completes]"

definition twoDecks :: cards_view where
  "twoDecks = cardsRun deckRun (startCards demoStudent [deckNode (js ''a''), deckNode (js ''b'')])"

lemma twoDecks_eq:
  "kv_selected twoDecks = Some (deckNode (js ''a''))" "kv_cards twoDecks = [flashCard (js ''c'') (js ''a'')]" "kv_calls twoDecks = []"
  "sa_online (kv_app twoDecks)" "deckNode (js ''a'') \<in> set (ownDecks (kv_nodes twoDecks))" "deckNode (js ''b'') \<in> set (ownDecks (kv_nodes twoDecks))"
  "kv_from twoDecks = Some (js ''a'')"
  by (simp_all add: twoDecks_def deckRun_def cardsRun_def startCards_def ownDecks_def deckNode_def openDeck_def callCards_def cardsCallAt_def takeCardsCall_def
      cardsLoaded_def cardsKept_def firstCard_def Let_def js_def)

theorem cards_of_the_deck_before_are_removed_witness:
  "kv_calls (cardsRun [AllDecks, SelectDeck (deckNode (js ''b'')), RemoveCard 0] twoDecks) =
     [LoadCards (js ''b''), DeleteCardCall (js ''c'') (js ''b'') (Some (js ''a''))]"
  using cards_of_the_deck_before_are_removed [OF twoDecks_eq(1-6), of "[]" "[]"] unfolding Let_def twoDecks_eq(7) by (simp add: deckNode_def flashCard_def)

theorem calm_cards_are_removed_from_their_deck_witness:
  "DeleteCardCall (js ''c'') (js ''a'') (Some (js ''a'')) \<in> set (kv_calls (cardsRun [RemoveCard 0] twoDecks)) \<and> Some (js ''a'') = Some (js ''a'')"
proof -
  have e: "cardsRun (deckRun @ [RemoveCard 0]) (startCards demoStudent [deckNode (js ''a''), deckNode (js ''b'')]) = cardsRun [RemoveCard 0] twoDecks"
    by (simp add: twoDecks_def cardsRun_def)
  have c: "calmCards (deckRun @ [RemoveCard 0]) (startCards demoStudent [deckNode (js ''a''), deckNode (js ''b'')])"
    by (simp add: deckRun_def calmCard_def startCards_def ownDecks_def deckNode_def openDeck_def callCards_def cardsCallAt_def takeCardsCall_def
        cardsLoaded_def cardsKept_def firstCard_def Let_def)
  have m: "DeleteCardCall (js ''c'') (js ''a'') (Some (js ''a'')) \<in> set (kv_calls (cardsRun [RemoveCard 0] twoDecks))"
    using twoDecks_eq by (simp add: cardsRun_def removeCardAt_def callCards_def flashCard_def deckNode_def)
  show ?thesis using calm_cards_are_removed_from_their_deck [OF c m [folded e]] m by blast
qed

text \<open>The form of a new card has no busy state: submitting it twice before the first answer adds the card twice.\<close>

theorem card_submitted_twice_is_created_twice:
  assumes "kv_selected s = Some d" "kv_cardForm s" "trim front \<noteq> []" "trim back \<noteq> []"
  shows "kv_calls (cardsRun [SubmitCard front back, SubmitCard front back] s) =
    kv_calls s @ [CreateCardCall (node_id d) (trim front) (trim back), CreateCardCall (node_id d) (trim front) (trim back)]"
  using assms by (simp add: cardsRun_def submitCard_def callCards_def)

section \<open>The first page and the rows of assignments\<close>

definition gradePublished :: "submission option \<Rightarrow> bool" where
  "gradePublished u = (case u of Some x \<Rightarrow> (case submission_grade x of Some g \<Rightarrow> grade_published g | None \<Rightarrow> False) | None \<Rightarrow> False)"

type_synonym submissions = "(jsstring \<times> submission option) list"

definition submissionOf :: "submissions \<Rightarrow> jsstring \<Rightarrow> submission option" where
  "submissionOf subs i = (case map_of subs i of Some u \<Rightarrow> u | None \<Rightarrow> None)"

definition upcomingWork :: "assignment list \<Rightarrow> submissions \<Rightarrow> assignment list" where
  "upcomingWork as subs = take 5 (filter (\<lambda>a. assignment_status a \<noteq> Closed \<and> \<not> gradePublished (submissionOf subs (assignment_id a))) as)"

definition openWork :: "assignment list \<Rightarrow> assignment list" where
  "openWork as = filter (\<lambda>a. assignment_status a \<noteq> Closed) as"

definition submittedCount :: "submissions \<Rightarrow> nat" where
  "submittedCount subs = length (filter (\<lambda>u. u \<noteq> None) (map snd subs))"

definition gradedCount :: "submissions \<Rightarrow> nat" where
  "gradedCount subs = length (filter gradePublished (map snd subs))"

text \<open>The row of an assignment: the time of its deadline, the clock, and the state of the submission as it is shown.\<close>

definition submissionStatusText :: "submission_status \<Rightarrow> jsstring" where
  "submissionStatusText st = (case st of SDraft \<Rightarrow> js ''draft'' | Submitted \<Rightarrow> js ''submitted'' | Resubmitted \<Rightarrow> js ''resubmitted''
     | Graded \<Rightarrow> js ''graded'' | Withdrawn \<Rightarrow> js ''withdrawn'')"

definition rowLate :: "rat option \<Rightarrow> rat \<Rightarrow> submission option \<Rightarrow> bool" where
  "rowLate due now u = (case due of Some t \<Rightarrow> t < now \<and> u = None | None \<Rightarrow> False)"

definition rowTone :: "rat option \<Rightarrow> rat \<Rightarrow> assignment \<Rightarrow> submission option \<Rightarrow> jsstring" where
  "rowTone due now a u =
     (if assignment_status a = Closed \<or> gradePublished u then js ''good''
      else if rowLate due now u then js ''warning'' else if u \<noteq> None then js ''accent'' else js ''neutral'')"

definition rowLabel :: "rat option \<Rightarrow> rat \<Rightarrow> assignment \<Rightarrow> submission option \<Rightarrow> jsstring" where
  "rowLabel due now a u =
     (if assignment_status a = Closed then js ''Completed''
      else if gradePublished u then js ''Graded''
      else (case u of Some x \<Rightarrow> submissionStatusText (submission_status x) | None \<Rightarrow> if rowLate due now u then js ''Late'' else js ''Open''))"

section \<open>Materials\<close>

definition materialsOf :: "jsstring \<Rightarrow> study_node list \<Rightarrow> study_node list" where
  "materialsOf room ns =
     filter (\<lambda>n. (node_owner_id n = None \<or> node_owner_id n = Some []) \<and> node_classroom_id n = Some room \<and> node_kind n = PdfNode) ns"

text \<open>One marker says which material is being opened; its button alone is disabled. The end of any opening clears it.\<close>

record materials_view =
  mv_opening :: jsstring
  mv_error :: jsstring
  mv_calls :: "jsstring list"

definition openStudentMaterial :: "jsstring \<Rightarrow> materials_view \<Rightarrow> materials_view" where
  "openStudentMaterial i s = (if mv_opening s = i then s else s\<lparr>mv_opening := i, mv_error := [], mv_calls := mv_calls s @ [i]\<rparr>)"

definition materialOpened :: "nat \<Rightarrow> jsstring option \<Rightarrow> materials_view \<Rightarrow> materials_view" where
  "materialOpened k failure s =
     (if k < length (mv_calls s) then s\<lparr>mv_opening := [], mv_calls := take k (mv_calls s) @ drop (Suc k) (mv_calls s),
        mv_error := (case failure of Some e \<Rightarrow> e | None \<Rightarrow> mv_error s)\<rparr> else s)"

section \<open>Feedback\<close>

text \<open>The comments are the values of the host; they are loaded when a row is opened and cleared when it is closed.\<close>

definition publishedFeedback :: "assignment list \<Rightarrow> submissions \<Rightarrow> (assignment \<times> submission) list" where
  "publishedFeedback as subs =
     List.map_filter (\<lambda>a. case submissionOf subs (assignment_id a) of Some u \<Rightarrow> if gradePublished (Some u) then Some (a, u) else None | None \<Rightarrow> None) as"

record feedback_view =
  fv_selected :: "(assignment \<times> submission) option"
  fv_comments :: "json list"
  fv_calls :: "jsstring list"

datatype feedback_event = OpenFeedback assignment submission | CloseFeedback | CommentsCame nat "json list option"

fun feedbackStep :: "(assignment \<times> submission) list \<Rightarrow> feedback_event \<Rightarrow> feedback_view \<Rightarrow> feedback_view" where
  "feedbackStep rows (OpenFeedback a u) s =
     (if (a, u) \<in> set rows \<and> fv_selected s = None then s\<lparr>fv_selected := Some (a, u), fv_calls := fv_calls s @ [submission_id u]\<rparr> else s)"
| "feedbackStep rows CloseFeedback s = s\<lparr>fv_selected := None, fv_comments := []\<rparr>"
| "feedbackStep rows (CommentsCame k cs) s =
     (if k < length (fv_calls s) then
        (let s1 = s\<lparr>fv_calls := take k (fv_calls s) @ drop (Suc k) (fv_calls s)\<rparr> in case cs of Some xs \<Rightarrow> s1\<lparr>fv_comments := xs\<rparr> | None \<Rightarrow> s1)
      else s)"

definition feedbackRun :: "(assignment \<times> submission) list \<Rightarrow> feedback_event list \<Rightarrow> feedback_view \<Rightarrow> feedback_view" where
  "feedbackRun rows es s = fold (feedbackStep rows) es s"

section \<open>Pages: properties\<close>

lemma gradePublished_Some: "gradePublished u \<Longrightarrow> \<exists>x. u = Some x"
  by (cases u) (simp_all add: gradePublished_def)

text \<open>The first page counts consistently: what is graded was submitted, what is upcoming is open and not graded, and at most five.\<close>

theorem first_page_counts:
  "gradedCount subs \<le> submittedCount subs \<and> length (upcomingWork as subs) \<le> min 5 (length (openWork as)) \<and>
   list_all (\<lambda>a. a \<in> set (openWork as) \<and> \<not> gradePublished (submissionOf subs (assignment_id a))) (upcomingWork as subs)"
proof (intro conjI)
  have "length (filter gradePublished us) \<le> length (filter (\<lambda>u. u \<noteq> None) us)" for us :: "submission option list"
    by (induction us) (auto dest: gradePublished_Some)
  then show "gradedCount subs \<le> submittedCount subs" unfolding gradedCount_def submittedCount_def .
  have "length (filter (\<lambda>a. assignment_status a \<noteq> Closed \<and> Q a) as) \<le> length (filter (\<lambda>a. assignment_status a \<noteq> Closed) as)" for Q
    by (induction as) auto
  then show "length (upcomingWork as subs) \<le> min 5 (length (openWork as))"
    unfolding upcomingWork_def openWork_def by (simp add: min.coboundedI1)
  show "list_all (\<lambda>a. a \<in> set (openWork as) \<and> \<not> gradePublished (submissionOf subs (assignment_id a))) (upcomingWork as subs)"
    by (auto simp: upcomingWork_def openWork_def list_all_iff dest: in_set_takeD)
qed

text \<open>Only published feedback is shown, and all of it: a row is an assignment with its submission whose grade is published.\<close>

theorem published_feedback_rows:
  "(a, u) \<in> set (publishedFeedback as subs) \<longleftrightarrow> a \<in> set as \<and> submissionOf subs (assignment_id a) = Some u \<and> gradePublished (Some u)"
proof -
  have m: "y \<in> set (List.map_filter g xs) \<longleftrightarrow> (\<exists>x. x \<in> set xs \<and> g x = Some y)" for g :: "assignment \<Rightarrow> (assignment \<times> submission) option" and xs y
    unfolding List.map_filter_def by (auto simp: image_iff)
  have e: "(case w of Some x \<Rightarrow> if gradePublished (Some x) then Some (b, x) else None | None \<Rightarrow> None) = Some (a, u) \<longleftrightarrow>
      b = a \<and> w = Some u \<and> gradePublished (Some u)" for w b
    by (cases w) auto
  show ?thesis unfolding publishedFeedback_def m e by auto
qed

text \<open>The row of an assignment calls nothing late that was handed in, graded or closed, and its colour and its word agree on it.\<close>

theorem late_rows_are_missing_work:
  "(rowTone due now a u = js ''warning'' \<longleftrightarrow> assignment_status a \<noteq> Closed \<and> rowLate due now u) \<and>
   (rowLabel due now a u = js ''Late'' \<longleftrightarrow> assignment_status a \<noteq> Closed \<and> rowLate due now u)"
proof -
  have w: "submissionStatusText st \<noteq> js ''Late''" for st by (cases st; simp only: submissionStatusText_def submission_status.case; code_simp)
  have d: "js ''good'' \<noteq> js ''warning''" "js ''accent'' \<noteq> js ''warning''" "js ''neutral'' \<noteq> js ''warning''" "js ''Completed'' \<noteq> js ''Late''"
    "js ''Graded'' \<noteq> js ''Late''" "js ''Open'' \<noteq> js ''Late''"
    by code_simp+
  have n: "\<not> gradePublished None" by (simp add: gradePublished_def)
  show ?thesis
  proof (cases u)
    case None
    show ?thesis unfolding rowTone_def rowLabel_def None option.case
      by (cases "assignment_status a = Closed"; cases "rowLate due now None") (simp_all only: n d if_True if_False simp_thms option.distinct)
  next
    case (Some x)
    then have l: "\<not> rowLate due now (Some x)" by (simp add: rowLate_def split: option.splits)
    show ?thesis unfolding rowTone_def rowLabel_def Some option.case
      by (cases "assignment_status a = Closed"; cases "gradePublished (Some x)") (simp_all only: l d w if_True if_False simp_thms option.distinct)
  qed
qed

text \<open>Comments are shown under another piece of work: an answer to the comments of a row that was closed fills whatever row is open by then.\<close>

theorem late_comments_are_shown_under_another_row:
  fixes ofU ofV :: "json list"
  assumes "(a, u) \<in> set rows" "(b, v) \<in> set rows"
  shows "let s = feedbackRun rows [OpenFeedback a u, CloseFeedback, OpenFeedback b v, CommentsCame 1 (Some ofV), CommentsCame 0 (Some ofU)]
      \<lparr>fv_selected = None, fv_comments = [], fv_calls = []\<rparr> in fv_selected s = Some (b, v) \<and> fv_comments s = ofU"
proof -
  define t :: "feedback_view" where "t = feedbackRun rows [OpenFeedback a u, CloseFeedback, OpenFeedback b v] \<lparr>fv_selected = None, fv_comments = [], fv_calls = []\<rparr>"
  have t: "fv_selected t = Some (b, v)" "fv_calls t = [submission_id u, submission_id v]" using assms by (simp_all add: t_def feedbackRun_def)
  have r: "feedbackRun rows [OpenFeedback a u, CloseFeedback, OpenFeedback b v, CommentsCame 1 (Some ofV), CommentsCame 0 (Some ofU)]
      \<lparr>fv_selected = None, fv_comments = [], fv_calls = []\<rparr> = feedbackRun rows [CommentsCame 1 (Some ofV), CommentsCame 0 (Some ofU)] t"
    unfolding t_def feedbackRun_def by (simp only: fold_simps comp_apply id_apply)
  show ?thesis unfolding r Let_def using t by (simp add: feedbackRun_def)
qed

definition markedWork :: "jsstring \<Rightarrow> assignment" where
  "markedWork i = \<lparr>assignment_id = i, assignment_classroom_id = [], assignment_classroom_name = [], assignment_title = [], assignment_instructions = [],
     due_at = None, max_points = 10, grading_scheme = JNull, assignment_status = Published, assignment_created_at = [], assignment_updated_at = []\<rparr>"

definition markedSubmission :: "jsstring \<Rightarrow> submission" where
  "markedSubmission i = \<lparr>submission_id = i, submission_assignment_id = i, submission_assignment_title = [], submission_student_id = [],
     submission_student_name = [], submission_status = Graded, submission_version = None, submission_grade = None, submitted_at = None,
     submission_updated_at = []\<rparr>"

theorem late_comments_are_shown_under_another_row_witness:
  "let r = (\<lambda>i. (markedWork i, markedSubmission i));
       s = feedbackRun [r (js ''a''), r (js ''b'')] [OpenFeedback (markedWork (js ''a'')) (markedSubmission (js ''a'')), CloseFeedback,
         OpenFeedback (markedWork (js ''b'')) (markedSubmission (js ''b'')), CommentsCame 1 (Some [JStr (js ''good'')]), CommentsCame 0 (Some [JStr (js ''redo this'')])]
         \<lparr>fv_selected = None, fv_comments = [], fv_calls = []\<rparr>
   in fv_selected s = Some (r (js ''b'')) \<and> fv_comments s = [JStr (js ''redo this'')]"
proof -
  let ?rows = "[(markedWork (js ''a''), markedSubmission (js ''a'')), (markedWork (js ''b''), markedSubmission (js ''b''))]"
  have "(markedWork (js ''a''), markedSubmission (js ''a'')) \<in> set ?rows" "(markedWork (js ''b''), markedSubmission (js ''b'')) \<in> set ?rows" by simp_all
  from late_comments_are_shown_under_another_row [OF this, of "[JStr (js ''good'')]" "[JStr (js ''redo this'')]"] show ?thesis unfolding Let_def .
qed

text \<open>The one marker of the materials: opening a second one enables the first one's button, and the end of the first enables the second's,
  so that either can be opened again while it is still being opened.\<close>

theorem second_material_is_opened_twice:
  assumes "mv_opening s = []" "mv_calls s = []" "a \<noteq> []" "b \<noteq> []" "a \<noteq> b"
  shows "mv_calls (openStudentMaterial b (materialOpened 0 None (openStudentMaterial b (openStudentMaterial a s)))) = [b, b]"
  using assms by (simp add: openStudentMaterial_def materialOpened_def)

end
