(* ===== verification/Student_Timer.thy ===== *)
theory Student_Timer
  imports Session_Store Host_Transport
begin

text \<open>
  The student's study timer: reading the saved timer (\<open>apps/forge/src/components/studentTools.ts\<close>) and the
  state machine of \<open>useCountdown\<close> (\<open>components/Countdown.tsx\<close>). Times are milliseconds; the time of an event is its
  argument.
\<close>

section \<open>State\<close>

datatype timer_status = TimerIdle | TimerRunning | TimerPaused | TimerDone

definition TIMER_MINUTES :: "rat list" where
  "TIMER_MINUTES = [5, 10, 15, 20, 25, 30]"

record stored_countdown =
  cd_minutes :: rat
  cd_status :: timer_status
  cd_deadline :: rat
  pausedSeconds :: rat

definition remainingSeconds :: "rat \<Rightarrow> rat \<Rightarrow> rat" where
  "remainingSeconds deadline now = of_int (max 0 (mathCeil ((deadline - now) / 1000)))"

fun statusName :: "timer_status \<Rightarrow> jsstring" where
  "statusName TimerIdle = js ''idle''"
| "statusName TimerRunning = js ''running''"
| "statusName TimerPaused = js ''paused''"
| "statusName TimerDone = js ''done''"

definition statusOf :: "json option \<Rightarrow> timer_status option" where
  "statusOf v = (case v of
      Some (JStr s) \<Rightarrow> List.find (\<lambda>st. statusName st = s) [TimerIdle, TimerRunning, TimerPaused, TimerDone]
    | _ \<Rightarrow> None)"

definition fallbackCountdown :: stored_countdown where
  "fallbackCountdown = \<lparr>cd_minutes = 25, cd_status = TimerIdle, cd_deadline = 0, pausedSeconds = 25 * 60\<rparr>"

text \<open>A value that cannot be parsed, or is \<open>null\<close>, throws, and the fallback is the result too.\<close>

definition restoreCountdown :: "json_parser \<Rightarrow> jsstring option \<Rightarrow> rat \<Rightarrow> stored_countdown" where
  "restoreCountdown parse v now = (case v of
      Some (c # s) \<Rightarrow> (case parse (c # s) of
          Inl _ \<Rightarrow> fallbackCountdown
        | Inr obj \<Rightarrow> (case (field obj ''minutes'', statusOf (field obj ''status'')) of
              (Some (JNum m), Some st) \<Rightarrow>
                if m \<notin> set TIMER_MINUTES then fallbackCountdown
                else
                  (let deadline = (case field obj ''deadline'' of Some (JNum d) \<Rightarrow> max 0 d | _ \<Rightarrow> 0);
                       paused = (case field obj ''pausedSeconds'' of
                           Some (JNum p) \<Rightarrow> max 0 (min (m * 60) (of_int (mathRound p))) | _ \<Rightarrow> m * 60)
                   in if st = TimerRunning \<and> remainingSeconds deadline now = 0
                      then \<lparr>cd_minutes = m, cd_status = TimerDone, cd_deadline = 0, pausedSeconds = 0\<rparr>
                      else \<lparr>cd_minutes = m, cd_status = st, cd_deadline = deadline, pausedSeconds = paused\<rparr>)
            | _ \<Rightarrow> fallbackCountdown))
    | _ \<Rightarrow> fallbackCountdown)"

record countdown =
  timer :: stored_countdown
  clock_now :: rat
  floatingOpen :: bool

definition openTimer :: "json_parser \<Rightarrow> jsstring option \<Rightarrow> rat \<Rightarrow> countdown" where
  "openTimer parse v now =
     (let t = restoreCountdown parse v now
      in \<lparr>timer = t, clock_now = now, floatingOpen = (cd_status t = TimerRunning \<or> cd_status t = TimerPaused)\<rparr>)"

definition shownSeconds :: "countdown \<Rightarrow> rat" where
  "shownSeconds s = (case cd_status (timer s) of
      TimerRunning \<Rightarrow> remainingSeconds (cd_deadline (timer s)) (clock_now s)
    | TimerPaused \<Rightarrow> pausedSeconds (timer s)
    | TimerDone \<Rightarrow> 0
    | TimerIdle \<Rightarrow> cd_minutes (timer s) * 60)"

section \<open>Events\<close>

text \<open>The interval runs only while the timer does.\<close>

definition tick :: "rat \<Rightarrow> countdown \<Rightarrow> countdown" where
  "tick time s =
     (if cd_status (timer s) \<noteq> TimerRunning then s
      else
        (let s' = s\<lparr>clock_now := time\<rparr> in
         if remainingSeconds (cd_deadline (timer s)) time = 0
         then s'\<lparr>timer := (timer s)\<lparr>cd_status := TimerDone, cd_deadline := 0, pausedSeconds := 0\<rparr>\<rparr> else s'))"

definition chooseMinutes :: "rat \<Rightarrow> countdown \<Rightarrow> countdown" where
  "chooseMinutes m s =
     (if m \<notin> set TIMER_MINUTES then s
      else s\<lparr>timer := \<lparr>cd_minutes = m, cd_status = TimerIdle, cd_deadline = 0, pausedSeconds = m * 60\<rparr>\<rparr>)"

definition toggle :: "rat \<Rightarrow> countdown \<Rightarrow> countdown" where
  "toggle time s =
     (let t = timer s; m = cd_minutes t in
      if cd_status t = TimerRunning \<or> cd_status t = TimerPaused
      then s\<lparr>timer := t\<lparr>cd_status := TimerIdle, cd_deadline := 0, pausedSeconds := m * 60\<rparr>\<rparr>
      else s\<lparr>clock_now := time, timer := t\<lparr>cd_status := TimerRunning, cd_deadline := time + m * 60000, pausedSeconds := m * 60\<rparr>,
             floatingOpen := True\<rparr>)"

definition pause :: "rat \<Rightarrow> countdown \<Rightarrow> countdown" where
  "pause time s =
     (let t = timer s in
      if cd_status t = TimerRunning then
        (let next = remainingSeconds (cd_deadline t) time
         in s\<lparr>timer := t\<lparr>cd_status := (if next \<noteq> 0 then TimerPaused else TimerDone), cd_deadline := 0, pausedSeconds := next\<rparr>\<rparr>)
      else if cd_status t = TimerPaused
      then s\<lparr>clock_now := time, timer := t\<lparr>cd_status := TimerRunning, cd_deadline := time + pausedSeconds t * 1000\<rparr>\<rparr>
      else s)"

datatype timer_event = Tick rat | Choose rat | Toggle rat | Pause rat

fun timerStep :: "timer_event \<Rightarrow> countdown \<Rightarrow> countdown" where
  "timerStep (Tick t) = tick t"
| "timerStep (Choose m) = chooseMinutes m"
| "timerStep (Toggle t) = toggle t"
| "timerStep (Pause t) = pause t"

fun eventTime :: "timer_event \<Rightarrow> rat option" where
  "eventTime (Choose _) = None"
| "eventTime (Tick t) = Some t"
| "eventTime (Toggle t) = Some t"
| "eventTime (Pause t) = Some t"

section \<open>Invariant\<close>

text \<open>The duration is one of the six, a pause lies within it, and a running timer ends within its duration from
  the time \<open>now\<close>.\<close>

definition timerOk :: "rat \<Rightarrow> countdown \<Rightarrow> bool" where
  "timerOk now s \<longleftrightarrow> cd_minutes (timer s) \<in> set TIMER_MINUTES \<and> clock_now s \<le> now \<and>
     0 \<le> pausedSeconds (timer s) \<and> pausedSeconds (timer s) \<le> cd_minutes (timer s) * 60 \<and>
     (cd_status (timer s) = TimerRunning \<longrightarrow> cd_deadline (timer s) \<le> clock_now s + cd_minutes (timer s) * 60000)"

lemma minutes_whole: "m \<in> set TIMER_MINUTES \<Longrightarrow> 0 < m \<and> m * 60 = of_int \<lceil>m * 60\<rceil>"
  by (auto simp: TIMER_MINUTES_def)

lemma remaining_bounds: "0 \<le> remainingSeconds d n"
  by (simp add: remainingSeconds_def)

lemma remaining_zero: "remainingSeconds d n = 0 \<longleftrightarrow> d \<le> n"
proof -
  have "max 0 \<lceil>(d - n) / 1000\<rceil> = 0 \<longleftrightarrow> (d - n) / 1000 \<le> 0" 
  proof -
    have "max 0 z = 0 \<longleftrightarrow> z \<le> 0" for z :: int by auto
    then show ?thesis by (simp only: ceiling_le_zero)
  qed
  then show ?thesis by (simp only: remainingSeconds_def mathCeil_def of_int_eq_0_iff) (simp add: divide_le_0_iff)
qed

lemma remaining_le:
  assumes "m \<in> set TIMER_MINUTES" "d \<le> n + m * 60000"
  shows "remainingSeconds d n \<le> m * 60"
proof -
  note w = minutes_whole [OF assms(1)]
  have "(d - n) / 1000 \<le> m * 60" using assms(2) by simp
  then have "\<lceil>(d - n) / 1000\<rceil> \<le> \<lceil>m * 60\<rceil>" by (rule ceiling_mono)
  moreover have "0 \<le> \<lceil>m * 60\<rceil>" using w by simp
  ultimately have "of_int (max 0 \<lceil>(d - n) / 1000\<rceil>) \<le> (of_int \<lceil>m * 60\<rceil> :: rat)" by simp
  then show ?thesis using w unfolding remainingSeconds_def mathCeil_def by simp
qed

lemma timerOk_later: "timerOk now s \<Longrightarrow> now \<le> now' \<Longrightarrow> timerOk now' s"
  unfolding timerOk_def by auto

lemma timerOk_shown: "timerOk now s \<Longrightarrow> 0 \<le> shownSeconds s \<and> shownSeconds s \<le> cd_minutes (timer s) * 60"
  using minutes_whole [of "cd_minutes (timer s)"] remaining_bounds remaining_le [of "cd_minutes (timer s)" "cd_deadline (timer s)" "clock_now s"]
  unfolding timerOk_def shownSeconds_def by (cases "cd_status (timer s)") simp_all

lemma timerOk_tick:
  assumes "timerOk now s" "now \<le> t"
  shows "timerOk t (tick t s)"
proof (cases "cd_status (timer s) = TimerRunning")
  case True
  then have "cd_deadline (timer s) \<le> t + cd_minutes (timer s) * 60000" using assms unfolding timerOk_def by linarith
  then show ?thesis using assms minutes_whole [of "cd_minutes (timer s)"] unfolding timerOk_def tick_def by (simp add: Let_def)
next
  case False
  then show ?thesis using timerOk_later [OF assms] by (simp add: tick_def)
qed

lemma timerOk_toggle: "timerOk now s \<Longrightarrow> now \<le> t \<Longrightarrow> timerOk t (toggle t s)"
  using minutes_whole [of "cd_minutes (timer s)"] unfolding timerOk_def toggle_def by (simp add: Let_def)

lemma timerOk_pause:
  assumes "timerOk now s" "now \<le> t"
  shows "timerOk t (pause t s)"
proof (cases "cd_status (timer s)")
  case TimerRunning
  then have d: "cd_minutes (timer s) \<in> set TIMER_MINUTES" "cd_deadline (timer s) \<le> t + cd_minutes (timer s) * 60000"
    using assms unfolding timerOk_def by linarith+
  show ?thesis using assms TimerRunning remaining_le [OF d] remaining_bounds unfolding timerOk_def pause_def by (simp add: Let_def)
next
  case TimerPaused
  then show ?thesis using assms unfolding timerOk_def pause_def by (simp add: Let_def)
qed (use timerOk_later [OF assms] in \<open>simp_all add: pause_def Let_def\<close>)

lemma timerOk_choose: "timerOk now s \<Longrightarrow> timerOk now (chooseMinutes m s)"
  using minutes_whole [of m] unfolding timerOk_def chooseMinutes_def by (auto intro: less_imp_le)

lemma timerOk_step:
  "timerOk now s \<Longrightarrow> (case eventTime e of Some t \<Rightarrow> now \<le> t | None \<Rightarrow> True) \<Longrightarrow>
   timerOk (case eventTime e of Some t \<Rightarrow> t | None \<Rightarrow> now) (timerStep e s)"
  by (cases e) (simp_all add: timerOk_tick timerOk_toggle timerOk_pause timerOk_choose)

text \<open>Events in the order of time.\<close>

fun inOrder :: "rat \<Rightarrow> timer_event list \<Rightarrow> bool" where
  "inOrder now [] = True"
| "inOrder now (e # es) = (case eventTime e of Some t \<Rightarrow> now \<le> t \<and> inOrder t es | None \<Rightarrow> inOrder now es)"

lemma timerOk_run: "timerOk now s \<Longrightarrow> inOrder now es \<Longrightarrow> \<exists>now'. timerOk now' (fold timerStep es s)"
proof (induction es arbitrary: now s)
  case (Cons e es)
  have "timerOk (case eventTime e of Some t \<Rightarrow> t | None \<Rightarrow> now) (timerStep e s)"
    using Cons.prems by (intro timerOk_step) (auto split: option.splits)
  from Cons.IH [OF this] Cons.prems show ?case by (auto split: option.splits)
qed auto

lemma tick_done: "cd_status (timer s) = TimerDone \<Longrightarrow> fold tick ts s = s"
  by (induction ts) (simp_all add: tick_def)

lemma tick_running:
  assumes "cd_status (timer s) = TimerRunning"
  shows "cd_status (timer (tick t s)) = (if cd_deadline (timer s) \<le> t then TimerDone else TimerRunning)"
    "\<not> cd_deadline (timer s) \<le> t \<Longrightarrow> cd_deadline (timer (tick t s)) = cd_deadline (timer s)"
  using assms by (simp_all add: tick_def Let_def remaining_zero)

lemma ticks_running:
  "cd_status (timer s) = TimerRunning \<Longrightarrow>
   cd_status (timer (fold tick ts s)) = (if \<exists>t \<in> set ts. cd_deadline (timer s) \<le> t then TimerDone else TimerRunning)"
proof (induction ts arbitrary: s)
  case (Cons t ts)
  show ?case
  proof (cases "cd_deadline (timer s) \<le> t")
    case True
    then have "cd_status (timer (tick t s)) = TimerDone" using tick_running [OF Cons.prems] by simp
    then show ?thesis using True by (simp add: tick_done)
  next
    case False
    note r = tick_running [OF Cons.prems, of t]
    then show ?thesis using Cons.IH [of "tick t s"] False by simp
  qed
qed simp

lemma statusOf_name: "statusOf (Some (JStr (statusName st))) = Some st"
  by (cases st) (simp_all add: statusOf_def js_def)

section \<open>Properties\<close>

text \<open>Whatever the student does with the timer as time goes on (starting, stopping, pausing, resuming, choosing a duration, ticks of the
  interval), the time on show is never negative and never more than the duration.\<close>

theorem timer_in_range:
  assumes "timerOk now s" "inOrder now es"
  shows "0 \<le> shownSeconds (fold timerStep es s) \<and> shownSeconds (fold timerStep es s) \<le> cd_minutes (timer (fold timerStep es s)) * 60 \<and>
    cd_minutes (timer (fold timerStep es s)) \<in> set TIMER_MINUTES"
proof -
  obtain now' where "timerOk now' (fold timerStep es s)" using timerOk_run [OF assms] by blast
  then show ?thesis using timerOk_shown unfolding timerOk_def by blast
qed

theorem timer_in_range_witness:
  "let s = openTimer (\<lambda>_. Inl []) None 0 in
   timerOk 0 s \<and> shownSeconds (fold timerStep [Choose 5, Toggle 1000, Tick 2500, Pause 2600, Pause 9000, Tick 9500] s) = 299 \<and>
   shownSeconds (fold timerStep [Choose 5, Toggle 1000, Tick 2500, Pause 2600, Pause 9000, Tick 9500] s) \<le> 5 * 60"
proof -
  have v: "timerOk 0 (openTimer (\<lambda>_. Inl []) None 0)" "inOrder 0 [Choose 5, Toggle 1000, Tick 2500, Pause 2600, Pause 9000, Tick 9500]"
    "shownSeconds (fold timerStep [Choose 5, Toggle 1000, Tick 2500, Pause 2600, Pause 9000, Tick 9500] (openTimer (\<lambda>_. Inl []) None 0)) = 299"
    "cd_minutes (timer (fold timerStep [Choose 5, Toggle 1000, Tick 2500, Pause 2600, Pause 9000, Tick 9500] (openTimer (\<lambda>_. Inl []) None 0))) = 5"
    by code_simp+
  show ?thesis using timer_in_range [OF v(1,2)] v unfolding Let_def by simp
qed

text \<open>A timer that was started ends, and not before its time: after ticks at any times it has ended exactly if one of
  them came a full duration or more after the start.\<close>

theorem timer_ends:
  assumes "cd_status (timer s) = TimerIdle \<or> cd_status (timer s) = TimerDone"
  shows "cd_status (timer (fold tick ts (toggle t0 s))) =
    (if \<exists>t \<in> set ts. t0 + cd_minutes (timer s) * 60000 \<le> t then TimerDone else TimerRunning)"
proof -
  have "cd_status (timer (toggle t0 s)) = TimerRunning" "cd_deadline (timer (toggle t0 s)) = t0 + cd_minutes (timer s) * 60000"
    using assms by (auto simp: toggle_def Let_def)
  from ticks_running [OF this(1)] this(2) show ?thesis by simp
qed

theorem timer_ends_witness:
  "cd_status (timer (fold tick [200, 1500000] (toggle 0 (openTimer (\<lambda>_. Inl []) None 0)))) = TimerDone \<and>
   cd_status (timer (fold tick [200, 1499999] (toggle 0 (openTimer (\<lambda>_. Inl []) None 0)))) = TimerRunning"
proof -
  have s: "cd_status (timer (openTimer (\<lambda>_. Inl []) None 0)) = TimerIdle \<or> cd_status (timer (openTimer (\<lambda>_. Inl []) None 0)) = TimerDone"
    "cd_minutes (timer (openTimer (\<lambda>_. Inl []) None 0)) = 25" by code_simp+
  show ?thesis using timer_ends [OF s(1), of "[200, 1500000]" 0] timer_ends [OF s(1), of "[200, 1499999]" 0] s(2) by simp
qed

text \<open>A timer survives a restart: what was saved of a timer in range is restored exactly, except that one which ran out in the
  meantime comes back as finished.\<close>

theorem timer_restart:
  assumes "cd_minutes t \<in> set TIMER_MINUTES" "0 \<le> cd_deadline t" "0 \<le> pausedSeconds t" "pausedSeconds t \<le> cd_minutes t * 60"
    and "pausedSeconds t = of_int k"
    and "parse (c # s) = Inr (JObj [(js ''minutes'', JNum (cd_minutes t)), (js ''status'', JStr (statusName (cd_status t))),
           (js ''deadline'', JNum (cd_deadline t)), (js ''pausedSeconds'', JNum (pausedSeconds t))])"
  shows "restoreCountdown parse (Some (c # s)) now =
    (if cd_status t = TimerRunning \<and> cd_deadline t \<le> now
     then \<lparr>cd_minutes = cd_minutes t, cd_status = TimerDone, cd_deadline = 0, pausedSeconds = 0\<rparr> else t)"
proof -
  have f: "field (JObj [(js ''minutes'', a), (js ''status'', b), (js ''deadline'', d), (js ''pausedSeconds'', p)]) ''minutes'' = Some a"
    "field (JObj [(js ''minutes'', a), (js ''status'', b), (js ''deadline'', d), (js ''pausedSeconds'', p)]) ''status'' = Some b"
    "field (JObj [(js ''minutes'', a), (js ''status'', b), (js ''deadline'', d), (js ''pausedSeconds'', p)]) ''deadline'' = Some d"
    "field (JObj [(js ''minutes'', a), (js ''status'', b), (js ''deadline'', d), (js ''pausedSeconds'', p)]) ''pausedSeconds'' = Some p" for a b d p
    by (simp_all add: js_def)
  have r: "mathRound (of_int k) = k" unfolding mathRound_def by linarith
  have "max 0 (min (cd_minutes t * 60) (of_int (mathRound (pausedSeconds t)))) = pausedSeconds t"
    unfolding assms(5) r using assms(3,4) unfolding assms(5) by simp
  moreover have "max 0 (cd_deadline t) = cd_deadline t" using assms(2) by simp
  ultimately show ?thesis
    unfolding restoreCountdown_def option.case list.case assms(6) sum.case f statusOf_name prod.case json.case Let_def remaining_zero
    using assms(1) by simp
qed

theorem timer_restart_witness:
  "let t = \<lparr>cd_minutes = 10, cd_status = TimerPaused, cd_deadline = 0, pausedSeconds = 90\<rparr>;
       parse = (\<lambda>_. Inr (JObj [(js ''minutes'', JNum 10), (js ''status'', JStr (js ''paused'')), (js ''deadline'', JNum 0), (js ''pausedSeconds'', JNum 90)]))
   in restoreCountdown parse (Some (js ''saved'')) 5 = t"
proof -
  define t where "t = \<lparr>cd_minutes = 10, cd_status = TimerPaused, cd_deadline = 0, pausedSeconds = 90\<rparr>"
  define parse :: json_parser where
    "parse = (\<lambda>_. Inr (JObj [(js ''minutes'', JNum 10), (js ''status'', JStr (js ''paused'')), (js ''deadline'', JNum 0), (js ''pausedSeconds'', JNum 90)]))"
  have h: "cd_minutes t \<in> set TIMER_MINUTES" "0 \<le> cd_deadline t" "0 \<le> pausedSeconds t" "pausedSeconds t \<le> cd_minutes t * 60"
    "pausedSeconds t = of_int 90" by (simp_all add: t_def TIMER_MINUTES_def)
  have e: "js ''saved'' = of_char (CHR ''s'') # js ''aved''" by (simp add: js_def)
  have "parse (of_char (CHR ''s'') # js ''aved'') = Inr (JObj [(js ''minutes'', JNum (cd_minutes t)), (js ''status'', JStr (statusName (cd_status t))),
           (js ''deadline'', JNum (cd_deadline t)), (js ''pausedSeconds'', JNum (pausedSeconds t))])"
    by (simp add: parse_def t_def)
  from timer_restart [of t 90 parse, OF h this, of 5] show ?thesis unfolding Let_def e parse_def [symmetric] t_def [symmetric] by (simp add: t_def)
qed

end
