(* ===== verification/Student_Quizzes.thy ===== *)
theory Student_Quizzes
  imports Web_Storage Ui_Types
begin

text \<open>
  The quizzes of a student (\<open>apps/forge/src/classrooms/StudentQuizzes.tsx\<close>): opening an attempt, answering, the chain
  of saves to the host, the effect that sends what is unsaved once the host is reachable again, and handing in.

  Saves run one after the other (\<open>pendingSave\<close> is a chain of promises): the queue holds those that wait, and one
  runs. \<open>submit\<close> waits for saves by their number in the chain. The map of unsaved answers is the list of its entries
  in the order of insertion, which is the order of iteration; the iteration is over the map that the body writes to, so the
  loop is a partial function. Answers are strings and truth values, for which identity is equality.
\<close>

section \<open>Types\<close>

datatype quiz_question_kind = SingleChoice | TrueFalse | ShortAnswer

datatype quiz_delivery_kind = Homework | LiveQuiz

record quiz_delivery =
  dl_id :: jsstring
  dl_title :: jsstring
  dl_instructions :: jsstring
  dl_kind :: quiz_delivery_kind
  dl_opens :: "jsstring option"
  dl_due :: "jsstring option"
  dl_released :: "jsstring option"
  dl_attempt :: "jsstring option"
  dl_attempt_state :: "jsstring option"

record student_quiz_question =
  qq_id :: jsstring
  qq_kind :: quiz_question_kind
  qq_prompt :: jsstring
  qq_options :: "jsstring list"
  qq_points :: rat

record quiz_response =
  qr_question :: jsstring
  qr_answer :: json
  qr_points :: "rat option"
  qr_feedback :: jsstring
  qr_correct :: "bool option"

record quiz_attempt =
  at_id :: jsstring
  at_delivery :: quiz_delivery
  at_questions :: "student_quiz_question list"
  at_responses :: "quiz_response list"
  at_expires :: "jsstring option"
  at_submitted :: "jsstring option"
  at_score :: "rat option"
  at_max :: rat
  at_shown :: bool
  at_server_now :: jsstring

text \<open>Handing in: the answers still to be looked at and the save it waits for; then the end of the chain; then the request.\<close>

datatype submit_phase =
    SubmitSaving jsstring "(jsstring \<times> json) list" nat
  | SubmitFlushing jsstring nat
  | SubmitSending jsstring

record quiz_state =
  qs_deliveries :: "quiz_delivery list"
  qs_attempt :: "quiz_attempt option"
  qs_index :: nat
  qs_answers :: "(jsstring \<times> json) list"
  qs_message :: jsstring
  qs_offset :: rat
  qs_dirty :: "(jsstring \<times> json) list"
  qs_queue :: "(jsstring \<times> jsstring) list"
  qs_running :: "(jsstring \<times> jsstring \<times> json) option"
  qs_issued :: nat
  qs_done :: nat
  qs_submit :: "submit_phase option"

section \<open>Opening\<close>

text \<open>\<open>open\<close> up to the request: offline a new attempt cannot start.\<close>

definition mayOpen :: "bool \<Rightarrow> quiz_delivery \<Rightarrow> bool" where
  "mayOpen isOnline d \<longleftrightarrow> isOnline \<or> dl_attempt d \<noteq> None \<and> dl_attempt d \<noteq> Some []"

definition openRefused :: "quiz_state \<Rightarrow> quiz_state" where
  "openRefused s = s\<lparr>qs_message := js ''Connect to the Host to start this quiz.''\<rparr>"

definition openAnswer :: "(jsstring \<Rightarrow> rat) \<Rightarrow> rat \<Rightarrow> quiz_attempt option \<Rightarrow> quiz_state \<Rightarrow> quiz_state" where
  "openAnswer dateParse nowMs reply s = (case reply of
      Some next \<Rightarrow> s\<lparr>qs_dirty := [], qs_attempt := Some next, qs_offset := dateParse (at_server_now next) - nowMs,
        qs_answers := newMap (map (\<lambda>r. (qr_question r, qr_answer r)) (at_responses next)), qs_index := 0, qs_message := []\<rparr>
    | None \<Rightarrow> s\<lparr>qs_message := js ''The quiz could not be opened.''\<rparr>)"

section \<open>Saving\<close>

text \<open>\<open>save\<close> up to the chain, with the attempt and the connection of the render it belongs to.\<close>

definition saveAnswer :: "jsstring option \<Rightarrow> bool \<Rightarrow> jsstring \<Rightarrow> json \<Rightarrow> quiz_state \<Rightarrow> quiz_state" where
  "saveAnswer attempt isOnline q v s =
     (let s = s\<lparr>qs_answers := mapSet q v (qs_answers s), qs_dirty := mapSet q v (qs_dirty s)\<rparr>
      in case attempt of
           Some a \<Rightarrow> if isOnline then s\<lparr>qs_queue := qs_queue s @ [(a, q)], qs_issued := qs_issued s + 1\<rparr> else s
         | None \<Rightarrow> s)"

text \<open>A save of the chain begins: an answer that was saved meanwhile needs none.\<close>

definition beginSave :: "quiz_state \<Rightarrow> quiz_state" where
  "beginSave s = (case (qs_running s, qs_queue s) of
      (None, (a, q) # rest) \<Rightarrow>
        (case map_of (qs_dirty s) q of
           None \<Rightarrow> s\<lparr>qs_queue := rest, qs_done := qs_done s + 1\<rparr>
         | Some latest \<Rightarrow> s\<lparr>qs_queue := rest, qs_running := Some (a, q, latest)\<rparr>)
    | _ \<Rightarrow> s)"

definition endSave :: "bool \<Rightarrow> quiz_state \<Rightarrow> quiz_state" where
  "endSave ok s = (case qs_running s of
      None \<Rightarrow> s
    | Some (a, q, latest) \<Rightarrow>
        (let s = s\<lparr>qs_running := None, qs_done := qs_done s + 1\<rparr> in
         if \<not> ok then s\<lparr>qs_message := js ''Answer will retry when connected.''\<rparr>
         else (if map_of (qs_dirty s) q = Some latest then s\<lparr>qs_dirty := mapDelete q (qs_dirty s)\<rparr> else s)
           \<lparr>qs_message := js ''Answer saved.''\<rparr>))"

section \<open>Sending what is unsaved\<close>

text \<open>\<open>for (const [questionId, answer] of dirty.current) void save(questionId, answer)\<close>: the iterator looks at the entry at its
  position in the map as it is by then.\<close>

partial_function (option) resendLoop :: "jsstring \<Rightarrow> nat \<Rightarrow> quiz_state \<Rightarrow> quiz_state option" where
  "resendLoop a i s =
     (if i < length (qs_dirty s)
      then resendLoop a (i + 1) (saveAnswer (Some a) True (fst (qs_dirty s ! i)) (snd (qs_dirty s ! i)) s)
      else Some s)"

definition resend :: "bool \<Rightarrow> quiz_state \<Rightarrow> quiz_state option" where
  "resend isOnline s = (case qs_attempt s of
      Some x \<Rightarrow> if isOnline \<and> at_submitted x = None \<and> qs_dirty s \<noteq> [] then resendLoop (at_id x) 0 s else Some s
    | None \<Rightarrow> Some s)"

section \<open>Handing in\<close>

definition submitQuiz :: "bool \<Rightarrow> quiz_state \<Rightarrow> quiz_state" where
  "submitQuiz confirmed s = (case qs_attempt s of
      Some x \<Rightarrow> if confirmed then s\<lparr>qs_submit := Some (SubmitSaving (at_id x) (qs_answers s) (qs_done s))\<rparr> else s
    | None \<Rightarrow> s)"

text \<open>The next part of \<open>submit\<close>, once the save it waits for has ended (\<open>ok\<close>: the last of the chain with success).\<close>

definition submitNext :: "bool \<Rightarrow> quiz_state \<Rightarrow> quiz_state" where
  "submitNext ok s = (case qs_submit s of
      Some (SubmitSaving a es n) \<Rightarrow>
        if qs_done s < n then s
        else (case dropWhile (\<lambda>e. map_of (qs_dirty s) (fst e) = None) es of
            [] \<Rightarrow> s\<lparr>qs_submit := Some (SubmitFlushing a (qs_issued s))\<rparr>
          | (q, v) # rest \<Rightarrow>
              (let s = saveAnswer (Some a) True q v s in s\<lparr>qs_submit := Some (SubmitSaving a rest (qs_issued s))\<rparr>))
    | Some (SubmitFlushing a n) \<Rightarrow>
        if qs_done s < n then s
        else if \<not> ok then s\<lparr>qs_submit := None, qs_message := js ''Quiz could not be submitted.''\<rparr>
        else if qs_dirty s \<noteq> []
        then s\<lparr>qs_submit := None, qs_message := js ''Some answers are not saved yet. Check the Host connection and try again.''\<rparr>
        else s\<lparr>qs_submit := Some (SubmitSending a)\<rparr>
    | _ \<Rightarrow> s)"

definition submitReply :: "quiz_attempt option \<Rightarrow> quiz_state \<Rightarrow> quiz_state" where
  "submitReply reply s = (case (qs_submit s, reply) of
      (Some (SubmitSending a), Some next) \<Rightarrow> s\<lparr>qs_submit := None, qs_attempt := Some next, qs_message := js ''Quiz submitted.''\<rparr>
    | (Some (SubmitSending a), None) \<Rightarrow> s\<lparr>qs_submit := None, qs_message := js ''Quiz could not be submitted.''\<rparr>
    | _ \<Rightarrow> s)"

section \<open>What is shown\<close>

definition remainingTime :: "(jsstring \<Rightarrow> rat) \<Rightarrow> rat \<Rightarrow> quiz_state \<Rightarrow> int option" where
  "remainingTime dateParse nowMs s = (case qs_attempt s of
      Some x \<Rightarrow> map_option (\<lambda>e. max 0 (mathCeil ((dateParse e - nowMs - qs_offset s) / 1000))) (at_expires x)
    | None \<Rightarrow> None)"

definition showRemaining :: "int \<Rightarrow> jsstring" where
  "showRemaining r =
     (let seconds = showInt (r mod 60) in showInt (r div 60) @ [58] @ (if length seconds < 2 then js ''0'' else []) @ seconds)"

text \<open>The state of a delivery in the list and whether its button works.\<close>

definition deliveryState :: "(jsstring \<Rightarrow> rat) \<Rightarrow> rat \<Rightarrow> quiz_delivery \<Rightarrow> jsstring \<times> bool" where
  "deliveryState dateParse nowMs d =
     (let notOpen = (case dl_opens d of Some t \<Rightarrow> dateParse t > nowMs | None \<Rightarrow> False);
          closed = (case dl_due d of Some t \<Rightarrow> dateParse t \<le> nowMs | None \<Rightarrow> False);
          handedIn = dl_attempt_state d = Some (js ''submitted'');
          missed = dl_released d \<noteq> None \<and> \<not> handedIn
      in (if handedIn then (if dl_released d \<noteq> None then js ''View result'' else js ''Submitted'')
          else if missed then js ''Closed''
          else if dl_attempt d \<noteq> None then js ''Resume''
          else if notOpen then js ''Not open''
          else if closed then js ''Closed''
          else js ''Start'',
          \<not> (notOpen \<or> closed \<or> missed)))"

definition nextQuestion :: "quiz_state \<Rightarrow> quiz_state" where
  "nextQuestion s = (case qs_attempt s of
      Some x \<Rightarrow> if Suc (qs_index s) < length (at_questions x) then s\<lparr>qs_index := qs_index s + 1\<rparr> else s
    | None \<Rightarrow> s)"

definition previousQuestion :: "quiz_state \<Rightarrow> quiz_state" where
  "previousQuestion s = (if qs_index s = 0 then s else s\<lparr>qs_index := qs_index s - 1\<rparr>)"

section \<open>Runs\<close>

text \<open>A run keeps, besides the state, the attempt on show, what the host holds per attempt and question, what was last given to
  \<open>save\<close> for a question, and what the student last chose. A request that fails may still have reached the host.\<close>

record quiz_run =
  qz :: quiz_state
  qz_current :: jsstring
  qz_host :: "jsstring \<times> jsstring \<Rightarrow> json option"
  qz_given :: "jsstring \<Rightarrow> json option"
  qz_chosen :: "jsstring \<Rightarrow> json option"

definition hostStores :: "quiz_run \<Rightarrow> quiz_run" where
  "hostStores r = (case qs_running (qz r) of
      Some (a, q, v) \<Rightarrow> r\<lparr>qz_host := (qz_host r)((a, q) \<mapsto> v)\<rparr>
    | None \<Rightarrow> r)"

definition chooseAnswer :: "bool \<Rightarrow> jsstring \<Rightarrow> json \<Rightarrow> quiz_run \<Rightarrow> quiz_run" where
  "chooseAnswer isOnline q v r =
     r\<lparr>qz := saveAnswer (map_option at_id (qs_attempt (qz r))) isOnline q v (qz r), qz_given := (qz_given r)(q \<mapsto> v), qz_chosen := (qz_chosen r)(q \<mapsto> v)\<rparr>"

definition openRun :: "(jsstring \<Rightarrow> rat) \<Rightarrow> rat \<Rightarrow> quiz_attempt \<Rightarrow> quiz_run \<Rightarrow> quiz_run" where
  "openRun dateParse nowMs x r =
     r\<lparr>qz := openAnswer dateParse nowMs (Some x) (qz r), qz_current := at_id x, qz_given := (\<lambda>_. None), qz_chosen := (\<lambda>_. None)\<rparr>"

text \<open>What the next part of handing in gives to \<open>save\<close>.\<close>

definition submitGives :: "quiz_state \<Rightarrow> (jsstring \<times> json) option" where
  "submitGives s = (case qs_submit s of
      Some (SubmitSaving a es n) \<Rightarrow>
        if qs_done s < n then None
        else (case dropWhile (\<lambda>e. map_of (qs_dirty s) (fst e) = None) es of [] \<Rightarrow> None | e # rest \<Rightarrow> Some e)
    | _ \<Rightarrow> None)"

definition submitRun :: "bool \<Rightarrow> quiz_run \<Rightarrow> quiz_run" where
  "submitRun ok r =
     r\<lparr>qz := submitNext ok (qz r), qz_given := (case submitGives (qz r) of Some (q, v) \<Rightarrow> (qz_given r)(q \<mapsto> v) | None \<Rightarrow> qz_given r)\<rparr>"

definition quizIdle :: "quiz_state \<Rightarrow> bool" where
  "quizIdle s \<longleftrightarrow> qs_queue s = [] \<and> qs_running s = None \<and> qs_submit s = None"

text \<open>An attempt is opened when no save of another one is under way.\<close>

inductive quizStep :: "(jsstring \<Rightarrow> rat) \<Rightarrow> quiz_run \<Rightarrow> quiz_run \<Rightarrow> bool" for dateParse where
  opened: "quizIdle (qz r) \<Longrightarrow> quizStep dateParse r (openRun dateParse nowMs x r)"
| open_failed: "quizStep dateParse r (r\<lparr>qz := openAnswer dateParse nowMs None (qz r)\<rparr>)"
| listed: "quizStep dateParse r (r\<lparr>qz := (qz r)\<lparr>qs_deliveries := ds\<rparr>\<rparr>)"
| chosen: "qs_attempt (qz r) = Some x \<Longrightarrow> quizStep dateParse r (chooseAnswer isOnline q v r)"
| typed: "quizStep dateParse r (r\<lparr>qz := (qz r)\<lparr>qs_answers := mapSet q v (qs_answers (qz r))\<rparr>\<rparr>)"
| resent: "resend isOnline (qz r) = Some s' \<Longrightarrow> quizStep dateParse r (r\<lparr>qz := s'\<rparr>)"
| save_begins: "quizStep dateParse r (r\<lparr>qz := beginSave (qz r)\<rparr>)"
| save_ends: "quizStep dateParse r (hostStores r\<lparr>qz := endSave True (qz r)\<rparr>)"
| save_fails: "quizStep dateParse r ((if stored then hostStores r else r)\<lparr>qz := endSave False (qz r)\<rparr>)"
| submit: "quizStep dateParse r (r\<lparr>qz := submitQuiz confirmed (qz r)\<rparr>)"
| submit_next: "quizStep dateParse r (submitRun ok r)"
| submit_reply: "(\<And>x. reply = Some x \<Longrightarrow> at_id x = qz_current r) \<Longrightarrow> quizStep dateParse r (r\<lparr>qz := submitReply reply (qz r)\<rparr>)"
| closed: "qs_attempt (qz r) = Some x \<Longrightarrow> at_submitted x \<noteq> None \<Longrightarrow> quizStep dateParse r (r\<lparr>qz := (qz r)\<lparr>qs_attempt := None\<rparr>\<rparr>)"
| moved: "quizStep dateParse r (r\<lparr>qz := nextQuestion (qz r)\<rparr>)"
| moved_back: "quizStep dateParse r (r\<lparr>qz := previousQuestion (qz r)\<rparr>)"

definition initialQuiz :: quiz_run where
  "initialQuiz = \<lparr>qz = \<lparr>qs_deliveries = [], qs_attempt = None, qs_index = 0, qs_answers = [], qs_message = [], qs_offset = 0, qs_dirty = [],
       qs_queue = [], qs_running = None, qs_issued = 0, qs_done = 0, qs_submit = None\<rparr>,
     qz_current = [], qz_host = (\<lambda>_. None), qz_given = (\<lambda>_. None), qz_chosen = (\<lambda>_. None)\<rparr>"

inductive quizReachable :: "(jsstring \<Rightarrow> rat) \<Rightarrow> quiz_run \<Rightarrow> bool" for dateParse where
  start: "quizReachable dateParse initialQuiz"
| step: "quizReachable dateParse r \<Longrightarrow> quizStep dateParse r r' \<Longrightarrow> quizReachable dateParse r'"

section \<open>The resend loop\<close>

lemma mapSet_same: "map_of m q = Some v \<Longrightarrow> mapSet q v m = m"
  by (induction m) (auto split: if_splits)

lemma map_of_nth: "distinct (map fst m) \<Longrightarrow> i < length m \<Longrightarrow> map_of m (fst (m ! i)) = Some (snd (m ! i))"
  by (simp add: map_of_eq_Some_iff)

text \<open>Saving an unsaved answer again changes the map of unsaved answers not at all.\<close>

lemma resave_dirty: "map_of (qs_dirty s) q = Some v \<Longrightarrow> qs_dirty (saveAnswer a b q v s) = qs_dirty s"
  by (simp add: saveAnswer_def mapSet_same Let_def split: option.splits)

lemma saveAnswer_online: "saveAnswer (Some a) True q v s =
    s\<lparr>qs_answers := mapSet q v (qs_answers s), qs_dirty := mapSet q v (qs_dirty s), qs_queue := qs_queue s @ [(a, q)], qs_issued := qs_issued s + 1\<rparr>"
  by (simp add: saveAnswer_def)

definition resent :: "jsstring \<Rightarrow> (jsstring \<times> json) list \<Rightarrow> quiz_state \<Rightarrow> quiz_state" where
  "resent a es s = s\<lparr>qs_answers := fold (\<lambda>(q, v). mapSet q v) es (qs_answers s), qs_queue := qs_queue s @ map (\<lambda>e. (a, fst e)) es,
     qs_issued := qs_issued s + length es\<rparr>"

lemma resendLoop_ends:
  assumes "distinct (map fst (qs_dirty s))" "i \<le> length (qs_dirty s)"
  shows "resendLoop a i s = Some (resent a (drop i (qs_dirty s)) s)"
  using assms
proof (induction "length (qs_dirty s) - i" arbitrary: i s)
  case 0
  then show ?case by (subst resendLoop.simps) (simp add: resent_def)
next
  case (Suc n)
  then have i: "i < length (qs_dirty s)" by simp
  let ?e = "qs_dirty s ! i"
  let ?s = "saveAnswer (Some a) True (fst ?e) (snd ?e) s"
  have d: "qs_dirty ?s = qs_dirty s" by (rule resave_dirty [OF map_of_nth [OF Suc.prems(1) i]])
  have s: "?s = s\<lparr>qs_answers := mapSet (fst ?e) (snd ?e) (qs_answers s), qs_queue := qs_queue s @ [(a, fst ?e)], qs_issued := qs_issued s + 1\<rparr>"
    using d unfolding saveAnswer_online by simp
  have "resendLoop a (i + 1) ?s = Some (resent a (drop (i + 1) (qs_dirty ?s)) ?s)"
    by (rule Suc.hyps(1)) (use Suc i in \<open>simp_all add: d\<close>)
  then have "resendLoop a i s = Some (resent a (drop (i + 1) (qs_dirty s)) ?s)"
    using i by (subst resendLoop.simps) (simp add: d)
  also have "resent a (drop (i + 1) (qs_dirty s)) ?s = resent a (?e # drop (i + 1) (qs_dirty s)) s"
    unfolding s by (simp add: resent_def case_prod_unfold)
  finally show ?case using i by (simp add: Cons_nth_drop_Suc)
qed

section \<open>The invariant\<close>

definition unsaved :: "quiz_state \<Rightarrow> jsstring \<Rightarrow> json option" where
  "unsaved s q = map_of (qs_dirty s) q"

text \<open>An answer given to \<open>save\<close> is either still marked unsaved with that value, or the host holds it.\<close>

definition answersKept :: "quiz_run \<Rightarrow> bool" where
  "answersKept r \<longleftrightarrow> (\<forall>q. unsaved (qz r) q = qz_given r q \<or>
     (unsaved (qz r) q = None \<and> qz_host r (qz_current r, q) = qz_given r q))"

fun phaseAttempt :: "submit_phase \<Rightarrow> jsstring" where
  "phaseAttempt (SubmitSaving a es n) = a"
| "phaseAttempt (SubmitFlushing a n) = a"
| "phaseAttempt (SubmitSending a) = a"

definition savesOk :: "quiz_run \<Rightarrow> bool" where
  "savesOk r \<longleftrightarrow> distinct (map fst (qs_dirty (qz r))) \<and>
     (\<forall>x. qs_attempt (qz r) = Some x \<longrightarrow> at_id x = qz_current r) \<and>
     (\<forall>e \<in> set (qs_queue (qz r)). fst e = qz_current r) \<and>
     (\<forall>a q v. qs_running (qz r) = Some (a, q, v) \<longrightarrow> a = qz_current r \<and> unsaved (qz r) q \<noteq> None) \<and>
     (\<forall>ph. qs_submit (qz r) = Some ph \<longrightarrow> phaseAttempt ph = qz_current r)"

definition quizInv :: "quiz_run \<Rightarrow> bool" where
  "quizInv r \<longleftrightarrow> answersKept r \<and> savesOk r"

lemma saveAnswer_simps [simp]:
  "unsaved (saveAnswer a b q v s) = (unsaved s)(q \<mapsto> v)" "qs_attempt (saveAnswer a b q v s) = qs_attempt s"
  "qs_running (saveAnswer a b q v s) = qs_running s" "qs_submit (saveAnswer a b q v s) = qs_submit s"
  "qs_dirty (saveAnswer a b q v s) = mapSet q v (qs_dirty s)"
  "qs_queue (saveAnswer a b q v s) = qs_queue s @ (case a of Some i \<Rightarrow> if b then [(i, q)] else [] | None \<Rightarrow> [])"
  by (auto simp: unsaved_def fun_eq_iff saveAnswer_def Let_def split: option.splits)

lemma unsaved_cong: "qs_dirty s = qs_dirty s' \<Longrightarrow> unsaved s = unsaved s'"
  by (simp add: unsaved_def fun_eq_iff)

lemma quizInvI:
  assumes "\<And>q. unsaved (qz r) q = qz_given r q \<or> (unsaved (qz r) q = None \<and> qz_host r (qz_current r, q) = qz_given r q)"
    "distinct (map fst (qs_dirty (qz r)))" "\<And>x. qs_attempt (qz r) = Some x \<Longrightarrow> at_id x = qz_current r"
    "\<And>e. e \<in> set (qs_queue (qz r)) \<Longrightarrow> fst e = qz_current r"
    "\<And>a q v. qs_running (qz r) = Some (a, q, v) \<Longrightarrow> a = qz_current r \<and> unsaved (qz r) q \<noteq> None"
    "\<And>ph. qs_submit (qz r) = Some ph \<Longrightarrow> phaseAttempt ph = qz_current r"
  shows "quizInv r"
  using assms unfolding quizInv_def answersKept_def savesOk_def by blast

lemma quizInvD:
  assumes "quizInv r"
  shows "\<And>q. unsaved (qz r) q = qz_given r q \<or> (unsaved (qz r) q = None \<and> qz_host r (qz_current r, q) = qz_given r q)"
    "distinct (map fst (qs_dirty (qz r)))" "\<And>x. qs_attempt (qz r) = Some x \<Longrightarrow> at_id x = qz_current r"
    "\<And>e. e \<in> set (qs_queue (qz r)) \<Longrightarrow> fst e = qz_current r"
    "\<And>a q v. qs_running (qz r) = Some (a, q, v) \<Longrightarrow> a = qz_current r \<and> unsaved (qz r) q \<noteq> None"
    "\<And>ph. qs_submit (qz r) = Some ph \<Longrightarrow> phaseAttempt ph = qz_current r"
  using assms unfolding quizInv_def answersKept_def savesOk_def by blast+

lemma quizInv_gives:
  assumes i: "quizInv r" and a: "\<And>i. a = Some i \<Longrightarrow> i = qz_current r"
  shows "quizInv (r\<lparr>qz := saveAnswer a b q v (qz r), qz_given := (qz_given r)(q \<mapsto> v)\<rparr>)"
proof (rule quizInvI, goal_cases)
  case (1 p)
  then show ?case using quizInvD(1) [OF i, of p] by auto
next
  case (4 e)
  then show ?case using quizInvD(4) [OF i, of e] a by (auto split: option.splits if_splits)
next
  case (5 a' p v')
  then show ?case using quizInvD(5) [OF i, of a' p v'] by auto
qed (use quizInvD(2,3,6) [OF i] in simp_all)

text \<open>Steps that touch nothing of the saves.\<close>

lemma quizInv_frame:
  assumes i: "quizInv r" and d: "qs_dirty s = qs_dirty (qz r)" and s: "set (qs_queue s) \<subseteq> set (qs_queue (qz r))" "qs_running s \<in> {None, qs_running (qz r)}"
    "\<And>x. qs_attempt s = Some x \<Longrightarrow> at_id x = qz_current r" "\<And>ph. qs_submit s = Some ph \<Longrightarrow> phaseAttempt ph = qz_current r"
  shows "quizInv (r\<lparr>qz := s\<rparr>)"
proof (rule quizInvI, goal_cases)
  case (1 p)
  show ?case using quizInvD(1) [OF i, of p] unsaved_cong [OF d] by simp
next
  case (4 e)
  then show ?case using quizInvD(4) [OF i, of e] s(1) by auto
next
  case (5 a q v)
  then show ?case using quizInvD(5) [OF i, of a q v] s(2) unsaved_cong [OF d] by auto
qed (use quizInvD(2) [OF i] d s(3,4) in simp_all)

lemma quizInv_begin:
  assumes i: "quizInv r"
  shows "quizInv (r\<lparr>qz := beginSave (qz r)\<rparr>)"
proof (cases "qs_running (qz r)"; cases "qs_queue (qz r)")
  fix e rest assume n: "qs_running (qz r) = None" and q: "qs_queue (qz r) = e # rest"
  obtain a q where e: "e = (a, q)" by (cases e)
  have a: "a = qz_current r" using quizInvD(4) [OF i, of e] q e by simp
  have b: "beginSave (qz r) = (case unsaved (qz r) q of None \<Rightarrow> (qz r)\<lparr>qs_queue := rest, qs_done := qs_done (qz r) + 1\<rparr>
      | Some latest \<Rightarrow> (qz r)\<lparr>qs_queue := rest, qs_running := Some (a, q, latest)\<rparr>)"
    using n q e by (simp add: beginSave_def unsaved_def)
  have u: "unsaved (beginSave (qz r)) = unsaved (qz r)" unfolding b by (auto intro!: unsaved_cong split: option.splits)
  show ?thesis
  proof (rule quizInvI, goal_cases)
    case (1 p)
    show ?case using quizInvD(1) [OF i, of p] u by simp
  next
    case (4 x)
    then show ?case using quizInvD(4) [OF i, of x] q b by (auto split: option.splits)
  next
    case (5 a' q' v')
    then show ?case using n b a u by (auto split: option.splits)
  qed (use quizInvD(2,3,6) [OF i] b in \<open>auto split: option.splits\<close>)
qed (use i in \<open>simp_all add: beginSave_def\<close>)

lemma quizInv_end:
  assumes i: "quizInv r"
  shows "quizInv (hostStores r\<lparr>qz := endSave True (qz r)\<rparr>)"
proof (cases "qs_running (qz r)")
  case None
  then show ?thesis using i by (simp add: hostStores_def endSave_def)
next
  case (Some e)
  obtain a q v where e: "e = (a, q, v)" by (cases e)
  have k: "a = qz_current r" "unsaved (qz r) q \<noteq> None" using quizInvD(5) [OF i] Some e by auto
  have u: "unsaved (endSave True (qz r)) = (if unsaved (qz r) q = Some v then (unsaved (qz r))(q := None) else unsaved (qz r))"
    using Some e by (auto simp: endSave_def unsaved_def fun_eq_iff)
  have h: "hostStores r = r\<lparr>qz_host := (qz_host r)((qz_current r, q) \<mapsto> v)\<rparr>" using Some e k by (simp add: hostStores_def)
  have f: "qs_queue (endSave True (qz r)) = qs_queue (qz r)" "qs_running (endSave True (qz r)) = None"
    "qs_attempt (endSave True (qz r)) = qs_attempt (qz r)" "qs_submit (endSave True (qz r)) = qs_submit (qz r)"
    using Some e by (simp_all add: endSave_def Let_def)
  have d: "distinct (map fst (qs_dirty (endSave True (qz r))))"
    using Some e quizInvD(2) [OF i] by (simp add: endSave_def Let_def)
  show ?thesis unfolding h
  proof (rule quizInvI, goal_cases)
    case (1 p)
    show ?case using quizInvD(1) [OF i, of p] k(2) by (auto simp: u)
  qed (use quizInvD(3,4,6) [OF i] d in \<open>simp_all add: f\<close>)
qed

lemma quizInv_fail:
  assumes i: "quizInv r"
  shows "quizInv ((if stored then hostStores r else r)\<lparr>qz := endSave False (qz r)\<rparr>)"
proof -
  have f: "quizInv (r\<lparr>qz := endSave False (qz r)\<rparr>)"
    by (rule quizInv_frame [OF i]) (use quizInvD(3,6) [OF i] in \<open>auto simp: endSave_def split: option.splits\<close>)
  have "quizInv (hostStores r\<lparr>qz := endSave False (qz r)\<rparr>)"
  proof (cases "qs_running (qz r)")
    case None
    then show ?thesis using f by (simp add: hostStores_def)
  next
    case (Some e)
    obtain a q v where e: "e = (a, q, v)" by (cases e)
    have k: "a = qz_current r" "unsaved (qz r) q \<noteq> None" using quizInvD(5) [OF i] Some e by auto
    have h: "hostStores r = r\<lparr>qz_host := (qz_host r)((qz_current r, q) \<mapsto> v)\<rparr>" using Some e k by (simp add: hostStores_def)
    have u: "unsaved (endSave False (qz r)) = unsaved (qz r)" using Some e by (intro unsaved_cong) (simp add: endSave_def)
    show ?thesis unfolding h
    proof (rule quizInvI, goal_cases)
      case (1 p)
      show ?case using quizInvD(1) [OF i, of p] k(2) u by auto
    qed (use quizInvD(2-) [OF f] in simp_all)
  qed
  then show ?thesis using f by simp
qed

lemma quizInv_resent:
  assumes i: "quizInv r" and s: "resend b (qz r) = Some s'"
  shows "quizInv (r\<lparr>qz := s'\<rparr>)"
proof -
  have "s' = qz r \<or> (\<exists>x. qs_attempt (qz r) = Some x \<and> s' = resent (at_id x) (qs_dirty (qz r)) (qz r))"
    using s resendLoop_ends [OF quizInvD(2) [OF i], of 0] by (auto simp: resend_def split: option.splits if_splits)
  then show ?thesis
  proof (elim disjE exE conjE)
    fix x assume x: "qs_attempt (qz r) = Some x" and s': "s' = resent (at_id x) (qs_dirty (qz r)) (qz r)"
    have u: "unsaved s' = unsaved (qz r)" by (rule unsaved_cong) (simp add: s' resent_def)
    show ?thesis
    proof (rule quizInvI, goal_cases)
      case (1 p)
      show ?case using quizInvD(1) [OF i, of p] u by simp
    next
      case (4 e)
      then show ?case using quizInvD(4) [OF i, of e] quizInvD(3) [OF i x] by (auto simp: s' resent_def)
    next
      case (5 a q v)
      then show ?case using quizInvD(5) [OF i, of a q v] u by (simp add: s' resent_def)
    qed (use quizInvD(2,3,6) [OF i] in \<open>simp_all add: s' resent_def\<close>)
  qed (use i in simp)
qed

lemma submitNext_none:
  "submitGives s = None \<Longrightarrow> qs_dirty (submitNext ok s) = qs_dirty s \<and> qs_queue (submitNext ok s) = qs_queue s \<and>
     qs_running (submitNext ok s) = qs_running s \<and> qs_attempt (submitNext ok s) = qs_attempt s \<and>
     (\<forall>ph. qs_submit (submitNext ok s) = Some ph \<longrightarrow> (\<exists>ph'. qs_submit s = Some ph' \<and> phaseAttempt ph = phaseAttempt ph'))"
  by (auto simp: submitGives_def submitNext_def Let_def simp del: dropWhile_eq_Nil_conv
      split: option.splits submit_phase.splits list.splits if_splits)

lemma submitNext_some:
  assumes "submitGives s = Some (q, v)"
  obtains a es n rest where "qs_submit s = Some (SubmitSaving a es n)"
    "\<And>ok. submitNext ok s = (saveAnswer (Some a) True q v s)\<lparr>qs_submit := Some (SubmitSaving a rest (qs_issued (saveAnswer (Some a) True q v s)))\<rparr>"
proof -
  from assms obtain a es n where s: "qs_submit s = Some (SubmitSaving a es n)" "\<not> qs_done s < n"
    by (auto simp: submitGives_def split: option.splits submit_phase.splits if_splits)
  with assms obtain rest where "dropWhile (\<lambda>e. map_of (qs_dirty s) (fst e) = None) es = (q, v) # rest"
    by (auto simp: submitGives_def simp del: dropWhile_eq_Nil_conv split: list.splits)
  with s show ?thesis by (intro that [of a es n rest]) (simp_all add: submitNext_def Let_def)
qed

lemma quizInv_submit:
  assumes i: "quizInv r"
  shows "quizInv (submitRun ok r)"
proof (cases "submitGives (qz r)")
  case None
  note n = submitNext_none [OF None, of ok]
  then have f: "qs_dirty (submitNext ok (qz r)) = qs_dirty (qz r)" "qs_queue (submitNext ok (qz r)) = qs_queue (qz r)"
    "qs_running (submitNext ok (qz r)) = qs_running (qz r)" "qs_attempt (submitNext ok (qz r)) = qs_attempt (qz r)" by blast+
  have ph: "phaseAttempt ph = qz_current r" if s: "qs_submit (submitNext ok (qz r)) = Some ph" for ph
  proof -
    from n s obtain ph' where "qs_submit (qz r) = Some ph'" "phaseAttempt ph = phaseAttempt ph'" by blast
    then show ?thesis using quizInvD(6) [OF i] by simp
  qed
  have "quizInv (r\<lparr>qz := submitNext ok (qz r)\<rparr>)"
    by (rule quizInv_frame [OF i]) (use ph quizInvD(3) [OF i] in \<open>simp_all add: f\<close>)
  then show ?thesis using None by (simp add: submitRun_def)
next
  case (Some e)
  obtain q v where e: "e = (q, v)" by (cases e)
  obtain a es n rest where s: "qs_submit (qz r) = Some (SubmitSaving a es n)"
      and s2: "\<And>ok. submitNext ok (qz r) = (saveAnswer (Some a) True q v (qz r))\<lparr>qs_submit := Some (SubmitSaving a rest (qs_issued (saveAnswer (Some a) True q v (qz r))))\<rparr>"
    by (rule submitNext_some [OF Some [unfolded e]]) metis
  have a: "a = qz_current r" using quizInvD(6) [OF i s] by simp
  let ?r = "r\<lparr>qz := saveAnswer (Some a) True q v (qz r), qz_given := (qz_given r)(q \<mapsto> v)\<rparr>"
  have "quizInv ?r" by (intro quizInv_gives i) (simp add: a)
  then have "quizInv (?r\<lparr>qz := submitNext ok (qz r)\<rparr>)"
    unfolding s2 by (rule quizInv_frame) (use quizInvD(3) [OF i] a in simp_all)
  moreover have "?r\<lparr>qz := submitNext ok (qz r)\<rparr> = submitRun ok r" using Some e by (cases r) (simp add: submitRun_def)
  ultimately show ?thesis by simp
qed

lemma quizInv_open: "quizInv r \<Longrightarrow> quizIdle (qz r) \<Longrightarrow> quizInv (openRun dateParse nowMs x r)"
  by (simp add: quizInv_def answersKept_def savesOk_def openRun_def openAnswer_def quizIdle_def unsaved_def)

lemma quizInv_choose:
  assumes "quizInv r" "qs_attempt (qz r) = Some x"
  shows "quizInv (chooseAnswer b q v r)"
proof -
  have "quizInv (r\<lparr>qz := saveAnswer (Some (at_id x)) b q v (qz r), qz_given := (qz_given r)(q \<mapsto> v)\<rparr>)"
    by (intro quizInv_gives assms(1)) (use quizInvD(3) [OF assms] in simp)
  then show ?thesis using assms(2) by (simp add: chooseAnswer_def quizInv_def answersKept_def savesOk_def)
qed

lemma quizInv_rest:
  assumes i: "quizInv r"
  shows "quizInv (r\<lparr>qz := openAnswer dateParse nowMs None (qz r)\<rparr>)" "quizInv (r\<lparr>qz := (qz r)\<lparr>qs_deliveries := ds\<rparr>\<rparr>)"
    "quizInv (r\<lparr>qz := (qz r)\<lparr>qs_answers := es\<rparr>\<rparr>)" "quizInv (r\<lparr>qz := (qz r)\<lparr>qs_attempt := None\<rparr>\<rparr>)"
    "quizInv (r\<lparr>qz := (qz r)\<lparr>qs_index := k\<rparr>\<rparr>)"
  by (rule quizInv_frame [OF i]; use quizInvD(3,6) [OF i] in \<open>simp add: openAnswer_def\<close>)+

lemma quizInv_moves:
  assumes i: "quizInv r"
  shows "quizInv (r\<lparr>qz := nextQuestion (qz r)\<rparr>)" "quizInv (r\<lparr>qz := previousQuestion (qz r)\<rparr>)"
proof -
  have "r\<lparr>qz := qz r\<rparr> = r" by simp
  then show "quizInv (r\<lparr>qz := nextQuestion (qz r)\<rparr>)" "quizInv (r\<lparr>qz := previousQuestion (qz r)\<rparr>)"
    using i quizInv_rest(5) [OF i] unfolding nextQuestion_def previousQuestion_def by (simp_all split: option.split)
qed

lemma quizInv_submitQuiz: "quizInv r \<Longrightarrow> quizInv (r\<lparr>qz := submitQuiz confirmed (qz r)\<rparr>)"
  using quizInvD(3,6) [of r] by (cases "qs_attempt (qz r)") (auto intro!: quizInv_frame simp: submitQuiz_def)

lemma quizInv_submitReply:
  assumes i: "quizInv r" and x: "\<And>x. reply = Some x \<Longrightarrow> at_id x = qz_current r"
  shows "quizInv (r\<lparr>qz := submitReply reply (qz r)\<rparr>)"
proof -
  have "submitReply reply (qz r) = qz r \<or> (\<exists>m. submitReply reply (qz r) = (qz r)\<lparr>qs_submit := None, qs_message := m\<rparr>) \<or>
      (\<exists>y m. reply = Some y \<and> submitReply reply (qz r) = (qz r)\<lparr>qs_submit := None, qs_attempt := Some y, qs_message := m\<rparr>)"
    by (auto simp: submitReply_def split: option.splits submit_phase.splits)
  then show ?thesis
  proof (elim disjE exE conjE)
    fix m assume m: "submitReply reply (qz r) = (qz r)\<lparr>qs_submit := None, qs_message := m\<rparr>"
    show ?thesis unfolding m by (rule quizInv_frame [OF i]) (use quizInvD(3) [OF i] in simp_all)
  next
    fix y m assume m: "reply = Some y" "submitReply reply (qz r) = (qz r)\<lparr>qs_submit := None, qs_attempt := Some y, qs_message := m\<rparr>"
    show ?thesis unfolding m(2) by (rule quizInv_frame [OF i]) (use x [OF m(1)] in simp_all)
  qed (use i in simp)
qed

lemma quizInv_step: "quizStep dateParse r r' \<Longrightarrow> quizInv r \<Longrightarrow> quizInv r'"
  by (induction rule: quizStep.induct)
    ((rule quizInv_open quizInv_resent quizInv_begin quizInv_end quizInv_fail quizInv_submit quizInv_choose quizInv_submitQuiz quizInv_submitReply
        quizInv_moves quizInv_rest; assumption | blast)+)

lemma quizInv_reachable: "quizReachable dateParse r \<Longrightarrow> quizInv r"
proof (induction rule: quizReachable.induct)
  case start
  show ?case by (simp add: initialQuiz_def quizInv_def answersKept_def savesOk_def unsaved_def)
qed (rule quizInv_step)

section \<open>Properties\<close>


text \<open>C19: The loop that sends what is unsaved ends, although it goes over the map that its body writes to: it queues one save for every
  unsaved answer, in order, and changes none of them.\<close>

theorem resend_terminates:
  assumes "quizReachable dateParse r" "qs_attempt (qz r) = Some x" "at_submitted x = None" "qs_dirty (qz r) \<noteq> []"
  shows "\<exists>s'. resend True (qz r) = Some s' \<and> qs_dirty s' = qs_dirty (qz r) \<and>
    qs_queue s' = qs_queue (qz r) @ map (\<lambda>e. (at_id x, fst e)) (qs_dirty (qz r))"
  using resendLoop_ends [OF quizInvD(2) [OF quizInv_reachable [OF assms(1)]], of 0] assms(2-)
  by (simp add: resend_def resent_def)

section \<open>A run\<close>

definition demoDelivery :: quiz_delivery where
  "demoDelivery = \<lparr>dl_id = js ''d'', dl_title = [], dl_instructions = [], dl_kind = Homework, dl_opens = None, dl_due = Some (js ''t''),
     dl_released = Some (js ''t''), dl_attempt = Some (js ''a''), dl_attempt_state = Some (js ''submitted'')\<rparr>"

definition demoAttempt :: quiz_attempt where
  "demoAttempt = \<lparr>at_id = js ''a'', at_delivery = demoDelivery, at_questions = [], at_responses = [], at_expires = None, at_submitted = None,
     at_score = None, at_max = 2, at_shown = False, at_server_now = js ''t''\<rparr>"

definition openedRun :: quiz_run where
  "openedRun = openRun (\<lambda>_. 0) 0 demoAttempt initialQuiz"

text \<open>Two questions are answered offline.\<close>

definition answeredRun :: quiz_run where
  "answeredRun = chooseAnswer False (js ''q2'') (JBool False) (chooseAnswer False (js ''q1'') (JBool True) openedRun)"

definition saveRun :: "quiz_run \<Rightarrow> quiz_run" where
  "saveRun r = (let r = r\<lparr>qz := beginSave (qz r)\<rparr> in hostStores r\<lparr>qz := endSave True (qz r)\<rparr>)"

lemma answeredRun_reachable: "quizReachable (\<lambda>_. 0) answeredRun"
proof -
  have "quizReachable (\<lambda>_. 0) openedRun"
    unfolding openedRun_def by (intro quizReachable.step [OF quizReachable.start] quizStep.opened) (simp add: initialQuiz_def quizIdle_def)
  moreover have "qs_attempt (qz openedRun) = Some demoAttempt" "qs_attempt (qz (chooseAnswer False (js ''q1'') (JBool True) openedRun)) = Some demoAttempt"
    by (simp_all add: openedRun_def openRun_def openAnswer_def chooseAnswer_def)
  ultimately show ?thesis unfolding answeredRun_def by (blast intro: quizReachable.step quizStep.chosen)
qed

lemma saveRun_reachable: "quizReachable d r \<Longrightarrow> quizReachable d (saveRun r)"
  unfolding saveRun_def Let_def by (blast intro: quizReachable.step quizStep.save_begins quizStep.save_ends)

lemma submitRun_reachable: "quizReachable d r \<Longrightarrow> quizReachable d (submitRun ok r)"
  by (blast intro: quizReachable.step quizStep.submit_next)

theorem resend_terminates_witness:
  "\<exists>s'. resend True (qz answeredRun) = Some s' \<and> qs_queue s' = [(js ''a'', js ''q1''), (js ''a'', js ''q2'')]"
proof -
  have "qs_attempt (qz answeredRun) = Some demoAttempt" "at_submitted demoAttempt = None" "qs_dirty (qz answeredRun) \<noteq> []"
    "qs_queue (qz answeredRun) @ map (\<lambda>e. (at_id demoAttempt, fst e)) (qs_dirty (qz answeredRun)) = [(js ''a'', js ''q1''), (js ''a'', js ''q2'')]"
    by code_simp+
  then show ?thesis using resend_terminates [OF answeredRun_reachable, of demoAttempt] by auto
qed

text \<open>Handing in saves the two answers; the student changes the second while the first is being saved, or not.\<close>

definition handIn :: "quiz_run \<Rightarrow> quiz_run" where
  "handIn r = submitRun True (r\<lparr>qz := submitQuiz True (qz r)\<rparr>)"

definition completed :: "quiz_run \<Rightarrow> quiz_run" where
  "completed r = submitRun True (saveRun (submitRun True (saveRun r)))"

definition changedRun :: quiz_run where
  "changedRun = chooseAnswer True (js ''q2'') (JBool True) (handIn answeredRun)"

lemma completed_reachable: "quizReachable d r \<Longrightarrow> quizReachable d (completed r)"
  unfolding completed_def by (intro submitRun_reachable saveRun_reachable)

lemma handIn_reachable: "quizReachable d r \<Longrightarrow> quizReachable d (handIn r)"
  unfolding handIn_def by (intro submitRun_reachable) (blast intro: quizReachable.step quizStep.submit)


text \<open>Handing in can take an answer back: it saves the answers of the moment it was pressed, so one that the student changes while an
  earlier question is being saved is overwritten, and the quiz is handed in with the older answer.\<close>

theorem handing_in_takes_answer_back:
  "\<exists>r. quizReachable (\<lambda>_. 0) r \<and> qs_submit (qz r) = Some (SubmitSending (js ''a'')) \<and> qz_chosen r (js ''q2'') = Some (JBool True) \<and>
     qz_host r (js ''a'', js ''q2'') = Some (JBool False)"
proof -
  let ?r = "submitRun True (submitRun True (saveRun (completed changedRun)))"
  have "qs_attempt (qz (handIn answeredRun)) = Some demoAttempt" by code_simp
  then have "quizReachable (\<lambda>_. 0) changedRun"
    unfolding changedRun_def using handIn_reachable [OF answeredRun_reachable] by (blast intro: quizReachable.step quizStep.chosen)
  then have "quizReachable (\<lambda>_. 0) ?r" by (intro submitRun_reachable saveRun_reachable completed_reachable)
  moreover have "qs_submit (qz ?r) = Some (SubmitSending (js ''a''))" "qz_chosen ?r (js ''q2'') = Some (JBool True)"
    "qz_host ?r (js ''a'', js ''q2'') = Some (JBool False)" by code_simp+
  ultimately show ?thesis by blast
qed

text \<open>Once a delivery is due its button no longer works, also when the quiz was handed in and its results were released: the label says
  that the result can be viewed, and it cannot.\<close>

theorem results_unreachable_after_due:
  assumes "dl_attempt_state d = Some (js ''submitted'')" "dl_released d \<noteq> None" "dl_due d = Some t" "dateParse t \<le> nowMs"
  shows "deliveryState dateParse nowMs d = (js ''View result'', False)"
  using assms by (simp add: deliveryState_def Let_def)

theorem results_unreachable_after_due_witness:
  "deliveryState (\<lambda>_. 0) 1 demoDelivery = (js ''View result'', False)"
  by (rule results_unreachable_after_due [of demoDelivery "js ''t''"]) (simp_all add: demoDelivery_def)

end
