(* ===== verification/Teacher_Quizzes.thy ===== *)
theory Teacher_Quizzes
  imports Student_Quizzes Session_Store Host_Api Paper_Logic "HOL-Library.Multiset"
begin

text \<open>
  The teacher's quizzes and live classroom (\<open>apps/teacher/src/QuizManager.tsx\<close> and \<open>LiveSessionControls.tsx\<close>): the editor
  of a quiz draft with every operation on its questions, the request that saves it, the actions of the library, the
  grading of an answer; and the controls of a live session, whose refreshes are numbered.

  The message of an error is that of the failure, which is an argument.
\<close>

section \<open>Quizzes\<close>

record quiz_question_input =
  qi_id :: "jsstring option"
  qi_kind :: quiz_question_kind
  qi_prompt :: jsstring
  qi_options :: "jsstring list"
  qi_answer :: json
  qi_points :: jsnum
  qi_required :: bool

record quiz =
  quiz_id :: jsstring
  quiz_classroom_id :: jsstring
  quiz_title :: jsstring
  quiz_instructions :: jsstring
  quiz_limit :: "int option"
  quiz_published :: "int option"
  quiz_questions :: "quiz_question_input list"

record quiz_form =
  qf_title :: jsstring
  qf_instructions :: jsstring
  qf_limit :: jsstring
  qf_questions :: "quiz_question_input list"

record quiz_manager =
  qm_classroom :: jsstring
  qm_quizzes :: "quiz list"
  qm_deliveries :: "quiz_delivery list"
  qm_editing :: "quiz option"
  qm_open :: bool
  qm_form :: quiz_form
  qm_preview :: bool
  qm_message :: jsstring
  qm_busy :: bool

definition blankQuestion :: quiz_question_input where
  "blankQuestion = \<lparr>qi_id = None, qi_kind = SingleChoice, qi_prompt = [], qi_options = [[], []], qi_answer = JStr [], qi_points = Fin 1, qi_required = True\<rparr>"

definition blankForm :: quiz_form where
  "blankForm = \<lparr>qf_title = [], qf_instructions = [], qf_limit = [], qf_questions = [blankQuestion]\<rparr>"

text \<open>The classroom on show: one of the teacher's, else the first.\<close>

definition pickClassroom :: "classroom list \<Rightarrow> quiz_manager \<Rightarrow> quiz_manager" where
  "pickClassroom rooms s =
     (if \<exists>c \<in> set rooms. classroom_id c = qm_classroom s then s
      else s\<lparr>qm_classroom := (case rooms of c # _ \<Rightarrow> classroom_id c | [] \<Rightarrow> [])\<rparr>)"

text \<open>\<open>refresh\<close>; the answer is used as it comes.\<close>

definition refreshQuizzes :: "(quiz list \<times> quiz_delivery list) option \<Rightarrow> quiz_manager \<Rightarrow> quiz_manager" where
  "refreshQuizzes answered s =
     (if qm_classroom s = [] then s\<lparr>qm_quizzes := [], qm_deliveries := []\<rparr>
      else (case answered of
          Some (qs, ds) \<Rightarrow> s\<lparr>qm_quizzes := qs, qm_deliveries := ds\<rparr>
        | None \<Rightarrow> s))"

definition editQuiz :: "quiz option \<Rightarrow> quiz_manager \<Rightarrow> quiz_manager" where
  "editQuiz q s =
     s\<lparr>qm_open := True, qm_editing := q, qm_preview := False,
       qm_form := (case q of
           Some q \<Rightarrow> \<lparr>qf_title = quiz_title q, qf_instructions = quiz_instructions q,
             qf_limit = (case quiz_limit q of Some n \<Rightarrow> showInt n | None \<Rightarrow> []), qf_questions = quiz_questions q\<rparr>
         | None \<Rightarrow> blankForm)\<rparr>"

definition cancelEdit :: "quiz_manager \<Rightarrow> quiz_manager" where
  "cancelEdit s = s\<lparr>qm_open := False, qm_editing := None, qm_preview := False\<rparr>"

section \<open>The editor\<close>

definition updateQuestion :: "nat \<Rightarrow> (quiz_question_input \<Rightarrow> quiz_question_input) \<Rightarrow> quiz_form \<Rightarrow> quiz_form" where
  "updateQuestion i patch f = f\<lparr>qf_questions := map (\<lambda>(k, q). if k = i then patch q else q) (enumerate 0 (qf_questions f))\<rparr>"

definition changeKind :: "quiz_question_kind \<Rightarrow> quiz_question_input \<Rightarrow> quiz_question_input" where
  "changeKind k q = q\<lparr>qi_kind := k, qi_options := (if k = SingleChoice then [[], []] else []),
     qi_answer := (if k = TrueFalse then JBool True else JStr [])\<rparr>"

definition changePoints :: "jsstring \<Rightarrow> quiz_question_input \<Rightarrow> quiz_question_input" where
  "changePoints v q = q\<lparr>qi_points := toNumber v\<rparr>"

definition changePrompt :: "jsstring \<Rightarrow> quiz_question_input \<Rightarrow> quiz_question_input" where
  "changePrompt v q = q\<lparr>qi_prompt := v\<rparr>"

definition changeOption :: "nat \<Rightarrow> jsstring \<Rightarrow> quiz_question_input \<Rightarrow> quiz_question_input" where
  "changeOption j v q = q\<lparr>qi_options := (qi_options q)[j := v]\<rparr>"

definition addOption :: "quiz_question_input \<Rightarrow> quiz_question_input" where
  "addOption q = q\<lparr>qi_options := qi_options q @ [[]]\<rparr>"

definition chooseCorrect :: "jsstring \<Rightarrow> quiz_question_input \<Rightarrow> quiz_question_input" where
  "chooseCorrect v q = q\<lparr>qi_answer := JStr v\<rparr>"

definition chooseTruth :: "jsstring \<Rightarrow> quiz_question_input \<Rightarrow> quiz_question_input" where
  "chooseTruth v q = q\<lparr>qi_answer := JBool (v = js ''true'')\<rparr>"

definition moveUp :: "nat \<Rightarrow> quiz_form \<Rightarrow> quiz_form" where
  "moveUp i f =
     (if i = 0 \<or> length (qf_questions f) \<le> i then f
      else f\<lparr>qf_questions := (qf_questions f)[i - 1 := qf_questions f ! i, i := qf_questions f ! (i - 1)]\<rparr>)"

definition removeQuestion :: "nat \<Rightarrow> quiz_form \<Rightarrow> quiz_form" where
  "removeQuestion i f = (if length (qf_questions f) = 1 then f else f\<lparr>qf_questions := take i (qf_questions f) @ drop (Suc i) (qf_questions f)\<rparr>)"

definition addQuestion :: "quiz_form \<Rightarrow> quiz_form" where
  "addQuestion f = f\<lparr>qf_questions := qf_questions f @ [blankQuestion]\<rparr>"

text \<open>What the fields of the editor can do: each is offered for the kinds of question shown.\<close>

datatype question_edit =
    ChangeKind quiz_question_kind | ChangePoints jsstring | ChangePrompt jsstring | ChangeOption nat jsstring | AddOption
  | ChooseCorrect jsstring | ChooseTruth jsstring

fun applyEdit :: "question_edit \<Rightarrow> quiz_question_input \<Rightarrow> quiz_question_input" where
  "applyEdit (ChangeKind k) q = changeKind k q"
| "applyEdit (ChangePoints v) q = changePoints v q"
| "applyEdit (ChangePrompt v) q = changePrompt v q"
| "applyEdit (ChangeOption j v) q = (if qi_kind q = SingleChoice then changeOption j v q else q)"
| "applyEdit AddOption q = (if qi_kind q = SingleChoice then addOption q else q)"
| "applyEdit (ChooseCorrect v) q = (if qi_kind q = SingleChoice then chooseCorrect v q else q)"
| "applyEdit (ChooseTruth v) q = (if qi_kind q = TrueFalse then chooseTruth v q else q)"

datatype form_edit = EditQuestion nat question_edit | MoveUp nat | RemoveQuestion nat | AddQuestion

fun applyForm :: "form_edit \<Rightarrow> quiz_form \<Rightarrow> quiz_form" where
  "applyForm (EditQuestion i e) f = updateQuestion i (applyEdit e) f"
| "applyForm (MoveUp i) f = moveUp i f"
| "applyForm (RemoveQuestion i) f = removeQuestion i f"
| "applyForm AddQuestion f = addQuestion f"

section \<open>Saving\<close>

definition kindText :: "quiz_question_kind \<Rightarrow> jsstring" where
  "kindText k = (case k of SingleChoice \<Rightarrow> js ''single_choice'' | TrueFalse \<Rightarrow> js ''true_false'' | ShortAnswer \<Rightarrow> js ''short_answer'')"

text \<open>A number that is not finite becomes \<open>null\<close> in JSON.\<close>

definition jsonNumber :: "jsnum \<Rightarrow> json" where
  "jsonNumber x = (case x of Fin q \<Rightarrow> JNum q | _ \<Rightarrow> JNull)"

definition questionJson :: "quiz_question_input \<Rightarrow> json" where
  "questionJson q = JObj ((case qi_id q of Some i \<Rightarrow> [(js ''id'', JStr i)] | None \<Rightarrow> []) @
     [(js ''kind'', JStr (kindText (qi_kind q))), (js ''prompt'', JStr (qi_prompt q)), (js ''options'', JArr (map JStr (qi_options q))),
      (js ''canonical_answer'', qi_answer q), (js ''max_points'', jsonNumber (qi_points q)), (js ''required'', JBool (qi_required q))])"

definition quizInput :: "quiz_manager \<Rightarrow> json" where
  "quizInput s = JObj [(js ''classroom_id'', JStr (qm_classroom s)), (js ''title'', JStr (qf_title (qm_form s))),
     (js ''instructions'', JStr (qf_instructions (qm_form s))),
     (js ''time_limit_minutes'', if qf_limit (qm_form s) = [] then JNull else jsonNumber (toNumber (qf_limit (qm_form s)))),
     (js ''questions'', JArr (map questionJson (qf_questions (qm_form s))))]"

definition saveQuizCall :: "quiz_manager \<Rightarrow> quiz_call" where
  "saveQuizCall s = (case qm_editing s of Some q \<Rightarrow> UpdateQuiz (quiz_id q) (quizInput s) | None \<Rightarrow> CreateQuiz (quizInput s))"

definition saveQuizStart :: "quiz_manager \<Rightarrow> quiz_manager" where
  "saveQuizStart s = s\<lparr>qm_busy := True, qm_message := []\<rparr>"

text \<open>The answer to the save (an error has a message), and the refresh that follows.\<close>

definition saveQuizAnswer :: "jsstring option \<Rightarrow> (jsstring + quiz list \<times> quiz_delivery list) \<Rightarrow> quiz_manager \<Rightarrow> quiz_manager" where
  "saveQuizAnswer failure listed s =
     (case failure of
        Some m \<Rightarrow> s\<lparr>qm_message := m, qm_busy := False\<rparr>
      | None \<Rightarrow>
          (let s = s\<lparr>qm_editing := None, qm_open := False\<rparr> in
           case listed of
             Inl m \<Rightarrow> s\<lparr>qm_message := m, qm_busy := False\<rparr>
           | Inr x \<Rightarrow> (refreshQuizzes (Some x) s)\<lparr>qm_message := js ''Quiz draft saved.'', qm_busy := False\<rparr>))"

definition runAction :: "jsstring \<Rightarrow> jsstring option \<Rightarrow> (jsstring + quiz list \<times> quiz_delivery list) \<Rightarrow> quiz_manager \<Rightarrow> quiz_manager" where
  "runAction success failure listed s =
     (case (failure, listed) of
        (Some m, _) \<Rightarrow> s\<lparr>qm_message := m, qm_busy := False\<rparr>
      | (None, Inl m) \<Rightarrow> s\<lparr>qm_message := m, qm_busy := False\<rparr>
      | (None, Inr x) \<Rightarrow> (refreshQuizzes (Some x) s)\<lparr>qm_message := success, qm_busy := False\<rparr>)"

text \<open>Assigning as homework; \<open>toISO\<close> is the conversion of the local date of the field.\<close>

definition homeworkInput :: "(jsstring \<Rightarrow> jsstring) \<Rightarrow> jsstring \<Rightarrow> jsstring \<Rightarrow> json" where
  "homeworkInput toISO opens due =
     (let date = (\<lambda>d. if d = [] then JNull else JStr (toISO d))
      in JObj [(js ''kind'', JStr (js ''homework'')), (js ''opens_at'', date opens), (js ''due_at'', date due)])"

text \<open>Grading an answer by two prompts, which are \<open>null\<close> when they are cancelled; \<open>Number(null)\<close> is zero.\<close>

definition gradePrompt :: "jsstring option \<Rightarrow> jsstring option \<Rightarrow> jsstring \<Rightarrow> (rat \<times> jsstring) option" where
  "gradePrompt pointsText feedbackText existing =
     (case (case pointsText of Some t \<Rightarrow> toNumber t | None \<Rightarrow> Fin 0) of
        Fin points \<Rightarrow> Some (points, case feedbackText of Some t \<Rightarrow> t | None \<Rightarrow> existing)
      | _ \<Rightarrow> None)"

definition gradeCalls :: "jsstring \<Rightarrow> jsstring \<Rightarrow> jsstring option \<Rightarrow> jsstring option \<Rightarrow> jsstring \<Rightarrow> quiz_call list" where
  "gradeCalls attempt question pointsText feedbackText existing =
     (case gradePrompt pointsText feedbackText existing of
        Some (points, feedback) \<Rightarrow> [GradeQuizResponse attempt question points feedback]
      | None \<Rightarrow> [])"

section \<open>The live classroom\<close>

record live_participant =
  lp_student :: jsstring
  lp_name :: jsstring
  lp_seen :: jsstring
  lp_state :: "live_task_ack option"
  lp_result :: "live_result option"

record live_details =
  ld_session :: live_session
  ld_participants :: "live_participant list"
  ld_tasks :: "live_task list"

record live_history_item =
  lh_session :: live_session
  lh_participants :: int
  lh_completed :: int

record live_controls =
  lc_generation :: nat
  lc_details :: "live_details option"
  lc_history :: "live_history_item list"
  lc_materials :: "study_node list"
  lc_quizzes :: "quiz list"
  lc_offset :: rat
  lc_now :: rat
  lc_error :: jsstring
  lc_busy :: bool
  lc_kind :: live_task_kind
  lc_target :: jsstring
  lc_title :: jsstring
  lc_instructions :: jsstring

definition refreshStart :: "live_controls \<Rightarrow> live_controls" where
  "refreshStart s = s\<lparr>lc_generation := lc_generation s + 1\<rparr>"

record live_refresh =
  rf_generation :: nat
  rf_answer :: "jsstring + live_details option"
  rf_now :: rat

definition refreshAnswer :: "(jsstring \<Rightarrow> rat) \<Rightarrow> live_refresh \<Rightarrow> live_controls \<Rightarrow> live_controls" where
  "refreshAnswer dateParse t s =
     (if rf_generation t \<noteq> lc_generation s then s
      else (case rf_answer t of
          Inl m \<Rightarrow> s\<lparr>lc_error := m\<rparr>
        | Inr next \<Rightarrow>
            s\<lparr>lc_details := next,
              lc_offset := (case next of Some d \<Rightarrow> (case server_now (ld_session d) of Some t' \<Rightarrow> dateParse t' - rf_now t | None \<Rightarrow> lc_offset s) | None \<Rightarrow> lc_offset s),
              lc_error := []\<rparr>))"

text \<open>The lists that a refresh asks for once the session has come.\<close>

definition historyAnswer :: "nat \<Rightarrow> live_history_item list \<Rightarrow> live_controls \<Rightarrow> live_controls" where
  "historyAnswer g items s = (if g = lc_generation s then s\<lparr>lc_history := items\<rparr> else s)"

definition materialsAnswer :: "jsstring \<Rightarrow> nat \<Rightarrow> study_node list \<Rightarrow> live_controls \<Rightarrow> live_controls" where
  "materialsAnswer classroom g nodes s =
     (if g = lc_generation s
      then s\<lparr>lc_materials := filter (\<lambda>n. node_owner_id n = None \<and> node_classroom_id n = Some classroom \<and> node_kind n = PdfNode) nodes\<rparr>
      else s)"

definition quizzesAnswer :: "nat \<Rightarrow> quiz list \<Rightarrow> live_controls \<Rightarrow> live_controls" where
  "quizzesAnswer g items s = (if g = lc_generation s then s\<lparr>lc_quizzes := filter (\<lambda>q. quiz_published q \<noteq> None \<and> quiz_published q \<noteq> Some 0) items\<rparr> else s)"

text \<open>A failure of the history is shown unless the host does not know it (404), whatever the generation.\<close>

definition historyFailure :: "int \<Rightarrow> jsstring \<Rightarrow> live_controls \<Rightarrow> live_controls" where
  "historyFailure status m s = (if status = 404 then s else s\<lparr>lc_error := m\<rparr>)"

interpretation lr: generation_guard lc_generation rf_generation "refreshAnswer dateParse" lc_details
  by unfold_locales (simp add: refreshAnswer_def)

definition liveRemaining :: "(jsstring \<Rightarrow> rat) \<Rightarrow> live_controls \<Rightarrow> int" where
  "liveRemaining dateParse s = (case lc_details s of
      Some d \<Rightarrow> max 0 (mathCeil ((dateParse (ends_at (ld_session d)) - lc_now s - lc_offset s) / 1000))
    | None \<Rightarrow> 0)"

definition liveActive :: "(jsstring \<Rightarrow> rat) \<Rightarrow> live_controls \<Rightarrow> bool" where
  "liveActive dateParse s \<longleftrightarrow> (case lc_details s of
      Some d \<Rightarrow> (ended_at (ld_session d) = None \<or> ended_at (ld_session d) = Some []) \<and> 0 < liveRemaining dateParse s
    | None \<Rightarrow> False)"

text \<open>What a task can open, as pairs of identifier and name.\<close>

definition liveTargets :: "jsstring \<Rightarrow> assignment list \<Rightarrow> live_controls \<Rightarrow> (jsstring \<times> jsstring) list" where
  "liveTargets classroom as s = (case lc_kind s of
      AssignmentTask \<Rightarrow> map (\<lambda>a. (assignment_id a, assignment_title a))
        (filter (\<lambda>a. assignment_classroom_id a = classroom \<and> assignment_status a = Published) as)
    | MaterialTask \<Rightarrow> map (\<lambda>n. (node_id n, node_name n)) (lc_materials s)
    | QuizTask \<Rightarrow> map (\<lambda>q. (quiz_id q, quiz_title q)) (lc_quizzes s)
    | InstructionTask \<Rightarrow> [])"

definition chooseTaskKind :: "live_task_kind \<Rightarrow> live_controls \<Rightarrow> live_controls" where
  "chooseTaskKind k s = s\<lparr>lc_kind := k, lc_target := []\<rparr>"

definition chooseTarget :: "jsstring \<Rightarrow> assignment list \<Rightarrow> jsstring \<Rightarrow> live_controls \<Rightarrow> live_controls" where
  "chooseTarget classroom as i s =
     (let s' = s\<lparr>lc_target := i\<rparr> in
      case map_of (liveTargets classroom as s) i of Some name \<Rightarrow> s'\<lparr>lc_title := name\<rparr> | None \<Rightarrow> s')"

definition startLive :: "(jsstring \<Rightarrow> rat) \<Rightarrow> rat \<Rightarrow> jsstring + live_session \<Rightarrow> live_controls \<Rightarrow> live_controls" where
  "startLive dateParse nowMs answered s = (case answered of
      Inl m \<Rightarrow> s\<lparr>lc_error := m, lc_busy := False\<rparr>
    | Inr x \<Rightarrow> refreshStart (s\<lparr>lc_error := [], lc_details := Some \<lparr>ld_session = x, ld_participants = [], ld_tasks = []\<rparr>,
        lc_offset := (case server_now x of Some (c # t) \<Rightarrow> dateParse (c # t) - nowMs | _ \<Rightarrow> 0), lc_now := nowMs\<rparr>))"

definition taskKindText :: "live_task_kind \<Rightarrow> jsstring" where
  "taskKindText k = (case k of InstructionTask \<Rightarrow> js ''instruction'' | AssignmentTask \<Rightarrow> js ''assignment'' | MaterialTask \<Rightarrow> js ''material'' | QuizTask \<Rightarrow> js ''quiz'')"

text \<open>The target of a task: a quiz is delivered to the session first, and the delivery is the target.\<close>

definition taskInput :: "jsstring \<Rightarrow> live_controls \<Rightarrow> json" where
  "taskInput delivery s = JObj [(js ''kind'', JStr (taskKindText (lc_kind s))),
     (js ''target_id'', if lc_kind s = QuizTask then JStr delivery else if lc_target s = [] then JNull else JStr (lc_target s)),
     (js ''title'', JStr (trim (lc_title s))), (js ''instructions'', JStr (trim (lc_instructions s)))]"

definition assignAnswer :: "jsstring option \<Rightarrow> live_controls \<Rightarrow> live_controls" where
  "assignAnswer failure s = (case failure of
      Some m \<Rightarrow> s\<lparr>lc_error := m, lc_busy := False\<rparr>
    | None \<Rightarrow> refreshStart (s\<lparr>lc_error := [], lc_title := [], lc_instructions := [], lc_target := []\<rparr>))"

definition endLive :: "jsstring option \<Rightarrow> live_controls \<Rightarrow> live_controls" where
  "endLive failure s = (case failure of
      Some m \<Rightarrow> s\<lparr>lc_error := m, lc_busy := False\<rparr>
    | None \<Rightarrow> refreshStart (s\<lparr>lc_error := []\<rparr>))"

section \<open>Drafts\<close>

definition questionOk :: "quiz_question_input \<Rightarrow> bool" where
  "questionOk q \<longleftrightarrow> (case qi_kind q of
      SingleChoice \<Rightarrow> 2 \<le> length (qi_options q) \<and> (case qi_answer q of JStr _ \<Rightarrow> True | _ \<Rightarrow> False)
    | TrueFalse \<Rightarrow> qi_options q = [] \<and> (case qi_answer q of JBool _ \<Rightarrow> True | _ \<Rightarrow> False)
    | ShortAnswer \<Rightarrow> qi_options q = [])"

definition formIds :: "quiz_form \<Rightarrow> jsstring list" where
  "formIds f = List.map_filter qi_id (qf_questions f)"

definition formOk :: "quiz_form \<Rightarrow> bool" where
  "formOk f \<longleftrightarrow> qf_questions f \<noteq> [] \<and> list_all questionOk (qf_questions f) \<and> distinct (formIds f)"

lemma applyEdit_ok: "questionOk q \<Longrightarrow> questionOk (applyEdit e q) \<and> qi_id (applyEdit e q) = qi_id q"
  by (cases e) (auto simp: questionOk_def changeKind_def changePoints_def changePrompt_def changeOption_def addOption_def chooseCorrect_def chooseTruth_def
      split: quiz_question_kind.splits)

lemma blankQuestion_ok: "questionOk blankQuestion"
  by (simp add: questionOk_def blankQuestion_def)

lemma map_filter_same: "(\<And>x. x \<in> set xs \<Longrightarrow> g (f x) = h x) \<Longrightarrow> List.map_filter g (map f xs) = List.map_filter h xs"
  by (induction xs) (auto simp: List.map_filter_simps split: option.splits)

lemma map_filter_app: "List.map_filter f (xs @ ys) = List.map_filter f xs @ List.map_filter f ys"
  by (simp add: List.map_filter_def)

lemma map_filter_mset: "mset xs = mset ys \<Longrightarrow> mset (List.map_filter f xs) = mset (List.map_filter f ys)"
  by (simp add: List.map_filter_def flip: mset_filter mset_map) (metis mset_filter mset_map)

lemma swap_mset: "0 < i \<Longrightarrow> i < length xs \<Longrightarrow> mset (xs[i - 1 := xs ! i, i := xs ! (i - 1)]) = mset xs"
  by (rule mset_swap) simp_all

lemma updateQuestion_ok:
  assumes "formOk f" "\<And>q. questionOk q \<Longrightarrow> questionOk (p q) \<and> qi_id (p q) = qi_id q"
  shows "formOk (updateQuestion i p f) \<and> formIds (updateQuestion i p f) = formIds f"
proof -
  let ?g = "\<lambda>(k, q). if k = i then p q else q"
  have ok: "questionOk q" if "(k, q) \<in> set (enumerate 0 (qf_questions f))" for k q
    using assms(1) that by (auto simp: formOk_def list_all_iff in_set_enumerate_eq)
  have "formIds (updateQuestion i p f) = List.map_filter (\<lambda>(k, q). qi_id q) (enumerate 0 (qf_questions f))"
    unfolding formIds_def updateQuestion_def using ok assms(2) by (simp, intro map_filter_same) auto
  also have "\<dots> = List.map_filter qi_id (map snd (enumerate 0 (qf_questions f)))"
    by (rule map_filter_same [symmetric]) auto
  finally have ids: "formIds (updateQuestion i p f) = formIds f" by (simp add: formIds_def)
  moreover have "list_all questionOk (qf_questions (updateQuestion i p f))"
    using ok assms(2) by (auto simp: updateQuestion_def list_all_iff)
  moreover have "qf_questions (updateQuestion i p f) \<noteq> []"
    using assms(1) by (auto simp: updateQuestion_def formOk_def enumerate_eq_zip dest: arg_cong [of _ _ length])
  ultimately show ?thesis using assms(1) by (simp add: formOk_def)
qed

lemma moveUp_ok:
  assumes "formOk f"
  shows "formOk (moveUp i f) \<and> mset (qf_questions (moveUp i f)) = mset (qf_questions f)"
proof -
  have m: "mset (qf_questions (moveUp i f)) = mset (qf_questions f)"
    using swap_mset [of i "qf_questions f"] by (simp add: moveUp_def)
  then have "set (qf_questions (moveUp i f)) = set (qf_questions f)" "mset (formIds (moveUp i f)) = mset (formIds f)"
    unfolding formIds_def by (metis set_mset_mset, intro map_filter_mset)
  then have "list_all questionOk (qf_questions (moveUp i f))" "distinct (formIds (moveUp i f))" "qf_questions (moveUp i f) \<noteq> []"
    using assms by (auto simp: formOk_def list_all_iff dest: mset_eq_imp_distinct_iff)
  then show ?thesis using m by (simp add: formOk_def)
qed

lemma removeQuestion_ok:
  assumes "formOk f"
  shows "formOk (removeQuestion i f) \<and> set (formIds (removeQuestion i f)) \<subseteq> set (formIds f)"
proof (cases "length (qf_questions f) = 1")
  case False
  let ?xs = "qf_questions f"
  let ?n = "take i ?xs @ drop (Suc i) ?xs"
  have split: "?xs = take i ?xs @ (if i < length ?xs then [?xs ! i] else []) @ drop (Suc i) ?xs"
    by (cases "i < length ?xs") (simp_all add: id_take_nth_drop [symmetric])
  have r: "removeQuestion i f = f\<lparr>qf_questions := ?n\<rparr>" using False by (simp add: removeQuestion_def)
  have ids: "formIds f = List.map_filter qi_id (take i ?xs) @ List.map_filter qi_id (if i < length ?xs then [?xs ! i] else []) @
      List.map_filter qi_id (drop (Suc i) ?xs)"
    unfolding formIds_def by (subst split) (simp only: map_filter_app)
  have "distinct (formIds f)" using assms by (simp add: formOk_def)
  then have "distinct (List.map_filter qi_id (take i ?xs) @ List.map_filter qi_id (drop (Suc i) ?xs))" unfolding ids by auto
  then have d: "distinct (formIds (removeQuestion i f))" by (simp add: r formIds_def map_filter_app)
  have s: "set (formIds (removeQuestion i f)) \<subseteq> set (formIds f)" unfolding ids by (auto simp: r formIds_def map_filter_app)
  have "0 < length ?xs" using assms by (simp add: formOk_def)
  then have "length ?n \<noteq> 0" using False by (cases "i < length ?xs") auto
  then have "?n \<noteq> []" by force
  moreover have "list_all questionOk ?n" using assms by (auto simp: formOk_def list_all_iff dest: in_set_takeD in_set_dropD)
  ultimately show ?thesis using d s by (simp add: formOk_def r)
qed (use assms in \<open>simp add: removeQuestion_def\<close>)

lemma addQuestion_ok: "formOk f \<Longrightarrow> formOk (addQuestion f) \<and> formIds (addQuestion f) = formIds f"
  using blankQuestion_ok by (simp add: formOk_def addQuestion_def formIds_def map_filter_app List.map_filter_simps blankQuestion_def)

lemma applyForm_ok: "formOk f \<Longrightarrow> formOk (applyForm e f) \<and> set (formIds (applyForm e f)) \<subseteq> set (formIds f)"
proof (cases e)
  case (MoveUp i)
  assume "formOk f"
  then have m: "formOk (moveUp i f) \<and> mset (qf_questions (moveUp i f)) = mset (qf_questions f)" by (rule moveUp_ok)
  then have "mset (formIds (moveUp i f)) = mset (formIds f)" unfolding formIds_def by (intro map_filter_mset) simp
  then show ?thesis using m MoveUp by (metis applyForm.simps(2) set_mset_mset order_refl)
qed (use updateQuestion_ok applyEdit_ok removeQuestion_ok addQuestion_ok in fastforce)+

section \<open>Properties\<close>

text \<open>C28: Whatever is done in the editor of a quiz, the draft stays well-formed - a choice has at least two options, a true-or-false
  question a truth value as its answer, other questions no options, and there is a question - and every question saved with
  an identifier is one that the quiz had, at most once.\<close>

theorem quiz_draft_wellformed:
  assumes "formOk f"
  shows "formOk (fold applyForm edits f) \<and> set (formIds (fold applyForm edits f)) \<subseteq> set (formIds f)"
  using assms
proof (induction edits arbitrary: f)
  case (Cons e edits)
  then show ?case using applyForm_ok [OF Cons.prems, of e] Cons.IH [of "applyForm e f"] by auto
qed simp

theorem quiz_draft_wellformed_witness:
  "formOk (fold applyForm [AddQuestion, EditQuestion 1 (ChangeKind TrueFalse), MoveUp 1, RemoveQuestion 1, EditQuestion 0 (ChooseTruth (js ''false''))] blankForm) \<and>
   map qi_answer (qf_questions (fold applyForm [AddQuestion, EditQuestion 1 (ChangeKind TrueFalse), MoveUp 1, RemoveQuestion 1,
     EditQuestion 0 (ChooseTruth (js ''false''))] blankForm)) = [JBool False]"
proof -
  have b: "formOk blankForm" by (simp add: formOk_def blankForm_def blankQuestion_ok formIds_def List.map_filter_simps) (simp add: blankQuestion_def)
  have "map qi_answer (qf_questions (fold applyForm [AddQuestion, EditQuestion 1 (ChangeKind TrueFalse), MoveUp 1, RemoveQuestion 1,
     EditQuestion 0 (ChooseTruth (js ''false''))] blankForm)) = [JBool False]" by code_simp
  then show ?thesis using quiz_draft_wellformed [OF b] by blast
qed

text \<open>Opening a draft and saving it as it is sends what it had, to the quiz that was opened; but the classroom is the one that is shown by
  then, so the picker above the editor moves the draft.\<close>

lemma toNumber_limit: "0 \<le> n \<Longrightarrow> n \<le> 180 \<Longrightarrow> toNumber (showInt n) = Fin (of_int n)"
proof -
  have "list_all (\<lambda>n. toNumber (showInt n) = Fin (of_int n)) [0..180]" by code_simp
  then show "0 \<le> n \<Longrightarrow> n \<le> 180 \<Longrightarrow> toNumber (showInt n) = Fin (of_int n)" by (simp add: list_all_iff)
qed

theorem edit_save_roundtrip:
  assumes "\<And>n. quiz_limit q = Some n \<Longrightarrow> 0 \<le> n \<and> n \<le> 180"
  shows "saveQuizCall ((editQuiz (Some q) s)\<lparr>qm_classroom := c\<rparr>) = UpdateQuiz (quiz_id q)
    (JObj [(js ''classroom_id'', JStr c), (js ''title'', JStr (quiz_title q)), (js ''instructions'', JStr (quiz_instructions q)),
      (js ''time_limit_minutes'', case quiz_limit q of Some n \<Rightarrow> JNum (of_int n) | None \<Rightarrow> JNull),
      (js ''questions'', JArr (map questionJson (quiz_questions q)))])"
proof -
  have "showInt n \<noteq> []" if "0 \<le> n" for n using that by (simp add: showInt_def)
  then show ?thesis using assms toNumber_limit
    by (auto simp: saveQuizCall_def editQuiz_def quizInput_def jsonNumber_def split: option.splits)
qed

theorem edit_save_roundtrip_witness:
  "saveQuizCall ((editQuiz (Some \<lparr>quiz_id = js ''q'', quiz_classroom_id = js ''a'', quiz_title = [], quiz_instructions = [], quiz_limit = Some 20,
     quiz_published = None, quiz_questions = []\<rparr>) s)\<lparr>qm_classroom := js ''b''\<rparr>) = UpdateQuiz (js ''q'')
     (JObj [(js ''classroom_id'', JStr (js ''b'')), (js ''title'', JStr []), (js ''instructions'', JStr []), (js ''time_limit_minutes'', JNum 20),
       (js ''questions'', JArr [])])"
  using edit_save_roundtrip [where q = "\<lparr>quiz_id = js ''q'', quiz_classroom_id = js ''a'', quiz_title = [], quiz_instructions = [], quiz_limit = Some 20,
     quiz_published = None, quiz_questions = []\<rparr>" and c = "js ''b''"] by simp

text \<open>Cancelling both prompts grades the answer with no points and keeps the feedback; only a text that is no number grades nothing.\<close>

theorem cancelled_prompt_grades_zero:
  "gradeCalls a q None None existing = [GradeQuizResponse a q 0 existing] \<and>
   gradeCalls a q (Some t) fb existing = (case toNumber t of Fin p \<Rightarrow> [GradeQuizResponse a q p (case fb of Some f \<Rightarrow> f | None \<Rightarrow> existing)] | _ \<Rightarrow> [])"
  by (simp add: gradeCalls_def gradePrompt_def split: jsnum.splits)

definition slowRefresh :: "(jsstring \<Rightarrow> rat) \<Rightarrow> (jsstring + live_details option) \<times> rat \<Rightarrow> live_controls \<Rightarrow> live_controls" where
  "slowRefresh dateParse a s =
     refreshAnswer dateParse \<lparr>rf_generation = lc_generation s, rf_answer = fst a, rf_now = snd a\<rparr> (refreshStart s)"

text \<open>The live classroom shows only the answer to its latest refresh, and a refresh begins every five seconds: when every answer takes
  longer than that, each arrives after the next refresh has begun, and what is shown never changes, however long this goes on.\<close>

theorem slow_refreshes_never_show:
  "lc_details (fold (slowRefresh dateParse) answers s) = lc_details s \<and> lc_generation (fold (slowRefresh dateParse) answers s) = lc_generation s + length answers"
proof (induction answers arbitrary: s)
  case (Cons a answers)
  have "lc_details (slowRefresh dateParse a s) = lc_details s" "lc_generation (slowRefresh dateParse a s) = lc_generation s + 1"
    using lr.stale_finish [of "\<lparr>rf_generation = lc_generation s, rf_answer = fst a, rf_now = snd a\<rparr>" "refreshStart s" dateParse]
    by (simp_all add: slowRefresh_def refreshStart_def)
  then show ?case using Cons.IH [of "slowRefresh dateParse a s"] by simp
qed simp

end
