(* ===== verification/Document_History.thy ===== *)
theory Document_History
  imports Forge_Data Paper_Logic
begin

text \<open>
  The document editor of the student's studio (\<open>apps/forge/src/studio/DocumentEditor.tsx\<close>): page settings and the history
  of versions, which are stored beside the document; saving, restoring and importing; and searching and replacing.

  The rich text editor (Quill) is seen through its HTML and, for the search, through its content: a list of characters and of
  embedded objects (images, equations, page breaks), each of which takes one place but has no text. The sanitizer
  and what the editor makes of pasted HTML are parameters. The draft is an object that every update replaces; its
  identity is a counter. Settings of a version are those that the app itself stored.
\<close>

section \<open>Settings and versions\<close>

datatype paper_size = A4Paper | LetterPaper

record doc_settings =
  ds_paper :: paper_size
  ds_landscape :: bool
  ds_margin :: rat
  ds_continuous :: bool
  ds_spacing :: jsstring
  ds_header :: jsstring
  ds_footer :: jsstring

record doc_draft =
  dd_title :: jsstring
  dd_topic :: jsstring
  dd_html :: jsstring

record doc_version =
  dv_draft :: doc_draft
  dv_savedAt :: jsstring
  dv_settings :: "doc_settings option"

record doc_extras =
  dx_settings :: doc_settings
  dx_versions :: "doc_version list"
  dx_loadError :: bool

definition defaultSettings :: doc_settings where
  "defaultSettings = \<lparr>ds_paper = A4Paper, ds_landscape = False, ds_margin = 20, ds_continuous = False, ds_spacing = js ''1.5'', ds_header = [], ds_footer = []\<rparr>"

definition MARGINS :: "rat list" where
  "MARGINS = [12, 20, 25]"

definition SPACINGS :: "jsstring list" where
  "SPACINGS = [js ''1'', js ''1.15'', js ''1.5'', js ''2'']"

definition stringOr :: "json option \<Rightarrow> jsstring" where
  "stringOr v = (case v of Some (JStr t) \<Rightarrow> t | _ \<Rightarrow> [])"

definition readSettings :: "json \<Rightarrow> doc_settings" where
  "readSettings s =
     \<lparr>ds_paper = (if field s ''paper'' = Some (JStr (js ''Letter'')) then LetterPaper else A4Paper),
      ds_landscape = (field s ''landscape'' = Some (JBool True)),
      ds_margin = (case field s ''margin'' of Some (JNum m) \<Rightarrow> if m \<in> set MARGINS then m else 20 | _ \<Rightarrow> 20),
      ds_continuous = (field s ''continuous'' = Some (JBool True)),
      ds_spacing = (case field s ''spacing'' of Some (JStr t) \<Rightarrow> if t \<in> set SPACINGS then t else js ''1.5'' | _ \<Rightarrow> js ''1.5''),
      ds_header = stringOr (field s ''header''), ds_footer = stringOr (field s ''footer'')\<rparr>"

definition readVersion :: "json \<Rightarrow> doc_version option" where
  "readVersion v = (case (strField v ''bodyHtml'', strField v ''title'', strField v ''topic'', strField v ''savedAt'') of
      (Some b, Some t, Some p, Some a) \<Rightarrow>
        Some \<lparr>dv_draft = \<lparr>dd_title = t, dd_topic = p, dd_html = b\<rparr>, dv_savedAt = a,
          dv_settings = (case field v ''settings'' of Some s \<Rightarrow> if truthyJson s then Some (readSettings s) else None | None \<Rightarrow> None)\<rparr>
    | _ \<Rightarrow> None)"

text \<open>\<open>readExtras\<close>: a record that cannot be parsed is remembered as such.\<close>

definition extrasKey :: "jsstring \<Rightarrow> jsstring \<Rightarrow> jsstring" where
  "extrasKey accountId i = documentKeyPrefix accountId @ i"

definition readExtras :: "json_parser \<Rightarrow> jsstring \<Rightarrow> jsstring \<Rightarrow> local_storage \<Rightarrow> doc_extras" where
  "readExtras parse accountId i st =
     (case parse (case getItem st (extrasKey accountId i) of Some (c # t) \<Rightarrow> c # t | _ \<Rightarrow> js ''null'') of
        Inl _ \<Rightarrow> \<lparr>dx_settings = defaultSettings, dx_versions = [], dx_loadError = True\<rparr>
      | Inr raw \<Rightarrow>
          if \<not> truthyJson raw then \<lparr>dx_settings = defaultSettings, dx_versions = [], dx_loadError = False\<rparr>
          else \<lparr>dx_settings = readSettings (case field raw ''settings'' of Some s \<Rightarrow> s | None \<Rightarrow> JObj []),
                dx_versions = (case field raw ''versions'' of Some (JArr vs) \<Rightarrow> take 10 (List.map_filter readVersion vs) | _ \<Rightarrow> []),
                dx_loadError = False\<rparr>)"

definition settingsJson :: "doc_settings \<Rightarrow> json" where
  "settingsJson s = JObj [(js ''paper'', JStr (case ds_paper s of A4Paper \<Rightarrow> js ''A4'' | LetterPaper \<Rightarrow> js ''Letter'')), (js ''landscape'', JBool (ds_landscape s)),
     (js ''margin'', JNum (ds_margin s)), (js ''continuous'', JBool (ds_continuous s)), (js ''spacing'', JStr (ds_spacing s)),
     (js ''header'', JStr (ds_header s)), (js ''footer'', JStr (ds_footer s))]"

definition versionJson :: "doc_version \<Rightarrow> json" where
  "versionJson v = JObj ([(js ''title'', JStr (dd_title (dv_draft v))), (js ''topic'', JStr (dd_topic (dv_draft v))),
     (js ''bodyHtml'', JStr (dd_html (dv_draft v))), (js ''savedAt'', JStr (dv_savedAt v))] @
     (case dv_settings v of Some s \<Rightarrow> [(js ''settings'', settingsJson s)] | None \<Rightarrow> []))"

definition extrasJson :: "doc_extras \<Rightarrow> json" where
  "extrasJson e = JObj [(js ''settings'', settingsJson (dx_settings e)), (js ''versions'', JArr (map versionJson (dx_versions e)))]"

section \<open>The editor\<close>

text \<open>The state with the storage of the device, what was handed to the workspace (\<open>onUpdate\<close>), the place of the record, and the
  imports whose file is being opened, each with the revision of the draft it began with.\<close>

record doc_editor =
  de_key :: jsstring
  de_draft :: doc_draft
  de_revision :: nat
  de_extras :: doc_extras
  de_message :: jsstring
  de_store :: local_storage
  de_updates :: "doc_draft list"
  de_opening :: "nat list"

definition openEditor :: "json_parser \<Rightarrow> jsstring \<Rightarrow> jsstring \<Rightarrow> doc_draft \<Rightarrow> local_storage \<Rightarrow> doc_editor" where
  "openEditor parse accountId i d st =
     (let e = readExtras parse accountId i st in
      \<lparr>de_key = extrasKey accountId i, de_draft = d, de_revision = 0, de_extras = e,
       de_message = (if dx_loadError e then js ''Saved page settings or version history could not be read. The original record has been preserved.'' else []),
       de_store = st, de_updates = [], de_opening = []\<rparr>)"

definition updateDraft :: "doc_draft \<Rightarrow> doc_editor \<Rightarrow> doc_editor" where
  "updateDraft d s = s\<lparr>de_draft := d, de_revision := de_revision s + 1, de_updates := d # de_updates s\<rparr>"

text \<open>\<open>saveExtras\<close>: whether the storage accepts the write is an argument.\<close>

definition saveExtras :: "(json \<Rightarrow> jsstring) \<Rightarrow> bool \<Rightarrow> doc_extras \<Rightarrow> doc_editor \<Rightarrow> bool \<times> doc_editor" where
  "saveExtras stringify w next s =
     (if dx_loadError (de_extras s)
      then (False, s\<lparr>de_message := js ''Page settings and history are locked because their saved record could not be read. Export this document before repairing its local data.''\<rparr>)
      else if w then (True, s\<lparr>de_store := setItem (de_key s) (stringify (extrasJson next)) (de_store s), de_extras := next\<rparr>)
      else (False, s\<lparr>de_message := js ''Document settings or history could not be saved. Export your document before closing.''\<rparr>))"

definition configure :: "(json \<Rightarrow> jsstring) \<Rightarrow> bool \<Rightarrow> doc_settings \<Rightarrow> doc_editor \<Rightarrow> doc_editor" where
  "configure stringify w st s = snd (saveExtras stringify w ((de_extras s)\<lparr>dx_settings := st\<rparr>) s)"

definition versionOf :: "jsstring \<Rightarrow> doc_editor \<Rightarrow> doc_version" where
  "versionOf nowText s = \<lparr>dv_draft = de_draft s, dv_savedAt = nowText, dv_settings = Some (dx_settings (de_extras s))\<rparr>"

definition snapshot :: "(json \<Rightarrow> jsstring) \<Rightarrow> bool \<Rightarrow> jsstring \<Rightarrow> doc_editor \<Rightarrow> bool \<times> doc_editor" where
  "snapshot stringify w nowText s =
     (let (saved, s) = saveExtras stringify w ((de_extras s)\<lparr>dx_versions := take 10 (versionOf nowText s # dx_versions (de_extras s))\<rparr>) s in
      (saved, if saved then s\<lparr>de_message := js ''Version saved on this device. The most recent 10 versions are kept.''\<rparr> else s))"

text \<open>\<open>pasted\<close> is the editor's HTML after the sanitized HTML was pasted, if there is an editor.\<close>

definition restoreVersion :: "(json \<Rightarrow> jsstring) \<Rightarrow> bool \<Rightarrow> jsstring \<Rightarrow> (jsstring \<Rightarrow> jsstring option) \<Rightarrow> doc_version \<Rightarrow> doc_editor \<Rightarrow> doc_editor" where
  "restoreVersion stringify w nowText pasted v s =
     (let (saved, s') = saveExtras stringify w
            \<lparr>dx_settings = (case dv_settings v of Some st \<Rightarrow> st | None \<Rightarrow> defaultSettings),
             dx_versions = take 10 (versionOf nowText s # dx_versions (de_extras s)), dx_loadError = False\<rparr> s
      in if \<not> saved then s'
         else (updateDraft ((dv_draft v)\<lparr>dd_html := (case pasted (dd_html (dv_draft v)) of Some (c # t) \<Rightarrow> c # t | _ \<Rightarrow> dd_html (dv_draft v))\<rparr>) s')
           \<lparr>de_message := js ''Version restored. Your previous draft is in history.''\<rparr>)"

section \<open>Importing a file\<close>

definition docxRx :: rx where "docxRx = Seq (liti ''.docx'') Eol"
definition txtRx :: rx where "txtRx = Seq (liti ''.txt'') Eol"
definition extensionRx :: rx where "extensionRx = seqs [chr 46, Plus (Cls (\<lambda>c. c \<noteq> 46)), Eol]"

text \<open>The serialisation of a text node, and the paragraphs made of its lines.\<close>

definition textInner :: "jsstring \<Rightarrow> jsstring" where
  "textInner t = concat (map (\<lambda>c. if c = 38 then js ''&amp;'' else if c = 60 then js ''&lt;'' else if c = 62 then js ''&gt;''
     else if c = 160 then js ''&nbsp;'' else [c]) t)"

definition textHtml :: "jsstring \<Rightarrow> jsstring" where
  "textHtml t = js ''<p>'' @ concat (map (\<lambda>c. if c = 10 then js ''</p><p>'' else [c]) (textInner t)) @ js ''</p>''"

text \<open>Up to the reading of the file: the revision of the draft the function began with waits in \<open>de_opening\<close>.\<close>

definition importStart :: "(json \<Rightarrow> jsstring) \<Rightarrow> bool \<Rightarrow> jsstring \<Rightarrow> int \<Rightarrow> doc_editor \<Rightarrow> nat option \<times> doc_editor" where
  "importStart stringify w nowText fileSize s =
     (if fileSize > 10 * 1024 * 1024 then (None, s\<lparr>de_message := js ''Choose a document smaller than 10 MB.''\<rparr>)
      else (let (saved, s') = snapshot stringify w nowText s
            in if saved then (Some (de_revision s), s'\<lparr>de_opening := de_opening s' @ [de_revision s]\<rparr>) else (None, s')))"

text \<open>\<open>word\<close> is the sanitized HTML of a Word file, \<open>text\<close> the text of the file (\<open>None\<close>: it cannot be read), \<open>pasted\<close> the
  editor's HTML afterwards.\<close>

definition importFinish :: "nat \<Rightarrow> jsstring \<Rightarrow> jsstring option \<Rightarrow> jsstring option \<Rightarrow> (jsstring \<Rightarrow> jsstring) \<Rightarrow> doc_editor \<Rightarrow> doc_editor" where
  "importFinish rev0 name word text pasted s =
     (let failed = s\<lparr>de_message := js ''Could not import this document. Your previous draft is in history.''\<rparr>;
          opened = (\<lambda>html.
            if de_revision s \<noteq> rev0
            then s\<lparr>de_message := js ''Import cancelled because this draft changed while the file was opening. Your writing has been kept.''\<rparr>
            else (updateDraft ((de_draft s)\<lparr>dd_title := replaceFirst extensionRx (\<lambda>_. []) name, dd_html := pasted html\<rparr>) s)
              \<lparr>de_message := js ''Imported. Check the layout: advanced Word features may not transfer. Previous draft saved in history.''\<rparr>)
      in if rtest docxRx name then (case word of Some html \<Rightarrow> opened html | None \<Rightarrow> failed)
         else if rtest txtRx name then (case text of Some t \<Rightarrow> opened (textHtml t) | None \<Rightarrow> failed)
         else s\<lparr>de_message := js ''Choose a .docx or .txt file.''\<rparr>)"

section \<open>Search and replace\<close>

datatype quill_item = Chr int | Embed

record doc_search =
  sq_content :: "quill_item list"
  sq_range :: "(nat \<times> nat) option"
  sq_from :: nat
  sq_message :: jsstring

text \<open>\<open>getText\<close>: what is embedded is left out.\<close>

definition getText :: "quill_item list \<Rightarrow> jsstring" where
  "getText content = List.map_filter (\<lambda>x. case x of Chr c \<Rightarrow> Some c | Embed \<Rightarrow> None) content"

definition textAt :: "nat \<Rightarrow> nat \<Rightarrow> quill_item list \<Rightarrow> jsstring" where
  "textAt i n content = getText (take n (drop i content))"

text \<open>\<open>text.indexOf(pattern, from)\<close>.\<close>

definition indexFrom :: "jsstring \<Rightarrow> nat \<Rightarrow> jsstring \<Rightarrow> nat option" where
  "indexFrom p k text = List.find (\<lambda>i. startsWith (drop i text) p) [k..<Suc (length text)]"

text \<open>The editor leaves its caret before what it inserts.\<close>

definition replaceSelected :: "(jsstring \<Rightarrow> jsstring) \<Rightarrow> jsstring \<Rightarrow> jsstring \<Rightarrow> doc_search \<Rightarrow> doc_search" where
  "replaceSelected lower needle replacement s = (case sq_range s of
      Some (i, n) \<Rightarrow>
        if lower (textAt i n (sq_content s)) = lower needle
        then s\<lparr>sq_content := take i (sq_content s) @ map Chr replacement @ drop (i + n) (sq_content s), sq_range := Some (i, 0), sq_from := i + length replacement\<rparr>
        else s
    | None \<Rightarrow> s)"

definition findNext :: "(jsstring \<Rightarrow> jsstring) \<Rightarrow> jsstring \<Rightarrow> jsstring \<Rightarrow> bool \<Rightarrow> doc_search \<Rightarrow> doc_search" where
  "findNext lower needle replacement replacing s =
     (if needle = [] then s
      else (let s = (if replacing then replaceSelected lower needle replacement s else s);
                text = lower (getText (sq_content s))
            in case (case indexFrom (lower needle) (sq_from s) text of Some i \<Rightarrow> Some i | None \<Rightarrow> indexFrom (lower needle) 0 text) of
                 None \<Rightarrow> s\<lparr>sq_message := js ''No matches found.''\<rparr>
               | Some i \<Rightarrow> s\<lparr>sq_range := Some (i, length needle), sq_from := i + length needle, sq_message := js ''Match selected in the document.''\<rparr>))"

section \<open>Pages\<close>

text \<open>The size of the paper in millimetres.\<close>

definition pageWidth :: "doc_settings \<Rightarrow> rat" where
  "pageWidth s = (case ds_paper s of A4Paper \<Rightarrow> if ds_landscape s then 297 else 210 | LetterPaper \<Rightarrow> if ds_landscape s then 2794 / 10 else 2159 / 10)"

definition pageHeight :: "doc_settings \<Rightarrow> rat" where
  "pageHeight s = (case ds_paper s of A4Paper \<Rightarrow> if ds_landscape s then 210 else 297 | LetterPaper \<Rightarrow> if ds_landscape s then 2159 / 10 else 2794 / 10)"

section \<open>Operations in sequence\<close>

datatype doc_op =
    Typed doc_draft
  | Configured bool doc_settings
  | Snapshot bool jsstring
  | Restored bool jsstring "jsstring \<Rightarrow> jsstring option" doc_version
  | ImportStarted bool jsstring int
  | ImportFinished nat jsstring "jsstring option" "jsstring option" "jsstring \<Rightarrow> jsstring"

fun applyDoc :: "(json \<Rightarrow> jsstring) \<Rightarrow> doc_op \<Rightarrow> doc_editor \<Rightarrow> doc_editor" where
  "applyDoc stringify (Typed d) s = updateDraft d s"
| "applyDoc stringify (Configured w st) s = configure stringify w st s"
| "applyDoc stringify (Snapshot w nowText) s = snd (snapshot stringify w nowText s)"
| "applyDoc stringify (Restored w nowText pasted v) s = restoreVersion stringify w nowText pasted v s"
| "applyDoc stringify (ImportStarted w nowText fileSize) s = snd (importStart stringify w nowText fileSize s)"
| "applyDoc stringify (ImportFinished k name word text pasted) s =
     (if k < length (de_opening s)
      then importFinish (de_opening s ! k) name word text pasted (s\<lparr>de_opening := take k (de_opening s) @ drop (Suc k) (de_opening s)\<rparr>)
      else s)"

definition typedDrafts :: "doc_op list \<Rightarrow> doc_draft list" where
  "typedDrafts ops = List.map_filter (\<lambda>op. case op of Typed d \<Rightarrow> Some d | _ \<Rightarrow> None) ops"

lemma saveExtras_locked:
  "dx_loadError (de_extras s) \<Longrightarrow> saveExtras stringify w e s =
    (False, s\<lparr>de_message := js ''Page settings and history are locked because their saved record could not be read. Export this document before repairing its local data.''\<rparr>)"
  by (simp add: saveExtras_def)

lemma applyDoc_locked:
  assumes "dx_loadError (de_extras s)" "de_opening s = []"
  shows "de_store (applyDoc stringify op s) = de_store s \<and> de_extras (applyDoc stringify op s) = de_extras s \<and>
    de_opening (applyDoc stringify op s) = [] \<and> de_updates (applyDoc stringify op s) = rev (typedDrafts [op]) @ de_updates s"
  by (cases op) (simp_all add: assms saveExtras_locked typedDrafts_def List.map_filter_simps updateDraft_def configure_def snapshot_def
      restoreVersion_def importStart_def)

lemma typedDrafts_Cons: "typedDrafts (op # ops) = typedDrafts [op] @ typedDrafts ops"
  by (simp add: typedDrafts_def List.map_filter_def)

section \<open>Reading back\<close>

definition settingsValid :: "doc_settings \<Rightarrow> bool" where
  "settingsValid s \<longleftrightarrow> ds_margin s \<in> set MARGINS \<and> ds_spacing s \<in> set SPACINGS"

lemma js_keys:
  "js ''paper'' \<noteq> js ''landscape''" "js ''A4'' \<noteq> js ''Letter''"
  by code_simp+

lemma readSettings_settingsJson: "settingsValid s \<Longrightarrow> readSettings (settingsJson s) = s"
  by (cases "ds_paper s") (auto simp: readSettings_def settingsJson_def settingsValid_def stringOr_def js_def)

lemma truthy_settings: "truthyJson (settingsJson s)"
  by (simp add: settingsJson_def)

lemma versionJson_fields:
  "strField (versionJson v) ''bodyHtml'' = Some (dd_html (dv_draft v))" "strField (versionJson v) ''title'' = Some (dd_title (dv_draft v))"
  "strField (versionJson v) ''topic'' = Some (dd_topic (dv_draft v))" "strField (versionJson v) ''savedAt'' = Some (dv_savedAt v)"
  "field (versionJson v) ''settings'' = map_option settingsJson (dv_settings v)"
  by (auto simp: strField_def versionJson_def js_def split: option.splits)

lemma readVersion_versionJson:
  assumes "case dv_settings v of Some st \<Rightarrow> settingsValid st | None \<Rightarrow> True"
  shows "readVersion (versionJson v) = Some v"
  using assms readSettings_settingsJson truthy_settings
  by (cases "dv_settings v") (simp_all add: readVersion_def versionJson_fields)

section \<open>Searching\<close>

lemma getText_chars: "List.list_all (\<lambda>x. x \<noteq> Embed) content \<Longrightarrow> length (getText content) = length content"
  by (induction content) (auto simp: getText_def List.map_filter_simps split: quill_item.splits)

lemma getText_take_drop:
  "list_all (\<lambda>x. x \<noteq> Embed) content \<Longrightarrow> textAt i n content = take n (drop i (getText content))"
proof -
  assume a: "list_all (\<lambda>x. x \<noteq> Embed) content"
  define f where "f = (\<lambda>x. case x of Chr c \<Rightarrow> c | Embed \<Rightarrow> 0)"
  have m: "getText xs = map f xs" if "list_all (\<lambda>x. x \<noteq> Embed) xs" for xs
    using that by (induction xs) (auto simp: getText_def f_def List.map_filter_simps split: quill_item.splits)
  have "list_all (\<lambda>x. x \<noteq> Embed) (take n (drop i content))"
    using a by (auto simp: list_all_iff dest: in_set_takeD in_set_dropD)
  then show ?thesis using m [OF a] m by (simp add: textAt_def take_map drop_map)
qed

lemma indexFrom_Some: "indexFrom p k text = Some i \<Longrightarrow> k \<le> i \<and> take (length p) (drop i text) = p \<and> i + length p \<le> length text \<or> p = []"
proof -
  assume a: "indexFrom p k text = Some i"
  then have i: "i \<in> set [k..<Suc (length text)]" "startsWith (drop i text) p"
    using set_find_SomeD unfolding indexFrom_def by fast+
  then obtain r where "drop i text = p @ r" by (auto simp: startsWith_iff_prefix prefix_def)
  then show ?thesis using i(1) by (cases "p = []") (auto dest: arg_cong [of _ _ length])
qed

section \<open>Properties\<close>

text \<open>C20: A record of settings and versions that cannot be read is never overwritten: whatever is typed, configured, saved, restored or
  imported, the storage stays as it was, and the draft changes only by what is typed.\<close>

theorem unreadable_history_preserved:
  assumes "readExtras parse accountId i st = e" "dx_loadError e"
  shows "de_store (fold (applyDoc stringify) ops (openEditor parse accountId i d st)) = st \<and>
    de_updates (fold (applyDoc stringify) ops (openEditor parse accountId i d st)) = rev (typedDrafts ops)"
proof -
  have f: "de_store (fold (applyDoc stringify) ops s) = de_store s \<and> de_updates (fold (applyDoc stringify) ops s) = rev (typedDrafts ops) @ de_updates s"
    if "dx_loadError (de_extras s)" "de_opening s = []" for s
    using that
  proof (induction ops arbitrary: s)
    case Nil
    then show ?case by (simp add: typedDrafts_def List.map_filter_simps)
  next
    case (Cons op ops)
    then show ?case using applyDoc_locked [OF Cons.prems, of stringify op] typedDrafts_Cons [of op ops] by simp
  qed
  show ?thesis using f [of "openEditor parse accountId i d st"] assms(1,2) by (simp add: openEditor_def Let_def)
qed

text \<open>What replaces a draft keeps it: when a version is restored, the history holds the draft that was there first, at the head and in
  the storage, and at most ten versions.\<close>

theorem replaced_draft_is_kept:
  assumes "restoreVersion stringify w nowText pasted v s = s'" "de_draft s' \<noteq> de_draft s"
  shows "map dv_draft (take 1 (dx_versions (de_extras s'))) = [de_draft s] \<and> length (dx_versions (de_extras s')) \<le> 10 \<and>
    getItem (de_store s') (de_key s) = Some (stringify (extrasJson (de_extras s')))"
  using assms by (auto simp: restoreVersion_def saveExtras_def updateDraft_def versionOf_def split: if_splits)

lemma importFinish_revision:
  "de_revision s \<le> de_revision (importFinish r name word text pasted s) \<and>
    (de_revision (importFinish r name word text pasted s) = de_revision s \<longrightarrow> de_draft (importFinish r name word text pasted s) = de_draft s)"
  by (auto simp: importFinish_def updateDraft_def Let_def split: option.splits)

lemma revision_grows: "de_revision s \<le> de_revision (applyDoc stringify op s) \<and>
    (de_revision (applyDoc stringify op s) = de_revision s \<longrightarrow> de_draft (applyDoc stringify op s) = de_draft s)"
proof (cases op)
  case (ImportFinished k name word plain pasted)
  then show ?thesis
    using importFinish_revision [of "s\<lparr>de_opening := take k (de_opening s) @ drop (Suc k) (de_opening s)\<rparr>" "de_opening s ! k" name word plain pasted]
    by simp
qed (simp_all add: updateDraft_def configure_def snapshot_def restoreVersion_def importStart_def saveExtras_def)

lemma revision_same:
  "de_revision s \<le> de_revision (fold (applyDoc stringify) ops s) \<and>
    (de_revision (fold (applyDoc stringify) ops s) = de_revision s \<longrightarrow> de_draft (fold (applyDoc stringify) ops s) = de_draft s)"
proof (induction ops arbitrary: s)
  case (Cons op ops)
  show ?case
    using Cons.IH [of "applyDoc stringify op s"] revision_grows [of s stringify op] by simp
qed simp

text \<open>An import replaces only a draft that was saved: when the file that was opened replaces the draft, then that draft is the one the
  import began with, whatever was done meanwhile, and it is the newest version of the history that was stored at the beginning.\<close>

theorem import_replaces_only_saved_draft:
  assumes "importStart stringify w nowText fileSize s = (Some rev0, s1)" "fold (applyDoc stringify) ops s1 = s2"
    "de_draft (importFinish rev0 name word plain pasted s2) \<noteq> de_draft s2"
  shows "de_draft s2 = de_draft s \<and> map dv_draft (take 1 (dx_versions (de_extras s1))) = [de_draft s] \<and>
    getItem (de_store s1) (de_key s) = Some (stringify (extrasJson (de_extras s1)))"
proof -
  have s1: "rev0 = de_revision s" "de_revision s1 = de_revision s" "de_draft s1 = de_draft s"
    "map dv_draft (take 1 (dx_versions (de_extras s1))) = [de_draft s]"
    "getItem (de_store s1) (de_key s) = Some (stringify (extrasJson (de_extras s1)))"
    using assms(1) by (auto simp: importStart_def snapshot_def saveExtras_def versionOf_def split: if_splits prod.splits)
  have "de_revision s2 = rev0" using assms(3) by (auto simp: importFinish_def Let_def split: if_splits option.splits)
  then show ?thesis using revision_same [of s1 stringify ops] assms(2) s1 by auto
qed

text \<open>What was saved is read back: the settings and versions that the editor stores are those it opens with the next time.\<close>

theorem history_roundtrip:
  assumes "parse (stringify (extrasJson e)) = Inr (extrasJson e)" "stringify (extrasJson e) \<noteq> []" "settingsValid (dx_settings e)"
    "list_all (\<lambda>v. case dv_settings v of Some st \<Rightarrow> settingsValid st | None \<Rightarrow> True) (dx_versions e)" "length (dx_versions e) \<le> 10" "\<not> dx_loadError e"
    "saveExtras stringify True e s = (True, s')" "de_key s = extrasKey accountId i"
  shows "readExtras parse accountId i (de_store s') = e"
proof -
  obtain c t where st: "stringify (extrasJson e) = c # t" using assms(2) by (cases "stringify (extrasJson e)") auto
  have g: "getItem (de_store s') (extrasKey accountId i) = Some (c # t)"
    using assms(7,8) st by (auto simp: saveExtras_def split: if_splits)
  have v: "List.map_filter readVersion (map versionJson vs) = vs"
    if "list_all (\<lambda>v. case dv_settings v of Some st \<Rightarrow> settingsValid st | None \<Rightarrow> True) vs" for vs
    using that readVersion_versionJson by (induction vs) (auto simp: List.map_filter_simps)
  have f: "field (extrasJson e) ''settings'' = Some (settingsJson (dx_settings e))" "field (extrasJson e) ''versions'' = Some (JArr (map versionJson (dx_versions e)))"
    "truthyJson (extrasJson e)"
    by (simp_all add: extrasJson_def js_def)
  show ?thesis
    unfolding readExtras_def using g assms(1,3,5,6) st f v [OF assms(4)] readSettings_settingsJson by simp
qed

text \<open>Where a document holds nothing embedded, a search selects a real occurrence, and replacing it puts the replacement exactly in its
  place; in general the position counts only characters, so each image, equation or page break before the match shifts the
  selection.\<close>

theorem search_selects_match:
  assumes "\<And>u. lower u = map f u" "list_all (\<lambda>x. x \<noteq> Embed) (sq_content s)" "needle \<noteq> []"
    "findNext lower needle r False s = s'" "sq_message s' = js ''Match selected in the document.''"
  shows "case sq_range s' of
      Some (i, n) \<Rightarrow> lower (textAt i n (sq_content s')) = lower needle \<and>
        getText (sq_content (replaceSelected lower needle r s')) = take i (getText (sq_content s')) @ r @ drop (i + n) (getText (sq_content s'))
    | None \<Rightarrow> False"
proof -
  let ?text = "getText (sq_content s)"
  have ne: "js ''No matches found.'' \<noteq> js ''Match selected in the document.''" by code_simp
  have "\<exists>i. sq_range s' = Some (i, length needle) \<and> sq_content s' = sq_content s \<and> (\<exists>k. indexFrom (lower needle) k (lower ?text) = Some i)"
  proof (cases "indexFrom (lower needle) (sq_from s) (lower ?text)")
    case None
    then show ?thesis using assms(3-5) ne
      by (cases "indexFrom (lower needle) 0 (lower ?text)") (auto simp: findNext_def)
  next
    case (Some i)
    then show ?thesis using assms(3,4) by (auto simp: findNext_def)
  qed
  then obtain i where i: "sq_range s' = Some (i, length needle)" "sq_content s' = sq_content s" "\<exists>k. indexFrom (lower needle) k (lower ?text) = Some i"
    by blast
  have "lower needle \<noteq> []" using assms(1,3) by simp
  then have m: "take (length needle) (drop i (lower ?text)) = lower needle" using i(3) indexFrom_Some assms(1) by fastforce
  have t: "lower (textAt i (length needle) (sq_content s)) = lower needle"
    using m getText_take_drop [OF assms(2)] assms(1) by (simp add: take_map drop_map)
  have app: "getText (xs @ ys) = getText xs @ getText ys" for xs ys by (simp add: getText_def List.map_filter_def)
  have "getText (map Chr r) = r" by (induction r) (simp_all add: getText_def List.map_filter_simps)
  moreover have "getText (take i (sq_content s)) = take i ?text" using getText_take_drop [OF assms(2), of 0 i] by (simp add: textAt_def)
  moreover have "getText (drop (i + length needle) (sq_content s)) = drop (i + length needle) ?text"
    using getText_take_drop [OF assms(2), of "i + length needle" "length (sq_content s)"] getText_chars [OF assms(2)] by (simp add: textAt_def)
  ultimately show ?thesis using i(1,2) t by (simp add: replaceSelected_def app)
qed

text \<open>An image before the match makes the search select the wrong range: in a document that holds an image followed by the words looked
  for, the selection starts at the image and misses the last character, and replacing the match changes nothing.\<close>

theorem search_misses_after_image:
  "case findNext (map f) (c # cs) r False \<lparr>sq_content = Embed # map Chr (c # cs), sq_range = None, sq_from = 0, sq_message = []\<rparr> of
    s \<Rightarrow> sq_range s = Some (0, Suc (length cs)) \<and> textAt 0 (Suc (length cs)) (sq_content s) = butlast (c # cs) \<and>
      replaceSelected (map f) (c # cs) r s = s"
proof -
  have m: "getText (map Chr xs) = xs" for xs by (induction xs) (simp_all add: getText_def List.map_filter_simps)
  have g: "getText (Embed # xs) = getText xs" for xs by (simp add: getText_def List.map_filter_simps)
  have i: "indexFrom (map f (c # cs)) 0 (map f (c # cs)) = Some 0"
    by (simp add: indexFrom_def upt_rec [of 0] startsWith_iff_prefix del: upt_Suc list.map)
  have t: "textAt 0 (Suc (length cs)) (Embed # map Chr (c # cs)) = butlast (c # cs)"
    using m [of "take (length cs) (c # cs)"] by (simp add: textAt_def g take_map [symmetric] butlast_conv_take del: list.map flip: list.map(2))
  have "map f (butlast (c # cs)) \<noteq> map f (c # cs)" by (metis length_map length_butlast diff_Suc_1 length_Cons n_not_Suc_n)
  then show ?thesis using i t by (simp add: findNext_def replaceSelected_def g m del: list.map butlast.simps)
qed

section \<open>Examples\<close>

definition exampleEditor :: doc_editor where
  "exampleEditor = \<lparr>de_key = extrasKey (js ''a'') (js ''n''), de_draft = \<lparr>dd_title = js ''Essay'', dd_topic = [], dd_html = js ''<p>x</p>''\<rparr>, de_revision = 3,
     de_extras = \<lparr>dx_settings = defaultSettings, dx_versions = [], dx_loadError = False\<rparr>, de_message = [], de_store = [], de_updates = [],
     de_opening = []\<rparr>"

theorem unreadable_history_preserved_witness:
  "de_store (fold (applyDoc (\<lambda>_. js ''{}'')) [Snapshot True (js ''now''), Typed \<lparr>dd_title = [], dd_topic = [], dd_html = []\<rparr>]
     (openEditor (\<lambda>_. Inl (js ''Unexpected token'')) (js ''a'') (js ''n'') (de_draft exampleEditor) [(js ''k'', js ''v'')])) = [(js ''k'', js ''v'')]"
  using unreadable_history_preserved [where parse = "\<lambda>_. Inl (js ''Unexpected token'')" and stringify = "\<lambda>_. js ''{}''" and accountId = "js ''a''"
      and i = "js ''n''" and st = "[(js ''k'', js ''v'')]" and d = "de_draft exampleEditor"
      and ops = "[Snapshot True (js ''now''), Typed \<lparr>dd_title = [], dd_topic = [], dd_html = []\<rparr>]"]
  by (simp add: readExtras_def)

theorem replaced_draft_is_kept_witness:
  "map dv_draft (take 1 (dx_versions (de_extras (restoreVersion (\<lambda>_. js ''{}'') True (js ''now'') (\<lambda>_. None)
     \<lparr>dv_draft = \<lparr>dd_title = js ''Old'', dd_topic = [], dd_html = []\<rparr>, dv_savedAt = [], dv_settings = None\<rparr> exampleEditor)))) = [de_draft exampleEditor]"
  using replaced_draft_is_kept [where s = exampleEditor and w = True and stringify = "\<lambda>_. js ''{}''" and nowText = "js ''now''" and pasted = "\<lambda>_. None"
      and v = "\<lparr>dv_draft = \<lparr>dd_title = js ''Old'', dd_topic = [], dd_html = []\<rparr>, dv_savedAt = [], dv_settings = None\<rparr>", OF refl]
  by (simp add: restoreVersion_def saveExtras_def updateDraft_def exampleEditor_def js_def)

theorem import_replaces_only_saved_draft_witness:
  "map dv_draft (take 1 (dx_versions (de_extras (snd (importStart (\<lambda>_. js ''{}'') True (js ''now'') 5 exampleEditor))))) = [de_draft exampleEditor]"
  using import_replaces_only_saved_draft [where stringify = "\<lambda>_. js ''{}''" and w = True and nowText = "js ''now''" and fileSize = 5 and s = exampleEditor
      and ops = "[]" and name = "js ''b.txt''" and word = None and plain = "Some (js ''y'')" and pasted = id
      and ?s1.0 = "snd (importStart (\<lambda>_. js ''{}'') True (js ''now'') 5 exampleEditor)", OF _ refl]
  by (simp add: importStart_def snapshot_def saveExtras_def exampleEditor_def) code_simp

theorem history_roundtrip_witness:
  "readExtras (\<lambda>_. Inr (extrasJson (de_extras exampleEditor))) (js ''a'') (js ''n'')
     (de_store (snd (saveExtras (\<lambda>_. js ''{}'') True (de_extras exampleEditor) exampleEditor))) = de_extras exampleEditor"
  by (rule history_roundtrip [where stringify = "\<lambda>_. js ''{}''" and s = exampleEditor])
    (simp_all add: exampleEditor_def saveExtras_def settingsValid_def defaultSettings_def MARGINS_def SPACINGS_def js_def)

theorem search_selects_match_witness:
  "case sq_range (findNext (map id) (js ''b'') (js ''cd'') False \<lparr>sq_content = map Chr (js ''ab''), sq_range = None, sq_from = 0, sq_message = []\<rparr>) of
    Some (i, n) \<Rightarrow> map id (textAt i n (map Chr (js ''ab''))) = js ''b'' | None \<Rightarrow> False"
proof -
  let ?s = "\<lparr>sq_content = map Chr (js ''ab''), sq_range = None, sq_from = 0, sq_message = []\<rparr>"
  have e: "findNext (map id) (js ''b'') (js ''cd'') False ?s = ?s\<lparr>sq_range := Some (1, 1), sq_from := 2, sq_message := js ''Match selected in the document.''\<rparr>"
    by code_simp
  show ?thesis
    using search_selects_match [where lower = "map id" and f = id and s = ?s and needle = "js ''b''" and r = "js ''cd''", OF _ _ _ refl] unfolding e
    by (simp add: js_def)
qed

end
