(* ===== verification/Paper_Editing.thy ===== *)
theory Paper_Editing
  imports Paper_Wellformed Paper_Layout Paper_Library
begin

text \<open>
  Editing an exam paper (\<open>apps/teacher/src/PapersView.tsx\<close>): how a saved paper becomes the state of the
  editor, the fields of the form, the edits of the worksheet, the files attached as diagrams, and what is
  saved, exported, published and turned into a quiz.

  A paper is saved as a JSON value (\<open>specJson\<close>) and normalised when it is opened again. What a number field gives is the
  value of \<open>Number(event.target.value)\<close>; the browser keeps typed text within the \<open>maxLength\<close> of its field. The options of
  a saved paper have the types that the app itself stores.
\<close>

section \<open>The state of the form\<close>

record paper_advanced =
  pa_year :: jsstring
  pa_session :: jsstring
  pa_variant :: jsstring
  pa_minutes :: rat
  pa_topics :: jsstring
  pa_diagrams :: bool
  pa_header :: jsstring
  pa_footer :: jsstring
  pa_repeatHeader :: bool
  pa_repeatFooter :: bool
  pa_tokens :: rat

record local_file =
  lf_name :: jsstring
  lf_size :: int

record paper_form =
  pf_title :: jsstring
  pf_classroom :: jsstring
  pf_board :: exam_board
  pf_syllabus :: jsstring
  pf_difficulty :: difficulty_level
  pf_mode :: paper_source_mode
  pf_rights :: bool
  pf_count :: rat
  pf_total :: rat
  pf_brief :: jsstring
  pf_advanced :: paper_advanced
  pf_paper :: generated_paper
  pf_sources :: "paper_source_citation list"
  pf_selected :: "jsstring list"
  pf_files :: "local_file list"

definition EMPTY_GENERATED_PAPER :: generated_paper where
  "EMPTY_GENERATED_PAPER = \<lparr>instructions = [], questions = []\<rparr>"

definition DEFAULT_PAPER_ADVANCED :: "jsstring \<Rightarrow> paper_advanced" where
  "DEFAULT_PAPER_ADVANCED thisYear = \<lparr>pa_year = thisYear, pa_session = [], pa_variant = [], pa_minutes = 60, pa_topics = [], pa_diagrams = True,
     pa_header = [], pa_footer = [], pa_repeatHeader = False, pa_repeatFooter = True, pa_tokens = DEFAULT_PAPER_OUTPUT_TOKENS\<rparr>"

text \<open>\<open>{...DEFAULT_PAPER_ADVANCED, ...saved}\<close> with the duration and the output tokens brought into their ranges.\<close>

definition advancedText :: "json \<Rightarrow> string \<Rightarrow> jsstring \<Rightarrow> jsstring" where
  "advancedText v k d = (case field v k of Some (JStr t) \<Rightarrow> t | _ \<Rightarrow> d)"

definition advancedBool :: "json \<Rightarrow> string \<Rightarrow> bool \<Rightarrow> bool" where
  "advancedBool v k d = (case field v k of Some (JBool b) \<Rightarrow> b | _ \<Rightarrow> d)"

definition openAdvanced :: "js_env \<Rightarrow> jsstring \<Rightarrow> json option \<Rightarrow> paper_advanced" where
  "openAdvanced U thisYear saved =
     (let v = (case saved of Some a \<Rightarrow> a | None \<Rightarrow> JObj []); d = DEFAULT_PAPER_ADVANCED thisYear
      in \<lparr>pa_year = advancedText v ''year'' (pa_year d), pa_session = advancedText v ''session'' (pa_session d),
          pa_variant = advancedText v ''paperVariant'' (pa_variant d),
          pa_minutes = max 10 (min 360 (case field v ''durationMinutes'' of Some (JNum n) \<Rightarrow> n | _ \<Rightarrow> pa_minutes d)),
          pa_topics = advancedText v ''topics'' (pa_topics d), pa_diagrams = advancedBool v ''includeDiagrams'' (pa_diagrams d),
          pa_header = advancedText v ''headerText'' (pa_header d), pa_footer = advancedText v ''footerText'' (pa_footer d),
          pa_repeatHeader = advancedBool v ''repeatHeader'' (pa_repeatHeader d), pa_repeatFooter = advancedBool v ''repeatFooter'' (pa_repeatFooter d),
          pa_tokens = normalizePaperOutputTokens U (field v ''maxOutputTokens'')\<rparr>)"

definition advancedJson :: "paper_advanced \<Rightarrow> json" where
  "advancedJson a = JObj [(js ''year'', JStr (pa_year a)), (js ''session'', JStr (pa_session a)), (js ''paperVariant'', JStr (pa_variant a)),
     (js ''durationMinutes'', JNum (pa_minutes a)), (js ''topics'', JStr (pa_topics a)), (js ''includeDiagrams'', JBool (pa_diagrams a)),
     (js ''headerText'', JStr (pa_header a)), (js ''footerText'', JStr (pa_footer a)), (js ''repeatHeader'', JBool (pa_repeatHeader a)),
     (js ''repeatFooter'', JBool (pa_repeatFooter a)), (js ''maxOutputTokens'', JNum (pa_tokens a))]"

definition initialPaperSpec :: "js_env \<Rightarrow> saved_question_paper option \<Rightarrow> generated_paper" where
  "initialPaperSpec U saved = (case saved of
      None \<Rightarrow> EMPTY_GENERATED_PAPER
    | Some p \<Rightarrow> (case paperSpec p of
        None \<Rightarrow> legacyPaperToSpec U (questionText p) (saved_answerKeyText p)
      | Some v \<Rightarrow> (case normalizeGeneratedPaper U v of Inr g \<Rightarrow> g | Inl _ \<Rightarrow> EMPTY_GENERATED_PAPER)))"

text \<open>The number of questions and of marks of a stored paper, read from the value as it is.\<close>

definition storedQuestions :: "json \<Rightarrow> json list" where
  "storedQuestions v = (case field v ''questions'' of Some (JArr vs) \<Rightarrow> vs | _ \<Rightarrow> [])"

definition storedMarks :: "json \<Rightarrow> rat" where
  "storedMarks v = foldl (\<lambda>t q. t + (case field q ''marks'' of Some (JNum m) \<Rightarrow> m | _ \<Rightarrow> 0)) 0 (storedQuestions v)"

text \<open>The fields come from the saved paper, the classrooms or a default.\<close>

definition classroomIdOf :: "classroom option \<Rightarrow> jsstring" where
  "classroomIdOf c = (case c of Some c \<Rightarrow> classroom_id c | None \<Rightarrow> [])"

definition openForm :: "js_env \<Rightarrow> jsstring \<Rightarrow> classroom list \<Rightarrow> saved_question_paper option \<Rightarrow> paper_form" where
  "openForm U thisYear classrooms saved =
     (let firstRoom = (case classrooms of c # _ \<Rightarrow> Some c | [] \<Rightarrow> None)
      in \<lparr>pf_title = (case saved of Some p \<Rightarrow> saved_title p | None \<Rightarrow> js ''Practice question paper''),
          pf_classroom = (case Option.bind saved classroomId of
              Some i \<Rightarrow> i
            | None \<Rightarrow> (case Option.bind saved (\<lambda>p. List.find (\<lambda>c. classroom_name c = saved_subject p) classrooms) of
                Some c \<Rightarrow> classroom_id c
              | None \<Rightarrow> classroomIdOf firstRoom)),
          pf_board = (case Option.bind saved saved_board of Some b \<Rightarrow> b | None \<Rightarrow> CIE),
          pf_syllabus = (case Option.bind saved saved_syllabusCode of
              Some t \<Rightarrow> t
            | None \<Rightarrow> (case Option.bind (List.find (\<lambda>c. Some (classroom_id c) = Option.bind saved classroomId) classrooms) subject_code of
                Some t \<Rightarrow> t
              | None \<Rightarrow> (case Option.bind firstRoom subject_code of Some t \<Rightarrow> t | None \<Rightarrow> []))),
          pf_difficulty = (case Option.bind saved saved_difficulty of Some l \<Rightarrow> l | None \<Rightarrow> Level3),
          pf_mode = (case Option.bind saved sourceMode of Some m \<Rightarrow> m | None \<Rightarrow> Adapt),
          pf_rights = (case Option.bind saved rightsConfirmed of Some b \<Rightarrow> b | None \<Rightarrow> False),
          pf_count = (case Option.bind saved paperSpec of Some v \<Rightarrow> of_nat (length (storedQuestions v)) | None \<Rightarrow> 10),
          pf_total = (case Option.bind saved paperSpec of Some v \<Rightarrow> storedMarks v | None \<Rightarrow> 50),
          pf_brief = [], pf_advanced = openAdvanced U thisYear (Option.bind saved advanced),
          pf_paper = initialPaperSpec U saved,
          pf_sources = (case saved of Some p \<Rightarrow> saved_sources p | None \<Rightarrow> []), pf_selected = [], pf_files = []\<rparr>)"

section \<open>The fields of the form\<close>

text \<open>\<open>Math.max(lo, Math.min(hi, Number(value) || fallback))\<close>.\<close>

definition clampInput :: "rat \<Rightarrow> rat \<Rightarrow> rat \<Rightarrow> jsnum \<Rightarrow> rat" where
  "clampInput lo hi fallback n = (case n of
      Fin q \<Rightarrow> max lo (min hi (if q = 0 then fallback else q))
    | NaN \<Rightarrow> max lo (min hi fallback)
    | PosInf \<Rightarrow> max lo hi
    | NegInf \<Rightarrow> lo)"

text \<open>\<open>[...new Set([...current, id])].slice(0, 8)\<close>.\<close>

definition addSelected :: "jsstring \<Rightarrow> jsstring list \<Rightarrow> jsstring list" where
  "addSelected i sel = take 8 (if i \<in> set sel then sel else sel @ [i])"

datatype paper_field =
    TitleField jsstring
  | ClassroomField jsstring
  | BoardField exam_board
  | SyllabusField jsstring
  | DifficultyField difficulty_level
  | CountField jsnum
  | TotalField jsnum
  | TopicsField jsstring
  | BriefField jsstring
  | ModeField paper_source_mode
  | RightsField bool
  | DiagramsField bool
  | HeaderField jsstring
  | RepeatHeaderField bool
  | FooterField jsstring
  | RepeatFooterField bool
  | MaterialField jsstring bool
  | FilesField "local_file list"
  | DropFileField nat

fun changeField :: "classroom list \<Rightarrow> paper_field \<Rightarrow> paper_form \<Rightarrow> paper_form" where
  "changeField classrooms (TitleField t) f = f\<lparr>pf_title := t\<rparr>"
| "changeField classrooms (ClassroomField i) f = f\<lparr>pf_classroom := i, pf_selected := [],
     pf_syllabus := (case Option.bind (List.find (\<lambda>c. classroom_id c = i) classrooms) subject_code of Some t \<Rightarrow> t | None \<Rightarrow> [])\<rparr>"
| "changeField classrooms (BoardField b) f = f\<lparr>pf_board := b\<rparr>"
| "changeField classrooms (SyllabusField t) f = f\<lparr>pf_syllabus := t\<rparr>"
| "changeField classrooms (DifficultyField l) f = f\<lparr>pf_difficulty := l\<rparr>"
| "changeField classrooms (CountField n) f = f\<lparr>pf_count := clampInput 1 30 1 n\<rparr>"
| "changeField classrooms (TotalField n) f = f\<lparr>pf_total := clampInput 1 300 1 n\<rparr>"
| "changeField classrooms (TopicsField t) f = f\<lparr>pf_advanced := (pf_advanced f)\<lparr>pa_topics := t\<rparr>\<rparr>"
| "changeField classrooms (BriefField t) f = f\<lparr>pf_brief := t\<rparr>"
| "changeField classrooms (ModeField m) f = f\<lparr>pf_mode := m, pf_rights := False\<rparr>"
| "changeField classrooms (RightsField b) f = (if pf_mode f = Adapt then f else f\<lparr>pf_rights := b\<rparr>)"
| "changeField classrooms (DiagramsField b) f = f\<lparr>pf_advanced := (pf_advanced f)\<lparr>pa_diagrams := b\<rparr>\<rparr>"
| "changeField classrooms (HeaderField t) f = f\<lparr>pf_advanced := (pf_advanced f)\<lparr>pa_header := t\<rparr>\<rparr>"
| "changeField classrooms (RepeatHeaderField b) f = f\<lparr>pf_advanced := (pf_advanced f)\<lparr>pa_repeatHeader := b\<rparr>\<rparr>"
| "changeField classrooms (FooterField t) f = f\<lparr>pf_advanced := (pf_advanced f)\<lparr>pa_footer := t\<rparr>\<rparr>"
| "changeField classrooms (RepeatFooterField b) f = f\<lparr>pf_advanced := (pf_advanced f)\<lparr>pa_repeatFooter := b\<rparr>\<rparr>"
| "changeField classrooms (MaterialField i chosen) f =
     f\<lparr>pf_selected := (if chosen then addSelected i (pf_selected f) else filter (\<lambda>j. j \<noteq> i) (pf_selected f))\<rparr>"
| "changeField classrooms (FilesField fs) f = f\<lparr>pf_files := take 8 (pf_files f @ fs)\<rparr>"
| "changeField classrooms (DropFileField k) f = f\<lparr>pf_files := take k (pf_files f) @ drop (Suc k) (pf_files f)\<rparr>"

text \<open>A new list of classrooms gives the form one when it has none.\<close>

definition adoptClassroom :: "classroom list \<Rightarrow> paper_form \<Rightarrow> paper_form" where
  "adoptClassroom classrooms f =
     (if pf_classroom f = [] then (case classrooms of c # _ \<Rightarrow> f\<lparr>pf_classroom := classroom_id c\<rparr> | [] \<Rightarrow> f) else f)"

section \<open>The worksheet\<close>

text \<open>The file of a diagram: the outcome of reading it is an argument.\<close>

definition readDiagramFile :: "jsstring \<Rightarrow> int \<Rightarrow> jsstring option \<Rightarrow> jsstring + jsstring" where
  "readDiagramFile fileType fileSize contents =
     (if fileType \<noteq> js ''image/png'' \<and> fileType \<noteq> js ''image/jpeg'' then Inl (js ''Choose a PNG or JPEG image.'')
      else if fileSize > 5 * 1024 * 1024 then Inl (js ''Diagram images must be 5 MB or smaller.'')
      else (case contents of Some url \<Rightarrow> Inr url | None \<Rightarrow> Inl (js ''The diagram image could not be read.'')))"

text \<open>The paper shown and the diagrams being read, each with the paper and the place it was chosen for.\<close>

record paper_sheet =
  ps_paper :: generated_paper
  ps_reading :: "(generated_paper \<times> nat) list"

definition replaceQuestion :: "nat \<Rightarrow> (paper_question \<Rightarrow> paper_question) \<Rightarrow> generated_paper \<Rightarrow> generated_paper" where
  "replaceQuestion k f p = (if k < length (questions p) then p\<lparr>questions := (questions p)[k := f (questions p ! k)]\<rparr> else p)"

definition replacePart :: "nat \<Rightarrow> (paper_subpart \<Rightarrow> paper_subpart) \<Rightarrow> paper_question \<Rightarrow> paper_question" where
  "replacePart j f q = (if j < length (subparts q) then q\<lparr>subparts := (subparts q)[j := f (subparts q ! j)]\<rparr> else q)"

definition sumParts :: "paper_question \<Rightarrow> paper_question" where
  "sumParts q = q\<lparr>marks := foldl (\<lambda>total part. total + part_marks part) 0 (subparts q)\<rparr>"

definition sheetDiagram :: "nat \<Rightarrow> jsstring \<Rightarrow> paper_question \<Rightarrow> paper_question" where
  "sheetDiagram k url q = q\<lparr>diagram := Some \<lparr>imageDataUrl = url, caption = [],
     alt = js ''Source diagram for question '' @ showInt (int k + 1)\<rparr>\<rparr>"

definition newPaperQuestion :: "jsstring \<Rightarrow> paper_question" where
  "newPaperQuestion i = \<lparr>question_id = i, prompt = js ''New question'', marks = 1, answer = [], workingLines = 3, subparts = [], diagram = None,
     source = [], scheme = EMPTY_SCHEME\<rparr>"

datatype sheet_edit =
    PromptEdit nat jsstring
  | AnswerEdit nat jsstring
  | PartPromptEdit nat nat jsstring
  | PartAnswerEdit nat nat jsstring
  | PartMarksEdit nat nat jsnum
  | MarksEdit nat jsnum
  | LinesEdit nat jsnum
  | DiagramChosen nat
  | DiagramRead nat "jsstring + jsstring"
  | DiagramRemoved nat
  | QuestionRemoved nat
  | QuestionAdded jsstring
  | FigureAttached jsstring paper_diagram

definition attachFigure :: "jsstring \<Rightarrow> paper_diagram \<Rightarrow> generated_paper \<Rightarrow> generated_paper" where
  "attachFigure i d p = p\<lparr>questions := map (\<lambda>q. if question_id q = i then q\<lparr>diagram := Some d\<rparr> else q) (questions p)\<rparr>"

fun editSheet :: "sheet_edit \<Rightarrow> paper_sheet \<Rightarrow> paper_sheet" where
  "editSheet (PromptEdit k t) s = s\<lparr>ps_paper := replaceQuestion k (\<lambda>q. q\<lparr>prompt := t\<rparr>) (ps_paper s)\<rparr>"
| "editSheet (AnswerEdit k t) s = s\<lparr>ps_paper := replaceQuestion k (\<lambda>q. if subparts q = [] then q\<lparr>answer := t\<rparr> else q) (ps_paper s)\<rparr>"
| "editSheet (PartPromptEdit k j t) s = s\<lparr>ps_paper := replaceQuestion k (replacePart j (\<lambda>part. part\<lparr>part_prompt := t\<rparr>)) (ps_paper s)\<rparr>"
| "editSheet (PartAnswerEdit k j t) s = s\<lparr>ps_paper := replaceQuestion k (replacePart j (\<lambda>part. part\<lparr>part_answer := t\<rparr>)) (ps_paper s)\<rparr>"
| "editSheet (PartMarksEdit k j n) s = s\<lparr>ps_paper := replaceQuestion k (\<lambda>q. if j < length (subparts q)
     then sumParts (replacePart j (\<lambda>part. part\<lparr>part_marks := clampInput 1 50 1 n\<rparr>) q) else q) (ps_paper s)\<rparr>"
| "editSheet (MarksEdit k n) s = s\<lparr>ps_paper := replaceQuestion k (\<lambda>q. if subparts q = [] then q\<lparr>marks := clampInput 1 100 1 n\<rparr> else q) (ps_paper s)\<rparr>"
| "editSheet (LinesEdit k n) s = s\<lparr>ps_paper := replaceQuestion k (\<lambda>q. if subparts q = [] then q\<lparr>workingLines := clampInput 0 14 0 n\<rparr> else q) (ps_paper s)\<rparr>"
| "editSheet (DiagramChosen k) s = s\<lparr>ps_reading := ps_reading s @ [(ps_paper s, k)]\<rparr>"
| "editSheet (DiagramRead i outcome) s =
     (if i < length (ps_reading s)
      then (let (shown, k) = ps_reading s ! i; s' = s\<lparr>ps_reading := take i (ps_reading s) @ drop (Suc i) (ps_reading s)\<rparr>
            in case outcome of Inr url \<Rightarrow> s'\<lparr>ps_paper := replaceQuestion k (sheetDiagram k url) shown\<rparr> | Inl _ \<Rightarrow> s')
      else s)"
| "editSheet (DiagramRemoved k) s = s\<lparr>ps_paper := replaceQuestion k (\<lambda>q. q\<lparr>diagram := None\<rparr>) (ps_paper s)\<rparr>"
| "editSheet (QuestionRemoved k) s = s\<lparr>ps_paper := (ps_paper s)\<lparr>questions := take k (questions (ps_paper s)) @ drop (Suc k) (questions (ps_paper s))\<rparr>\<rparr>"
| "editSheet (QuestionAdded i) s = s\<lparr>ps_paper := (ps_paper s)\<lparr>questions := questions (ps_paper s) @ [newPaperQuestion i]\<rparr>\<rparr>"
| "editSheet (FigureAttached i d) s = s\<lparr>ps_paper := attachFigure i d (ps_paper s)\<rparr>"

section \<open>Saving\<close>

definition schemeJson :: "paper_scheme \<Rightarrow> json" where
  "schemeJson sc = JObj [(js ''markingPoints'', JArr (map (\<lambda>pt. JObj [(js ''text'', JStr (point_text pt)), (js ''marks'', JNum (point_marks pt))]) (markingPoints sc))),
     (js ''acceptedAlternatives'', JArr (map JStr (acceptedAlternatives sc))), (js ''guidance'', JStr (guidance sc))]"

definition partJson :: "paper_subpart \<Rightarrow> json" where
  "partJson part = JObj [(js ''label'', JStr (part_label part)), (js ''prompt'', JStr (part_prompt part)), (js ''marks'', JNum (part_marks part)),
     (js ''answer'', JStr (part_answer part)), (js ''workingLines'', JNum (part_workingLines part)), (js ''scheme'', schemeJson (part_scheme part))]"

definition diagramJson :: "paper_diagram option \<Rightarrow> json" where
  "diagramJson d = (case d of None \<Rightarrow> JNull
     | Some d \<Rightarrow> JObj [(js ''imageDataUrl'', JStr (imageDataUrl d)), (js ''caption'', JStr (caption d)), (js ''alt'', JStr (alt d))])"

definition paperQuestionJson :: "paper_question \<Rightarrow> json" where
  "paperQuestionJson q = JObj [(js ''id'', JStr (question_id q)), (js ''prompt'', JStr (prompt q)), (js ''marks'', JNum (marks q)),
     (js ''answer'', JStr (answer q)), (js ''workingLines'', JNum (workingLines q)), (js ''subparts'', JArr (map partJson (subparts q))),
     (js ''diagram'', diagramJson (diagram q)), (js ''source'', JStr (source q)), (js ''scheme'', schemeJson (scheme q))]"

definition specJson :: "generated_paper \<Rightarrow> json" where
  "specJson p = JObj [(js ''instructions'', JArr (map JStr (instructions p))), (js ''questions'', JArr (map paperQuestionJson (questions p)))]"

definition paperMetadata :: "jsstring \<Rightarrow> paper_form \<Rightarrow> paper_metadata" where
  "paperMetadata subj f = (let a = pf_advanced f in
     \<lparr>title = orElse (sliceTo 120 (trim (pf_title f))) (js ''Untitled question paper''), subject = subj, board = pf_board f,
      syllabusCode = sliceTo 40 (trim (pf_syllabus f)), year = sliceTo 20 (trim (pa_year a)), session = sliceTo 40 (trim (pa_session a)),
      paperVariant = sliceTo 40 (trim (pa_variant a)), durationMinutes = pa_minutes a, sources = pf_sources f,
      headerText = Some (sliceTo 160 (trim (pa_header a))), footerText = Some (sliceTo 160 (trim (pa_footer a))),
      repeatHeader = pa_repeatHeader a, repeatFooter = pa_repeatFooter a\<rparr>)"

text \<open>The subject is the classroom's name.\<close>

definition subjectOf :: "classroom list \<Rightarrow> saved_question_paper option \<Rightarrow> paper_form \<Rightarrow> jsstring" where
  "subjectOf classrooms saved f = (case List.find (\<lambda>c. classroom_id c = pf_classroom f) classrooms of
      Some c \<Rightarrow> classroom_name c
    | None \<Rightarrow> (case saved of Some p \<Rightarrow> saved_subject p | None \<Rightarrow> js ''General''))"

definition EMPTY_DOCUMENT :: json where
  "EMPTY_DOCUMENT = JObj [(js ''type'', JStr (js ''doc'')), (js ''content'', JArr [JObj [(js ''type'', JStr (js ''paragraph''))]])]"

definition buildSavedPaper :: "js_env \<Rightarrow> jsstring \<Rightarrow> jsstring \<Rightarrow> paper_form \<Rightarrow> jsstring \<Rightarrow> jsstring \<Rightarrow> saved_question_paper" where
  "buildSavedPaper U nowText subj f i created =
     (let md = paperMetadata subj f
      in \<lparr>saved_id = i, saved_title = title md, saved_subject = subj, questionText = questionPaperText U md (pf_paper f),
          questionDocument = EMPTY_DOCUMENT, saved_answerKeyText = answerKeyText U md (pf_paper f), answerKeyDocument = EMPTY_DOCUMENT,
          saved_sources = pf_sources f, classroomId = Some (pf_classroom f), saved_board = Some (pf_board f),
          saved_syllabusCode = Some (syllabusCode md), saved_difficulty = Some (pf_difficulty f), sourceMode = Some (pf_mode f),
          rightsConfirmed = Some (pf_rights f), advanced = Some (advancedJson (pf_advanced f)), paperSpec = Some (specJson (pf_paper f)),
          createdAt = created, updatedAt = nowText\<rparr>)"

section \<open>Exporting, publishing and quizzes\<close>

definition escapePaper :: "jsstring \<Rightarrow> jsstring" where
  "escapePaper t = concat (map (\<lambda>c. if c = 38 then js ''&amp;'' else if c = 60 then js ''&lt;'' else if c = 62 then js ''&gt;''
     else if c = 34 then js ''&quot;'' else [c]) t)"

definition inTag :: "string \<Rightarrow> jsstring \<Rightarrow> string \<Rightarrow> jsstring" where
  "inTag openTag t closeTag = js openTag @ t @ js closeTag"

text \<open>An attribute in double quotes.\<close>

definition attr :: "string \<Rightarrow> jsstring \<Rightarrow> jsstring" where
  "attr name t = js name @ js ''='' @ [34] @ t @ [34]"

definition classTag :: "string \<Rightarrow> string \<Rightarrow> jsstring" where
  "classTag tag name = js ''<'' @ js tag @ js '' '' @ attr ''class'' (js name) @ js ''>''"

definition workingHtml :: "rat \<Rightarrow> jsstring" where
  "workingHtml n = classTag ''div'' ''working'' @ concat (replicate (nat \<lfloor>n\<rfloor>) (js ''<i></i>'')) @ js ''</div>''"

definition answerHtml :: "jsstring \<Rightarrow> jsstring" where
  "answerHtml t = classTag ''p'' ''answer'' @ escapePaper (orElse t (js ''No answer supplied.'')) @ js ''</p>''"

definition partHtml :: "js_env \<Rightarrow> paper_kind \<Rightarrow> paper_subpart \<Rightarrow> jsstring" where
  "partHtml U kind part = classTag ''div'' ''subpart'' @ inTag ''<span>('' (escapePaper (part_label part)) '')</span><div>'' @
     inTag ''<p>'' (escapePaper (part_prompt part)) ''</p>'' @ (if kind = AnswerKind then answerHtml (part_answer part) else []) @
     inTag ''</div><b>['' (numToString U (part_marks part)) '']</b></div>'' @
     (if kind = QuestionKind then workingHtml (part_workingLines part) else [])"

definition diagramHtml :: "paper_diagram option \<Rightarrow> jsstring" where
  "diagramHtml d = (case d of None \<Rightarrow> []
     | Some d \<Rightarrow> js ''<figure><img '' @ attr ''src'' (escapePaper (imageDataUrl d)) @ js '' '' @ attr ''alt'' (escapePaper (alt d)) @ js ''>'' @
         (if caption d \<noteq> [] then inTag ''<figcaption>'' (escapePaper (caption d)) ''</figcaption>'' else []) @ js ''</figure>'')"

definition questionHtml :: "js_env \<Rightarrow> paper_kind \<Rightarrow> nat \<Rightarrow> paper_question \<Rightarrow> jsstring" where
  "questionHtml U kind k q = classTag ''section'' ''question'' @ classTag ''div'' ''question-row'' @
     inTag ''<strong>'' (showInt (int k + 1)) ''.</strong>'' @ inTag ''<p>'' (escapePaper (prompt q)) ''</p>'' @
     inTag ''<b>['' (numToString U (marks q)) '']</b></div>'' @ diagramHtml (diagram q) @
     (if kind = AnswerKind \<and> subparts q = [] then answerHtml (answer q) else []) @ concat (map (partHtml U kind) (subparts q)) @
     (if kind = QuestionKind \<and> subparts q = [] then workingHtml (workingLines q) else []) @
     (if kind = AnswerKind \<and> source q \<noteq> [] then inTag ''<small>Source note: '' (escapePaper (source q)) ''</small>'' else []) @ js ''</section>''"

text \<open>The document around it: \<open>css\<close> is the constant text of the style sheet.\<close>

definition paperHtml :: "js_env \<Rightarrow> jsstring \<Rightarrow> paper_metadata \<Rightarrow> generated_paper \<Rightarrow> paper_kind \<Rightarrow> jsstring" where
  "paperHtml U css md p kind =
     (let heading = escapePaper (if kind = AnswerKind then title md @ js '' - Marking scheme'' else title md)
      in js ''<!doctype html><html><head><meta '' @ attr ''charset'' (js ''utf-8'') @ js ''>'' @ inTag ''<title>'' heading ''</title>'' @
         inTag ''<style>'' css ''</style></head><body><header>'' @
         (case headerText md of Some (c # t) \<Rightarrow> classTag ''p'' ''custom'' @ escapePaper (c # t) @ js ''</p>'' | _ \<Rightarrow> []) @
         inTag ''<h1>'' heading ''</h1>'' @ inTag ''<p><strong>'' (escapePaper (subject md)) ''</strong></p>'' @
         classTag ''p'' ''meta'' @ escapePaper (joinWith (js '' | '') (boardDetails md)) @
         (if durationMinutes md > 0 \<and> kind = QuestionKind then inTag '' | Time: '' (numToString U (durationMinutes md)) '' minutes'' else []) @ js ''</p>'' @
         (if sources md \<noteq> [] then classTag ''p'' ''sources'' @ inTag ''<strong>Sources:</strong> '' (escapePaper (sourceSummary (sources md))) ''</p>'' else []) @
         js ''</header>'' @
         (if kind = QuestionKind \<and> instructions p \<noteq> []
          then classTag ''section'' ''instructions'' @ js ''<h2>Instructions</h2><ul>'' @
            concat (map (\<lambda>t. inTag ''<li>'' (escapePaper t) ''</li>'') (instructions p)) @ js ''</ul></section>'' else []) @
         concat (map (\<lambda>(k, q). questionHtml U kind k q) (List.enumerate 0 (questions p))) @
         (case footerText md of Some (c # t) \<Rightarrow> inTag ''<footer>'' (escapePaper (c # t)) ''</footer>'' | _ \<Rightarrow> []) @ js ''</body></html>'')"

definition exportText :: "js_env \<Rightarrow> jsstring \<Rightarrow> paper_metadata \<Rightarrow> generated_paper \<Rightarrow> paper_kind \<Rightarrow> bool \<Rightarrow> jsstring" where
  "exportText U css md p kind asText =
     (if asText then (if kind = QuestionKind then questionPaperText U md p else answerKeyText U md p) else paperHtml U css md p kind)"

text \<open>What is published: the file of the student copy for the materials, and the assignment.\<close>

record published_assignment =
  pub_classroom :: jsstring
  pub_title :: jsstring
  pub_instructions :: jsstring
  pub_max_points :: rat

definition assignmentOf :: "js_env \<Rightarrow> paper_metadata \<Rightarrow> paper_form \<Rightarrow> published_assignment" where
  "assignmentOf U md f = \<lparr>pub_classroom = pf_classroom f, pub_title = title md,
     pub_instructions = title md @ js '' is in the class materials. '' @ showInt (int (length (questions (pf_paper f)))) @ js '' questions, '' @
       numToString U (paperTotalMarks (pf_paper f)) @ js '' marks.'',
     pub_max_points = paperTotalMarks (pf_paper f)\<rparr>"

text \<open>\<open>publishAsAssignment\<close>: the material and the assignment, in this order; the outcomes of the two calls are arguments.\<close>

definition publishAsAssignment ::
  "js_env \<Rightarrow> pdf_env \<Rightarrow> jsstring \<Rightarrow> paper_form \<Rightarrow> (jsstring + unit) \<Rightarrow> (jsstring + unit) \<Rightarrow>
     jsstring \<times> (jsstring \<times> pdf_document) list \<times> published_assignment list" where
  "publishAsAssignment U P subj f uploaded created =
     (let md = paperMetadata subj f; pdf = createPaperPdf P md QuestionKind (pf_paper f); a = assignmentOf U md f
      in if pf_classroom f = [] then (js ''Choose a classroom before publishing.'', [], [])
         else case uploaded of
           Inl e \<Rightarrow> (e, [(pf_classroom f, pdf)], [])
         | Inr _ \<Rightarrow> (case created of
             Inl e \<Rightarrow> (e, [(pf_classroom f, pdf)], [a])
           | Inr _ \<Rightarrow> (js ''Published as an assignment, with the paper in class materials.'', [(pf_classroom f, pdf)], [a])))"

record quiz_from_paper =
  qp_classroom :: jsstring
  qp_title :: jsstring
  qp_instructions :: jsstring
  qp_minutes :: "rat option"
  qp_questions :: "(jsstring \<times> jsstring \<times> rat) list"

definition convertible :: "paper_question \<Rightarrow> bool" where
  "convertible q \<longleftrightarrow> subparts q = [] \<and> diagram q = None \<and> trim (answer q) \<noteq> []"

definition convertToQuiz :: "jsstring \<Rightarrow> paper_form \<Rightarrow> jsstring + quiz_from_paper" where
  "convertToQuiz subj f =
     (let qs = filter convertible (questions (pf_paper f))
      in if pf_classroom f = [] then Inl (js ''Choose a classroom before making a quiz.'')
         else if qs = [] then Inl (js ''None of these questions convert automatically. Quizzes take single-answer questions without figures.'')
         else Inr \<lparr>qp_classroom = pf_classroom f, qp_title = title (paperMetadata subj f), qp_instructions = joinWith [32] (instructions (pf_paper f)),
           qp_minutes = (if pa_minutes (pf_advanced f) = 0 then None else Some (pa_minutes (pf_advanced f))),
           qp_questions = map (\<lambda>q. (prompt q, answer q, marks q)) qs\<rparr>)"

section \<open>Reading a saved paper back\<close>

definition cleanText :: "jsstring \<Rightarrow> bool" where
  "cleanText t \<longleftrightarrow> cleanModelText (Some (JStr t)) [] = t"

definition cleanScheme :: "paper_scheme \<Rightarrow> bool" where
  "cleanScheme sc \<longleftrightarrow> list_all (\<lambda>pt. cleanText (point_text pt)) (markingPoints sc) \<and> list_all cleanText (acceptedAlternatives sc) \<and> cleanText (guidance sc)"

definition cleanPart :: "paper_subpart \<Rightarrow> bool" where
  "cleanPart part \<longleftrightarrow> wfSubpart part \<and> cleanText (part_label part) \<and> cleanText (part_prompt part) \<and> cleanText (part_answer part) \<and>
     cleanScheme (part_scheme part)"

definition cleanDiagram :: "paper_diagram \<Rightarrow> bool" where
  "cleanDiagram d \<longleftrightarrow> wfDiagram d \<and> trim (imageDataUrl d) = imageDataUrl d \<and> imageDataUrl d \<noteq> [] \<and> cleanText (caption d) \<and> cleanText (alt d)"

text \<open>A question as the normaliser makes them: within its bounds, and with texts that cleaning leaves alone.\<close>

definition cleanQuestion :: "paper_question \<Rightarrow> bool" where
  "cleanQuestion q \<longleftrightarrow> wfQuestion q \<and> cleanText (question_id q) \<and> cleanText (prompt q) \<and> cleanText (answer q) \<and> cleanText (source q) \<and>
     list_all cleanPart (subparts q) \<and> (case diagram q of Some d \<Rightarrow> cleanDiagram d | None \<Rightarrow> True) \<and> cleanScheme (scheme q)"

definition cleanPaper :: "generated_paper \<Rightarrow> bool" where
  "cleanPaper p \<longleftrightarrow> wfPaper p \<and> list_all cleanQuestion (questions p) \<and> list_all cleanText (instructions p)"

lemma cleanModelText_clean: "cleanText t \<Longrightarrow> cleanModelText (Some (JStr t)) d = t"
  by (simp add: cleanText_def cleanModelText_def)

lemma cut_clean: "cleanText t \<Longrightarrow> textUpTo n t \<Longrightarrow> sliceTo n (cleanModelText (Some (JStr t)) d) = t"
  by (simp add: cleanModelText_clean textUpTo_def sliceTo_all)

lemma mathRound_whole: "whole q \<Longrightarrow> of_int (mathRound q) = q"
proof -
  assume "whole q"
  then obtain n where "q = of_int n" by (metis whole_def)
  then show ?thesis by (simp add: mathRound_def floor_unique)
qed

lemma numeric_between_id: "between lo hi q \<Longrightarrow> numeric U (Some (JNum q)) d lo hi = q"
  by (simp add: numeric_def jsonNumber_def between_def mathRound_whole)

lemma concat_map_single: "list_all (\<lambda>x. f x = [g x]) xs \<Longrightarrow> concat (map f xs) = map g xs"
  by (induction xs) simp_all

lemma normalizePoint_clean:
  "wfPoint m pt \<Longrightarrow> cleanText (point_text pt) \<Longrightarrow>
    normalizePoint U m (JObj [(js ''text'', JStr (point_text pt)), (js ''marks'', JNum (point_marks pt))]) = [pt]"
  by (simp add: normalizePoint_def wfPoint_def isObject_def js_def coalesce_def cut_clean numeric_between_id Let_def)

lemma normalizeScheme_clean:
  assumes "wfScheme m sc" "cleanScheme sc"
  shows "normalizeScheme U (Some (schemeJson sc)) m = sc"
proof -
  let ?f = "\<lambda>pt. JObj [(js ''text'', JStr (point_text pt)), (js ''marks'', JNum (point_marks pt))]"
  have a: "concat (map (normalizePoint U m) (map ?f (markingPoints sc))) = map (\<lambda>pt. pt) (markingPoints sc)"
    unfolding map_map comp_def
    by (rule concat_map_single) (use assms in \<open>auto simp: list_all_iff wfScheme_def cleanScheme_def normalizePoint_clean\<close>)
  have b: "sliceTo 20 (map ?f (markingPoints sc)) = map ?f (markingPoints sc)" using assms(1) by (simp add: wfScheme_def sliceTo_all)
  have c: "map (\<lambda>item. sliceTo 400 (cleanModelText (Some item) [])) (map JStr (acceptedAlternatives sc)) = acceptedAlternatives sc"
    using assms by (auto simp: wfScheme_def cleanScheme_def list_all_iff cut_clean intro: map_idI)
  have d: "filter (\<lambda>t. t \<noteq> []) (acceptedAlternatives sc) = acceptedAlternatives sc"
    using assms(1) by (auto simp: wfScheme_def intro: filter_True)
  have e: "sliceTo 20 (acceptedAlternatives sc) = acceptedAlternatives sc" using assms(1) by (simp add: wfScheme_def sliceTo_all)
  have g: "sliceTo 2000 (cleanModelText (Some (JStr (guidance sc))) []) = guidance sc"
    using assms by (simp add: wfScheme_def cleanScheme_def cut_clean)
  have k: "coalesce (field (schemeJson sc) ''marking_points'') (field (schemeJson sc) ''markingPoints'') = Some (JArr (map ?f (markingPoints sc)))"
    "coalesce (field (schemeJson sc) ''accepted_alternatives'') (field (schemeJson sc) ''acceptedAlternatives'') = Some (JArr (map JStr (acceptedAlternatives sc)))"
    "coalesce (field (schemeJson sc) ''guidance'') (field (schemeJson sc) ''notes'') = Some (JStr (guidance sc))"
    "isObject (Some (schemeJson sc))"
    by (simp_all add: schemeJson_def js_def coalesce_def isObject_def)
  show ?thesis
    unfolding normalizeScheme_def option.case k asArray_def json.case a b c d e g by (simp add: k)
qed

lemma normalizeSubpart_clean:
  assumes "cleanPart part"
  shows "normalizeSubpart U i (partJson part) = [part]"
proof -
  have k: "coalesce (field (partJson part) ''prompt'') (field (partJson part) ''question'') = Some (JStr (part_prompt part))"
    "field (partJson part) ''marks'' = Some (JNum (part_marks part))" "field (partJson part) ''label'' = Some (JStr (part_label part))"
    "field (partJson part) ''answer'' = Some (JStr (part_answer part))"
    "coalesce (field (partJson part) ''working_lines'') (field (partJson part) ''workingLines'') = Some (JNum (part_workingLines part))"
    "schemeOf (partJson part) = Some (schemeJson (part_scheme part))" "isObject (Some (partJson part))"
    by (simp_all add: partJson_def js_def coalesce_def isObject_def schemeOf_def) (simp_all add: schemeJson_def)
  show ?thesis
    using assms unfolding normalizeSubpart_def k
    by (simp add: cleanPart_def wfSubpart_def cut_clean numeric_between_id normalizeScheme_clean k)
qed

lemma normalizeDiagram_clean:
  assumes "case d of Some d \<Rightarrow> cleanDiagram d | None \<Rightarrow> True"
  shows "normalizeDiagram (Some (diagramJson d)) = d"
proof (cases d)
  case None
  then show ?thesis by (simp add: normalizeDiagram_def diagramJson_def isObject_def)
next
  case (Some e)
  have k: "diagramJson d = JObj [(js ''imageDataUrl'', JStr (imageDataUrl e)), (js ''caption'', JStr (caption e)), (js ''alt'', JStr (alt e))]"
    by (simp add: diagramJson_def Some)
  have g: "coalesce (field (diagramJson d) ''imageDataUrl'') (field (diagramJson d) ''image_data_url'') = Some (JStr (imageDataUrl e))"
    "field (diagramJson d) ''caption'' = Some (JStr (caption e))" "field (diagramJson d) ''alt'' = Some (JStr (alt e))" "isObject (Some (diagramJson d))"
    by (simp_all add: k js_def coalesce_def isObject_def)
  have u: "sanitizeDiagramImageDataUrl (Some (JStr (imageDataUrl e))) = imageDataUrl e"
    using assms Some by (simp add: sanitizeDiagramImageDataUrl_def cleanDiagram_def wfDiagram_def textUpTo_def)
  show ?thesis
    using assms Some unfolding normalizeDiagram_def option.case g u by (simp add: g(4) [unfolded Some] cleanDiagram_def wfDiagram_def cut_clean)
qed

lemma normalizeSubparts_clean:
  assumes "list_all cleanPart ps" "length ps \<le> 12"
  shows "normalizeSubparts U (Some (JArr (map partJson ps))) = ps"
proof -
  have c: "concat (map (\<lambda>(i, item). normalizeSubpart U i item) (List.enumerate n (map partJson ps))) = ps" for n
    using assms(1) by (induction ps arbitrary: n) (simp_all add: normalizeSubpart_clean)
  show ?thesis using assms(2) c [of 0] by (simp add: normalizeSubparts_def asArray_def sliceTo_all)
qed

lemma paperQuestionJson_fields:
  "coalesce (field (paperQuestionJson q) ''prompt'') (field (paperQuestionJson q) ''question'') = Some (JStr (prompt q))"
  "coalesce (field (paperQuestionJson q) ''subparts'') (field (paperQuestionJson q) ''parts'') = Some (JArr (map partJson (subparts q)))"
  "field (paperQuestionJson q) ''marks'' = Some (JNum (marks q))" "field (paperQuestionJson q) ''id'' = Some (JStr (question_id q))"
  "field (paperQuestionJson q) ''answer'' = Some (JStr (answer q))" "field (paperQuestionJson q) ''source'' = Some (JStr (source q))"
  "coalesce (field (paperQuestionJson q) ''working_lines'') (field (paperQuestionJson q) ''workingLines'') = Some (JNum (workingLines q))"
  "field (paperQuestionJson q) ''diagram'' = Some (diagramJson (diagram q))" "schemeOf (paperQuestionJson q) = Some (schemeJson (scheme q))"
  "isObject (Some (paperQuestionJson q))"
  by (simp_all add: paperQuestionJson_def js_def coalesce_def isObject_def schemeOf_def) (simp_all add: schemeJson_def)

lemma normalizeQuestion_clean:
  assumes "cleanQuestion q"
  shows "normalizeQuestion U i (paperQuestionJson q) = [q]"
proof -
  have w: "wfQuestion q" and parts: "normalizeSubparts U (Some (JArr (map partJson (subparts q)))) = subparts q"
    using assms by (auto simp: cleanQuestion_def wfQuestion_def intro: normalizeSubparts_clean)
  have m: "(if subparts q \<noteq> [] then foldl (\<lambda>total part. total + part_marks part) 0 (subparts q) else numeric U (Some (JNum (marks q))) 1 1 100) = marks q"
    using w by (auto simp: wfQuestion_def foldl_marks between_def intro!: numeric_between_id)
  have d: "normalizeDiagram (Some (diagramJson (diagram q))) = diagram q"
    using assms by (intro normalizeDiagram_clean) (simp add: cleanQuestion_def)
  have sc: "normalizeScheme U (Some (schemeJson (scheme q))) (marks q) = scheme q"
    using assms by (simp add: cleanQuestion_def wfQuestion_def normalizeScheme_clean)
  show ?thesis
    using assms w unfolding normalizeQuestion_def paperQuestionJson_fields parts m d Let_def
    by (simp add: cleanQuestion_def wfQuestion_def cut_clean numeric_between_id orElse_def paperQuestionJson_fields m sc)
qed

text \<open>A question without a prompt.\<close>

lemma normalizeQuestion_blank: "prompt q = [] \<Longrightarrow> normalizeQuestion U i (paperQuestionJson q) = []"
proof -
  assume p: "prompt q = []"
  have "cleanModelText (Some (JStr [])) [] = []" by code_simp
  then show ?thesis unfolding normalizeQuestion_def paperQuestionJson_fields by (simp add: p)
qed

lemma normalizeQuestions_clean:
  "list_all (\<lambda>q. prompt q = [] \<or> cleanQuestion q) qs \<Longrightarrow>
    concat (map (\<lambda>(i, item). normalizeQuestion U i item) (List.enumerate n (map paperQuestionJson qs))) = filter (\<lambda>q. prompt q \<noteq> []) qs"
proof (induction qs arbitrary: n)
  case (Cons q qs)
  have "prompt q \<noteq> []" if "cleanQuestion q" using that by (simp add: cleanQuestion_def wfQuestion_def)
  then show ?case using Cons normalizeQuestion_clean normalizeQuestion_blank by auto
qed simp

lemma normalizeGeneratedPaper_clean:
  assumes "list_all (\<lambda>q. prompt q = [] \<or> cleanQuestion q) (questions p)" "length (questions p) \<le> 50"
    "length (instructions p) \<le> 12" "list_all (\<lambda>t. t \<noteq> [] \<and> textUpTo 1000 t \<and> cleanText t) (instructions p)"
  shows "normalizeGeneratedPaper U (specJson p) =
    (if filter (\<lambda>q. prompt q \<noteq> []) (questions p) = [] then Inl noUsableQuestions
     else Inr (p\<lparr>questions := filter (\<lambda>q. prompt q \<noteq> []) (questions p)\<rparr>))"
proof -
  let ?v = "JObj [(js ''instructions'', JArr (map JStr (instructions p))), (js ''questions'', JArr (map paperQuestionJson (questions p)))]"
  have k: "paperRoot ?v = ?v" "field ?v ''questions'' = Some (JArr (map paperQuestionJson (questions p)))"
    "field ?v ''instructions'' = Some (JArr (map JStr (instructions p)))" "isObject (Some ?v)"
    by (simp_all add: paperRoot_def js_def coalesce_def isObject_def)
  have a: "map (\<lambda>item. sliceTo 1000 (cleanModelText (Some item) [])) (map JStr (instructions p)) = instructions p"
    using assms(4) by (auto simp: list_all_iff cut_clean intro: map_idI)
  have b: "filter (\<lambda>t. t \<noteq> []) (instructions p) = instructions p"
    using assms(4) by (auto simp: list_all_iff intro: filter_True)
  have c: "sliceTo 12 (instructions p) = instructions p" "sliceTo 50 (map paperQuestionJson (questions p)) = map paperQuestionJson (questions p)"
    using assms(2,3) by (simp_all add: sliceTo_all)
  show ?thesis
    unfolding normalizeGeneratedPaper_def specJson_def json.case Let_def k asArray_def option.case a b c normalizeQuestions_clean [OF assms(1)]
    by (simp add: k)
qed

section \<open>Editing\<close>

definition consistentQuestion :: "paper_question \<Rightarrow> bool" where
  "consistentQuestion q \<longleftrightarrow> 1 \<le> marks q \<and> (if subparts q = [] then marks q \<le> 100 else marks q = sum_list (map part_marks (subparts q))) \<and>
     list_all (\<lambda>part. 1 \<le> part_marks part \<and> part_marks part \<le> 50) (subparts q) \<and> 0 \<le> workingLines q \<and> workingLines q \<le> 14"

definition consistentSheet :: "paper_sheet \<Rightarrow> bool" where
  "consistentSheet s \<longleftrightarrow> list_all consistentQuestion (questions (ps_paper s)) \<and>
     list_all (\<lambda>(shown, k). list_all consistentQuestion (questions shown)) (ps_reading s)"

lemma wf_consistent: "wfQuestion q \<Longrightarrow> consistentQuestion q"
  by (auto simp: wfQuestion_def consistentQuestion_def wfSubpart_def between_def list_all_iff)

lemma clampInput_between: "lo \<le> hi \<Longrightarrow> lo \<le> clampInput lo hi d n \<and> clampInput lo hi d n \<le> hi"
  by (cases n) (auto simp: clampInput_def)

lemma replaceQuestion_all:
  "list_all P (questions p) \<Longrightarrow> (\<And>q. P q \<Longrightarrow> P (f q)) \<Longrightarrow> list_all P (questions (replaceQuestion k f p))"
  by (auto simp: replaceQuestion_def list_all_length nth_list_update)

lemma replacePart_keeps:
  "(\<And>part. part_marks (f part) = part_marks part) \<Longrightarrow> consistentQuestion q \<Longrightarrow> consistentQuestion (replacePart j f q)"
proof -
  assume f: "\<And>part. part_marks (f part) = part_marks part" and q: "consistentQuestion q"
  have "map part_marks ((subparts q)[j := f (subparts q ! j)]) = map part_marks (subparts q)" if "j < length (subparts q)"
    using that f by (simp add: map_update list_update_same_conv)
  moreover have "list_all (\<lambda>part. 1 \<le> part_marks part \<and> part_marks part \<le> 50) ((subparts q)[j := f (subparts q ! j)])" if "j < length (subparts q)"
    using that f q by (auto simp: consistentQuestion_def list_all_length nth_list_update)
  ultimately show ?thesis using q by (auto simp: replacePart_def consistentQuestion_def)
qed

lemma sum_list_ge_1: "ps \<noteq> [] \<Longrightarrow> list_all (\<lambda>part. 1 \<le> part_marks part \<and> part_marks part \<le> 50) ps \<Longrightarrow> 1 \<le> sum_list (map part_marks ps)"
proof (induction ps)
  case (Cons part ps)
  have "0 \<le> sum_list (map part_marks ps)" using Cons.prems(2) by (intro sum_list_nonneg) (force simp: list_all_iff)
  then show ?case using Cons.prems by simp
qed simp

lemma sumParts_consistent:
  assumes "consistentQuestion q" "j < length (subparts q)" "\<And>part. 1 \<le> part_marks (f part) \<and> part_marks (f part) \<le> 50"
  shows "consistentQuestion (sumParts (replacePart j f q))"
proof -
  let ?ps = "(subparts q)[j := f (subparts q ! j)]"
  have p: "list_all (\<lambda>part. 1 \<le> part_marks part \<and> part_marks part \<le> 50) ?ps"
    using assms by (auto simp: consistentQuestion_def list_all_length nth_list_update)
  have "?ps \<noteq> []" using assms(2) by auto
  then show ?thesis
    using assms(1,2) p sum_list_ge_1 [of ?ps] by (auto simp: sumParts_def replacePart_def consistentQuestion_def foldl_marks)
qed

lemma list_all_take_drop: "list_all P xs \<Longrightarrow> list_all P (take n xs @ drop m xs)"
  by (auto simp: list_all_iff dest: in_set_takeD in_set_dropD)

lemma consistent_fields [simp]:
  "consistentQuestion (q\<lparr>prompt := t\<rparr>) = consistentQuestion q" "consistentQuestion (q\<lparr>answer := t\<rparr>) = consistentQuestion q"
  "consistentQuestion (q\<lparr>diagram := d\<rparr>) = consistentQuestion q" "consistentQuestion (sheetDiagram k url q) = consistentQuestion q"
  by (simp_all add: consistentQuestion_def sheetDiagram_def)

lemma editSheet_consistent:
  assumes "consistentSheet s"
  shows "consistentSheet (editSheet e s)"
proof -
  have p: "list_all consistentQuestion (questions (ps_paper s))" and r: "list_all (\<lambda>(shown, k). list_all consistentQuestion (questions shown)) (ps_reading s)"
    using assms by (simp_all add: consistentSheet_def)
  have set_paper: "consistentSheet (s\<lparr>ps_paper := p'\<rparr>)" if "list_all consistentQuestion (questions p')" for p'
    using that r by (simp add: consistentSheet_def)
  show ?thesis
  proof (cases e)
    case (DiagramRead i outcome)
    show ?thesis
    proof (cases "i < length (ps_reading s)")
      case True
      obtain shown k where sk: "ps_reading s ! i = (shown, k)" by fastforce
      then have "list_all consistentQuestion (questions shown)" using r True by (auto simp: list_all_length)
      then show ?thesis
        using p list_all_take_drop [OF r, of i "Suc i"] True sk DiagramRead
        by (cases outcome) (simp_all add: consistentSheet_def Let_def replaceQuestion_all)
    qed (use assms DiagramRead in simp)
  next
    case (PartMarksEdit k j n)
    then show ?thesis
      by (simp, intro set_paper replaceQuestion_all [OF p]) (simp add: sumParts_consistent clampInput_between)
  next
    case (MarksEdit k n)
    then show ?thesis
      by (simp, intro set_paper replaceQuestion_all [OF p]) (auto simp: consistentQuestion_def clampInput_between)
  next
    case (LinesEdit k n)
    then show ?thesis
      by (simp, intro set_paper replaceQuestion_all [OF p]) (auto simp: consistentQuestion_def clampInput_between)
  next
    case (FigureAttached i d)
    then show ?thesis
      using p by (simp, intro set_paper) (auto simp: attachFigure_def list_all_iff)
  next
    case (QuestionAdded i)
    then show ?thesis
      using p by (simp, intro set_paper) (simp add: newPaperQuestion_def consistentQuestion_def)
  next
    case (QuestionRemoved k)
    then show ?thesis
      using list_all_take_drop [OF p, of k "Suc k"] by (simp add: set_paper)
  next
    case (DiagramChosen k)
    then show ?thesis using p r by (simp add: consistentSheet_def)
  qed (simp, intro set_paper replaceQuestion_all [OF p], simp add: replacePart_keeps)+
qed

section \<open>Properties\<close>

lemma normalizeGeneratedPaper_cleanPaper: "cleanPaper p \<Longrightarrow> normalizeGeneratedPaper U (specJson p) = Inr p"
proof -
  assume p: "cleanPaper p"
  then have q: "list_all (\<lambda>q. prompt q = [] \<or> cleanQuestion q) (questions p)" "filter (\<lambda>q. prompt q \<noteq> []) (questions p) = questions p"
    "questions p \<noteq> []"
    by (auto simp: cleanPaper_def list_all_iff wfPaper_def wfQuestion_def intro: filter_True)
  then show ?thesis
    using p normalizeGeneratedPaper_clean [OF q(1), of U] by (simp add: cleanPaper_def wfPaper_def list_all_iff)
qed

lemma openForm_paper: "pf_paper (openForm U thisYear classrooms saved) = initialPaperSpec U saved"
  by (simp add: openForm_def Let_def)

text \<open>C26: A saved paper is opened as it was saved: what the editor saves of a paper within the bounds of the normaliser, with texts that cleaning
  leaves alone, is the paper that the editor shows when it is opened again.\<close>

theorem saved_paper_reopens:
  assumes "cleanPaper (pf_paper f)"
  shows "pf_paper (openForm U thisYear classrooms (Some (buildSavedPaper U nowText subj f i created))) = pf_paper f"
  using assms by (simp add: openForm_paper initialPaperSpec_def buildSavedPaper_def Let_def normalizeGeneratedPaper_cleanPaper)

text \<open>A question whose prompt was cleared is lost when the paper is opened again, with its answers and its marks; a paper of only such
  questions opens empty, without its instructions.\<close>

theorem cleared_prompt_loses_question:
  assumes "list_all (\<lambda>q. prompt q = [] \<or> cleanQuestion q) (questions (pf_paper f))" "length (questions (pf_paper f)) \<le> 50"
    "length (instructions (pf_paper f)) \<le> 12" "list_all (\<lambda>t. t \<noteq> [] \<and> textUpTo 1000 t \<and> cleanText t) (instructions (pf_paper f))"
  shows "pf_paper (openForm U thisYear classrooms (Some (buildSavedPaper U nowText subj f i created))) =
    (if filter (\<lambda>q. prompt q \<noteq> []) (questions (pf_paper f)) = [] then EMPTY_GENERATED_PAPER
     else (pf_paper f)\<lparr>questions := filter (\<lambda>q. prompt q \<noteq> []) (questions (pf_paper f))\<rparr>)"
  using normalizeGeneratedPaper_clean [OF assms, of U]
  by (simp add: openForm_def initialPaperSpec_def buildSavedPaper_def Let_def)


lemma reading_grows:
  "case e of DiagramRead _ _ \<Rightarrow> False | _ \<Rightarrow> True \<Longrightarrow> \<exists>more. ps_reading (editSheet e s) = ps_reading s @ more"
  by (cases e) simp_all

text \<open>What is edited while a diagram is being read is taken back: when the image arrives, the worksheet is the one the file was chosen
  for, with the diagram.\<close>

theorem diagram_takes_edits_back:
  assumes "list_all (\<lambda>e. case e of DiagramRead _ _ \<Rightarrow> False | _ \<Rightarrow> True) es" "ps_reading s = []"
  shows "ps_paper (editSheet (DiagramRead 0 (Inr url)) (fold editSheet es (editSheet (DiagramChosen k) s))) =
    replaceQuestion k (sheetDiagram k url) (ps_paper s)"
proof -
  have "\<exists>more. ps_reading (fold editSheet es s') = ps_reading s' @ more" for s'
    using assms(1)
  proof (induction es arbitrary: s')
    case (Cons e es)
    then obtain more where "ps_reading (editSheet e s') = ps_reading s' @ more" using reading_grows [of e s'] by auto
    then show ?case using Cons.IH [of "editSheet e s'"] Cons.prems by auto
  qed simp
  then obtain more where "ps_reading (fold editSheet es (editSheet (DiagramChosen k) s)) = ps_reading (editSheet (DiagramChosen k) s) @ more"
    by blast
  then have "ps_reading (fold editSheet es (editSheet (DiagramChosen k) s)) = (ps_paper s, k) # more" using assms(2) by simp
  then show ?thesis by (simp add: Let_def del: editSheet.simps(8))
qed

lemma partHtml_hide: "partHtml U QuestionKind (hidePart part) = partHtml U QuestionKind part"
  by (simp add: partHtml_def hidePart_def)

lemma questionHtml_hide: "questionHtml U QuestionKind k (hideQuestion q) = questionHtml U QuestionKind k q"
  by (simp add: questionHtml_def hideQuestion_def partHtml_hide comp_def)

lemma questionsHtml_hide:
  "map (\<lambda>(k, q). questionHtml U QuestionKind k q) (List.enumerate n (map hideQuestion qs)) =
    map (\<lambda>(k, q). questionHtml U QuestionKind k q) (List.enumerate n qs)"
  by (induction qs arbitrary: n) (simp_all add: questionHtml_hide)

lemma paperHtml_hide: "paperHtml U css md (studentView p) QuestionKind = paperHtml U css md p QuestionKind"
  by (simp add: paperHtml_def studentView_def questionsHtml_hide)

text \<open>C25: What leaves the teacher's app as the student copy says nothing of the answers: the exported page, the exported text, the file and the
  assignment that are published are the same for the paper and for the paper without its answers, marking schemes and source notes.\<close>

theorem exported_copy_hides_answers:
  "exportText U css md (studentView p) QuestionKind asText = exportText U css md p QuestionKind asText \<and>
   publishAsAssignment U P subj (f\<lparr>pf_paper := studentView (pf_paper f)\<rparr>) uploaded created = publishAsAssignment U P subj f uploaded created"
proof -
  have m: "paperMetadata subj (f\<lparr>pf_paper := q\<rparr>) = paperMetadata subj f" for q by (simp add: paperMetadata_def)
  have t: "paperTotalMarks (studentView q) = paperTotalMarks q" for q
    by (simp add: paperTotalMarks_def studentView_def foldl_marks comp_def hideQuestion_def)
  have a: "assignmentOf U md (f\<lparr>pf_paper := studentView (pf_paper f)\<rparr>) = assignmentOf U md f" for md
    by (simp add: assignmentOf_def t) (simp add: studentView_def)
  have c: "createPaperPdf P md QuestionKind (studentView q) = createPaperPdf P md QuestionKind q" for md q
    by (simp add: createPaperPdf_def drawBody_hide)
  show ?thesis by (simp add: exportText_def paperHtml_hide questionPaperText_hide publishAsAssignment_def Let_def m a c split: sum.split)
qed

section \<open>Examples\<close>

definition exampleQuestion :: paper_question where
  "exampleQuestion = \<lparr>question_id = js ''q1'', prompt = js ''Why'', marks = 3, answer = js ''F'', workingLines = 4,
     subparts = [\<lparr>part_label = js ''a'', part_prompt = js ''Why'', part_marks = 3, part_answer = [], part_workingLines = 2, part_scheme = EMPTY_SCHEME\<rparr>],
     diagram = None, source = [],
     scheme = \<lparr>markingPoints = [\<lparr>point_text = js ''J'', point_marks = 2\<rparr>], acceptedAlternatives = [js ''J''], guidance = []\<rparr>\<rparr>"

definition exampleForm :: paper_form where
  "exampleForm = (openForm ascii_env (js ''2026'') [] None)\<lparr>pf_paper := \<lparr>instructions = [js ''Why''], questions = [exampleQuestion]\<rparr>\<rparr>"

definition clearedForm :: paper_form where
  "clearedForm = exampleForm\<lparr>pf_paper := \<lparr>instructions = [], questions = [exampleQuestion\<lparr>prompt := []\<rparr>]\<rparr>\<rparr>"

lemma example_texts:
  "cleanText (js ''q1'')" "cleanText (js ''Why'')" "cleanText (js ''F'')" "cleanText (js ''a'')" "cleanText (js ''J'')" "cleanText []"
  by code_simp+

lemma exampleQuestion_clean: "cleanQuestion exampleQuestion"
proof -
  have "wfQuestion exampleQuestion"
    by (simp add: wfQuestion_def exampleQuestion_def wfSubpart_def wfScheme_def wfPoint_def between_def textUpTo_def EMPTY_SCHEME_def js_def)
  then show ?thesis
    using example_texts
    by (simp add: cleanQuestion_def cleanPart_def cleanScheme_def exampleQuestion_def wfQuestion_def EMPTY_SCHEME_def)
qed

theorem saved_paper_reopens_witness:
  "pf_paper (openForm ascii_env (js ''2026'') [] (Some (buildSavedPaper ascii_env (js ''t1'') (js ''Physics'') exampleForm (js ''p1'') (js ''t0'')))) =
    pf_paper exampleForm"
proof (rule saved_paper_reopens)
  show "cleanPaper (pf_paper exampleForm)"
    using exampleQuestion_clean example_texts by (simp add: cleanPaper_def wfPaper_def exampleForm_def cleanQuestion_def textUpTo_def js_def)
qed

theorem cleared_prompt_loses_question_witness:
  "pf_paper (openForm ascii_env (js ''2026'') [] (Some (buildSavedPaper ascii_env (js ''t1'') (js ''Physics'') clearedForm (js ''p1'') (js ''t0'')))) =
    EMPTY_GENERATED_PAPER"
  by (subst cleared_prompt_loses_question) (simp_all add: clearedForm_def)


theorem diagram_takes_edits_back_witness:
  "ps_paper (editSheet (DiagramRead 0 (Inr (js ''u''))) (fold editSheet [PromptEdit 0 (js ''Changed'')]
     (editSheet (DiagramChosen 0) \<lparr>ps_paper = pf_paper exampleForm, ps_reading = []\<rparr>))) =
    replaceQuestion 0 (sheetDiagram 0 (js ''u'')) (pf_paper exampleForm)"
  using diagram_takes_edits_back [of "[PromptEdit 0 (js ''Changed'')]" "\<lparr>ps_paper = pf_paper exampleForm, ps_reading = []\<rparr>"] by simp

end
