(* ===== verification/Paper_Sources.thy ===== *)
theory Paper_Sources
  imports Paper_Editing "HOL-Library.Multiset"
begin

text \<open>
  Making an exam paper with the assistant (\<open>apps/teacher/src/PapersView.tsx\<close>): the text of the reference files, what of it is sent,
  and the exchange with the assistant up to the paper that is kept.

  The text that the PDF library finds on a page, whether a file could be fetched, the random numbers of the
  shuffle, the wording of the prompts and the replies of the assistant are arguments.
\<close>

section \<open>The text of a PDF\<close>

text \<open>\<open>replace(/\s+/g, " ")\<close>: runs of white space become one space.\<close>

definition collapse :: "jsstring \<Rightarrow> jsstring" where
  "collapse t = replaceAllBy (Plus rx_s) [32] t"

text \<open>The loop over the pages: it ends when the collected text has reached its limit.\<close>

fun pdfPages :: "int \<Rightarrow> jsstring list list \<Rightarrow> jsstring list \<Rightarrow> int list \<Rightarrow> jsstring list \<times> int list" where
  "pdfPages n [] ps ks = (ps, ks)"
| "pdfPages n (items # rest) ps ks =
     (let t = trim (collapse (joinWith [32] items));
          ps' = (if t \<noteq> [] then ps @ [js ''[Page '' @ showInt n @ js ''] '' @ t] else ps);
          ks' = (if t \<noteq> [] then ks @ [n] else ks)
      in if length (joinWith [10] ps') \<ge> 24000 then (ps', ks') else pdfPages (n + 1) rest ps' ks')"

record pdf_blob =
  pb_size :: int
  pb_type :: jsstring
  pb_pages :: "jsstring list list"

record extracted_pdf =
  ex_text :: jsstring
  ex_pages :: "int list"

definition extractPdfText :: "pdf_blob \<Rightarrow> jsstring \<Rightarrow> jsstring + extracted_pdf" where
  "extractPdfText b name =
     (if pb_size b > 25 * 1024 * 1024 then Inl (name @ js '' is larger than the 25 MB reference limit.'')
      else if pb_type b \<noteq> [] \<and> pb_type b \<noteq> js ''application/pdf'' then Inl (name @ js '' is an image, not a text PDF.'')
      else (case pdfPages 1 (take 40 (pb_pages b)) [] [] of (ps, ks) \<Rightarrow>
        (let t = sliceTo 24000 (joinWith [10] ps)
         in if t = [] then Inl (name @ js '' has no selectable text. Scanned PDFs need OCR before the AI can use them.'')
            else Inr \<lparr>ex_text = t, ex_pages = ks\<rparr>)))"

section \<open>The references\<close>

text \<open>\<open>for (let i = n - 1; i > 0; i -= 1)\<close>: \<open>random i\<close> is the value of \<open>Math.random()\<close> in the turn of \<open>i\<close>.\<close>

definition swapAt :: "nat \<Rightarrow> nat \<Rightarrow> 'a list \<Rightarrow> 'a list" where
  "swapAt i j xs = xs[i := xs ! j, j := xs ! i]"

fun shuffleLoop :: "(nat \<Rightarrow> rat) \<Rightarrow> nat \<Rightarrow> 'a list \<Rightarrow> 'a list" where
  "shuffleLoop random 0 xs = xs"
| "shuffleLoop random (Suc i) xs = shuffleLoop random i (swapAt (Suc i) (nat \<lfloor>random (Suc i) * of_nat (Suc (Suc i))\<rfloor>) xs)"

definition shuffle :: "(nat \<Rightarrow> rat) \<Rightarrow> 'a list \<Rightarrow> 'a list" where
  "shuffle random xs = shuffleLoop random (length xs - 1) xs"

record paper_references =
  pr_context :: jsstring
  pr_sources :: "paper_source_citation list"
  pr_warnings :: "jsstring list"

text \<open>One file after the other: the name, and what reading it gave.\<close>

fun readReferences :: "(jsstring \<times> (jsstring + extracted_pdf)) list \<Rightarrow> jsstring list \<times> paper_source_citation list \<times> jsstring list" where
  "readReferences [] = ([], [], [])"
| "readReferences ((name, outcome) # rest) =
     (case readReferences rest of (refs, ss, ws) \<Rightarrow>
        (case outcome of
           Inr e \<Rightarrow> ((js ''REFERENCE: '' @ name @ [10] @ ex_text e) # refs, \<lparr>source_name = name, pages = ex_pages e\<rparr> # ss, ws)
         | Inl m \<Rightarrow> (refs, ss, m # ws)))"

text \<open>A class material is fetched first, which may fail with a message; one that is not listed any more is passed over.\<close>

definition materialOutcome :: "(jsstring \<Rightarrow> jsstring + pdf_blob) \<Rightarrow> study_node \<Rightarrow> jsstring \<times> (jsstring + extracted_pdf)" where
  "materialOutcome fetch node =
     (node_name node, case fetch (node_id node) of Inl m \<Rightarrow> Inl m | Inr b \<Rightarrow> extractPdfText b (node_name node))"

definition materialOutcomes :: "(jsstring \<Rightarrow> jsstring + pdf_blob) \<Rightarrow> study_node list \<Rightarrow> jsstring list \<Rightarrow> (jsstring \<times> (jsstring + extracted_pdf)) list" where
  "materialOutcomes fetch materials sel =
     List.map_filter (\<lambda>i. map_option (materialOutcome fetch) (List.find (\<lambda>n. node_id n = i) materials)) sel"

definition perReferenceLimit :: "nat \<Rightarrow> int" where
  "perReferenceLimit n = max 2400 (19000 div max 1 (int n))"

definition contextOf :: "jsstring list \<Rightarrow> jsstring" where
  "contextOf refs = sliceTo 19500 (joinWith [10, 10] (map (sliceTo (perReferenceLimit (length refs))) refs))"

definition collectReferences ::
  "(nat \<Rightarrow> rat) \<Rightarrow> (jsstring \<Rightarrow> jsstring + pdf_blob) \<Rightarrow> (local_file \<Rightarrow> pdf_blob) \<Rightarrow> study_node list \<Rightarrow> paper_form \<Rightarrow> jsstring + paper_references" where
  "collectReferences random fetch readFile materials f =
     (let sel = pf_selected f; files = pf_files f
      in if length sel + length files > 8 then Inl (js ''Select no more than eight PDF references for one paper.'')
         else if sum_list (map lf_size files) > 100 * 1024 * 1024 then Inl (js ''Local PDF references must be 100 MB or less in total.'')
         else (case readReferences (materialOutcomes fetch materials sel @ map (\<lambda>l. (lf_name l, extractPdfText (readFile l) (lf_name l))) files) of
           (refs, ss, ws) \<Rightarrow>
             if (sel \<noteq> [] \<or> files \<noteq> []) \<and> refs = []
             then Inl (orElse (joinWith [32] ws) (js ''None of the selected references could be read.''))
             else Inr \<lparr>pr_context = contextOf (shuffle random refs), pr_sources = ss, pr_warnings = ws\<rparr>))"

section \<open>The exchange with the assistant\<close>

text \<open>A call: whether it asks for a repair and with which counts, the context sent with it, and the limit of tokens.\<close>

record chat_call =
  cc_repair :: bool
  cc_counts :: "(nat \<times> rat) option"
  cc_context :: jsstring
  cc_tokens :: rat

definition meetsRequest :: "paper_form \<Rightarrow> generated_paper \<Rightarrow> bool" where
  "meetsRequest f p \<longleftrightarrow> of_nat (length (questions p)) = pf_count f \<and> paperTotalMarks p = pf_total f"

text \<open>What the code sends and keeps: \<open>reply\<close> gives the answers of the calls in their order.\<close>

definition repairTokens :: "rat \<Rightarrow> rat" where
  "repairTokens tokens = max tokens 8192"

definition requestDraft ::
  "js_env \<Rightarrow> json_parser \<Rightarrow> (nat \<Rightarrow> jsstring + jsstring) \<Rightarrow> rat \<Rightarrow> jsstring \<Rightarrow> (jsstring + generated_paper) \<times> chat_call list" where
  "requestDraft U parse reply tokens context =
     (let first = \<lparr>cc_repair = False, cc_counts = None, cc_context = context, cc_tokens = tokens\<rparr>
      in case reply 0 of
        Inl e \<Rightarrow> (Inl e, [first])
      | Inr content \<Rightarrow>
          if trim content = [] then (Inl (js ''The AI returned an empty paper.''), [first])
          else (case parseGeneratedPaperResponse U parse content of
            Inr p \<Rightarrow> (Inr p, [first])
          | Inl _ \<Rightarrow>
              (let second = \<lparr>cc_repair = True, cc_counts = None, cc_context = sliceTo 19500 (js ''DRAFT TO REPAIR:'' @ [10] @ content),
                     cc_tokens = repairTokens tokens\<rparr>
               in (case reply 1 of Inl e \<Rightarrow> Inl e | Inr content \<Rightarrow> parseGeneratedPaperResponse U parse content, [first, second]))))"

definition couldNotMeet :: "js_env \<Rightarrow> paper_form \<Rightarrow> jsstring" where
  "couldNotMeet U f = js ''The AI could not meet the requested structure ('' @ numToString U (pf_count f) @ js '' questions, '' @
     numToString U (pf_total f) @ js '' marks). No incomplete paper was saved.''"

definition requestPaper ::
  "js_env \<Rightarrow> json_parser \<Rightarrow> (json \<Rightarrow> jsstring) \<Rightarrow> (nat \<Rightarrow> jsstring + jsstring) \<Rightarrow> rat \<Rightarrow> paper_form \<Rightarrow> jsstring \<Rightarrow>
     (jsstring + generated_paper) \<times> chat_call list" where
  "requestPaper U parse stringify reply tokens f context =
     (case requestDraft U parse reply tokens context of
        (Inl e, calls) \<Rightarrow> (Inl e, calls)
      | (Inr p, calls) \<Rightarrow>
          if meetsRequest f p then (Inr p, calls)
          else (let call = \<lparr>cc_repair = True, cc_counts = Some (length (questions p), paperTotalMarks p),
                      cc_context = sliceTo 19500 (stringify (specJson p)), cc_tokens = repairTokens tokens\<rparr>
                in (case reply (length calls) of
                      Inl e \<Rightarrow> Inl e
                    | Inr content \<Rightarrow> (case parseGeneratedPaperResponse U parse content of
                        Inl e \<Rightarrow> Inl e
                      | Inr q \<Rightarrow> if meetsRequest f q then Inr q else Inl (couldNotMeet U f)), calls @ [call])))"

text \<open>What is refused before anything is read.\<close>

definition generateRefused :: "classroom list \<Rightarrow> paper_form \<Rightarrow> jsstring option" where
  "generateRefused classrooms f =
     (if List.find (\<lambda>c. classroom_id c = pf_classroom f) classrooms = None then Some (js ''Choose a classroom before creating a paper.'')
      else if pf_total f < pf_count f then Some (js ''Total marks must be at least the number of questions.'')
      else if pf_mode f \<noteq> Adapt \<and> \<not> pf_rights f
      then Some (js ''Confirm your school may reproduce this board's material, or switch back to adapted questions.'')
      else None)"

text \<open>The paper that is saved: a new one gets an identifier and its time.\<close>

definition generatedPaper ::
  "js_env \<Rightarrow> jsstring \<Rightarrow> jsstring \<Rightarrow> jsstring \<Rightarrow> paper_form \<Rightarrow> jsstring \<Rightarrow> jsstring \<Rightarrow> paper_references \<Rightarrow> generated_paper \<Rightarrow> saved_question_paper" where
  "generatedPaper U nowText newId subj f paperId created refs p =
     buildSavedPaper U nowText subj (f\<lparr>pf_sources := pr_sources refs, pf_paper := p\<rparr>)
       (if paperId = [] then newId else paperId) (if paperId = [] then nowText else created)"

definition generate ::
  "js_env \<Rightarrow> json_parser \<Rightarrow> (json \<Rightarrow> jsstring) \<Rightarrow> (nat \<Rightarrow> jsstring + jsstring) \<Rightarrow> classroom list \<Rightarrow> paper_form \<Rightarrow>
     (jsstring + paper_references) \<Rightarrow> (jsstring + paper_references \<times> generated_paper) \<times> chat_call list" where
  "generate U parse stringify reply classrooms f refs =
     (case generateRefused classrooms f of
        Some m \<Rightarrow> (Inl m, [])
      | None \<Rightarrow> (case refs of
          Inl m \<Rightarrow> (Inl m, [])
        | Inr r \<Rightarrow>
            (let tokens = normalizePaperOutputTokens U (Some (JNum (pa_tokens (pf_advanced f))))
             in case requestPaper U parse stringify reply tokens f (pr_context r) of
               (Inl m, calls) \<Rightarrow> (Inl m, calls)
             | (Inr p, calls) \<Rightarrow> (Inr (r, p), calls))))"

section \<open>Lemmas\<close>

lemma parse_wf: "parseGeneratedPaperResponse U parse v = Inr p \<Longrightarrow> wfPaper p"
  by (auto simp: parseGeneratedPaperResponse_def split: sum.splits if_splits dest: parseAndNormalize_wf recoverOrFail_wf)

lemma mset_swapAt: "i < length xs \<Longrightarrow> j < length xs \<Longrightarrow> mset (swapAt i j xs) = mset xs"
  by (simp add: swapAt_def mset_swap)

lemma length_swapAt [simp]: "length (swapAt i j xs) = length xs"
  by (simp add: swapAt_def)

text \<open>A random number below one chooses a place of the list.\<close>

lemma random_place:
  assumes "0 \<le> r" "r < (1 :: rat)"
  shows "nat \<lfloor>r * of_nat (Suc i)\<rfloor> \<le> i"
proof -
  have "r * of_nat (Suc i) < of_nat (Suc i)" using assms mult_strict_right_mono [of r 1 "of_nat (Suc i)"] by simp
  then have "\<lfloor>r * of_nat (Suc i)\<rfloor> < int (Suc i)" by (simp add: floor_less_iff)
  then show ?thesis by linarith
qed

lemma mset_shuffleLoop:
  assumes "\<And>i. 0 \<le> random i \<and> random i < 1" "n < length xs"
  shows "mset (shuffleLoop random n xs) = mset xs"
  using assms(2)
proof (induction n arbitrary: xs)
  case (Suc n)
  let ?j = "nat \<lfloor>random (Suc n) * of_nat (Suc (Suc n))\<rfloor>"
  have "?j \<le> Suc n" using random_place [of "random (Suc n)" "Suc n"] assms(1) by blast
  then have "mset (swapAt (Suc n) ?j xs) = mset xs" using Suc.prems by (intro mset_swapAt) auto
  then show ?case using Suc.IH [of "swapAt (Suc n) ?j xs"] Suc.prems by simp
qed simp

lemma mset_shuffle:
  assumes "\<And>i. 0 \<le> random i \<and> random i < 1"
  shows "mset (shuffle random xs) = mset xs"
  using mset_shuffleLoop [OF assms, of "length xs - 1" xs] by (cases "xs = []") (simp_all add: shuffle_def)

lemma length_joinWith_le:
  "list_all (\<lambda>t. int (length t) \<le> b) ts \<Longrightarrow> 0 \<le> b \<Longrightarrow> int (length (joinWith sep ts)) \<le> int (length ts) * (b + int (length sep))"
  by (induction sep ts rule: joinWith.induct) (auto simp: algebra_simps)

text \<open>The shares of at most eight references fit into what is sent.\<close>

lemma shares_fit:
  assumes "n \<le> 8"
  shows "int n * (perReferenceLimit n + 2) \<le> 19500"
proof -
  have "n = 0 \<or> n = 1 \<or> n = 2 \<or> n = 3 \<or> n = 4 \<or> n = 5 \<or> n = 6 \<or> n = 7 \<or> n = 8" using assms by arith
  then show ?thesis by (elim disjE) (simp_all add: perReferenceLimit_def)
qed

lemma contextOf_shares:
  assumes "length refs \<le> 8"
  shows "contextOf refs = joinWith [10, 10] (map (sliceTo (perReferenceLimit (length refs))) refs)"
proof -
  let ?b = "perReferenceLimit (length refs)"
  have b: "0 \<le> ?b" by (simp add: perReferenceLimit_def)
  have "list_all (\<lambda>t. int (length t) \<le> ?b) (map (sliceTo ?b) refs)" by (simp add: list_all_iff length_sliceTo [OF b])
  from length_joinWith_le [OF this b, of "[10, 10]"] shares_fit [OF assms] show ?thesis
    by (simp add: contextOf_def sliceTo_all)
qed

lemma readReferences_lengths:
  "case readReferences rs of (refs, ss, ws) \<Rightarrow> length refs \<le> length rs \<and> length ss = length refs \<and> length refs + length ws = length rs"
  by (induction rs rule: readReferences.induct) (auto split: sum.splits prod.splits)

lemma length_map_filter: "length (List.map_filter f xs) \<le> length xs"
  by (induction xs) (auto simp: List.map_filter_simps split: option.splits)

lemma collectReferences_cases:
  assumes "collectReferences random fetch readFile materials f = Inr r"
    "readReferences (materialOutcomes fetch materials (pf_selected f) @ map (\<lambda>l. (lf_name l, extractPdfText (readFile l) (lf_name l))) (pf_files f)) =
      (refs, ss, ws)"
  shows "length (pf_selected f) + length (pf_files f) \<le> 8" "pr_context r = contextOf (shuffle random refs)" "pr_sources r = ss"
proof -
  have r: "(if length (pf_selected f) + length (pf_files f) > 8 then Inl a else if b then Inl c else if d then Inl e
      else Inr \<lparr>pr_context = contextOf (shuffle random refs), pr_sources = ss, pr_warnings = ws\<rparr>) = Inr r"
    if "a = js ''Select no more than eight PDF references for one paper.''" "b = (sum_list (map lf_size (pf_files f)) > 100 * 1024 * 1024)"
      "c = js ''Local PDF references must be 100 MB or less in total.''" "d = ((pf_selected f \<noteq> [] \<or> pf_files f \<noteq> []) \<and> refs = [])"
      "e = orElse (joinWith [32] ws) (js ''None of the selected references could be read.'')" for a b c d e
    using assms(1) unfolding collectReferences_def Let_def assms(2) prod.case that .
  from r [OF refl refl refl refl refl] show "length (pf_selected f) + length (pf_files f) \<le> 8" "pr_context r = contextOf (shuffle random refs)" "pr_sources r = ss"
    by (auto split: if_splits)
qed

lemma requestDraft_calls:
  "case requestDraft U parse reply tokens ctx of (out, calls) \<Rightarrow>
     length calls \<le> 2 \<and> (out \<in> range Inr \<longrightarrow> calls \<noteq> []) \<and> (\<forall>p. out = Inr p \<longrightarrow> wfPaper p) \<and>
     list_all (\<lambda>c. cc_context c = ctx \<or> length (cc_context c) \<le> 19500) calls"
  using length_sliceTo [of 19500 "js ''DRAFT TO REPAIR:'' @ 10 # content" for content]
  by (auto simp: requestDraft_def Let_def parse_wf split: sum.splits)

section \<open>Properties\<close>

text \<open>C24: A paper that the assistant made is the one that was asked for: it has exactly the number of questions and of marks of the form, is
  well formed, was asked for with the rights the source needs, and took at most three calls, each of which sent the references or at
  most 19,500 characters.\<close>

theorem generated_paper_meets_request:
  assumes "generate U parse stringify reply classrooms f refs = (Inr (r, p), calls)"
  shows "of_nat (length (questions p)) = pf_count f \<and> paperTotalMarks p = pf_total f \<and> wfPaper p \<and> (pf_mode f = Adapt \<or> pf_rights f) \<and>
    length calls \<le> 3 \<and> list_all (\<lambda>c. cc_context c = pr_context r \<or> length (cc_context c) \<le> 19500) calls"
proof -
  let ?t = "normalizePaperOutputTokens U (Some (JNum (pa_tokens (pf_advanced f))))"
  have r: "generateRefused classrooms f = None" "requestPaper U parse stringify reply ?t f (pr_context r) = (Inr p, calls)"
    using assms by (auto simp: generate_def Let_def split: option.splits sum.splits prod.splits)
  obtain q qcalls where d: "requestDraft U parse reply ?t (pr_context r) = (Inr q, qcalls)"
    using r(2) by (auto simp: requestPaper_def split: prod.splits sum.splits)
  have dq: "length qcalls \<le> 2" "wfPaper q" "list_all (\<lambda>c. cc_context c = pr_context r \<or> length (cc_context c) \<le> 19500) qcalls"
    using requestDraft_calls [where U = U and parse = parse and reply = reply and tokens = ?t and ctx = "pr_context r"] unfolding d by auto
  have cut: "length (sliceTo 19500 t) \<le> 19500" for t :: jsstring using length_sliceTo [of 19500 t] by simp
  have "meetsRequest f p \<and> wfPaper p \<and> length calls \<le> 3 \<and> list_all (\<lambda>c. cc_context c = pr_context r \<or> length (cc_context c) \<le> 19500) calls"
  proof (cases "meetsRequest f q")
    case True
    then show ?thesis using r(2) d dq by (simp add: requestPaper_def)
  next
    case False
    then show ?thesis using r(2) d dq cut by (auto simp: requestPaper_def parse_wf Let_def split: sum.splits if_splits)
  qed
  moreover have "pf_mode f = Adapt \<or> pf_rights f" using r(1) by (auto simp: generateRefused_def split: if_splits)
  ultimately show ?thesis by (simp add: meetsRequest_def)
qed

text \<open>Every reference that could be read has its share of what is sent: at most eight are taken, what is sent is their beginnings, each up
  to the same limit and none cut short by the limit of the whole, in some order; and each of them is cited.\<close>

theorem references_share_context:
  assumes "collectReferences random fetch readFile materials f = Inr r" "\<And>i. 0 \<le> random i \<and> random i < 1"
  shows "\<exists>refs. mset refs = mset (fst (readReferences (materialOutcomes fetch materials (pf_selected f) @
        map (\<lambda>l. (lf_name l, extractPdfText (readFile l) (lf_name l))) (pf_files f)))) \<and> length refs \<le> 8 \<and>
      pr_context r = joinWith [10, 10] (map (sliceTo (perReferenceLimit (length refs))) refs) \<and> length (pr_sources r) = length refs"
proof -
  let ?rs = "materialOutcomes fetch materials (pf_selected f) @ map (\<lambda>l. (lf_name l, extractPdfText (readFile l) (lf_name l))) (pf_files f)"
  obtain refs ss ws where e: "readReferences ?rs = (refs, ss, ws)" by (rule prod_cases3)
  note n = collectReferences_cases(1) [OF assms(1) e] and r = collectReferences_cases(2,3) [OF assms(1) e]
  have l: "length refs \<le> length ?rs" "length ss = length refs" using readReferences_lengths [of ?rs] unfolding e by simp_all
  have "length (materialOutcomes fetch materials (pf_selected f)) \<le> length (pf_selected f)" by (simp add: materialOutcomes_def length_map_filter)
  then have k: "length refs \<le> 8" using l(1) n by simp
  have m: "mset (shuffle random refs) = mset refs" by (rule mset_shuffle [OF assms(2)])
  have s: "length (shuffle random refs) = length refs" using arg_cong [OF m, of size] by simp
  have c: "pr_context r = joinWith [10, 10] (map (sliceTo (perReferenceLimit (length (shuffle random refs)))) (shuffle random refs))"
    unfolding r(1) by (rule contextOf_shares) (simp only: s k)
  have a: "mset (shuffle random refs) = mset (fst (readReferences ?rs))" by (simp only: m e fst_conv)
  have b: "length (shuffle random refs) \<le> 8" by (simp only: s k)
  have d: "length (pr_sources r) = length (shuffle random refs)" by (simp only: s r(2) l(2))
  show ?thesis using a b c d by (intro exI [of _ "shuffle random refs"] conjI)
qed

section \<open>Examples\<close>

definition exampleReferences :: paper_references where
  "exampleReferences = \<lparr>pr_context = [], pr_sources = [], pr_warnings = []\<rparr>"

definition exampleRoom :: classroom where
  "exampleRoom = \<lparr>classroom_id = js ''c1'', classroom_name = js ''Physics'', subject_code = None, description = [], color = [], owner_teacher_id = [],
     owner_teacher_name = [], enrolment_code = [], student_count = 0, classroom_created_at = []\<rparr>"

definition requestForm :: paper_form where
  "requestForm = (openForm ascii_env (js ''2026'') [exampleRoom] None)\<lparr>pf_count := 1, pf_total := 3\<rparr>"

theorem generated_paper_meets_request_witness:
  "case generate ascii_env sampleParser (\<lambda>_. []) (\<lambda>_. Inr sampleText) [exampleRoom] requestForm (Inr exampleReferences) of
     (Inr (r, p), calls) \<Rightarrow> length (questions p) = 1 \<and> paperTotalMarks p = 3 \<and> wfPaper p
   | (Inl m, calls) \<Rightarrow> False"
proof -
  have e: "case generate ascii_env sampleParser (\<lambda>_. []) (\<lambda>_. Inr sampleText) [exampleRoom] requestForm (Inr exampleReferences) of
     (Inr _, _) \<Rightarrow> True | (Inl _, _) \<Rightarrow> False" by code_simp
  then obtain r p calls where g: "generate ascii_env sampleParser (\<lambda>_. []) (\<lambda>_. Inr sampleText) [exampleRoom] requestForm (Inr exampleReferences) =
     (Inr (r, p), calls)" by (auto split: prod.splits sum.splits)
  have "pf_count requestForm = 1" "pf_total requestForm = 3" by (simp_all add: requestForm_def)
  then show ?thesis using generated_paper_meets_request [OF g] g by simp
qed

definition exampleBlob :: pdf_blob where
  "exampleBlob = \<lparr>pb_size = 10, pb_type = js ''application/pdf'', pb_pages = [[js ''A'', js ''B'']]\<rparr>"

theorem references_share_context_witness:
  "case collectReferences (\<lambda>_. 0) (\<lambda>_. Inl []) (\<lambda>_. exampleBlob) [] (requestForm\<lparr>pf_files := [\<lparr>lf_name = js ''f'', lf_size = 10\<rparr>]\<rparr>) of
     Inr r \<Rightarrow> length (pr_sources r) \<le> 8 | Inl m \<Rightarrow> False"
proof -
  let ?f = "requestForm\<lparr>pf_files := [\<lparr>lf_name = js ''f'', lf_size = 10\<rparr>]\<rparr>"
  have "case collectReferences (\<lambda>_. 0) (\<lambda>_. Inl []) (\<lambda>_. exampleBlob) [] ?f of Inr r \<Rightarrow> True | Inl m \<Rightarrow> False" by code_simp
  then obtain r where r: "collectReferences (\<lambda>_. 0) (\<lambda>_. Inl []) (\<lambda>_. exampleBlob) [] ?f = Inr r" by (auto split: sum.splits)
  show ?thesis using references_share_context [OF r] r by auto
qed

end
