(* ===== verification/Paper_Studio.thy ===== *)
theory Paper_Studio
  imports Paper_Sources
begin

text \<open>
  The workspace of the exam papers (\<open>PapersView\<close> and \<open>QuestionPaperStudio\<close> of \<open>apps/teacher/src/PapersView.tsx\<close>): the library
  of saved papers, the paper that is open, the studio that is mounted for it, its saving after a pause and when it is left, and
  the deletion of papers.

  The studio has a key, the identifier of the paper that is open or a number for a new one: when the key changes, the studio is
  unmounted, which saves what it showed, and another is mounted with the paper found in the library. Every operation is
  followed by a rendering at the time it happens, which renews what the studio would save. The requests on their way are
  kept with what their continuation captured; every request sent is also kept in order. The order that the
  comparison of the locale gives the library is a parameter.
\<close>

section \<open>State\<close>

record papers_env =
  px_js :: js_env
  px_year :: jsstring
  px_rooms :: "classroom list"
  px_order :: "saved_question_paper list \<Rightarrow> saved_question_paper list"

datatype studio_key = PaperKey jsstring | NewKey nat

record paper_studio =
  sd_number :: nat
  sd_form :: paper_form
  sd_reading :: "(generated_paper \<times> nat) list"
  sd_id :: jsstring
  sd_created :: jsstring
  sd_status :: jsstring
  sd_busy :: bool
  sd_deleting :: bool
  sd_discarding :: bool
  sd_latest :: "saved_question_paper option"
  sd_timer :: "saved_question_paper option"

datatype papers_call =
    SaveCall saved_question_paper "nat option"
  | GenerateCall paper_form jsstring jsstring jsstring nat
  | GeneratedSave saved_question_paper "jsstring list" paper_form nat
  | DeleteCall jsstring "jsstring option" "nat option"

datatype papers_request = SaveRequest saved_question_paper | DeleteRequest jsstring

record papers_view =
  pv_papers :: "saved_question_paper list"
  pv_error :: jsstring
  pv_active :: "jsstring option"
  pv_store :: local_storage
  pv_version :: nat
  pv_key :: studio_key
  pv_studio :: paper_studio
  pv_calls :: "papers_call list"
  pv_sent :: "papers_request list"

definition ACTIVE_PAPER_KEY :: jsstring where
  "ACTIVE_PAPER_KEY = js ''cinder.teacher.active-question-paper''"

definition activePaper :: "papers_view \<Rightarrow> saved_question_paper option" where
  "activePaper w = (case pv_active w of Some i \<Rightarrow> List.find (\<lambda>p. saved_id p = i) (pv_papers w) | None \<Rightarrow> None)"

definition viewKey :: "papers_view \<Rightarrow> studio_key" where
  "viewKey w = (case pv_active w of Some i \<Rightarrow> PaperKey i | None \<Rightarrow> NewKey (pv_version w))"

text \<open>The filter of the library.\<close>

definition visiblePapers :: "(jsstring \<Rightarrow> jsstring) \<Rightarrow> jsstring \<Rightarrow> papers_view \<Rightarrow> saved_question_paper list" where
  "visiblePapers lower libraryFilter w =
     (let flt = lower (trim libraryFilter)
      in if flt = [] then pv_papers w
         else filter (\<lambda>p. strIncludes (lower (saved_title p @ [32] @ saved_subject p @ [32] @
           (case saved_syllabusCode p of Some t \<Rightarrow> t | None \<Rightarrow> []))) flt) (pv_papers w))"

section \<open>Rendering\<close>

text \<open>\<open>latestPaperRef.current\<close> after a rendering, and what the timer depends on.\<close>

definition latestPaper :: "papers_env \<Rightarrow> jsstring \<Rightarrow> saved_question_paper option \<Rightarrow> paper_studio \<Rightarrow> saved_question_paper option" where
  "latestPaper X nowText saved sd =
     (if sd_id sd \<noteq> [] \<and> questions (pf_paper (sd_form sd)) \<noteq> []
      then Some (buildSavedPaper (px_js X) nowText (subjectOf (px_rooms X) saved (sd_form sd)) (sd_form sd) (sd_id sd) (sd_created sd))
      else None)"

definition savedPart :: "paper_form \<Rightarrow> paper_form" where
  "savedPart f = f\<lparr>pf_count := 0, pf_total := 0, pf_brief := [], pf_selected := [], pf_files := []\<rparr>"

definition timerDeps :: "papers_env \<Rightarrow> papers_view \<Rightarrow> paper_form \<times> jsstring \<times> jsstring \<times> jsstring" where
  "timerDeps X w = (savedPart (sd_form (pv_studio w)), subjectOf (px_rooms X) (activePaper w) (sd_form (pv_studio w)),
     sd_id (pv_studio w), sd_created (pv_studio w))"

definition mountStudio :: "papers_env \<Rightarrow> jsstring \<Rightarrow> nat \<Rightarrow> saved_question_paper option \<Rightarrow> paper_studio" where
  "mountStudio X nowText n saved =
     (let sd = \<lparr>sd_number = n, sd_form = openForm (px_js X) (px_year X) (px_rooms X) saved, sd_reading = [],
            sd_id = (case saved of Some p \<Rightarrow> saved_id p | None \<Rightarrow> []), sd_created = (case saved of Some p \<Rightarrow> createdAt p | None \<Rightarrow> nowText),
            sd_status = (if saved = None then [] else js ''Saved paper opened.''), sd_busy = False, sd_deleting = False, sd_discarding = False,
            sd_latest = None, sd_timer = None\<rparr>
      in sd\<lparr>sd_latest := latestPaper X nowText saved sd, sd_timer := latestPaper X nowText saved sd\<rparr>)"

definition sendSave :: "saved_question_paper \<Rightarrow> papers_call \<Rightarrow> papers_view \<Rightarrow> papers_view" where
  "sendSave p call w = w\<lparr>pv_calls := pv_calls w @ [call], pv_sent := pv_sent w @ [SaveRequest p]\<rparr>"

definition unmountStudio :: "papers_view \<Rightarrow> papers_view" where
  "unmountStudio w = (let sd = pv_studio w in
     if sd_discarding sd then w else (case sd_latest sd of Some p \<Rightarrow> sendSave p (SaveCall p None) w | None \<Rightarrow> w))"

text \<open>\<open>w0\<close> is the state before the operation.\<close>

definition renderView :: "papers_env \<Rightarrow> jsstring \<Rightarrow> papers_view \<Rightarrow> papers_view \<Rightarrow> papers_view" where
  "renderView X nowText w0 w =
     (if viewKey w = pv_key w
      then (let latest = latestPaper X nowText (activePaper w) (pv_studio w)
            in w\<lparr>pv_studio := (pv_studio w)\<lparr>sd_latest := latest, sd_timer := (if timerDeps X w = timerDeps X w0 then sd_timer (pv_studio w) else latest)\<rparr>\<rparr>)
      else (unmountStudio w)\<lparr>pv_key := viewKey w, pv_studio := mountStudio X nowText (Suc (sd_number (pv_studio w))) (activePaper w)\<rparr>)"

section \<open>Operations\<close>

text \<open>The first list of the library, and the studio that is mounted then.\<close>

definition startPapers :: "papers_env \<Rightarrow> jsstring \<Rightarrow> jsstring + saved_question_paper list \<Rightarrow> local_storage \<Rightarrow> papers_view" where
  "startPapers X nowText outcome st =
     (let remembered = getItem st ACTIVE_PAPER_KEY;
          papers = (case outcome of Inr ps \<Rightarrow> ps | Inl _ \<Rightarrow> []);
          forget = (case (outcome, remembered) of (Inr ps, Some (c # i)) \<Rightarrow> \<not> list_ex (\<lambda>p. saved_id p = c # i) ps | _ \<Rightarrow> False);
          w = \<lparr>pv_papers = papers, pv_error = (case outcome of Inl m \<Rightarrow> js ''Saved papers could not be opened: '' @ m | Inr _ \<Rightarrow> []),
               pv_active = (if forget then None else remembered), pv_store = (if forget then removeItem ACTIVE_PAPER_KEY st else st),
               pv_version = 0, pv_key = NewKey 0, pv_studio = mountStudio X nowText 0 None, pv_calls = [], pv_sent = []\<rparr>
      in w\<lparr>pv_key := viewKey w, pv_studio := mountStudio X nowText 0 (activePaper w)\<rparr>)"

definition openPaper :: "jsstring \<Rightarrow> papers_view \<Rightarrow> papers_view" where
  "openPaper i w = w\<lparr>pv_active := Some i, pv_store := setItem ACTIVE_PAPER_KEY i (pv_store w)\<rparr>"

definition startNewPaper :: "papers_view \<Rightarrow> papers_view" where
  "startNewPaper w = w\<lparr>pv_active := None, pv_store := removeItem ACTIVE_PAPER_KEY (pv_store w), pv_version := Suc (pv_version w)\<rparr>"

definition removePaper :: "jsstring \<Rightarrow> nat option \<Rightarrow> papers_view \<Rightarrow> papers_view" where
  "removePaper i who w = w\<lparr>pv_calls := pv_calls w @ [DeleteCall i (pv_active w) who], pv_sent := pv_sent w @ [DeleteRequest i]\<rparr>"

text \<open>\<open>savePaperRecord\<close> and \<open>removePaper\<close> after the host has answered.\<close>

definition paperSaved :: "papers_env \<Rightarrow> saved_question_paper \<Rightarrow> papers_view \<Rightarrow> papers_view" where
  "paperSaved X p w = w\<lparr>pv_store := setItem ACTIVE_PAPER_KEY (saved_id p) (pv_store w),
     pv_papers := px_order X (p # filter (\<lambda>q. saved_id q \<noteq> saved_id p) (pv_papers w)), pv_active := Some (saved_id p)\<rparr>"

definition paperRemoved :: "jsstring \<Rightarrow> jsstring option \<Rightarrow> papers_view \<Rightarrow> papers_view" where
  "paperRemoved i active0 w =
     (let w = w\<lparr>pv_papers := filter (\<lambda>q. saved_id q \<noteq> i) (pv_papers w)\<rparr>
      in if active0 = Some i then w\<lparr>pv_active := None, pv_store := removeItem ACTIVE_PAPER_KEY (pv_store w)\<rparr> else w)"

text \<open>A change of a studio that may have been unmounted since.\<close>

definition onStudio :: "nat \<Rightarrow> (paper_studio \<Rightarrow> paper_studio) \<Rightarrow> papers_view \<Rightarrow> papers_view" where
  "onStudio n f w = (if sd_number (pv_studio w) = n then w\<lparr>pv_studio := f (pv_studio w)\<rparr> else w)"

definition skippedNote :: "jsstring list \<Rightarrow> jsstring" where
  "skippedNote warnings = (if warnings \<noteq> [] then js ''Paper saved. Some references were skipped: '' @ joinWith [32] warnings
     else js ''Paper and separate answer key saved. Review before printing.'')"

definition unchangedNote :: "jsstring \<Rightarrow> paper_form \<Rightarrow> jsstring" where
  "unchangedNote m f = (if questions (pf_paper f) \<noteq> [] then m @ js '' The current preview was left unchanged.'' else m)"

fun answerCall :: "papers_env \<Rightarrow> jsstring + unit \<Rightarrow> papers_call \<Rightarrow> papers_view \<Rightarrow> papers_view" where
  "answerCall X outcome (SaveCall p who) w =
     (case outcome of
        Inr _ \<Rightarrow> (case who of Some n \<Rightarrow> onStudio n (sd_status_update (\<lambda>_. js ''Saved to the school server.'')) | None \<Rightarrow> id) (paperSaved X p w)
      | Inl m \<Rightarrow> (case who of Some n \<Rightarrow> onStudio n (sd_status_update (\<lambda>_. js ''The paper could not be saved: '' @ m)) | None \<Rightarrow> id) w)"
| "answerCall X outcome (GeneratedSave p warnings f n) w =
     (case outcome of
        Inr _ \<Rightarrow> onStudio n (\<lambda>sd. sd\<lparr>sd_status := skippedNote warnings, sd_busy := False\<rparr>) (paperSaved X p w)
      | Inl m \<Rightarrow> onStudio n (\<lambda>sd. sd\<lparr>sd_status := unchangedNote m f, sd_busy := False\<rparr>) w)"
| "answerCall X outcome (DeleteCall i active0 who) w =
     (case outcome of
        Inr _ \<Rightarrow> paperRemoved i active0 w
      | Inl m \<Rightarrow> (case who of
          Some n \<Rightarrow> onStudio n (\<lambda>sd. sd\<lparr>sd_discarding := False, sd_deleting := False, sd_status := js ''The paper could not be deleted: '' @ m\<rparr>) w
        | None \<Rightarrow> w))"
| "answerCall X outcome (GenerateCall f i created subj n) w = w"

definition timerFired :: "papers_view \<Rightarrow> papers_view" where
  "timerFired w = (let sd = pv_studio w; w' = w\<lparr>pv_studio := sd\<lparr>sd_timer := None\<rparr>\<rparr> in
     case sd_timer sd of
       None \<Rightarrow> w
     | Some p \<Rightarrow> if sd_discarding sd then w' else sendSave p (SaveCall p (Some (sd_number sd))) w')"

definition deleteCurrentPaper :: "papers_view \<Rightarrow> papers_view" where
  "deleteCurrentPaper w = (let sd = pv_studio w in
     if sd_id sd = [] \<or> sd_deleting sd \<or> sd_busy sd then w
     else removePaper (sd_id sd) (Some (sd_number sd)) (w\<lparr>pv_studio := sd\<lparr>sd_discarding := True, sd_deleting := True\<rparr>\<rparr>))"

definition generateStarted :: "papers_env \<Rightarrow> papers_view \<Rightarrow> papers_view" where
  "generateStarted X w = (let sd = pv_studio w; f = sd_form sd in
     if sd_busy sd \<or> trim (pf_title f) = [] \<or> pf_classroom f = [] then w
     else (case generateRefused (px_rooms X) f of
         Some m \<Rightarrow> w\<lparr>pv_studio := sd\<lparr>sd_status := m\<rparr>\<rparr>
       | None \<Rightarrow> w\<lparr>pv_studio := sd\<lparr>sd_busy := True, sd_status := []\<rparr>,
           pv_calls := pv_calls w @ [GenerateCall f (sd_id sd) (sd_created sd) (subjectOf (px_rooms X) (activePaper w) f) (sd_number sd)]\<rparr>))"

text \<open>The paper that the exchange gave is shown and saved, or the reason is; \<open>newId\<close> is the identifier a new paper gets.\<close>

definition generateFinished ::
  "papers_env \<Rightarrow> jsstring \<Rightarrow> jsstring \<Rightarrow> jsstring + paper_references \<times> generated_paper \<Rightarrow> papers_call \<Rightarrow> papers_view \<Rightarrow> papers_view" where
  "generateFinished X nowText newId outcome call w = (case call of
      GenerateCall f i created subj n \<Rightarrow> (case outcome of
          Inl m \<Rightarrow> onStudio n (\<lambda>sd. sd\<lparr>sd_status := unchangedNote m f, sd_busy := False\<rparr>) w
        | Inr (refs, p) \<Rightarrow>
            (let saved = generatedPaper (px_js X) nowText newId subj f i created refs p
             in sendSave saved (GeneratedSave saved (pr_warnings refs) f n)
                  (onStudio n (\<lambda>sd. sd\<lparr>sd_id := saved_id saved, sd_created := (if i = [] then nowText else sd_created sd),
                     sd_form := (sd_form sd)\<lparr>pf_sources := pr_sources refs, pf_paper := p\<rparr>\<rparr>) w)))
    | _ \<Rightarrow> w)"

definition editStudio :: "sheet_edit \<Rightarrow> paper_studio \<Rightarrow> paper_studio" where
  "editStudio e sd = (let s = editSheet e \<lparr>ps_paper = pf_paper (sd_form sd), ps_reading = sd_reading sd\<rparr>
     in sd\<lparr>sd_form := (sd_form sd)\<lparr>pf_paper := ps_paper s\<rparr>, sd_reading := ps_reading s\<rparr>)"

datatype papers_op =
    OpenPaper jsstring
  | NewPaper
  | RemovePaper jsstring
  | DeleteCurrent
  | ChangeField paper_field
  | EditPaper sheet_edit
  | TimerFired
  | GenerateStarted
  | GenerateFinished nat jsstring "jsstring + paper_references \<times> generated_paper"
  | CallAnswered nat "jsstring + unit"

definition dropCall :: "nat \<Rightarrow> papers_view \<Rightarrow> papers_view" where
  "dropCall k w = w\<lparr>pv_calls := take k (pv_calls w) @ drop (Suc k) (pv_calls w)\<rparr>"

fun applyPapers :: "papers_env \<Rightarrow> jsstring \<Rightarrow> papers_op \<Rightarrow> papers_view \<Rightarrow> papers_view" where
  "applyPapers X nowText (OpenPaper i) w = openPaper i w"
| "applyPapers X nowText NewPaper w = startNewPaper w"
| "applyPapers X nowText (RemovePaper i) w = removePaper i None w"
| "applyPapers X nowText DeleteCurrent w = deleteCurrentPaper w"
| "applyPapers X nowText (ChangeField e) w = w\<lparr>pv_studio := (pv_studio w)\<lparr>sd_form := changeField (px_rooms X) e (sd_form (pv_studio w))\<rparr>\<rparr>"
| "applyPapers X nowText (EditPaper e) w = w\<lparr>pv_studio := editStudio e (pv_studio w)\<rparr>"
| "applyPapers X nowText TimerFired w = timerFired w"
| "applyPapers X nowText GenerateStarted w = generateStarted X w"
| "applyPapers X nowText (GenerateFinished k newId outcome) w =
     (if k < length (pv_calls w) \<and> (case pv_calls w ! k of GenerateCall _ _ _ _ _ \<Rightarrow> True | _ \<Rightarrow> False)
      then generateFinished X nowText newId outcome (pv_calls w ! k) (dropCall k w) else w)"
| "applyPapers X nowText (CallAnswered k outcome) w =
     (if k < length (pv_calls w) \<and> (case pv_calls w ! k of GenerateCall _ _ _ _ _ \<Rightarrow> False | _ \<Rightarrow> True)
      then answerCall X outcome (pv_calls w ! k) (dropCall k w) else w)"

definition stepPapers :: "papers_env \<Rightarrow> jsstring \<Rightarrow> papers_op \<Rightarrow> papers_view \<Rightarrow> papers_view" where
  "stepPapers X nowText op w = renderView X nowText w (applyPapers X nowText op w)"

section \<open>Lemmas\<close>

lemma initialPaperSpec_build:
  "cleanPaper (pf_paper f) \<Longrightarrow> initialPaperSpec U (Some (buildSavedPaper U nowText subj f i created)) = pf_paper f"
  by (simp add: initialPaperSpec_def buildSavedPaper_def Let_def normalizeGeneratedPaper_cleanPaper)

lemma cleanPaper_questions: "cleanPaper p \<Longrightarrow> questions p \<noteq> []"
  by (simp add: cleanPaper_def wfPaper_def)

lemma buildSavedPaper_id [simp]: "saved_id (buildSavedPaper U nowText subj f i created) = i"
  by (simp add: buildSavedPaper_def Let_def)

text \<open>A paper whose specification the normaliser leaves alone.\<close>

definition stablePaper :: "papers_env \<Rightarrow> saved_question_paper \<Rightarrow> bool" where
  "stablePaper X p \<longleftrightarrow> cleanPaper (initialPaperSpec (px_js X) (Some p))"

lemma mountStudio_latest:
  assumes "stablePaper X p" "saved_id p \<noteq> []"
  shows "\<exists>u. sd_latest (mountStudio X nowText n (Some p)) = Some u \<and> saved_id u = saved_id p \<and> stablePaper X u"
  using assms cleanPaper_questions [of "initialPaperSpec (px_js X) (Some p)"]
  by (simp add: mountStudio_def latestPaper_def stablePaper_def Let_def openForm_paper initialPaperSpec_build)

lemma mountStudio_simps [simp]:
  "sd_discarding (mountStudio X nowText n saved) = False" "sd_timer (mountStudio X nowText n saved) = sd_latest (mountStudio X nowText n saved)"
  by (simp_all add: mountStudio_def Let_def)

lemma mountStudio_timer: "sd_timer (mountStudio X nowText n saved) = latestPaper X nowText saved (mountStudio X nowText n saved)"
  by (simp add: mountStudio_def latestPaper_def Let_def)

lemma sendSave_simps [simp]:
  "pv_calls (sendSave p c w) = pv_calls w @ [c]" "pv_sent (sendSave p c w) = pv_sent w @ [SaveRequest p]" "pv_papers (sendSave p c w) = pv_papers w"
  "pv_active (sendSave p c w) = pv_active w" "pv_version (sendSave p c w) = pv_version w" "pv_studio (sendSave p c w) = pv_studio w" "pv_key (sendSave p c w) = pv_key w"
  by (simp_all add: sendSave_def)

lemma viewKey_cong: "pv_active w = pv_active w' \<Longrightarrow> pv_version w = pv_version w' \<Longrightarrow> viewKey w = viewKey w'"
  by (simp add: viewKey_def split: option.split)

text \<open>Rendering keeps the library and what is open; when the key changes, the paper that was shown is sent.\<close>

lemma renderView_simps [simp]:
  "pv_papers (renderView X nowText w0 w) = pv_papers w" "pv_active (renderView X nowText w0 w) = pv_active w"
  "pv_version (renderView X nowText w0 w) = pv_version w" "pv_key (renderView X nowText w0 w) = viewKey w" "viewKey (renderView X nowText w0 w) = viewKey w"
  by (auto simp: renderView_def Let_def unmountStudio_def viewKey_def split: option.splits)

lemma renderView_same:
  "viewKey w = pv_key w \<Longrightarrow> pv_calls (renderView X nowText w0 w) = pv_calls w \<and> pv_sent (renderView X nowText w0 w) = pv_sent w \<and>
    sd_discarding (pv_studio (renderView X nowText w0 w)) = sd_discarding (pv_studio w) \<and>
    sd_latest (pv_studio (renderView X nowText w0 w)) = latestPaper X nowText (activePaper w) (pv_studio w) \<and>
    sd_number (pv_studio (renderView X nowText w0 w)) = sd_number (pv_studio w) \<and> sd_id (pv_studio (renderView X nowText w0 w)) = sd_id (pv_studio w)"
  by (simp add: renderView_def Let_def)

lemma renderView_other:
  "viewKey w \<noteq> pv_key w \<Longrightarrow> pv_studio (renderView X nowText w0 w) = mountStudio X nowText (Suc (sd_number (pv_studio w))) (activePaper w) \<and>
    pv_calls (renderView X nowText w0 w) = pv_calls (unmountStudio w) \<and> pv_sent (renderView X nowText w0 w) = pv_sent (unmountStudio w)"
  by (simp add: renderView_def)

text \<open>The paper that was saved is the only one with its identifier.\<close>

lemma find_saved:
  assumes "\<And>ps. mset (px_order X ps) = mset ps"
  shows "List.find (\<lambda>q. saved_id q = saved_id p) (px_order X (p # filter (\<lambda>q. saved_id q \<noteq> saved_id p) ps)) = Some p"
proof -
  let ?l = "px_order X (p # filter (\<lambda>q. saved_id q \<noteq> saved_id p) ps)"
  have m: "set ?l = set (p # filter (\<lambda>q. saved_id q \<noteq> saved_id p) ps)" using assms mset_eq_setD by blast
  have "p \<in> set ?l" unfolding m by simp
  then have "List.find (\<lambda>q. saved_id q = saved_id p) ?l \<noteq> None" by (auto simp: find_None_iff)
  then obtain q where q: "List.find (\<lambda>q. saved_id q = saved_id p) ?l = Some q" by blast
  then have "q \<in> set ?l" "saved_id q = saved_id p" by (auto simp: find_Some_iff)
  then show ?thesis using q unfolding m by auto
qed

section \<open>Switching between two papers\<close>

primrec saveRounds :: "papers_env \<Rightarrow> (nat \<Rightarrow> jsstring) \<Rightarrow> nat \<Rightarrow> papers_view \<Rightarrow> papers_view" where
  "saveRounds X clock 0 w = w"
| "saveRounds X clock (Suc n) w = stepPapers X (clock n) (CallAnswered 0 (Inr ())) (saveRounds X clock n w)"

text \<open>The paper \<open>j\<close> is open while \<open>i\<close> is being saved.\<close>

definition flipping :: "papers_env \<Rightarrow> jsstring \<Rightarrow> jsstring \<Rightarrow> papers_view \<Rightarrow> bool" where
  "flipping X i j w \<longleftrightarrow> i \<noteq> j \<and> i \<noteq> [] \<and> j \<noteq> [] \<and> (\<exists>u. pv_calls w = [SaveCall u None] \<and> saved_id u = i \<and> stablePaper X u) \<and>
     pv_active w = Some j \<and> pv_key w = PaperKey j \<and> \<not> sd_discarding (pv_studio w) \<and>
     (\<exists>v. sd_latest (pv_studio w) = Some v \<and> saved_id v = j \<and> stablePaper X v)"

lemma flipping_step:
  assumes "\<And>ps. mset (px_order X ps) = mset ps" "flipping X i j w"
  shows "flipping X j i (stepPapers X nowText (CallAnswered 0 (Inr ())) w)"
proof -
  obtain u v where u: "pv_calls w = [SaveCall u None]" "saved_id u = i" "stablePaper X u"
    and v: "sd_latest (pv_studio w) = Some v" "saved_id v = j" "stablePaper X v"
    and w: "i \<noteq> j" "i \<noteq> []" "j \<noteq> []" "pv_key w = PaperKey j" "\<not> sd_discarding (pv_studio w)"
    using assms(2) by (auto simp: flipping_def)
  let ?w = "paperSaved X u (dropCall 0 w)"
  have s: "stepPapers X nowText (CallAnswered 0 (Inr ())) w = renderView X nowText w ?w" using u(1) by (simp add: stepPapers_def)
  have a: "activePaper ?w = Some u" using find_saved [OF assms(1), of u "pv_papers w"] by (simp add: activePaper_def paperSaved_def dropCall_def)
  have k: "viewKey ?w = PaperKey i" "pv_key ?w = PaperKey j" "pv_studio ?w = pv_studio w" "pv_calls ?w = [] \<and> pv_active ?w = Some i"
    using u w by (simp_all add: viewKey_def paperSaved_def dropCall_def)
  have "pv_calls (unmountStudio ?w) = [SaveCall v None]" using k v w by (simp add: unmountStudio_def)
  moreover obtain u' where "sd_latest (mountStudio X nowText (Suc (sd_number (pv_studio w))) (Some u)) = Some u'" "saved_id u' = i" "stablePaper X u'"
    using mountStudio_latest [OF u(3)] u(2) w(2) by blast
  ultimately show ?thesis
    using renderView_other [of ?w X nowText w] k w v a unfolding s by (simp add: flipping_def)
qed

section \<open>What is shown is saved\<close>

definition sameContent :: "saved_question_paper \<Rightarrow> saved_question_paper \<Rightarrow> bool" where
  "sameContent p q \<longleftrightarrow> p\<lparr>updatedAt := []\<rparr> = q\<lparr>updatedAt := []\<rparr>"

definition safeFor :: "saved_question_paper \<Rightarrow> papers_view \<Rightarrow> bool" where
  "safeFor p w \<longleftrightarrow> sd_discarding (pv_studio w) \<or>
     (\<exists>q. (sd_timer (pv_studio w) = Some q \<or> SaveRequest q \<in> set (pv_sent w)) \<and> sameContent p q)"

text \<open>An answer that the paper in the studio could not be deleted.\<close>

definition deleteFails :: "papers_op \<Rightarrow> papers_view \<Rightarrow> bool" where
  "deleteFails op w \<longleftrightarrow> (case op of
      CallAnswered k (Inl m) \<Rightarrow> k < length (pv_calls w) \<and> (case pv_calls w ! k of DeleteCall _ _ (Some _) \<Rightarrow> True | _ \<Rightarrow> False)
    | _ \<Rightarrow> False)"

inductive papersRun :: "papers_env \<Rightarrow> papers_view \<Rightarrow> bool" for X where
  papers_start: "papersRun X (startPapers X nowText outcome st)"
| papers_step: "papersRun X w \<Longrightarrow> \<not> deleteFails op w \<Longrightarrow> papersRun X (stepPapers X nowText op w)"

inductive_cases papersRunE: "papersRun X w"

lemma build_savedPart:
  "buildSavedPaper U t subj (savedPart f) i created = buildSavedPaper U t subj f i created" "pf_paper (savedPart f) = pf_paper f"
  by (simp_all add: buildSavedPaper_def paperMetadata_def savedPart_def Let_def)

lemma build_sameContent: "sameContent (buildSavedPaper U t subj f i created) (buildSavedPaper U t' subj f i created)"
  by (simp add: sameContent_def buildSavedPaper_def Let_def)

lemma sameContent_refl [simp]: "sameContent p p" by (simp add: sameContent_def)

lemma sameContent_trans: "sameContent p q \<Longrightarrow> sameContent p r \<Longrightarrow> sameContent q r" by (simp add: sameContent_def)

lemma latest_deps:
  assumes "timerDeps X w = timerDeps X w0" "latestPaper X t (activePaper w) (pv_studio w) = Some p"
  shows "\<exists>q. latestPaper X t0 (activePaper w0) (pv_studio w0) = Some q \<and> sameContent q p"
proof -
  have f: "savedPart (sd_form (pv_studio w)) = savedPart (sd_form (pv_studio w0))" "sd_id (pv_studio w) = sd_id (pv_studio w0)"
    "sd_created (pv_studio w) = sd_created (pv_studio w0)"
    "subjectOf (px_rooms X) (activePaper w) (sd_form (pv_studio w)) = subjectOf (px_rooms X) (activePaper w0) (sd_form (pv_studio w0))"
    using assms(1) by (simp_all add: timerDeps_def)
  have q: "pf_paper (sd_form (pv_studio w)) = pf_paper (sd_form (pv_studio w0))" by (metis f(1) build_savedPart(2))
  have b: "buildSavedPaper (px_js X) t' subj (sd_form (pv_studio w)) i c = buildSavedPaper (px_js X) t' subj (sd_form (pv_studio w0)) i c" for t' subj i c
    by (metis f(1) build_savedPart(1))
  show ?thesis using assms(2) f(2-4) q b build_sameContent by (auto simp: latestPaper_def split: if_splits)
qed

lemma onStudio_simps [simp]:
  "pv_sent (onStudio n f w) = pv_sent w" "pv_calls (onStudio n f w) = pv_calls w" "pv_active (onStudio n f w) = pv_active w"
  "pv_papers (onStudio n f w) = pv_papers w" "pv_version (onStudio n f w) = pv_version w" "pv_key (onStudio n f w) = pv_key w"
  by (simp_all add: onStudio_def)

text \<open>No operation takes back that a content is saved or about to be.\<close>

definition keepsSafe :: "papers_view \<Rightarrow> papers_view \<Rightarrow> bool" where
  "keepsSafe w w' \<longleftrightarrow> (sd_discarding (pv_studio w) \<longrightarrow> sd_discarding (pv_studio w')) \<and> set (pv_sent w) \<subseteq> set (pv_sent w') \<and>
     (\<forall>q. sd_timer (pv_studio w) = Some q \<longrightarrow> sd_timer (pv_studio w') = Some q \<or> SaveRequest q \<in> set (pv_sent w') \<or> sd_discarding (pv_studio w'))"

lemma keepsSafe_safeFor: "keepsSafe w w' \<Longrightarrow> safeFor p w \<Longrightarrow> safeFor p w'"
  unfolding keepsSafe_def safeFor_def by blast

lemma keepsSafe_frame:
  "sd_discarding (pv_studio w') = sd_discarding (pv_studio w) \<Longrightarrow> sd_timer (pv_studio w') = sd_timer (pv_studio w) \<Longrightarrow>
    set (pv_sent w) \<subseteq> set (pv_sent w') \<Longrightarrow> keepsSafe w w'"
  by (simp add: keepsSafe_def)

lemma keepsSafe_refl [simp]: "keepsSafe w w" by (simp add: keepsSafe_def)

lemma keepsSafe_onStudio:
  assumes "\<And>sd. sd_discarding (f sd) = sd_discarding sd" "\<And>sd. sd_timer (f sd) = sd_timer sd"
  shows "keepsSafe w (onStudio n f w)"
  using assms by (auto simp: onStudio_def intro: keepsSafe_frame)

lemma paperSaved_frame: "pv_studio (paperSaved X p w) = pv_studio w" "pv_sent (paperSaved X p w) = pv_sent w"
  by (simp_all add: paperSaved_def)

lemma paperRemoved_frame: "pv_studio (paperRemoved i a w) = pv_studio w" "pv_sent (paperRemoved i a w) = pv_sent w"
  by (simp_all add: paperRemoved_def Let_def)

lemma answerCall_safe:
  assumes "case (call, outcome) of (DeleteCall _ _ (Some _), Inl _) \<Rightarrow> False | _ \<Rightarrow> True"
  shows "keepsSafe w (answerCall X outcome call w)"
proof (cases call)
  case (SaveCall p who)
  then show ?thesis
    by (cases outcome; cases who) (auto simp: onStudio_def paperSaved_frame intro!: keepsSafe_frame)
next
  case (GeneratedSave p ws f n)
  then show ?thesis by (cases outcome) (auto simp: onStudio_def paperSaved_frame intro!: keepsSafe_frame)
next
  case (DeleteCall i a who)
  then show ?thesis
    using assms by (cases outcome; cases who) (auto simp: paperRemoved_frame intro!: keepsSafe_frame)
qed simp

lemma applyPapers_safe:
  assumes "\<not> deleteFails op w"
  shows "keepsSafe w (applyPapers X nowText op w)"
proof (cases op)
  case (CallAnswered k outcome)
  have d: "keepsSafe w (dropCall k w)" by (simp add: dropCall_def keepsSafe_frame)
  have "keepsSafe (dropCall k w) (answerCall X outcome (pv_calls w ! k) (dropCall k w))" if "k < length (pv_calls w)"
    using assms that CallAnswered by (intro answerCall_safe) (auto simp: deleteFails_def split: papers_call.splits sum.splits option.splits)
  then show ?thesis using CallAnswered d unfolding keepsSafe_def by auto
next
  case (GenerateFinished k newId outcome)
  then show ?thesis
    by (auto simp: generateFinished_def dropCall_def onStudio_def Let_def sendSave_def split: papers_call.splits sum.splits intro!: keepsSafe_frame)
next
  case TimerFired
  then show ?thesis by (auto simp: timerFired_def Let_def keepsSafe_def sendSave_def split: option.splits)
next
  case DeleteCurrent
  then show ?thesis by (auto simp: deleteCurrentPaper_def Let_def keepsSafe_def removePaper_def)
next
  case GenerateStarted
  then show ?thesis by (auto simp: generateStarted_def Let_def split: option.splits intro!: keepsSafe_frame)
qed (auto simp: openPaper_def startNewPaper_def removePaper_def editStudio_def Let_def intro!: keepsSafe_frame)

definition safeView :: "papers_env \<Rightarrow> papers_view \<Rightarrow> bool" where
  "safeView X w \<longleftrightarrow> (\<forall>t p. latestPaper X t (activePaper w) (pv_studio w) = Some p \<longrightarrow> safeFor p w)"

lemma safeFor_same: "safeFor q w \<Longrightarrow> sameContent q p \<Longrightarrow> safeFor p w"
  unfolding safeFor_def sameContent_def by auto

lemma latestPaper_time:
  "latestPaper X t saved sd = Some p \<Longrightarrow> \<exists>q. latestPaper X t' saved sd = Some q \<and> sameContent q p"
  by (auto simp: latestPaper_def build_sameContent split: if_splits)

lemma safeView_timer: "sd_timer (pv_studio w) = latestPaper X t (activePaper w) (pv_studio w) \<Longrightarrow> safeView X w"
  using latestPaper_time by (fastforce simp: safeView_def safeFor_def sameContent_def)

lemma stepPapers_safe:
  assumes "safeView X w" "\<not> deleteFails op w"
  shows "safeView X (stepPapers X nowText op w)"
proof -
  let ?w = "applyPapers X nowText op w" and ?r = "stepPapers X nowText op w"
  have a: "activePaper ?r = activePaper ?w" by (simp add: activePaper_def stepPapers_def split: option.split)
  show ?thesis
  proof (cases "viewKey ?w = pv_key ?w")
    case False
    then have "pv_studio ?r = mountStudio X nowText (Suc (sd_number (pv_studio ?w))) (activePaper ?w)"
      using renderView_other [OF False] by (simp add: stepPapers_def)
    then show ?thesis by (intro safeView_timer [where t = nowText]) (simp only: a mountStudio_timer)
  next
    case True
    let ?l = "latestPaper X nowText (activePaper ?w) (pv_studio ?w)"
    have r: "?r = ?w\<lparr>pv_studio := (pv_studio ?w)\<lparr>sd_latest := ?l, sd_timer := (if timerDeps X ?w = timerDeps X w then sd_timer (pv_studio ?w) else ?l)\<rparr>\<rparr>"
      using True by (simp add: stepPapers_def renderView_def Let_def)
    have l: "latestPaper X t (activePaper ?r) (pv_studio ?r) = latestPaper X t (activePaper ?w) (pv_studio ?w)" for t
      unfolding a by (simp add: r latestPaper_def)
    show ?thesis
    proof (cases "timerDeps X ?w = timerDeps X w")
      case False
      then show ?thesis by (intro safeView_timer [where t = nowText]) (simp add: l, simp add: r)
    next
      case deps: True
      have f: "safeFor p ?w \<Longrightarrow> safeFor p ?r" for p by (simp add: r deps safeFor_def)
      show ?thesis unfolding safeView_def l
      proof (intro allI impI)
        fix t p
        assume "latestPaper X t (activePaper ?w) (pv_studio ?w) = Some p"
        then obtain q where "latestPaper X t (activePaper w) (pv_studio w) = Some q" "sameContent q p" using latest_deps [OF deps] by blast
        then have "safeFor p w" using assms(1) safeFor_same [of q w p] unfolding safeView_def by blast
        then show "safeFor p ?r" using f keepsSafe_safeFor [OF applyPapers_safe [OF assms(2)]] by blast
      qed
    qed
  qed
qed

lemma activePaper_mount: "activePaper (w\<lparr>pv_key := k, pv_studio := sd\<rparr>) = activePaper w"
  by (simp add: activePaper_def split: option.split)

lemma mount_active:
  "pv_studio (w\<lparr>pv_key := k, pv_studio := mountStudio X t n (activePaper w)\<rparr>) =
    mountStudio X t n (activePaper (w\<lparr>pv_key := k, pv_studio := mountStudio X t n (activePaper w)\<rparr>))"
  by (simp add: activePaper_mount)

lemma papersRun_safe: "papersRun X w \<Longrightarrow> safeView X w"
proof (induction rule: papersRun.induct)
  case (papers_start nowText outcome st)
  let ?w = "startPapers X nowText outcome st"
  have "pv_studio ?w = mountStudio X nowText 0 (activePaper ?w)" unfolding startPapers_def Let_def by (rule mount_active)
  then show ?case by (intro safeView_timer [where t = nowText]) (simp only: mountStudio_timer)
next
  case (papers_step w op nowText)
  then show ?case using stepPapers_safe by blast
qed

section \<open>Properties\<close>

text \<open>C21: What the studio shows of a paper is saved: as long as no deletion fails, its content has been sent to the host or waits for the timer,
  whatever was edited, opened, made, deleted or answered in whatever order, unless the teacher is deleting the paper from the studio.\<close>

theorem shown_paper_is_saved:
  assumes "papersRun X w" "sd_id (pv_studio w) \<noteq> []" "questions (pf_paper (sd_form (pv_studio w))) \<noteq> []" "\<not> sd_discarding (pv_studio w)"
  shows "\<exists>q t. (sd_timer (pv_studio w) = Some q \<or> SaveRequest q \<in> set (pv_sent w)) \<and>
    q\<lparr>updatedAt := t\<rparr> = buildSavedPaper (px_js X) t (subjectOf (px_rooms X) (activePaper w) (sd_form (pv_studio w))) (sd_form (pv_studio w))
      (sd_id (pv_studio w)) (sd_created (pv_studio w))"
proof -
  let ?p = "buildSavedPaper (px_js X) [] (subjectOf (px_rooms X) (activePaper w) (sd_form (pv_studio w))) (sd_form (pv_studio w))
      (sd_id (pv_studio w)) (sd_created (pv_studio w))"
  have "latestPaper X [] (activePaper w) (pv_studio w) = Some ?p" using assms(2,3) by (simp add: latestPaper_def)
  then have "safeFor ?p w" using papersRun_safe [OF assms(1)] by (simp add: safeView_def)
  then obtain q where q: "sd_timer (pv_studio w) = Some q \<or> SaveRequest q \<in> set (pv_sent w)" "sameContent ?p q"
    using assms(4) by (auto simp: safeFor_def)
  have "?p\<lparr>updatedAt := []\<rparr> = ?p" by (simp add: buildSavedPaper_def Let_def)
  then have "q\<lparr>updatedAt := []\<rparr> = ?p" using q(2) by (simp add: sameContent_def)
  then show ?thesis using q(1) by blast
qed

text \<open>C23: Going from one saved paper to another never ends: leaving the first saves it, the answer makes it the open one again, which leaves and
  saves the second, and so on; after every answer the other paper is open and another save is on its way.\<close>

theorem switching_never_settles:
  assumes "\<And>ps. mset (px_order X ps) = mset ps" "pv_calls w = []" "pv_key w = viewKey w" "pv_active w = Some i" "i \<noteq> j" "i \<noteq> []" "j \<noteq> []"
    "\<not> sd_discarding (pv_studio w)" "sd_latest (pv_studio w) = Some a" "saved_id a = i" "stablePaper X a"
    "List.find (\<lambda>p. saved_id p = j) (pv_papers w) = Some b" "stablePaper X b"
  shows "pv_active (saveRounds X clock n (stepPapers X nowText (OpenPaper j) w)) = Some (if even n then j else i) \<and>
    length (pv_calls (saveRounds X clock n (stepPapers X nowText (OpenPaper j) w))) = 1"
proof -
  let ?w = "openPaper j w" and ?s = "stepPapers X nowText (OpenPaper j) w"
  have b: "saved_id b = j" using assms(12) by (auto simp: find_Some_iff)
  have k: "viewKey ?w = PaperKey j" "pv_key ?w = PaperKey i" "activePaper ?w = Some b" "pv_studio ?w = pv_studio w"
    using assms(3,4,12) by (simp_all add: viewKey_def openPaper_def activePaper_def)
  obtain u where "sd_latest (mountStudio X nowText (Suc (sd_number (pv_studio w))) (Some b)) = Some u" "saved_id u = j" "stablePaper X u"
    using mountStudio_latest [OF assms(13)] b assms(7) by blast
  moreover have "pv_calls (unmountStudio ?w) = [SaveCall a None]" using assms(2,8,9) by (simp add: unmountStudio_def openPaper_def)
  ultimately have "flipping X i j ?s"
    using renderView_other [of ?w X nowText w] k assms(5-7,10,11) by (simp add: stepPapers_def flipping_def, simp add: openPaper_def)
  then have "flipping X (if even n then i else j) (if even n then j else i) (saveRounds X clock n ?s)"
    using flipping_step [OF assms(1)] by (induction n) auto
  then show ?thesis by (auto simp: flipping_def)
qed

text \<open>A paper deleted from the library while it is open comes back: its studio is left when the host has deleted it, which saves it again, and
  it is listed and open as before.\<close>

theorem deleted_paper_returns:
  assumes "\<And>ps. mset (px_order X ps) = mset ps" "pv_calls w = []" "pv_key w = viewKey w" "pv_active w = Some i" "\<not> sd_discarding (pv_studio w)"
    "sd_id (pv_studio w) = i" "i \<noteq> []" "questions (pf_paper (sd_form (pv_studio w))) \<noteq> []"
    "w' = stepPapers X t3 (CallAnswered 0 (Inr ())) (stepPapers X t2 (CallAnswered 0 (Inr ())) (stepPapers X t1 (RemovePaper i) w))"
  shows "\<exists>p. saved_id p = i \<and> pv_sent w' = pv_sent w @ [DeleteRequest i, SaveRequest p] \<and> p \<in> set (pv_papers w') \<and> pv_active w' = Some i"
proof -
  let ?w1 = "stepPapers X t1 (RemovePaper i) w" and ?d = "removePaper i None w"
  let ?w2 = "stepPapers X t2 (CallAnswered 0 (Inr ())) ?w1"
  have k1: "viewKey ?d = pv_key ?d" using assms(3) by (simp add: viewKey_def removePaper_def split: option.split)
  obtain p where p: "latestPaper X t1 (activePaper ?d) (pv_studio ?d) = Some p" "saved_id p = i"
    using assms(6-8) by (simp add: latestPaper_def removePaper_def)
  have w1: "pv_calls ?w1 = [DeleteCall i (Some i) None]" "pv_sent ?w1 = pv_sent w @ [DeleteRequest i]" "sd_latest (pv_studio ?w1) = Some p"
    "\<not> sd_discarding (pv_studio ?w1)" "pv_key ?w1 = PaperKey i"
    using renderView_same [OF k1, of X t1 w] p assms(2,4,5) by (simp_all add: stepPapers_def) (simp_all add: removePaper_def viewKey_def)
  let ?e = "paperRemoved i (Some i) (dropCall 0 ?w1)"
  have e: "stepPapers X t2 (CallAnswered 0 (Inr ())) ?w1 = renderView X t2 ?w1 ?e" using w1(1) by (subst stepPapers_def) simp
  have ke: "viewKey ?e \<noteq> pv_key ?e" "pv_studio ?e = pv_studio ?w1" "pv_calls ?e = []" "pv_sent ?e = pv_sent ?w1"
    using w1(1,5) by (simp_all add: viewKey_def paperRemoved_def dropCall_def Let_def)
  have w2: "pv_calls ?w2 = [SaveCall p None]" "pv_sent ?w2 = pv_sent w @ [DeleteRequest i, SaveRequest p]" "pv_active ?w2 = None" "pv_key ?w2 = viewKey ?w2"
    using renderView_other [OF ke(1), of X t2 ?w1] ke w1 unfolding e by (simp_all add: unmountStudio_def) (simp_all add: paperRemoved_def Let_def)
  let ?f = "paperSaved X p (dropCall 0 ?w2)"
  have f: "w' = renderView X t3 ?w2 ?f" using w2(1) unfolding assms(9) by (subst stepPapers_def) simp
  have n: "sd_latest (pv_studio ?w2) = None"
    using renderView_other [OF ke(1), of X t2 ?w1] w2(3) unfolding e
    by (simp add: mountStudio_def latestPaper_def Let_def activePaper_def)
  have kf: "viewKey ?f \<noteq> pv_key ?f" using w2(3,4) by (simp add: viewKey_def paperSaved_def dropCall_def)
  have "unmountStudio ?f = ?f" using n by (simp add: unmountStudio_def paperSaved_frame dropCall_def Let_def)
  then have "pv_sent w' = pv_sent ?f" using renderView_other [OF kf, of X t3 ?w2] unfolding f by simp
  then have "pv_sent w' = pv_sent ?w2" by (simp add: paperSaved_frame dropCall_def)
  moreover have "List.find (\<lambda>q. saved_id q = saved_id p) (pv_papers w') = Some p"
    using find_saved [OF assms(1), of p] unfolding f by (simp add: paperSaved_def)
  then have "p \<in> set (pv_papers w')" by (auto simp: find_Some_iff)
  moreover have "pv_active w' = Some i" using p(2) unfolding f by (simp add: paperSaved_def)
  ultimately show ?thesis using w2(2) p(2) by auto
qed

text \<open>What the teacher may do, and the timer, while the paper of the studio is being deleted.\<close>

definition staysInStudio :: "papers_op \<Rightarrow> bool" where
  "staysInStudio op \<longleftrightarrow> (case op of ChangeField _ \<Rightarrow> True | EditPaper _ \<Rightarrow> True | TimerFired \<Rightarrow> True | DeleteCurrent \<Rightarrow> True | _ \<Rightarrow> False)"

definition deletingView :: "jsstring \<Rightarrow> papers_request list \<Rightarrow> papers_view \<Rightarrow> bool" where
  "deletingView i sent w \<longleftrightarrow> sd_discarding (pv_studio w) \<and> sd_deleting (pv_studio w) \<and> (\<exists>n. pv_calls w = [DeleteCall i (Some i) (Some n)]) \<and>
     pv_sent w = sent \<and> pv_active w = Some i \<and> pv_key w = viewKey w"

lemma renderView_deleting: "deletingView i sent w \<Longrightarrow> deletingView i sent (renderView X nowText w0 w)"
  by (auto simp: deletingView_def renderView_def Let_def viewKey_def)

lemma deletingView_stays:
  assumes "deletingView i sent w" "staysInStudio op"
  shows "deletingView i sent (stepPapers X nowText op w)"
proof -
  have "deletingView i sent (applyPapers X nowText op w)"
    using assms by (cases op) (auto simp: staysInStudio_def deletingView_def viewKey_def editStudio_def timerFired_def deleteCurrentPaper_def Let_def split: option.splits)
  then show ?thesis by (simp add: stepPapers_def renderView_deleting)
qed


section \<open>Examples\<close>

definition exampleEnv :: papers_env where
  "exampleEnv = \<lparr>px_js = ascii_env, px_year = js ''2026'', px_rooms = [], px_order = id\<rparr>"

definition examplePaper :: "string \<Rightarrow> saved_question_paper" where
  "examplePaper i = buildSavedPaper ascii_env (js ''t0'') (js ''Physics'') exampleForm (js i) (js ''t0'')"

definition exampleView :: papers_view where
  "exampleView = startPapers exampleEnv (js ''t1'') (Inr [examplePaper ''a'', examplePaper ''b'']) [(ACTIVE_PAPER_KEY, js ''a'')]"

lemma examplePaper_stable: "stablePaper exampleEnv (examplePaper i)" "saved_id (examplePaper i) = js i"
proof -
  have "cleanPaper (pf_paper exampleForm)"
    using exampleQuestion_clean example_texts by (simp add: cleanPaper_def wfPaper_def exampleForm_def cleanQuestion_def textUpTo_def js_def)
  then show "stablePaper exampleEnv (examplePaper i)" by (simp add: stablePaper_def examplePaper_def initialPaperSpec_build exampleEnv_def)
qed (simp add: examplePaper_def)

lemma exampleView_simps:
  "pv_active exampleView = Some (js ''a'')" "pv_calls exampleView = []" "pv_sent exampleView = []" "pv_key exampleView = viewKey exampleView"
  "pv_papers exampleView = [examplePaper ''a'', examplePaper ''b'']"
  "pv_studio exampleView = mountStudio exampleEnv (js ''t1'') 0 (Some (examplePaper ''a''))"
proof -
  have g: "getItem [(ACTIVE_PAPER_KEY, [97])] ACTIVE_PAPER_KEY = Some [97]" by (simp add: getItem_def)
  show "pv_active exampleView = Some (js ''a'')" "pv_calls exampleView = []" "pv_sent exampleView = []" "pv_key exampleView = viewKey exampleView"
    "pv_papers exampleView = [examplePaper ''a'', examplePaper ''b'']"
    "pv_studio exampleView = mountStudio exampleEnv (js ''t1'') 0 (Some (examplePaper ''a''))"
    by (simp_all add: exampleView_def startPapers_def g Let_def viewKey_def activePaper_def examplePaper_stable js_def)
qed

lemma exampleView_studio:
  "\<not> sd_discarding (pv_studio exampleView)" "sd_id (pv_studio exampleView) = js ''a''" "questions (pf_paper (sd_form (pv_studio exampleView))) \<noteq> []"
  "\<not> sd_deleting (pv_studio exampleView)" "\<not> sd_busy (pv_studio exampleView)"
  using examplePaper_stable [of "''a''"] cleanPaper_questions
  by (simp_all add: exampleView_simps mountStudio_def Let_def openForm_paper stablePaper_def exampleEnv_def)

theorem shown_paper_is_saved_witness:
  "\<exists>q t. (sd_timer (pv_studio exampleView) = Some q \<or> SaveRequest q \<in> set (pv_sent exampleView)) \<and>
    q\<lparr>updatedAt := t\<rparr> = buildSavedPaper (px_js exampleEnv) t (subjectOf (px_rooms exampleEnv) (activePaper exampleView) (sd_form (pv_studio exampleView)))
      (sd_form (pv_studio exampleView)) (sd_id (pv_studio exampleView)) (sd_created (pv_studio exampleView))"
  by (rule shown_paper_is_saved) (simp add: exampleView_def papers_start, simp_all add: exampleView_studio js_def)

theorem switching_never_settles_witness:
  "pv_active (saveRounds exampleEnv (\<lambda>_. js ''t3'') 7 (stepPapers exampleEnv (js ''t2'') (OpenPaper (js ''b'')) exampleView)) = Some (js ''a'')"
proof -
  obtain a where a: "sd_latest (pv_studio exampleView) = Some a" "saved_id a = js ''a''" "stablePaper exampleEnv a"
    using mountStudio_latest [OF examplePaper_stable(1) [of "''a''"], of "js ''t1''" 0] by (auto simp: exampleView_simps examplePaper_stable js_def)
  have "pv_active (saveRounds exampleEnv (\<lambda>_. js ''t3'') 7 (stepPapers exampleEnv (js ''t2'') (OpenPaper (js ''b'')) exampleView)) =
      Some (if even (7 :: nat) then js ''b'' else js ''a'')"
    using switching_never_settles [where X = exampleEnv and w = exampleView and i = "js ''a''" and j = "js ''b''" and a = a and b = "examplePaper ''b''"
        and n = 7 and clock = "\<lambda>_. js ''t3''" and nowText = "js ''t2''"] a exampleView_studio(1) exampleView_simps examplePaper_stable
    by (simp add: exampleEnv_def js_def)
  then show ?thesis by simp
qed

theorem deleted_paper_returns_witness:
  "pv_active (stepPapers exampleEnv (js ''t4'') (CallAnswered 0 (Inr ())) (stepPapers exampleEnv (js ''t3'') (CallAnswered 0 (Inr ()))
     (stepPapers exampleEnv (js ''t2'') (RemovePaper (js ''a'')) exampleView))) = Some (js ''a'')"
  using deleted_paper_returns [where X = exampleEnv and w = exampleView and i = "js ''a''" and ?t1.0 = "js ''t2''" and ?t2.0 = "js ''t3''" and ?t3.0 = "js ''t4''",
      OF _ exampleView_simps(2,4,1) exampleView_studio(1,2) _ exampleView_studio(3) refl]
  by (auto simp: exampleEnv_def js_def)


end
