(* ===== verification/Teacher_Register.thy ===== *)
theory Teacher_Register
  imports Ui_Types
begin

text \<open>
  The daily register of the teacher (\<open>AttendanceView\<close> and \<open>AttendanceRow\<close> of \<open>apps/teacher/src/App.tsx\<close>): the classroom and the
  day that are chosen, the sheet that was loaded for them, one row for every student, and the saving of a status or a note.

  A row is kept as long as a row with its key, the day and the student, is rendered, and its status and its note are read from
  the sheet only when it is mounted. Every operation is followed by a rendering. The requests on their way are kept with
  what their continuation captured, and every request to save is kept in order. The message of an error is an argument.
\<close>

section \<open>Data\<close>

datatype attendance_status = PresentMark | AbsentMark | LateMark | ExcusedMark

record attendance_record =
  att_student_id :: jsstring
  att_student_name :: jsstring
  att_status :: "attendance_status option"
  att_note :: jsstring
  att_checked_in :: bool
  att_percentage :: "rat option"

record attendance_day =
  att_classroom_id :: jsstring
  att_day :: jsstring
  att_records :: "attendance_record list"

section \<open>State\<close>

record register_row =
  row_number :: nat
  row_note :: jsstring
  row_status :: "attendance_status option"
  row_busy :: bool

record attendance_save =
  sv_classroom :: jsstring
  sv_day :: jsstring
  sv_student :: jsstring
  sv_status :: attendance_status
  sv_note :: jsstring

text \<open>A load that follows a save carries the row that waits for it and the status that the row will show.\<close>

datatype register_call =
    LoadCall jsstring jsstring "(nat \<times> attendance_status) option"
  | MarkCall attendance_save nat
  | SettleCall nat attendance_status

record register_view =
  av_rooms :: "classroom list"
  av_classroom :: jsstring
  av_day :: jsstring
  av_sheet :: "attendance_day option"
  av_error :: jsstring
  av_rows :: "(jsstring \<times> register_row) list"
  av_next :: nat
  av_calls :: "register_call list"
  av_sent :: "attendance_save list"

section \<open>Rendering\<close>

definition rowKey :: "jsstring \<Rightarrow> attendance_record \<Rightarrow> jsstring" where
  "rowKey day r = day @ js '':'' @ att_student_id r"

definition mountRow :: "nat \<Rightarrow> attendance_record \<Rightarrow> register_row" where
  "mountRow n r = \<lparr>row_number = n, row_note = att_note r, row_status = att_status r, row_busy = False\<rparr>"

definition renderRow :: "register_view \<Rightarrow> nat \<times> attendance_record \<Rightarrow> jsstring \<times> register_row" where
  "renderRow s ir = (rowKey (av_day s) (snd ir),
     case map_of (av_rows s) (rowKey (av_day s) (snd ir)) of Some w \<Rightarrow> w | None \<Rightarrow> mountRow (av_next s + fst ir) (snd ir))"

definition shownRecords :: "register_view \<Rightarrow> attendance_record list" where
  "shownRecords s = (case av_sheet s of Some sh \<Rightarrow> att_records sh | None \<Rightarrow> [])"

definition renderRegister :: "register_view \<Rightarrow> register_view" where
  "renderRegister s = s\<lparr>av_rows := map (renderRow s) (enumerate 0 (shownRecords s)), av_next := av_next s + length (shownRecords s)\<rparr>"

section \<open>Loading\<close>

text \<open>\<open>load\<close>, of the rendering in which it was called; with no classroom the promise is settled at once.\<close>

definition loadSheet :: "jsstring \<Rightarrow> jsstring \<Rightarrow> (nat \<times> attendance_status) option \<Rightarrow> register_view \<Rightarrow> register_view" where
  "loadSheet c d after s =
     (if c = [] then
        s\<lparr>av_sheet := None, av_calls := av_calls s @ (case after of Some (n, st) \<Rightarrow> [SettleCall n st] | None \<Rightarrow> [])\<rparr>
      else s\<lparr>av_error := [], av_calls := av_calls s @ [LoadCall c d after]\<rparr>)"

definition selectRoom :: "jsstring \<Rightarrow> register_view \<Rightarrow> register_view" where
  "selectRoom c s =
     (let s1 = s\<lparr>av_classroom := c, av_sheet := None, av_error := []\<rparr>
      in if c = av_classroom s then s1 else loadSheet c (av_day s1) None s1)"

definition selectDay :: "jsstring \<Rightarrow> register_view \<Rightarrow> register_view" where
  "selectDay d s =
     (let s1 = s\<lparr>av_day := d, av_sheet := None, av_error := []\<rparr>
      in if d = av_day s then s1 else loadSheet (av_classroom s1) d None s1)"

definition refreshRegister :: "register_view \<Rightarrow> register_view" where
  "refreshRegister s = loadSheet (av_classroom s) (av_day s) None s"

text \<open>The effect that keeps the classroom among those of the teacher; the sheet stays until the answer to the new load.\<close>

definition keptRoom :: "classroom list \<Rightarrow> jsstring \<Rightarrow> jsstring" where
  "keptRoom rooms c =
     (if \<exists>r \<in> set rooms. classroom_id r = c then c
      else case rooms of r # _ \<Rightarrow> classroom_id r | [] \<Rightarrow> [])"

definition roomsChanged :: "classroom list \<Rightarrow> register_view \<Rightarrow> register_view" where
  "roomsChanged rooms s =
     (let c = keptRoom rooms (av_classroom s); s1 = s\<lparr>av_rooms := rooms, av_classroom := c\<rparr>
      in if c = av_classroom s then s1 else loadSheet c (av_day s1) None s1)"

definition startRegister :: "classroom list \<Rightarrow> jsstring \<Rightarrow> register_view" where
  "startRegister rooms today =
     loadSheet (case rooms of r # _ \<Rightarrow> classroom_id r | [] \<Rightarrow> []) today None
       \<lparr>av_rooms = rooms, av_classroom = (case rooms of r # _ \<Rightarrow> classroom_id r | [] \<Rightarrow> []), av_day = today, av_sheet = None,
         av_error = [], av_rows = [], av_next = 0, av_calls = [], av_sent = []\<rparr>"

section \<open>Rows\<close>

definition changeRow :: "nat \<Rightarrow> (register_row \<Rightarrow> register_row) \<Rightarrow> register_view \<Rightarrow> register_view" where
  "changeRow n f s = s\<lparr>av_rows := map (\<lambda>(k, w). (k, if row_number w = n then f w else w)) (av_rows s)\<rparr>"

definition typeNote :: "jsstring \<Rightarrow> jsstring \<Rightarrow> register_view \<Rightarrow> register_view" where
  "typeNote k t s = (case map_of (av_rows s) k of
      Some w \<Rightarrow> changeRow (row_number w) (\<lambda>w. w\<lparr>row_note := t\<rparr>) s
    | None \<Rightarrow> s)"

text \<open>\<open>save\<close> of a row, with the \<open>onSave\<close> of the rendering on show.\<close>

definition saveRow :: "register_row \<Rightarrow> attendance_record \<Rightarrow> attendance_status \<Rightarrow> register_view \<Rightarrow> register_view" where
  "saveRow w r st s =
     (let v = \<lparr>sv_classroom = av_classroom s, sv_day = av_day s, sv_student = att_student_id r, sv_status = st, sv_note = row_note w\<rparr>;
          s1 = changeRow (row_number w) (\<lambda>w. w\<lparr>row_busy := True\<rparr>) s
      in s1\<lparr>av_error := [], av_calls := av_calls s1 @ [MarkCall v (row_number w)], av_sent := av_sent s1 @ [v]\<rparr>)"

definition shownRow :: "jsstring \<Rightarrow> register_view \<Rightarrow> (register_row \<times> attendance_record) option" where
  "shownRow k s = (case (map_of (av_rows s) k, List.find (\<lambda>r. rowKey (av_day s) r = k) (shownRecords s)) of
      (Some w, Some r) \<Rightarrow> Some (w, r)
    | _ \<Rightarrow> None)"

definition chooseStatus :: "jsstring \<Rightarrow> attendance_status \<Rightarrow> register_view \<Rightarrow> register_view" where
  "chooseStatus k st s = (case shownRow k s of
      Some (w, r) \<Rightarrow> if row_busy w then s else saveRow w r st s
    | None \<Rightarrow> s)"

definition blurNote :: "jsstring \<Rightarrow> register_view \<Rightarrow> register_view" where
  "blurNote k s = (case shownRow k s of
      Some (w, r) \<Rightarrow> (case row_status w of
          Some st \<Rightarrow> if row_note w \<noteq> att_note r then saveRow w r st s else s
        | None \<Rightarrow> s)
    | None \<Rightarrow> s)"

section \<open>Answers\<close>

type_synonym sheet_answer = "jsstring + attendance_day"

definition sheetAnswer :: "sheet_answer \<Rightarrow> (nat \<times> attendance_status) option \<Rightarrow> register_view \<Rightarrow> register_view" where
  "sheetAnswer a after s =
     (let s1 = (case a of Inr sh \<Rightarrow> s\<lparr>av_sheet := Some sh\<rparr> | Inl e \<Rightarrow> s\<lparr>av_sheet := None, av_error := e\<rparr>)
      in s1\<lparr>av_calls := av_calls s1 @ (case after of Some (n, st) \<Rightarrow> [SettleCall n st] | None \<Rightarrow> [])\<rparr>)"

text \<open>The answer to a save: a refusal is shown and leaves the row as it was.\<close>

definition markAnswer :: "jsstring option \<Rightarrow> attendance_save \<Rightarrow> nat \<Rightarrow> register_view \<Rightarrow> register_view" where
  "markAnswer failed v n s = (case failed of
      Some e \<Rightarrow> changeRow n (\<lambda>w. w\<lparr>row_busy := False\<rparr>) (s\<lparr>av_error := e\<rparr>)
    | None \<Rightarrow> loadSheet (sv_classroom v) (sv_day v) (Some (n, sv_status v)) s)"

text \<open>Both the register and the workspace are loaded again, which never fails.\<close>

definition settleRow :: "nat \<Rightarrow> attendance_status \<Rightarrow> register_view \<Rightarrow> register_view" where
  "settleRow n st = changeRow n (\<lambda>w. w\<lparr>row_status := Some st, row_busy := False\<rparr>)"

definition withoutCall :: "nat \<Rightarrow> register_view \<Rightarrow> register_view" where
  "withoutCall i s = s\<lparr>av_calls := take i (av_calls s) @ drop (Suc i) (av_calls s)\<rparr>"

section \<open>Steps\<close>

datatype register_event =
    SelectRoom jsstring | SelectDay jsstring | RefreshRegister | RoomsChanged "classroom list"
  | TypeNote jsstring jsstring | BlurNote jsstring | ChooseStatus jsstring attendance_status
  | SheetAnswered nat sheet_answer | MarkAnswered nat "jsstring option" | RowSettled nat

definition callAt :: "nat \<Rightarrow> register_view \<Rightarrow> register_call option" where
  "callAt i s = (if i < length (av_calls s) then Some (av_calls s ! i) else None)"

fun registerEvent :: "register_event \<Rightarrow> register_view \<Rightarrow> register_view" where
  "registerEvent (SelectRoom c) s = (if \<exists>r \<in> set (av_rooms s). classroom_id r = c then selectRoom c s else s)"
| "registerEvent (SelectDay d) s = selectDay d s"
| "registerEvent RefreshRegister s = refreshRegister s"
| "registerEvent (RoomsChanged rooms) s = roomsChanged rooms s"
| "registerEvent (TypeNote k t) s = typeNote k t s"
| "registerEvent (BlurNote k) s = blurNote k s"
| "registerEvent (ChooseStatus k st) s = chooseStatus k st s"
| "registerEvent (SheetAnswered i a) s = (case callAt i s of
      Some (LoadCall c d after) \<Rightarrow> sheetAnswer a after (withoutCall i s) | _ \<Rightarrow> s)"
| "registerEvent (MarkAnswered i failed) s = (case callAt i s of
      Some (MarkCall v n) \<Rightarrow> markAnswer failed v n (withoutCall i s) | _ \<Rightarrow> s)"
| "registerEvent (RowSettled i) s = (case callAt i s of
      Some (SettleCall n st) \<Rightarrow> settleRow n st (withoutCall i s) | _ \<Rightarrow> s)"

definition registerStep :: "register_event \<Rightarrow> register_view \<Rightarrow> register_view" where
  "registerStep e s = renderRegister (registerEvent e s)"


section \<open>Lemmas\<close>

lemmas register_ops = selectRoom_def selectDay_def refreshRegister_def roomsChanged_def typeNote_def changeRow_def saveRow_def
  sheetAnswer_def markAnswer_def settleRow_def withoutCall_def loadSheet_def

lemma rowKey_eq [simp]: "rowKey d r = rowKey d r' \<longleftrightarrow> att_student_id r = att_student_id r'"
  by (simp add: rowKey_def)

lemma render_simps [simp]:
  "av_sent (renderRegister s) = av_sent s" "av_sheet (renderRegister s) = av_sheet s" "av_day (renderRegister s) = av_day s"
  "av_classroom (renderRegister s) = av_classroom s" "av_calls (renderRegister s) = av_calls s" "av_error (renderRegister s) = av_error s"
  "shownRecords (renderRegister s) = shownRecords s" "callAt i (renderRegister s) = callAt i s"
  by (simp_all add: renderRegister_def shownRecords_def callAt_def)

lemma fst_renderRow [simp]: "fst (renderRow s ir) = rowKey (av_day s) (snd ir)"
  by (simp add: renderRow_def)

lemma changeRow_simps [simp]:
  "av_sent (changeRow n f s) = av_sent s" "av_sheet (changeRow n f s) = av_sheet s" "av_day (changeRow n f s) = av_day s"
  "av_classroom (changeRow n f s) = av_classroom s" "av_calls (changeRow n f s) = av_calls s" "av_next (changeRow n f s) = av_next s"
  "shownRecords (changeRow n f s) = shownRecords s"
  by (simp_all add: changeRow_def shownRecords_def)

lemma map_of_changeRow [simp]:
  "map_of (av_rows (changeRow n f s)) k = map_option (\<lambda>w. if row_number w = n then f w else w) (map_of (av_rows s) k)"
  by (simp add: changeRow_def map_of_map)

lemma rows_of_none [simp]: "av_sheet s = None \<Longrightarrow> av_rows (renderRegister s) = []"
  by (simp add: renderRegister_def shownRecords_def)

text \<open>A row of the rendering: one that was mounted with its key, or a new one.\<close>

lemma rendered_row:
  assumes "(k, w) \<in> set (av_rows (renderRegister s))"
  shows "\<exists>i < length (shownRecords s). k = rowKey (av_day s) (shownRecords s ! i) \<and>
    (map_of (av_rows s) k = Some w \<or> w = mountRow (av_next s + i) (shownRecords s ! i))"
proof -
  obtain i where i: "i < length (shownRecords s)" "(k, w) = renderRow s (i, shownRecords s ! i)"
    using assms by (auto simp: renderRegister_def set_conv_nth nth_enumerate_eq)
  then show ?thesis by (auto simp: renderRow_def split: option.splits)
qed

lemma row_mounted:
  assumes "r \<in> set (shownRecords s)" "rowKey (av_day s) r = k"
  shows "\<exists>w. map_of (av_rows (renderRegister s)) k = Some w"
proof -
  have "k \<in> fst ` set (av_rows (renderRegister s))"
    using assms by (force simp: renderRegister_def set_conv_nth nth_enumerate_eq)
  then show ?thesis by (auto intro: weak_map_of_SomeI)
qed

lemma kept_row:
  assumes "map_of (av_rows s) k = Some w" "r \<in> set (shownRecords s)" "rowKey (av_day s) r = k"
  shows "map_of (av_rows (renderRegister s)) k = Some w"
proof -
  obtain w' where w': "map_of (av_rows (renderRegister s)) k = Some w'" using row_mounted [OF assms(2,3)] by blast
  moreover have "(k, w') \<in> renderRow s ` set (enumerate 0 (shownRecords s))"
    using map_of_SomeD [OF w'] by (simp add: renderRegister_def)
  then obtain ir where "(k, w') = renderRow s ir" by blast
  ultimately show ?thesis using assms(1) by (auto simp: renderRow_def)
qed

lemma new_row:
  assumes "map_of (av_rows s) k = None" "r \<in> set (shownRecords s)" "rowKey (av_day s) r = k" "distinct (map att_student_id (shownRecords s))"
  shows "\<exists>n. map_of (av_rows (renderRegister s)) k = Some (mountRow n r)"
proof -
  obtain w' where w: "map_of (av_rows (renderRegister s)) k = Some w'" using row_mounted [OF assms(2,3)] by blast
  obtain i where i: "i < length (shownRecords s)" "k = rowKey (av_day s) (shownRecords s ! i)" "w' = mountRow (av_next s + i) (shownRecords s ! i)"
    using rendered_row [OF map_of_SomeD [OF w]] assms(1) by auto
  then have "shownRecords s ! i = r" using assms(2-4) by (intro inj_onD [of att_student_id "set (shownRecords s)"]) (auto simp: distinct_map)
  then show ?thesis using w i(3) by auto
qed

lemma find_record:
  assumes "r \<in> set (shownRecords s)" "rowKey (av_day s) r = k" "distinct (map att_student_id (shownRecords s))"
  shows "List.find (\<lambda>r. rowKey (av_day s) r = k) (shownRecords s) = Some r"
proof -
  have "\<exists>r'. List.find (\<lambda>r. rowKey (av_day s) r = k) (shownRecords s) = Some r'"
    using assms(1,2) by (cases "List.find (\<lambda>r. rowKey (av_day s) r = k) (shownRecords s)") (auto simp: find_None_iff)
  then obtain r' where r': "List.find (\<lambda>r. rowKey (av_day s) r = k) (shownRecords s) = Some r'" by blast
  then have "r' \<in> set (shownRecords s)" "rowKey (av_day s) r' = k" using set_find_SomeD by fast+
  then have "r' = r" using assms by (auto dest: inj_onD simp: distinct_map)
  then show ?thesis using r' by simp
qed

lemma shownRow_of:
  assumes "map_of (av_rows s) k = Some w" "r \<in> set (shownRecords s)" "rowKey (av_day s) r = k" "distinct (map att_student_id (shownRecords s))"
  shows "shownRow k s = Some (w, r)"
  using find_record [OF assms(2-4)] assms(1) by (simp add: shownRow_def)

lemma blur_saves:
  assumes "shownRow k s = Some (w, r)" "row_status w = Some st" "row_note w \<noteq> att_note r"
  shows "av_sent (registerStep (BlurNote k) s) = av_sent s @
    [\<lparr>sv_classroom = av_classroom s, sv_day = av_day s, sv_student = att_student_id r, sv_status = st, sv_note = row_note w\<rparr>]"
  using assms by (simp add: registerStep_def blurNote_def saveRow_def Let_def)


section \<open>An answer that comes late\<close>

lemma select_day_events:
  assumes "callAt i s = Some (LoadCall c d None)" "av_day s = d" "d' \<noteq> d" "av_classroom s = c" "c \<noteq> []"
  shows "let s1 = registerStep (SelectDay d') s in
    av_rows s1 = [] \<and> av_day s1 = d' \<and> av_classroom s1 = c \<and> av_sent s1 = av_sent s \<and>
    av_calls s1 = av_calls s @ [LoadCall c d' None] \<and> callAt i s1 = Some (LoadCall c d None)"
  using assms by (auto simp: registerStep_def selectDay_def loadSheet_def Let_def callAt_def nth_append split: if_splits)

text \<open>The answer to a load, with a row for every student of its sheet.\<close>

lemma sheet_answered:
  assumes "callAt i s = Some (LoadCall c d None)"
  shows "registerStep (SheetAnswered i (Inr sh)) s = renderRegister (withoutCall i s\<lparr>av_sheet := Some sh\<rparr>)"
  using assms by (cases s) (simp add: registerStep_def sheetAnswer_def withoutCall_def Let_def)

lemma sheet_frames [simp]:
  "av_sent (withoutCall i s\<lparr>av_sheet := x\<rparr>) = av_sent s" "av_day (withoutCall i s\<lparr>av_sheet := x\<rparr>) = av_day s"
  "av_classroom (withoutCall i s\<lparr>av_sheet := x\<rparr>) = av_classroom s" "av_rows (withoutCall i s\<lparr>av_sheet := x\<rparr>) = av_rows s"
  "shownRecords (withoutCall i s\<lparr>av_sheet := Some sh\<rparr>) = att_records sh"
  by (simp_all add: withoutCall_def shownRecords_def)

lemma note_typed:
  assumes "map_of (av_rows s) k = Some w" "r \<in> set (shownRecords s)" "rowKey (av_day s) r = k"
  shows "map_of (av_rows (registerStep (TypeNote k t) s)) k = Some (w\<lparr>row_note := t\<rparr>)"
  using assms by (auto simp: registerStep_def typeNote_def intro!: kept_row)

lemma note_frames [simp]:
  "av_sent (registerStep (TypeNote k t) s) = av_sent s" "av_day (registerStep (TypeNote k t) s) = av_day s"
  "av_classroom (registerStep (TypeNote k t) s) = av_classroom s" "av_calls (registerStep (TypeNote k t) s) = av_calls s"
  "shownRecords (registerStep (TypeNote k t) s) = shownRecords s"
  by (simp_all add: registerStep_def typeNote_def split: option.split)

lemma blur_calls: "set (av_calls s) \<subseteq> set (av_calls (registerStep (BlurNote k) s))"
  by (auto simp: registerStep_def blurNote_def saveRow_def Let_def split: option.split prod.split)

text \<open>The register of another day is shown and saved: when the teacher chooses a day while the register of the day before is still
loading, the answer for the old day mounts its students under the new one, with the statuses of the old day, and as soon
as the teacher writes a note for a student, the student's status of the old day is saved for the new day, whose own register
is still on its way.\<close>

theorem late_register_is_saved_for_another_day:
  assumes "callAt i s = Some (LoadCall c d None)" "av_day s = d" "d' \<noteq> d" "av_classroom s = c" "c \<noteq> []"
    and "r \<in> set (att_records sh)" "distinct (map att_student_id (att_records sh))" "att_status r = Some st" "t \<noteq> att_note r"
    and "s' = fold registerStep [SelectDay d', SheetAnswered i (Inr sh), TypeNote (rowKey d' r) t, BlurNote (rowKey d' r)] s"
  shows "av_sent s' = av_sent s @ [\<lparr>sv_classroom = c, sv_day = d', sv_student = att_student_id r, sv_status = st, sv_note = t\<rparr>] \<and>
    LoadCall c d' None \<in> set (av_calls s')"
proof -
  let ?k = "rowKey d' r" and ?s1 = "registerStep (SelectDay d') s"
  let ?s2 = "registerStep (SheetAnswered i (Inr sh)) ?s1" let ?s3 = "registerStep (TypeNote ?k t) ?s2"
  have s1: "av_rows ?s1 = []" "av_day ?s1 = d'" "av_classroom ?s1 = c" "av_sent ?s1 = av_sent s"
      "av_calls ?s1 = av_calls s @ [LoadCall c d' None]" "callAt i ?s1 = Some (LoadCall c d None)"
    using select_day_events [OF assms(1-5)] by (simp_all add: Let_def)
  have i: "i < length (av_calls s)" using assms(1) by (simp add: callAt_def split: if_splits)
  have s2: "?s2 = renderRegister (withoutCall i ?s1\<lparr>av_sheet := Some sh\<rparr>)" by (rule sheet_answered [OF s1(6)])
  obtain n where "map_of (av_rows ?s2) ?k = Some (mountRow n r)"
    using new_row [of "withoutCall i ?s1\<lparr>av_sheet := Some sh\<rparr>" ?k r] assms(6,7) s1(1,2) unfolding s2 by auto
  then have m: "map_of (av_rows ?s3) ?k = Some (mountRow n r\<lparr>row_note := t\<rparr>)"
    using assms(6) s1(2) by (intro note_typed) (auto simp: s2)
  have "shownRow ?k ?s3 = Some (mountRow n r\<lparr>row_note := t\<rparr>, r)"
    using assms(6,7) s1(2) by (intro shownRow_of m) (simp_all add: s2)
  then have "av_sent (registerStep (BlurNote ?k) ?s3) = av_sent ?s3 @ [\<lparr>sv_classroom = av_classroom ?s3, sv_day = av_day ?s3,
      sv_student = att_student_id r, sv_status = st, sv_note = t\<rparr>]"
    using blur_saves [of ?k ?s3 "mountRow n r\<lparr>row_note := t\<rparr>" r st] assms(8,9) by (simp add: mountRow_def)
  moreover have "LoadCall c d' None \<in> set (av_calls ?s3)" using i s1(5) by (simp add: s2 withoutCall_def)
  ultimately show ?thesis using blur_calls [of ?s3 ?k] s1(2-4) unfolding assms(10) by (auto simp: s2)
qed

text \<open>A teacher who only leaves the field of a note undoes what another teacher wrote: once a row is mounted, loading the register again
does not change what it shows, and when the sheet that comes has another note for the student than the row, leaving the field without
typing sends the row's old note and its old status, whatever the new status is.\<close>

theorem refreshed_row_overwrites_newer_record:
  assumes "callAt i s = Some (LoadCall c d None)" "map_of (av_rows s) k = Some w" "row_status w = Some st"
    and "r \<in> set (att_records sh)" "distinct (map att_student_id (att_records sh))" "k = rowKey (av_day s) r" "att_note r \<noteq> row_note w"
    and "s' = registerStep (SheetAnswered i (Inr sh)) s"
  shows "map_of (av_rows s') k = Some w \<and> av_sent (registerStep (BlurNote k) s') = av_sent s @
    [\<lparr>sv_classroom = av_classroom s, sv_day = av_day s, sv_student = att_student_id r, sv_status = st, sv_note = row_note w\<rparr>]"
proof -
  have s': "s' = renderRegister (withoutCall i s\<lparr>av_sheet := Some sh\<rparr>)" using sheet_answered [OF assms(1)] assms(8) by simp
  have m: "map_of (av_rows s') k = Some w" using kept_row [of "withoutCall i s\<lparr>av_sheet := Some sh\<rparr>" k w r] assms(2,4,6) by (simp add: s')
  then have "shownRow k s' = Some (w, r)" using assms(4-6) by (intro shownRow_of) (simp_all add: s')
  then show ?thesis using blur_saves [of k s' w r st] assms(3,7) m by (simp add: s')
qed


section \<open>A register that is left in peace\<close>

definition settling :: "register_call \<Rightarrow> bool" where
  "settling c = (case c of SettleCall _ _ \<Rightarrow> True | _ \<Rightarrow> False)"

text \<open>The classroom and the day change only when no load and no save is on its way, and the answer to a load is the register asked for.\<close>

definition calmEvent :: "register_event \<Rightarrow> register_view \<Rightarrow> bool" where
  "calmEvent e s = (case e of
      SelectRoom c \<Rightarrow> list_all settling (av_calls s)
    | SelectDay d \<Rightarrow> list_all settling (av_calls s)
    | RoomsChanged rooms \<Rightarrow> keptRoom rooms (av_classroom s) = av_classroom s \<or> list_all settling (av_calls s) \<and> av_sheet s = None
    | SheetAnswered i (Inr sh) \<Rightarrow> (case callAt i s of
          Some (LoadCall c d after) \<Rightarrow> att_classroom_id sh = c \<and> att_day sh = d
        | _ \<Rightarrow> True)
    | _ \<Rightarrow> True)"

inductive calmRegister :: "register_view \<Rightarrow> bool" where
  calm_start: "calmRegister (renderRegister (startRegister rooms today))"
| calm_step: "calmRegister s \<Longrightarrow> calmEvent e s \<Longrightarrow> calmRegister (registerStep e s)"

fun ownCall :: "jsstring \<Rightarrow> jsstring \<Rightarrow> register_call \<Rightarrow> bool" where
  "ownCall c d (LoadCall c' d' _) \<longleftrightarrow> c' = c \<and> d' = d"
| "ownCall c d (MarkCall v _) \<longleftrightarrow> sv_classroom v = c \<and> sv_day v = d"
| "ownCall c d (SettleCall _ _) \<longleftrightarrow> True"

definition ownSheet :: "register_view \<Rightarrow> bool" where
  "ownSheet s \<longleftrightarrow> (\<forall>sh. av_sheet s = Some sh \<longrightarrow> att_classroom_id sh = av_classroom s \<and> att_day sh = av_day s) \<and>
     list_all (ownCall (av_classroom s) (av_day s)) (av_calls s)"

lemma ownSheet_render [simp]: "ownSheet (renderRegister s) = ownSheet s"
  by (simp add: ownSheet_def)

lemma settling_own: "list_all settling cs \<Longrightarrow> list_all (ownCall c d) cs"
  unfolding list_all_iff settling_def by (metis ownCall.simps(3) register_call.exhaust register_call.simps(10,11))

lemma ownSheet_load [simp]:
  "ownSheet (loadSheet c d after s) \<longleftrightarrow>
     (if c = [] then list_all (ownCall (av_classroom s) (av_day s)) (av_calls s) else ownSheet s \<and> c = av_classroom s \<and> d = av_day s)"
  by (auto simp: ownSheet_def loadSheet_def split: option.split)

lemma ownSheet_changeRow [simp]: "ownSheet (changeRow n f s) = ownSheet s"
  by (simp add: ownSheet_def)

lemma ownSheet_error [simp]: "ownSheet (s\<lparr>av_error := e\<rparr>) = ownSheet s"
  by (simp add: ownSheet_def)

lemma ownSheet_drop: "ownSheet s \<Longrightarrow> ownSheet (withoutCall i s)"
  by (auto simp: ownSheet_def withoutCall_def list_all_iff dest: in_set_takeD in_set_dropD)

lemma withoutCall_simps [simp]: "av_classroom (withoutCall i s) = av_classroom s" "av_day (withoutCall i s) = av_day s"
  by (simp_all add: withoutCall_def)

lemma ownSheet_calls: "ownSheet s \<Longrightarrow> list_all (ownCall (av_classroom s) (av_day s)) (av_calls s)"
  by (simp add: ownSheet_def)

lemma ownSheet_mark: "ownSheet s \<Longrightarrow> ownCall (av_classroom s) (av_day s) (MarkCall v n) \<Longrightarrow> ownSheet (markAnswer a v n s)"
  using ownSheet_calls [of s] by (auto simp: markAnswer_def split: option.split)

lemma ownSheet_select:
  assumes "list_all settling (av_calls s)"
  shows "ownSheet (selectRoom c s)" "ownSheet (selectDay d s)"
  using assms by (auto simp: selectRoom_def selectDay_def ownSheet_def loadSheet_def Let_def settling_own)

lemma ownSheet_rooms:
  assumes "ownSheet s" "keptRoom rooms (av_classroom s) = av_classroom s \<or> list_all settling (av_calls s) \<and> av_sheet s = None"
  shows "ownSheet (roomsChanged rooms s)"
  using assms by (auto simp: roomsChanged_def ownSheet_def loadSheet_def Let_def settling_own)

lemma ownSheet_refresh: "ownSheet s \<Longrightarrow> ownSheet (refreshRegister s)"
  using ownSheet_calls [of s] by (auto simp: refreshRegister_def)

lemma saveRow_own: "ownSheet s \<Longrightarrow> ownSheet (saveRow w r st s)"
  by (simp add: ownSheet_def saveRow_def Let_def)

lemma ownSheet_rows:
  assumes "ownSheet s"
  shows "ownSheet (typeNote k t s)" "ownSheet (blurNote k s)" "ownSheet (chooseStatus k st s)" "ownSheet (settleRow n st s)"
  using assms by (auto simp: typeNote_def blurNote_def chooseStatus_def settleRow_def saveRow_own split: option.split)

lemma callAt_in: "callAt i s = Some c \<Longrightarrow> c \<in> set (av_calls s)"
  by (auto simp: callAt_def split: if_splits)

lemma ownSheet_answer:
  assumes "ownSheet s" "\<And>sh. a = Inr sh \<Longrightarrow> att_classroom_id sh = av_classroom s \<and> att_day sh = av_day s"
  shows "ownSheet (sheetAnswer a after s)"
  using assms by (cases a) (auto simp: ownSheet_def sheetAnswer_def Let_def split: option.split)

lemma calm_ownSheet: "calmRegister s \<Longrightarrow> ownSheet s"
proof (induction rule: calmRegister.induct)
  case (calm_start rooms today)
  then show ?case by (simp add: startRegister_def ownSheet_def loadSheet_def split: list.split)
next
  case (calm_step s e)
  have own: "ownCall (av_classroom s) (av_day s) c" if "callAt i s = Some c" for i c
    using calm_step.IH callAt_in [OF that] by (auto simp: ownSheet_def list_all_iff)
  have "ownSheet (registerEvent e s)"
  proof (cases e)
    case (SheetAnswered i a)
    have "ownSheet (sheetAnswer a after (withoutCall i s))" if "callAt i s = Some (LoadCall c d after)" for c d after
      using calm_step.hyps(2) own [OF that] ownSheet_drop [OF calm_step.IH]
      by (intro ownSheet_answer) (auto simp: SheetAnswered calmEvent_def that withoutCall_def split: sum.splits)
    then show ?thesis using calm_step.IH by (auto simp: SheetAnswered split: option.split register_call.split)
  next
    case (MarkAnswered i a)
    have "ownSheet (markAnswer a v n (withoutCall i s))" if "callAt i s = Some (MarkCall v n)" for v n
      using own [OF that] ownSheet_drop [OF calm_step.IH] by (intro ownSheet_mark) simp_all
    then show ?thesis using calm_step.IH by (auto simp: MarkAnswered split: option.split register_call.split)
  qed (use calm_step in \<open>auto simp: calmEvent_def ownSheet_select ownSheet_rooms ownSheet_refresh ownSheet_rows ownSheet_drop
      split: option.split register_call.split\<close>)
  then show ?case by (simp add: registerStep_def)
qed


lemma sent_events:
  assumes "av_sent (registerStep e s) = av_sent s @ [v]"
  shows "\<exists>sh. av_sheet s = Some sh \<and> sv_classroom v = av_classroom s \<and> sv_day v = av_day s \<and>
    sv_student v \<in> att_student_id ` set (att_records sh)"
proof -
  have row: "\<exists>sh. av_sheet s = Some sh \<and> att_student_id r \<in> att_student_id ` set (att_records sh)" if "shownRow k s = Some (w, r)" for k w r
    using that set_find_SomeD [of _ "shownRecords s" r] by (fastforce simp: shownRow_def shownRecords_def split: option.splits)
  show ?thesis
  proof (cases e)
    case (BlurNote k)
    then obtain w r st where "shownRow k s = Some (w, r)" "av_sent (saveRow w r st s) = av_sent s @ [v]"
      using assms by (auto simp: registerStep_def blurNote_def split: option.splits if_splits)
    then show ?thesis using row by (fastforce simp: saveRow_def Let_def)
  next
    case (ChooseStatus k st)
    then obtain w r where "shownRow k s = Some (w, r)" "av_sent (saveRow w r st s) = av_sent s @ [v]"
      using assms by (auto simp: registerStep_def chooseStatus_def split: option.splits if_splits)
    then show ?thesis using row by (fastforce simp: saveRow_def Let_def)
  qed (use assms in \<open>auto simp: registerStep_def register_ops Let_def split: option.splits register_call.splits sum.splits if_splits\<close>)
qed



section \<open>What the host told\<close>

text \<open>What an event learns from the host: the statuses of the sheet of an answer, or the status of a save that the host accepted.\<close>

definition toldBy :: "register_event \<Rightarrow> register_view \<Rightarrow> (jsstring \<times> attendance_status option) list" where
  "toldBy e s = (case e of
      SheetAnswered i (Inr sh) \<Rightarrow> (case callAt i s of
          Some (LoadCall c d after) \<Rightarrow> map (\<lambda>r. (att_student_id r, att_status r)) (att_records sh)
        | _ \<Rightarrow> [])
    | MarkAnswered i None \<Rightarrow> (case callAt i s of
          Some (MarkCall v n) \<Rightarrow> [(sv_student v, Some (sv_status v))]
        | _ \<Rightarrow> [])
    | _ \<Rightarrow> [])"

inductive registerRun :: "(jsstring \<times> attendance_status option) list \<Rightarrow> register_view \<Rightarrow> bool" where
  register_start: "registerRun [] (renderRegister (startRegister rooms today))"
| register_step: "registerRun told s \<Longrightarrow> registerRun (toldBy e s @ told) (registerStep e s)"

text \<open>The facts the host told are those of the sheet, of the rows on show and of the calls in flight; a row has a number of its own.\<close>

definition rowsOf :: "nat \<Rightarrow> (jsstring \<Rightarrow> bool) \<Rightarrow> register_view \<Rightarrow> bool" where
  "rowsOf n P s \<longleftrightarrow> (\<forall>k w x. (k, w) \<in> set (av_rows s) \<and> row_number w = n \<and> k = av_day s @ js '':'' @ x \<longrightarrow> P x)"

definition callTold :: "(jsstring \<times> attendance_status option) set \<Rightarrow> register_view \<Rightarrow> register_call \<Rightarrow> bool" where
  "callTold told s c \<longleftrightarrow> (case c of
      LoadCall _ _ (Some (n, st)) \<Rightarrow> rowsOf n (\<lambda>x. (x, Some st) \<in> told) s
    | LoadCall _ _ None \<Rightarrow> True
    | MarkCall v n \<Rightarrow> rowsOf n (\<lambda>x. x = sv_student v) s
    | SettleCall n st \<Rightarrow> rowsOf n (\<lambda>x. (x, Some st) \<in> told) s)"

definition callRow :: "register_call \<Rightarrow> nat option" where
  "callRow c = (case c of LoadCall _ _ after \<Rightarrow> map_option fst after | MarkCall v n \<Rightarrow> Some n | SettleCall n st \<Rightarrow> Some n)"

definition rowsTold :: "(jsstring \<times> attendance_status option) set \<Rightarrow> register_view \<Rightarrow> bool" where
  "rowsTold told s \<longleftrightarrow>
     (\<forall>k w x. (k, w) \<in> set (av_rows s) \<and> k = av_day s @ js '':'' @ x \<longrightarrow> (x, row_status w) \<in> told) \<and>
     (\<forall>c \<in> set (av_calls s). callTold told s c)"

definition numbered :: "register_view \<Rightarrow> bool" where
  "numbered s \<longleftrightarrow> (\<forall>k w. (k, w) \<in> set (av_rows s) \<longrightarrow> row_number w < av_next s) \<and>
     (\<forall>k w k' w'. (k, w) \<in> set (av_rows s) \<and> (k', w') \<in> set (av_rows s) \<and> row_number w = row_number w' \<longrightarrow> k = k') \<and>
     (\<forall>c \<in> set (av_calls s). \<forall>n. callRow c = Some n \<longrightarrow> n < av_next s)"

definition sheetTold :: "(jsstring \<times> attendance_status option) set \<Rightarrow> register_view \<Rightarrow> bool" where
  "sheetTold told s \<longleftrightarrow> (\<forall>r \<in> set (shownRecords s). (att_student_id r, att_status r) \<in> told)"

definition toldPre :: "(jsstring \<times> attendance_status option) set \<Rightarrow> register_view \<Rightarrow> bool" where
  "toldPre told s \<longleftrightarrow> numbered s \<and> sheetTold told s \<and> (av_sheet s = None \<or> rowsTold told s)"

lemma rendered_known:
  assumes "(k, w) \<in> set (av_rows (renderRegister s))"
  shows "(k, w) \<in> set (av_rows s) \<or> (\<exists>i < length (shownRecords s). k = rowKey (av_day s) (shownRecords s ! i) \<and>
    w = mountRow (av_next s + i) (shownRecords s ! i))"
  using rendered_row [OF assms] by (auto dest: map_of_SomeD)

lemma old_row: "(k, w) \<in> set (av_rows (renderRegister s)) \<Longrightarrow> row_number w < av_next s \<Longrightarrow> (k, w) \<in> set (av_rows s)"
  using rendered_known [of k w s] by (auto simp: mountRow_def)

lemma numbered_render: "numbered s \<Longrightarrow> numbered (renderRegister s)"
proof -
  assume n: "numbered s"
  have "row_number w < av_next (renderRegister s)" if "(k, w) \<in> set (av_rows (renderRegister s))" for k w
    using rendered_known [OF that] n by (fastforce simp: numbered_def renderRegister_def mountRow_def)
  moreover have "k = k'" if "(k, w) \<in> set (av_rows (renderRegister s))" "(k', w') \<in> set (av_rows (renderRegister s))"
      "row_number w = row_number w'" for k w k' w'
    using rendered_known [OF that(1)] rendered_known [OF that(2)] that(3) n
    by (fastforce simp: numbered_def mountRow_def)
  moreover have "n < av_next (renderRegister s)" if "c \<in> set (av_calls s)" "callRow c = Some n" for c n
    using that n by (fastforce simp: numbered_def renderRegister_def)
  ultimately show ?thesis unfolding numbered_def by simp blast
qed

lemma toldPre_render:
  assumes "toldPre told s"
  shows "numbered (renderRegister s) \<and> sheetTold told (renderRegister s) \<and> rowsTold told (renderRegister s)"
proof (cases "av_sheet s")
  case None
  have "callTold told (renderRegister s) c" for c
    using None by (simp add: callTold_def rowsOf_def split: register_call.split option.split)
  then show ?thesis
    using assms None numbered_render [of s] by (simp add: toldPre_def sheetTold_def rowsTold_def)
next
  case (Some sh)
  have told: "rowsTold told s" "numbered s" "sheetTold told s" using assms Some by (simp_all add: toldPre_def)
  have "rowsOf m P (renderRegister s)" if "rowsOf m P s" "m < av_next s" for m P
    using that by (simp add: rowsOf_def) (metis old_row)
  then have "callTold told (renderRegister s) c" if "c \<in> set (av_calls s)" for c
    using told(1,2) that by (fastforce simp: rowsTold_def numbered_def callTold_def callRow_def split: register_call.splits option.splits)
  moreover have "(x, row_status w) \<in> told" if "(av_day s @ js '':'' @ x, w) \<in> set (av_rows (renderRegister s))" for w x
    using rendered_known [OF that] told(1,3) by (auto simp: rowsTold_def sheetTold_def rowKey_def mountRow_def)
  ultimately show ?thesis
    using told(2,3) numbered_render [of s] by (simp add: rowsTold_def sheetTold_def)
qed


lemmas told_defs = toldPre_def numbered_def sheetTold_def rowsTold_def shownRecords_def

lemma rowsOf_mono: "rowsOf n P s \<Longrightarrow> (\<And>x. P x \<Longrightarrow> Q x) \<Longrightarrow> rowsOf n Q s"
  by (simp add: rowsOf_def)

lemma toldPre_mono: "toldPre told s \<Longrightarrow> told \<subseteq> told' \<Longrightarrow> toldPre told' s"
  by (fastforce simp: told_defs callTold_def rowsOf_def split: register_call.splits option.splits)

lemma callTold_frame [simp]:
  "callTold told (s\<lparr>av_calls := cs\<rparr>) = callTold told s" "callTold told (s\<lparr>av_error := e\<rparr>) = callTold told s"
  "callTold told (s\<lparr>av_sheet := sh\<rparr>) = callTold told s" "callTold told (s\<lparr>av_sent := v\<rparr>) = callTold told s"
  "callTold told (s\<lparr>av_rooms := rooms\<rparr>) = callTold told s" "callTold told (s\<lparr>av_classroom := r\<rparr>) = callTold told s"
  by (rule ext, simp add: callTold_def rowsOf_def split: register_call.split option.split)+

lemma numbered_frame [simp]:
  "numbered (s\<lparr>av_error := e\<rparr>) = numbered s" "numbered (s\<lparr>av_sheet := sh\<rparr>) = numbered s" "numbered (s\<lparr>av_day := d\<rparr>) = numbered s"
  "numbered (s\<lparr>av_rooms := rooms\<rparr>) = numbered s" "numbered (s\<lparr>av_classroom := r\<rparr>) = numbered s"
  by (simp_all add: numbered_def)

lemma toldPre_frame [simp]:
  "toldPre told (s\<lparr>av_error := e\<rparr>) = toldPre told s" "toldPre told (s\<lparr>av_sent := v\<rparr>) = toldPre told s"
  "toldPre told (s\<lparr>av_rooms := rooms\<rparr>) = toldPre told s" "toldPre told (s\<lparr>av_classroom := r\<rparr>) = toldPre told s"
  by (simp_all add: told_defs)

lemma toldPre_drop: "toldPre told s \<Longrightarrow> toldPre told (withoutCall i s)"
  by (fastforce simp: told_defs withoutCall_def dest: in_set_takeD in_set_dropD)

lemma toldPre_cleared: "numbered s \<Longrightarrow> av_sheet s = None \<Longrightarrow> toldPre told s"
  by (simp add: told_defs)

lemma toldPre_call:
  assumes "toldPre told s" "callTold told s c" "\<And>n. callRow c = Some n \<Longrightarrow> n < av_next s"
  shows "toldPre told (s\<lparr>av_calls := av_calls s @ [c]\<rparr>)"
  using assms unfolding told_defs by auto

lemma toldPre_numbered: "toldPre told s \<Longrightarrow> numbered s"
  by (simp add: toldPre_def)

lemma numbered_call:
  "numbered s \<Longrightarrow> (\<And>n. callRow c = Some n \<Longrightarrow> n < av_next s) \<Longrightarrow> numbered (s\<lparr>av_calls := av_calls s @ [c]\<rparr>)"
  unfolding numbered_def by auto

lemma toldPre_load:
  assumes "toldPre told s" "\<And>n st. after = Some (n, st) \<Longrightarrow> n < av_next s \<and> rowsOf n (\<lambda>x. (x, Some st) \<in> told) s"
  shows "toldPre told (loadSheet c d after s)"
proof (cases "c = []")
  case True
  have "numbered s" using assms(1) by (rule toldPre_numbered)
  then have "numbered (loadSheet c d after s)"
    using assms(2) numbered_call [of s] True by (cases after) (auto simp: loadSheet_def callRow_def numbered_def)
  then show ?thesis using True by (intro toldPre_cleared) (simp_all add: loadSheet_def)
next
  case False
  have "toldPre told (s\<lparr>av_error := [], av_calls := av_calls (s\<lparr>av_error := []\<rparr>) @ [LoadCall c d after]\<rparr>)"
    using assms by (intro toldPre_call; cases after) (auto simp: callTold_def callRow_def)
  then show ?thesis using False by (simp add: loadSheet_def)
qed

lemma changeRow_known:
  assumes "\<And>w. row_number (f w) = row_number w" "(k, w) \<in> set (av_rows (changeRow n f s))"
  shows "\<exists>w'. (k, w') \<in> set (av_rows s) \<and> row_number w' = row_number w \<and> (w = w' \<or> row_number w' = n \<and> w = f w')"
proof -
  obtain w' where "(k, w') \<in> set (av_rows s)" "w = (if row_number w' = n then f w' else w')"
    using assms(2) by (auto simp: changeRow_def)
  then show ?thesis using assms(1) by (intro exI [of _ w']) auto
qed

lemma rowsOf_changeRow:
  assumes "\<And>w. row_number (f w) = row_number w" "rowsOf m P s"
  shows "rowsOf m P (changeRow n f s)"
  using changeRow_known [OF assms(1)] assms(2) unfolding rowsOf_def by simp metis

lemma callTold_changeRow:
  assumes "\<And>w. row_number (f w) = row_number w" "callTold told s c"
  shows "callTold told (changeRow n f s) c"
  using assms(2) by (simp add: callTold_def rowsOf_changeRow [OF assms(1)] split: register_call.splits option.splits prod.splits)

lemma numbered_changeRow:
  assumes "\<And>w. row_number (f w) = row_number w" "numbered s"
  shows "numbered (changeRow n f s)"
proof -
  note known = changeRow_known [OF assms(1), of _ _ n s]
  have "row_number w < av_next s" if "(k, w) \<in> set (av_rows (changeRow n f s))" for k w
    using known [OF that] assms(2) unfolding numbered_def by metis
  moreover have "k = k'" if "(k, w) \<in> set (av_rows (changeRow n f s))" "(k', w') \<in> set (av_rows (changeRow n f s))"
      "row_number w = row_number w'" for k w k' w'
    using known [OF that(1)] known [OF that(2)] that(3) assms(2) unfolding numbered_def by metis
  ultimately show ?thesis using assms(2) unfolding numbered_def by simp blast
qed

lemma toldPre_changeRow:
  assumes "toldPre told s" "\<And>w. row_number (f w) = row_number w"
    and "\<And>k w x. (k, w) \<in> set (av_rows s) \<Longrightarrow> row_number w = n \<Longrightarrow> k = av_day s @ js '':'' @ x \<Longrightarrow> (x, row_status w) \<in> told
      \<Longrightarrow> av_sheet s \<noteq> None \<Longrightarrow> (x, row_status (f w)) \<in> told"
  shows "toldPre told (changeRow n f s)"
proof (cases "av_sheet s")
  case None
  then show ?thesis using assms(1) numbered_changeRow [OF assms(2)] by (simp add: toldPre_def sheetTold_def)
next
  case (Some sh)
  have "(x, row_status w) \<in> told" if "(av_day s @ js '':'' @ x, w) \<in> set (av_rows (changeRow n f s))" for w x
    using changeRow_known [OF assms(2) that] assms(1,3) Some by (auto simp: toldPre_def rowsTold_def)
  then show ?thesis
    using assms(1) Some numbered_changeRow [OF assms(2)] callTold_changeRow [OF assms(2)]
    by (simp add: toldPre_def sheetTold_def rowsTold_def)
qed

lemma toldPre_select:
  assumes "toldPre told s"
  shows "toldPre told (selectRoom c s)" "toldPre told (selectDay d s)"
proof -
  have pre: "toldPre told (s\<lparr>av_classroom := c, av_sheet := None\<rparr>)" "toldPre told (s\<lparr>av_day := d, av_sheet := None\<rparr>)"
    using toldPre_numbered [OF assms] by (auto intro: toldPre_cleared)
  show "toldPre told (selectRoom c s)" using pre(1) by (auto simp: selectRoom_def Let_def intro!: toldPre_load)
  show "toldPre told (selectDay d s)" using pre(2) by (auto simp: selectDay_def Let_def intro!: toldPre_load)
qed

lemma toldPre_rooms: "toldPre told s \<Longrightarrow> toldPre told (roomsChanged rooms s)"
  by (auto simp: roomsChanged_def Let_def intro!: toldPre_load)

lemma toldPre_note: "toldPre told s \<Longrightarrow> toldPre told (typeNote k t s)"
  by (auto simp: typeNote_def intro: toldPre_changeRow split: option.split)

lemma toldPre_save:
  assumes "toldPre told s" "shownRow k s = Some (w, r)"
  shows "toldPre told (saveRow w r st s)"
proof -
  have k: "(k, w) \<in> set (av_rows s)" "rowKey (av_day s) r = k" "av_sheet s \<noteq> None"
    using assms(2) set_find_SomeD [of _ "shownRecords s" r] by (auto simp: shownRow_def shownRecords_def split: option.splits dest: map_of_SomeD)
  let ?s = "changeRow (row_number w) (\<lambda>w. w\<lparr>row_busy := True\<rparr>) s"
  let ?v = "\<lparr>sv_classroom = av_classroom s, sv_day = av_day s, sv_student = att_student_id r, sv_status = st, sv_note = row_note w\<rparr>"
  have "rowsOf (row_number w) (\<lambda>x. x = att_student_id r) s"
    using assms(1) k(1) unfolding rowsOf_def toldPre_def numbered_def by (metis append_same_eq k(2) rowKey_def same_append_eq)
  then have "toldPre told (?s\<lparr>av_calls := av_calls ?s @ [MarkCall ?v (row_number w)]\<rparr>)"
    using assms(1) k(1) by (intro toldPre_call toldPre_changeRow)
      (auto simp: callTold_def callRow_def rowsOf_changeRow told_defs)
  then show ?thesis by (simp add: saveRow_def Let_def told_defs)
qed

lemma toldPre_sheet:
  assumes "toldPre told s" "\<And>sh r. a = Inr sh \<Longrightarrow> r \<in> set (att_records sh) \<Longrightarrow> (att_student_id r, att_status r) \<in> told"
    and "rowsTold told s" "\<And>n st. after = Some (n, st) \<Longrightarrow> n < av_next s \<and> rowsOf n (\<lambda>x. (x, Some st) \<in> told) s"
  shows "toldPre told (sheetAnswer a after s)"
  using assms by (cases a; cases after) (auto simp: sheetAnswer_def Let_def told_defs callTold_def rowsOf_def callRow_def)


lemma rowsTold_drop: "rowsTold told s \<Longrightarrow> told \<subseteq> told' \<Longrightarrow> rowsTold told' (withoutCall i s)"
  by (fastforce simp: rowsTold_def withoutCall_def callTold_def rowsOf_def dest: in_set_takeD in_set_dropD
      split: register_call.splits option.splits)

lemma rowsOf_drop [simp]: "rowsOf n P (withoutCall i s) = rowsOf n P s" "rowsOf n P (s\<lparr>av_error := x\<rparr>) = rowsOf n P s"
  by (simp_all add: rowsOf_def withoutCall_def)

lemma next_drop [simp]: "av_next (withoutCall i s) = av_next s"
  by (simp add: withoutCall_def)

lemma toldPre_settle: "toldPre told s \<Longrightarrow> rowsOf n (\<lambda>x. (x, Some st) \<in> told) s \<Longrightarrow> toldPre told (settleRow n st s)"
  unfolding settleRow_def by (rule toldPre_changeRow) (auto simp: rowsOf_def)

lemma toldPre_mark:
  assumes "toldPre told s" "n < av_next s" "rowsOf n (\<lambda>x. x = sv_student v) s" "failed = None \<Longrightarrow> (sv_student v, Some (sv_status v)) \<in> told"
  shows "toldPre told (markAnswer failed v n s)"
proof (cases failed)
  case None
  then have "rowsOf n (\<lambda>x. (x, Some (sv_status v)) \<in> told) s" using assms(3,4) by (auto intro: rowsOf_mono)
  then show ?thesis using assms(1,2) None by (auto simp: markAnswer_def intro: toldPre_load)
next
  case (Some m)
  then show ?thesis using assms(1) by (auto simp: markAnswer_def intro: toldPre_changeRow)
qed

lemma toldPre_event:
  assumes "numbered s" "sheetTold told s" "rowsTold told s"
  shows "toldPre (set (toldBy e s) \<union> told) (registerEvent e s)"
proof -
  have pre: "toldPre told s" using assms by (simp add: toldPre_def)
  have up: "toldPre (set (toldBy e s) \<union> told) s'" if "toldPre told s'" for s'
    by (rule toldPre_mono [OF that]) simp
  note drop = up [OF toldPre_drop [OF pre]]
  have call: "callTold told s c" "callRow c = Some n \<Longrightarrow> n < av_next s" if "callAt i s = Some c" for i c n
    using assms callAt_in [OF that] by (auto simp: rowsTold_def numbered_def)
  show ?thesis
  proof (cases e)
    case (BlurNote k)
    then have "toldPre told (registerEvent e s)" using pre toldPre_save [OF pre, of k] by (auto simp: blurNote_def split: option.split)
    then show ?thesis by (rule up)
  next
    case (ChooseStatus k st)
    then have "toldPre told (registerEvent e s)" using pre toldPre_save [OF pre, of k] by (auto simp: chooseStatus_def split: option.split)
    then show ?thesis by (rule up)
  next
    case (SheetAnswered i a)
    have "toldPre (set (toldBy e s) \<union> told) (sheetAnswer a after (withoutCall i s))" if c: "callAt i s = Some (LoadCall c d after)" for c d after
      using call [OF c] c drop rowsTold_drop [OF assms(3)]
      by (intro toldPre_sheet) (auto simp: SheetAnswered toldBy_def callTold_def callRow_def elim: rowsOf_mono)
    then show ?thesis using up [OF pre] by (auto simp: SheetAnswered split: option.split register_call.split)
  next
    case (MarkAnswered i a)
    have "toldPre (set (toldBy e s) \<union> told) (markAnswer a v n (withoutCall i s))" if c: "callAt i s = Some (MarkCall v n)" for v n
      using call [OF c] c drop by (intro toldPre_mark) (auto simp: MarkAnswered toldBy_def callTold_def callRow_def)
    then show ?thesis using up [OF pre] by (auto simp: MarkAnswered split: option.split register_call.split)
  next
    case (RowSettled i)
    have "toldPre (set (toldBy e s) \<union> told) (settleRow n st (withoutCall i s))" if c: "callAt i s = Some (SettleCall n st)" for n st
      using call [OF c] drop by (intro toldPre_settle) (auto simp: callTold_def elim: rowsOf_mono)
    then show ?thesis using up [OF pre] by (auto simp: RowSettled split: option.split register_call.split)
  qed (use pre in \<open>auto simp: refreshRegister_def toldBy_def intro!: up toldPre_select toldPre_rooms toldPre_note toldPre_load\<close>)
qed

lemma registerRun_told: "registerRun told s \<Longrightarrow> numbered s \<and> sheetTold (set told) s \<and> rowsTold (set told) s"
proof (induction rule: registerRun.induct)
  case (register_start rooms today)
  have "toldPre {} (startRegister rooms today)"
    unfolding startRegister_def by (rule toldPre_load) (simp_all add: told_defs)
  then show ?case using toldPre_render by simp
next
  case (register_step told s e)
  then have "toldPre (set (toldBy e s @ told)) (registerEvent e s)" by (simp add: toldPre_event)
  then show ?case unfolding registerStep_def by (rule toldPre_render)
qed

text \<open>C8: The register shows only what the host told about the student: in every run of the view, whatever the order of the
answers and of the saves, the status on show for a student is one that a loaded sheet had for that student, or one that the teacher
gave to that student and the host accepted. A refused status and the status of another student are never shown.\<close>

theorem shown_status_was_told:
  assumes "registerRun told s" "(rowKey (av_day s) r, w) \<in> set (av_rows s)"
  shows "(att_student_id r, row_status w) \<in> set told"
  using registerRun_told [OF assms(1)] assms(2) by (auto simp: rowsTold_def rowKey_def)

text \<open>A status chosen right after a note is lost: leaving the field of a note that was changed starts a save that disables the row,
so that the click on another status, which is what left the field, does nothing, and the only request that is sent has the old
status.\<close>

theorem status_chosen_after_note_is_lost:
  assumes "shownRow k s = Some (w, r)" "row_status w = Some st" "row_note w \<noteq> att_note r"
  shows "av_sent (fold registerStep [BlurNote k, ChooseStatus k st'] s) = av_sent s @
    [\<lparr>sv_classroom = av_classroom s, sv_day = av_day s, sv_student = att_student_id r, sv_status = st, sv_note = row_note w\<rparr>]"
proof -
  have k: "map_of (av_rows s) k = Some w" "r \<in> set (shownRecords s)" "rowKey (av_day s) r = k"
    using assms(1) set_find_SomeD [of _ "shownRecords s" r] by (auto simp: shownRow_def split: option.splits)
  let ?s = "registerStep (BlurNote k) s" and ?c = "changeRow (row_number w) (\<lambda>w. w\<lparr>row_busy := True\<rparr>) s"
  have "map_of (av_rows (renderRegister (saveRow w r st s))) k = Some (w\<lparr>row_busy := True\<rparr>)"
    using k by (intro kept_row) (auto simp: saveRow_def Let_def shownRecords_def changeRow_def map_of_map)
  then have "map_of (av_rows ?s) k = Some (w\<lparr>row_busy := True\<rparr>)" using assms by (simp add: registerStep_def blurNote_def)
  then have "chooseStatus k st' ?s = ?s" by (auto simp: chooseStatus_def shownRow_def split: option.split)
  then have "av_sent (registerStep (ChooseStatus k st') ?s) = av_sent ?s" by (simp add: registerStep_def)
  then show ?thesis using blur_saves [OF assms] by simp
qed

section \<open>Examples\<close>

definition registerRoom :: classroom where
  "registerRoom = \<lparr>classroom_id = js ''c'', classroom_name = [], subject_code = None, description = [], color = [], owner_teacher_id = [],
     owner_teacher_name = [], enrolment_code = [], student_count = 1, classroom_created_at = []\<rparr>"

definition registerRecord :: "attendance_status option \<Rightarrow> string \<Rightarrow> attendance_record" where
  "registerRecord st n = \<lparr>att_student_id = js ''ada'', att_student_name = [], att_status = st, att_note = js n, att_checked_in = False,
     att_percentage = None\<rparr>"

definition registerSheet :: "string \<Rightarrow> attendance_record \<Rightarrow> attendance_day" where
  "registerSheet d r = \<lparr>att_classroom_id = js ''c'', att_day = js d, att_records = [r]\<rparr>"

definition openedRegister :: register_view where
  "openedRegister = renderRegister (startRegister [registerRoom] (js ''mon''))"

definition loadedRegister :: register_view where
  "loadedRegister = registerStep (SheetAnswered 0 (Inr (registerSheet ''mon'' (registerRecord (Some LateMark) ''bus'')))) openedRegister"

lemmas register_examples = registerRoom_def registerRecord_def registerSheet_def

lemma openedRegister_eq:
  "openedRegister = \<lparr>av_rooms = [registerRoom], av_classroom = js ''c'', av_day = js ''mon'', av_sheet = None, av_error = [], av_rows = [],
     av_next = 0, av_calls = [LoadCall (js ''c'') (js ''mon'') None], av_sent = []\<rparr>"
  by (simp add: openedRegister_def startRegister_def loadSheet_def renderRegister_def shownRecords_def register_examples js_def)

lemma loadedRegister_eq:
  "loadedRegister = \<lparr>av_rooms = [registerRoom], av_classroom = js ''c'', av_day = js ''mon'',
     av_sheet = Some (registerSheet ''mon'' (registerRecord (Some LateMark) ''bus'')), av_error = [],
     av_rows = [(js ''mon:ada'', \<lparr>row_number = 0, row_note = js ''bus'', row_status = Some LateMark, row_busy = False\<rparr>)],
     av_next = 1, av_calls = [], av_sent = []\<rparr>"
  by (simp add: loadedRegister_def openedRegister_eq registerStep_def callAt_def withoutCall_def sheetAnswer_def renderRegister_def
      shownRecords_def renderRow_def mountRow_def rowKey_def register_examples js_def)

theorem late_register_is_saved_for_another_day_witness:
  "av_sent (fold registerStep [SelectDay (js ''tue''), SheetAnswered 0 (Inr (registerSheet ''mon'' (registerRecord (Some LateMark) ''bus''))),
      TypeNote (js ''tue:ada'') (js ''sick''), BlurNote (js ''tue:ada'')] openedRegister) =
     [\<lparr>sv_classroom = js ''c'', sv_day = js ''tue'', sv_student = js ''ada'', sv_status = LateMark, sv_note = js ''sick''\<rparr>]"
  using late_register_is_saved_for_another_day [where i = 0 and s = openedRegister and c = "js ''c''" and d = "js ''mon''" and d' = "js ''tue''"
      and r = "registerRecord (Some LateMark) ''bus''" and sh = "registerSheet ''mon'' (registerRecord (Some LateMark) ''bus'')"
      and st = LateMark and t = "js ''sick''", OF _ _ _ _ _ _ _ _ _ refl]
  by (simp add: openedRegister_eq callAt_def register_examples rowKey_def js_def)

theorem refreshed_row_overwrites_newer_record_witness:
  "av_sent (registerStep (BlurNote (js ''mon:ada'')) (registerStep (SheetAnswered 0 (Inr (registerSheet ''mon'' (registerRecord (Some ExcusedMark) ''ill''))))
      (registerStep RefreshRegister loadedRegister))) =
     [\<lparr>sv_classroom = js ''c'', sv_day = js ''mon'', sv_student = js ''ada'', sv_status = LateMark, sv_note = js ''bus''\<rparr>]"
proof -
  have s: "registerStep RefreshRegister loadedRegister =
      loadedRegister\<lparr>av_next := 2, av_calls := [LoadCall (js ''c'') (js ''mon'') None]\<rparr>"
    by (simp add: loadedRegister_eq registerStep_def refreshRegister_def loadSheet_def renderRegister_def shownRecords_def renderRow_def rowKey_def
        register_examples js_def)
  have h: "callAt 0 (registerStep RefreshRegister loadedRegister) = Some (LoadCall (js ''c'') (js ''mon'') None)"
    "map_of (av_rows (registerStep RefreshRegister loadedRegister)) (js ''mon:ada'') =
      Some \<lparr>row_number = 0, row_note = js ''bus'', row_status = Some LateMark, row_busy = False\<rparr>"
    unfolding s by (simp_all add: loadedRegister_eq callAt_def)
  have c: "av_classroom (registerStep RefreshRegister loadedRegister) = js ''c''" "av_day (registerStep RefreshRegister loadedRegister) = js ''mon''"
      "av_sent (registerStep RefreshRegister loadedRegister) = []"
    unfolding s by (simp_all add: loadedRegister_eq)
  show ?thesis
    using refreshed_row_overwrites_newer_record [where r = "registerRecord (Some ExcusedMark) ''ill''" and st = LateMark
        and sh = "registerSheet ''mon'' (registerRecord (Some ExcusedMark) ''ill'')", OF h _ _ _ _ _ refl]
    by (simp add: c register_examples rowKey_def js_def)
qed


theorem shown_status_was_told_witness:
  "(js ''ada'', Some LateMark) \<in> set (toldBy (SheetAnswered 0 (Inr (registerSheet ''mon'' (registerRecord (Some LateMark) ''bus'')))) openedRegister)"
proof -
  have "registerRun (toldBy (SheetAnswered 0 (Inr (registerSheet ''mon'' (registerRecord (Some LateMark) ''bus'')))) openedRegister @ []) loadedRegister"
    unfolding loadedRegister_def by (rule register_step, unfold openedRegister_def, rule register_start)
  then show ?thesis
    using shown_status_was_told [where s = loadedRegister and r = "registerRecord None ''''"
        and w = "\<lparr>row_number = 0, row_note = js ''bus'', row_status = Some LateMark, row_busy = False\<rparr>"]
    by (simp add: loadedRegister_eq rowKey_def registerRecord_def js_def)
qed

theorem status_chosen_after_note_is_lost_witness:
  "av_sent (fold registerStep [BlurNote (js ''mon:ada''), ChooseStatus (js ''mon:ada'') AbsentMark]
      (registerStep (TypeNote (js ''mon:ada'') (js ''train'')) loadedRegister)) =
     [\<lparr>sv_classroom = js ''c'', sv_day = js ''mon'', sv_student = js ''ada'', sv_status = LateMark, sv_note = js ''train''\<rparr>]"
  using status_chosen_after_note_is_lost [where s = "registerStep (TypeNote (js ''mon:ada'') (js ''train'')) loadedRegister" and k = "js ''mon:ada''"
      and r = "registerRecord (Some LateMark) ''bus''" and st = LateMark and st' = AbsentMark
      and w = "\<lparr>row_number = 0, row_note = js ''train'', row_status = Some LateMark, row_busy = False\<rparr>"]
  by (simp add: loadedRegister_eq registerStep_def typeNote_def changeRow_def renderRegister_def shownRow_def shownRecords_def renderRow_def rowKey_def
      register_examples js_def)

end
