(* ===== verification/Teacher_Assignments.thy ===== *)
theory Teacher_Assignments
  imports Ui_Types Paper_Logic
begin

text \<open>
  The assignments of the teacher (\<open>AssignmentsView\<close>, \<open>CreateAssignmentModal\<close>, \<open>EditAssignmentModal\<close> and \<open>GradeModal\<close> of
  \<open>apps/teacher/src/App.tsx\<close>): the list, the page of one assignment with its submissions, the change of its status, and the
  review of a submission, whose grade and comment are published one request after the other.

  Every operation is followed by a rendering, which mounts or unmounts the review. The requests on their way are kept with
  what their continuation captured, and every request that is sent is kept in order. Reading a date and a time in the
  time zone of the device is a parameter, and so is the printing of numbers. The message of an error is an argument.
\<close>

section \<open>Data\<close>

record submission_comment =
  cm_id :: jsstring
  cm_author :: jsstring
  cm_body :: jsstring
  cm_anchor :: json
  cm_created_at :: jsstring

record grade_change =
  gc_id :: jsstring
  gc_previous :: json
  gc_current :: json
  gc_changed_at :: jsstring

record assignment_input =
  ai_classroom :: jsstring
  ai_title :: jsstring
  ai_instructions :: jsstring
  ai_due :: "jsstring option"
  ai_points :: jsnum
  ai_scheme :: json
  ai_status :: assignment_status

record create_input =
  ci_classroom :: jsstring
  ci_title :: jsstring
  ci_instructions :: jsstring
  ci_due :: "jsstring option"
  ci_points :: jsnum
  ci_scheme :: json
  ci_publish :: bool

record grade_input =
  gi_points :: "jsnum option"
  gi_label :: "jsstring option"
  gi_feedback :: jsstring
  gi_publish :: bool

section \<open>Forms\<close>

record assignments_env =
  ae_js :: js_env
  ae_iso :: "jsstring \<Rightarrow> jsstring option"

record assignment_form =
  af_room :: jsstring
  af_title :: jsstring
  af_instructions :: jsstring
  af_due :: jsstring
  af_points :: jsstring
  af_status :: assignment_status
  af_publish :: bool

text \<open>The due date of a form: none, or the moment it stands for, which may not exist.\<close>

definition dueOf :: "assignments_env \<Rightarrow> jsstring \<Rightarrow> jsstring option option" where
  "dueOf E due = (if due = [] then Some None else map_option Some (ae_iso E due))"

definition canSaveAssignment :: "assignment_form \<Rightarrow> bool" where
  "canSaveAssignment f \<longleftrightarrow> af_room f \<noteq> [] \<and> trim (af_title f) \<noteq> []"

text \<open>An input of type number is valid when it is empty or a multiple of its step between its bounds.\<close>

definition validNumber :: "rat option \<Rightarrow> jsstring \<Rightarrow> bool" where
  "validNumber upper v \<longleftrightarrow> v = [] \<or>
     (case toNumber v of Fin q \<Rightarrow> 0 \<le> q \<and> (case upper of Some m \<Rightarrow> q \<le> m | None \<Rightarrow> True) \<and> 2 * q = of_int \<lfloor>2 * q\<rfloor> | _ \<Rightarrow> False)"

definition newAssignmentForm :: "classroom list \<Rightarrow> assignment_form" where
  "newAssignmentForm rooms = \<lparr>af_room = (case rooms of r # _ \<Rightarrow> classroom_id r | [] \<Rightarrow> []), af_title = [], af_instructions = [], af_due = [],
     af_points = js ''100'', af_status = Draft, af_publish = True\<rparr>"

definition createInput :: "assignments_env \<Rightarrow> assignment_form \<Rightarrow> create_input option" where
  "createInput E f = map_option (\<lambda>due. \<lparr>ci_classroom = af_room f, ci_title = trim (af_title f), ci_instructions = trim (af_instructions f),
     ci_due = due, ci_points = toNumber (af_points f), ci_scheme = JObj [(js ''type'', JStr (js ''points''))],
     ci_publish = af_publish f\<rparr>) (dueOf E (af_due f))"

definition editInput :: "assignments_env \<Rightarrow> assignment \<Rightarrow> assignment_form \<Rightarrow> assignment_input option" where
  "editInput E a f = map_option (\<lambda>due. \<lparr>ai_classroom = af_room f, ai_title = trim (af_title f), ai_instructions = trim (af_instructions f),
     ai_due = due, ai_points = toNumber (af_points f), ai_scheme = grading_scheme a, ai_status = af_status f\<rparr>) (dueOf E (af_due f))"

definition statusInput :: "assignment \<Rightarrow> assignment_status \<Rightarrow> assignment_input" where
  "statusInput a st = \<lparr>ai_classroom = assignment_classroom_id a, ai_title = assignment_title a, ai_instructions = assignment_instructions a,
     ai_due = due_at a, ai_points = Fin (max_points a), ai_scheme = grading_scheme a, ai_status = st\<rparr>"

section \<open>State\<close>

record review_form =
  rf_number :: nat
  rf_submission :: submission
  rf_points :: jsstring
  rf_label :: jsstring
  rf_feedback :: jsstring
  rf_comment :: jsstring
  rf_comments :: "submission_comment list"
  rf_history :: "grade_change list"
  rf_busy :: bool
  rf_error :: jsstring

text \<open>Publishing a grade: the review, the submission and the assignment it was started for, the comment to post and the request it waits for.\<close>

datatype publish_stage = SavingGrade | PostingComment | LoadingComments | LoadingSubmissions | LoadingWorkspace

record publishing =
  pb_number :: nat
  pb_submission :: jsstring
  pb_assignment :: jsstring
  pb_comment :: jsstring
  pb_stage :: publish_stage

datatype assignments_call =
    SubmissionsCall jsstring
  | CommentsCall nat
  | HistoryCall nat
  | StatusCall jsstring "jsstring option"
  | RemoveCall bool
  | CreateCall
  | EditCall bool nat
  | PublishCall publishing

datatype assignments_request =
    CreateRequest create_input
  | UpdateRequest jsstring assignment_input
  | DeleteRequest jsstring
  | GradeRequest jsstring grade_input
  | CommentRequest jsstring jsstring

record assignments_view =
  as_list :: "assignment list"
  as_creating :: bool
  as_selected :: "assignment option"
  as_editing :: "(assignment \<times> nat \<times> bool) option"
  as_submissions :: "submission list"
  as_grading :: "submission option"
  as_review :: "review_form option"
  as_next :: nat
  as_calls :: "assignments_call list"
  as_sent :: "assignments_request list"

definition activeAssignments :: "assignments_view \<Rightarrow> assignment list" where
  "activeAssignments s = filter (\<lambda>a. assignment_status a \<noteq> Closed) (as_list s)"

definition completedAssignments :: "assignments_view \<Rightarrow> assignment list" where
  "completedAssignments s = filter (\<lambda>a. assignment_status a = Closed) (as_list s)"

definition addCall :: "assignments_call \<Rightarrow> assignments_view \<Rightarrow> assignments_view" where
  "addCall c s = s\<lparr>as_calls := as_calls s @ [c]\<rparr>"

definition sendRequest :: "assignments_request \<Rightarrow> assignments_view \<Rightarrow> assignments_view" where
  "sendRequest r s = s\<lparr>as_sent := as_sent s @ [r]\<rparr>"

section \<open>The page of an assignment\<close>

text \<open>The effect that loads the submissions runs whenever an assignment is selected, also when it is the updated one.\<close>

definition selectAssignment :: "assignment option \<Rightarrow> assignments_view \<Rightarrow> assignments_view" where
  "selectAssignment a s = (case a of
      Some x \<Rightarrow> addCall (SubmissionsCall (assignment_id x)) (s\<lparr>as_selected := a\<rparr>)
    | None \<Rightarrow> s\<lparr>as_selected := None\<rparr>)"

text \<open>The review of a submission, when it is mounted.\<close>

definition mountReview :: "assignments_env \<Rightarrow> nat \<Rightarrow> submission \<Rightarrow> review_form" where
  "mountReview E n u = \<lparr>rf_number = n, rf_submission = u,
     rf_points = (case submission_grade u of Some g \<Rightarrow> (case grade_points g of Some q \<Rightarrow> numToString (ae_js E) q | None \<Rightarrow> []) | None \<Rightarrow> []),
     rf_label = (case submission_grade u of Some g \<Rightarrow> (case grade_label g of Some t \<Rightarrow> t | None \<Rightarrow> []) | None \<Rightarrow> []),
     rf_feedback = (case submission_grade u of Some g \<Rightarrow> grade_feedback g | None \<Rightarrow> []),
     rf_comment = [], rf_comments = [], rf_history = [], rf_busy = False, rf_error = []\<rparr>"

definition renderAssignments :: "assignments_env \<Rightarrow> assignments_view \<Rightarrow> assignments_view" where
  "renderAssignments E s = (case (as_selected s, as_grading s) of
      (Some _, Some u) \<Rightarrow> (case as_review s of
          Some _ \<Rightarrow> s
        | None \<Rightarrow> s\<lparr>as_review := Some (mountReview E (as_next s) u), as_next := Suc (as_next s),
            as_calls := as_calls s @ [CommentsCall (as_next s), HistoryCall (as_next s)]\<rparr>)
    | _ \<Rightarrow> s\<lparr>as_review := None\<rparr>)"

section \<open>Changing an assignment\<close>

definition updateStatus :: "assignment \<Rightarrow> assignment_status \<Rightarrow> assignments_view \<Rightarrow> assignments_view" where
  "updateStatus a st s = addCall (StatusCall (assignment_id a) (map_option assignment_id (as_selected s)))
     (sendRequest (UpdateRequest (assignment_id a) (statusInput a st)) s)"

text \<open>The button of the page and that of a row.\<close>

definition toggleSelected :: "assignments_view \<Rightarrow> assignments_view" where
  "toggleSelected s = (case as_selected s of
      Some a \<Rightarrow> updateStatus a (if assignment_status a \<noteq> Closed then Closed else Published) s
    | None \<Rightarrow> s)"

definition toggleRow :: "assignment \<Rightarrow> assignments_view \<Rightarrow> assignments_view" where
  "toggleRow a s =
     (if as_selected s \<noteq> None \<or> a \<notin> set (as_list s) then s
      else updateStatus a (if assignment_status a \<noteq> Closed then Closed else Published) s)"

text \<open>Deletion, once confirmed; on the page it goes back to the list when it is answered.\<close>

definition removeAssignment :: "assignment \<Rightarrow> assignments_view \<Rightarrow> assignments_view" where
  "removeAssignment a s = addCall (RemoveCall (as_selected s \<noteq> None)) (sendRequest (DeleteRequest (assignment_id a)) s)"

definition submitCreate :: "assignments_env \<Rightarrow> assignment_form \<Rightarrow> assignments_view \<Rightarrow> assignments_view" where
  "submitCreate E f s =
     (if as_creating s \<and> canSaveAssignment f \<and> validNumber None (af_points f)
      then (case createInput E f of Some i \<Rightarrow> addCall CreateCall (sendRequest (CreateRequest i) s) | None \<Rightarrow> s)
      else s)"

text \<open>The form of an assignment that is edited has a number of its own and is busy while it is saved.\<close>

definition openEdit :: "assignment \<Rightarrow> assignments_view \<Rightarrow> assignments_view" where
  "openEdit a s = (if as_editing s = None then s\<lparr>as_editing := Some (a, as_next s, False), as_next := Suc (as_next s)\<rparr> else s)"

definition endEdit :: "nat \<Rightarrow> assignments_view \<Rightarrow> assignments_view" where
  "endEdit n s = s\<lparr>as_editing := map_option (\<lambda>(a, m, b). (a, m, if m = n then False else b)) (as_editing s)\<rparr>"

definition submitEdit :: "assignments_env \<Rightarrow> assignment_form \<Rightarrow> assignments_view \<Rightarrow> assignments_view" where
  "submitEdit E f s = (case as_editing s of
      Some (a, n, busy) \<Rightarrow>
        if \<not> busy \<and> canSaveAssignment f \<and> validNumber None (af_points f)
        then (case editInput E a f of
            Some i \<Rightarrow> addCall (EditCall (as_selected s \<noteq> None) n)
              (sendRequest (UpdateRequest (assignment_id a) i) (s\<lparr>as_editing := Some (a, n, True)\<rparr>))
          | None \<Rightarrow> s)
        else s
    | None \<Rightarrow> s)"

section \<open>Reviewing a submission\<close>

definition openReview :: "submission \<Rightarrow> assignments_view \<Rightarrow> assignments_view" where
  "openReview u s =
     (if as_selected s \<noteq> None \<and> as_review s = None \<and> u \<in> set (as_submissions s) then s\<lparr>as_grading := Some u\<rparr> else s)"

definition closeReview :: "assignments_view \<Rightarrow> assignments_view" where
  "closeReview s = s\<lparr>as_grading := None\<rparr>"

datatype review_edit = TypePoints jsstring | TypeLabel jsstring | TypeFeedback jsstring | TypeComment jsstring

fun editReview :: "review_edit \<Rightarrow> review_form \<Rightarrow> review_form" where
  "editReview (TypePoints v) f = f\<lparr>rf_points := v\<rparr>"
| "editReview (TypeLabel v) f = f\<lparr>rf_label := v\<rparr>"
| "editReview (TypeFeedback v) f = f\<lparr>rf_feedback := v\<rparr>"
| "editReview (TypeComment v) f = f\<lparr>rf_comment := v\<rparr>"

definition gradeInput :: "review_form \<Rightarrow> grade_input" where
  "gradeInput f = \<lparr>gi_points = (if rf_points f = [] then None else Some (toNumber (rf_points f))),
     gi_label = (if trim (rf_label f) = [] then None else Some (trim (rf_label f))), gi_feedback = trim (rf_feedback f), gi_publish = True\<rparr>"

text \<open>The form is submitted when its points are valid for the assignment of the page.\<close>

definition submitReview :: "assignments_view \<Rightarrow> assignments_view" where
  "submitReview s = (case (as_review s, as_selected s) of
      (Some f, Some a) \<Rightarrow>
        if rf_busy f \<or> \<not> validNumber (Some (max_points a)) (rf_points f) then s
        else addCall (PublishCall \<lparr>pb_number = rf_number f, pb_submission = submission_id (rf_submission f), pb_assignment = assignment_id a,
               pb_comment = rf_comment f, pb_stage = SavingGrade\<rparr>)
             (sendRequest (GradeRequest (submission_id (rf_submission f)) (gradeInput f))
               (s\<lparr>as_review := Some (f\<lparr>rf_busy := True, rf_error := []\<rparr>)\<rparr>))
    | _ \<Rightarrow> s)"

text \<open>A state of the review is set while it is mounted.\<close>

definition inReview :: "nat \<Rightarrow> (review_form \<Rightarrow> review_form) \<Rightarrow> assignments_view \<Rightarrow> assignments_view" where
  "inReview n g s = (case as_review s of
      Some f \<Rightarrow> if rf_number f = n then s\<lparr>as_review := Some (g f)\<rparr> else s
    | None \<Rightarrow> s)"

section \<open>Answers\<close>

text \<open>What a request is answered: the updated assignment, the submissions, the comments, the log, or nothing that is used.\<close>

datatype assignments_answer =
    AnsAssignment assignment | AnsSubmissions "submission list" | AnsComments "submission_comment list"
  | AnsHistory "grade_change list" | AnsDone | AnsFailed jsstring

definition publishNext :: "publishing \<Rightarrow> publish_stage \<Rightarrow> assignments_view \<Rightarrow> assignments_view" where
  "publishNext p g s = addCall (PublishCall (p\<lparr>pb_stage := g\<rparr>)) s"

text \<open>The next request of a publication, in the order of the code; a failure is shown and ends it.\<close>

definition publishAnswer :: "publishing \<Rightarrow> assignments_answer \<Rightarrow> assignments_view \<Rightarrow> assignments_view" where
  "publishAnswer p ans s = (case (pb_stage p, ans) of
      (LoadingWorkspace, _) \<Rightarrow> inReview (pb_number p) (\<lambda>f. f\<lparr>rf_busy := False\<rparr>) (closeReview s)
    | (_, AnsFailed e) \<Rightarrow> inReview (pb_number p) (\<lambda>f. f\<lparr>rf_error := e, rf_busy := False\<rparr>) s
    | (SavingGrade, _) \<Rightarrow>
        if trim (pb_comment p) = [] then publishNext p LoadingSubmissions s
        else publishNext p PostingComment (sendRequest (CommentRequest (pb_submission p) (trim (pb_comment p))) s)
    | (PostingComment, _) \<Rightarrow> publishNext p LoadingComments (inReview (pb_number p) (\<lambda>f. f\<lparr>rf_comment := []\<rparr>) s)
    | (LoadingComments, AnsComments cs) \<Rightarrow> publishNext p LoadingSubmissions (inReview (pb_number p) (\<lambda>f. f\<lparr>rf_comments := cs\<rparr>) s)
    | (LoadingSubmissions, AnsSubmissions us) \<Rightarrow> publishNext p LoadingWorkspace (s\<lparr>as_submissions := us\<rparr>)
    | _ \<Rightarrow> s)"

definition callAnswer :: "assignments_call \<Rightarrow> assignments_answer \<Rightarrow> assignments_view \<Rightarrow> assignments_view" where
  "callAnswer c ans s = (case (c, ans) of
      (PublishCall p, _) \<Rightarrow> publishAnswer p ans s
    | (EditCall page n, AnsFailed _) \<Rightarrow> endEdit n s
    | (_, AnsFailed _) \<Rightarrow> s
    | (SubmissionsCall _, AnsSubmissions us) \<Rightarrow> s\<lparr>as_submissions := us\<rparr>
    | (CommentsCall n, AnsComments cs) \<Rightarrow> inReview n (\<lambda>f. f\<lparr>rf_comments := cs\<rparr>) s
    | (HistoryCall n, AnsHistory hs) \<Rightarrow> inReview n (\<lambda>f. f\<lparr>rf_history := hs\<rparr>) s
    | (StatusCall i j, AnsAssignment a) \<Rightarrow> if j = Some i then selectAssignment (Some a) s else s
    | (RemoveCall page, AnsDone) \<Rightarrow> if page then selectAssignment None s else s
    | (CreateCall, AnsAssignment _) \<Rightarrow> s\<lparr>as_creating := False\<rparr>
    | (EditCall page n, AnsAssignment a) \<Rightarrow> if page then selectAssignment (Some a) (s\<lparr>as_editing := None\<rparr>) else s\<lparr>as_editing := None\<rparr>
    | _ \<Rightarrow> s)"

text \<open>The answers a request can have.\<close>

definition answerFits :: "assignments_call \<Rightarrow> assignments_answer \<Rightarrow> bool" where
  "answerFits c ans = (case ans of
      AnsFailed _ \<Rightarrow> (case c of PublishCall p \<Rightarrow> pb_stage p \<noteq> LoadingWorkspace | _ \<Rightarrow> True)
    | AnsAssignment _ \<Rightarrow> (case c of StatusCall _ _ \<Rightarrow> True | CreateCall \<Rightarrow> True | EditCall _ _ \<Rightarrow> True | _ \<Rightarrow> False)
    | AnsSubmissions _ \<Rightarrow> (case c of SubmissionsCall _ \<Rightarrow> True | PublishCall p \<Rightarrow> pb_stage p = LoadingSubmissions | _ \<Rightarrow> False)
    | AnsComments _ \<Rightarrow> (case c of CommentsCall _ \<Rightarrow> True | PublishCall p \<Rightarrow> pb_stage p = LoadingComments | _ \<Rightarrow> False)
    | AnsHistory _ \<Rightarrow> (case c of HistoryCall _ \<Rightarrow> True | _ \<Rightarrow> False)
    | AnsDone \<Rightarrow> (case c of RemoveCall _ \<Rightarrow> True | PublishCall p \<Rightarrow> pb_stage p \<in> {SavingGrade, PostingComment, LoadingWorkspace} | _ \<Rightarrow> False))"

definition takeCall :: "nat \<Rightarrow> assignments_view \<Rightarrow> assignments_view" where
  "takeCall i s = s\<lparr>as_calls := take i (as_calls s) @ drop (Suc i) (as_calls s)\<rparr>"

section \<open>Steps\<close>

datatype assignments_event =
    OpenAssignment assignment | BackToList | ToggleSelected | ToggleRow assignment | RemoveAssignment assignment
  | OpenCreate | CloseCreate | SubmitCreate assignment_form | OpenEdit assignment | CloseEdit | SubmitEdit assignment_form
  | OpenReview submission | CloseReview | EditReview review_edit | SubmitReview
  | ListChanged "assignment list" | Answered nat assignments_answer

fun assignmentsEvent :: "assignments_env \<Rightarrow> assignments_event \<Rightarrow> assignments_view \<Rightarrow> assignments_view" where
  "assignmentsEvent E (OpenAssignment a) s = (if as_selected s = None \<and> a \<in> set (as_list s) then selectAssignment (Some a) s else s)"
| "assignmentsEvent E BackToList s = selectAssignment None s"
| "assignmentsEvent E ToggleSelected s = toggleSelected s"
| "assignmentsEvent E (ToggleRow a) s = toggleRow a s"
| "assignmentsEvent E (RemoveAssignment a) s =
    (if (case as_selected s of Some b \<Rightarrow> a = b | None \<Rightarrow> a \<in> set (as_list s)) then removeAssignment a s else s)"
| "assignmentsEvent E OpenCreate s = s\<lparr>as_creating := True\<rparr>"
| "assignmentsEvent E CloseCreate s = s\<lparr>as_creating := False\<rparr>"
| "assignmentsEvent E (SubmitCreate f) s = submitCreate E f s"
| "assignmentsEvent E (OpenEdit a) s =
    (if (case as_selected s of Some b \<Rightarrow> a = b | None \<Rightarrow> a \<in> set (as_list s)) then openEdit a s else s)"
| "assignmentsEvent E CloseEdit s = s\<lparr>as_editing := None\<rparr>"
| "assignmentsEvent E (SubmitEdit f) s = submitEdit E f s"
| "assignmentsEvent E (OpenReview u) s = openReview u s"
| "assignmentsEvent E CloseReview s = closeReview s"
| "assignmentsEvent E (EditReview e) s = (case as_review s of Some f \<Rightarrow> s\<lparr>as_review := Some (editReview e f)\<rparr> | None \<Rightarrow> s)"
| "assignmentsEvent E SubmitReview s = submitReview s"
| "assignmentsEvent E (ListChanged xs) s = s\<lparr>as_list := xs\<rparr>"
| "assignmentsEvent E (Answered i ans) s =
    (if i < length (as_calls s) \<and> answerFits (as_calls s ! i) ans
     then callAnswer (as_calls s ! i) ans (takeCall i s) else s)"

definition assignmentsStep :: "assignments_env \<Rightarrow> assignments_event \<Rightarrow> assignments_view \<Rightarrow> assignments_view" where
  "assignmentsStep E e s = renderAssignments E (assignmentsEvent E e s)"

definition startAssignments :: "assignment list \<Rightarrow> assignments_view" where
  "startAssignments xs = \<lparr>as_list = xs, as_creating = False, as_selected = None, as_editing = None, as_submissions = [], as_grading = None,
     as_review = None, as_next = 0, as_calls = [], as_sent = []\<rparr>"

section \<open>Lemmas\<close>

lemma add_simps [simp]:
  "as_list (addCall c s) = as_list s" "as_creating (addCall c s) = as_creating s" "as_selected (addCall c s) = as_selected s"
  "as_editing (addCall c s) = as_editing s" "as_submissions (addCall c s) = as_submissions s" "as_grading (addCall c s) = as_grading s"
  "as_review (addCall c s) = as_review s" "as_next (addCall c s) = as_next s" "as_calls (addCall c s) = as_calls s @ [c]"
  "as_sent (addCall c s) = as_sent s"
  by (simp_all add: addCall_def)

lemma send_simps [simp]:
  "as_list (sendRequest r s) = as_list s" "as_creating (sendRequest r s) = as_creating s" "as_selected (sendRequest r s) = as_selected s"
  "as_editing (sendRequest r s) = as_editing s" "as_submissions (sendRequest r s) = as_submissions s"
  "as_grading (sendRequest r s) = as_grading s" "as_review (sendRequest r s) = as_review s" "as_next (sendRequest r s) = as_next s"
  "as_calls (sendRequest r s) = as_calls s" "as_sent (sendRequest r s) = as_sent s @ [r]"
  by (simp_all add: sendRequest_def)

lemma inReview_simps [simp]:
  "as_selected (inReview n g s) = as_selected s" "as_grading (inReview n g s) = as_grading s" "as_next (inReview n g s) = as_next s"
  "as_calls (inReview n g s) = as_calls s" "as_sent (inReview n g s) = as_sent s" "as_submissions (inReview n g s) = as_submissions s"
  "as_list (inReview n g s) = as_list s"
  by (simp_all add: inReview_def split: option.split)

lemma take_simps [simp]:
  "as_list (takeCall i s) = as_list s" "as_creating (takeCall i s) = as_creating s" "as_selected (takeCall i s) = as_selected s"
  "as_editing (takeCall i s) = as_editing s" "as_submissions (takeCall i s) = as_submissions s" "as_grading (takeCall i s) = as_grading s"
  "as_review (takeCall i s) = as_review s" "as_next (takeCall i s) = as_next s" "as_sent (takeCall i s) = as_sent s"
  "as_calls (takeCall i s) = take i (as_calls s) @ drop (Suc i) (as_calls s)"
  by (simp_all add: takeCall_def)

lemma render_frames [simp]:
  "as_sent (renderAssignments E s) = as_sent s" "as_selected (renderAssignments E s) = as_selected s" "as_grading (renderAssignments E s) = as_grading s"
  "as_submissions (renderAssignments E s) = as_submissions s" "as_list (renderAssignments E s) = as_list s"
  by (simp_all add: renderAssignments_def split: option.split)

lemma render_closed: "as_selected s = None \<or> as_grading s = None \<Longrightarrow> renderAssignments E s = s\<lparr>as_review := None\<rparr>"
  by (auto simp: renderAssignments_def split: option.split)

lemma render_open: "as_selected s = Some a \<Longrightarrow> as_grading s = Some u \<Longrightarrow> as_review s = Some f \<Longrightarrow> renderAssignments E s = s"
  by (simp add: renderAssignments_def)

lemma render_mounts:
  "as_selected s = Some a \<Longrightarrow> as_grading s = Some u \<Longrightarrow> as_review s = None \<Longrightarrow> renderAssignments E s =
     s\<lparr>as_review := Some (mountReview E (as_next s) u), as_next := Suc (as_next s),
       as_calls := as_calls s @ [CommentsCall (as_next s), HistoryCall (as_next s)]\<rparr>"
  by (simp add: renderAssignments_def)

section \<open>Grades\<close>

lemma gradeInput_valid:
  assumes "validNumber (Some m) (rf_points f)"
  shows "gi_points (gradeInput f) = None \<or> (\<exists>q. gi_points (gradeInput f) = Some (Fin q) \<and> 0 \<le> q \<and> q \<le> m \<and> 2 * q = of_int \<lfloor>2 * q\<rfloor>)"
  using assms by (auto simp: gradeInput_def validNumber_def split: jsnum.splits)

text \<open>C7: A grade that is sent is within the assignment on show: whatever the teacher does and whatever is answered, when a step sends a grade,
an assignment is selected, a review is open and not busy, and the points are none or half points from zero to the maximum
of that assignment.\<close>

theorem sent_grade_within_shown_assignment:
  assumes "as_sent (assignmentsStep E e s) = as_sent s @ [GradeRequest u g]"
  shows "\<exists>a f. as_selected s = Some a \<and> as_review s = Some f \<and> \<not> rf_busy f \<and> u = submission_id (rf_submission f) \<and>
    (gi_points g = None \<or> (\<exists>q. gi_points g = Some (Fin q) \<and> 0 \<le> q \<and> q \<le> max_points a \<and> 2 * q = of_int \<lfloor>2 * q\<rfloor>))"
proof (cases e)
  case SubmitReview
  then obtain a f where "as_selected s = Some a" "as_review s = Some f" "\<not> rf_busy f" "validNumber (Some (max_points a)) (rf_points f)"
      "u = submission_id (rf_submission f)" "g = gradeInput f"
    using assms by (auto simp: assignmentsStep_def submitReview_def split: option.splits if_splits)
  then show ?thesis using gradeInput_valid by blast
next
  case (Answered i ans)
  then show ?thesis
    using assms by (auto simp: assignmentsStep_def callAnswer_def publishAnswer_def publishNext_def selectAssignment_def endEdit_def closeReview_def
        split: if_splits assignments_call.splits assignments_answer.splits publish_stage.splits option.splits)
qed (use assms in \<open>auto simp: assignmentsStep_def selectAssignment_def toggleSelected_def toggleRow_def updateStatus_def removeAssignment_def
    submitCreate_def submitEdit_def openEdit_def openReview_def closeReview_def split: option.splits if_splits\<close>)

lemma open_while_loading:
  assumes "i < length (as_calls s)" "b \<in> set (as_list s)"
  shows "let s2 = assignmentsStep E (OpenAssignment b) (assignmentsStep E BackToList s) in
    as_calls s2 ! i = as_calls s ! i \<and> i < length (as_calls s2) \<and> as_selected s2 = Some b \<and> as_sent s2 = as_sent s \<and>
    as_grading s2 = as_grading s \<and> (as_grading s = None \<longrightarrow> as_review s2 = None)"
  using assms by (cases "as_grading s") (auto simp: assignmentsStep_def selectAssignment_def renderAssignments_def nth_append)

text \<open>Opening a submission, writing points that the page accepts and submitting.\<close>

lemma review_submits:
  assumes "as_selected s = Some b" "as_review s = None" "as_grading s = None" "u \<in> set (as_submissions s)"
    and "validNumber (Some (max_points b)) v" "v \<noteq> []"
  shows "\<exists>g. gi_points g = Some (toNumber v) \<and>
    as_sent (fold (assignmentsStep E) [OpenReview u, EditReview (TypePoints v), SubmitReview] s) = as_sent s @ [GradeRequest (submission_id u) g]"
  using assms by (intro exI [of _ "gradeInput (mountReview E (as_next s) u\<lparr>rf_points := v\<rparr>)"])
    (simp add: assignmentsStep_def openReview_def render_mounts submitReview_def render_open mountReview_def gradeInput_def)

text \<open>A submission is graded under another assignment: when the teacher goes back and opens another assignment while the submissions
of the first are still loading, their answer fills the page of the second, and a submission to the first is then graded
with points that only the maximum of the second bounds.\<close>

theorem late_submissions_are_graded_under_another_assignment:
  assumes "i < length (as_calls s)" "as_calls s ! i = SubmissionsCall (assignment_id a)" "as_grading s = None"
    and "b \<in> set (as_list s)" "u \<in> set us" "validNumber (Some (max_points b)) v" "v \<noteq> []"
    and "s' = fold (assignmentsStep E) [BackToList, OpenAssignment b, Answered i (AnsSubmissions us)] s"
  shows "as_selected s' = Some b \<and> as_submissions s' = us \<and>
    (\<exists>g. gi_points g = Some (toNumber v) \<and>
      as_sent (fold (assignmentsStep E) [OpenReview u, EditReview (TypePoints v), SubmitReview] s') = as_sent s @ [GradeRequest (submission_id u) g])"
proof -
  let ?s = "assignmentsStep E (OpenAssignment b) (assignmentsStep E BackToList s)"
  have o: "as_calls ?s ! i = SubmissionsCall (assignment_id a)" "i < length (as_calls ?s)" "as_selected ?s = Some b" "as_sent ?s = as_sent s"
      "as_grading ?s = None" "as_review ?s = None"
    using open_while_loading [OF assms(1,4)] assms(2,3) by (simp_all add: Let_def)
  have "s' = renderAssignments E (takeCall i ?s\<lparr>as_submissions := us\<rparr>)"
    using o by (simp add: assms(8) assignmentsStep_def [of _ "Answered i (AnsSubmissions us)"] answerFits_def callAnswer_def)
  then have s': "as_selected s' = Some b" "as_submissions s' = us" "as_grading s' = None" "as_review s' = None" "as_sent s' = as_sent s"
    using o by (simp_all add: render_closed)
  show ?thesis using review_submits [OF s'(1,4,3)] assms(5-7) s' by simp
qed

section \<open>Publishing\<close>

lemma answer_at:
  assumes "i < length (as_calls s)" "as_calls s ! i = c" "answerFits c ans"
  shows "assignmentsStep E (Answered i ans) s =
    renderAssignments E (callAnswer c ans (takeCall i s))"
  using assms by (simp add: assignmentsStep_def)

text \<open>The answers of a publication without a comment, while a review is open.\<close>

lemma publish_quietly:
  assumes "i < length (as_calls s)" "as_calls s ! i = PublishCall p" "answerFits (PublishCall p) ans"
    and "as_selected s = Some a" "as_grading s = Some u" "as_review s = Some r"
    and "pb_stage p = SavingGrade \<and> trim (pb_comment p) = [] \<and> ans = AnsDone \<and> g = LoadingSubmissions \<or>
      pb_stage p = LoadingSubmissions \<and> ans = AnsSubmissions us \<and> g = LoadingWorkspace"
  shows "let s' = assignmentsStep E (Answered i ans) s in
    as_calls s' = take i (as_calls s) @ drop (Suc i) (as_calls s) @ [PublishCall (p\<lparr>pb_stage := g\<rparr>)] \<and>
    as_selected s' = Some a \<and> as_grading s' = Some u \<and> as_review s' = Some r"
  using assms(7)
proof
  assume "pb_stage p = SavingGrade \<and> trim (pb_comment p) = [] \<and> ans = AnsDone \<and> g = LoadingSubmissions"
  then show ?thesis using assms(1-6) by (simp add: answer_at callAnswer_def publishAnswer_def publishNext_def render_open)
next
  assume "pb_stage p = LoadingSubmissions \<and> ans = AnsSubmissions us \<and> g = LoadingWorkspace"
  then show ?thesis using assms(1-6) by (simp add: answer_at callAnswer_def publishAnswer_def publishNext_def render_open)
qed

lemma publish_ends:
  assumes "i < length (as_calls s)" "as_calls s ! i = PublishCall p" "pb_stage p = LoadingWorkspace"
  shows "as_review (assignmentsStep E (Answered i AnsDone) s) = None"
  using assms by (simp add: answer_at answerFits_def callAnswer_def publishAnswer_def closeReview_def render_closed)

text \<open>A publication that ends closes the review that is open then: when the teacher publishes a grade without a comment, closes the
review and opens the submission of another student meanwhile, the end of the publication closes that review and what was written
there, a comment for instance, is lost.\<close>

theorem finished_publication_closes_another_review:
  assumes "as_review s = Some f" "\<not> rf_busy f" "as_selected s = Some a" "validNumber (Some (max_points a)) (rf_points f)"
    and "trim (rf_comment f) = []" "u \<in> set (as_submissions s)" "n = length (as_calls s)"
    and "s1 = fold (assignmentsStep E) [SubmitReview, CloseReview, OpenReview u, EditReview (TypeComment t)] s"
    and "s2 = fold (assignmentsStep E) [Answered n AnsDone, Answered (n + 2) (AnsSubmissions us), Answered (n + 2) AnsDone] s1"
  shows "map_option rf_comment (as_review s1) = Some t \<and> as_review s2 = None"
proof -
  define p where "p = \<lparr>pb_number = rf_number f, pb_submission = submission_id (rf_submission f), pb_assignment = assignment_id a,
    pb_comment = rf_comment f, pb_stage = SavingGrade\<rparr>"
  define r where "r = mountReview E (as_next s) u\<lparr>rf_comment := t\<rparr>"
  let ?s = "assignmentsStep E CloseReview (assignmentsStep E SubmitReview s)"
  have "as_grading ?s = None" "as_review ?s = None"
    by (simp_all add: assignmentsStep_def [of _ CloseReview] closeReview_def render_closed)
  moreover have "as_calls (assignmentsStep E SubmitReview s) = as_calls s @ [PublishCall p]" "as_selected (assignmentsStep E SubmitReview s) = Some a"
      "as_submissions (assignmentsStep E SubmitReview s) = as_submissions s" "as_next (assignmentsStep E SubmitReview s) = as_next s"
    using assms(1-4) by (auto simp: assignmentsStep_def submitReview_def p_def renderAssignments_def split: option.split)
  ultimately have "as_grading ?s = None" "as_review ?s = None" "as_calls ?s = as_calls s @ [PublishCall p]" "as_selected ?s = Some a"
      "as_submissions ?s = as_submissions s" "as_next ?s = as_next s"
    by (simp_all add: assignmentsStep_def [of _ CloseReview] closeReview_def render_closed)
  then have s1: "as_calls s1 = as_calls s @ [PublishCall p, CommentsCall (as_next s), HistoryCall (as_next s)]" "as_selected s1 = Some a"
      "as_grading s1 = Some u" "as_review s1 = Some r"
    using assms(6) unfolding assms(8) by (simp_all add: assignmentsStep_def [of _ "OpenReview _"] assignmentsStep_def [of _ "EditReview _"]
        openReview_def render_mounts render_open r_def)
  let ?c = "[CommentsCall (as_next s), HistoryCall (as_next s)]"
  let ?s3 = "assignmentsStep E (Answered n AnsDone) s1" and ?p3 = "p\<lparr>pb_stage := LoadingSubmissions\<rparr>"
  have s3: "as_calls ?s3 = as_calls s @ ?c @ [PublishCall ?p3]" "as_selected ?s3 = Some a" "as_grading ?s3 = Some u" "as_review ?s3 = Some r"
    using publish_quietly [of n s1 p AnsDone, OF _ _ _ s1(2-4), where g = LoadingSubmissions and E = E] s1(1) assms(5,7)
    by (simp_all add: answerFits_def p_def Let_def)
  let ?s4 = "assignmentsStep E (Answered (n + 2) (AnsSubmissions us)) ?s3"
  have s4: "as_calls ?s4 = as_calls s @ ?c @ [PublishCall (?p3\<lparr>pb_stage := LoadingWorkspace\<rparr>)]"
    using publish_quietly [of "n + 2" ?s3 ?p3 "AnsSubmissions us", OF _ _ _ s3(2-4), where g = LoadingWorkspace and E = E] s3(1) assms(7)
    by (simp add: answerFits_def Let_def nth_append)
  have "as_review s2 = None"
    using publish_ends [of "n + 2" ?s4] s4 assms(7) unfolding assms(9) by (simp add: nth_append)
  then show ?thesis using s1(4) by (simp add: r_def)
qed

section \<open>Comments\<close>

text \<open>A run of the view, with the number of times that a comment was written and the number of comments that the host accepted.\<close>

definition writesComment :: "assignments_event \<Rightarrow> nat" where
  "writesComment e = (case e of EditReview (TypeComment _) \<Rightarrow> 1 | _ \<Rightarrow> 0)"

definition postsComment :: "assignments_event \<Rightarrow> assignments_view \<Rightarrow> nat" where
  "postsComment e s = (case e of
      Answered i AnsDone \<Rightarrow> if i < length (as_calls s)
        then (case as_calls s ! i of PublishCall p \<Rightarrow> if pb_stage p = PostingComment then 1 else 0 | _ \<Rightarrow> 0) else 0
    | _ \<Rightarrow> 0)"

inductive assignmentsRun :: "assignments_env \<Rightarrow> nat \<Rightarrow> nat \<Rightarrow> assignments_view \<Rightarrow> bool" for E where
  assignments_start: "assignmentsRun E 0 0 (startAssignments xs)"
| assignments_step: "assignmentsRun E typed posted s \<Longrightarrow>
    assignmentsRun E (typed + writesComment e) (posted + postsComment e s) (assignmentsStep E e s)"

text \<open>The reviews that still have a comment to post, in their field or on its way.\<close>

definition pendingComment :: "assignments_call \<Rightarrow> nat option" where
  "pendingComment c = (case c of
      PublishCall p \<Rightarrow> if pb_stage p \<in> {SavingGrade, PostingComment} \<and> trim (pb_comment p) \<noteq> [] then Some (pb_number p) else None
    | _ \<Rightarrow> None)"

definition publisher :: "assignments_call \<Rightarrow> nat option" where
  "publisher c = (case c of PublishCall p \<Rightarrow> Some (pb_number p) | _ \<Rightarrow> None)"

definition reviewCore :: "assignments_view \<Rightarrow> (nat \<times> jsstring \<times> bool) option" where
  "reviewCore s = map_option (\<lambda>f. (rf_number f, rf_comment f, rf_busy f)) (as_review s)"

definition fieldComment :: "(nat \<times> jsstring \<times> bool) option \<Rightarrow> nat set" where
  "fieldComment r = (case r of Some (n, t, b) \<Rightarrow> if trim t = [] then {} else {n} | None \<Rightarrow> {})"

definition waitingComments :: "assignments_view \<Rightarrow> nat set" where
  "waitingComments s = fieldComment (reviewCore s) \<union> set (List.map_filter pendingComment (as_calls s))"

definition fitsReview :: "(nat \<times> jsstring \<times> bool) option \<Rightarrow> nat \<Rightarrow> nat list \<Rightarrow> bool" where
  "fitsReview r m ns \<longleftrightarrow> (case r of Some (n, t, b) \<Rightarrow> n < m \<and> (n \<in> set ns \<longrightarrow> b) | None \<Rightarrow> True)"

definition postable :: "assignments_call \<Rightarrow> bool" where
  "postable c \<longleftrightarrow> (case c of PublishCall p \<Rightarrow> pb_stage p = PostingComment \<longrightarrow> trim (pb_comment p) \<noteq> [] | _ \<Rightarrow> True)"

text \<open>A review publishes once at a time, has a number of its own, and posts a comment only when there is one.\<close>

definition publishesOnce :: "assignments_view \<Rightarrow> bool" where
  "publishesOnce s \<longleftrightarrow> distinct (List.map_filter publisher (as_calls s)) \<and>
     (\<forall>n \<in> set (List.map_filter publisher (as_calls s)). n < as_next s) \<and>
     fitsReview (reviewCore s) (as_next s) (List.map_filter publisher (as_calls s)) \<and> list_all postable (as_calls s)"

lemma map_filter_append [simp]: "List.map_filter f (xs @ ys) = List.map_filter f xs @ List.map_filter f ys"
  by (simp add: List.map_filter_def)

lemma in_map_filter: "y \<in> set (List.map_filter f xs) \<longleftrightarrow> (\<exists>x \<in> set xs. f x = Some y)"
  by (force simp: List.map_filter_def image_iff)

lemma pending_publisher: "set (List.map_filter pendingComment cs) \<subseteq> set (List.map_filter publisher cs)"
  by (auto simp: in_map_filter pendingComment_def publisher_def split: assignments_call.splits if_splits intro!: bexI)

lemma waiting_finite [simp]: "finite (waitingComments s)"
  by (simp add: waitingComments_def fieldComment_def split: option.split)

lemma no_publisher: "list_all (\<lambda>c. publisher c = None) cs \<Longrightarrow> List.map_filter publisher cs = [] \<and> List.map_filter pendingComment cs = [] \<and> list_all postable cs"
  by (induction cs) (auto simp: List.map_filter_def publisher_def pendingComment_def postable_def split: assignments_call.splits)

lemma publishesOnce_frame:
  assumes "publishesOnce s" "reviewCore s' = reviewCore s \<or> reviewCore s' = None" "as_next s \<le> as_next s'"
    and "as_calls s' = as_calls s @ cs" "list_all (\<lambda>c. publisher c = None) cs"
  shows "publishesOnce s' \<and> waitingComments s' \<subseteq> waitingComments s"
proof -
  have n: "List.map_filter publisher cs = []" "List.map_filter pendingComment cs = []" "list_all postable cs"
    using no_publisher [OF assms(5)] by auto
  have "fitsReview (reviewCore s') (as_next s') ns" if "fitsReview (reviewCore s) (as_next s) ns" for ns
    using assms(2,3) that by (auto simp: fitsReview_def split: option.splits)
  moreover have "fieldComment (reviewCore s') \<subseteq> fieldComment (reviewCore s)" using assms(2) by (auto simp: fieldComment_def)
  ultimately show ?thesis
    using assms(1,3,4) n by (auto simp: publishesOnce_def waitingComments_def intro: less_le_trans)
qed

lemma publishesOnce_render:
  assumes "publishesOnce s"
  shows "publishesOnce (renderAssignments E s) \<and> waitingComments (renderAssignments E s) \<subseteq> waitingComments s"
proof (cases "\<exists>a u. as_selected s = Some a \<and> as_grading s = Some u \<and> as_review s = None")
  case True
  then obtain a u where h: "as_selected s = Some a" "as_grading s = Some u" "as_review s = None" by blast
  let ?s = "s\<lparr>as_next := Suc (as_next s), as_calls := as_calls s @ [CommentsCall (as_next s), HistoryCall (as_next s)]\<rparr>"
  have f: "publishesOnce ?s \<and> waitingComments ?s \<subseteq> waitingComments s"
    using assms by (intro publishesOnce_frame [of s]) (auto simp: reviewCore_def publisher_def)
  have core: "reviewCore (renderAssignments E s) = Some (as_next s, [], False)" "as_calls (renderAssignments E s) = as_calls ?s"
      "as_next (renderAssignments E s) = as_next ?s"
    unfolding render_mounts [OF h] by (simp_all add: reviewCore_def mountReview_def)
  have "List.map_filter publisher (as_calls ?s) = List.map_filter publisher (as_calls s)"
    by (simp add: List.map_filter_def publisher_def)
  then have "as_next s \<notin> set (List.map_filter publisher (as_calls ?s))" using assms by (auto simp: publishesOnce_def)
  then show ?thesis
    using f by (auto simp: publishesOnce_def waitingComments_def core fitsReview_def fieldComment_def)
next
  case False
  then have "reviewCore (renderAssignments E s) = reviewCore s \<or> reviewCore (renderAssignments E s) = None"
      "as_next (renderAssignments E s) = as_next s" "as_calls (renderAssignments E s) = as_calls s"
    by (auto simp: renderAssignments_def reviewCore_def split: option.splits)
  then show ?thesis using assms by (intro publishesOnce_frame [of s "renderAssignments E s" "[]"]) auto
qed

lemma takeCall_split:
  assumes "i < length (as_calls s)"
  shows "as_calls s = take i (as_calls s) @ as_calls s ! i # drop (Suc i) (as_calls s)"
  using id_take_nth_drop [OF assms] .

lemma map_filter_Cons: "List.map_filter f (x # xs) = (case f x of None \<Rightarrow> [] | Some y \<Rightarrow> [y]) @ List.map_filter f xs"
  by (simp add: List.map_filter_def split: option.split)

lemma reviewCore_frames [simp]:
  "reviewCore (takeCall i s) = reviewCore s" "reviewCore (addCall c s) = reviewCore s" "reviewCore (sendRequest r s) = reviewCore s"
  "reviewCore (closeReview s) = reviewCore s"
  by (simp_all add: reviewCore_def closeReview_def)

lemma map_filter_take:
  assumes "i < length (as_calls s)"
  shows "List.map_filter f (as_calls s) = List.map_filter f (take i (as_calls s)) @
    (case f (as_calls s ! i) of None \<Rightarrow> [] | Some y \<Rightarrow> [y]) @ List.map_filter f (drop (Suc i) (as_calls s))"
  using arg_cong [OF takeCall_split [OF assms], of "List.map_filter f"] by (simp add: map_filter_Cons split: option.splits)

lemma fitsReview_sub: "fitsReview r m ns \<Longrightarrow> set ns' \<subseteq> set ns \<Longrightarrow> fitsReview r m ns'"
  by (auto simp: fitsReview_def split: option.splits)

lemma publishesOnce_take:
  assumes "publishesOnce s" "i < length (as_calls s)"
  shows "publishesOnce (takeCall i s) \<and> waitingComments (takeCall i s) \<subseteq> waitingComments s"
proof -
  have p: "set (List.map_filter f (as_calls (takeCall i s))) \<subseteq> set (List.map_filter f (as_calls s))"
      "distinct (List.map_filter f (as_calls s)) \<Longrightarrow> distinct (List.map_filter f (as_calls (takeCall i s)))" for f :: "assignments_call \<Rightarrow> nat option"
    unfolding map_filter_take [OF assms(2)] by auto
  have "list_all postable (as_calls s) \<Longrightarrow> list_all postable (as_calls (takeCall i s))"
    by (auto simp: list_all_iff dest: in_set_takeD in_set_dropD)
  then show ?thesis
    using assms(1) p(2) [of publisher] p(1) fitsReview_sub [OF _ p(1) [of publisher]]
    by (simp add: publishesOnce_def waitingComments_def subset_iff) blast
qed

text \<open>A publication taken off the calls: its review no longer publishes, and its comment no longer waits when its field is empty.\<close>

lemma publisher_taken:
  assumes "publishesOnce s" "i < length (as_calls s)" "as_calls s ! i = PublishCall p"
  shows "pb_number p \<notin> set (List.map_filter publisher (as_calls (takeCall i s)))" "pb_number p < as_next s" "postable (PublishCall p)"
    and "reviewCore s = Some (pb_number p, t, b) \<Longrightarrow> b"
    and "pendingComment (PublishCall p) = Some n \<Longrightarrow> n \<in> waitingComments s"
proof -
  have m: "List.map_filter publisher (as_calls s) = List.map_filter publisher (take i (as_calls s)) @
      pb_number p # List.map_filter publisher (drop (Suc i) (as_calls s))"
    using map_filter_take [OF assms(2), of publisher] assms(3) by (simp add: publisher_def)
  show "pb_number p \<notin> set (List.map_filter publisher (as_calls (takeCall i s)))" "pb_number p < as_next s"
      "reviewCore s = Some (pb_number p, t, b) \<Longrightarrow> b"
    using assms(1) by (auto simp: publishesOnce_def m fitsReview_def)
  have c: "PublishCall p \<in> set (as_calls s)" using assms(2,3) by (metis nth_mem)
  then show "postable (PublishCall p)" using assms(1) by (auto simp: publishesOnce_def list_all_iff)
  show "pendingComment (PublishCall p) = Some n \<Longrightarrow> n \<in> waitingComments s"
    using c by (auto simp: waitingComments_def in_map_filter)
qed

lemma publishesOnce_next:
  assumes "publishesOnce s" "pb_number p \<notin> set (List.map_filter publisher (as_calls s))" "pb_number p < as_next s"
    and "\<And>t b. reviewCore s = Some (pb_number p, t, b) \<Longrightarrow> b" "postable (PublishCall p)"
  shows "publishesOnce (addCall (PublishCall p) s) \<and> waitingComments (addCall (PublishCall p) s) =
    waitingComments s \<union> set (List.map_filter pendingComment [PublishCall p])"
  using assms by (auto simp: publishesOnce_def waitingComments_def map_filter_Cons publisher_def fitsReview_def List.map_filter_simps split: option.splits)

lemma core_idle:
  assumes "\<And>f. rf_number (g f) = rf_number f" "\<And>f. rf_comment (g f) = rf_comment f"
  shows "reviewCore (inReview n g s) = reviewCore s \<or> (\<exists>t b b'. reviewCore s = Some (n, t, b) \<and> reviewCore (inReview n g s) = Some (n, t, b'))"
  using assms by (auto simp: inReview_def reviewCore_def split: option.split)

lemma core_posted:
  "reviewCore (inReview n (\<lambda>f. f\<lparr>rf_comment := []\<rparr>) s) = map_option (\<lambda>(m, t, b). (m, if m = n then [] else t, b)) (reviewCore s)"
  by (auto simp: inReview_def reviewCore_def split: option.split)

text \<open>The state of the review that ends its publication, and that of the review whose comment was posted.\<close>

lemma publishesOnce_idle:
  assumes "publishesOnce s" "n \<notin> set (List.map_filter publisher (as_calls s))" "\<And>f. rf_number (g f) = rf_number f"
    and "\<And>f. rf_comment (g f) = rf_comment f"
  shows "publishesOnce (inReview n g s) \<and> waitingComments (inReview n g s) = waitingComments s"
  using assms(1,2) core_idle [OF assms(3,4), of n s] by (auto simp: publishesOnce_def waitingComments_def fitsReview_def fieldComment_def)

lemma publishesOnce_posted:
  assumes "publishesOnce s"
  shows "publishesOnce (inReview n (\<lambda>f. f\<lparr>rf_comment := []\<rparr>) s) \<and>
    waitingComments (inReview n (\<lambda>f. f\<lparr>rf_comment := []\<rparr>) s) = fieldComment (reviewCore s) - {n} \<union> set (List.map_filter pendingComment (as_calls s))"
  using assms by (cases "reviewCore s") (auto simp: publishesOnce_def waitingComments_def core_posted fitsReview_def fieldComment_def split: if_splits)

lemma publishesOnce_same:
  assumes "publishesOnce s" "reviewCore s' = reviewCore s" "as_next s' = as_next s" "as_calls s' = as_calls s"
  shows "publishesOnce s' \<and> waitingComments s' = waitingComments s"
  using assms by (simp add: publishesOnce_def waitingComments_def)

lemma publish_answer_once:
  assumes "publishesOnce s" "i < length (as_calls s)" "as_calls s ! i = PublishCall p" "answerFits (PublishCall p) ans"
  shows "publishesOnce (publishAnswer p ans (takeCall i s)) \<and>
    card (waitingComments (publishAnswer p ans (takeCall i s))) + (if pb_stage p = PostingComment \<and> ans = AnsDone then 1 else 0) \<le> card (waitingComments s)"
proof -
  let ?s = "takeCall i s" and ?n = "pb_number p"
  have t: "publishesOnce ?s" "waitingComments ?s \<subseteq> waitingComments s" using publishesOnce_take [OF assms(1,2)] by auto
  note p = publisher_taken [OF assms(1-3)]
  have le: "publishesOnce s' \<and> card (waitingComments s') \<le> card (waitingComments s)"
    if "publishesOnce s' \<and> waitingComments s' \<subseteq> waitingComments s" for s'
    using that by (simp add: card_mono)
  have forward: "publishesOnce (publishNext p g s') \<and> card (waitingComments (publishNext p g s')) \<le> card (waitingComments s)"
    if "publishesOnce s'" "waitingComments s' \<subseteq> waitingComments s" "as_calls s' = as_calls ?s" "as_next s' = as_next s"
      "\<And>t b. reviewCore s' = Some (?n, t, b) \<Longrightarrow> b"
      "g = PostingComment \<Longrightarrow> pb_stage p = SavingGrade \<and> trim (pb_comment p) \<noteq> []" "g \<noteq> SavingGrade" for s' g
  proof -
    have "pendingComment (PublishCall (p\<lparr>pb_stage := g\<rparr>)) = Some m \<Longrightarrow> pendingComment (PublishCall p) = Some m" for m
      using that(6,7) by (auto simp: pendingComment_def split: if_splits)
    then have "set (List.map_filter pendingComment [PublishCall (p\<lparr>pb_stage := g\<rparr>)]) \<subseteq> waitingComments s"
      using p(5) by (auto simp: in_map_filter simp del: List.map_filter_simps)
    moreover have "publishesOnce (publishNext p g s') \<and> waitingComments (publishNext p g s') =
        waitingComments s' \<union> set (List.map_filter pendingComment [PublishCall (p\<lparr>pb_stage := g\<rparr>)])"
      using that p(1,2) unfolding publishNext_def by (intro publishesOnce_next) (simp_all add: postable_def)
    ultimately have "publishesOnce (publishNext p g s') \<and> waitingComments (publishNext p g s') \<subseteq> waitingComments s"
      using that(2) by blast
    then show ?thesis by (rule le)
  qed
  have core: "reviewCore ?s = Some (?n, t, b) \<Longrightarrow> b" for t b using p(4) by simp
  have idle: "publishesOnce (inReview ?n g ?s) \<and> waitingComments (inReview ?n g ?s) \<subseteq> waitingComments s"
    if "\<And>f. rf_number (g f) = rf_number f" "\<And>f. rf_comment (g f) = rf_comment f" for g
    using publishesOnce_idle [where g = g, OF t(1) p(1) that] t(2) by simp
  show ?thesis
  proof (cases "pb_stage p")
    case SavingGrade
    then show ?thesis
      using assms(4) le [OF idle] forward [of ?s LoadingSubmissions] forward [of "sendRequest r ?s" PostingComment for r] t core
        publishesOnce_same [OF t(1), of "sendRequest r ?s" for r]
      by (auto simp: publishAnswer_def answerFits_def split: assignments_answer.splits)
  next
    case PostingComment
    let ?q = "inReview ?n (\<lambda>f. f\<lparr>rf_comment := []\<rparr>) ?s"
    have q: "publishesOnce ?q" "waitingComments ?q \<subseteq> waitingComments s - {?n}"
      using publishesOnce_posted [OF t(1), of ?n] t(2) p(1) pending_publisher [of "as_calls ?s"] by (auto simp: waitingComments_def)
    have "publishesOnce (publishNext p LoadingComments ?q) \<and> waitingComments (publishNext p LoadingComments ?q) = waitingComments ?q"
      using publishesOnce_next [OF q(1), of "p\<lparr>pb_stage := LoadingComments\<rparr>"] p(1,2) core
      by (auto simp: publishNext_def postable_def List.map_filter_simps pendingComment_def core_posted)
    moreover have "?n \<in> waitingComments s" using p(3,5) PostingComment by (simp add: postable_def pendingComment_def)
    then have "card (waitingComments s - {?n}) + 1 = card (waitingComments s)" by (metis Suc_eq_plus1 card_Suc_Diff1 waiting_finite)
    moreover have "card (waitingComments ?q) \<le> card (waitingComments s - {?n})" by (rule card_mono [OF _ q(2)]) simp
    ultimately show ?thesis
      using assms(4) le [OF idle] PostingComment by (auto simp: publishAnswer_def answerFits_def split: assignments_answer.splits)
  next
    case LoadingComments
    then show ?thesis
      using assms(4) le [OF idle] forward [OF idle [THEN conjunct1] idle [THEN conjunct2], of "\<lambda>f. f\<lparr>rf_comments := cs\<rparr>" LoadingSubmissions for cs]
        core core_idle [where n = ?n and s = ?s and g = "\<lambda>f. f\<lparr>rf_comments := cs\<rparr>" for cs]
      by (fastforce simp: publishAnswer_def answerFits_def inReview_def reviewCore_def split: assignments_answer.splits option.splits)
  next
    case LoadingSubmissions
    then show ?thesis
      using assms(4) le [OF idle] forward [of "?s\<lparr>as_submissions := us\<rparr>" LoadingWorkspace for us] t core
        publishesOnce_same [OF t(1), of "?s\<lparr>as_submissions := us\<rparr>" for us]
      by (auto simp: publishAnswer_def answerFits_def reviewCore_def split: assignments_answer.splits)
  next
    case LoadingWorkspace
    have "publishesOnce (closeReview ?s) \<and> waitingComments (closeReview ?s) = waitingComments ?s"
      using t(1) by (intro publishesOnce_same) (simp_all add: closeReview_def reviewCore_def)
    then have "publishesOnce (publishAnswer p ans ?s) \<and> waitingComments (publishAnswer p ans ?s) \<subseteq> waitingComments s"
      using publishesOnce_idle [of "closeReview ?s" ?n "\<lambda>f. f\<lparr>rf_busy := False\<rparr>"] p(1) t(2) LoadingWorkspace
      by (simp add: publishAnswer_def closeReview_def)
    then show ?thesis using le LoadingWorkspace by simp
  qed
qed

text \<open>The other operations neither publish nor write a comment.\<close>

lemma publishesOnce_edit:
  assumes "publishesOnce s" "as_review s = Some f"
  shows "publishesOnce (s\<lparr>as_review := Some (editReview e f)\<rparr>) \<and>
    card (waitingComments (s\<lparr>as_review := Some (editReview e f)\<rparr>)) \<le> card (waitingComments s) + writesComment (EditReview e)"
proof -
  let ?s = "s\<lparr>as_review := Some (editReview e f)\<rparr>"
  have "publishesOnce ?s" using assms by (cases e) (auto simp: publishesOnce_def reviewCore_def fitsReview_def)
  moreover have "waitingComments ?s \<subseteq> waitingComments s \<and> writesComment (EditReview e) = 0 \<or>
      waitingComments ?s \<subseteq> insert (rf_number f) (waitingComments s) \<and> writesComment (EditReview e) = 1"
    using assms(2) by (cases e) (auto simp: waitingComments_def reviewCore_def fieldComment_def writesComment_def)
  then have "card (waitingComments ?s) \<le> card (waitingComments s) + writesComment (EditReview e)"
  proof
    assume h: "waitingComments ?s \<subseteq> insert (rf_number f) (waitingComments s) \<and> writesComment (EditReview e) = 1"
    then have "card (waitingComments ?s) \<le> card (insert (rf_number f) (waitingComments s))" by (intro card_mono) auto
    also have "\<dots> \<le> card (waitingComments s) + 1" by (simp add: card_insert_if)
    finally show ?thesis using h by simp
  qed (simp add: card_mono)
  ultimately show ?thesis by simp
qed

lemma publishesOnce_submit:
  assumes "publishesOnce s"
  shows "publishesOnce (submitReview s) \<and> waitingComments (submitReview s) \<subseteq> waitingComments s"
proof (cases "submitReview s = s")
  case False
  then obtain f a where f: "as_review s = Some f" "as_selected s = Some a" "\<not> rf_busy f" "validNumber (Some (max_points a)) (rf_points f)"
    by (auto simp: submitReview_def split: option.splits if_splits)
  let ?p = "\<lparr>pb_number = rf_number f, pb_submission = submission_id (rf_submission f), pb_assignment = assignment_id a,
    pb_comment = rf_comment f, pb_stage = SavingGrade\<rparr>"
  let ?s = "sendRequest (GradeRequest (submission_id (rf_submission f)) (gradeInput f)) (s\<lparr>as_review := Some (f\<lparr>rf_busy := True, rf_error := []\<rparr>)\<rparr>)"
  have core: "reviewCore s = Some (rf_number f, rf_comment f, False)" "reviewCore ?s = Some (rf_number f, rf_comment f, True)"
    using f by (simp_all add: reviewCore_def)
  have s: "publishesOnce ?s" "waitingComments ?s = waitingComments s" "rf_number f \<notin> set (List.map_filter publisher (as_calls s))" "rf_number f < as_next s"
    using assms core by (auto simp: publishesOnce_def waitingComments_def fitsReview_def fieldComment_def)
  have "publishesOnce (addCall (PublishCall ?p) ?s) \<and> waitingComments (addCall (PublishCall ?p) ?s) =
      waitingComments ?s \<union> set (List.map_filter pendingComment [PublishCall ?p])"
    using s(1,3,4) core(2) by (intro publishesOnce_next) (simp_all add: postable_def)
  moreover have "set (List.map_filter pendingComment [PublishCall ?p]) \<subseteq> waitingComments s"
    using core(1) by (auto simp: in_map_filter pendingComment_def waitingComments_def fieldComment_def simp del: List.map_filter_simps split: if_splits)
  moreover have "submitReview s = addCall (PublishCall ?p) ?s" using f by (simp add: submitReview_def)
  ultimately show ?thesis using s(2) by simp
qed (use assms in simp)

lemma publishesOnce_other:
  assumes "publishesOnce s" "\<And>p. c \<noteq> PublishCall p"
  shows "publishesOnce (callAnswer c ans s) \<and> waitingComments (callAnswer c ans s) \<subseteq> waitingComments s"
proof (rule publishesOnce_frame [OF assms(1)])
  show "reviewCore (callAnswer c ans s) = reviewCore s \<or> reviewCore (callAnswer c ans s) = None"
    by (cases c; cases ans) (auto simp: assms(2) callAnswer_def selectAssignment_def endEdit_def reviewCore_def inReview_def split: option.splits)
  show "as_calls (callAnswer c ans s) = as_calls s @ (case (c, ans) of
      (StatusCall i j, AnsAssignment a) \<Rightarrow> if j = Some i then [SubmissionsCall (assignment_id a)] else []
    | (EditCall page n, AnsAssignment a) \<Rightarrow> if page then [SubmissionsCall (assignment_id a)] else []
    | _ \<Rightarrow> [])"
    by (cases c; cases ans) (auto simp: assms(2) callAnswer_def selectAssignment_def endEdit_def)
  show "as_next s \<le> as_next (callAnswer c ans s)"
    by (cases c; cases ans) (auto simp: assms(2) callAnswer_def selectAssignment_def endEdit_def)
qed (auto simp: publisher_def split: assignments_call.split assignments_answer.split)

lemma publishesOnce_plain:
  assumes "publishesOnce s" "\<And>i ans. e \<noteq> Answered i ans" "\<And>x. e \<noteq> EditReview x" "e \<noteq> SubmitReview"
  shows "publishesOnce (assignmentsEvent E e s) \<and> waitingComments (assignmentsEvent E e s) \<subseteq> waitingComments s"
proof -
  have c: "\<exists>cs. as_calls (assignmentsEvent E e s) = as_calls s @ cs \<and> list_all (\<lambda>c. publisher c = None) cs"
    using assms(2-4) by (cases e) (auto simp: selectAssignment_def toggleSelected_def toggleRow_def updateStatus_def removeAssignment_def
        submitCreate_def submitEdit_def openEdit_def openReview_def closeReview_def publisher_def split: option.split)
  have "reviewCore (assignmentsEvent E e s) = reviewCore s" "as_next s \<le> as_next (assignmentsEvent E e s)"
    using assms(2-4) by (cases e; auto simp: reviewCore_def selectAssignment_def toggleSelected_def toggleRow_def updateStatus_def removeAssignment_def
        submitCreate_def submitEdit_def openEdit_def openReview_def closeReview_def split: option.split)+
  then show ?thesis using c publishesOnce_frame [OF assms(1)] by blast
qed

lemma card_waiting: "waitingComments s' \<subseteq> waitingComments s \<Longrightarrow> card (waitingComments s') \<le> card (waitingComments s) + n"
  by (rule trans_le_add1, rule card_mono) simp_all

lemma publishesOnce_step:
  assumes "publishesOnce s"
  shows "publishesOnce (assignmentsStep E e s) \<and>
    card (waitingComments (assignmentsStep E e s)) + postsComment e s \<le> card (waitingComments s) + writesComment e"
proof -
  have "publishesOnce (assignmentsEvent E e s) \<and>
      card (waitingComments (assignmentsEvent E e s)) + postsComment e s \<le> card (waitingComments s) + writesComment e"
  proof (cases e)
    case (EditReview x)
    then show ?thesis using assms publishesOnce_edit by (auto simp: postsComment_def split: option.split)
  next
    case SubmitReview
    then show ?thesis using publishesOnce_submit [OF assms] by (auto simp: postsComment_def intro: card_waiting)
  next
    case (Answered i ans)
    show ?thesis
    proof (cases "i < length (as_calls s) \<and> answerFits (as_calls s ! i) ans")
      case True
      show ?thesis
      proof (cases "\<exists>p. as_calls s ! i = PublishCall p")
        case True
        then obtain p where p: "as_calls s ! i = PublishCall p" by blast
        then show ?thesis
          using publish_answer_once [OF assms _ p, of ans] \<open>i < length (as_calls s) \<and> answerFits (as_calls s ! i) ans\<close> Answered
          by (auto simp: callAnswer_def postsComment_def split: assignments_answer.splits if_splits)
      next
        case False
        then have "publishesOnce (assignmentsEvent E e s) \<and> waitingComments (assignmentsEvent E e s) \<subseteq> waitingComments s"
          using publishesOnce_take [OF assms, of i] publishesOnce_other [of "takeCall i s" "as_calls s ! i" ans] True Answered by auto
        moreover have "postsComment e s = 0" using False Answered by (auto simp: postsComment_def split: assignments_call.split assignments_answer.split)
        ultimately show ?thesis by (auto intro: card_waiting)
      qed
    next
      case False
      have "postsComment e s = 0"
        using False Answered by (auto simp: postsComment_def answerFits_def split: assignments_call.split assignments_answer.split)
      then show ?thesis using assms False Answered by auto
    qed
  qed (use publishesOnce_plain [OF assms] in \<open>auto simp: postsComment_def intro: card_waiting simp del: assignmentsEvent.simps\<close>)
  moreover from this have "publishesOnce (assignmentsStep E e s)" "card (waitingComments (assignmentsStep E e s)) \<le> card (waitingComments (assignmentsEvent E e s))"
    using publishesOnce_render [of "assignmentsEvent E e s" E] card_waiting [where n = 0] by (simp_all add: assignmentsStep_def)
  ultimately show ?thesis by linarith
qed


section \<open>Leaving the page\<close>

text \<open>The answer to a change of status opens the page again that the teacher left meanwhile.\<close>

lemma status_change_reopens_page:
  assumes "as_selected s = Some a" "as_grading s = None" "n = length (as_calls s)"
  shows "as_selected (fold (assignmentsStep E) [ToggleSelected, BackToList, Answered n (AnsAssignment a')] s) = Some a'"
  using assms by (simp add: assignmentsStep_def toggleSelected_def updateStatus_def selectAssignment_def render_closed answerFits_def callAnswer_def)

text \<open>The change of status of the page sends the assignment as it was when the page was opened, whatever the list has become.\<close>

lemma status_change_sends_old_fields:
  assumes "as_selected s = Some a" "assignment_status a \<noteq> Closed"
  shows "as_sent (fold (assignmentsStep E) [ListChanged xs, ToggleSelected] s) = as_sent s @ [UpdateRequest (assignment_id a) (statusInput a Closed)]"
  using assms by (simp add: assignmentsStep_def toggleSelected_def updateStatus_def)

text \<open>A form that is submitted twice before the first answer creates two assignments.\<close>

lemma submitted_twice_creates_twice:
  assumes "as_creating s" "canSaveAssignment f" "validNumber None (af_points f)" "createInput E f = Some i" "as_selected s = None"
  shows "as_sent (fold (assignmentsStep E) [SubmitCreate f, SubmitCreate f] s) = as_sent s @ [CreateRequest i, CreateRequest i]"
  using assms by (simp add: assignmentsStep_def submitCreate_def render_closed)

section \<open>Examples\<close>

definition plainEnv :: assignments_env where
  "plainEnv = \<lparr>ae_js = ascii_env, ae_iso = Some\<rparr>"

definition exampleAssignment :: "string \<Rightarrow> rat \<Rightarrow> assignment" where
  "exampleAssignment i m = \<lparr>assignment_id = js i, assignment_classroom_id = js ''c'', assignment_classroom_name = [], assignment_title = js i,
     assignment_instructions = [], due_at = None, max_points = m, grading_scheme = JNull, assignment_status = Published,
     assignment_created_at = [], assignment_updated_at = []\<rparr>"

definition exampleSubmission :: "string \<Rightarrow> string \<Rightarrow> submission" where
  "exampleSubmission i a = \<lparr>submission_id = js i, submission_assignment_id = js a, submission_assignment_title = js a,
     submission_student_id = js i, submission_student_name = [], submission_status = Submitted, submission_version = None,
     submission_grade = None, submitted_at = None, submission_updated_at = []\<rparr>"

definition exampleEvents :: "assignments_event list" where
  "exampleEvents = [OpenAssignment (exampleAssignment ''a'' 10), Answered 0 (AnsSubmissions [exampleSubmission ''x'' ''a'', exampleSubmission ''y'' ''a'']),
     OpenReview (exampleSubmission ''x'' ''a'')]"

definition examplePage :: assignments_view where
  "examplePage = fold (assignmentsStep plainEnv) exampleEvents (startAssignments [exampleAssignment ''a'' 10, exampleAssignment ''b'' 100])"

definition countedStep :: "assignments_env \<Rightarrow> assignments_event \<Rightarrow> nat \<times> nat \<times> assignments_view \<Rightarrow> nat \<times> nat \<times> assignments_view" where
  "countedStep E e x = (fst x + writesComment e, fst (snd x) + postsComment e (snd (snd x)), assignmentsStep E e (snd (snd x)))"

lemma counted_run: "assignmentsRun E (fst x) (fst (snd x)) (snd (snd x)) \<Longrightarrow>
    let y = fold (countedStep E) es x in assignmentsRun E (fst y) (fst (snd y)) (snd (snd y))"
  by (induction es arbitrary: x) (simp_all add: countedStep_def Let_def assignments_step)

lemmas example_defs = plainEnv_def exampleAssignment_def exampleSubmission_def

lemma eight_valid: "validNumber (Some 100) (js ''80'')" "validNumber (Some 10) (js ''8'')"
  by code_simp+

lemma hi_trimmed: "trim (js ''hi'') = js ''hi''" "js ''hi'' \<noteq> []"
  by code_simp+

definition openPage :: assignments_view where
  "openPage = \<lparr>as_list = [exampleAssignment ''a'' 10, exampleAssignment ''b'' 100], as_creating = False,
     as_selected = Some (exampleAssignment ''a'' 10), as_editing = None, as_submissions = [exampleSubmission ''x'' ''a'', exampleSubmission ''y'' ''a''],
     as_grading = Some (exampleSubmission ''x'' ''a''),
     as_review = Some \<lparr>rf_number = 0, rf_submission = exampleSubmission ''x'' ''a'', rf_points = [], rf_label = [], rf_feedback = [], rf_comment = [],
       rf_comments = [], rf_history = [], rf_busy = False, rf_error = []\<rparr>,
     as_next = 1, as_calls = [CommentsCall 0, HistoryCall 0], as_sent = []\<rparr>"

lemma examplePage_eq: "examplePage = openPage"
  by (simp add: openPage_def examplePage_def exampleEvents_def startAssignments_def assignmentsStep_def selectAssignment_def renderAssignments_def
      answerFits_def callAnswer_def takeCall_def addCall_def openReview_def mountReview_def example_defs js_def)

theorem sent_grade_within_shown_assignment_witness:
  "gi_points (gradeInput (editReview (TypePoints (js ''8'')) (mountReview plainEnv 0 (exampleSubmission ''x'' ''a'')))) = Some (Fin 8)"
proof -
  let ?s = "assignmentsStep plainEnv (EditReview (TypePoints (js ''8''))) examplePage"
  let ?g = "gradeInput (editReview (TypePoints (js ''8'')) (mountReview plainEnv 0 (exampleSubmission ''x'' ''a'')))"
  have "as_sent (assignmentsStep plainEnv SubmitReview ?s) = as_sent ?s @ [GradeRequest (js ''x'') ?g]"
    using eight_valid by (simp add: examplePage_eq openPage_def assignmentsStep_def submitReview_def renderAssignments_def mountReview_def gradeInput_def
        exampleAssignment_def exampleSubmission_def)
  then have "gi_points ?g = None \<or> (\<exists>q. gi_points ?g = Some (Fin q))"
    using sent_grade_within_shown_assignment by blast
  moreover have "toNumber (js ''8'') = Fin 8" by code_simp
  ultimately show ?thesis by (simp add: gradeInput_def js_def)
qed

theorem late_submissions_are_graded_under_another_assignment_witness:
  "as_submissions (fold (assignmentsStep plainEnv) [BackToList, OpenAssignment (exampleAssignment ''b'' 100), Answered 0 (AnsSubmissions [exampleSubmission ''x'' ''a''])]
     (assignmentsStep plainEnv (OpenAssignment (exampleAssignment ''a'' 10)) (startAssignments [exampleAssignment ''a'' 10, exampleAssignment ''b'' 100]))) =
   [exampleSubmission ''x'' ''a'']"
  by (rule late_submissions_are_graded_under_another_assignment [where v = "js ''80''" and a = "exampleAssignment ''a'' 10", OF _ _ _ _ _ _ _ refl,
        THEN conjunct2, THEN conjunct1])
    (use eight_valid in \<open>simp_all add: assignmentsStep_def startAssignments_def selectAssignment_def renderAssignments_def addCall_def
      exampleAssignment_def js_def\<close>)

theorem finished_publication_closes_another_review_witness:
  "as_review (fold (assignmentsStep plainEnv) [Answered 2 AnsDone, Answered 4 (AnsSubmissions []), Answered 4 AnsDone]
     (fold (assignmentsStep plainEnv) [SubmitReview, CloseReview, OpenReview (exampleSubmission ''y'' ''a''), EditReview (TypeComment (js ''hi''))] examplePage)) = None"
  using finished_publication_closes_another_review [where E = plainEnv and s = examplePage and u = "exampleSubmission ''y'' ''a''" and n = 2 and us = "[]"
      and t = "js ''hi''" and a = "exampleAssignment ''a'' 10", OF _ _ _ _ _ _ _ refl refl]
  by (simp add: examplePage_eq openPage_def validNumber_def)


end
