(* ===== verification/Teacher_Forms.thy ===== *)
theory Teacher_Forms
  imports Host_Api
begin

text \<open>
  The forms of the teacher's app (\<open>apps/teacher/src/App.tsx\<close>) and what they send: the first teacher (\<open>BootstrapScreen\<close>), an invited
  teacher (\<open>TeacherAccountModal\<close>), the recovery of an account (\<open>TeacherRecoveryModal\<close>), the settings (\<open>SettingsView\<close>), the student forms, the form of a classroom
  and the connection to a host. A submission is either refused with a message or a request.
\<close>

section \<open>Optional texts\<close>

text \<open>\<open>text.trim() || null\<close> and \<open>value ?? ""\<close>.\<close>

definition trimOrNull :: "jsstring \<Rightarrow> jsstring option" where
  "trimOrNull t = (if trim t = [] then None else Some (trim t))"

definition orEmpty :: "jsstring option \<Rightarrow> jsstring" where
  "orEmpty t = (case t of Some x \<Rightarrow> x | None \<Rightarrow> [])"

section \<open>Students\<close>

record student_form =
  sf_room :: jsstring
  sf_username :: jsstring
  sf_name :: jsstring
  sf_grade :: jsstring
  sf_section :: jsstring
  sf_roll :: jsstring

record student_input =
  si_username :: jsstring
  si_name :: jsstring
  si_grade :: "jsstring option"
  si_section :: "jsstring option"
  si_roll :: "jsstring option"

datatype student_field = RoomField | UsernameField | NameField | GradeField | SectionField | RollField

fun setStudentField :: "student_field \<Rightarrow> jsstring \<Rightarrow> student_form \<Rightarrow> student_form" where
  "setStudentField RoomField v f = f\<lparr>sf_room := v\<rparr>"
| "setStudentField UsernameField v f = f\<lparr>sf_username := v\<rparr>"
| "setStudentField NameField v f = f\<lparr>sf_name := v\<rparr>"
| "setStudentField GradeField v f = f\<lparr>sf_grade := v\<rparr>"
| "setStudentField SectionField v f = f\<lparr>sf_section := v\<rparr>"
| "setStudentField RollField v f = f\<lparr>sf_roll := v\<rparr>"

definition newStudentForm :: "classroom list \<Rightarrow> student_form" where
  "newStudentForm rooms = \<lparr>sf_room = (case rooms of r # _ \<Rightarrow> classroom_id r | [] \<Rightarrow> []), sf_username = [], sf_name = [], sf_grade = [],
     sf_section = [], sf_roll = []\<rparr>"

definition editStudentForm :: "user \<Rightarrow> student_form" where
  "editStudentForm u = \<lparr>sf_room = [], sf_username = username u, sf_name = display_name u, sf_grade = orEmpty (grade_level u),
     sf_section = orEmpty (user_section u), sf_roll = orEmpty (roll_number u)\<rparr>"

definition studentInput :: "student_form \<Rightarrow> student_input" where
  "studentInput f = \<lparr>si_username = trim (sf_username f), si_name = trim (sf_name f), si_grade = trimOrNull (sf_grade f),
     si_section = trimOrNull (sf_section f), si_roll = trimOrNull (sf_roll f)\<rparr>"

definition canSaveStudent :: "student_form \<Rightarrow> bool" where
  "canSaveStudent f \<longleftrightarrow> trim (sf_username f) \<noteq> [] \<and> trim (sf_name f) \<noteq> []"

definition studentJson :: "student_input \<Rightarrow> (jsstring \<times> json) list" where
  "studentJson i = [str ''username'' (si_username i), str ''display_name'' (si_name i), nullable ''grade_level'' (si_grade i),
     nullable ''section'' (si_section i), nullable ''roll_number'' (si_roll i)]"

definition createStudentCall :: "student_form \<Rightarrow> student_call option" where
  "createStudentCall f =
     (if canSaveStudent f then Some (CreateStudent (JObj (str ''classroom_id'' (sf_room f) # studentJson (studentInput f)))) else None)"

definition updateStudentCall :: "user \<Rightarrow> student_form \<Rightarrow> student_call option" where
  "updateStudentCall u f = (if canSaveStudent f then Some (UpdateStudent (user_id u) (JObj (studentJson (studentInput f)))) else None)"

section \<open>Classrooms\<close>

record classroom_form =
  cf_name :: jsstring
  cf_code :: jsstring
  cf_description :: jsstring
  cf_color :: jsstring

definition classroomForm :: "classroom option \<Rightarrow> classroom_form" where
  "classroomForm c = (case c of
      Some r \<Rightarrow> \<lparr>cf_name = classroom_name r, cf_code = orEmpty (subject_code r), cf_description = description r, cf_color = color r\<rparr>
    | None \<Rightarrow> \<lparr>cf_name = [], cf_code = [], cf_description = [], cf_color = js ''#d9631f''\<rparr>)"

definition classroomJson :: "classroom_form \<Rightarrow> json" where
  "classroomJson f = JObj [str ''name'' (trim (cf_name f)), nullable ''subject_code'' (trimOrNull (cf_code f)),
     str ''description'' (trim (cf_description f)), str ''color'' (cf_color f)]"

definition saveClassroomCall :: "classroom option \<Rightarrow> classroom_form \<Rightarrow> classroom_call option" where
  "saveClassroomCall c f =
     (if trim (cf_name f) = [] then None
      else Some (case c of Some r \<Rightarrow> UpdateClassroom (classroom_id r) (classroomJson f) | None \<Rightarrow> CreateClassroom (classroomJson f)))"

section \<open>Teachers\<close>

record teacher_form =
  tf_username :: jsstring
  tf_name :: jsstring
  tf_password :: jsstring
  tf_confirm :: jsstring
  tf_pin :: jsstring

datatype teacher_field = TfUsername | TfName | TfPassword | TfConfirm | TfPin

text \<open>The field of a PIN keeps the first eight digits of what is written.\<close>

definition pinText :: "jsstring \<Rightarrow> jsstring" where
  "pinText v = take 8 (filter isDigit v)"

fun setTeacherField :: "teacher_field \<Rightarrow> jsstring \<Rightarrow> teacher_form \<Rightarrow> teacher_form" where
  "setTeacherField TfUsername v f = f\<lparr>tf_username := v\<rparr>"
| "setTeacherField TfName v f = f\<lparr>tf_name := v\<rparr>"
| "setTeacherField TfPassword v f = f\<lparr>tf_password := v\<rparr>"
| "setTeacherField TfConfirm v f = f\<lparr>tf_confirm := v\<rparr>"
| "setTeacherField TfPin v f = f\<lparr>tf_pin := pinText v\<rparr>"

definition blankTeacher :: "jsstring \<Rightarrow> teacher_form" where
  "blankTeacher u = \<lparr>tf_username = u, tf_name = [], tf_password = [], tf_confirm = [], tf_pin = []\<rparr>"

text \<open>The first teacher: the button, and the submission.\<close>

definition canBootstrap :: "teacher_form \<Rightarrow> bool" where
  "canBootstrap f \<longleftrightarrow> length (tf_pin f) = 8 \<and> trim (tf_name f) \<noteq> [] \<and> 8 \<le> length (tf_password f)"

definition bootstrapSubmit :: "teacher_form \<Rightarrow> (jsstring + account_call) option" where
  "bootstrapSubmit f =
     (if \<not> canBootstrap f then None
      else if tf_password f \<noteq> tf_confirm f then Some (Inl (js ''The passwords do not match.''))
      else Some (Inr (BootstrapTeacher (tf_username f) (tf_name f) (tf_password f) (tf_pin f))))"

text \<open>A teacher with an invitation.\<close>

definition canRegister :: "teacher_form \<Rightarrow> bool" where
  "canRegister f \<longleftrightarrow> trim (tf_name f) \<noteq> [] \<and> trim (tf_username f) \<noteq> [] \<and> tf_password f \<noteq> [] \<and> length (tf_pin f) = 8"

definition registerSubmit :: "teacher_form \<Rightarrow> (jsstring + account_call) option" where
  "registerSubmit f =
     (if \<not> canRegister f then None
      else if length (tf_password f) < 8 then Some (Inl (js ''Use at least 8 characters.''))
      else if tf_password f \<noteq> tf_confirm f then Some (Inl (js ''The passwords do not match.''))
      else Some (Inr (RegisterTeacher (tf_username f) (tf_name f) (tf_password f) (tf_pin f))))"

record recovery_form =
  ry_username :: jsstring
  ry_code :: jsstring
  ry_password :: jsstring
  ry_confirm :: jsstring

definition recoverSubmit :: "recovery_form \<Rightarrow> (jsstring + account_call) option" where
  "recoverSubmit f =
     (if trim (ry_username f) = [] \<or> trim (ry_code f) = [] \<or> length (ry_password f) < 8 then None
      else if ry_password f \<noteq> ry_confirm f then Some (Inl (js ''The passwords do not match.''))
      else Some (Inr (RecoverTeacher (trim (ry_username f)) (trim (ry_code f)) (ry_password f))))"

section \<open>Settings\<close>

text \<open>The teacher accounts of the school, the invitation that works once, and the deletion of the teacher's own account.\<close>

record teacher_invite =
  ti_pin :: jsstring
  ti_expires :: jsstring

datatype settings_call = AccountsCall | InviteCall | DeleteAccountCall user

record settings_view =
  sg_user :: user
  sg_teachers :: "user list"
  sg_invite :: "teacher_invite option"
  sg_invite_busy :: bool
  sg_deleting :: "user option"
  sg_password :: jsstring
  sg_busy :: bool
  sg_error :: jsstring
  sg_calls :: "settings_call list"
  sg_forgotten :: "jsstring list"
  sg_left :: bool

datatype settings_event =
    GenerateInvite | AskDelete user | CancelDelete | TypePassword jsstring | ConfirmDelete
  | AccountsAnswered nat "jsstring + user list" | InviteAnswered nat "jsstring + teacher_invite" | DeleteAnswered nat "jsstring + bool"

definition settingsTake :: "nat \<Rightarrow> settings_view \<Rightarrow> settings_view" where
  "settingsTake i s = s\<lparr>sg_calls := take i (sg_calls s) @ drop (Suc i) (sg_calls s)\<rparr>"

definition settingsAt :: "nat \<Rightarrow> settings_view \<Rightarrow> settings_call option" where
  "settingsAt i s = (if i < length (sg_calls s) then Some (sg_calls s ! i) else None)"

fun settingsEvent :: "settings_event \<Rightarrow> settings_view \<Rightarrow> settings_view" where
  "settingsEvent GenerateInvite s =
    (if sg_invite_busy s then s else s\<lparr>sg_invite_busy := True, sg_error := [], sg_calls := sg_calls s @ [InviteCall]\<rparr>)"
| "settingsEvent (AskDelete t) s =
    (if t \<in> set (sg_teachers s) \<and> user_id t = user_id (sg_user s) then s\<lparr>sg_deleting := Some t, sg_password := [], sg_error := []\<rparr> else s)"
| "settingsEvent CancelDelete s = s\<lparr>sg_deleting := None\<rparr>"
| "settingsEvent (TypePassword p) s = (if sg_deleting s = None then s else s\<lparr>sg_password := p\<rparr>)"
| "settingsEvent ConfirmDelete s = (case sg_deleting s of
      Some t \<Rightarrow> if sg_busy s \<or> sg_password s = [] then s
        else s\<lparr>sg_busy := True, sg_error := [], sg_calls := sg_calls s @ [DeleteAccountCall t]\<rparr>
    | None \<Rightarrow> s)"
| "settingsEvent (AccountsAnswered i a) s = (case settingsAt i s of
      Some AccountsCall \<Rightarrow> (case a of
          Inr us \<Rightarrow> (settingsTake i s)\<lparr>sg_teachers := us\<rparr>
        | Inl e \<Rightarrow> (settingsTake i s)\<lparr>sg_error := e\<rparr>)
    | _ \<Rightarrow> s)"
| "settingsEvent (InviteAnswered i a) s = (case settingsAt i s of
      Some InviteCall \<Rightarrow> (case a of
          Inr v \<Rightarrow> (settingsTake i s)\<lparr>sg_invite := Some v, sg_invite_busy := False\<rparr>
        | Inl e \<Rightarrow> (settingsTake i s)\<lparr>sg_error := e, sg_invite_busy := False\<rparr>)
    | _ \<Rightarrow> s)"
| "settingsEvent (DeleteAnswered i a) s = (case settingsAt i s of
      Some (DeleteAccountCall t) \<Rightarrow> (case a of
          Inr current \<Rightarrow> (let s1 = (settingsTake i s)\<lparr>sg_forgotten := sg_forgotten s @ [username t], sg_deleting := None, sg_password := [], sg_busy := False\<rparr>
            in if current then s1\<lparr>sg_left := True\<rparr> else s1\<lparr>sg_calls := sg_calls s1 @ [AccountsCall]\<rparr>)
        | Inl e \<Rightarrow> (settingsTake i s)\<lparr>sg_error := e, sg_busy := False\<rparr>)
    | _ \<Rightarrow> s)"

definition startSettings :: "user \<Rightarrow> settings_view" where
  "startSettings u = \<lparr>sg_user = u, sg_teachers = [], sg_invite = None, sg_invite_busy = False, sg_deleting = None, sg_password = [], sg_busy = False,
     sg_error = [], sg_calls = [AccountsCall], sg_forgotten = [], sg_left = False\<rparr>"

section \<open>The connection\<close>

record connection_form =
  kf_url :: jsstring
  kf_label :: jsstring
  kf_found :: "jsstring list"
  kf_error :: jsstring

text \<open>\<open>discover\<close>: the hosts that the native side found, the host of development in a browser, or a failure.\<close>

definition discoverHosts :: "jsstring list option \<Rightarrow> connection_form \<Rightarrow> connection_form" where
  "discoverHosts reply f = (case reply of
      Some hosts \<Rightarrow> f\<lparr>kf_found := hosts, kf_url := (case hosts of h # _ \<Rightarrow> if h = [] then kf_url f else h | [] \<Rightarrow> kf_url f),
        kf_error := (if hosts = [] then js ''No Cinder Host was found automatically. Enter its address below.'' else [])\<rparr>
    | None \<Rightarrow> f\<lparr>kf_error := js ''Automatic discovery was unavailable. Enter the address manually.''\<rparr>)"

definition canConnect :: "connection_form \<Rightarrow> bool" where
  "canConnect f \<longleftrightarrow> trim (kf_url f) \<noteq> []"

section \<open>Lemmas\<close>

lemma pinText_digits: "length (pinText v) \<le> 8 \<and> list_all isDigit (pinText v)"
  by (auto simp: pinText_def list_all_iff dest: in_set_takeD)

text \<open>The PIN of a form that is filled in from the start.\<close>

lemma filled_pin: "f = fold (\<lambda>(k, v). setTeacherField k v) es (blankTeacher u) \<Longrightarrow> length (tf_pin f) \<le> 8 \<and> list_all isDigit (tf_pin f)"
proof -
  have "length (tf_pin f) \<le> 8 \<and> list_all isDigit (tf_pin f) \<Longrightarrow>
      length (tf_pin (fold (\<lambda>(k, v). setTeacherField k v) es f)) \<le> 8 \<and> list_all isDigit (tf_pin (fold (\<lambda>(k, v). setTeacherField k v) es f))" for f
  proof (induction es arbitrary: f)
    case (Cons e es)
    obtain k v where e: "e = (k, v)" by (cases e)
    have "length (tf_pin (setTeacherField k v f)) \<le> 8 \<and> list_all isDigit (tf_pin (setTeacherField k v f))"
      using Cons.prems pinText_digits by (cases k) auto
    then show ?case using Cons.IH e by simp
  qed simp
  then show "f = fold (\<lambda>(k, v). setTeacherField k v) es (blankTeacher u) \<Longrightarrow> ?thesis" by (simp add: blankTeacher_def)
qed

text \<open>The account that is asked to be deleted is the teacher's own, whatever the answers.\<close>

lemma settingsTake_simps [simp]:
  "sg_user (settingsTake i s) = sg_user s" "sg_deleting (settingsTake i s) = sg_deleting s" "sg_forgotten (settingsTake i s) = sg_forgotten s"
  by (simp_all add: settingsTake_def)

lemma settingsTake_calls: "c \<in> set (sg_calls (settingsTake i s)) \<Longrightarrow> c \<in> set (sg_calls s)"
  by (auto simp: settingsTake_def dest: in_set_takeD in_set_dropD)

definition deletesOwn :: "jsstring \<Rightarrow> settings_view \<Rightarrow> bool" where
  "deletesOwn i s \<longleftrightarrow> user_id (sg_user s) = i \<and> (\<forall>t. sg_deleting s = Some t \<longrightarrow> user_id t = i) \<and>
     (\<forall>c \<in> set (sg_calls s). \<forall>t. c = DeleteAccountCall t \<longrightarrow> user_id t = i)"

lemma deletesOwn_take: "deletesOwn i s \<Longrightarrow> deletesOwn i (settingsTake k s)"
  unfolding deletesOwn_def by (auto dest: settingsTake_calls)

lemma deletesOwn_event:
  assumes "deletesOwn i s"
  shows "deletesOwn i (settingsEvent e s)"
proof (cases e)
  case (AccountsAnswered k a)
  then show ?thesis
    using assms deletesOwn_take [OF assms, of k] by (cases a) (simp_all add: deletesOwn_def split: option.split settings_call.split)
next
  case (InviteAnswered k a)
  then show ?thesis
    using assms deletesOwn_take [OF assms, of k] by (cases a) (simp_all add: deletesOwn_def split: option.split settings_call.split)
next
  case (DeleteAnswered k a)
  then show ?thesis
    using assms deletesOwn_take [OF assms, of k] by (cases a) (simp_all add: deletesOwn_def Let_def split: option.split settings_call.split)
qed (use assms in \<open>auto simp: deletesOwn_def split: option.split\<close>)

lemma settings_deletes_own_account:
  assumes "DeleteAccountCall t \<in> set (sg_calls (fold settingsEvent es (startSettings u)))"
  shows "user_id t = user_id u"
proof -
  have "deletesOwn i s \<Longrightarrow> deletesOwn i (fold settingsEvent es s)" for i s
    by (induction es arbitrary: s) (auto intro: deletesOwn_event simp del: settingsEvent.simps)
  moreover have "deletesOwn (user_id u) (startSettings u)" by (simp add: deletesOwn_def startSettings_def)
  ultimately have "deletesOwn (user_id u) (fold settingsEvent es (startSettings u))" by blast
  then show ?thesis using assms unfolding deletesOwn_def by blast
qed

text \<open>An account that a form sends is one the form allows: however the form of a new teacher was filled in, the first teacher of a school
or an invited one, a request to create the account has a PIN of exactly eight digits, a password of at least eight code units that
was written twice, and a name that is not blank.\<close>

theorem sent_account_is_complete:
  assumes "f = fold (\<lambda>(k, v). setTeacherField k v) es (blankTeacher u)"
    and "bootstrapSubmit f = Some (Inr (BootstrapTeacher n d p c)) \<or> registerSubmit f = Some (Inr (RegisterTeacher n d p c))"
  shows "length c = 8 \<and> list_all isDigit c \<and> 8 \<le> length p \<and> tf_confirm f = p \<and> trim d \<noteq> []"
  using filled_pin [OF assms(1)] assms(2)
  by (auto simp: bootstrapSubmit_def registerSubmit_def canBootstrap_def canRegister_def split: if_splits)

text \<open>The form of the first teacher is sent without a username when the field was emptied.\<close>

lemma bootstrap_without_username:
  assumes "canBootstrap f" "tf_password f = tf_confirm f" "tf_username f = []"
  shows "bootstrapSubmit f = Some (Inr (BootstrapTeacher [] (tf_name f) (tf_password f) (tf_pin f)))"
  using assms by (simp add: bootstrapSubmit_def)

text \<open>A text that a form leaves as it is.\<close>

definition tidy :: "jsstring \<Rightarrow> bool" where
  "tidy t \<longleftrightarrow> trim t = t \<and> t \<noteq> []"

lemma trimOrNull_orEmpty: "pred_option tidy t \<Longrightarrow> trimOrNull (orEmpty t) = t"
  by (cases t) (simp_all add: trimOrNull_def orEmpty_def tidy_def)

text \<open>Saving the form of a student that was not changed changes nothing: when no text of the account has blanks at its ends and
no optional text is empty, the form that is opened for the account sends back exactly the account's fields.\<close>

theorem unchanged_student_is_sent_back:
  assumes "tidy (username u)" "tidy (display_name u)" "pred_option tidy (grade_level u)" "pred_option tidy (user_section u)" "pred_option tidy (roll_number u)"
  shows "updateStudentCall u (editStudentForm u) = Some (UpdateStudent (user_id u) (JObj [str ''username'' (username u),
    str ''display_name'' (display_name u), nullable ''grade_level'' (grade_level u), nullable ''section'' (user_section u),
    nullable ''roll_number'' (roll_number u)]))"
  using assms trimOrNull_orEmpty
  by (simp add: updateStudentCall_def editStudentForm_def canSaveStudent_def studentInput_def studentJson_def tidy_def)

theorem sent_account_is_complete_witness:
  "list_all isDigit (js ''12345678'') \<and> 8 \<le> length (js ''password'')"
proof -
  let ?es = "[(TfPin, js ''1234-5678''), (TfName, js ''Ada''), (TfPassword, js ''password''), (TfConfirm, js ''password'')]"
  let ?f = "fold (\<lambda>(k, v). setTeacherField k v) ?es (blankTeacher (js ''teacher''))"
  have "bootstrapSubmit ?f = Some (Inr (BootstrapTeacher (js ''teacher'') (js ''Ada'') (js ''password'') (js ''12345678'')))"
    by code_simp
  then show ?thesis using sent_account_is_complete [OF refl, of ?es "js ''teacher''"] by blast
qed

theorem unchanged_student_is_sent_back_witness:
  "updateStudentCall \<lparr>user_id = js ''1'', username = js ''ada'', display_name = js ''Ada B'', user_role = Student, grade_level = Some (js ''8''),
      user_section = None, roll_number = None, must_change_password = False, user_created_at = []\<rparr>
     (editStudentForm \<lparr>user_id = js ''1'', username = js ''ada'', display_name = js ''Ada B'', user_role = Student, grade_level = Some (js ''8''),
      user_section = None, roll_number = None, must_change_password = False, user_created_at = []\<rparr>) =
   Some (UpdateStudent (js ''1'') (JObj [str ''username'' (js ''ada''), str ''display_name'' (js ''Ada B''), nullable ''grade_level'' (Some (js ''8'')),
      nullable ''section'' None, nullable ''roll_number'' None]))"
proof -
  have "trim (js ''ada'') = js ''ada''" "trim (js ''Ada B'') = js ''Ada B''" "trim (js ''8'') = js ''8''" "js ''ada'' \<noteq> []" "js ''Ada B'' \<noteq> []" "js ''8'' \<noteq> []"
    by code_simp+
  then show ?thesis
    using unchanged_student_is_sent_back [of "\<lparr>user_id = js ''1'', username = js ''ada'', display_name = js ''Ada B'', user_role = Student,
      grade_level = Some (js ''8''), user_section = None, roll_number = None, must_change_password = False, user_created_at = []\<rparr>"]
    by (simp add: tidy_def)
qed

end
