(* ===== verification/Teacher_Classrooms.thy ===== *)
theory Teacher_Classrooms
  imports Teacher_Forms
begin

text \<open>
  The students and the classrooms of the teacher (\<open>StudentsView\<close>, \<open>ClassroomsView\<close> and \<open>ClassroomWorkspace\<close> of
  \<open>apps/teacher/src/App.tsx\<close>): the accounts with the sign-in details that are shown once, and the workspace of one classroom with
  its roster, its teachers and its materials, which is loaded again after every change.

  A form that is being saved is disabled, so a submission is one of a form that is not. The requests on their way are kept with
  what their continuation captured, and every request that is sent is kept in order. The refresh of the app's own lists that follows a change never fails and has no effect here. The message of an
  error is an argument.
\<close>

section \<open>Sign-in details\<close>

record student_credentials =
  sc_user :: user
  sc_password :: jsstring
  sc_recovery :: jsstring

datatype students_call = CreateStudentCall | ResetCall | RemoveCall | EditStudentCall

datatype students_request =
    SendCreate student_form
  | SendReset jsstring
  | SendRemove jsstring
  | SendEdit jsstring student_form

record students_view =
  st_students :: "user list"
  st_creating :: bool
  st_editing :: "user option"
  st_credentials :: "student_credentials option"
  st_error :: jsstring
  st_calls :: "students_call list"
  st_sent :: "students_request list"

datatype students_event =
    OpenCreateStudent | CloseCreateStudent | SubmitCreateStudent student_form
  | OpenEditStudent user | CloseEditStudent | SubmitEditStudent student_form
  | ResetStudent user | RemoveStudentAccount user | CloseCredentials
  | StudentsChanged "user list" | StudentsAnswered nat "jsstring + student_credentials option"

definition sendStudents :: "students_request \<Rightarrow> students_call \<Rightarrow> students_view \<Rightarrow> students_view" where
  "sendStudents r c s = s\<lparr>st_sent := st_sent s @ [r], st_calls := st_calls s @ [c]\<rparr>"

text \<open>The answers; a failed form keeps its own message.\<close>

definition studentsAnswer :: "students_call \<Rightarrow> jsstring + student_credentials option \<Rightarrow> students_view \<Rightarrow> students_view" where
  "studentsAnswer c a s = (case (c, a) of
      (CreateStudentCall, Inr (Some k)) \<Rightarrow> s\<lparr>st_creating := False, st_credentials := Some k\<rparr>
    | (ResetCall, Inr (Some k)) \<Rightarrow> s\<lparr>st_credentials := Some k\<rparr>
    | (ResetCall, Inl e) \<Rightarrow> s\<lparr>st_error := e\<rparr>
    | (RemoveCall, Inl e) \<Rightarrow> s\<lparr>st_error := e\<rparr>
    | (EditStudentCall, Inr _) \<Rightarrow> s\<lparr>st_editing := None\<rparr>
    | _ \<Rightarrow> s)"

fun studentsEvent :: "students_event \<Rightarrow> students_view \<Rightarrow> students_view" where
  "studentsEvent OpenCreateStudent s = s\<lparr>st_creating := True\<rparr>"
| "studentsEvent CloseCreateStudent s = s\<lparr>st_creating := False\<rparr>"
| "studentsEvent (SubmitCreateStudent f) s = (if st_creating s \<and> canSaveStudent f then sendStudents (SendCreate f) CreateStudentCall s else s)"
| "studentsEvent (OpenEditStudent u) s = (if u \<in> set (st_students s) then s\<lparr>st_editing := Some u\<rparr> else s)"
| "studentsEvent CloseEditStudent s = s\<lparr>st_editing := None\<rparr>"
| "studentsEvent (SubmitEditStudent f) s = (case st_editing s of
      Some u \<Rightarrow> if canSaveStudent f then sendStudents (SendEdit (user_id u) f) EditStudentCall s else s
    | None \<Rightarrow> s)"
| "studentsEvent (ResetStudent u) s =
    (if u \<in> set (st_students s) then sendStudents (SendReset (user_id u)) ResetCall (s\<lparr>st_error := []\<rparr>) else s)"
| "studentsEvent (RemoveStudentAccount u) s =
    (if u \<in> set (st_students s) then sendStudents (SendRemove (user_id u)) RemoveCall (s\<lparr>st_error := []\<rparr>) else s)"
| "studentsEvent CloseCredentials s = s\<lparr>st_credentials := None\<rparr>"
| "studentsEvent (StudentsChanged us) s = s\<lparr>st_students := us\<rparr>"
| "studentsEvent (StudentsAnswered i a) s =
    (if i < length (st_calls s) then studentsAnswer (st_calls s ! i) a (s\<lparr>st_calls := take i (st_calls s) @ drop (Suc i) (st_calls s)\<rparr>) else s)"

section \<open>The workspace of a classroom\<close>

record classroom_roster =
  cr_classroom :: classroom
  cr_students :: "user list"

record classroom_team =
  ct_owner :: user
  ct_teachers :: "user list"

datatype workspace_section =
    OverviewSection | StudentsSection | MaterialsSection | AssignmentsSection | QuizzesSection | AttendanceSection | LiveSection | TeachersSection

text \<open>What is done with the classroom; a change is followed by a load.\<close>

datatype workspace_action =
    RemoveTeacherAction jsstring
  | AddTeacherAction jsstring
  | EnrolAction jsstring
  | UnenrolAction jsstring
  | UploadAction
  | OpenMaterialAction jsstring jsstring
  | RenameAction jsstring jsstring
  | DeleteMaterialAction jsstring
  | ArchiveAction
  | SaveClassroomAction classroom_form
  | NewStudentAction student_form
  | ChangeStudentAction jsstring student_form

text \<open>What waits for a load: nothing, the marker of the busy item, or the upload.\<close>

datatype after_load = AfterNothing | AfterBusy | AfterUpload

datatype workspace_call =
    WorkspaceLoad after_load
  | WorkspaceAction workspace_action
  | WorkspaceSettle after_load

record material_preview =
  mp_url :: jsstring
  mp_mime :: jsstring
  mp_name :: jsstring

record classroom_workspace =
  cw_id :: jsstring
  cw_user :: user
  cw_students :: "user list"
  cw_open :: bool
  cw_section :: workspace_section
  cw_roster :: "classroom_roster option"
  cw_team :: "classroom_team option"
  cw_accounts :: "user list"
  cw_to_add :: jsstring
  cw_materials :: "study_node list"
  cw_preview :: "material_preview option"
  cw_adding :: bool
  cw_creating :: bool
  cw_changing :: "user option"
  cw_credentials :: "student_credentials option"
  cw_editing :: bool
  cw_busy :: jsstring
  cw_uploading :: bool
  cw_error :: jsstring
  cw_load_error :: jsstring
  cw_loading :: bool
  cw_calls :: "workspace_call list"
  cw_sent :: "workspace_action list"

definition addWork :: "workspace_call \<Rightarrow> classroom_workspace \<Rightarrow> classroom_workspace" where
  "addWork c s = s\<lparr>cw_calls := cw_calls s @ [c]\<rparr>"

text \<open>\<open>load\<close>: the four requests are one call.\<close>

definition loadClassroom :: "after_load \<Rightarrow> classroom_workspace \<Rightarrow> classroom_workspace" where
  "loadClassroom after s = addWork (WorkspaceLoad after) (s\<lparr>cw_loading := True, cw_load_error := []\<rparr>)"

definition startWorkspace :: "jsstring \<Rightarrow> user \<Rightarrow> user list \<Rightarrow> classroom_workspace" where
  "startWorkspace i u us = loadClassroom AfterNothing
     \<lparr>cw_id = i, cw_user = u, cw_students = us, cw_open = True, cw_section = OverviewSection, cw_roster = None, cw_team = None,
      cw_accounts = [], cw_to_add = [], cw_materials = [], cw_preview = None, cw_adding = False, cw_creating = False, cw_changing = None,
      cw_credentials = None, cw_editing = False, cw_busy = [], cw_uploading = False, cw_error = [], cw_load_error = [], cw_loading = True,
      cw_calls = [], cw_sent = []\<rparr>"

definition classMaterials :: "jsstring \<Rightarrow> study_node list \<Rightarrow> study_node list" where
  "classMaterials i ns = filter (\<lambda>n. (node_owner_id n = None \<or> node_owner_id n = Some []) \<and> node_classroom_id n = Some i \<and> node_kind n = PdfNode) ns"

type_synonym classroom_answer = "classroom_roster \<times> study_node list \<times> classroom_team \<times> user list"

text \<open>The end of a load, and of what waits for it.\<close>

definition classroomAnswer :: "jsstring + classroom_answer \<Rightarrow> after_load \<Rightarrow> classroom_workspace \<Rightarrow> classroom_workspace" where
  "classroomAnswer a after s =
     (let s1 = (case a of
          Inr (r, ns, t, us) \<Rightarrow> s\<lparr>cw_roster := Some r, cw_team := Some t, cw_accounts := us, cw_materials := classMaterials (cw_id s) ns\<rparr>
        | Inl e \<Rightarrow> s\<lparr>cw_load_error := e\<rparr>)
      in (if after = AfterNothing then id else addWork (WorkspaceSettle after)) (s1\<lparr>cw_loading := False\<rparr>))"

definition settleWork :: "after_load \<Rightarrow> classroom_workspace \<Rightarrow> classroom_workspace" where
  "settleWork after s = (case after of
      AfterBusy \<Rightarrow> s\<lparr>cw_busy := []\<rparr>
    | AfterUpload \<Rightarrow> s\<lparr>cw_uploading := False\<rparr>
    | AfterNothing \<Rightarrow> s)"

section \<open>What the workspace shows\<close>

definition enrolledIds :: "classroom_workspace \<Rightarrow> jsstring list" where
  "enrolledIds s = (case cw_roster s of Some r \<Rightarrow> map user_id (cr_students r) | None \<Rightarrow> [])"

definition isOwner :: "classroom_workspace \<Rightarrow> bool" where
  "isOwner s = (case cw_roster s of Some r \<Rightarrow> owner_teacher_id (cr_classroom r) = user_id (cw_user s) | None \<Rightarrow> False)"

definition availableTeachers :: "classroom_workspace \<Rightarrow> user list" where
  "availableTeachers s = filter (\<lambda>t. user_id t \<notin> (case cw_team s of
      Some c \<Rightarrow> set (user_id (ct_owner c) # map user_id (ct_teachers c)) | None \<Rightarrow> {})) (cw_accounts s)"

definition rosterList :: "classroom_workspace \<Rightarrow> user list" where
  "rosterList s =
     (if cw_adding s then filter (\<lambda>u. user_id u \<notin> set (enrolledIds s)) (cw_students s)
      else case cw_roster s of Some r \<Rightarrow> cr_students r | None \<Rightarrow> [])"

section \<open>Operations\<close>

definition startAction :: "workspace_action \<Rightarrow> classroom_workspace \<Rightarrow> classroom_workspace" where
  "startAction a s = addWork (WorkspaceAction a) (s\<lparr>cw_sent := cw_sent s @ [a]\<rparr>)"

definition busyAction :: "jsstring \<Rightarrow> workspace_action \<Rightarrow> classroom_workspace \<Rightarrow> classroom_workspace" where
  "busyAction m a s = startAction a (s\<lparr>cw_busy := m, cw_error := []\<rparr>)"

definition teacherMark :: "jsstring \<Rightarrow> jsstring" where
  "teacherMark i = js ''teacher:'' @ i"

definition clickStudent :: "user \<Rightarrow> classroom_workspace \<Rightarrow> classroom_workspace" where
  "clickStudent u s =
     (if u \<notin> set (rosterList s) \<or> cw_busy s = user_id u then s
      else busyAction (user_id u) (if user_id u \<in> set (enrolledIds s) then UnenrolAction (user_id u) else EnrolAction (user_id u)) s)"

definition clickRemoveTeacher :: "user \<Rightarrow> classroom_workspace \<Rightarrow> classroom_workspace" where
  "clickRemoveTeacher t s =
     (if isOwner s \<and> t \<in> (case cw_team s of Some c \<Rightarrow> set (ct_teachers c) | None \<Rightarrow> {}) \<and> cw_busy s \<noteq> teacherMark (user_id t)
      then busyAction (teacherMark (user_id t)) (RemoveTeacherAction (user_id t)) s else s)"

definition clickAddTeacher :: "classroom_workspace \<Rightarrow> classroom_workspace" where
  "clickAddTeacher s =
     (if isOwner s \<and> availableTeachers s \<noteq> [] \<and> cw_to_add s \<noteq> [] \<and> cw_busy s = []
      then busyAction (teacherMark (cw_to_add s)) (AddTeacherAction (cw_to_add s)) s else s)"

definition uploadFile :: "classroom_workspace \<Rightarrow> classroom_workspace" where
  "uploadFile s = (if cw_uploading s then s else startAction UploadAction (s\<lparr>cw_uploading := True, cw_error := []\<rparr>))"

definition openMaterial :: "study_node \<Rightarrow> classroom_workspace \<Rightarrow> classroom_workspace" where
  "openMaterial m s =
     (if m \<in> set (cw_materials s) \<and> cw_busy s \<noteq> node_id m then busyAction (node_id m) (OpenMaterialAction (node_id m) (node_name m)) s else s)"

definition renameMaterial :: "study_node \<Rightarrow> jsstring option \<Rightarrow> classroom_workspace \<Rightarrow> classroom_workspace" where
  "renameMaterial m prompted s = (case prompted of
      Some t \<Rightarrow> if m \<notin> set (cw_materials s) \<or> trim t = [] \<or> trim t = node_name m then s else startAction (RenameAction (node_id m) (trim t)) s
    | None \<Rightarrow> s)"

definition deleteMaterial :: "study_node \<Rightarrow> classroom_workspace \<Rightarrow> classroom_workspace" where
  "deleteMaterial m s = (if m \<in> set (cw_materials s) then startAction (DeleteMaterialAction (node_id m)) s else s)"

definition archiveClassroom :: "classroom_workspace \<Rightarrow> classroom_workspace" where
  "archiveClassroom s = (if isOwner s then startAction ArchiveAction s else s)"

text \<open>What an action is answered: a failure, sign-in details, the bytes of a material, or nothing that is used.\<close>

datatype action_answer = ActionFailed jsstring | ActionDone | ActionCredentials student_credentials | ActionBlob jsstring jsstring

definition actionFailed :: "workspace_action \<Rightarrow> jsstring \<Rightarrow> classroom_workspace \<Rightarrow> classroom_workspace" where
  "actionFailed a e s = (case a of
      UploadAction \<Rightarrow> s\<lparr>cw_error := e, cw_uploading := False\<rparr>
    | RemoveTeacherAction _ \<Rightarrow> s\<lparr>cw_error := e, cw_busy := []\<rparr>
    | AddTeacherAction _ \<Rightarrow> s\<lparr>cw_error := e, cw_busy := []\<rparr>
    | EnrolAction _ \<Rightarrow> s\<lparr>cw_error := e, cw_busy := []\<rparr>
    | UnenrolAction _ \<Rightarrow> s\<lparr>cw_error := e, cw_busy := []\<rparr>
    | OpenMaterialAction _ _ \<Rightarrow> s\<lparr>cw_error := e, cw_busy := []\<rparr>
    | _ \<Rightarrow> s)"

definition actionDone :: "workspace_action \<Rightarrow> action_answer \<Rightarrow> classroom_workspace \<Rightarrow> classroom_workspace" where
  "actionDone a ans s = (case (a, ans) of
      (_, ActionFailed e) \<Rightarrow> actionFailed a e s
    | (OpenMaterialAction i name, ActionBlob url mime) \<Rightarrow>
        s\<lparr>cw_preview := Some \<lparr>mp_url = url, mp_mime = mime, mp_name = name\<rparr>, cw_busy := []\<rparr>
    | (NewStudentAction _, ActionCredentials k) \<Rightarrow> loadClassroom AfterNothing (s\<lparr>cw_creating := False, cw_credentials := Some k\<rparr>)
    | (AddTeacherAction _, ActionDone) \<Rightarrow> loadClassroom AfterBusy (s\<lparr>cw_to_add := []\<rparr>)
    | (RemoveTeacherAction _, ActionDone) \<Rightarrow> loadClassroom AfterBusy s
    | (EnrolAction _, ActionDone) \<Rightarrow> loadClassroom AfterBusy s
    | (UnenrolAction _, ActionDone) \<Rightarrow> loadClassroom AfterBusy s
    | (UploadAction, ActionDone) \<Rightarrow> loadClassroom AfterUpload s
    | (ArchiveAction, ActionDone) \<Rightarrow> s\<lparr>cw_open := False\<rparr>
    | (SaveClassroomAction _, ActionDone) \<Rightarrow> loadClassroom AfterNothing (s\<lparr>cw_editing := False\<rparr>)
    | (ChangeStudentAction _ _, ActionDone) \<Rightarrow> loadClassroom AfterNothing (s\<lparr>cw_changing := None\<rparr>)
    | (RenameAction _ _, ActionDone) \<Rightarrow> loadClassroom AfterNothing s
    | (DeleteMaterialAction _, ActionDone) \<Rightarrow> loadClassroom AfterNothing s
    | _ \<Rightarrow> s)"

section \<open>Steps\<close>

datatype workspace_event =
    ChooseSection workspace_section | ToggleAdding | ChooseTeacher jsstring
  | ClickStudent user | ClickRemoveTeacher user | ClickAddTeacher
  | UploadFile | OpenMaterial study_node | RenameMaterial study_node "jsstring option" | DeleteMaterial study_node | ClosePreview
  | ArchiveClassroom | OpenClassroomForm | CloseClassroomForm | SubmitClassroom classroom_form
  | OpenNewStudent | CloseNewStudent | SubmitNewStudent student_form
  | OpenChangeStudent user | CloseChangeStudent | SubmitChangeStudent student_form | CloseStudentCredentials
  | RetryLoad | PeopleChanged "user list"
  | ClassroomLoaded nat "jsstring + classroom_answer" | ActionAnswered nat action_answer | WorkSettled nat

definition workAt :: "nat \<Rightarrow> classroom_workspace \<Rightarrow> workspace_call option" where
  "workAt i s = (if i < length (cw_calls s) then Some (cw_calls s ! i) else None)"

definition takeWork :: "nat \<Rightarrow> classroom_workspace \<Rightarrow> classroom_workspace" where
  "takeWork i s = s\<lparr>cw_calls := take i (cw_calls s) @ drop (Suc i) (cw_calls s)\<rparr>"

fun workspaceEvent :: "workspace_event \<Rightarrow> classroom_workspace \<Rightarrow> classroom_workspace" where
  "workspaceEvent (ChooseSection c) s = s\<lparr>cw_section := c\<rparr>"
| "workspaceEvent ToggleAdding s = s\<lparr>cw_adding := \<not> cw_adding s\<rparr>"
| "workspaceEvent (ChooseTeacher i) s = (if i = [] \<or> i \<in> user_id ` set (availableTeachers s) then s\<lparr>cw_to_add := i\<rparr> else s)"
| "workspaceEvent (ClickStudent u) s = clickStudent u s"
| "workspaceEvent (ClickRemoveTeacher t) s = clickRemoveTeacher t s"
| "workspaceEvent ClickAddTeacher s = clickAddTeacher s"
| "workspaceEvent UploadFile s = uploadFile s"
| "workspaceEvent (OpenMaterial m) s = openMaterial m s"
| "workspaceEvent (RenameMaterial m t) s = renameMaterial m t s"
| "workspaceEvent (DeleteMaterial m) s = deleteMaterial m s"
| "workspaceEvent ClosePreview s = s\<lparr>cw_preview := None\<rparr>"
| "workspaceEvent ArchiveClassroom s = archiveClassroom s"
| "workspaceEvent OpenClassroomForm s = (if cw_roster s = None then s else s\<lparr>cw_editing := True\<rparr>)"
| "workspaceEvent CloseClassroomForm s = s\<lparr>cw_editing := False\<rparr>"
| "workspaceEvent (SubmitClassroom f) s =
    (if cw_editing s \<and> cw_roster s \<noteq> None \<and> trim (cf_name f) \<noteq> [] then startAction (SaveClassroomAction f) s else s)"
| "workspaceEvent OpenNewStudent s = s\<lparr>cw_creating := True\<rparr>"
| "workspaceEvent CloseNewStudent s = s\<lparr>cw_creating := False\<rparr>"
| "workspaceEvent (SubmitNewStudent f) s =
    (if cw_creating s \<and> cw_roster s \<noteq> None \<and> canSaveStudent f then startAction (NewStudentAction f) s else s)"
| "workspaceEvent (OpenChangeStudent u) s = (if u \<in> set (rosterList s) \<and> user_id u \<in> set (enrolledIds s) then s\<lparr>cw_changing := Some u\<rparr> else s)"
| "workspaceEvent CloseChangeStudent s = s\<lparr>cw_changing := None\<rparr>"
| "workspaceEvent (SubmitChangeStudent f) s = (case cw_changing s of
      Some u \<Rightarrow> if canSaveStudent f then startAction (ChangeStudentAction (user_id u) f) s else s
    | None \<Rightarrow> s)"
| "workspaceEvent CloseStudentCredentials s = s\<lparr>cw_credentials := None\<rparr>"
| "workspaceEvent RetryLoad s = loadClassroom AfterNothing s"
| "workspaceEvent (PeopleChanged us) s = s\<lparr>cw_students := us\<rparr>"
| "workspaceEvent (ClassroomLoaded i a) s = (case workAt i s of Some (WorkspaceLoad after) \<Rightarrow> classroomAnswer a after (takeWork i s) | _ \<Rightarrow> s)"
| "workspaceEvent (ActionAnswered i a) s = (case workAt i s of Some (WorkspaceAction x) \<Rightarrow> actionDone x a (takeWork i s) | _ \<Rightarrow> s)"
| "workspaceEvent (WorkSettled i) s = (case workAt i s of Some (WorkspaceSettle after) \<Rightarrow> settleWork after (takeWork i s) | _ \<Rightarrow> s)"

text \<open>An archived classroom is left: the workspace is gone.\<close>

definition workspaceStep :: "workspace_event \<Rightarrow> classroom_workspace \<Rightarrow> classroom_workspace" where
  "workspaceStep e s = (if cw_open s then workspaceEvent e s else s)"

section \<open>Lemmas\<close>

lemma addWork_simps [simp]:
  "cw_sent (addWork c s) = cw_sent s" "cw_calls (addWork c s) = cw_calls s @ [c]" "cw_id (addWork c s) = cw_id s"
  "cw_materials (addWork c s) = cw_materials s" "cw_roster (addWork c s) = cw_roster s" "cw_open (addWork c s) = cw_open s"
  "cw_adding (addWork c s) = cw_adding s" "cw_students (addWork c s) = cw_students s" "cw_busy (addWork c s) = cw_busy s"
  by (simp_all add: addWork_def)

lemma loadClassroom_simps [simp]:
  "cw_sent (loadClassroom a s) = cw_sent s" "cw_id (loadClassroom a s) = cw_id s" "cw_materials (loadClassroom a s) = cw_materials s"
  "cw_open (loadClassroom a s) = cw_open s"
  by (simp_all add: loadClassroom_def)

lemma startAction_simps [simp]:
  "cw_sent (startAction a s) = cw_sent s @ [a]" "cw_id (startAction a s) = cw_id s" "cw_materials (startAction a s) = cw_materials s"
  "cw_roster (startAction a s) = cw_roster s" "cw_open (startAction a s) = cw_open s" "cw_adding (startAction a s) = cw_adding s"
  "cw_students (startAction a s) = cw_students s" "cw_busy (startAction a s) = cw_busy s"
  "cw_calls (startAction a s) = cw_calls s @ [WorkspaceAction a]"
  by (simp_all add: startAction_def)

lemma busyAction_simps [simp]:
  "cw_sent (busyAction m a s) = cw_sent s @ [a]" "cw_id (busyAction m a s) = cw_id s" "cw_materials (busyAction m a s) = cw_materials s"
  "cw_roster (busyAction m a s) = cw_roster s" "cw_open (busyAction m a s) = cw_open s" "cw_adding (busyAction m a s) = cw_adding s"
  "cw_students (busyAction m a s) = cw_students s" "cw_busy (busyAction m a s) = m"
  "cw_calls (busyAction m a s) = cw_calls s @ [WorkspaceAction a]"
  by (simp_all add: busyAction_def)

lemma takeWork_simps [simp]:
  "cw_sent (takeWork i s) = cw_sent s" "cw_id (takeWork i s) = cw_id s" "cw_materials (takeWork i s) = cw_materials s"
  "cw_open (takeWork i s) = cw_open s" "cw_calls (takeWork i s) = take i (cw_calls s) @ drop (Suc i) (cw_calls s)"
  by (simp_all add: takeWork_def)

lemma rosterList_cong:
  "cw_adding s' = cw_adding s \<Longrightarrow> cw_roster s' = cw_roster s \<Longrightarrow> cw_students s' = cw_students s \<Longrightarrow>
    rosterList s' = rosterList s \<and> enrolledIds s' = enrolledIds s"
  by (simp add: rosterList_def enrolledIds_def)

section \<open>What is sent\<close>

inductive workspaceRun :: "classroom_workspace \<Rightarrow> bool" where
  workspace_start: "workspaceRun (startWorkspace i u us)"
| workspace_step: "workspaceRun s \<Longrightarrow> workspaceRun (workspaceStep e s)"

definition sharedPdf :: "jsstring \<Rightarrow> study_node \<Rightarrow> bool" where
  "sharedPdf i n \<longleftrightarrow> (node_owner_id n = None \<or> node_owner_id n = Some []) \<and> node_classroom_id n = Some i \<and> node_kind n = PdfNode"

lemma actionDone_frames [simp]:
  "cw_id (actionDone a ans s) = cw_id s" "cw_materials (actionDone a ans s) = cw_materials s" "cw_sent (actionDone a ans s) = cw_sent s"
  by (cases a; cases ans; simp add: actionDone_def actionFailed_def)+

lemma settleWork_frames [simp]:
  "cw_id (settleWork a s) = cw_id s" "cw_materials (settleWork a s) = cw_materials s" "cw_sent (settleWork a s) = cw_sent s"
  by (cases a; simp add: settleWork_def)+

lemma classroomAnswer_frames [simp]:
  "cw_id (classroomAnswer a after s) = cw_id s" "cw_sent (classroomAnswer a after s) = cw_sent s"
  "cw_materials (classroomAnswer a after s) = (case a of Inr (r, ns, t, us) \<Rightarrow> classMaterials (cw_id s) ns | Inl _ \<Rightarrow> cw_materials s)"
  by (auto simp: classroomAnswer_def Let_def split: sum.split)

lemma click_frames [simp]:
  "cw_id (clickStudent u s) = cw_id s" "cw_materials (clickStudent u s) = cw_materials s"
  "cw_id (clickRemoveTeacher u s) = cw_id s" "cw_materials (clickRemoveTeacher u s) = cw_materials s"
  "cw_id (clickAddTeacher s) = cw_id s" "cw_materials (clickAddTeacher s) = cw_materials s"
  "cw_id (uploadFile s) = cw_id s" "cw_materials (uploadFile s) = cw_materials s"
  "cw_id (openMaterial m s) = cw_id s" "cw_materials (openMaterial m s) = cw_materials s"
  "cw_id (renameMaterial m t s) = cw_id s" "cw_materials (renameMaterial m t s) = cw_materials s"
  "cw_id (deleteMaterial m s) = cw_id s" "cw_materials (deleteMaterial m s) = cw_materials s"
  "cw_id (archiveClassroom s) = cw_id s" "cw_materials (archiveClassroom s) = cw_materials s"
  by (simp_all add: clickStudent_def clickRemoveTeacher_def clickAddTeacher_def uploadFile_def openMaterial_def renameMaterial_def
      deleteMaterial_def archiveClassroom_def split: option.split)

lemma workspace_materials: "workspaceRun s \<Longrightarrow> list_all (sharedPdf (cw_id s)) (cw_materials s)"
proof (induction rule: workspaceRun.induct)
  case (workspace_start i u us)
  show ?case by (simp add: startWorkspace_def)
next
  case (workspace_step s e)
  have "list_all (sharedPdf i) (classMaterials i ns)" for i ns
    by (auto simp: classMaterials_def sharedPdf_def list_all_iff)
  then show ?case using workspace_step.IH
    by (cases e) (auto simp: workspaceStep_def split: option.split workspace_call.split sum.split)
qed

text \<open>What an action needs of the workspace that is on show.\<close>

definition actionAllowed :: "classroom_workspace \<Rightarrow> workspace_action \<Rightarrow> bool" where
  "actionAllowed s a = (case a of
      UnenrolAction i \<Rightarrow> i \<in> set (enrolledIds s)
    | EnrolAction i \<Rightarrow> i \<notin> set (enrolledIds s) \<and> i \<in> user_id ` set (cw_students s)
    | RemoveTeacherAction i \<Rightarrow> isOwner s \<and> (\<exists>c. cw_team s = Some c \<and> i \<in> user_id ` set (ct_teachers c))
    | AddTeacherAction i \<Rightarrow> isOwner s \<and> i = cw_to_add s \<and> i \<noteq> []
    | ArchiveAction \<Rightarrow> isOwner s
    | OpenMaterialAction i name \<Rightarrow> (\<exists>m. node_id m = i \<and> sharedPdf (cw_id s) m)
    | RenameAction i t \<Rightarrow> t \<noteq> [] \<and> (\<exists>m. node_id m = i \<and> sharedPdf (cw_id s) m)
    | DeleteMaterialAction i \<Rightarrow> (\<exists>m. node_id m = i \<and> sharedPdf (cw_id s) m)
    | NewStudentAction f \<Rightarrow> canSaveStudent f
    | ChangeStudentAction i f \<Rightarrow> canSaveStudent f
    | SaveClassroomAction f \<Rightarrow> trim (cf_name f) \<noteq> []
    | UploadAction \<Rightarrow> \<not> cw_uploading s)"

lemma clickStudent_allowed:
  assumes "u \<in> set (rosterList s)"
  shows "actionAllowed s (if user_id u \<in> set (enrolledIds s) then UnenrolAction (user_id u) else EnrolAction (user_id u))"
  using assms by (auto simp: actionAllowed_def rosterList_def enrolledIds_def split: if_splits option.splits)


section \<open>Answers out of order\<close>

lemma click_enrolled:
  assumes "cw_open s" "cw_adding s = False" "cw_roster s = Some r" "u \<in> set (cr_students r)" "cw_busy s \<noteq> user_id u"
  shows "workspaceStep (ClickStudent u) s = busyAction (user_id u) (UnenrolAction (user_id u)) s"
  using assms by (simp add: workspaceStep_def clickStudent_def rosterList_def enrolledIds_def)

lemma removal_answered:
  assumes "cw_open s" "cw_calls s = WorkspaceAction (UnenrolAction i) # cs"
  shows "workspaceStep (ActionAnswered 0 ActionDone) s = loadClassroom AfterBusy (takeWork 0 s)"
  using assms by (simp add: workspaceStep_def workAt_def actionDone_def)

lemma load_answered:
  assumes "cw_open s" "workAt i s = Some (WorkspaceLoad AfterBusy)"
  shows "workspaceStep (ClassroomLoaded i a) s = classroomAnswer a AfterBusy (takeWork i s)"
  using assms by (simp add: workspaceStep_def)

text \<open>A late roster puts a removed student back: when two students are removed one after the other and the load that follows the first
removal is answered after the load that follows the second, the workspace ends with the older roster, so that the second student is
shown as enrolled although both removals were accepted and the newest roster was already shown.\<close>

theorem late_roster_restores_removed_student:
  assumes "cw_open s" "cw_adding s = False" "cw_calls s = []" "cw_roster s = Some r" "{x, y} \<subseteq> set (cr_students r)" "user_id x \<noteq> user_id y" "cw_busy s = []" "user_id x \<noteq> []"
    and "y \<in> set (cr_students old)" "new = (r2, ns, t, us)"
    and "s' = fold workspaceStep [ClickStudent x, ClickStudent y, ActionAnswered 0 ActionDone, ActionAnswered 0 ActionDone,
      ClassroomLoaded 1 (Inr new), ClassroomLoaded 0 (Inr (old, ns', t', us'))] s"
  shows "cw_sent s' = cw_sent s @ [UnenrolAction (user_id x), UnenrolAction (user_id y)] \<and> cw_roster s' = Some old \<and> user_id y \<in> set (enrolledIds s')"
proof -
  let ?b = "busyAction (user_id y) (UnenrolAction (user_id y)) (busyAction (user_id x) (UnenrolAction (user_id x)) s)"
  have "workspaceStep (ClickStudent y) (workspaceStep (ClickStudent x) s) = ?b"
    using assms(1-8) by (simp add: click_enrolled [of s r x] click_enrolled [of _ r y])
  then have "fold workspaceStep [ClickStudent x, ClickStudent y, ActionAnswered 0 ActionDone, ActionAnswered 0 ActionDone] s =
      loadClassroom AfterBusy (takeWork 0 (loadClassroom AfterBusy (takeWork 0 ?b)))"
    using assms(1,3) by (simp add: removal_answered [where i = "user_id x"] removal_answered [where i = "user_id y"] loadClassroom_def)
  then show ?thesis
    using assms(1,3,9) unfolding assms(10,11)
    by (simp add: load_answered workAt_def loadClassroom_def classroomAnswer_def Let_def enrolledIds_def addWork_def takeWork_def busyAction_def startAction_def)
qed

text \<open>The marker of what is busy is shared, so a change can be sent twice: while the removal of a student is on its way, clicking another
student moves the marker, the button of the first student is enabled again and a second click sends the same removal again.\<close>

theorem second_click_sends_removal_twice:
  assumes "cw_open s" "cw_adding s = False" "cw_roster s = Some r" "{x, y} \<subseteq> set (cr_students r)" "user_id x \<noteq> user_id y" "cw_busy s \<noteq> user_id x"
  shows "cw_sent (fold workspaceStep [ClickStudent x, ClickStudent x] s) = cw_sent s @ [UnenrolAction (user_id x)] \<and>
    cw_sent (fold workspaceStep [ClickStudent x, ClickStudent y, ClickStudent x] s) =
      cw_sent s @ [UnenrolAction (user_id x), UnenrolAction (user_id y), UnenrolAction (user_id x)]"
proof -
  have x: "workspaceStep (ClickStudent x) s = busyAction (user_id x) (UnenrolAction (user_id x)) s"
    using assms by (simp add: click_enrolled)
  then have "workspaceStep (ClickStudent x) (workspaceStep (ClickStudent x) s) = workspaceStep (ClickStudent x) s"
    using assms(1) by (simp add: workspaceStep_def clickStudent_def)
  then show ?thesis using assms x by (simp add: click_enrolled [of _ r])
qed

text \<open>The sign-in details of a student can be lost although they are shown only once: when the details of two students are reset one after
the other, the answer for the second replaces the details of the first, which the teacher may not have seen.\<close>

theorem later_details_hide_earlier:
  assumes "{u, v} \<subseteq> set (st_students s)" "st_calls s = []"
  shows "let s' = fold studentsEvent [ResetStudent u, ResetStudent v, StudentsAnswered 0 (Inr (Some k)), StudentsAnswered 0 (Inr (Some l))] s
    in st_sent s' = st_sent s @ [SendReset (user_id u), SendReset (user_id v)] \<and> st_credentials s' = Some l"
  using assms by (simp add: sendStudents_def studentsAnswer_def Let_def)

section \<open>Examples\<close>

definition pupil :: "string \<Rightarrow> user" where
  "pupil i = \<lparr>user_id = js i, username = js i, display_name = js i, user_role = Student, grade_level = None, user_section = None,
     roll_number = None, must_change_password = False, user_created_at = []\<rparr>"

definition exampleTeam :: classroom_team where
  "exampleTeam = \<lparr>ct_owner = pupil ''t'', ct_teachers = []\<rparr>"

definition exampleRoster :: "user list \<Rightarrow> classroom_roster" where
  "exampleRoster us = \<lparr>cr_classroom = \<lparr>classroom_id = js ''c'', classroom_name = js ''Physics'', subject_code = None, description = [], color = [],
     owner_teacher_id = js ''t'', owner_teacher_name = [], enrolment_code = [], student_count = 2, classroom_created_at = []\<rparr>, cr_students = us\<rparr>"

definition loadedWorkspace :: classroom_workspace where
  "loadedWorkspace = workspaceStep (ClassroomLoaded 0 (Inr (exampleRoster [pupil ''x'', pupil ''y''], [], exampleTeam, [pupil ''t''])))
     (startWorkspace (js ''c'') (pupil ''t'') [])"

lemma loadedWorkspace_simps:
  "cw_open loadedWorkspace" "\<not> cw_adding loadedWorkspace" "cw_calls loadedWorkspace = []" "cw_sent loadedWorkspace = []" "cw_busy loadedWorkspace = []"
  "cw_roster loadedWorkspace = Some (exampleRoster [pupil ''x'', pupil ''y''])"
  by (simp_all add: loadedWorkspace_def startWorkspace_def loadClassroom_def addWork_def workspaceStep_def workAt_def takeWork_def classroomAnswer_def Let_def)

lemma pupil_ids: "user_id (pupil ''x'') = js ''x''" "user_id (pupil ''y'') = js ''y''" "js ''x'' \<noteq> js ''y''" "js ''x'' \<noteq> []" "js ''y'' \<noteq> []"
  by (simp_all add: pupil_def js_def)

lemma cr_students_roster [simp]: "cr_students (exampleRoster us) = us"
  by (simp add: exampleRoster_def)


theorem late_roster_restores_removed_student_witness:
  "js ''y'' \<in> set (enrolledIds (fold workspaceStep [ClickStudent (pupil ''x''), ClickStudent (pupil ''y''), ActionAnswered 0 ActionDone, ActionAnswered 0 ActionDone,
      ClassroomLoaded 1 (Inr (exampleRoster [], [], exampleTeam, [])), ClassroomLoaded 0 (Inr (exampleRoster [pupil ''y''], [], exampleTeam, []))] loadedWorkspace))"
  using late_roster_restores_removed_student [where s = loadedWorkspace and x = "pupil ''x''" and y = "pupil ''y''" and old = "exampleRoster [pupil ''y'']",
      OF loadedWorkspace_simps(1) _ loadedWorkspace_simps(3,6) _ _ loadedWorkspace_simps(5) _ _ refl refl] loadedWorkspace_simps(2) pupil_ids
  by simp

theorem second_click_sends_removal_twice_witness:
  "cw_sent (fold workspaceStep [ClickStudent (pupil ''x''), ClickStudent (pupil ''y''), ClickStudent (pupil ''x'')] loadedWorkspace) =
     [UnenrolAction (js ''x''), UnenrolAction (js ''y''), UnenrolAction (js ''x'')]"
  using second_click_sends_removal_twice [where s = loadedWorkspace and x = "pupil ''x''" and y = "pupil ''y''", OF loadedWorkspace_simps(1) _ loadedWorkspace_simps(6)]
    loadedWorkspace_simps pupil_ids by simp

theorem later_details_hide_earlier_witness:
  "st_credentials (fold studentsEvent [ResetStudent (pupil ''x''), ResetStudent (pupil ''y''),
      StudentsAnswered 0 (Inr (Some \<lparr>sc_user = pupil ''x'', sc_password = js ''1111'', sc_recovery = []\<rparr>)),
      StudentsAnswered 0 (Inr (Some \<lparr>sc_user = pupil ''y'', sc_password = js ''2222'', sc_recovery = []\<rparr>))]
     \<lparr>st_students = [pupil ''x'', pupil ''y''], st_creating = False, st_editing = None, st_credentials = None, st_error = [], st_calls = [], st_sent = []\<rparr>) =
   Some \<lparr>sc_user = pupil ''y'', sc_password = js ''2222'', sc_recovery = []\<rparr>"
  using later_details_hide_earlier [where u = "pupil ''x''" and v = "pupil ''y''" and k = "\<lparr>sc_user = pupil ''x'', sc_password = js ''1111'', sc_recovery = []\<rparr>"
      and l = "\<lparr>sc_user = pupil ''y'', sc_password = js ''2222'', sc_recovery = []\<rparr>"
      and s = "\<lparr>st_students = [pupil ''x'', pupil ''y''], st_creating = False, st_editing = None, st_credentials = None, st_error = [], st_calls = [], st_sent = []\<rparr>"]
  by (simp add: Let_def)

end
