(* ===== verification/Spec2Isabelle.thy ===== *)
theory Spec2Isabelle
  imports Gradebook_Headers Gradebook_Grades Paper_Recovery Paper_Citations Paper_Layout Paper_Library
    Host_Api Teacher_App Matchbox_Session Student_Device Student_Notes Student_Cards Student_Timer Student_Quizzes Teacher_Quizzes
    Document_History Paper_Studio Teacher_Register Teacher_Assignments Teacher_Classrooms
begin

text \<open>
  Cinder: the TypeScript applications of a school network. A teacher's computer runs a host (in Rust, with the database); the
  teacher app (\<open>apps/teacher\<close>), the student app of the classroom computer (\<open>apps/student\<close>) and the student's own workspace
  (\<open>apps/forge\<close>, also called Matchbox) talk to it over HTTP through one client (\<open>packages/ui\<close>). This library models the
  logic of the three apps and of the client, and proves what makes it correct. The host and its shells are seen
  through the answers of requests.

  \<^bold>\<open>How the parts interact.\<close> Every app builds a \<open>CinderApi\<close> for a host and a token, and keeps a session in the session store. The
  student apps keep answers of the host and work that waits for it in an IndexedDB database. What the teacher types into the
  gradebook's spreadsheet, or asks the assistant for, becomes grades that are requests to the host. Exam papers come as
  text of a language model, are repaired and normalized, saved on the host and printed as PDF.

  \<^bold>\<open>Theories and the code they model.\<close>

  \<^item> \<open>Cinder_Prelude\<close>: strings of the language as lists of UTF-16 code units, its numbers (rationals with the special values),
    \<open>trim\<close>, \<open>slice\<close>, \<open>split\<close>, \<open>Map\<close> and the environment \<open>js_env\<close> of what depends on the locale.
    \<open>Js_Regex\<close>: the regular expressions of the code as a backtracking matcher. \<open>Js_Uri\<close>: \<open>encodeURIComponent\<close> and its injectivity.
    \<open>Ui_Types\<close>: the records of \<open>packages/ui/src/types.ts\<close>.

  \<^item> \<open>Web_Storage\<close>: stores of keys and values, with the interfaces \<open>kv_store\<close> and \<open>scoped_store\<close>;
    \<open>Session_Store\<close>: \<open>session.ts\<close>; \<open>Student_Cache\<close>: \<open>cache.ts\<close>.

  \<^item> \<open>Host_Transport\<close>: \<open>hostTransport.ts\<close>, \<open>health.ts\<close> and \<open>request\<close> of \<open>api.ts\<close>; \<open>Host_Api\<close>: the calls of \<open>api.ts\<close>;
    \<open>Host_Address\<close>: the addresses of \<open>teacherSession.ts\<close>; \<open>Teacher_App\<close>: the rest of that file and the component \<open>App\<close> of the
    teacher's \<open>App.tsx\<close>, a state machine of sign-ins, retries, loads and changes of host over a store of connections. The views of
    that file: \<open>Teacher_Forms\<close>: the forms of accounts, students, classrooms and settings; \<open>Teacher_Classrooms\<close>: \<open>StudentsView\<close> and
    \<open>ClassroomWorkspace\<close>; \<open>Teacher_Register\<close>: \<open>AttendanceView\<close>; \<open>Teacher_Assignments\<close>: \<open>AssignmentsView\<close> with the review of a submission.

  \<^item> \<open>Matchbox_Session\<close>: \<open>matchboxSession.tsx\<close> as a state machine of requests in flight and a queue of session operations.

  \<^item> \<open>Classroom_State\<close>, \<open>Live_Session\<close>, \<open>Student_Classrooms\<close>: \<open>classroomState.ts\<close>, \<open>LiveSession.tsx\<close> and \<open>StudentClassrooms.tsx\<close>
    of the student's workspace; \<open>Forge_Data\<close>: \<open>forgeData.ts\<close>; \<open>Student_Timer\<close>: \<open>studentTools.ts\<close> and \<open>Countdown.tsx\<close>;
    \<open>Student_App\<close>: the component \<open>App\<close> of \<open>apps/student/src/App.tsx\<close>, with \<open>Student_Device\<close>: the connection, the lock and the forms of
    passwords; \<open>Student_Notes\<close>: \<open>NotesView\<close> and \<open>AssignmentsView\<close>; \<open>Student_Cards\<close>: \<open>FlashcardsView\<close>, the first page, the materials
    and \<open>FeedbackView\<close> of that file. \<open>Student_Quizzes\<close>: \<open>StudentQuizzes.tsx\<close>; \<open>Teacher_Quizzes\<close>: \<open>QuizManager.tsx\<close> and
    \<open>LiveSessionControls.tsx\<close>. \<open>Document_History\<close>: \<open>DocumentEditor.tsx\<close>.

  \<^item> \<open>Gradebook_Intent\<close>, \<open>Gradebook_Safety\<close>, \<open>Gradebook_Headers\<close>: \<open>gradebookIntent.ts\<close>; \<open>Gradebook_Sheet\<close>: the layout of
    \<open>UniverGradebook.tsx\<close>; \<open>Gradebook_Grades\<close>: its listener and synchronization with \<open>GradebookView.tsx\<close> and \<open>teacherFiles.ts\<close>.

  \<^item> \<open>Paper_Logic\<close>, \<open>Paper_Wellformed\<close>, \<open>Paper_Recovery\<close>, \<open>Paper_Citations\<close>: \<open>paperLogic.ts\<close>; \<open>Paper_Export\<close>, \<open>Paper_Layout\<close>:
    \<open>paperExport.ts\<close>; \<open>Paper_Library\<close>: \<open>paperLibrary.ts\<close>. \<open>Paper_Editing\<close>: the form, the worksheet, saving, exporting and publishing of
    \<open>PapersView.tsx\<close>; \<open>Paper_Sources\<close>: its references and the exchange with the assistant; \<open>Paper_Studio\<close>: the library and the
    studio that is mounted for the open paper, with the timer, the saves and the deletions.

  \<^bold>\<open>State and operations.\<close> A component's state is a record: what the hook or component keeps, with the store or database it
  writes to. An operation is a function of that state. An asynchronous function is cut where it waits: one operation up to
  the request, one for the answer, and what the function had captured is a task in between. So answers may come
  late, in any order, or never. Outcomes of requests, native calls and transactions are arguments; errors are values. Time is
  an argument.

  \<^bold>\<open>Interfaces.\<close> \<open>kv_store\<close> (read after write) is interpreted by \<open>localStorage\<close> (\<open>ls\<close>), the cache (\<open>cache\<close>) and the outbox
  (\<open>outbox\<close>); \<open>scoped_store\<close> (accounts with separate keys) by the cache and outbox of an account (\<open>account_cache\<close>,
  \<open>account_outbox\<close>); \<open>generation_guard\<close> (an answer to an older request changes nothing) by the sessions (\<open>mbg\<close>), the teacher's
  workspace (\<open>tw\<close>), the discovery of live sessions (\<open>ld\<close>), the controls of a live session (\<open>lr\<close>) and the loading of classrooms (\<open>cl\<close>). Their lemmas
  are proved once and carry the properties of the components.

  \<^bold>\<open>What the lemmas show.\<close> For each component there are an invariant or a type that every operation preserves, the result
  of the operations on every branch, and what they promise together: a saved session is that of the account signed in;
  late answers change nothing; waiting work is delivered once, by its owner; a result is sent once; a grade that is requested
  lies in its range; the sheet is a table of the class; nothing of a note is lost in a migration; a parsed paper is
  well-formed; a printed student copy has no answers; and round trips of frames, papers, CSV, page ranges and HTML. Where the
  code falls short of its purpose, a theorem says how.

  \<^bold>\<open>Parameters, bounds and fuel.\<close> Parameters stand for code that is not in the repository: \<open>JSON.parse\<close>, URL and date parsing,
  upper and lower case, number printing, the measures of pdf-lib, the HTML sanitizer, the native store, and the order an engine
  gives a list whose comparison is not a number. The theorems assume of them only what their statements name. Recursions are
  structural or have a measure, and no definition has fuel; the one loop that may run for ever, the resending of answers
  (\<open>resendLoop\<close>), is a partial function, with a theorem on when it ends. Lengths of frames are 32-bit words; other integers of the
  code are small and modelled as unbounded.

  \<^bold>\<open>Not modelled.\<close> The Rust host and shells (\<open>crates\<close>, \<open>src-tauri\<close>), which the model sees through answers; rendering, styles and
  icons, which compute nothing; the editors built on other libraries (Quill, ProseMirror, pdf.js, Univer's own worksheets), whose code is
  not in the repository; the updater and the native dialogs, which only call the shell; \<open>FigurePicker.tsx\<close>, which draws on a canvas;
  and the conversions over the browser's DOM (\<open>documentBridge.ts\<close>, \<open>documentFiles.ts\<close>), whose parser would be a parameter that does all
  the work.
\<close>

end
